(* ===== verification/Prelude.thy ===== *)
theory Prelude
  imports
    Main
    "HOL-Library.AList"
    "HOL-Library.Word"
    "HOL-Library.Sublist"
    "HOL-Library.Multiset"
    "HOL-Library.Char_ord"
    "HOL-Library.List_Lexorder"
begin

text \<open>
  What every component shares: the Rust standard library as far as the modelled code uses it
  (results, strings, integer parsing and printing, hash maps, time stamps), the generic
  contracts the components rely on (a keyed map, an append-only log, a decision that can be
  taken once, a fifo channel) as locales, and the lemma collections of the development.

  Conventions.  A Rust \<open>String\<close> is the list of its UTF-8 bytes (\<open>string\<close>), so
  \<open>len\<close> is \<open>length\<close> and the order of strings is the lexicographic order of their bytes.  A \<open>Result<T, E>\<close> is \<open>'e + 'a\<close> with \<open>Inl\<close> the
  error.  A computation that may panic returns an \<open>option\<close>, with \<open>None\<close> the panic.  A
  \<open>DateTime<Utc>\<close> is the integer number of nanoseconds since the epoch and a
  \<open>TimeDelta\<close> an integer number of nanoseconds; fresh UUIDs and readings of the clock are
  arguments of the operations that take them.
\<close>

named_theorems str_simps "equations of the string library"
named_theorems hm_simps "equations of the hash-map library"

section \<open>Results\<close>

type_synonym ('a, 'e) result = "'e + 'a"

fun is_ok :: "'e + 'a \<Rightarrow> bool" where
  "is_ok (Inl e) = False"
| "is_ok (Inr x) = True"

text \<open>
  A list of attempts on a state: a failing attempt leaves the state as it is, as a Rust method
  on \<open>&mut self\<close> that returns early does.
\<close>

fun attempts :: "('d \<Rightarrow> 's \<Rightarrow> 'e + 's) \<Rightarrow> 'd list \<Rightarrow> 's \<Rightarrow> 's" where
  "attempts f [] s = s"
| "attempts f (d # ds) s = attempts f ds (case f d s of Inl e \<Rightarrow> s | Inr s' \<Rightarrow> s')"

lemma attempts_append: "attempts f (ds @ es) s = attempts f es (attempts f ds s)"
  by (induction ds arbitrary: s) auto

lemma attempts_inv:
  assumes "\<And>d s s'. I s \<Longrightarrow> f d s = Inr s' \<Longrightarrow> I s'" and "I s"
  shows "I (attempts f ds s)"
  using assms(2)
proof (induction ds arbitrary: s)
  case Nil
  then show ?case by simp
next
  case (Cons d ds)
  then show ?case using assms(1) by (auto split: sum.splits)
qed

section \<open>Time\<close>

type_synonym time = int

definition nanos_per_sec :: int where
  "nanos_per_sec = 1000000000"

text \<open>\<open>TimeDelta::num_seconds\<close>: whole seconds, rounded towards zero.\<close>

definition num_seconds :: "int \<Rightarrow> int" where
  "num_seconds d = sgn d * (\<bar>d\<bar> div nanos_per_sec)"

lemma num_seconds_nonneg: "0 \<le> d \<Longrightarrow> num_seconds d = d div nanos_per_sec"
  by (cases "d = 0") (auto simp: num_seconds_def nanos_per_sec_def)

lemma le_div_pos_iff:
  fixes d k n :: int
  assumes n: "0 < n"
  shows "k \<le> d div n \<longleftrightarrow> k * n \<le> d"
proof
  assume "k \<le> d div n"
  then have "k * n \<le> d div n * n" using n by (simp add: mult_right_mono)
  also have "\<dots> \<le> d" using n by (simp add: minus_mod_eq_div_mult [symmetric])
  finally show "k * n \<le> d" .
next
  assume "k * n \<le> d"
  then have "k * n div n \<le> d div n" using n by (rule zdiv_mono1)
  then show "k \<le> d div n" using n by simp
qed

lemma num_seconds_ge:
  assumes "0 < k"
  shows "k \<le> num_seconds d \<longleftrightarrow> k * nanos_per_sec \<le> d"
proof (cases "0 \<le> d")
  case True
  then show ?thesis
    by (simp add: num_seconds_nonneg le_div_pos_iff nanos_per_sec_def)
next
  case False
  then have "num_seconds d \<le> 0"
    by (simp add: num_seconds_def nanos_per_sec_def mult_le_0_iff pos_imp_zdiv_nonneg_iff)
  with assms False show ?thesis
    by (auto simp: nanos_per_sec_def)
qed

text \<open>
  The calls of the \<open>chrono\<close> crate the code relies on, as a parameter: the constructors of
  \<open>TimeDelta\<close> and the arithmetic on \<open>DateTime\<close> panic out of range (\<open>None\<close>), the
  calendar fields, and the RFC 3339 texts.
\<close>

record chrono =
  td_seconds :: "int \<Rightarrow> int option"
  td_hours :: "int \<Rightarrow> int option"
  td_days :: "int \<Rightarrow> int option"
  dt_add :: "time \<Rightarrow> int \<Rightarrow> time option"
  dt_minute :: "time \<Rightarrow> nat"
  dt_hour :: "time \<Rightarrow> nat"
  dt_day :: "time \<Rightarrow> nat"
  dt_month :: "time \<Rightarrow> nat"
  dt_weekday :: "time \<Rightarrow> nat"
  to_rfc3339 :: "time \<Rightarrow> string"
  parse_rfc3339 :: "string \<Rightarrow> time option"

text \<open>
  The key-value store of PluresDB (\<open>pluresdb::CrdtStore\<close>), a parameter: \<open>put\<close> takes the
  key, the actor and the value, \<open>delete\<close> reports whether it failed, \<open>list\<close> returns the
  records.  \<open>crdt_laws\<close> states what the code relies on, through the contents \<open>view s\<close> of a
  store.
\<close>

record ('s, 'j) crdt =
  crdt_put :: "string \<Rightarrow> string \<Rightarrow> 'j \<Rightarrow> 's \<Rightarrow> 's"
  crdt_delete :: "string \<Rightarrow> 's \<Rightarrow> bool \<times> 's"
  crdt_list :: "'s \<Rightarrow> (string \<times> 'j) list"

definition crdt_laws :: "('s, 'j) crdt \<Rightarrow> ('s \<Rightarrow> string \<rightharpoonup> 'j) \<Rightarrow> bool" where
  "crdt_laws db view \<longleftrightarrow>
     (\<forall>k a v s. view (crdt_put db k a v s) = (view s)(k \<mapsto> v)) \<and>
     (\<forall>k s. view (snd (crdt_delete db k s)) = (view s)(k := None)) \<and>
     (\<forall>s. distinct (map fst (crdt_list db s)) \<and> map_of (crdt_list db s) = view s)"

text \<open>The laws hold of a store kept as an association list.\<close>

definition alist_crdt :: "((string \<times> 'j) list, 'j) crdt" where
  "alist_crdt = \<lparr>crdt_put = (\<lambda>k a v s. AList.update k v s), crdt_delete = (\<lambda>k s. (False, AList.delete k s)),
     crdt_list = AList.clearjunk\<rparr>"

lemma alist_crdt_laws: "crdt_laws alist_crdt map_of"
  by (auto simp: crdt_laws_def alist_crdt_def update_conv' delete_conv' distinct_clearjunk
    map_of_clearjunk fun_eq_iff)

section \<open>JSON values\<close>

text \<open>
  \<open>serde_json::Value\<close>.  A number is kept as its text; the keys of an object are distinct.
\<close>

datatype json =
    JNull
  | JBool bool
  | JNumber string
  | JString string
  | JArray "json list"
  | JObject "(string \<times> json) list"

text \<open>\<open>Value::get\<close> with a string key, and \<open>Value::as_str\<close>.\<close>

fun json_get :: "string \<Rightarrow> json \<Rightarrow> json option" where
  "json_get k (JObject kvs) = map_of kvs k"
| "json_get k _ = None"

fun json_as_str :: "json \<Rightarrow> string option" where
  "json_as_str (JString s) = Some s"
| "json_as_str _ = None"

section \<open>Strings\<close>

subsection \<open>Characters\<close>

definition is_ascii_digit :: "char \<Rightarrow> bool" where
  "is_ascii_digit c \<longleftrightarrow> 48 \<le> (of_char c :: nat) \<and> (of_char c :: nat) \<le> 57"

definition is_ascii_hexdigit :: "char \<Rightarrow> bool" where
  "is_ascii_hexdigit c \<longleftrightarrow>
     (let n = of_char c :: nat in
      (48 \<le> n \<and> n \<le> 57) \<or> (65 \<le> n \<and> n \<le> 70) \<or> (97 \<le> n \<and> n \<le> 102))"

definition ascii_lower :: "char \<Rightarrow> char" where
  "ascii_lower c = (let n = of_char c :: nat in if 65 \<le> n \<and> n \<le> 90 then char_of (n + 32) else c)"

definition ascii_upper :: "char \<Rightarrow> char" where
  "ascii_upper c = (let n = of_char c :: nat in if 97 \<le> n \<and> n \<le> 122 then char_of (n - 32) else c)"

text \<open>A byte that continues a UTF-8 sequence; a string may be cut only before any other byte.\<close>

definition is_utf8_cont :: "char \<Rightarrow> bool" where
  "is_utf8_cont c \<longleftrightarrow> 128 \<le> (of_char c :: nat) \<and> (of_char c :: nat) < 192"

definition is_char_boundary :: "string \<Rightarrow> nat \<Rightarrow> bool" where
  "is_char_boundary s n \<longleftrightarrow> n = length s \<or> (n < length s \<and> \<not> is_utf8_cont (s ! n))"

text \<open>\<open>&s[..n]\<close>: panics when \<open>n\<close> is past the end or inside a character.\<close>

definition slice_to :: "string \<Rightarrow> nat \<Rightarrow> string option" where
  "slice_to s n = (if is_char_boundary s n then Some (take n s) else None)"

subsection \<open>White space\<close>

text \<open>The UTF-8 encodings of the characters of \<open>char::is_whitespace\<close>.\<close>

definition ws_seqs :: "string list" where
  "ws_seqs =
     [[CHR 0x09], [CHR 0x0A], [CHR 0x0B], [CHR 0x0C], [CHR 0x0D], [CHR 0x20],
      [CHR 0xC2, CHR 0x85], [CHR 0xC2, CHR 0xA0], [CHR 0xE1, CHR 0x9A, CHR 0x80],
      [CHR 0xE2, CHR 0x80, CHR 0x80], [CHR 0xE2, CHR 0x80, CHR 0x81],
      [CHR 0xE2, CHR 0x80, CHR 0x82], [CHR 0xE2, CHR 0x80, CHR 0x83],
      [CHR 0xE2, CHR 0x80, CHR 0x84], [CHR 0xE2, CHR 0x80, CHR 0x85],
      [CHR 0xE2, CHR 0x80, CHR 0x86], [CHR 0xE2, CHR 0x80, CHR 0x87],
      [CHR 0xE2, CHR 0x80, CHR 0x88], [CHR 0xE2, CHR 0x80, CHR 0x89],
      [CHR 0xE2, CHR 0x80, CHR 0x8A], [CHR 0xE2, CHR 0x80, CHR 0xA8],
      [CHR 0xE2, CHR 0x80, CHR 0xA9], [CHR 0xE2, CHR 0x80, CHR 0xAF],
      [CHR 0xE2, CHR 0x81, CHR 0x9F], [CHR 0xE3, CHR 0x80, CHR 0x80]]"

text \<open>The number of bytes of the white-space character a string starts with, 0 if none.\<close>

definition ws_len :: "string \<Rightarrow> nat" where
  "ws_len s = (case find (\<lambda>w. prefix w s) ws_seqs of None \<Rightarrow> 0 | Some w \<Rightarrow> length w)"

definition ws_len_rev :: "string \<Rightarrow> nat" where
  "ws_len_rev s = (case find (\<lambda>w. prefix (rev w) s) ws_seqs of None \<Rightarrow> 0 | Some w \<Rightarrow> length w)"

function trim_start :: "string \<Rightarrow> string" where
  "trim_start s = (if s = [] \<or> ws_len s = 0 then s else trim_start (drop (ws_len s) s))"
  by pat_completeness auto
termination
  by (relation "measure length") auto

function trim_rev :: "string \<Rightarrow> string" where
  "trim_rev s = (if s = [] \<or> ws_len_rev s = 0 then s else trim_rev (drop (ws_len_rev s) s))"
  by pat_completeness auto
termination
  by (relation "measure length") auto

declare trim_start.simps [simp del] trim_rev.simps [simp del]

definition trim_end :: "string \<Rightarrow> string" where
  "trim_end s = rev (trim_rev (rev s))"

definition trim :: "string \<Rightarrow> string" where
  "trim s = trim_end (trim_start s)"

function split_ws_aux :: "string \<Rightarrow> string \<Rightarrow> string list" where
  "split_ws_aux acc s =
     (case s of
        [] \<Rightarrow> if acc = [] then [] else [rev acc]
      | c # cs \<Rightarrow>
          if ws_len s = 0 then split_ws_aux (c # acc) cs
          else (if acc = [] then [] else [rev acc]) @ split_ws_aux [] (drop (ws_len s) s))"
  by pat_completeness auto
termination
  by (relation "measure (length \<circ> snd)") auto

declare split_ws_aux.simps [simp del]

definition split_whitespace :: "string \<Rightarrow> string list" where
  "split_whitespace s = split_ws_aux [] s"

subsection \<open>Splitting and joining\<close>

definition strip_prefix :: "string \<Rightarrow> string \<Rightarrow> string option" where
  "strip_prefix p s = (if prefix p s then Some (drop (length p) s) else None)"

text \<open>\<open>str::split(char)\<close>: always at least one piece.\<close>

fun split_on :: "char \<Rightarrow> string \<Rightarrow> string list" where
  "split_on c [] = [[]]"
| "split_on c (x # xs) =
     (if x = c then [] # split_on c xs
      else (case split_on c xs of [] \<Rightarrow> [[x]] | w # ws \<Rightarrow> (x # w) # ws))"

fun split_once :: "char \<Rightarrow> string \<Rightarrow> (string \<times> string) option" where
  "split_once c [] = None"
| "split_once c (x # xs) =
     (if x = c then Some ([], xs)
      else (case split_once c xs of None \<Rightarrow> None | Some (a, b) \<Rightarrow> Some (x # a, b)))"

fun join :: "string \<Rightarrow> string list \<Rightarrow> string" where
  "join sep [] = []"
| "join sep [w] = w"
| "join sep (w # ws) = w @ sep @ join sep ws"

abbreviation newline :: char where
  "newline \<equiv> CHR 0x0A"

text \<open>\<open>str::lines\<close>: a line ends at a line feed, and a carriage return just before it goes too.\<close>

definition strip_cr :: "string \<Rightarrow> string" where
  "strip_cr l = (if l \<noteq> [] \<and> last l = CHR 0x0D then butlast l else l)"

fun lines_aux :: "string \<Rightarrow> string \<Rightarrow> string list" where
  "lines_aux acc [] = (if acc = [] then [] else [rev acc])"
| "lines_aux acc (c # cs) =
     (if c = newline then strip_cr (rev acc) # lines_aux [] cs else lines_aux (c # acc) cs)"

definition lines :: "string \<Rightarrow> string list" where
  "lines s = lines_aux [] s"

lemma lines_aux_line:
  "newline \<notin> set l \<Longrightarrow> lines_aux acc (l @ newline # s) = strip_cr (rev acc @ l) # lines_aux [] s"
  by (induction l arbitrary: acc) auto

lemma lines_line: "newline \<notin> set l \<Longrightarrow> lines (l @ newline # s) = strip_cr l # lines s"
  by (simp add: lines_def lines_aux_line)

lemma find_sat: "find P xs = Some x \<Longrightarrow> P x \<and> x \<in> set xs"
  by (induction xs) (auto split: if_splits)

text \<open>What is needed of the comparison of scores; it holds of floating-point numbers without NaN.\<close>

definition score_order :: "('x \<Rightarrow> 'x \<Rightarrow> bool) \<Rightarrow> bool" where
  "score_order lt \<longleftrightarrow> (\<forall>x y. lt x y \<longrightarrow> \<not> lt y x) \<and> (\<forall>x y z. \<not> lt x y \<longrightarrow> \<not> lt y z \<longrightarrow> \<not> lt x z)"

definition contains_str :: "string \<Rightarrow> string \<Rightarrow> bool" where
  "contains_str hay needle \<longleftrightarrow> list_ex (prefix needle) (suffixes hay)"


subsection \<open>Decimal numbers\<close>

definition digit_val :: "char \<Rightarrow> nat" where
  "digit_val c = of_char c - 48"

definition digit_char :: "nat \<Rightarrow> char" where
  "digit_char d = char_of (48 + d)"

definition dec_val :: "string \<Rightarrow> nat" where
  "dec_val ds = foldl (\<lambda>a c. 10 * a + digit_val c) 0 ds"

text \<open>
  \<open>str::parse\<close> for an unsigned integer of \<open>w\<close> bits: an optional plus sign, at least one
  digit, digits only, and no overflow.
\<close>

definition parse_uint :: "nat \<Rightarrow> string \<Rightarrow> nat option" where
  "parse_uint w s =
     (let ds = (case s of [] \<Rightarrow> [] | c # cs \<Rightarrow> if c = CHR ''+'' then cs else s) in
      if ds = [] \<or> \<not> list_all is_ascii_digit ds then None
      else if dec_val ds < 2 ^ w then Some (dec_val ds) else None)"

fun show_nat :: "nat \<Rightarrow> string" where
  "show_nat n = (if n < 10 then [digit_char n] else show_nat (n div 10) @ [digit_char (n mod 10)])"

declare show_nat.simps [simp del]

lemma digit_char_lemmas:
  assumes "d < 10"
  shows "is_ascii_digit (digit_char d)" and "digit_val (digit_char d) = d"
    and "digit_char d \<noteq> CHR ''+''"
proof -
  have "of_char (digit_char d) = 48 + d"
    using assms by (simp add: digit_char_def)
  then show "is_ascii_digit (digit_char d)" and "digit_val (digit_char d) = d"
    and "digit_char d \<noteq> CHR ''+''"
    using assms by (auto simp: is_ascii_digit_def digit_val_def)
qed

lemma dec_val_append [str_simps]: "dec_val (ds @ [c]) = 10 * dec_val ds + digit_val c"
  by (simp add: dec_val_def)

lemma show_nat_digits: "list_all is_ascii_digit (show_nat n) \<and> show_nat n \<noteq> []"
proof (induction n rule: show_nat.induct)
  case (1 n)
  then show ?case
    by (cases "n < 10") (simp_all add: show_nat.simps [of n] digit_char_lemmas)
qed

lemma dec_val_show_nat [str_simps]: "dec_val (show_nat n) = n"
proof (induction n rule: show_nat.induct)
  case (1 n)
  show ?case
  proof (cases "n < 10")
    case True
    then show ?thesis
      by (simp add: show_nat.simps [of n] dec_val_def digit_char_lemmas)
  next
    case False
    with 1 show ?thesis
      by (simp add: show_nat.simps [of n] dec_val_append digit_char_lemmas)
  qed
qed

lemma ascii_digit_not:
  assumes "\<not> is_ascii_digit x"
  shows "x \<notin> set (show_nat n)"
  using show_nat_digits [of n] assms by (auto simp: list_all_iff)

lemma parse_show_nat [str_simps]: "parse_uint w (show_nat n) = (if n < 2 ^ w then Some n else None)"
proof -
  obtain c cs where c: "show_nat n = c # cs"
    using show_nat_digits [of n] by (cases "show_nat n") auto
  then have "c \<noteq> CHR ''+''"
    using show_nat_digits [of n] by (auto simp: is_ascii_digit_def)
  with c show ?thesis
    using show_nat_digits [of n] dec_val_show_nat [of n] by (simp add: parse_uint_def)
qed

lemma parse_uint_bound: "parse_uint w s = Some n \<Longrightarrow> n < 2 ^ w"
  by (auto simp: parse_uint_def Let_def split: if_splits list.splits)

subsection \<open>Laws of splitting, joining and trimming\<close>

lemma split_on_nonempty [simp]: "split_on c s \<noteq> []"
  by (cases s) (auto split: list.splits)

lemma split_on_no_sep [str_simps]: "c \<notin> set s \<Longrightarrow> split_on c s = [s]"
  by (induction s) auto

lemma split_on_Cons_sep [str_simps]: "c \<notin> set w \<Longrightarrow> split_on c (w @ c # s) = w # split_on c s"
  by (induction w) auto

lemma split_on_join [str_simps]:
  "ws \<noteq> [] \<Longrightarrow> \<forall>w \<in> set ws. c \<notin> set w \<Longrightarrow> split_on c (join [c] ws) = ws"
  by (induction "[c]" ws rule: join.induct) (auto simp: split_on_no_sep split_on_Cons_sep)

lemma join_split_on: "join [c] (split_on c s) = s"
proof (induction s)
  case Nil
  then show ?case by simp
next
  case (Cons x xs)
  then show ?case
    by (cases "split_on c xs" rule: remdups_adj.cases) (auto split: list.splits)
qed

lemma split_once_None [str_simps]: "split_once c s = None \<longleftrightarrow> c \<notin> set s"
  by (induction s) (auto split: option.splits)

lemma split_once_append [str_simps]: "c \<notin> set a \<Longrightarrow> split_once c (a @ c # b) = Some (a, b)"
  by (induction a) auto

lemma split_once_Some: "split_once c s = Some (a, b) \<Longrightarrow> s = a @ c # b \<and> c \<notin> set a"
  by (induction s arbitrary: a) (auto split: option.splits if_splits)

lemma strip_prefix_append [str_simps]: "strip_prefix p (p @ s) = Some s"
  by (simp add: strip_prefix_def)

lemma strip_prefix_Some: "strip_prefix p s = Some r \<longleftrightarrow> s = p @ r"
  by (auto simp: strip_prefix_def prefix_def)

text \<open>A printable ASCII character other than the blank neither starts nor ends white space.\<close>

definition is_graph :: "char \<Rightarrow> bool" where
  "is_graph c \<longleftrightarrow> 33 \<le> (of_char c :: nat) \<and> (of_char c :: nat) \<le> 126"

lemma ws_seqs_ends:
  "list_all (\<lambda>w. w \<noteq> [] \<and> \<not> is_graph (hd w) \<and> \<not> is_graph (last w)) ws_seqs"
  by (simp add: ws_seqs_def is_graph_def)

lemma ws_len_graph [str_simps]:
  assumes "is_graph c"
  shows "ws_len (c # cs) = 0"
proof -
  have "find (\<lambda>w. prefix w (c # cs)) ws_seqs = None"
    using ws_seqs_ends assms by (auto simp: find_None_iff list_all_iff prefix_Cons)
  then show ?thesis by (simp add: ws_len_def)
qed

lemma ws_len_rev_graph [str_simps]:
  assumes "is_graph c"
  shows "ws_len_rev (c # cs) = 0"
proof -
  have "find (\<lambda>w. prefix (rev w) (c # cs)) ws_seqs = None"
    using ws_seqs_ends assms by (auto simp: find_None_iff list_all_iff prefix_Cons rev_eq_Cons_iff)
  then show ?thesis by (simp add: ws_len_rev_def)
qed

lemma ws_len_blank [str_simps]: "ws_len (CHR '' '' # cs) = 1"
  by (simp add: ws_len_def ws_seqs_def)

lemma ws_len_le: "ws_len s \<le> length s"
  by (auto simp: ws_len_def find_Some_iff dest: prefix_length_le split: option.splits)

lemma trim_start_graph [str_simps]: "is_graph c \<Longrightarrow> trim_start (c # cs) = c # cs"
  by (simp add: trim_start.simps ws_len_graph)

lemma trim_end_graph [str_simps]: "is_graph (last s) \<Longrightarrow> s \<noteq> [] \<Longrightarrow> trim_end s = s"
  by (cases s rule: rev_cases) (simp_all add: trim_end_def trim_rev.simps ws_len_rev_graph)

lemma trim_graph [str_simps]:
  "s \<noteq> [] \<Longrightarrow> is_graph (hd s) \<Longrightarrow> is_graph (last s) \<Longrightarrow> trim s = s"
  by (cases s) (simp_all add: trim_def trim_start_graph trim_end_graph)

lemma trim_empty [str_simps]: "trim [] = []"
  by (simp add: trim_def trim_start.simps trim_end_def trim_rev.simps)

lemma is_graph_digit: "is_ascii_digit c \<Longrightarrow> is_graph c"
  by (simp add: is_ascii_digit_def is_graph_def)

lemma ascii_case_hex:
  "is_ascii_hexdigit c \<Longrightarrow> is_ascii_hexdigit (ascii_lower c)"
  "ascii_lower (ascii_lower c) = ascii_lower c"
  "ascii_upper (ascii_lower c) = ascii_upper c"
  by (auto simp: is_ascii_hexdigit_def ascii_lower_def ascii_upper_def Let_def)

section \<open>Hash maps\<close>

text \<open>
  A \<open>HashMap\<close> is an association list with distinct keys.  The order of the list stands for
  the unspecified iteration order: a property of a map speaks of \<open>hm_get\<close>, of sets or of
  multisets, never of positions.
\<close>

type_synonym ('k, 'v) hmap = "('k \<times> 'v) list"

definition hm_ok :: "('k, 'v) hmap \<Rightarrow> bool" where
  "hm_ok m \<longleftrightarrow> distinct (map fst m)"

definition hm_get :: "('k, 'v) hmap \<Rightarrow> 'k \<Rightarrow> 'v option" where
  "hm_get m k = map_of m k"

definition hm_insert :: "'k \<Rightarrow> 'v \<Rightarrow> ('k, 'v) hmap \<Rightarrow> ('k, 'v) hmap" where
  "hm_insert k v m = AList.update k v m"

definition hm_remove :: "'k \<Rightarrow> ('k, 'v) hmap \<Rightarrow> ('k, 'v) hmap" where
  "hm_remove k m = AList.delete k m"

definition hm_contains :: "('k, 'v) hmap \<Rightarrow> 'k \<Rightarrow> bool" where
  "hm_contains m k \<longleftrightarrow> hm_get m k \<noteq> None"

definition hm_keys :: "('k, 'v) hmap \<Rightarrow> 'k list" where
  "hm_keys m = map fst m"

definition hm_values :: "('k, 'v) hmap \<Rightarrow> 'v list" where
  "hm_values m = map snd m"

text \<open>A mutation through \<open>get_mut\<close>, and \<open>retain\<close>.\<close>

definition hm_modify :: "'k \<Rightarrow> ('v \<Rightarrow> 'v) \<Rightarrow> ('k, 'v) hmap \<Rightarrow> ('k, 'v) hmap" where
  "hm_modify k f m = map (\<lambda>(k', v). (k', if k' = k then f v else v)) m"

definition hm_retain :: "('v \<Rightarrow> bool) \<Rightarrow> ('k, 'v) hmap \<Rightarrow> ('k, 'v) hmap" where
  "hm_retain p m = filter (\<lambda>(k, v). p v) m"

text \<open>A predicate on every entry.\<close>

definition hm_all :: "('k \<Rightarrow> 'v \<Rightarrow> bool) \<Rightarrow> ('k, 'v) hmap \<Rightarrow> bool" where
  "hm_all p m = list_all (\<lambda>(k, v). p k v) m"

lemma hm_get_Nil [hm_simps]: "hm_get [] k = None"
  by (simp add: hm_get_def)

lemma hm_get_insert [hm_simps]:
  "hm_get (hm_insert k v m) k' = (if k' = k then Some v else hm_get m k')"
  by (simp add: hm_get_def hm_insert_def update_conv')

lemma hm_get_remove [hm_simps]:
  "hm_get (hm_remove k m) k' = (if k' = k then None else hm_get m k')"
  by (simp add: hm_get_def hm_remove_def delete_conv')

lemma hm_get_modify [hm_simps]:
  "hm_get (hm_modify k f m) k' = (if k' = k then map_option f (hm_get m k') else hm_get m k')"
  by (induction m) (auto simp: hm_get_def hm_modify_def)

lemma hm_get_retain [hm_simps]:
  "hm_ok m \<Longrightarrow> hm_get (hm_retain p m) k =
     (case hm_get m k of None \<Rightarrow> None | Some v \<Rightarrow> if p v then Some v else None)"
  by (induction m)
    (auto simp: hm_get_def hm_retain_def hm_ok_def map_of_eq_None_iff split: option.splits
      intro!: map_of_eq_None_iff [THEN iffD2])

lemma hm_ok_Nil [hm_simps]: "hm_ok []"
  by (simp add: hm_ok_def)

lemma hm_ok_insert [hm_simps]: "hm_ok m \<Longrightarrow> hm_ok (hm_insert k v m)"
  by (simp add: hm_ok_def hm_insert_def distinct_update)

lemma hm_ok_remove [hm_simps]: "hm_ok m \<Longrightarrow> hm_ok (hm_remove k m)"
  by (simp add: hm_ok_def hm_remove_def distinct_delete)

lemma hm_keys_modify [hm_simps]: "hm_keys (hm_modify k f m) = hm_keys m"
  by (induction m) (auto simp: hm_keys_def hm_modify_def)

lemma hm_ok_modify [hm_simps]: "hm_ok (hm_modify k f m) = hm_ok m"
  using hm_keys_modify [of k f m] by (simp add: hm_ok_def hm_keys_def)

lemma hm_ok_retain [hm_simps]: "hm_ok m \<Longrightarrow> hm_ok (hm_retain p m)"
  by (simp add: hm_ok_def hm_retain_def distinct_map_filter)

lemma hm_all_Nil [hm_simps]: "hm_all p []"
  by (simp add: hm_all_def)

lemma hm_all_iff: "hm_ok m \<Longrightarrow> hm_all p m \<longleftrightarrow> (\<forall>k v. hm_get m k = Some v \<longrightarrow> p k v)"
  by (auto simp: hm_all_def hm_ok_def hm_get_def list_all_iff dest: map_of_SomeD)

lemma hm_all_get: "hm_all p m \<Longrightarrow> hm_get m k = Some v \<Longrightarrow> p k v"
  by (auto simp: hm_all_def hm_get_def list_all_iff dest: map_of_SomeD)

lemma hm_all_insert [hm_simps]: "hm_all p m \<Longrightarrow> p k v \<Longrightarrow> hm_all p (hm_insert k v m)"
  by (induction m) (auto simp: hm_all_def hm_insert_def)

lemma hm_all_remove [hm_simps]: "hm_all p m \<Longrightarrow> hm_all p (hm_remove k m)"
  by (induction m) (auto simp: hm_all_def hm_remove_def)

lemma hm_all_modify [hm_simps]:
  "hm_all p m \<Longrightarrow> (\<And>v. p k v \<Longrightarrow> p k (f v)) \<Longrightarrow> hm_all p (hm_modify k f m)"
  by (induction m) (auto simp: hm_all_def hm_modify_def)

lemma hm_all_modify_get:
  assumes "hm_ok m" and "hm_all p m" and "\<And>v. hm_get m k = Some v \<Longrightarrow> p k v \<Longrightarrow> p k (f v)"
  shows "hm_all p (hm_modify k f m)"
  using assms by (auto simp: hm_all_iff hm_ok_modify hm_get_modify)

lemma hm_all_retain [hm_simps]: "hm_all p m \<Longrightarrow> hm_all p (hm_retain q m)"
  by (auto simp: hm_all_def hm_retain_def list_all_iff)

lemma hm_set_keys: "set (hm_keys m) = {k. hm_get m k \<noteq> None}"
  by (auto simp: hm_keys_def hm_get_def map_of_eq_None_iff)

lemma hm_values_iff: "hm_ok m \<Longrightarrow> v \<in> set (hm_values m) \<longleftrightarrow> (\<exists>k. hm_get m k = Some v)"
  by (force simp: hm_values_def hm_ok_def hm_get_def)

subsection \<open>The contract of a keyed map\<close>

text \<open>
  What the registries of the program rely on: the five operations and their laws.  The
  client lemmas are proved from the laws alone.
\<close>

locale keyed_map =
  fixes empty :: 'm
    and lookup :: "'m \<Rightarrow> 'k \<Rightarrow> 'v option"
    and insert :: "'k \<Rightarrow> 'v \<Rightarrow> 'm \<Rightarrow> 'm"
    and remove :: "'k \<Rightarrow> 'm \<Rightarrow> 'm"
    and keys :: "'m \<Rightarrow> 'k list"
    and inv :: "'m \<Rightarrow> bool"
  assumes lookup_empty: "lookup empty k = None"
    and lookup_insert: "inv m \<Longrightarrow> lookup (insert k v m) k' = (if k' = k then Some v else lookup m k')"
    and lookup_remove: "inv m \<Longrightarrow> lookup (remove k m) k' = (if k' = k then None else lookup m k')"
    and set_keys: "inv m \<Longrightarrow> set (keys m) = {k. lookup m k \<noteq> None}"
    and distinct_keys: "inv m \<Longrightarrow> distinct (keys m)"
    and inv_empty: "inv empty"
    and inv_insert: "inv m \<Longrightarrow> inv (insert k v m)"
    and inv_remove: "inv m \<Longrightarrow> inv (remove k m)"
begin

lemma size_card: "inv m \<Longrightarrow> length (keys m) = card {k. lookup m k \<noteq> None}"
  using distinct_card [OF distinct_keys] by (simp add: set_keys)

lemma finite_dom: "inv m \<Longrightarrow> finite {k. lookup m k \<noteq> None}"
  using set_keys by (metis List.finite_set)

lemma size_insert:
  assumes "inv m"
  shows "length (keys (insert k v m)) = length (keys m) + (if lookup m k = None then 1 else 0)"
proof -
  have "{k'. lookup (insert k v m) k' \<noteq> None} = Set.insert k {k'. lookup m k' \<noteq> None}"
    using assms by (auto simp: lookup_insert)
  then show ?thesis
    using assms finite_dom [OF assms] by (auto simp: size_card inv_insert card_insert_if)
qed

lemma size_remove:
  assumes "inv m"
  shows "length (keys (remove k m)) = length (keys m) - (if lookup m k = None then 0 else 1)"
proof -
  have "{k'. lookup (remove k m) k' \<noteq> None} = {k'. lookup m k' \<noteq> None} - {k}"
    using assms by (auto simp: lookup_remove)
  then show ?thesis
    using assms finite_dom [OF assms] by (auto simp: size_card inv_remove card_Diff_singleton_if)
qed

lemma remove_insert: "inv m \<Longrightarrow> lookup m k = None \<Longrightarrow> lookup (remove k (insert k v m)) = lookup m"
  by (auto simp: lookup_remove lookup_insert inv_insert fun_eq_iff)

end

interpretation hm: keyed_map "[]" hm_get hm_insert hm_remove hm_keys hm_ok
proof (unfold_locales, goal_cases)
  case (5 m)
  then show ?case by (simp add: hm_ok_def hm_keys_def)
qed (simp_all add: hm_simps hm_set_keys)

section \<open>The contract of an append-only log\<close>

locale append_log =
  fixes append :: "'e \<Rightarrow> 'l \<Rightarrow> 'l"
    and entries :: "'l \<Rightarrow> 'e list"
  assumes entries_append: "entries (append e l) = entries l @ [e]"
begin

lemma entries_fold: "entries (fold append es l) = entries l @ es"
  by (induction es arbitrary: l) (simp_all add: entries_append)

lemma append_extends: "prefix (entries l) (entries (fold append es l))"
  by (simp add: entries_fold)

lemma append_count: "length (entries (fold append es l)) = length (entries l) + length es"
  by (simp add: entries_fold)

lemma filter_fold: "filter p (entries (fold append es l)) = filter p (entries l) @ filter p es"
  by (simp add: entries_fold)

end

section \<open>The contract of a decision that is taken once\<close>

locale one_shot =
  fixes pending :: "'s \<Rightarrow> bool"
    and decide :: "'d \<Rightarrow> 's \<Rightarrow> 'e + 's"
  assumes decide_pending: "pending s \<Longrightarrow> \<exists>s'. decide d s = Inr s' \<and> \<not> pending s'"
    and decide_settled: "\<not> pending s \<Longrightarrow> \<exists>e. decide d s = Inl e"
begin

lemma ok_iff_pending: "is_ok (decide d s) \<longleftrightarrow> pending s"
  using decide_pending [of s d] decide_settled [of s d] by (cases "pending s") auto

lemma settled_stable: "\<not> pending s \<Longrightarrow> attempts decide ds s = s"
proof (induction ds)
  case (Cons d ds)
  then show ?case using decide_settled [of s d] by auto
qed simp

lemma first_decision_wins:
  assumes "pending s"
  shows "\<exists>s'. decide d s = Inr s' \<and> attempts decide (d # ds) s = s'"
proof -
  obtain s' where "decide d s = Inr s'" "\<not> pending s'"
    using decide_pending [OF assms] by blast
  then show ?thesis by (simp add: settled_stable)
qed

lemma settled_after:
  assumes "pending s" and "ds \<noteq> []"
  shows "\<not> pending (attempts decide ds s)"
proof -
  obtain d ds' where ds: "ds = d # ds'" using assms(2) by (cases ds) auto
  obtain s' where "decide d s = Inr s'" "\<not> pending s'"
    using decide_pending [OF assms(1)] by blast
  then show ?thesis by (simp add: ds settled_stable)
qed

end

end
