(* ===== verification/Agenda.thy ===== *)
theory Agenda
  imports Prelude
begin

text \<open>
  The work items of the agenda (\<open>crates/agenda/src/issue.rs\<close>, \<open>manager.rs\<close>,
  \<open>lib.rs\<close>): issues with their life cycle, pull requests that are merged or closed once, and
  the manager that keeps both in hash maps keyed by identifier.  Fresh UUIDs and the readings
  of the clock are arguments.
\<close>

section \<open>Errors\<close>

datatype agenda_error =
    NotFound string
  | InvalidField string
  | InvalidTransition string
  | Json string

section \<open>Issues\<close>

datatype issue_status = Open | InProgress | Closed

datatype issue_priority = Low | Normal | High | Critical

record issue =
  issue_id :: string
  issue_title :: string
  issue_description :: string
  issue_status :: issue_status
  issue_priority :: issue_priority
  issue_labels :: "string list"
  issue_created_at :: time
  issue_updated_at :: time

definition issue_new :: "string \<Rightarrow> time \<Rightarrow> string \<Rightarrow> string \<Rightarrow> agenda_error + issue" where
  "issue_new uuid now title description =
     (if title = [] then Inl (InvalidField ''title must not be empty'')
      else if 200 < length title then
        Inl (InvalidField ''title must not exceed 200 characters'')
      else Inr
        \<lparr>issue_id = uuid, issue_title = title, issue_description = description,
         issue_status = Open, issue_priority = Normal, issue_labels = [],
         issue_created_at = now, issue_updated_at = now\<rparr>)"

text \<open>The \<open>Debug\<close> name of a status, and the arrow of the error text in UTF-8.\<close>

fun debug_status :: "issue_status \<Rightarrow> string" where
  "debug_status Open = ''Open''"
| "debug_status InProgress = ''InProgress''"
| "debug_status Closed = ''Closed''"

fun allowed :: "issue_status \<Rightarrow> issue_status \<Rightarrow> bool" where
  "allowed Open InProgress = True"
| "allowed Open Closed = True"
| "allowed InProgress Closed = True"
| "allowed Closed Open = True"
| "allowed _ _ = False"

definition transition :: "time \<Rightarrow> issue_status \<Rightarrow> issue \<Rightarrow> agenda_error + issue" where
  "transition now next i =
     (if \<not> allowed (issue_status i) next then
        Inl (InvalidTransition (debug_status (issue_status i) @ '' ''
          @ [CHR 0xE2, CHR 0x86, CHR 0x92] @ '' '' @ debug_status next))
      else Inr (i\<lparr>issue_status := next, issue_updated_at := now\<rparr>))"

definition add_label :: "time \<Rightarrow> string \<Rightarrow> issue \<Rightarrow> issue" where
  "add_label now label i =
     (if label \<in> set (issue_labels i) then i
      else i\<lparr>issue_labels := issue_labels i @ [label], issue_updated_at := now\<rparr>)"

subsection \<open>The life cycle\<close>

text \<open>The statuses an issue passes through, one entry per successful call of \<open>transition\<close>.\<close>

inductive issue_path :: "issue_status \<Rightarrow> issue_status list \<Rightarrow> issue_status \<Rightarrow> bool" where
  path_nil: "issue_path s [] s"
| path_cons: "allowed s t \<Longrightarrow> issue_path t ts u \<Longrightarrow> issue_path s (t # ts) u"

inductive_cases issue_pathE: "issue_path s ts u"
inductive_simps issue_path_simps: "issue_path s [] u" "issue_path s (t # ts) u"

lemma allowed_from_InProgress: "allowed InProgress t \<longleftrightarrow> t = Closed"
  by (cases t) auto

lemma allowed_to_InProgress: "allowed s InProgress \<longleftrightarrow> s = Open"
  by (cases s) auto

lemma allowed_irrefl: "\<not> allowed s s"
  by (cases s) auto

lemma transition_ok: "transition now t i = Inr i' \<longleftrightarrow>
    allowed (issue_status i) t \<and> i' = i\<lparr>issue_status := t, issue_updated_at := now\<rparr>"
  by (auto simp: transition_def)

lemma transition_error: "transition now t i = Inl e \<Longrightarrow> \<not> allowed (issue_status i) t"
  by (auto simp: transition_def split: if_splits)

text \<open>Running a list of transitions, the first refused one stopping the run.\<close>

fun transitions :: "(time \<times> issue_status) list \<Rightarrow> issue \<Rightarrow> agenda_error + issue" where
  "transitions [] i = Inr i"
| "transitions ((now, t) # ts) i =
     (case transition now t i of Inl e \<Rightarrow> Inl e | Inr i' \<Rightarrow> transitions ts i')"

lemma transitions_path:
  "(\<exists>i'. transitions ts i = Inr i' \<and> issue_status i' = u) \<longleftrightarrow> issue_path (issue_status i) (map snd ts) u"
proof (induction ts arbitrary: i)
  case Nil
  then show ?case by (auto simp: issue_path_simps)
next
  case (Cons p ts)
  obtain now t where p: "p = (now, t)" by (cases p)
  show ?case
  proof (cases "allowed (issue_status i) t")
    case True
    with Cons.IH [of "i\<lparr>issue_status := t, issue_updated_at := now\<rparr>"] show ?thesis
      by (simp add: p transition_def issue_path_simps)
  next
    case False
    then show ?thesis by (simp add: p transition_def issue_path_simps)
  qed
qed

lemma path_from_InProgress:
  "issue_path s ts u \<Longrightarrow> s = InProgress \<Longrightarrow> u \<noteq> InProgress \<Longrightarrow> Closed \<in> set ts"
  by (induction rule: issue_path.induct) (auto simp: allowed_from_InProgress)

section \<open>Pull requests\<close>

datatype pr_status = PrOpen | PrMerged | PrClosed

record pull_request =
  pr_id :: string
  pr_title :: string
  pr_source_branch :: string
  pr_target_branch :: string
  pr_status :: pr_status
  pr_resolves_issue :: "string option"
  pr_created_at :: time
  pr_updated_at :: time

definition pr_new ::
    "string \<Rightarrow> time \<Rightarrow> string \<Rightarrow> string \<Rightarrow> string \<Rightarrow> agenda_error + pull_request" where
  "pr_new uuid now title source_branch target_branch =
     (if title = [] then Inl (InvalidField ''PR title must not be empty'')
      else if source_branch = [] then Inl (InvalidField ''source branch must not be empty'')
      else if target_branch = [] then Inl (InvalidField ''target branch must not be empty'')
      else if source_branch = target_branch then
        Inl (InvalidField ''source and target branches must differ'')
      else Inr
        \<lparr>pr_id = uuid, pr_title = title, pr_source_branch = source_branch,
         pr_target_branch = target_branch, pr_status = PrOpen, pr_resolves_issue = None,
         pr_created_at = now, pr_updated_at = now\<rparr>)"

fun debug_pr_status :: "pr_status \<Rightarrow> string" where
  "debug_pr_status PrOpen = ''Open''"
| "debug_pr_status PrMerged = ''Merged''"
| "debug_pr_status PrClosed = ''Closed''"

section \<open>The manager\<close>

record agenda_manager =
  issues :: "(string, issue) hmap"
  pull_requests :: "(string, pull_request) hmap"

definition manager_new :: agenda_manager where
  "manager_new = \<lparr>issues = [], pull_requests = []\<rparr>"

definition create_issue ::
    "string \<Rightarrow> time \<Rightarrow> string \<Rightarrow> string \<Rightarrow> agenda_manager \<Rightarrow> agenda_error + (string \<times> agenda_manager)" where
  "create_issue uuid now title description m =
     (case issue_new uuid now title description of
        Inl e \<Rightarrow> Inl e
      | Inr i \<Rightarrow> Inr (issue_id i, m\<lparr>issues := hm_insert (issue_id i) i (issues m)\<rparr>))"

definition get_issue :: "string \<Rightarrow> agenda_manager \<Rightarrow> agenda_error + issue" where
  "get_issue xid m =
     (case hm_get (issues m) xid of None \<Rightarrow> Inl (NotFound xid) | Some i \<Rightarrow> Inr i)"

definition set_issue_priority ::
    "time \<Rightarrow> string \<Rightarrow> issue_priority \<Rightarrow> agenda_manager \<Rightarrow> agenda_error + agenda_manager" where
  "set_issue_priority now xid p m =
     (case get_issue xid m of
        Inl e \<Rightarrow> Inl e
      | Inr i \<Rightarrow> Inr (m\<lparr>issues :=
          hm_modify xid (\<lambda>i. i\<lparr>issue_priority := p, issue_updated_at := now\<rparr>) (issues m)\<rparr>))"

definition transition_issue ::
    "time \<Rightarrow> string \<Rightarrow> issue_status \<Rightarrow> agenda_manager \<Rightarrow> agenda_error + agenda_manager" where
  "transition_issue now xid status m =
     (case get_issue xid m of
        Inl e \<Rightarrow> Inl e
      | Inr i \<Rightarrow>
          (case transition now status i of
             Inl e \<Rightarrow> Inl e
           | Inr i' \<Rightarrow> Inr (m\<lparr>issues := hm_modify xid (\<lambda>_. i') (issues m)\<rparr>)))"

definition list_issues_by_status :: "issue_status \<Rightarrow> agenda_manager \<Rightarrow> issue list" where
  "list_issues_by_status status m = filter (\<lambda>i. issue_status i = status) (hm_values (issues m))"

definition delete_issue :: "string \<Rightarrow> agenda_manager \<Rightarrow> bool \<times> agenda_manager" where
  "delete_issue xid m = (hm_contains (issues m) xid, m\<lparr>issues := hm_remove xid (issues m)\<rparr>)"

definition open_pr ::
    "string \<Rightarrow> time \<Rightarrow> string \<Rightarrow> string \<Rightarrow> string \<Rightarrow> agenda_manager
      \<Rightarrow> agenda_error + (string \<times> agenda_manager)" where
  "open_pr uuid now title source_branch target_branch m =
     (case pr_new uuid now title source_branch target_branch of
        Inl e \<Rightarrow> Inl e
      | Inr p \<Rightarrow> Inr (pr_id p, m\<lparr>pull_requests := hm_insert (pr_id p) p (pull_requests m)\<rparr>))"

definition get_pr :: "string \<Rightarrow> agenda_manager \<Rightarrow> agenda_error + pull_request" where
  "get_pr xid m =
     (case hm_get (pull_requests m) xid of None \<Rightarrow> Inl (NotFound xid) | Some p \<Rightarrow> Inr p)"

definition merge_pr :: "time \<Rightarrow> string \<Rightarrow> agenda_manager \<Rightarrow> agenda_error + agenda_manager" where
  "merge_pr now xid m =
     (case hm_get (pull_requests m) xid of
        None \<Rightarrow> Inl (NotFound xid)
      | Some p \<Rightarrow>
          if pr_status p \<noteq> PrOpen then
            Inl (InvalidTransition (''PR '' @ xid @ '' is not open (current: ''
              @ debug_pr_status (pr_status p) @ '')''))
          else Inr (m\<lparr>pull_requests :=
            hm_modify xid (\<lambda>p. p\<lparr>pr_status := PrMerged, pr_updated_at := now\<rparr>) (pull_requests m)\<rparr>))"

definition close_pr :: "time \<Rightarrow> string \<Rightarrow> agenda_manager \<Rightarrow> agenda_error + agenda_manager" where
  "close_pr now xid m =
     (case hm_get (pull_requests m) xid of
        None \<Rightarrow> Inl (NotFound xid)
      | Some p \<Rightarrow>
          if pr_status p \<noteq> PrOpen then
            Inl (InvalidTransition (''PR '' @ xid @ '' is not open (current: ''
              @ debug_pr_status (pr_status p) @ '')''))
          else Inr (m\<lparr>pull_requests :=
            hm_modify xid (\<lambda>p. p\<lparr>pr_status := PrClosed, pr_updated_at := now\<rparr>) (pull_requests m)\<rparr>))"

subsection \<open>Well-formed managers\<close>

definition issue_ok :: "string \<Rightarrow> issue \<Rightarrow> bool" where
  "issue_ok k i \<longleftrightarrow> issue_id i = k \<and> 0 < length (issue_title i) \<and> length (issue_title i) \<le> 200"

definition pr_ok :: "string \<Rightarrow> pull_request \<Rightarrow> bool" where
  "pr_ok k p \<longleftrightarrow> pr_id p = k \<and> pr_title p \<noteq> [] \<and> pr_source_branch p \<noteq> []
     \<and> pr_target_branch p \<noteq> [] \<and> pr_source_branch p \<noteq> pr_target_branch p"

definition manager_ok :: "agenda_manager \<Rightarrow> bool" where
  "manager_ok m \<longleftrightarrow> hm_ok (issues m) \<and> hm_ok (pull_requests m)
     \<and> hm_all issue_ok (issues m) \<and> hm_all pr_ok (pull_requests m)"

text \<open>The calls of the manager's interface as data, so that a history is a list of calls.\<close>

datatype agenda_call =
    CreateIssue string time string string
  | SetPriority time string issue_priority
  | TransitionIssue time string issue_status
  | DeleteIssue string
  | OpenPr string time string string string
  | MergePr time string
  | ClosePr time string

fun agenda_step :: "agenda_call \<Rightarrow> agenda_manager \<Rightarrow> agenda_error + agenda_manager" where
  "agenda_step (CreateIssue uuid now t d) m = map_sum (\<lambda>e. e) snd (create_issue uuid now t d m)"
| "agenda_step (SetPriority now xid p) m = set_issue_priority now xid p m"
| "agenda_step (TransitionIssue now xid s) m = transition_issue now xid s m"
| "agenda_step (DeleteIssue xid) m = Inr (snd (delete_issue xid m))"
| "agenda_step (OpenPr uuid now t s b) m = map_sum (\<lambda>e. e) snd (open_pr uuid now t s b m)"
| "agenda_step (MergePr now xid) m = merge_pr now xid m"
| "agenda_step (ClosePr now xid) m = close_pr now xid m"

lemmas agenda_defs =
  create_issue_def get_issue_def set_issue_priority_def transition_issue_def delete_issue_def
  open_pr_def get_pr_def merge_pr_def close_pr_def issue_new_def pr_new_def

lemma transition_keeps_ok: "transition now s i = Inr i' \<Longrightarrow> issue_ok k i \<Longrightarrow> issue_ok k i'"
  by (auto simp: transition_ok issue_ok_def)

lemma transition_issue_ok:
  assumes m: "manager_ok m" and t: "transition_issue now xid s m = Inr m'"
  shows "manager_ok m'"
proof -
  from t obtain i i' where get: "hm_get (issues m) xid = Some i" and i': "transition now s i = Inr i'"
    and m': "m' = m\<lparr>issues := hm_modify xid (\<lambda>_. i') (issues m)\<rparr>"
    by (auto simp: transition_issue_def get_issue_def split: option.splits sum.splits)
  have "issue_ok xid i" using m get by (auto simp: manager_ok_def dest: hm_all_get)
  then have "issue_ok xid i'" using i' by (rule transition_keeps_ok [rotated])
  then show ?thesis using m by (simp add: m' manager_ok_def hm_simps)
qed

lemma agenda_step_ok: "manager_ok m \<Longrightarrow> agenda_step c m = Inr m' \<Longrightarrow> manager_ok m'"
proof (cases c)
  case (TransitionIssue now xid s)
  assume "manager_ok m" and "agenda_step c m = Inr m'"
  then show ?thesis using TransitionIssue by (auto intro: transition_issue_ok)
qed (auto simp: manager_ok_def agenda_defs hm_simps issue_ok_def pr_ok_def
  split: if_splits option.splits sum.splits intro!: hm_all_modify)

lemma manager_new_ok: "manager_ok manager_new"
  by (simp add: manager_ok_def manager_new_def hm_simps)

subsection \<open>Merging and closing as a decision that is taken once\<close>

datatype pr_decision = Merge time | Close time

fun pr_decide :: "string \<Rightarrow> pr_decision \<Rightarrow> agenda_manager \<Rightarrow> agenda_error + agenda_manager" where
  "pr_decide xid (Merge now) m = merge_pr now xid m"
| "pr_decide xid (Close now) m = close_pr now xid m"

fun decided_status :: "pr_decision \<Rightarrow> pr_status" where
  "decided_status (Merge now) = PrMerged"
| "decided_status (Close now) = PrClosed"

definition pr_pending :: "string \<Rightarrow> agenda_manager \<Rightarrow> bool" where
  "pr_pending xid m \<longleftrightarrow> map_option pr_status (hm_get (pull_requests m) xid) = Some PrOpen"

lemma pr_decide_pending:
  assumes "pr_pending xid m"
  shows "\<exists>m' p. pr_decide xid d m = Inr m' \<and> hm_get (pull_requests m') xid = Some p
    \<and> pr_status p = decided_status d"
  using assms by (cases d) (auto simp: pr_pending_def merge_pr_def close_pr_def hm_simps)

lemma pr_decide_settled: "\<not> pr_pending xid m \<Longrightarrow> \<exists>e. pr_decide xid d m = Inl e"
  by (cases d) (auto simp: pr_pending_def merge_pr_def close_pr_def split: option.splits)

interpretation pr: one_shot "pr_pending xid" "pr_decide xid" for xid
proof
  fix m d
  assume "pr_pending xid m"
  from pr_decide_pending [OF this, of d] show "\<exists>m'. pr_decide xid d m = Inr m' \<and> \<not> pr_pending xid m'"
    by (cases d) (auto simp: pr_pending_def)
qed (rule pr_decide_settled)

text \<open>No call other than an \<open>open_pr\<close> that draws the same identifier touches a settled request.\<close>

fun opens_pr :: "string \<Rightarrow> agenda_call \<Rightarrow> bool" where
  "opens_pr xid (OpenPr uuid now t s b) = (uuid = xid)"
| "opens_pr xid _ = False"

lemma agenda_step_settled:
  assumes "hm_get (pull_requests m) xid = Some p" and "pr_status p \<noteq> PrOpen"
    and "\<not> opens_pr xid c" and "agenda_step c m = Inr m'"
  shows "hm_get (pull_requests m') xid = Some p"
  using assms by (cases c) (auto simp: agenda_defs hm_simps split: if_splits option.splits sum.splits)

section \<open>Properties\<close>

text \<open>Whatever calls a client makes, in any order and with any arguments, refused calls
  included, the manager stays well formed: identifiers are the keys of their maps and unique,
  every issue title has 1 to 200 bytes, and every pull request has a title and two different
  non-empty branches.\<close>

theorem agenda_history_ok: "manager_ok (attempts agenda_step cs manager_new)"
  by (rule attempts_inv [where I = manager_ok]) (auto intro: agenda_step_ok manager_new_ok)

text \<open>An issue in progress cannot be put back to open directly: whatever sequence of accepted
  transitions takes it from in progress to open passes through closed.\<close>

theorem issue_reopen_needs_close:
  assumes "transitions ts i = Inr i'" and "issue_status i = InProgress" and "issue_status i' = Open"
  shows "Closed \<in> set (map snd ts)"
proof -
  have "issue_path InProgress (map snd ts) Open"
    using assms transitions_path [of ts i Open] by auto
  then show ?thesis by (rule path_from_InProgress) simp_all
qed

theorem issue_reopen_needs_close_witness:
  "Closed \<in> set (map snd [(1 :: time, Closed), (2, Open)])"
  by (rule issue_reopen_needs_close
      [of "[(1, Closed), (2, Open)]"
        "\<lparr>issue_id = ''a'', issue_title = ''t'', issue_description = [], issue_status = InProgress,
          issue_priority = Normal, issue_labels = [], issue_created_at = 0, issue_updated_at = 0\<rparr>"
        "\<lparr>issue_id = ''a'', issue_title = ''t'', issue_description = [], issue_status = Open,
          issue_priority = Normal, issue_labels = [], issue_created_at = 0, issue_updated_at = 2\<rparr>"])
    (simp_all add: transition_def)

text \<open>Merging and closing a pull request exclude each other and happen at most once: of any
  sequence of merge and close calls on an open request the first one takes effect and decides the
  status, all later ones fail and change nothing; and once decided, no history of manager calls
  that does not open a request under the same identifier changes the record again.\<close>

theorem pr_decided_once:
  assumes "pr_pending xid m" and "\<forall>c \<in> set cs. \<not> opens_pr xid c"
  shows "\<exists>m' p. pr_decide xid d m = Inr m' \<and> attempts (pr_decide xid) (d # ds) m = m'
    \<and> pr_status p = decided_status d
    \<and> hm_get (pull_requests (attempts agenda_step cs m')) xid = Some p"
proof -
  obtain m' p where m': "pr_decide xid d m = Inr m'" and p: "hm_get (pull_requests m') xid = Some p"
    and st: "pr_status p = decided_status d"
    using pr_decide_pending [OF assms(1), of d] by blast
  have "attempts (pr_decide xid) (d # ds) m = m'"
    using pr.first_decision_wins [OF assms(1), of d ds] m' by auto
  moreover have "hm_get (pull_requests (attempts agenda_step cs m')) xid = Some p"
    using p assms(2)
  proof (induction cs arbitrary: m')
    case (Cons c cs)
    have "pr_status p \<noteq> PrOpen" using st by (cases d) simp_all
    with Cons show ?case by (auto split: sum.splits dest: agenda_step_settled)
  qed simp
  ultimately show ?thesis using m' st by blast
qed

theorem pr_decided_once_witness:
  "\<exists>m' p. pr_decide ''p'' (Merge 2)
      (attempts agenda_step [OpenPr ''p'' 1 ''t'' ''dev'' ''main''] manager_new) = Inr m'
    \<and> attempts (pr_decide ''p'') [Merge 2, Close 3]
        (attempts agenda_step [OpenPr ''p'' 1 ''t'' ''dev'' ''main''] manager_new) = m'
    \<and> pr_status p = decided_status (Merge 2)
    \<and> hm_get (pull_requests (attempts agenda_step [ClosePr 4 ''p''] m')) ''p'' = Some p"
  by (rule pr_decided_once)
    (simp_all add: pr_pending_def manager_new_def agenda_defs hm_get_def hm_insert_def)

end
