(* ===== verification/Cron.thy ===== *)
theory Cron
  imports Prelude "HOL-Library.Monad_Syntax"
begin

text \<open>
  The tasks of the scheduler (\<open>crates/agenda/src/scheduler.rs\<close>): schedules and failure
  alerts, the matching of cron expressions, the \<open>/cron add\<close> command, and the builder of the
  self-update command (\<open>self_update.rs\<close>).

  \<open>u32\<close> and \<open>u64\<close> fields are words where the code adds to them or casts them; the
  values of a cron field are naturals, parsed below \<open>2 ^ 32\<close>.  The calendar is a parameter.
\<close>

section \<open>Tasks\<close>

datatype schedule =
    Interval "64 word"
  | Cron string
  | Once time

record failure_alert =
  after :: "32 word"
  cooldown_secs :: "64 word"

record task =
  task_id :: string
  task_name :: string
  task_schedule :: schedule
  task_command :: string
  task_enabled :: bool
  last_run :: "time option"
  last_result :: "string option"
  task_failure_alert :: "failure_alert option"
  consecutive_failures :: "32 word"
  last_alert_at :: "time option"

definition default_schedule :: schedule where
  "default_schedule = Interval 0"

definition default_task :: task where
  "default_task =
     \<lparr>task_id = [], task_name = [], task_schedule = default_schedule, task_command = [],
      task_enabled = False, last_run = None, last_result = None, task_failure_alert = None,
      consecutive_failures = 0, last_alert_at = None\<rparr>"

record alert_event =
  ev_task_id :: string
  ev_task_name :: string
  ev_failures :: "32 word"
  ev_last_error :: string

definition saturating_succ :: "32 word \<Rightarrow> 32 word" where
  "saturating_succ w = (if unat w + 1 < 2 ^ 32 then w + 1 else - 1)"

text \<open>\<open>Task::record_failure\<close>; \<open>as i64\<close> reads the word as two's complement.\<close>

definition record_failure :: "string \<Rightarrow> time \<Rightarrow> task \<Rightarrow> alert_event option \<times> task" where
  "record_failure err_text now t =
     (let t = t\<lparr>last_result := Some err_text,
                consecutive_failures := saturating_succ (consecutive_failures t)\<rparr> in
      case task_failure_alert t of
        None \<Rightarrow> (None, t)
      | Some policy \<Rightarrow>
          if after policy = 0 \<or> consecutive_failures t < after policy then (None, t)
          else
            let cooled = (case last_alert_at t of
                  None \<Rightarrow> True
                | Some prev \<Rightarrow> sint (cooldown_secs policy) \<le> num_seconds (now - prev)) in
            if \<not> cooled then (None, t)
            else (Some \<lparr>ev_task_id = task_id t, ev_task_name = task_name t,
                        ev_failures = consecutive_failures t, ev_last_error = err_text\<rparr>,
                  t\<lparr>last_alert_at := Some now\<rparr>))"

definition record_success :: "task \<Rightarrow> task" where
  "record_success t = t\<lparr>consecutive_failures := 0\<rparr>"

section \<open>Cron expressions\<close>

text \<open>Subtraction of \<open>u32\<close> values, which panics below zero.\<close>

definition u32_sub :: "nat \<Rightarrow> nat \<Rightarrow> nat option" where
  "u32_sub a b = (if b \<le> a then Some (a - b) else None)"

definition parse_u32 :: "string \<Rightarrow> nat option" where
  "parse_u32 s = parse_uint 32 s"

definition cron_step :: "string \<Rightarrow> (string \<times> nat) option" where
  "cron_step part =
     (case split_once (CHR ''/'') part of
        None \<Rightarrow> Some (part, 1)
      | Some (lhs, rhs) \<Rightarrow>
          (case parse_u32 rhs of
             None \<Rightarrow> None
           | Some step \<Rightarrow> if 0 < step then Some (lhs, step) else None))"

definition cron_in_base :: "string \<Rightarrow> nat \<Rightarrow> nat \<Rightarrow> nat \<Rightarrow> bool" where
  "cron_in_base base value mn mx =
     (if base = ''*'' then mn \<le> value \<and> value \<le> mx
      else (case split_once (CHR ''-'') base of
              Some (lo, hi) \<Rightarrow>
                (case (parse_u32 lo, parse_u32 hi) of
                   (Some lo, Some hi) \<Rightarrow>
                     mn \<le> lo \<and> hi \<le> mx \<and> lo \<le> hi \<and> lo \<le> value \<and> value \<le> hi
                 | _ \<Rightarrow> False)
            | None \<Rightarrow>
                (case parse_u32 base of
                   Some v \<Rightarrow> mn \<le> v \<and> v \<le> mx \<and> v = value
                 | None \<Rightarrow> False)))"

definition matches_cron_part :: "string \<Rightarrow> nat \<Rightarrow> nat \<Rightarrow> nat \<Rightarrow> bool option" where
  "matches_cron_part part value mn mx =
     (if part = [] then Some False
      else (case cron_step part of
        None \<Rightarrow> Some False
      | Some (base, step) \<Rightarrow>
          if \<not> cron_in_base base value mn mx then Some False
          else if step = 1 then Some True
          else if base = ''*'' then do { d \<leftarrow> u32_sub value mn; Some (step dvd d) }
          else (case split_once (CHR ''-'') base of
                  Some (lo, _) \<Rightarrow>
                    (case parse_u32 lo of
                       Some lo \<Rightarrow> do { d \<leftarrow> u32_sub value lo; Some (step dvd d) }
                     | None \<Rightarrow> Some False)
                | None \<Rightarrow> Some True)))"

text \<open>\<open>Iterator::any\<close> over a test that may panic.\<close>

fun any_opt :: "('a \<Rightarrow> bool option) \<Rightarrow> 'a list \<Rightarrow> bool option" where
  "any_opt f [] = Some False"
| "any_opt f (x # xs) =
     (case f x of None \<Rightarrow> None | Some b \<Rightarrow> if b then Some True else any_opt f xs)"

definition matches_cron_field :: "string \<Rightarrow> nat \<Rightarrow> nat \<Rightarrow> nat \<Rightarrow> bool option" where
  "matches_cron_field field value mn mx =
     (if field = ''*'' then Some True
      else any_opt (\<lambda>part. matches_cron_part (trim part) value mn mx) (split_on (CHR '','') field))"

definition is_due :: "chrono \<Rightarrow> task \<Rightarrow> time \<Rightarrow> bool option" where
  "is_due ch t now =
     (case task_schedule t of
        Interval every_secs \<Rightarrow> do {
          interval \<leftarrow> td_seconds ch (sint every_secs);
          Some (case last_run t of Some lst \<Rightarrow> interval \<le> now - lst | None \<Rightarrow> True) }
      | Once at \<Rightarrow> Some (last_run t = None \<and> at \<le> now)
      | Cron expr \<Rightarrow>
          (case split_whitespace expr of
             [f_min, f_hour, f_day, f_month, f_wday] \<Rightarrow> do {
               min_match \<leftarrow> matches_cron_field f_min (dt_minute ch now) 0 59;
               hour_match \<leftarrow> matches_cron_field f_hour (dt_hour ch now) 0 23;
               day_match \<leftarrow> matches_cron_field f_day (dt_day ch now) 1 31;
               month_match \<leftarrow> matches_cron_field f_month (dt_month ch now) 1 12;
               weekday_match \<leftarrow> matches_cron_field f_wday (dt_weekday ch now) 0 6;
               let not_already_run = (case last_run t of
                   Some lst \<Rightarrow> 60 \<le> num_seconds (now - lst) | None \<Rightarrow> True);
               Some (min_match \<and> hour_match \<and> day_match \<and> month_match \<and> weekday_match
                 \<and> not_already_run) }
           | _ \<Rightarrow> Some False))"

section \<open>The \<open>/cron add\<close> command\<close>

datatype command_error = InvalidSyntax | InvalidSchedule string | EmptyCommand

abbreviation is_quote :: "char \<Rightarrow> bool" where
  "is_quote c \<equiv> c = CHR 0x27 \<or> c = CHR 0x22"

text \<open>
  The loop of \<open>tokenize_quoted\<close>: the open quote, the token under construction and the rest
  of the input.  A character of more than one byte is never a quote, so its bytes may be taken
  one at a time.
\<close>

function tokenize :: "char option \<Rightarrow> string \<Rightarrow> string \<Rightarrow> command_error + string list" where
  "tokenize q cur s =
     (case s of
        [] \<Rightarrow> if q \<noteq> None then Inl InvalidSyntax else Inr (if cur = [] then [] else [cur])
      | c # cs \<Rightarrow>
          (case q of
             Some active \<Rightarrow> if c = active then tokenize None cur cs else tokenize q (cur @ [c]) cs
           | None \<Rightarrow>
               if is_quote c then tokenize (Some c) cur cs
               else if 0 < ws_len s then
                 (case tokenize None [] (drop (ws_len s) s) of
                    Inl e \<Rightarrow> Inl e
                  | Inr ts \<Rightarrow> Inr ((if cur = [] then [] else [cur]) @ ts))
               else tokenize None (cur @ [c]) cs))"
  by pat_completeness auto
termination
  by (relation "measure (\<lambda>(q, cur, s). length s)") auto

declare tokenize.simps [simp del]

definition tokenize_quoted :: "string \<Rightarrow> command_error + string list" where
  "tokenize_quoted s = tokenize None [] s"

definition checked_mul_u64 :: "nat \<Rightarrow> nat \<Rightarrow> nat option" where
  "checked_mul_u64 a b = (if a * b < 2 ^ 64 then Some (a * b) else None)"

definition parse_interval_secs :: "string \<Rightarrow> nat option" where
  "parse_interval_secs raw =
     (let value = takeWhile is_ascii_digit raw; unit = dropWhile is_ascii_digit raw in
      case parse_uint 64 value of
        None \<Rightarrow> None
      | Some amount \<Rightarrow>
          if amount = 0 then None
          else if unit = ''s'' then Some amount
          else if unit = ''m'' then checked_mul_u64 amount 60
          else if unit = ''h'' then do { m \<leftarrow> checked_mul_u64 amount 60; checked_mul_u64 m 60 }
          else None)"

definition parse_cron_add :: "string \<Rightarrow> string \<Rightarrow> command_error + task" where
  "parse_cron_add uuid command_text =
     (case tokenize_quoted command_text of
        Inl e \<Rightarrow> Inl e
      | Inr args \<Rightarrow>
          (case args of
             [a0, a1, a2, a3] \<Rightarrow>
               if a0 \<noteq> ''/cron'' \<or> a1 \<noteq> ''add'' then Inl InvalidSyntax
               else
                 let schedule_raw = trim a2; command = trim a3 in
                 if command = [] then Inl EmptyCommand
                 else
                   (case (case strip_prefix ''every '' schedule_raw of
                            Some rest \<Rightarrow>
                              (case parse_interval_secs (trim rest) of
                                 None \<Rightarrow> Inl (InvalidSchedule schedule_raw)
                               | Some secs \<Rightarrow> Inr (Interval (of_nat secs)))
                          | None \<Rightarrow>
                              if length (split_whitespace schedule_raw) \<noteq> 5
                              then Inl (InvalidSchedule schedule_raw)
                              else Inr (Cron schedule_raw)) of
                      Inl e \<Rightarrow> Inl e
                    | Inr sched \<Rightarrow> Inr (default_task
                        \<lparr>task_id := ''cron.'' @ uuid, task_name := command,
                         task_schedule := sched, task_command := command,
                         task_enabled := True, last_run := None, last_result := None\<rparr>))
           | _ \<Rightarrow> Inl InvalidSyntax))"

section \<open>The self-update task\<close>

text \<open>\<open>value.replace('\'', \<dots>)\<close>: every single quote becomes the five characters \<open>'"'"'\<close>.\<close>

definition shell_single_quote :: "string \<Rightarrow> string" where
  "shell_single_quote value =
     [CHR 0x27]
     @ concat (map (\<lambda>c. if c = CHR 0x27 then [CHR 0x27, CHR 0x22, CHR 0x27, CHR 0x22, CHR 0x27]
                        else [c]) value)
     @ [CHR 0x27]"


text \<open>The environment of the process: the value of a variable that is set.\<close>

type_synonym environment = "string \<Rightarrow> string option"

definition env_or :: "environment \<Rightarrow> string \<Rightarrow> string \<Rightarrow> string" where
  "env_or env name dflt = (case env name of Some v \<Rightarrow> v | None \<Rightarrow> dflt)"

definition default_pares_agens_dir :: string where
  "default_pares_agens_dir = ''pares-agens''"

definition projects_subdir :: string where
  "projects_subdir = ''projects''"

definition default_self_update_interval_secs :: nat where
  "default_self_update_interval_secs = 3600"

definition resolve_agens_dir :: "environment \<Rightarrow> string" where
  "resolve_agens_dir env =
     (let home = env_or env ''HOME'' ''/home/kbristol'' in
      env_or env ''PARES_AGENS_DIR''
        (home @ ''/'' @ projects_subdir @ ''/'' @ default_pares_agens_dir))"

text \<open>The three fixed pieces of the command's format string.\<close>

definition update_enter :: string where
  "update_enter = ''set -eu; cd ''"

definition update_switch :: string where
  \<open>update_switch =
     ''; FLAKE_INPUT=$(grep -oP 'pares-(?:radix|agens)(?='' @ [CHR 0x5C] @ ''.url)' flake.nix | head -1); '' @
     ''if [ -z "$FLAKE_INPUT" ]; then echo 'ERROR: No pares-radix or pares-agens input found in flake.nix'; exit 1; fi; '' @
     ''echo "Updating flake input: $FLAKE_INPUT"; '' @
     ''lock_before=$(sha256sum flake.lock 2>/dev/null | cut -d' ' -f1 || true); '' @
     ''sudo nix flake update "$FLAKE_INPUT"; '' @
     ''lock_after=$(sha256sum flake.lock 2>/dev/null | cut -d' ' -f1 || true); '' @
     ''if [ "$lock_before" != "$lock_after" ]; then '' @
     ''sudo nixos-rebuild switch --flake .#''\<close>

definition update_finish :: string where
  \<open>update_finish =
     ''; echo 'Self-update applied'; '' @
     ''else '' @
     ''echo 'No new commits on main'; '' @
     ''fi''\<close>

definition build_update_command :: "string \<Rightarrow> string \<Rightarrow> string" where
  "build_update_command flake_dir host =
     (let flake_dir = shell_single_quote flake_dir; host = shell_single_quote host in
      update_enter @ flake_dir @ update_switch @ host @ update_finish)"

definition build_self_update_task :: "string \<Rightarrow> string \<Rightarrow> nat \<Rightarrow> task" where
  "build_self_update_task flake_dir host interval_secs = default_task
     \<lparr>task_id := ''self-update.rebuild'', task_name := ''Self-update via source rebuild'',
      task_schedule := Interval (of_nat interval_secs),
      task_command := build_update_command flake_dir host, task_enabled := True,
      last_run := None, last_result := None\<rparr>"

definition self_update_task_from_env :: "environment \<Rightarrow> task" where
  "self_update_task_from_env env =
     (let flake_dir = env_or env ''PARES_NIX_FLAKE_DIR'' ''.'';
          host = env_or env ''PARES_NIX_HOST'' ''praxisbot'';
          interval = (case Option.bind (env ''PARES_SELF_UPDATE_INTERVAL_SECS'') (parse_uint 64) of
              Some secs \<Rightarrow> if 0 < secs then secs else default_self_update_interval_secs
            | None \<Rightarrow> default_self_update_interval_secs) in
      build_self_update_task flake_dir host interval)"

section \<open>Lemmas\<close>

subsection \<open>Cron fields\<close>

lemma u32_sub_le: "b \<le> a \<Longrightarrow> u32_sub a b = Some (a - b)"
  by (simp add: u32_sub_def)

text \<open>What \<open>cron_in_base\<close> has checked when a subtraction is reached.\<close>

lemma cron_in_base_star: "cron_in_base ''*'' v mn mx \<Longrightarrow> mn \<le> v"
  by (simp add: cron_in_base_def)

lemma cron_in_base_range:
  "cron_in_base base v mn mx \<Longrightarrow> base \<noteq> ''*'' \<Longrightarrow> split_once (CHR ''-'') base = Some (lo, hi)
    \<Longrightarrow> \<exists>l. parse_u32 lo = Some l \<and> l \<le> v"
  by (auto simp: cron_in_base_def split: option.splits)

lemma matches_cron_part_total: "matches_cron_part part v mn mx \<noteq> None"
  by (auto simp: matches_cron_part_def u32_sub_def split: option.splits prod.splits if_splits
    dest: cron_in_base_star cron_in_base_range)

lemma any_opt_total: "(\<And>x. f x \<noteq> None) \<Longrightarrow> any_opt f xs \<noteq> None"
  by (induction xs) (auto split: option.splits)

lemma any_opt_map:
  "(\<And>x. x \<in> set xs \<Longrightarrow> f (g x) = Some (p x)) \<Longrightarrow> any_opt f (map g xs) = Some (\<exists>x \<in> set xs. p x)"
  by (induction xs) auto

lemma matches_cron_field_total: "matches_cron_field field v mn mx \<noteq> None"
  unfolding matches_cron_field_def
  by (simp del: not_None_eq add: any_opt_total matches_cron_part_total)

lemma bind_total: "m \<noteq> None \<Longrightarrow> (\<And>x. f x \<noteq> None) \<Longrightarrow> Option.bind m f \<noteq> None"
  by (cases m) auto

lemma cron_due_total: "task_schedule t = Cron expr \<Longrightarrow> is_due ch t now \<noteq> None"
  unfolding is_due_def
  by (simp del: not_None_eq split: list.split add: Let_def)
     (auto simp del: not_None_eq simp: bind_total matches_cron_field_total)


text \<open>The grammar of cron fields and its meaning, stated apart from the matcher.\<close>

datatype cron_item =
    CAll
  | CAllStep nat
  | CValue nat
  | CValueStep nat nat
  | CRange nat nat
  | CRangeStep nat nat nat

fun render_item :: "cron_item \<Rightarrow> string" where
  "render_item CAll = ''*''"
| "render_item (CAllStep n) = ''*'' @ ''/'' @ show_nat n"
| "render_item (CValue a) = show_nat a"
| "render_item (CValueStep a n) = show_nat a @ ''/'' @ show_nat n"
| "render_item (CRange a b) = show_nat a @ ''-'' @ show_nat b"
| "render_item (CRangeStep a b n) = (show_nat a @ ''-'' @ show_nat b) @ ''/'' @ show_nat n"

definition render_field :: "cron_item list \<Rightarrow> string" where
  "render_field items = join '','' (map render_item items)"

fun item_u32 :: "cron_item \<Rightarrow> bool" where
  "item_u32 CAll = True"
| "item_u32 (CAllStep n) = (0 < n \<and> n < 2 ^ 32)"
| "item_u32 (CValue a) = (a < 2 ^ 32)"
| "item_u32 (CValueStep a n) = (a < 2 ^ 32 \<and> 0 < n \<and> n < 2 ^ 32)"
| "item_u32 (CRange a b) = (a < 2 ^ 32 \<and> b < 2 ^ 32)"
| "item_u32 (CRangeStep a b n) = (a < 2 ^ 32 \<and> b < 2 ^ 32 \<and> 0 < n \<and> n < 2 ^ 32)"

fun item_matches :: "nat \<Rightarrow> nat \<Rightarrow> nat \<Rightarrow> cron_item \<Rightarrow> bool" where
  "item_matches v mn mx CAll = (mn \<le> v \<and> v \<le> mx)"
| "item_matches v mn mx (CAllStep n) = (mn \<le> v \<and> v \<le> mx \<and> n dvd v - mn)"
| "item_matches v mn mx (CValue a) = (v = a \<and> mn \<le> v \<and> v \<le> mx)"
| "item_matches v mn mx (CValueStep a n) = (v = a \<and> mn \<le> v \<and> v \<le> mx)"
| "item_matches v mn mx (CRange a b) = (mn \<le> a \<and> b \<le> mx \<and> a \<le> v \<and> v \<le> b)"
| "item_matches v mn mx (CRangeStep a b n) = (mn \<le> a \<and> b \<le> mx \<and> a \<le> v \<and> v \<le> b \<and> n dvd v - a)"

lemma sep_not_digit [simp]:
  "CHR ''/'' \<notin> set (show_nat n)" "CHR ''-'' \<notin> set (show_nat n)" "CHR '','' \<notin> set (show_nat n)"
  "CHR ''*'' \<notin> set (show_nat n)"
  by (rule ascii_digit_not; simp add: is_ascii_digit_def)+

lemma show_nat_not_star [simp]: "show_nat n \<noteq> ''*''" "show_nat n @ x \<noteq> ''*''" "show_nat n \<noteq> []"
proof -
  obtain c cs where c: "show_nat n = c # cs"
    using show_nat_digits [of n] by (cases "show_nat n") auto
  moreover from c have "c \<noteq> CHR ''*''" using sep_not_digit(4) [of n] by auto
  ultimately show "show_nat n \<noteq> ''*''" "show_nat n @ x \<noteq> ''*''" "show_nat n \<noteq> []" by simp_all
qed

lemma show_nat_graph [simp]: "list_all is_graph (show_nat n)"
  using show_nat_digits [of n] by (auto simp: list_all_iff intro: is_graph_digit)

lemma parse_u32_show [simp]: "n < 2 ^ 32 \<Longrightarrow> parse_u32 (show_nat n) = Some n"
  by (simp add: parse_u32_def parse_show_nat)

lemma cron_step_simps:
  "CHR ''/'' \<notin> set part \<Longrightarrow> cron_step part = Some (part, 1)"
  "CHR ''/'' \<notin> set base \<Longrightarrow> 0 < n \<Longrightarrow> n < 2 ^ 32
    \<Longrightarrow> cron_step (base @ CHR ''/'' # show_nat n) = Some (base, n)"
  by (simp_all add: cron_step_def split_once_append iffD2 [OF split_once_None])

lemma cron_in_base_simps:
  "a < 2 ^ 32 \<Longrightarrow> cron_in_base (show_nat a) v mn mx \<longleftrightarrow> v = a \<and> mn \<le> v \<and> v \<le> mx"
  "a < 2 ^ 32 \<Longrightarrow> b < 2 ^ 32 \<Longrightarrow> cron_in_base (show_nat a @ CHR ''-'' # show_nat b) v mn mx
    \<longleftrightarrow> mn \<le> a \<and> b \<le> mx \<and> a \<le> v \<and> v \<le> b"
  by (auto simp: cron_in_base_def split_once_append iffD2 [OF split_once_None])

lemma matches_item:
  "item_u32 i \<Longrightarrow> matches_cron_part (render_item i) v mn mx = Some (item_matches v mn mx i)"
proof (cases i)
  case (CAllStep n)
  assume "item_u32 i"
  with CAllStep show ?thesis
    using cron_step_simps(2) [of "''*''" n]
    by (auto simp: matches_cron_part_def u32_sub_def cron_in_base_def)
next
  case (CRangeStep a b n)
  assume "item_u32 i"
  with CRangeStep show ?thesis
    using cron_step_simps(2) [of "show_nat a @ CHR ''-'' # show_nat b" n]
    by (auto simp: matches_cron_part_def u32_sub_def cron_in_base_simps split_once_append)
qed (auto simp: matches_cron_part_def cron_step_simps cron_in_base_simps u32_sub_def
  split_once_append iffD2 [OF split_once_None] cron_in_base_def [of "''*''"])

lemma render_item_chars:
  "render_item i \<noteq> [] \<and> list_all is_graph (render_item i) \<and> CHR '','' \<notin> set (render_item i)"
  by (cases i) (simp_all add: is_graph_def)

lemma trim_item: "trim (render_item i) = render_item i"
  using render_item_chars [of i] by (intro trim_graph) (auto simp: list_all_iff)

lemma star_field: "mn \<le> v \<Longrightarrow> v \<le> mx \<Longrightarrow> matches_cron_field f v mn mx =
    any_opt (\<lambda>part. matches_cron_part (trim part) v mn mx) (split_on (CHR '','') f)"
  using trim_item [of CAll] matches_item [of CAll v mn mx] by (simp add: matches_cron_field_def)


subsection \<open>Failure alerts\<close>

datatype outcome = Failed string time | Succeeded

fun observe :: "outcome list \<Rightarrow> task \<Rightarrow> (time \<times> alert_event) list" where
  "observe [] t = []"
| "observe (Failed e now # os) t =
     (case record_failure e now t of
        (None, t') \<Rightarrow> observe os t'
      | (Some ev, t') \<Rightarrow> (now, ev) # observe os t')"
| "observe (Succeeded # os) t = observe os (record_success t)"

lemma record_failure_policy:
  "record_failure e now t = (a, t') \<Longrightarrow> task_failure_alert t' = task_failure_alert t"
  by (auto simp: record_failure_def Let_def split: option.splits if_splits)

lemma record_failure_alert:
  assumes "record_failure e now t = (Some ev, t')" and "task_failure_alert t = Some p"
  shows "after p \<noteq> 0 \<and> after p \<le> ev_failures ev \<and> last_alert_at t' = Some now
    \<and> (\<forall>d. last_alert_at t = Some d \<longrightarrow> sint (cooldown_secs p) \<le> num_seconds (now - d))"
  using assms by (auto simp: record_failure_def Let_def split: option.splits if_splits)

lemma record_failure_quiet:
  "record_failure e now t = (None, t') \<Longrightarrow> last_alert_at t' = last_alert_at t"
  by (auto simp: record_failure_def Let_def split: option.splits if_splits)

text \<open>Alerts oldest first, starting from a last alert at \<open>d\<close> if there was one.\<close>

fun throttled :: "int \<Rightarrow> time option \<Rightarrow> time list \<Rightarrow> bool" where
  "throttled cd d [] = True"
| "throttled cd d (now # ts) =
     ((case d of None \<Rightarrow> True | Some d \<Rightarrow> cd \<le> num_seconds (now - d)) \<and> throttled cd (Some now) ts)"

lemma observe_throttled:
  "task_failure_alert t = Some p \<Longrightarrow>
     throttled (sint (cooldown_secs p)) (last_alert_at t) (map fst (observe os t))
     \<and> (\<forall>(now, ev) \<in> set (observe os t). after p \<noteq> 0 \<and> after p \<le> ev_failures ev)"
proof (induction os arbitrary: t)
  case (Cons o' os)
  show ?case
  proof (cases o')
    case (Failed e now)
    obtain a t' where r: "record_failure e now t = (a, t')" by fastforce
    have IH: "throttled (sint (cooldown_secs p)) (last_alert_at t') (map fst (observe os t'))
      \<and> (\<forall>(now, ev) \<in> set (observe os t'). after p \<noteq> 0 \<and> after p \<le> ev_failures ev)"
      using Cons.IH [of t'] Cons.prems record_failure_policy [OF r] by simp
    show ?thesis
    proof (cases a)
      case None
      then show ?thesis using IH r record_failure_quiet [of e now t t'] by (simp add: Failed)
    next
      case (Some ev)
      then show ?thesis using IH r record_failure_alert [of e now t ev t' p] Cons.prems
        by (auto simp: Failed split: option.splits)
    qed
  next
    case Succeeded
    then show ?thesis using Cons.IH [of "record_success t"] Cons.prems by (simp add: record_success_def)
  qed
qed simp

lemma unat_saturating_succ: "unat (saturating_succ w) = min (unat w + 1) (2 ^ 32 - 1)"
proof (cases "unat w + 1 < 2 ^ 32")
  case True
  then have "unat (w + 1) = unat w + 1" by (simp add: unat_word_ariths)
  with True show ?thesis by (simp add: saturating_succ_def)
next
  case False
  moreover have "unat w < 2 ^ 32" using unsigned_less [of w, where 'a = nat] by simp
  moreover have "unat (- 1 :: 32 word) = 2 ^ 32 - 1" by (simp add: unsigned_minus_1_eq_mask mask_eq_exp_minus_1)
  ultimately show ?thesis by (simp add: saturating_succ_def)
qed

lemma observe_below_threshold:
  assumes "task_failure_alert t = Some p" and "last_alert_at t = None"
    and "unat (consecutive_failures t) + length fs = unat (after p)" and "fs \<noteq> []"
  shows "\<exists>ev. observe (map (\<lambda>(e, now). Failed e now) fs) t = [(snd (last fs), ev)] \<and> ev_failures ev = after p"
  using assms
proof (induction fs arbitrary: t)
  case (Cons f fs)
  obtain e now where f: "f = (e, now)" by (cases f)
  have bound: "unat (after p) < 2 ^ 32" using unsigned_less [of "after p", where 'a = nat] by simp
  have cf: "unat (saturating_succ (consecutive_failures t)) = unat (consecutive_failures t) + 1"
    using Cons.prems(3) bound by (simp add: unat_saturating_succ)
  show ?case
  proof (cases "fs = []")
    case True
    have "saturating_succ (consecutive_failures t) = after p"
      using cf True Cons.prems(3) by (simp add: word_unat_eq_iff)
    moreover have "after p \<noteq> 0" using Cons.prems(3) by (auto simp: unat_eq_zero)
    ultimately show ?thesis using True f Cons.prems by (simp add: record_failure_def Let_def)
  next
    case False
    let ?t = "t\<lparr>last_result := Some e, consecutive_failures := saturating_succ (consecutive_failures t)\<rparr>"
    have "consecutive_failures ?t < after p"
      using cf False Cons.prems(3) by (cases fs) (simp_all add: word_less_nat_alt)
    then have "record_failure e now t = (None, ?t)"
      using Cons.prems by (simp add: record_failure_def Let_def)
    with False f Cons.IH [of ?t] Cons.prems cf show ?thesis by simp
  qed
qed simp

subsection \<open>The command line\<close>

definition quoted :: "string \<Rightarrow> string" where
  "quoted w = CHR 0x22 # w @ [CHR 0x22]"

lemma tokenize_in_quotes:
  "CHR 0x22 \<notin> set w \<Longrightarrow> tokenize (Some (CHR 0x22)) cur (w @ CHR 0x22 # s) = tokenize None (cur @ w) s"
proof (induction w arbitrary: cur)
  case Nil
  then show ?case by (subst tokenize.simps) simp
next
  case (Cons c w)
  then show ?case by (subst tokenize.simps) auto
qed

lemma tokenize_quoted_word:
  "CHR 0x22 \<notin> set w \<Longrightarrow> tokenize None [] (quoted w @ s) = tokenize None w s"
  by (subst tokenize.simps) (simp add: quoted_def tokenize_in_quotes)

lemma tokenize_blank:
  "cur \<noteq> [] \<Longrightarrow> tokenize None cur (CHR '' '' # s) =
     (case tokenize None [] s of Inl e \<Rightarrow> Inl e | Inr ts \<Rightarrow> Inr (cur # ts))"
  by (subst tokenize.simps) (simp add: ws_len_blank split: sum.split)

lemma tokenize_end: "cur \<noteq> [] \<Longrightarrow> tokenize None cur [] = Inr [cur]"
  by (subst tokenize.simps) simp

lemma tokenize_plain:
  "list_all (\<lambda>c. is_graph c \<and> \<not> is_quote c) w \<Longrightarrow> tokenize None cur (w @ s) = tokenize None (cur @ w) s"
proof (induction w arbitrary: cur)
  case (Cons c w)
  then show ?case by (subst tokenize.simps) (simp add: ws_len_graph)
qed simp

lemma split_ws_graph:
  "list_all is_graph w \<Longrightarrow> split_ws_aux acc (w @ s) = split_ws_aux (rev w @ acc) s"
proof (induction w arbitrary: acc)
  case (Cons c w)
  then show ?case by (subst split_ws_aux.simps) (simp add: ws_len_graph)
qed simp

lemma split_whitespace_words:
  "\<forall>w \<in> set ws. w \<noteq> [] \<and> list_all is_graph w \<Longrightarrow> split_whitespace (join '' '' ws) = ws"
proof (induction "'' ''" ws rule: join.induct)
  case 1
  then show ?case by (simp add: split_whitespace_def split_ws_aux.simps)
next
  case (2 w)
  then show ?case using split_ws_graph [of w "[]" "[]"]
    by (simp add: split_whitespace_def split_ws_aux.simps [of "rev w"])
next
  case (3 w w' ws)
  then have "split_ws_aux [] (w @ CHR '' '' # join '' '' (w' # ws)) = w # split_whitespace (join '' '' (w' # ws))"
    by (simp add: split_ws_graph split_ws_aux.simps [of "rev w"] ws_len_blank split_whitespace_def)
  with 3 show ?case by (simp add: split_whitespace_def)
qed

lemma takeWhile_show: "takeWhile is_ascii_digit (show_nat n @ u # us) =
    (if is_ascii_digit u then show_nat n @ takeWhile is_ascii_digit (u # us) else show_nat n)"
  using show_nat_digits [of n] by (auto simp: takeWhile_append list_all_iff)

lemma dropWhile_show: "\<not> is_ascii_digit u \<Longrightarrow> dropWhile is_ascii_digit (show_nat n @ u # us) = u # us"
  using show_nat_digits [of n] by (auto simp: dropWhile_append list_all_iff)

fun unit_secs :: "char \<Rightarrow> nat" where
  "unit_secs c = (if c = CHR ''s'' then 1 else if c = CHR ''m'' then 60 else 3600)"

lemma parse_interval_show:
  assumes "u \<in> {CHR ''s'', CHR ''m'', CHR ''h''}"
  shows "parse_interval_secs (show_nat n @ [u]) =
    (if 0 < n \<and> n * unit_secs u < 2 ^ 64 then Some (n * unit_secs u) else None)"
proof -
  have "\<not> is_ascii_digit u" using assms by (auto simp: is_ascii_digit_def)
  with assms show ?thesis
    by (auto simp: parse_interval_secs_def takeWhile_show dropWhile_show parse_show_nat
      checked_mul_u64_def)
qed


subsection \<open>Due fields\<close>

lemma render_field_chars:
  "items \<noteq> [] \<Longrightarrow> render_field items \<noteq> [] \<and> list_all is_graph (render_field items)"
proof (induction items rule: induct_list012)
  case (2 i)
  then show ?case using render_item_chars [of i] by (simp add: render_field_def)
next
  case (3 i j js)
  have "is_graph (CHR '','')" by (simp add: is_graph_def)
  with 3 show ?case using render_item_chars [of i] by (simp add: render_field_def)
qed simp

lemma matches_render_field:
  assumes "items \<noteq> []" and "list_all item_u32 items" and "mn \<le> v" and "v \<le> mx"
  shows "matches_cron_field (render_field items) v mn mx = Some (\<exists>i \<in> set items. item_matches v mn mx i)"
proof -
  have "split_on (CHR '','') (render_field items) = map render_item items"
    using assms(1) render_item_chars by (auto simp: render_field_def intro!: split_on_join)
  then show ?thesis
    using assms by (simp add: star_field any_opt_map trim_item matches_item list_all_iff)
qed

text \<open>The ranges of the calendar fields.\<close>

definition calendar_ok :: "chrono \<Rightarrow> time \<Rightarrow> bool" where
  "calendar_ok ch now \<longleftrightarrow> dt_minute ch now \<le> 59 \<and> dt_hour ch now \<le> 23
     \<and> 1 \<le> dt_day ch now \<and> dt_day ch now \<le> 31 \<and> 1 \<le> dt_month ch now \<and> dt_month ch now \<le> 12
     \<and> dt_weekday ch now \<le> 6"

definition render_cron :: "cron_item list list \<Rightarrow> string" where
  "render_cron fs = join '' '' (map render_field fs)"

lemma split_render_cron:
  "\<forall>f \<in> set fs. f \<noteq> [] \<Longrightarrow> split_whitespace (render_cron fs) = map render_field fs"
  unfolding render_cron_def by (rule split_whitespace_words) (use render_field_chars in auto)

lemma is_due_panic:
  "is_due ch t now = None \<longleftrightarrow> (\<exists>w. task_schedule t = Interval w \<and> td_seconds ch (sint w) = None)"
  by (cases "task_schedule t") (use cron_due_total [of t] in \<open>auto simp: is_due_def Option.bind_eq_None_conv\<close>)

subsection \<open>The command line of \<open>/cron add\<close>\<close>

definition cron_add_line :: "string \<Rightarrow> string \<Rightarrow> string" where
  "cron_add_line sched cmd = ''/cron add '' @ quoted sched @ '' '' @ quoted cmd"

lemma tokenize_cron_add_line:
  assumes "CHR 0x22 \<notin> set sched" and "sched \<noteq> []" and "CHR 0x22 \<notin> set cmd" and "cmd \<noteq> []"
  shows "tokenize_quoted (cron_add_line sched cmd) = Inr [''/cron'', ''add'', sched, cmd]"
proof -
  have 1: "tokenize None [] (quoted cmd) = Inr [cmd]"
    using assms tokenize_quoted_word [of cmd "[]"] tokenize_in_quotes [of cmd "[]" "[]"]
    by (simp add: tokenize_end quoted_def tokenize.simps [of None "[]" "CHR 0x22 # cmd @ [CHR 0x22]"])
  have 2: "tokenize None [] (quoted sched @ CHR '' '' # quoted cmd) = Inr [sched, cmd]"
    using assms 1 tokenize_in_quotes [of sched "[]" "CHR '' '' # quoted cmd"]
    by (simp add: quoted_def tokenize.simps [of None "[]" "CHR 0x22 # x" for x] tokenize_blank)
  have 3: "tokenize None [] (''add'' @ CHR '' '' # quoted sched @ CHR '' '' # quoted cmd)
      = Inr [''add'', sched, cmd]"
    using 2 by (subst tokenize_plain) (simp_all add: is_graph_def tokenize_blank)
  have "tokenize None [] (''/cron'' @ CHR '' '' # ''add'' @ CHR '' '' # quoted sched @ CHR '' '' # quoted cmd)
      = Inr [''/cron'', ''add'', sched, cmd]"
    using 3 by (subst tokenize_plain) (simp_all add: is_graph_def tokenize_blank)
  then show ?thesis by (simp add: tokenize_quoted_def cron_add_line_def)
qed

lemma render_field_no_quote: "items \<noteq> [] \<Longrightarrow> CHR 0x22 \<notin> set (render_field items)"
proof (induction items rule: induct_list012)
  case (2 i)
  have "CHR 0x22 \<notin> set (show_nat n)" for n by (rule ascii_digit_not) (simp add: is_ascii_digit_def)
  then show ?case by (cases i) (simp_all add: render_field_def)
next
  case (3 i j js)
  have "CHR 0x22 \<notin> set (show_nat n)" for n by (rule ascii_digit_not) (simp add: is_ascii_digit_def)
  with 3 show ?case by (cases i) (simp_all add: render_field_def)
qed simp

definition new_task :: "string \<Rightarrow> schedule \<Rightarrow> string \<Rightarrow> task" where
  "new_task uuid sc cmd = default_task\<lparr>task_id := ''cron.'' @ uuid, task_name := cmd,
     task_schedule := sc, task_command := cmd, task_enabled := True\<rparr>"

definition cmd_ok :: "string \<Rightarrow> bool" where
  "cmd_ok cmd \<longleftrightarrow> cmd \<noteq> [] \<and> trim cmd = cmd \<and> CHR 0x22 \<notin> set cmd"

lemma parse_cron_add_line:
  assumes "CHR 0x22 \<notin> set sched" and "sched \<noteq> []" and "trim sched = sched" and "cmd_ok cmd"
  shows "parse_cron_add uuid (cron_add_line sched cmd) =
    (case strip_prefix ''every '' sched of
       Some rest \<Rightarrow>
         (case parse_interval_secs (trim rest) of
            None \<Rightarrow> Inl (InvalidSchedule sched)
          | Some secs \<Rightarrow> Inr (new_task uuid (Interval (of_nat secs)) cmd))
     | None \<Rightarrow>
         if length (split_whitespace sched) \<noteq> 5 then Inl (InvalidSchedule sched)
         else Inr (new_task uuid (Cron sched) cmd))"
  using assms tokenize_cron_add_line [of sched cmd]
  by (simp add: parse_cron_add_def cmd_ok_def new_task_def default_task_def split: option.split)

lemma parse_cron_add_every:
  assumes "u \<in> {CHR ''s'', CHR ''m'', CHR ''h''}" and "cmd_ok cmd"
  shows "parse_cron_add uuid (cron_add_line (''every '' @ show_nat n @ [u]) cmd) =
    (if 0 < n \<and> n * unit_secs u < 2 ^ 64
     then Inr (new_task uuid (Interval (of_nat (n * unit_secs u))) cmd)
     else Inl (InvalidSchedule (''every '' @ show_nat n @ [u])))"
proof -
  have g: "is_graph u" "u \<noteq> CHR 0x22" using assms(1) by (auto simp: is_graph_def)
  have d: "is_graph (hd (show_nat n @ [u]))" "CHR 0x22 \<notin> set (show_nat n)"
    using show_nat_digits [of n] ascii_digit_not [of "CHR 0x22" n]
    by (cases "show_nat n", auto simp: is_graph_digit is_ascii_digit_def)
  have "trim (show_nat n @ [u]) = show_nat n @ [u]"
    using g d by (intro trim_graph) simp_all
  moreover have "trim (''every '' @ show_nat n @ [u]) = ''every '' @ show_nat n @ [u]"
    using g by (intro trim_graph) (simp_all add: is_graph_def)
  moreover have "strip_prefix ''every '' (''every '' @ show_nat n @ [u]) = Some (show_nat n @ [u])"
    by (rule strip_prefix_append)
  ultimately show ?thesis
    using parse_interval_show [OF assms(1), of n] assms(2) g d
    by (subst parse_cron_add_line) (simp_all del: append.append_Cons unit_secs.simps)
qed

subsection \<open>Words of the shell\<close>

text \<open>
  How the shell reads one word, stated apart from the quoting: the state is the open quote;
  the word ends before an unquoted delimiter.  Text the shell would expand gives \<open>None\<close>.
\<close>

definition sh_delim :: "char \<Rightarrow> bool" where
  "sh_delim c \<longleftrightarrow> c \<in> set '' ;&|<>()'' \<or> c = CHR 0x09 \<or> c = newline"

definition sh_special :: "char \<Rightarrow> bool" where
  "sh_special c \<longleftrightarrow> c \<in> set ''$*?[]#~=%!{}'' \<or> c = CHR 0x60 \<or> c = CHR 0x5C"

fun sh_word :: "char option \<Rightarrow> string \<Rightarrow> (string \<times> string) option" where
  "sh_word None [] = Some ([], [])"
| "sh_word (Some q) [] = None"
| "sh_word None (c # cs) =
     (if is_quote c then sh_word (Some c) cs
      else if sh_delim c then Some ([], c # cs)
      else if sh_special c then None
      else map_option (\<lambda>(w, r). (c # w, r)) (sh_word None cs))"
| "sh_word (Some q) (c # cs) =
     (if c = q then sh_word None cs
      else if q = CHR 0x22 \<and> (c = CHR ''$'' \<or> c = CHR 0x60 \<or> c = CHR 0x5C) then None
      else map_option (\<lambda>(w, r). (c # w, r)) (sh_word (Some q) cs))"

lemma sh_word_quoted:
  "sh_word None (shell_single_quote v @ s) = map_option (\<lambda>(w, r). (v @ w, r)) (sh_word None s)"
proof -
  let ?esc = "\<lambda>c. if c = CHR 0x27 then [CHR 0x27, CHR 0x22, CHR 0x27, CHR 0x22, CHR 0x27] else [c]"
  have "sh_word (Some (CHR 0x27)) (concat (map ?esc v) @ CHR 0x27 # s)
      = map_option (\<lambda>(w, r). (v @ w, r)) (sh_word None s)"
  proof (induction v)
    case Nil
    then show ?case by (cases "sh_word None s") auto
  next
    case (Cons c v)
    then show ?case by (cases "sh_word None s") auto
  qed
  then show ?thesis by (simp add: shell_single_quote_def)
qed

section \<open>Properties\<close>

text \<open>C10: The cron matcher implements the grammar of cron fields: for an expression whose five
  fields are non-empty lists of \<open>*\<close>, values, ranges and steps, a task is due exactly when every
  field has an item that contains the current calendar field and at least a minute has passed
  since its last run.\<close>

theorem cron_due_spec:
  assumes "task_schedule t = Cron (render_cron [fmin, fhour, fday, fmonth, fwday])"
    and "\<forall>f \<in> {fmin, fhour, fday, fmonth, fwday}. f \<noteq> [] \<and> list_all item_u32 f"
    and "calendar_ok ch now"
  shows "is_due ch t now = Some
    ((\<exists>i \<in> set fmin. item_matches (dt_minute ch now) 0 59 i)
     \<and> (\<exists>i \<in> set fhour. item_matches (dt_hour ch now) 0 23 i)
     \<and> (\<exists>i \<in> set fday. item_matches (dt_day ch now) 1 31 i)
     \<and> (\<exists>i \<in> set fmonth. item_matches (dt_month ch now) 1 12 i)
     \<and> (\<exists>i \<in> set fwday. item_matches (dt_weekday ch now) 0 6 i)
     \<and> (\<forall>l. last_run t = Some l \<longrightarrow> 60 \<le> num_seconds (now - l)))"
  using assms
  by (simp add: is_due_def split_render_cron matches_render_field calendar_ok_def Let_def
    split: option.splits)

definition example_chrono :: chrono where
  "example_chrono =
     \<lparr>td_seconds = (\<lambda>n. if \<bar>n\<bar> \<le> (2 ^ 63 - 1) div 1000 then Some (n * nanos_per_sec) else None),
      td_hours = (\<lambda>n. Some (n * 3600 * nanos_per_sec)), td_days = (\<lambda>n. Some (n * 86400 * nanos_per_sec)),
      dt_add = (\<lambda>t d. Some (t + d)), dt_minute = (\<lambda>_. 30), dt_hour = (\<lambda>_. 8), dt_day = (\<lambda>_. 1),
      dt_month = (\<lambda>_. 6), dt_weekday = (\<lambda>_. 3), to_rfc3339 = (\<lambda>_. []), parse_rfc3339 = (\<lambda>_. None)\<rparr>"

theorem cron_due_spec_witness:
  "is_due example_chrono
     (default_task\<lparr>task_schedule := Cron ''*/15 8-18/2 * 1,6 1-5'', last_run := Some 0\<rparr>)
     (60 * nanos_per_sec) = Some True"
proof -
  have "render_cron [[CAllStep 15], [CRangeStep 8 18 2], [CAll], [CValue 1, CValue 6], [CRange 1 5]]
      = ''*/15 8-18/2 * 1,6 1-5''"
    by code_simp
  then show ?thesis
    using cron_due_spec [of "default_task\<lparr>task_schedule := Cron ''*/15 8-18/2 * 1,6 1-5'',
        last_run := Some 0\<rparr>" "[CAllStep 15]" "[CRangeStep 8 18 2]" "[CAll]" "[CValue 1, CValue 6]"
        "[CRange 1 5]" example_chrono "60 * nanos_per_sec"]
    by (simp add: calendar_ok_def example_chrono_def num_seconds_def nanos_per_sec_def)
qed

text \<open>The test whether a task is due panics in exactly one case, an interval whose number of
  seconds, read as a signed 64-bit integer, is out of the range of a time delta; no text of a cron
  expression makes it panic.\<close>

theorem is_due_panics_iff:
  "is_due ch t now = None \<longleftrightarrow> (\<exists>w. task_schedule t = Interval w \<and> td_seconds ch (sint w) = None)"
  by (rule is_due_panic)

text \<open>\<open>/cron add "every <n><unit>" "<command>"\<close> creates the enabled task with that command and
  interval if the number is positive and the seconds fit 64 bits, and is refused with the schedule
  as written otherwise; the multiplication never wraps.\<close>

theorem cron_add_every:
  assumes "u \<in> {CHR ''s'', CHR ''m'', CHR ''h''}" and "cmd_ok cmd"
  shows "parse_cron_add uuid (cron_add_line (''every '' @ show_nat n @ [u]) cmd) =
    (if 0 < n \<and> n * unit_secs u < 2 ^ 64
     then Inr (new_task uuid (Interval (of_nat (n * unit_secs u))) cmd)
     else Inl (InvalidSchedule (''every '' @ show_nat n @ [u])))"
  using assms by (rule parse_cron_add_every)

theorem cron_add_every_witness:
  "parse_cron_add ''id'' (cron_add_line (''every '' @ show_nat 5 @ [CHR ''m'']) ''do it'') =
     Inr (new_task ''id'' (Interval 300) ''do it'')"
  using cron_add_every [of "CHR ''m''" "''do it''" "''id''" 5]
  by (simp add: cmd_ok_def trim_graph is_graph_def)

text \<open>The \<open>n\<close>-th failure in a row raises the alert: for a task that has not alerted yet, the
  run of failures that takes its counter to the policy's threshold yields exactly one alert, at the
  last of them, carrying the threshold as its count.\<close>

theorem alert_at_threshold:
  assumes "task_failure_alert t = Some p" and "last_alert_at t = None"
    and "unat (consecutive_failures t) + length fs = unat (after p)" and "fs \<noteq> []"
  shows "\<exists>ev. observe (map (\<lambda>(e, now). Failed e now) fs) t = [(snd (last fs), ev)]
    \<and> ev_failures ev = after p"
  using assms by (rule observe_below_threshold)

theorem alert_at_threshold_witness:
  "\<exists>ev. observe (map (\<lambda>(e, now). Failed e now) [(''a'', 5), (''b'', 7)])
      (default_task\<lparr>task_failure_alert := Some \<lparr>after = 2, cooldown_secs = 60\<rparr>\<rparr>) = [(7, ev)]
    \<and> ev_failures ev = 2"
  using alert_at_threshold [of
      "default_task\<lparr>task_failure_alert := Some \<lparr>after = 2, cooldown_secs = 60\<rparr>\<rparr>"
      "\<lparr>after = 2, cooldown_secs = 60\<rparr>" "[(''a'', 5), (''b'', 7)]"]
  by (simp add: default_task_def)

text \<open>Alerts are throttled: over any sequence of failures and successes, two consecutive alerts
  of a task are at least the cool-down apart, and every alert reports at least as many consecutive
  failures as the policy asks for; a policy of zero failures never alerts.\<close>

theorem alerts_throttled:
  assumes "task_failure_alert t = Some p"
  shows "throttled (sint (cooldown_secs p)) (last_alert_at t) (map fst (observe os t))
    \<and> (\<forall>(now, ev) \<in> set (observe os t). after p \<noteq> 0 \<and> after p \<le> ev_failures ev)"
  using assms by (rule observe_throttled)

theorem alerts_throttled_witness:
  "throttled 60 None (map fst (observe [Failed ''a'' 1, Failed ''b'' 2, Succeeded, Failed ''c'' 3]
     (default_task\<lparr>task_failure_alert := Some \<lparr>after = 1, cooldown_secs = 60\<rparr>\<rparr>)))"
  using alerts_throttled [of "default_task\<lparr>task_failure_alert := Some \<lparr>after = 1, cooldown_secs = 60\<rparr>\<rparr>"
      "\<lparr>after = 1, cooldown_secs = 60\<rparr>" "[Failed ''a'' 1, Failed ''b'' 2, Succeeded, Failed ''c'' 3]"]
  by (simp add: default_task_def)

text \<open>The self-update command passes the flake directory and the host to the shell as they are:
  whatever bytes they hold, quotes and substitutions included, the shell reads each as one literal
  word that ends at the semicolon after it.\<close>

theorem update_command_words:
  "sh_word None (drop (length update_enter) (build_update_command dir host))
     = Some (dir, update_switch @ shell_single_quote host @ update_finish)
   \<and> sh_word None (shell_single_quote host @ update_finish) = Some (host, update_finish)"
proof -
  have q: "sh_word None (shell_single_quote v @ CHR '';'' # r) = Some (v, CHR '';'' # r)" for v r
    by (simp add: sh_word_quoted sh_delim_def)
  have s: "update_switch = CHR '';'' # tl update_switch" and f: "update_finish = CHR '';'' # tl update_finish"
    by (simp_all add: update_switch_def update_finish_def)
  have "sh_word None (shell_single_quote host @ update_finish) = Some (host, update_finish)"
    using q [of host "tl update_finish"] f by simp
  moreover have "sh_word None (shell_single_quote dir @ update_switch @ x) = Some (dir, update_switch @ x)" for x
    using q [of dir "tl update_switch @ x"] s by (metis append_Cons)
  ultimately show ?thesis by (simp add: build_update_command_def Let_def)
qed

end
