(* ===== verification/Scheduler.thy ===== *)
theory Scheduler
  imports Cron
begin

text \<open>
  The scheduler (\<open>crates/agenda/src/scheduler.rs\<close>): its tasks with their persistent store, and
  its loop as a machine whose steps are the sections the code runs under one lock.  The
  persistent store and its (de)serialisation are parameters.
\<close>

section \<open>The task store\<close>

datatype store_error = Store string | Serialise string

record 's task_store =
  ts_upsert :: "task \<Rightarrow> 's \<Rightarrow> store_error option \<times> 's"
  ts_delete :: "string \<Rightarrow> 's \<Rightarrow> store_error option \<times> 's"
  ts_all :: "'s \<Rightarrow> store_error + task list"

definition task_prefix :: string where
  "task_prefix = ''agenda/task/''"

definition task_actor :: string where
  "task_actor = ''plures-agenda''"

text \<open>The (de)serialisation of a task by \<open>serde_json\<close>, a parameter.\<close>

record 'j task_codec =
  to_value :: "task \<Rightarrow> string + 'j"
  from_value :: "'j \<Rightarrow> string + task"

definition plures_upsert ::
    "('s, 'j) crdt \<Rightarrow> 'j task_codec \<Rightarrow> task \<Rightarrow> 's \<Rightarrow> store_error option \<times> 's" where
  "plures_upsert db cd t s =
     (let key = task_prefix @ task_id t in
      case to_value cd t of
        Inl e \<Rightarrow> (Some (Serialise (''encode task failed: '' @ e)), s)
      | Inr value \<Rightarrow> (None, crdt_put db key task_actor value s))"

definition plures_delete :: "('s, 'j) crdt \<Rightarrow> string \<Rightarrow> 's \<Rightarrow> store_error option \<times> 's" where
  "plures_delete db xid s = (None, snd (crdt_delete db (task_prefix @ xid) s))"

text \<open>A record that does not decode is skipped with a warning.\<close>

fun decode_tasks :: "'j task_codec \<Rightarrow> (string \<times> 'j) list \<Rightarrow> task list" where
  "decode_tasks cd [] = []"
| "decode_tasks cd ((k, v) # rs) =
     (case from_value cd v of
        Inr t \<Rightarrow> t # decode_tasks cd rs
      | Inl e \<Rightarrow> decode_tasks cd rs)"

definition plures_all :: "('s, 'j) crdt \<Rightarrow> 'j task_codec \<Rightarrow> 's \<Rightarrow> store_error + task list" where
  "plures_all db cd s =
     Inr (decode_tasks cd (filter (\<lambda>(k, v). prefix task_prefix k) (crdt_list db s)))"

definition plures_task_store :: "('s, 'j) crdt \<Rightarrow> 'j task_codec \<Rightarrow> 's task_store" where
  "plures_task_store db cd =
     \<lparr>ts_upsert = plures_upsert db cd, ts_delete = plures_delete db, ts_all = plures_all db cd\<rparr>"

section \<open>The scheduler\<close>

text \<open>
  The state of a scheduler and of its loop.  A change of the tasks in memory happens under their
  lock, the write of the changed task to the store after the lock is released: \<open>pending\<close> holds
  the writes (\<open>None\<close> deletes) that the calls have still to make, oldest first.  \<open>due_queue\<close> holds the due tasks of the current
  tick that the loop has not come to yet, \<open>marking\<close> the task that has been handed to the
  executor and is not yet marked as run, \<open>running\<close> the spawned executions; \<open>alive\<close> is lost
  when the loop panics.  \<open>dispatched\<close> records the executions started, with the time of their
  tick, newest first; \<open>alerts\<close> what the alert sink received, newest first.
\<close>

record 's sched =
  tasks :: "(string, task) hmap"
  store :: "'s option"
  pending :: "(string \<times> task option) list"
  executor :: bool
  alert_sink :: bool
  alive :: bool
  due_now :: time
  due_queue :: "task list"
  marking :: "string option"
  running :: "string list"
  dispatched :: "(string \<times> time) list"
  alerts :: "alert_event list"

definition sched_new :: "'s option \<Rightarrow> bool \<Rightarrow> bool \<Rightarrow> 's sched" where
  "sched_new st ex al =
     \<lparr>tasks = [], store = st, pending = [], executor = ex, alert_sink = al, alive = True, due_now = 0,
      due_queue = [], marking = None, running = [], dispatched = [], alerts = []\<rparr>"

definition queue_write :: "string \<Rightarrow> task option \<Rightarrow> 's sched \<Rightarrow> 's sched" where
  "queue_write xid w s = (if store s = None then s else s\<lparr>pending := pending s @ [(xid, w)]\<rparr>)"

text \<open>A failure to persist is logged and otherwise ignored.\<close>

fun write_task :: "'s task_store \<Rightarrow> string \<times> task option \<Rightarrow> 's \<Rightarrow> 's" where
  "write_task ops (xid, Some t) st = snd (ts_upsert ops t st)"
| "write_task ops (xid, None) st = snd (ts_delete ops xid st)"

definition flush :: "'s task_store \<Rightarrow> nat \<Rightarrow> 's sched \<Rightarrow> 's sched" where
  "flush ops n s =
     (if length (pending s) \<le> n then s
      else s\<lparr>store := map_option (write_task ops (pending s ! n)) (store s),
             pending := take n (pending s) @ drop (Suc n) (pending s)\<rparr>)"

definition load_persisted :: "'s task_store \<Rightarrow> 's sched \<Rightarrow> store_error + (nat \<times> 's sched)" where
  "load_persisted ops s =
     (case store s of
        None \<Rightarrow> Inr (0, s)
      | Some st \<Rightarrow>
          (case ts_all ops st of
             Inl e \<Rightarrow> Inl e
           | Inr ts \<Rightarrow> Inr (length ts,
               s\<lparr>tasks := fold (\<lambda>t m. hm_insert (task_id t) t m) ts (tasks s)\<rparr>)))"

definition add_task :: "task \<Rightarrow> 's sched \<Rightarrow> 's sched" where
  "add_task t s =
     queue_write (task_id t) (Some t) (s\<lparr>tasks := hm_insert (task_id t) t (tasks s)\<rparr>)"

definition remove_task :: "string \<Rightarrow> 's sched \<Rightarrow> bool \<times> 's sched" where
  "remove_task xid s =
     (hm_contains (tasks s) xid, queue_write xid None (s\<lparr>tasks := hm_remove xid (tasks s)\<rparr>))"

definition list_tasks :: "'s sched \<Rightarrow> task list" where
  "list_tasks s = hm_values (tasks s)"

definition get_task :: "string \<Rightarrow> 's sched \<Rightarrow> task option" where
  "get_task xid s = hm_get (tasks s) xid"

definition set_enabled :: "string \<Rightarrow> bool \<Rightarrow> 's sched \<Rightarrow> bool \<times> 's sched" where
  "set_enabled xid enabled s =
     (case hm_get (tasks s) xid of
        None \<Rightarrow> (False, s)
      | Some t \<Rightarrow>
          let t' = t\<lparr>task_enabled := enabled\<rparr> in
          (True, queue_write (task_id t') (Some t')
             (s\<lparr>tasks := hm_modify xid (\<lambda>_. t') (tasks s)\<rparr>)))"

subsection \<open>The loop\<close>

fun collect_due :: "chrono \<Rightarrow> time \<Rightarrow> task list \<Rightarrow> task list option" where
  "collect_due ch now [] = Some []"
| "collect_due ch now (t # ts) =
     (if \<not> task_enabled t then collect_due ch now ts
      else (case is_due ch t now of
              None \<Rightarrow> None
            | Some due \<Rightarrow>
                map_option (\<lambda>ds. if due then t # ds else ds) (collect_due ch now ts)))"

definition tick :: "chrono \<Rightarrow> time \<Rightarrow> 's sched \<Rightarrow> 's sched" where
  "tick ch now s =
     (if \<not> alive s \<or> due_queue s \<noteq> [] \<or> marking s \<noteq> None then s
      else (case collect_due ch now (hm_values (tasks s)) of
              None \<Rightarrow> s\<lparr>alive := False\<rparr>
            | Some ds \<Rightarrow> s\<lparr>due_now := now, due_queue := ds\<rparr>))"

definition dispatch :: "'s sched \<Rightarrow> 's sched" where
  "dispatch s =
     (case (marking s, due_queue s) of
        (None, t # q) \<Rightarrow>
          s\<lparr>due_queue := q, marking := Some (task_id t),
            running := (if executor s then task_id t # running s else running s),
            dispatched := (if executor s then (task_id t, due_now s) # dispatched s
                           else dispatched s)\<rparr>
      | _ \<Rightarrow> s)"

definition mark_run :: "'s sched \<Rightarrow> 's sched" where
  "mark_run s =
     (case marking s of
        None \<Rightarrow> s
      | Some xid \<Rightarrow>
          s\<lparr>marking := None,
            tasks := hm_modify xid (\<lambda>t. t\<lparr>last_run := Some (due_now s)\<rparr>) (tasks s)\<rparr>)"

definition truncate_result :: "string \<Rightarrow> string option" where
  "truncate_result result =
     (if 500 < length result then map_option (\<lambda>r. r @ ''...'') (slice_to result 500)
      else Some result)"

text \<open>
  The spawned execution of a task comes back with its output.  A panic while the output is
  truncated ends the spawned task before it touches the scheduler.
\<close>

definition complete_ok :: "string \<Rightarrow> string \<Rightarrow> time \<Rightarrow> 's sched \<Rightarrow> 's sched" where
  "complete_ok xid result now s =
     (if xid \<notin> set (running s) then s
      else
        let s = s\<lparr>running := remove1 xid (running s)\<rparr> in
        case truncate_result result of
          None \<Rightarrow> s
        | Some truncated \<Rightarrow>
            (case hm_get (tasks s) xid of
               None \<Rightarrow> s
             | Some t \<Rightarrow>
                 let t' = record_success (t\<lparr>last_run := Some now, last_result := Some truncated\<rparr>) in
                 queue_write (task_id t') (Some t')
                   (s\<lparr>tasks := hm_modify xid (\<lambda>_. t') (tasks s)\<rparr>)))"

text \<open>The alert sink is called after the lock is released; it is recorded with the lock section.\<close>

definition complete_err :: "string \<Rightarrow> string \<Rightarrow> time \<Rightarrow> time \<Rightarrow> 's sched \<Rightarrow> 's sched" where
  "complete_err xid err now now2 s =
     (if xid \<notin> set (running s) then s
      else
        let s = s\<lparr>running := remove1 xid (running s)\<rparr> in
        case hm_get (tasks s) xid of
          None \<Rightarrow> s
        | Some t \<Rightarrow>
            (case record_failure (''ERROR: '' @ err) now2 (t\<lparr>last_run := Some now\<rparr>) of
               (alert, t') \<Rightarrow>
                 queue_write (task_id t') (Some t')
                   (s\<lparr>tasks := hm_modify xid (\<lambda>_. t') (tasks s),
                      alerts := (case alert of
                          Some ev \<Rightarrow> if alert_sink s then ev # alerts s else alerts s
                        | None \<Rightarrow> alerts s)\<rparr>)))"

datatype sched_event =
    Tick time
  | Dispatch
  | MarkRun
  | CompleteOk string string time
  | CompleteErr string string time time
  | AddTask task
  | RemoveTask string
  | SetEnabled string bool
  | Flush nat

fun sched_step :: "chrono \<Rightarrow> 's task_store \<Rightarrow> sched_event \<Rightarrow> 's sched \<Rightarrow> 's sched" where
  "sched_step ch ops (Tick now) s = tick ch now s"
| "sched_step ch ops Dispatch s = dispatch s"
| "sched_step ch ops MarkRun s = mark_run s"
| "sched_step ch ops (CompleteOk xid r now) s = complete_ok xid r now s"
| "sched_step ch ops (CompleteErr xid e now now2) s = complete_err xid e now now2 s"
| "sched_step ch ops (AddTask t) s = add_task t s"
| "sched_step ch ops (RemoveTask xid) s = snd (remove_task xid s)"
| "sched_step ch ops (SetEnabled xid b) s = snd (set_enabled xid b s)"
| "sched_step ch ops (Flush n) s = flush ops n s"

definition sched_run :: "chrono \<Rightarrow> 's task_store \<Rightarrow> sched_event list \<Rightarrow> 's sched \<Rightarrow> 's sched" where
  "sched_run ch ops evs s = fold (sched_step ch ops) evs s"

section \<open>Lemmas\<close>

subsection \<open>Dispatching\<close>

text \<open>
  When a task whose last dispatch was in the tick of time \<open>d\<close> may be dispatched again: never
  for a task that runs once, after the interval or after a minute for the others.
\<close>

fun redispatch_ok :: "chrono \<Rightarrow> schedule \<Rightarrow> time \<Rightarrow> time \<Rightarrow> bool" where
  "redispatch_ok ch (Once at) d now = False"
| "redispatch_ok ch (Cron e) d now = (d + 60 * nanos_per_sec \<le> now)"
| "redispatch_ok ch (Interval w) d now =
     (case td_seconds ch (sint w) of None \<Rightarrow> False | Some i \<Rightarrow> d + i \<le> now)"

lemma due_redispatch:
  assumes "is_due ch t now = Some True" and "last_run t = Some l" and "d \<le> l"
  shows "redispatch_ok ch (task_schedule t) d now"
proof (cases "task_schedule t")
  case (Cron e)
  with assms(1,2) have "60 \<le> num_seconds (now - l)"
    by (auto simp: is_due_def Option.bind_eq_Some_conv Let_def split: list.splits)
  then have "60 * nanos_per_sec \<le> now - l" by (subst (asm) num_seconds_ge) simp_all
  with Cron assms(3) show ?thesis by simp
qed (use assms in \<open>auto simp: is_due_def Option.bind_eq_Some_conv\<close>)

text \<open>Adjacent elements of a list, newest first, related pairwise.\<close>

fun spaced :: "('a \<Rightarrow> 'a \<Rightarrow> bool) \<Rightarrow> 'a list \<Rightarrow> bool" where
  "spaced R (n # d # ds) = (R d n \<and> spaced R (d # ds))"
| "spaced R _ = True"

definition times_of :: "string \<Rightarrow> (string \<times> time) list \<Rightarrow> time list" where
  "times_of k ds = map snd (filter (\<lambda>(i, _). i = k) ds)"

lemma times_of_Cons: "times_of k ((i, d) # ds) = (if i = k then d # times_of k ds else times_of k ds)"
  by (simp add: times_of_def)

lemma collect_due_subseq:
  "collect_due ch now ts = Some ds \<Longrightarrow> subseq ds ts \<and> (\<forall>t \<in> set ds. is_due ch t now = Some True)"
proof (induction ts arbitrary: ds)
  case (Cons t ts)
  then show ?case by (auto split: if_splits option.splits bool.splits)
qed simp

definition sched_ok :: "'s sched \<Rightarrow> bool" where
  "sched_ok s \<longleftrightarrow> hm_ok (tasks s) \<and> hm_all (\<lambda>k t. task_id t = k) (tasks s)
     \<and> distinct (map task_id (due_queue s))"

lemma record_failure_frame:
  "record_failure e now t = (a, t') \<Longrightarrow>
     task_id t' = task_id t \<and> task_schedule t' = task_schedule t \<and> last_run t' = last_run t"
  by (auto simp: record_failure_def Let_def split: option.splits if_splits)

lemma record_success_frame [simp]:
  "task_id (record_success t) = task_id t" "task_schedule (record_success t) = task_schedule t"
  "last_run (record_success t) = last_run t"
  by (simp_all add: record_success_def)

lemmas sched_defs =
  tick_def dispatch_def mark_run_def complete_ok_def complete_err_def add_task_def remove_task_def
  set_enabled_def Let_def

lemma queue_write_simps [simp]:
  "tasks (queue_write xid w s) = tasks s" "store (queue_write xid w s) = store s"
  "alive (queue_write xid w s) = alive s" "due_now (queue_write xid w s) = due_now s"
  "due_queue (queue_write xid w s) = due_queue s" "marking (queue_write xid w s) = marking s"
  "running (queue_write xid w s) = running s" "dispatched (queue_write xid w s) = dispatched s"
  by (simp_all add: queue_write_def)

lemma flush_simps [simp]:
  "tasks (flush ops n s) = tasks s" "alive (flush ops n s) = alive s"
  "due_now (flush ops n s) = due_now s" "due_queue (flush ops n s) = due_queue s"
  "marking (flush ops n s) = marking s" "running (flush ops n s) = running s"
  "dispatched (flush ops n s) = dispatched s"
  by (simp_all add: flush_def)

lemma values_ids:
  assumes "sched_ok s"
  shows "map task_id (hm_values (tasks s)) = hm_keys (tasks s)"
  using assms by (auto simp: sched_ok_def hm_all_def hm_values_def hm_keys_def list_all_iff)

lemma values_get:
  assumes "sched_ok s" and "t \<in> set (hm_values (tasks s))"
  shows "hm_get (tasks s) (task_id t) = Some t"
  using assms by (auto simp: sched_ok_def hm_values_iff dest: hm_all_get)

lemma hm_all_modify_to: "hm_all p m \<Longrightarrow> p k v' \<Longrightarrow> hm_all p (hm_modify k (\<lambda>_. v') m)"
  by (rule hm_all_modify)

lemma distinct_subseq: "subseq xs ys \<Longrightarrow> distinct ys \<Longrightarrow> distinct xs"
  by (induction rule: list_emb.induct) (auto dest: list_emb_set)

lemma tick_ok: "sched_ok s \<Longrightarrow> sched_ok (tick ch now s)"
proof -
  assume ok: "sched_ok s"
  have "distinct (map task_id ds)" if "collect_due ch now (hm_values (tasks s)) = Some ds" for ds
  proof -
    have "subseq (map task_id ds) (hm_keys (tasks s))"
      using collect_due_subseq [OF that] subseq_map values_ids [OF ok] by metis
    then show ?thesis
      using ok by (auto simp: sched_ok_def hm_ok_def hm_keys_def dest: distinct_subseq)
  qed
  then show ?thesis using ok by (auto simp: tick_def sched_ok_def split: option.splits)
qed

lemma sched_step_ok:
  assumes ok: "sched_ok s"
  shows "sched_ok (sched_step ch ops ev s)"
proof (cases ev)
  case (Tick now)
  then show ?thesis using ok by (simp add: tick_ok)
next
  case (CompleteErr xid e now now2)
  then show ?thesis using ok
    by (auto simp: sched_ok_def complete_err_def Let_def hm_simps
      split: option.splits prod.splits intro!: hm_all_modify_to dest!: record_failure_frame dest: hm_all_get)
qed (use ok in \<open>auto simp: sched_ok_def dispatch_def mark_run_def complete_ok_def add_task_def
  remove_task_def set_enabled_def Let_def hm_simps split: option.splits list.splits
  intro!: hm_all_modify_to dest: hm_all_get\<close>)


subsection \<open>Spacing of the executions of a task\<close>

definition spacing_inv :: "chrono \<Rightarrow> string \<Rightarrow> schedule \<Rightarrow> time \<Rightarrow> 's sched \<Rightarrow> bool" where
  "spacing_inv ch k sc c s \<longleftrightarrow>
     sched_ok s \<and> due_now s \<le> c \<and>
     (\<forall>t. hm_get (tasks s) k = Some t \<longrightarrow> task_schedule t = sc) \<and>
     spaced (redispatch_ok ch sc) (times_of k (dispatched s)) \<and>
     (case times_of k (dispatched s) of
        [] \<Rightarrow> True
      | d # _ \<Rightarrow> d \<le> due_now s \<and>
          (k \<in> task_id ` set (due_queue s) \<longrightarrow> redispatch_ok ch sc d (due_now s)) \<and>
          (marking s = Some k \<or>
           (\<forall>t. hm_get (tasks s) k = Some t \<longrightarrow> (\<exists>l. last_run t = Some l \<and> d \<le> l))))"

lemma spacing_tick:
  assumes inv: "spacing_inv ch k sc c s" and now: "c \<le> now"
  shows "spacing_inv ch k sc now (tick ch now s)"
proof (cases "alive s \<and> due_queue s = [] \<and> marking s = None")
  case False
  then show ?thesis using inv now by (auto simp: tick_def spacing_inv_def split: list.splits)
next
  case True
  have ok: "sched_ok s" using inv by (simp add: spacing_inv_def)
  show ?thesis
  proof (cases "collect_due ch now (hm_values (tasks s))")
    case None
    then show ?thesis using inv now True
      by (auto simp: tick_def spacing_inv_def sched_ok_def split: list.splits)
  next
    case (Some ds)
    have due: "is_due ch t now = Some True \<and> hm_get (tasks s) (task_id t) = Some t" if "t \<in> set ds" for t
      using collect_due_subseq [OF Some] that values_get [OF ok]
      by (auto dest: list_emb_set)
    have "redispatch_ok ch sc d now"
      if h: "times_of k (dispatched s) = d # r" "t \<in> set ds" "task_id t = k" for d r t
    proof -
      from due [OF h(2)] h(3) have g: "hm_get (tasks s) k = Some t" and "is_due ch t now = Some True"
        by auto
      moreover obtain l where "last_run t = Some l" "d \<le> l"
        using inv True h(1) g by (auto simp: spacing_inv_def)
      ultimately show ?thesis
        using inv due_redispatch [of ch t now l d] by (auto simp: spacing_inv_def)
    qed
    moreover have "sched_ok (tick ch now s)" using ok by (rule tick_ok)
    ultimately show ?thesis using inv now True Some
      by (auto simp: tick_def spacing_inv_def split: list.splits)
  qed
qed

lemma spacing_dispatch:
  assumes inv: "spacing_inv ch k sc c s"
  shows "spacing_inv ch k sc c (dispatch s)"
proof (cases "marking s = None \<and> due_queue s \<noteq> []")
  case False
  then show ?thesis using inv by (auto simp: dispatch_def split: option.splits list.splits)
next
  case True
  then obtain t q where q: "due_queue s = t # q" and m: "marking s = None"
    by (cases "due_queue s") auto
  have d: "k \<notin> task_id ` set q" if "task_id t = k"
    using inv q that by (auto simp: spacing_inv_def sched_ok_def)
  show ?thesis
  proof (cases "task_id t = k")
    case True
    with d q m inv show ?thesis
      by (cases "times_of k (dispatched s)")
        (auto simp: dispatch_def spacing_inv_def sched_ok_def times_of_Cons)
  next
    case False
    with q m inv show ?thesis
      by (auto simp: dispatch_def spacing_inv_def sched_ok_def times_of_Cons split: list.splits)
  qed
qed

lemma spacing_frame:
  assumes inv: "spacing_inv ch k sc c s" and "c \<le> c'" and "sched_ok s'"
    and "due_now s' = due_now s" "due_queue s' = due_queue s" "dispatched s' = dispatched s"
    and "marking s' = marking s"
    and "\<And>t'. hm_get (tasks s') k = Some t' \<Longrightarrow>
      \<exists>t. hm_get (tasks s) k = Some t \<and> task_schedule t' = task_schedule t \<and>
        (last_run t' = last_run t \<or> (\<exists>l. last_run t' = Some l \<and> c \<le> l))"
  shows "spacing_inv ch k sc c' s'"
  using assms unfolding spacing_inv_def
  by (cases "times_of k (dispatched s)") (simp_all, force+)

lemma spacing_mark:
  assumes inv: "spacing_inv ch k sc c s"
  shows "spacing_inv ch k sc c (mark_run s)"
proof -
  have "sched_ok (mark_run s)"
    using sched_step_ok [of s undefined undefined MarkRun] inv by (simp add: spacing_inv_def)
  then show ?thesis using inv
    by (auto simp: mark_run_def spacing_inv_def hm_simps split: option.splits list.splits)
qed

fun clocked :: "time \<Rightarrow> sched_event list \<Rightarrow> bool" where
  "clocked c [] = True"
| "clocked c (Tick now # es) = (c \<le> now \<and> clocked now es)"
| "clocked c (CompleteOk _ _ now # es) = (c \<le> now \<and> clocked now es)"
| "clocked c (CompleteErr _ _ now now2 # es) = (c \<le> now \<and> now \<le> now2 \<and> clocked now2 es)"
| "clocked c (_ # es) = clocked c es"

fun adds_task :: "string \<Rightarrow> sched_event \<Rightarrow> bool" where
  "adds_task k (AddTask t) = (task_id t = k)"
| "adds_task k _ = False"

lemma spacing_step:
  assumes inv: "spacing_inv ch k sc c s" and "\<not> adds_task k ev" and "clocked c (ev # es)"
  shows "\<exists>c'. spacing_inv ch k sc c' (sched_step ch ops ev s) \<and> clocked c' es"
proof -
  have ok: "sched_ok (sched_step ch ops ev s)"
    using inv by (auto simp: spacing_inv_def intro: sched_step_ok)
  show ?thesis
  proof (cases ev)
    case (Tick now)
    then show ?thesis using inv assms(3) by (auto intro: spacing_tick)
  next
    case Dispatch
    then show ?thesis using inv assms(3) by (auto intro: spacing_dispatch)
  next
    case MarkRun
    then show ?thesis using inv assms(3) by (auto intro: spacing_mark)
  next
    case (CompleteOk xid r now)
    have "spacing_inv ch k sc now (complete_ok xid r now s)"
      using inv ok assms(3) unfolding CompleteOk sched_step.simps
      by (elim spacing_frame) (auto simp: complete_ok_def Let_def hm_simps split: option.splits if_splits)
    then show ?thesis using CompleteOk assms(3) by auto
  next
    case (CompleteErr xid e now now2)
    have "spacing_inv ch k sc now2 (complete_err xid e now now2 s)"
      using inv ok assms(3) unfolding CompleteErr sched_step.simps
      by (elim spacing_frame) (auto simp: complete_err_def Let_def hm_simps
        split: option.splits if_splits prod.splits dest!: record_failure_frame)
    then show ?thesis using CompleteErr assms(3) by auto
  next
    case (AddTask t)
    have "spacing_inv ch k sc c (add_task t s)"
      using inv ok assms(2) unfolding AddTask sched_step.simps
      by (elim spacing_frame) (auto simp: add_task_def hm_simps)
    then show ?thesis using AddTask assms(3) by auto
  next
    case (RemoveTask xid)
    have "spacing_inv ch k sc c (snd (remove_task xid s))"
      using inv ok unfolding RemoveTask sched_step.simps
      by (elim spacing_frame) (auto simp: remove_task_def hm_simps split: if_splits)
    then show ?thesis using RemoveTask assms(3) by auto
  next
    case (SetEnabled xid b)
    have "spacing_inv ch k sc c (snd (set_enabled xid b s))"
      using inv ok unfolding SetEnabled sched_step.simps
      by (elim spacing_frame) (auto simp: set_enabled_def Let_def hm_simps split: option.splits if_splits)
    then show ?thesis using SetEnabled assms(3) by auto
  next
    case (Flush n)
    have "spacing_inv ch k sc c (flush ops n s)"
      using inv ok unfolding Flush sched_step.simps by (elim spacing_frame) auto
    then show ?thesis using Flush assms(3) by auto
  qed
qed

lemma sched_run_Cons: "sched_run ch ops (ev # es) s = sched_run ch ops es (sched_step ch ops ev s)"
  by (simp add: sched_run_def)

lemma spacing_run:
  assumes "spacing_inv ch k sc c s" and "\<forall>ev \<in> set evs. \<not> adds_task k ev" and "clocked c evs"
  shows "spaced (redispatch_ok ch sc) (times_of k (dispatched (sched_run ch ops evs s)))"
  using assms
proof (induction evs arbitrary: s c)
  case Nil
  then show ?case by (simp add: sched_run_def spacing_inv_def)
next
  case (Cons ev evs)
  then have "\<not> adds_task k ev" by simp
  then obtain c' where "spacing_inv ch k sc c' (sched_step ch ops ev s)" and "clocked c' evs"
    using spacing_step [OF Cons.prems(1) _ Cons.prems(3)] by blast
  with Cons show ?case by (simp add: sched_run_Cons)
qed

subsection \<open>The persistent store\<close>

text \<open>What the code relies on of the task store: the laws of the key-value store, and a task
  survives encoding.\<close>

definition codec_laws :: "'j task_codec \<Rightarrow> bool" where
  "codec_laws cd \<longleftrightarrow> (\<forall>t. \<exists>j. to_value cd t = Inr j \<and> from_value cd j = Inr t)"

text \<open>Two tasks that agree but for the time of the last run.\<close>

definition same_task :: "task \<Rightarrow> task \<Rightarrow> bool" where
  "same_task t u \<longleftrightarrow> t\<lparr>last_run := None\<rparr> = u\<lparr>last_run := None\<rparr>"

lemma same_task_refl [simp]: "same_task t t"
  by (simp add: same_task_def)

lemma same_task_last_run [simp]: "same_task (t\<lparr>last_run := l\<rparr>) = same_task t"
  by (simp add: same_task_def fun_eq_iff)

lemma same_task_id: "same_task t u \<Longrightarrow> task_id u = task_id t"
  by (cases t; cases u) (simp add: same_task_def)

text \<open>The records of the store under the task prefix are the tasks in memory.\<close>

definition stored :: "'j task_codec \<Rightarrow> (string \<rightharpoonup> 'j) \<Rightarrow> string \<Rightarrow> task option" where
  "stored cd v xid = (case v (task_prefix @ xid) of None \<Rightarrow> None
     | Some j \<Rightarrow> (case from_value cd j of Inl e \<Rightarrow> None | Inr t \<Rightarrow> Some t))"

lemma stored_Some:
  "stored cd v xid = Some t \<longleftrightarrow> (\<exists>j. v (task_prefix @ xid) = Some j \<and> from_value cd j = Inr t)"
  by (simp add: stored_def split: option.split sum.split)

text \<open>The contents of the store once the pending writes are made in their order.\<close>

fun apply_write :: "string \<times> task option \<Rightarrow> (string \<Rightarrow> task option) \<Rightarrow> string \<Rightarrow> task option" where
  "apply_write (k, w) f = f(k := w)"

definition settled :: "'j task_codec \<Rightarrow> ('s \<Rightarrow> string \<rightharpoonup> 'j) \<Rightarrow> 's sched \<Rightarrow> string \<Rightarrow> task option" where
  "settled cd view s = (case store s of None \<Rightarrow> Map.empty
     | Some st \<Rightarrow> fold apply_write (pending s) (stored cd (view st)))"

definition agrees :: "'j task_codec \<Rightarrow> ('s \<Rightarrow> string \<rightharpoonup> 'j) \<Rightarrow> 's sched \<Rightarrow> bool" where
  "agrees cd view s \<longleftrightarrow> sched_ok s \<and> store s \<noteq> None
     \<and> (\<forall>(k, w) \<in> set (pending s). \<forall>t. w = Some t \<longrightarrow> task_id t = k)
     \<and> (\<forall>xid. rel_option same_task (hm_get (tasks s) xid) (settled cd view s xid))"

lemma agrees_write:
  assumes ag: "agrees cd view s" and ok: "sched_ok s'"
    and s': "store s' = store s" "pending s' = pending s @ [(k, w)]"
    and w: "\<And>t. w = Some t \<Longrightarrow> task_id t = k"
    and get: "\<And>x. hm_get (tasks s') x = (if x = k then w else hm_get (tasks s) x)"
  shows "agrees cd view s'"
proof -
  obtain st where st: "store s = Some st" using ag by (auto simp: agrees_def)
  then have "settled cd view s' = (settled cd view s)(k := w)"
    by (simp add: settled_def s')
  moreover have "rel_option same_task w w" by (cases w) simp_all
  ultimately show ?thesis using ag ok w by (auto simp: agrees_def s' get st)
qed

lemma agrees_same:
  assumes "agrees cd view s" and "store s' = store s" and "tasks s' = tasks s"
    and "pending s' = pending s" and "sched_ok s'"
  shows "agrees cd view s'"
proof -
  have "settled cd view s' = settled cd view s" by (simp add: settled_def assms(2,4) split: option.split)
  then show ?thesis using assms by (simp add: agrees_def)
qed

lemma write_stored:
  assumes db: "crdt_laws db view" and cd: "codec_laws cd"
    and w: "\<And>t. w = Some t \<Longrightarrow> task_id t = k"
  shows "stored cd (view (write_task (plures_task_store db cd) (k, w) st)) = (stored cd (view st))(k := w)"
proof (cases w)
  case None
  have "view (snd (crdt_delete db (task_prefix @ k) st)) = (view st)(task_prefix @ k := None)"
    using db by (simp add: crdt_laws_def)
  then show ?thesis
    by (auto simp: None plures_task_store_def plures_delete_def stored_def fun_eq_iff)
next
  case (Some t)
  obtain j where j: "to_value cd t = Inr j" "from_value cd j = Inr t"
    using cd by (auto simp: codec_laws_def)
  have "view (crdt_put db (task_prefix @ k) task_actor j st) = (view st)(task_prefix @ k \<mapsto> j)"
    using db by (simp add: crdt_laws_def)
  then show ?thesis using w [OF Some] j
    by (auto simp: Some plures_task_store_def plures_upsert_def Let_def stored_def fun_eq_iff)
qed

lemma agrees_flush:
  assumes ag: "agrees cd view s" and db: "crdt_laws db view" and cd: "codec_laws cd"
  shows "agrees cd view (flush (plures_task_store db cd) 0 s)"
proof (cases "pending s")
  case Nil
  then show ?thesis using ag by (simp add: flush_def)
next
  case (Cons kw ps)
  obtain k w where kw: "kw = (k, w)" by (cases kw)
  obtain st where st: "store s = Some st" using ag by (auto simp: agrees_def)
  have "settled cd view (flush (plures_task_store db cd) 0 s) = settled cd view s"
    using ag Cons kw st write_stored [OF db cd, of w k st]
    by (simp add: flush_def settled_def agrees_def)
  then show ?thesis using ag st Cons
    by (simp add: agrees_def sched_ok_def) (auto simp: flush_def)
qed

text \<open>The events of a history in which the writes reach the store in the order of the changes.\<close>

fun in_order :: "sched_event \<Rightarrow> bool" where
  "in_order (Flush n) = (n = 0)"
| "in_order _ = True"

lemma queue_write_pending [simp]:
  "store s \<noteq> None \<Longrightarrow> pending (queue_write xid w s) = pending s @ [(xid, w)]"
  by (simp add: queue_write_def)

lemma agrees_step:
  assumes ag: "agrees cd view s" and db: "crdt_laws db view" and cd: "codec_laws cd"
    and ord: "in_order ev"
  shows "agrees cd view (sched_step ch (plures_task_store db cd) ev s)"
proof -
  let ?s = "sched_step ch (plures_task_store db cd) ev s"
  have ok: "sched_ok ?s" using ag by (simp add: agrees_def sched_step_ok)
  have st: "store s \<noteq> None" using ag by (simp add: agrees_def)
  have key: "task_id t = k" if "hm_get (tasks s) k = Some t" for k t
    using ag that by (auto simp: agrees_def sched_ok_def dest: hm_all_get)
  show ?thesis
  proof (cases ev)
    case (Tick now)
    then show ?thesis using ag ok by (intro agrees_same [OF ag]) (auto simp: tick_def split: option.split)
  next
    case Dispatch
    then show ?thesis using ag ok
      by (intro agrees_same [OF ag]) (auto simp: dispatch_def split: option.split list.split)
  next
    case MarkRun
    show ?thesis
    proof (cases "marking s")
      case (Some k)
      then show ?thesis using ag ok MarkRun
        by (auto simp: mark_run_def agrees_def settled_def hm_simps option.rel_map)
    qed (use MarkRun ag in \<open>simp add: mark_run_def\<close>)
  next
    case (CompleteOk xid r now)
    show ?thesis
    proof (cases "xid \<in> set (running s) \<and> truncate_result r \<noteq> None \<and> hm_get (tasks s) xid \<noteq> None")
      case True
      then obtain t x where t: "hm_get (tasks s) xid = Some t" "truncate_result r = Some x" by auto
      show ?thesis using CompleteOk ok key [OF t(1)] t True st
        by (intro agrees_write [OF ag, where k = xid
            and w = "Some (record_success (t\<lparr>last_run := Some now, last_result := Some x\<rparr>))"])
          (auto simp: complete_ok_def Let_def hm_simps)
    next
      case False
      then show ?thesis using CompleteOk ok
        by (intro agrees_same [OF ag]) (auto simp: complete_ok_def Let_def split: option.split)
    qed
  next
    case (CompleteErr xid e now now2)
    show ?thesis
    proof (cases "xid \<in> set (running s) \<and> hm_get (tasks s) xid \<noteq> None")
      case True
      then obtain t where t: "hm_get (tasks s) xid = Some t" by auto
      obtain a t' where r: "record_failure (''ERROR: '' @ e) now2 (t\<lparr>last_run := Some now\<rparr>) = (a, t')"
        by fastforce
      then have "task_id t' = xid" using key [OF t] by (auto dest: record_failure_frame)
      then show ?thesis using CompleteErr ok t True r st
        by (intro agrees_write [OF ag, where k = xid and w = "Some t'"])
          (auto simp: complete_err_def Let_def hm_simps)
    next
      case False
      then show ?thesis using CompleteErr ok
        by (intro agrees_same [OF ag]) (auto simp: complete_err_def Let_def split: option.split)
    qed
  next
    case (AddTask t)
    then show ?thesis using ok st
      by (intro agrees_write [OF ag, where k = "task_id t" and w = "Some t"]) (auto simp: add_task_def hm_simps)
  next
    case (RemoveTask xid)
    then show ?thesis using ok st
      by (intro agrees_write [OF ag, where k = xid and w = None]) (auto simp: remove_task_def hm_simps)
  next
    case (SetEnabled xid b)
    show ?thesis
    proof (cases "hm_get (tasks s) xid")
      case (Some t)
      then show ?thesis using SetEnabled ok key [OF Some] st
        by (intro agrees_write [OF ag, where k = xid and w = "Some (t\<lparr>task_enabled := b\<rparr>)"])
          (auto simp: set_enabled_def Let_def hm_simps)
    qed (use SetEnabled ag in \<open>simp add: set_enabled_def\<close>)
  next
    case (Flush n)
    then show ?thesis using ord agrees_flush [OF ag db cd] by simp
  qed
qed

lemma agrees_run:
  assumes "agrees cd view s" and "crdt_laws db view" and "codec_laws cd" and "list_all in_order evs"
  shows "agrees cd view (sched_run ch (plures_task_store db cd) evs s)"
  using assms by (induction evs arbitrary: s) (auto simp: sched_run_def agrees_step)

lemma decode_tasks_set:
  "t \<in> set (decode_tasks cd rs) \<longleftrightarrow> (\<exists>k v. (k, v) \<in> set rs \<and> from_value cd v = Inr t)"
proof (induction rs)
  case (Cons r rs)
  obtain k v where r: "r = (k, v)" by (cases r)
  then show ?case using Cons.IH by (cases "from_value cd v") auto
qed simp

text \<open>Loading: the last record of a task wins.\<close>

lemma get_fold_insert:
  "hm_get (fold (\<lambda>t m. hm_insert (task_id t) t m) ts m) k =
     (case find (\<lambda>t. task_id t = k) (rev ts) of None \<Rightarrow> hm_get m k | Some t \<Rightarrow> Some t)"
  by (induction ts rule: rev_induct) (auto simp: hm_simps)

lemma find_unique:
  assumes "t \<in> set ts" and "P t" and uniq: "\<And>u. u \<in> set ts \<Longrightarrow> P u \<Longrightarrow> u = t"
  shows "find P ts = Some t"
proof (cases "find P ts")
  case None
  then show ?thesis using assms(1,2) by (simp add: find_None_iff)
next
  case (Some u)
  then have "u \<in> set ts" and "P u" by (auto simp: find_Some_iff)
  from uniq [OF this] Some show ?thesis by simp
qed

text \<open>Every record under the prefix holds a task whose identifier is the rest of the key.\<close>

definition keyed_records :: "'j task_codec \<Rightarrow> (string \<rightharpoonup> 'j) \<Rightarrow> bool" where
  "keyed_records cd v \<longleftrightarrow>
     (\<forall>xid j t. v (task_prefix @ xid) = Some j \<longrightarrow> from_value cd j = Inr t \<longrightarrow> task_id t = xid)"

lemma agrees_keyed:
  assumes ag: "agrees cd view s" and st: "store s = Some st" and "pending s = []"
  shows "keyed_records cd (view st)"
proof -
  have "task_id t = xid" if h: "stored cd (view st) xid = Some t" for xid t
  proof -
    have "rel_option same_task (hm_get (tasks s) xid) (Some t)"
      using ag st assms(3) h by (auto simp: agrees_def settled_def dest!: spec [of _ xid])
    then obtain u where "hm_get (tasks s) xid = Some u" "same_task u t"
      by (cases "hm_get (tasks s) xid") auto
    then show ?thesis using ag by (auto simp: agrees_def sched_ok_def dest!: hm_all_get same_task_id)
  qed
  then show ?thesis by (auto simp: keyed_records_def stored_Some)
qed

lemma load_stored:
  assumes db: "crdt_laws db view" and k: "keyed_records cd (view st)"
    and l: "load_persisted (plures_task_store db cd) (sched_new (Some st) ex al) = Inr (n, s)"
  shows "hm_get (tasks s) xid = stored cd (view st) xid"
proof -
  let ?ts = "decode_tasks cd (filter (\<lambda>(k, v). prefix task_prefix k) (crdt_list db st))"
  have mem: "t \<in> set ?ts \<longleftrightarrow> stored cd (view st) (task_id t) = Some t" for t
  proof -
    have "(r, v) \<in> set (crdt_list db st) \<longleftrightarrow> view st r = Some v" for r v
    proof -
      have "distinct (map fst (crdt_list db st))" and v: "map_of (crdt_list db st) = view st"
        using db by (simp_all add: crdt_laws_def)
      then show ?thesis using map_of_eq_Some_iff [of "crdt_list db st" r v] by simp
    qed
    then have "t \<in> set ?ts \<longleftrightarrow> (\<exists>x v. view st (task_prefix @ x) = Some v \<and> from_value cd v = Inr t)"
      by (auto simp: decode_tasks_set prefix_def)
    also have "\<dots> \<longleftrightarrow> stored cd (view st) (task_id t) = Some t"
      using k unfolding stored_Some keyed_records_def by blast
    finally show ?thesis .
  qed
  have s: "hm_get (tasks s) xid = (case find (\<lambda>t. task_id t = xid) (rev ?ts) of None \<Rightarrow> None | Some t \<Rightarrow> Some t)"
    using l by (auto simp: load_persisted_def sched_new_def plures_task_store_def plures_all_def
      get_fold_insert hm_simps split: option.split)
  show ?thesis
  proof (cases "stored cd (view st) xid")
    case None
    then have "find (\<lambda>t. task_id t = xid) (rev ?ts) = None"
      using mem by (auto simp: find_None_iff)
    with s None show ?thesis by simp
  next
    case (Some t)
    moreover from Some have "task_id t = xid"
      using k unfolding stored_Some keyed_records_def by blast
    ultimately have "find (\<lambda>t. task_id t = xid) (rev ?ts) = Some t"
      using mem by (intro find_unique) auto
    with s Some show ?thesis by simp
  qed
qed

lemma sched_new_ok: "sched_ok (sched_new st ex al)"
  by (simp add: sched_ok_def sched_new_def hm_simps)

lemma restart:
  assumes db: "crdt_laws db view" and cd: "codec_laws cd" and "view st0 = Map.empty"
    and "list_all in_order evs"
    and s: "s = sched_run ch (plures_task_store db cd) evs (sched_new (Some st0) ex al)"
    and p: "pending s = []"
  shows "\<exists>st n s'. store s = Some st
    \<and> load_persisted (plures_task_store db cd) (sched_new (Some st) ex al) = Inr (n, s')
    \<and> (\<forall>xid. rel_option same_task (get_task xid s) (get_task xid s'))"
proof -
  have "agrees cd view (sched_new (Some st0) ex al)"
    using assms(3) sched_new_ok
    by (simp add: agrees_def settled_def stored_def sched_new_def hm_simps)
  then have ag: "agrees cd view s" unfolding s using db cd assms(4) by (rule agrees_run)
  then obtain st where st: "store s = Some st"
    and sa: "\<And>xid. rel_option same_task (hm_get (tasks s) xid) (stored cd (view st) xid)"
    using p by (auto simp: agrees_def settled_def)
  obtain n s' where l: "load_persisted (plures_task_store db cd) (sched_new (Some st) ex al) = Inr (n, s')"
    by (auto simp: load_persisted_def sched_new_def plures_task_store_def plures_all_def)
  have "get_task xid s' = stored cd (view st) xid" for xid
    unfolding get_task_def using db agrees_keyed [OF ag st p] l by (rule load_stored)
  then show ?thesis using st l sa by (auto simp: get_task_def)
qed

subsection \<open>A loop that has died\<close>

definition dead :: "'s sched \<Rightarrow> bool" where
  "dead s \<longleftrightarrow> \<not> alive s \<and> due_queue s = [] \<and> dispatched s = []"

lemma dead_step: "dead s \<Longrightarrow> dead (sched_step ch ops ev s)"
  by (cases ev) (auto simp: dead_def tick_def dispatch_def mark_run_def complete_ok_def complete_err_def
    add_task_def remove_task_def set_enabled_def Let_def split: option.split prod.split)

lemma dead_run: "dead s \<Longrightarrow> dead (sched_run ch ops evs s)"
  by (induction evs arbitrary: s) (simp_all add: sched_run_def dead_step)

section \<open>Properties\<close>

text \<open>C1: The executions of a task are spaced.  For a task added once, whatever other calls,
  completions and failures interleave with the loop while the clock does not go back: a task that
  runs once is dispatched at most once, two dispatches of a cron task are at least a minute apart
  and two dispatches of an interval task at least the interval, even when an execution never
  returns.\<close>

theorem dispatch_spacing:
  assumes "\<forall>ev \<in> set evs. \<not> adds_task (task_id t) ev" and "clocked 0 evs"
  shows "spaced (redispatch_ok ch (task_schedule t))
    (times_of (task_id t) (dispatched (sched_run ch ops (AddTask t # evs) (sched_new st ex al))))"
proof -
  let ?s = "sched_step ch ops (AddTask t) (sched_new st ex al)"
  have "sched_ok ?s" by (rule sched_step_ok) (rule sched_new_ok)
  then have "spacing_inv ch (task_id t) (task_schedule t) 0 ?s"
    by (simp add: spacing_inv_def add_task_def sched_new_def times_of_def hm_simps)
  from spacing_run [OF this assms] show ?thesis by (simp add: sched_run_Cons)
qed

definition memory_store :: "(task list) task_store" where
  "memory_store = \<lparr>ts_upsert = (\<lambda>t s. (None, t # s)), ts_delete = (\<lambda>k s. (None, s)), ts_all = Inr\<rparr>"

theorem dispatch_spacing_witness:
  "spaced (redispatch_ok example_chrono (Interval 5)) (times_of ''a'' (dispatched
     (sched_run example_chrono memory_store
       (AddTask (default_task\<lparr>task_id := ''a'', task_schedule := Interval 5, task_enabled := True\<rparr>)
        # [Tick 1, Dispatch, MarkRun, Tick 2, CompleteErr ''a'' ''e'' 3 3, Tick (6 * nanos_per_sec), Dispatch])
       (sched_new None True True))))"
  using dispatch_spacing [of "[Tick 1, Dispatch, MarkRun, Tick 2, CompleteErr ''a'' ''e'' 3 3,
        Tick (6 * nanos_per_sec), Dispatch]"
      "default_task\<lparr>task_id := ''a'', task_schedule := Interval 5, task_enabled := True\<rparr>"
      example_chrono memory_store None True True]
  by (simp add: nanos_per_sec_def)

text \<open>C4: A restart loses no task: after any history of a scheduler that started on an empty store,
  whose writes reached the store in the order of the changes and are all made, a fresh scheduler that
  loads the store has the same tasks, enabled flags, results, failure counters and alert times
  included, up to the time of the last run, which the loop does not persist when it dispatches.\<close>

theorem restart_keeps_tasks:
  assumes "crdt_laws db view" and "codec_laws cd" and "view st0 = Map.empty"
    and "list_all in_order evs"
    and "s = sched_run ch (plures_task_store db cd) evs (sched_new (Some st0) ex al)"
    and "pending s = []"
  shows "\<exists>st n s'. store s = Some st
    \<and> load_persisted (plures_task_store db cd) (sched_new (Some st) ex al) = Inr (n, s')
    \<and> (\<forall>xid. rel_option same_task (get_task xid s) (get_task xid s'))"
  using assms by (rule restart)

definition id_codec :: "task task_codec" where
  "id_codec = \<lparr>to_value = Inr, from_value = Inr\<rparr>"

lemmas sched_eval =
  sched_run_def add_task_def sched_new_def tick_def dispatch_def mark_run_def set_enabled_def flush_def
  complete_ok_def truncate_result_def record_success_def queue_write_def get_task_def load_persisted_def
  hm_insert_def hm_modify_def hm_values_def hm_get_def is_due_def default_task_def default_schedule_def
  example_chrono_def plures_task_store_def plures_upsert_def plures_delete_def plures_all_def
  alist_crdt_def id_codec_def task_prefix_def Let_def

theorem restart_keeps_tasks_witness:
  "let s = sched_run example_chrono (plures_task_store alist_crdt id_codec)
        [AddTask (default_task\<lparr>task_id := ''a''\<rparr>), SetEnabled ''a'' True, Flush 0, Tick 1, Dispatch,
         Flush 0, MarkRun]
        (sched_new (Some []) True True) in
   \<exists>st n s'. store s = Some st
    \<and> load_persisted (plures_task_store alist_crdt id_codec) (sched_new (Some st) True True) = Inr (n, s')
    \<and> (\<forall>xid. rel_option same_task (get_task xid s) (get_task xid s'))"
  unfolding Let_def
  by (rule restart_keeps_tasks [OF alist_crdt_laws, where ?st0.0 = "[]" and evs = "[AddTask
        (default_task\<lparr>task_id := ''a''\<rparr>), SetEnabled ''a'' True, Flush 0, Tick 1, Dispatch, Flush 0, MarkRun]"
        and ch = example_chrono])
    (simp_all add: codec_laws_def id_codec_def, simp add: sched_eval)

definition overtaking :: "sched_event list" where
  "overtaking = [AddTask (default_task\<lparr>task_id := ''a'', task_enabled := True\<rparr>), Flush 0, Tick 1,
     Dispatch, MarkRun, CompleteOk ''a'' ''done'' 2, SetEnabled ''a'' False, Flush 1, Flush 0]"

text \<open>Writes that overtake each other undo a call.  The store is written after the lock is
  released, so a completion that copied the task before \<open>set_enabled(false)\<close> may write after it: the
  call has returned true and every write is made, the task is disabled in memory, and after a restart
  it is enabled again.\<close>

theorem disable_lost_on_restart:
  "let ops = plures_task_store alist_crdt id_codec;
       s = sched_run example_chrono ops overtaking (sched_new (Some []) True True);
       loaded = load_persisted ops (sched_new (store s) True True) in
     pending s = [] \<and> map_option task_enabled (get_task ''a'' s) = Some False
     \<and> (case loaded of Inl e \<Rightarrow> False
        | Inr (n, s') \<Rightarrow> map_option task_enabled (get_task ''a'' s') = Some True)"
  by (simp add: sched_eval overtaking_def)

text \<open>One accepted command stops the scheduler for good.  \<open>/cron add "every <n>s" \<dots>\<close> is accepted
  for every \<open>n\<close> of 64 bits, but above the range of a time delta the first tick panics in the loop:
  from then on no task is ever dispatched, whatever is added, removed or disabled.\<close>

theorem oversized_interval_stops_loop:
  assumes "\<And>n. (2 ^ 63 - 1) div 1000 < n \<Longrightarrow> td_seconds ch n = None"
    and "(2 ^ 63 - 1) div 1000 < n" and "n < 2 ^ 63" and "cmd_ok cmd"
  shows "\<exists>t. parse_cron_add uuid (cron_add_line (''every '' @ show_nat n @ [CHR ''s'']) cmd) = Inr t
    \<and> (let s = sched_run ch ops (AddTask t # Tick now # evs) (sched_new st ex al) in
       \<not> alive s \<and> dispatched s = [])"
proof -
  let ?t = "new_task uuid (Interval (of_nat n)) cmd"
  have p: "parse_cron_add uuid (cron_add_line (''every '' @ show_nat n @ [CHR ''s'']) cmd) = Inr ?t"
    using assms(2-4) by (subst parse_cron_add_every) simp_all
  have "sint (of_nat n :: 64 word) = int n"
    using assms(3) by (simp add: signed_of_nat signed_take_bit_int_eq_self)
  then have "is_due ch ?t now = None"
    using assms(1) [of "int n"] assms(2) by (simp add: is_due_panic new_task_def)
  then have "dead (sched_run ch ops [AddTask ?t, Tick now] (sched_new st ex al))"
    by (simp add: sched_run_def add_task_def sched_new_def tick_def dead_def hm_values_def
      hm_insert_def new_task_def queue_write_def)
  from dead_run [OF this, of ch ops evs] show ?thesis
    using p by (simp add: sched_run_def dead_def)
qed

theorem oversized_interval_stops_loop_witness:
  "\<exists>t. parse_cron_add ''x'' (cron_add_line (''every '' @ show_nat 9223372036854775807 @ [CHR ''s'']) ''ls'') = Inr t
    \<and> (let s = sched_run example_chrono memory_store
          (AddTask t # Tick 0 # [RemoveTask ''cron.x'', AddTask (default_task\<lparr>task_enabled := True\<rparr>), Tick 60, Dispatch])
          (sched_new None True True) in
       \<not> alive s \<and> dispatched s = [])"
  by (rule oversized_interval_stops_loop)
    (simp_all add: example_chrono_def cmd_ok_def trim_graph is_graph_def)

text \<open>What the completion of a running execution records.  A result of at most 500 bytes, or one
  whose byte 500 starts a character, resets the failure counter and is stored, cut to 500 bytes and an
  ellipsis; a longer result with a character across byte 500 panics in the spawned task and nothing of
  the execution is recorded.\<close>

theorem completion_recorded:
  assumes "xid \<in> set (running s)" and "get_task xid s = Some t" and "sched_ok s"
  shows "get_task xid (complete_ok xid r now s) =
    (if length r \<le> 500 then
       Some (t\<lparr>last_run := Some now, last_result := Some r, consecutive_failures := 0\<rparr>)
     else if \<not> is_utf8_cont (r ! 500) then
       Some (t\<lparr>last_run := Some now, last_result := Some (take 500 r @ ''...''), consecutive_failures := 0\<rparr>)
     else Some t)"
  using assms
  by (auto simp: complete_ok_def get_task_def Let_def truncate_result_def slice_to_def is_char_boundary_def
    hm_simps record_success_def)

theorem completion_recorded_witness:
  "get_task ''a'' (complete_ok ''a'' (replicate 500 CHR ''x'' @ ''yz'') 9
     (sched_run example_chrono memory_store
       [AddTask (default_task\<lparr>task_id := ''a'', task_enabled := True\<rparr>), Tick 1, Dispatch] (sched_new None True True)))
   = Some (default_task\<lparr>task_id := ''a'', task_enabled := True, last_run := Some 9,
       last_result := Some (replicate 500 CHR ''x'' @ ''...'')\<rparr>)"
proof -
  let ?s = "sched_run example_chrono memory_store
       [AddTask (default_task\<lparr>task_id := ''a'', task_enabled := True\<rparr>), Tick 1, Dispatch] (sched_new None True True)"
  have "''a'' \<in> set (running ?s)" and "get_task ''a'' ?s = Some (default_task\<lparr>task_id := ''a'', task_enabled := True\<rparr>)"
    and "sched_ok ?s"
    by (simp_all add: sched_run_def sched_ok_def add_task_def sched_new_def tick_def dispatch_def get_task_def
      hm_insert_def hm_values_def hm_get_def hm_ok_def hm_all_def is_due_def default_task_def
      default_schedule_def example_chrono_def queue_write_def)
  from completion_recorded [OF this, of "replicate 500 CHR ''x'' @ ''yz''" 9]
  show ?thesis by (simp add: is_utf8_cont_def nth_append default_task_def)
qed

end
