(* ===== verification/Sync.thy ===== *)
theory Sync
  imports Prelude "HOL-Library.Option_ord"
begin

text \<open>
  Device synchronisation (\<open>crates/sync/src\<close>): the merge strategies (\<open>conflict.rs\<close>), the
  offline queue (\<open>queue.rs\<close>), topic subscriptions (\<open>topic.rs\<close>), the pairing flow
  (\<open>pairing.rs\<close>), the device registry (\<open>peer.rs\<close>) and the engine that combines them
  (\<open>engine.rs\<close>, \<open>lib.rs\<close>).  Fresh UUIDs and readings of the clock are arguments; counters are
  words that wrap as in a release build.
\<close>

section \<open>Topics and errors\<close>

datatype sync_topic = MemoryEntries | Procedures | AgentConfig | ConversationHistory

fun as_key :: "sync_topic \<Rightarrow> string" where
  "as_key MemoryEntries = ''pares-agens/memory-entries/v1''"
| "as_key Procedures = ''pares-agens/procedures/v1''"
| "as_key AgentConfig = ''pares-agens/agent-config/v1''"
| "as_key ConversationHistory = ''pares-agens/conversation-history/v1''"

definition all_topics :: "sync_topic list" where
  "all_topics = [MemoryEntries, Procedures, AgentConfig, ConversationHistory]"

datatype sync_error =
    UnknownDevice string
  | InvalidPairingMaterial string
  | PairingSessionNotFound string
  | TopicNotSubscribed string
  | ConflictFailed string
  | SyncJson string

section \<open>Merge strategies\<close>

definition timestamp_str :: "json \<Rightarrow> string option" where
  "timestamp_str v = Option.bind (json_get ''updated_at'' v) json_as_str"

definition crdt_merge :: "json \<Rightarrow> json \<Rightarrow> sync_error + json" where
  "crdt_merge local remote =
     (case (timestamp_str local, timestamp_str remote) of
        (Some l, Some r) \<Rightarrow> if r < l then Inr local else Inr remote
      | (None, Some r) \<Rightarrow> Inr remote
      | (Some l, None) \<Rightarrow> Inr local
      | (None, None) \<Rightarrow> Inr remote)"

definition lww_merge :: "json \<Rightarrow> json \<Rightarrow> sync_error + json" where
  "lww_merge local remote = Inr remote"

text \<open>A strategy is its name and its merge.\<close>

record strategy =
  strategy_name :: string
  strategy_merge :: "json \<Rightarrow> json \<Rightarrow> sync_error + json"

definition CrdtMerge :: strategy where
  "CrdtMerge = \<lparr>strategy_name = ''crdt-last-write-wins'', strategy_merge = crdt_merge\<rparr>"

definition LastWriteWins :: strategy where
  "LastWriteWins = \<lparr>strategy_name = ''last-write-wins-remote'', strategy_merge = lww_merge\<rparr>"

definition resolve :: "strategy \<Rightarrow> json \<Rightarrow> json \<Rightarrow> sync_error + json" where
  "resolve s local remote = strategy_merge s local remote"

section \<open>The offline queue\<close>

record change_event =
  ce_id :: string
  ce_topic :: sync_topic
  ce_payload :: json
  ce_created_at :: time
  ce_attempts :: "32 word"

definition change_event_new :: "string \<Rightarrow> time \<Rightarrow> sync_topic \<Rightarrow> json \<Rightarrow> change_event" where
  "change_event_new uuid now topic payload =
     \<lparr>ce_id = uuid, ce_topic = topic, ce_payload = payload, ce_created_at = now, ce_attempts = 0\<rparr>"

definition record_attempt :: "change_event \<Rightarrow> change_event" where
  "record_attempt e = e\<lparr>ce_attempts := ce_attempts e + 1\<rparr>"

type_synonym offline_queue = "change_event list"

definition queue_push :: "change_event \<Rightarrow> offline_queue \<Rightarrow> offline_queue" where
  "queue_push e q = q @ [e]"

definition queue_enqueue ::
    "string \<Rightarrow> time \<Rightarrow> sync_topic \<Rightarrow> json \<Rightarrow> offline_queue \<Rightarrow> change_event \<times> offline_queue" where
  "queue_enqueue uuid now topic payload q =
     (let event = change_event_new uuid now topic payload; q = queue_push event q in (last q, q))"

definition queue_drain :: "offline_queue \<Rightarrow> change_event list \<times> offline_queue" where
  "queue_drain q = (q, [])"

text \<open>The loop of \<open>drain_topic\<close> with its two accumulators.\<close>

fun drain_loop ::
    "sync_topic \<Rightarrow> change_event list \<Rightarrow> change_event list \<Rightarrow> change_event list
      \<Rightarrow> change_event list \<times> change_event list" where
  "drain_loop topic drained remaining [] = (drained, remaining)"
| "drain_loop topic drained remaining (e # es) =
     (if ce_topic e = topic then drain_loop topic (drained @ [e]) remaining es
      else drain_loop topic drained (remaining @ [e]) es)"

definition queue_drain_topic :: "sync_topic \<Rightarrow> offline_queue \<Rightarrow> change_event list \<times> offline_queue" where
  "queue_drain_topic topic q = drain_loop topic [] [] q"

definition queue_peek :: "offline_queue \<Rightarrow> change_event option" where
  "queue_peek q = (case q of [] \<Rightarrow> None | e # es \<Rightarrow> Some e)"

definition queue_clear :: "offline_queue \<Rightarrow> offline_queue" where
  "queue_clear q = []"

definition count_for_topic :: "sync_topic \<Rightarrow> offline_queue \<Rightarrow> nat" where
  "count_for_topic topic q = length (filter (\<lambda>e. ce_topic e = topic) q)"

section \<open>Topic subscriptions\<close>

record subscription =
  sub_topic :: sync_topic
  sub_joined_at :: time
  sub_peer_count :: nat
  sub_active :: bool

definition subscription_new :: "time \<Rightarrow> sync_topic \<Rightarrow> subscription" where
  "subscription_new now topic =
     \<lparr>sub_topic = topic, sub_joined_at = now, sub_peer_count = 0, sub_active = True\<rparr>"

definition leave :: "subscription \<Rightarrow> subscription" where
  "leave s = s\<lparr>sub_active := False, sub_peer_count := 0\<rparr>"

type_synonym topic_manager = "(sync_topic, subscription) hmap"

definition topic_subscribe :: "time \<Rightarrow> sync_topic \<Rightarrow> topic_manager \<Rightarrow> topic_manager" where
  "topic_subscribe now topic m =
     (case hm_get m topic of
        Some sub \<Rightarrow>
          if \<not> sub_active sub then
            hm_modify topic (\<lambda>s. s\<lparr>sub_active := True, sub_peer_count := 0, sub_joined_at := now\<rparr>) m
          else m
      | None \<Rightarrow> hm_insert topic (subscription_new now topic) m)"

definition topic_unsubscribe :: "sync_topic \<Rightarrow> topic_manager \<Rightarrow> bool \<times> topic_manager" where
  "topic_unsubscribe topic m =
     (case hm_get m topic of
        Some sub \<Rightarrow> (True, hm_modify topic leave m)
      | None \<Rightarrow> (False, m))"

definition topic_get :: "sync_topic \<Rightarrow> topic_manager \<Rightarrow> sync_error + subscription" where
  "topic_get topic m =
     (case hm_get m topic of
        Some sub \<Rightarrow> if sub_active sub then Inr sub else Inl (TopicNotSubscribed (as_key topic))
      | None \<Rightarrow> Inl (TopicNotSubscribed (as_key topic)))"

definition is_subscribed :: "sync_topic \<Rightarrow> topic_manager \<Rightarrow> bool" where
  "is_subscribed topic m = (case hm_get m topic of Some s \<Rightarrow> sub_active s | None \<Rightarrow> False)"

definition active_subscriptions :: "topic_manager \<Rightarrow> subscription list" where
  "active_subscriptions m = filter sub_active (hm_values m)"

definition active_count :: "topic_manager \<Rightarrow> nat" where
  "active_count m = length (active_subscriptions m)"

definition set_peer_count :: "sync_topic \<Rightarrow> nat \<Rightarrow> topic_manager \<Rightarrow> sync_error + topic_manager" where
  "set_peer_count topic n m =
     (case hm_get m topic of
        Some sub \<Rightarrow>
          if sub_active sub then Inr (hm_modify topic (\<lambda>s. s\<lparr>sub_peer_count := n\<rparr>) m)
          else Inl (TopicNotSubscribed (as_key topic))
      | None \<Rightarrow> Inl (TopicNotSubscribed (as_key topic)))"

section \<open>Pairing\<close>

text \<open>A sync key is the string it wraps; \<open>generate\<close> joins the simple texts of two UUIDs.\<close>

type_synonym sync_key = string

definition generate_key :: "string \<Rightarrow> string \<Rightarrow> sync_key" where
  "generate_key a b = a @ b"

definition from_hex :: "string \<Rightarrow> sync_error + sync_key" where
  "from_hex hex =
     (if length hex \<noteq> 64 then
        Inl (InvalidPairingMaterial (''sync key must be exactly 64 hex characters, got ''
          @ show_nat (length hex) @ '' chars''))
      else if \<not> list_all is_ascii_hexdigit hex then
        Inl (InvalidPairingMaterial
          ''sync key must contain only hexadecimal characters [0-9a-fA-F]'')
      else Inr (map ascii_lower hex))"

definition to_pairing_code :: "sync_key \<Rightarrow> string option" where
  "to_pairing_code key = map_option (map ascii_upper) (slice_to key 6)"

definition debug_key :: "sync_key \<Rightarrow> string option" where
  "debug_key key = map_option (\<lambda>p. ''SyncKey('' @ p @ ''...)'') (slice_to key 8)"

datatype approval_state = Pending | Approved | Rejected

fun debug_approval :: "approval_state \<Rightarrow> string" where
  "debug_approval Pending = ''Pending''"
| "debug_approval Approved = ''Approved''"
| "debug_approval Rejected = ''Rejected''"

record pairing_session =
  ps_id :: string
  ps_sync_key :: sync_key
  ps_pairing_code :: string
  ps_initiator_name :: string
  ps_state :: approval_state
  ps_created_at :: time
  ps_resolved_at :: "time option"

text \<open>The two constructors; \<open>None\<close> is a panic of the slice in \<open>to_pairing_code\<close>.\<close>

definition session_new ::
    "string \<Rightarrow> string \<Rightarrow> string \<Rightarrow> time \<Rightarrow> string \<Rightarrow> (sync_error + pairing_session) option" where
  "session_new uuid_a uuid_b uuid now initiator_name =
     (if trim initiator_name = [] then
        Some (Inl (InvalidPairingMaterial ''initiator name must not be empty''))
      else
        let key = generate_key uuid_a uuid_b in
        (case to_pairing_code key of
           None \<Rightarrow> None
         | Some code \<Rightarrow> Some (Inr \<lparr>ps_id = uuid, ps_sync_key = key, ps_pairing_code = code,
             ps_initiator_name = initiator_name, ps_state = Pending, ps_created_at = now,
             ps_resolved_at = None\<rparr>)))"

definition session_from_key ::
    "string \<Rightarrow> time \<Rightarrow> string \<Rightarrow> string \<Rightarrow> (sync_error + pairing_session) option" where
  "session_from_key uuid now hex_key initiator_name =
     (if trim initiator_name = [] then
        Some (Inl (InvalidPairingMaterial ''initiator name must not be empty''))
      else
        (case from_hex hex_key of
           Inl e \<Rightarrow> Some (Inl e)
         | Inr key \<Rightarrow>
             (case to_pairing_code key of
                None \<Rightarrow> None
              | Some code \<Rightarrow> Some (Inr \<lparr>ps_id = uuid, ps_sync_key = key, ps_pairing_code = code,
                  ps_initiator_name = initiator_name, ps_state = Pending, ps_created_at = now,
                  ps_resolved_at = None\<rparr>))))"

definition approve :: "time \<Rightarrow> pairing_session \<Rightarrow> sync_error + pairing_session" where
  "approve now s =
     (if ps_state s \<noteq> Pending then
        Inl (InvalidPairingMaterial (''session '' @ ps_id s @ '' is not pending (state: ''
          @ debug_approval (ps_state s) @ '')''))
      else Inr (s\<lparr>ps_state := Approved, ps_resolved_at := Some now\<rparr>))"

definition reject :: "time \<Rightarrow> pairing_session \<Rightarrow> sync_error + pairing_session" where
  "reject now s =
     (if ps_state s \<noteq> Pending then
        Inl (InvalidPairingMaterial (''session '' @ ps_id s @ '' is not pending (state: ''
          @ debug_approval (ps_state s) @ '')''))
      else Inr (s\<lparr>ps_state := Rejected, ps_resolved_at := Some now\<rparr>))"

definition is_approved :: "pairing_session \<Rightarrow> bool" where
  "is_approved s \<longleftrightarrow> ps_state s = Approved"

section \<open>Devices\<close>

datatype device_status = Active | Disconnected | Syncing

record topic_sync_state =
  tss_topic :: sync_topic
  tss_last_seq :: "64 word option"
  tss_pending :: "64 word"
  tss_last_synced_at :: "time option"

definition topic_sync_state_new :: "sync_topic \<Rightarrow> topic_sync_state" where
  "topic_sync_state_new topic =
     \<lparr>tss_topic = topic, tss_last_seq = None, tss_pending = 0, tss_last_synced_at = None\<rparr>"

definition mark_synced :: "time \<Rightarrow> 64 word \<Rightarrow> topic_sync_state \<Rightarrow> topic_sync_state" where
  "mark_synced now seq t = t\<lparr>tss_last_seq := Some seq, tss_pending := 0, tss_last_synced_at := Some now\<rparr>"

definition increment_pending :: "topic_sync_state \<Rightarrow> topic_sync_state" where
  "increment_pending t = t\<lparr>tss_pending := tss_pending t + 1\<rparr>"

record device =
  dev_id :: string
  dev_name :: string
  dev_status :: device_status
  dev_paired_at :: time
  dev_last_seen_at :: "time option"
  dev_topic_states :: "(string, topic_sync_state) hmap"

definition device_new :: "string \<Rightarrow> time \<Rightarrow> string \<Rightarrow> sync_error + device" where
  "device_new uuid now name =
     (if trim name = [] then Inl (InvalidPairingMaterial ''device name must not be empty'')
      else Inr \<lparr>dev_id = uuid, dev_name = name, dev_status = Disconnected, dev_paired_at = now,
                dev_last_seen_at = None, dev_topic_states = []\<rparr>)"

definition set_status :: "time \<Rightarrow> device_status \<Rightarrow> device \<Rightarrow> device" where
  "set_status now status d =
     (let d = (if status = Active \<or> status = Syncing then d\<lparr>dev_last_seen_at := Some now\<rparr> else d) in
      d\<lparr>dev_status := status\<rparr>)"

text \<open>A change through the reference that \<open>topic_state_mut\<close> returns.\<close>

definition topic_state_mut ::
    "sync_topic \<Rightarrow> (topic_sync_state \<Rightarrow> topic_sync_state) \<Rightarrow> device \<Rightarrow> device" where
  "topic_state_mut topic f d =
     (let key = as_key topic;
          st = (case hm_get (dev_topic_states d) key of
                  Some t \<Rightarrow> t | None \<Rightarrow> topic_sync_state_new topic) in
      d\<lparr>dev_topic_states := hm_insert key (f st) (dev_topic_states d)\<rparr>)"

definition topic_state :: "sync_topic \<Rightarrow> device \<Rightarrow> topic_sync_state option" where
  "topic_state topic d = hm_get (dev_topic_states d) (as_key topic)"

type_synonym device_registry = "(string, device) hmap"

definition registry_register :: "device \<Rightarrow> device_registry \<Rightarrow> string \<times> device_registry" where
  "registry_register d m = (dev_id d, hm_insert (dev_id d) d m)"

definition registry_get :: "string \<Rightarrow> device_registry \<Rightarrow> sync_error + device" where
  "registry_get xid m = (case hm_get m xid of None \<Rightarrow> Inl (UnknownDevice xid) | Some d \<Rightarrow> Inr d)"

definition registry_update ::
    "string \<Rightarrow> (device \<Rightarrow> device) \<Rightarrow> device_registry \<Rightarrow> sync_error + device_registry" where
  "registry_update xid f m =
     (case hm_get m xid of None \<Rightarrow> Inl (UnknownDevice xid) | Some d \<Rightarrow> Inr (hm_modify xid f m))"

definition registry_remove :: "string \<Rightarrow> device_registry \<Rightarrow> bool \<times> device_registry" where
  "registry_remove xid m = (hm_contains m xid, hm_remove xid m)"

section \<open>The engine\<close>

record sync_engine =
  eng_device_name :: string
  eng_topics :: topic_manager
  eng_devices :: device_registry
  eng_queue :: offline_queue
  eng_conflict :: strategy

definition engine_new :: "string \<Rightarrow> sync_engine" where
  "engine_new name = \<lparr>eng_device_name = name, eng_topics = [], eng_devices = [], eng_queue = [],
     eng_conflict = CrdtMerge\<rparr>"

definition subscribe_topic :: "time \<Rightarrow> sync_topic \<Rightarrow> sync_engine \<Rightarrow> bool \<times> sync_engine" where
  "subscribe_topic now topic e =
     (\<not> is_subscribed topic (eng_topics e), e\<lparr>eng_topics := topic_subscribe now topic (eng_topics e)\<rparr>)"

definition unsubscribe_topic :: "sync_topic \<Rightarrow> sync_engine \<Rightarrow> bool \<times> sync_engine" where
  "unsubscribe_topic topic e =
     (case topic_unsubscribe topic (eng_topics e) of (b, m) \<Rightarrow> (b, e\<lparr>eng_topics := m\<rparr>))"

definition set_topic_peer_count :: "sync_topic \<Rightarrow> nat \<Rightarrow> sync_engine \<Rightarrow> sync_error + sync_engine" where
  "set_topic_peer_count topic n e =
     (case set_peer_count topic n (eng_topics e) of
        Inl err \<Rightarrow> Inl err | Inr m \<Rightarrow> Inr (e\<lparr>eng_topics := m\<rparr>))"

definition enqueue_change :: "string \<Rightarrow> time \<Rightarrow> sync_topic \<Rightarrow> json \<Rightarrow> sync_engine \<Rightarrow> sync_engine" where
  "enqueue_change uuid now topic payload e =
     e\<lparr>eng_queue := snd (queue_enqueue uuid now topic payload (eng_queue e))\<rparr>"

definition drain_queue :: "sync_engine \<Rightarrow> change_event list \<times> sync_engine" where
  "drain_queue e = (case queue_drain (eng_queue e) of (ds, q) \<Rightarrow> (ds, e\<lparr>eng_queue := q\<rparr>))"

definition drain_queue_for_topic :: "sync_topic \<Rightarrow> sync_engine \<Rightarrow> change_event list \<times> sync_engine" where
  "drain_queue_for_topic topic e =
     (case queue_drain_topic topic (eng_queue e) of (ds, q) \<Rightarrow> (ds, e\<lparr>eng_queue := q\<rparr>))"

definition register_device ::
    "string \<Rightarrow> time \<Rightarrow> string \<Rightarrow> sync_engine \<Rightarrow> sync_error + (string \<times> sync_engine)" where
  "register_device uuid now name e =
     (case device_new uuid now name of
        Inl err \<Rightarrow> Inl err
      | Inr d \<Rightarrow> (case registry_register d (eng_devices e) of
          (xid, m) \<Rightarrow> Inr (xid, e\<lparr>eng_devices := m\<rparr>)))"

definition set_device_status ::
    "time \<Rightarrow> string \<Rightarrow> device_status \<Rightarrow> sync_engine \<Rightarrow> sync_error + sync_engine" where
  "set_device_status now xid status e =
     (case registry_update xid (set_status now status) (eng_devices e) of
        Inl err \<Rightarrow> Inl err | Inr m \<Rightarrow> Inr (e\<lparr>eng_devices := m\<rparr>))"

definition remove_device :: "string \<Rightarrow> sync_engine \<Rightarrow> bool \<times> sync_engine" where
  "remove_device xid e =
     (case registry_remove xid (eng_devices e) of (b, m) \<Rightarrow> (b, e\<lparr>eng_devices := m\<rparr>))"

definition list_devices :: "sync_engine \<Rightarrow> device list" where
  "list_devices e = hm_values (eng_devices e)"

definition begin_pairing ::
    "string \<Rightarrow> string \<Rightarrow> string \<Rightarrow> time \<Rightarrow> sync_engine \<Rightarrow> (sync_error + pairing_session) option" where
  "begin_pairing uuid_a uuid_b uuid now e = session_new uuid_a uuid_b uuid now (eng_device_name e)"

definition apply_remote_change :: "sync_topic \<Rightarrow> json \<Rightarrow> json \<Rightarrow> sync_engine \<Rightarrow> sync_error + json" where
  "apply_remote_change topic local remote e =
     (if \<not> is_subscribed topic (eng_topics e) then Inl (TopicNotSubscribed (as_key topic))
      else resolve (eng_conflict e) local remote)"

section \<open>Merging by the larger stamp\<close>

text \<open>
  The contract of a last-write-wins merge: the left value survives only with a strictly larger
  stamp, where a missing stamp is below every other.
\<close>

locale lww =
  fixes merge :: "'v \<Rightarrow> 'v \<Rightarrow> 'v" and stamp :: "'v \<Rightarrow> ('k :: linorder) option"
  assumes merge_stamp: "merge a b = (if stamp b < stamp a then a else b)"
begin

lemma merge_in: "merge a b \<in> {a, b}"
  by (simp add: merge_stamp)

lemma stamp_merge: "stamp (merge a b) = max (stamp a) (stamp b)"
  by (auto simp: merge_stamp max_def)

lemma merge_idem: "merge a a = a"
  by (simp add: merge_stamp)

lemma tie_right: "stamp a = stamp b \<Longrightarrow> merge a b = b"
  by (simp add: merge_stamp)

lemma foldl_in: "foldl merge a bs \<in> set (a # bs)"
proof (induction bs arbitrary: a)
  case (Cons b bs)
  then show ?case using merge_in [of a b] by fastforce
qed simp

lemma foldl_stamp: "x \<in> set (a # bs) \<Longrightarrow> stamp x \<le> stamp (foldl merge a bs)"
proof (induction bs arbitrary: a x)
  case (Cons b bs)
  have "stamp (merge a b) \<le> stamp (foldl merge (merge a b) bs)" using Cons.IH by simp
  then have "stamp a \<le> stamp (foldl merge (merge a b) bs)" "stamp b \<le> stamp (foldl merge (merge a b) bs)"
    by (simp_all add: stamp_merge)
  then show ?case using Cons by auto
qed simp

lemma foldl_converges:
  assumes "inj_on stamp (set (a # as))" and "set (b # bs) = set (a # as)"
  shows "foldl merge a as = foldl merge b bs"
proof -
  have in_b: "foldl merge a as \<in> set (b # bs)" unfolding assms(2) by (rule foldl_in)
  have in_a: "foldl merge b bs \<in> set (a # as)" using foldl_in [of b bs] unfolding assms(2) .
  have "stamp (foldl merge a as) = stamp (foldl merge b bs)"
    using foldl_stamp [OF in_a] foldl_stamp [OF in_b] by (rule antisym [rotated])
  from inj_onD [OF assms(1) this foldl_in in_a] show ?thesis .
qed

end

definition merged :: "(json \<Rightarrow> json \<Rightarrow> sync_error + json) \<Rightarrow> json \<Rightarrow> json \<Rightarrow> json" where
  "merged m a b = (case m a b of Inr v \<Rightarrow> v | Inl e \<Rightarrow> a)"

interpretation crdt: lww "merged crdt_merge" timestamp_str
proof
  fix a b
  show "merged crdt_merge a b = (if timestamp_str b < timestamp_str a then a else b)"
    by (cases "timestamp_str a"; cases "timestamp_str b") (auto simp: merged_def crdt_merge_def)
qed

interpretation remote_wins: lww "merged lww_merge" "\<lambda>_. None :: string option"
  by unfold_locales (simp add: merged_def lww_merge_def)

section \<open>The queue as a log\<close>

interpretation queue_log: append_log queue_push "\<lambda>q. q"
  by unfold_locales (simp add: queue_push_def)

lemma drain_loop_filter:
  "drain_loop t ds rs es = (ds @ filter (\<lambda>e. ce_topic e = t) es, rs @ filter (\<lambda>e. ce_topic e \<noteq> t) es)"
  by (induction t ds rs es rule: drain_loop.induct) auto

lemma queue_drain_topic_filter:
  "queue_drain_topic t q = (filter (\<lambda>e. ce_topic e = t) q, filter (\<lambda>e. ce_topic e \<noteq> t) q)"
  by (simp add: queue_drain_topic_def drain_loop_filter)

section \<open>Histories of the engine\<close>

datatype sync_call =
    Subscribe time sync_topic
  | Unsubscribe sync_topic
  | SetPeerCount sync_topic nat
  | Enqueue string time sync_topic json
  | Drain
  | DrainTopic sync_topic
  | RegisterDevice string time string
  | SetDeviceStatus time string device_status
  | RemoveDevice string

text \<open>The changes a call delivers, and the engine after it.\<close>

fun sync_step :: "sync_call \<Rightarrow> sync_engine \<Rightarrow> change_event list \<times> sync_engine" where
  "sync_step (Subscribe now t) e = ([], snd (subscribe_topic now t e))"
| "sync_step (Unsubscribe t) e = ([], snd (unsubscribe_topic t e))"
| "sync_step (SetPeerCount t n) e =
     ([], case set_topic_peer_count t n e of Inl err \<Rightarrow> e | Inr e' \<Rightarrow> e')"
| "sync_step (Enqueue uuid now t v) e = ([], enqueue_change uuid now t v e)"
| "sync_step Drain e = drain_queue e"
| "sync_step (DrainTopic t) e = drain_queue_for_topic t e"
| "sync_step (RegisterDevice uuid now name) e =
     ([], case register_device uuid now name e of Inl err \<Rightarrow> e | Inr (xid, e') \<Rightarrow> e')"
| "sync_step (SetDeviceStatus now xid st) e =
     ([], case set_device_status now xid st e of Inl err \<Rightarrow> e | Inr e' \<Rightarrow> e')"
| "sync_step (RemoveDevice xid) e = ([], snd (remove_device xid e))"

fun sync_run :: "sync_call list \<Rightarrow> sync_engine \<Rightarrow> change_event list \<times> sync_engine" where
  "sync_run [] e = ([], e)"
| "sync_run (c # cs) e =
     (case sync_step c e of (ds, e') \<Rightarrow> (case sync_run cs e' of (ds', e'') \<Rightarrow> (ds @ ds', e'')))"

definition after :: "sync_call list \<Rightarrow> sync_engine \<Rightarrow> sync_engine" where
  "after cs e = snd (sync_run cs e)"

definition subscription_ok :: "sync_topic \<Rightarrow> subscription \<Rightarrow> bool" where
  "subscription_ok k s \<longleftrightarrow> sub_topic s = k \<and> (sub_active s \<or> sub_peer_count s = 0)"

definition device_ok :: "string \<Rightarrow> device \<Rightarrow> bool" where
  "device_ok k d \<longleftrightarrow> dev_id d = k \<and> trim (dev_name d) \<noteq> []
     \<and> (dev_status d \<noteq> Disconnected \<longrightarrow> dev_last_seen_at d \<noteq> None)"

definition engine_ok :: "sync_engine \<Rightarrow> bool" where
  "engine_ok e \<longleftrightarrow> hm_ok (eng_topics e) \<and> hm_all subscription_ok (eng_topics e)
     \<and> hm_ok (eng_devices e) \<and> hm_all device_ok (eng_devices e) \<and> eng_conflict e = CrdtMerge"

lemmas topic_defs =
  subscribe_topic_def unsubscribe_topic_def set_topic_peer_count_def topic_subscribe_def
  topic_unsubscribe_def set_peer_count_def subscription_new_def leave_def

lemmas device_defs =
  register_device_def set_device_status_def remove_device_def device_new_def registry_register_def
  registry_update_def registry_remove_def set_status_def

lemmas queue_defs =
  enqueue_change_def drain_queue_def drain_queue_for_topic_def queue_enqueue_def queue_push_def
  queue_drain_def queue_drain_topic_filter change_event_new_def

lemma device_status_cases: "st \<noteq> Active \<Longrightarrow> st \<noteq> Syncing \<Longrightarrow> st = Disconnected"
  by (cases st) simp_all

lemma sync_step_ok: "engine_ok e \<Longrightarrow> engine_ok (snd (sync_step c e))"
  by (cases c) (auto simp: engine_ok_def subscription_ok_def device_ok_def topic_defs device_defs
    queue_defs hm_simps Let_def split: option.splits intro!: hm_all_modify_get
    dest: device_status_cases)

lemma sync_run_snd:
  "snd (sync_run (c # cs) e) = snd (sync_run cs (snd (sync_step c e)))"
  by (simp split: prod.split)

lemma sync_run_inv:
  assumes "\<And>c e. P e \<Longrightarrow> P (snd (sync_step c e))" and "P e"
  shows "P (snd (sync_run cs e))"
  using assms(2)
proof (induction cs arbitrary: e)
  case (Cons c cs)
  then show ?case using assms(1) [of e c] by (simp add: sync_run_snd del: sync_run.simps)
qed simp

lemma engine_new_ok: "engine_ok (engine_new name)"
  by (simp add: engine_ok_def engine_new_def hm_simps)

text \<open>Whether the last call on a topic subscribes it.\<close>

fun last_subscribes :: "sync_topic \<Rightarrow> sync_call list \<Rightarrow> bool \<Rightarrow> bool" where
  "last_subscribes t [] b = b"
| "last_subscribes t (Subscribe now t' # cs) b = last_subscribes t cs (t' = t \<or> b)"
| "last_subscribes t (Unsubscribe t' # cs) b = last_subscribes t cs (t' \<noteq> t \<and> b)"
| "last_subscribes t (_ # cs) b = last_subscribes t cs b"

definition subscribed :: "sync_topic \<Rightarrow> sync_engine \<Rightarrow> bool" where
  "subscribed t e = is_subscribed t (eng_topics e)"

lemma subscribed_step:
  "subscribed t (snd (sync_step c e)) =
     (case c of Subscribe now t' \<Rightarrow> t' = t \<or> subscribed t e
      | Unsubscribe t' \<Rightarrow> t' \<noteq> t \<and> subscribed t e | _ \<Rightarrow> subscribed t e)"
  by (cases c) (auto simp: subscribed_def is_subscribed_def topic_defs device_defs queue_defs hm_simps
    Let_def split: option.splits)

lemma subscribed_run: "subscribed t (snd (sync_run cs e)) = last_subscribes t cs (subscribed t e)"
proof (induction cs arbitrary: e)
  case (Cons c cs)
  then show ?case using subscribed_step [of t c e]
    by (cases c) (simp_all add: sync_run_snd del: sync_run.simps sync_step.simps)
qed simp

lemma subscribed_new: "\<not> subscribed t (engine_new n)"
  by (simp add: subscribed_def engine_new_def is_subscribed_def hm_simps)

fun enqueued :: "sync_topic \<Rightarrow> sync_call list \<Rightarrow> change_event list" where
  "enqueued t [] = []"
| "enqueued t (Enqueue uuid now t' v # cs) =
     (if t' = t then [change_event_new uuid now t v] else []) @ enqueued t cs"
| "enqueued t (_ # cs) = enqueued t cs"

definition on_topic :: "sync_topic \<Rightarrow> change_event list \<Rightarrow> change_event list" where
  "on_topic t es = filter (\<lambda>e. ce_topic e = t) es"

lemma on_topic_simps [simp]:
  "on_topic t (xs @ ys) = on_topic t xs @ on_topic t ys" "on_topic t [] = []"
  by (simp_all add: on_topic_def)

lemma queue_step:
  "on_topic t (fst (sync_step c e)) @ on_topic t (eng_queue (snd (sync_step c e)))
     = on_topic t (eng_queue e) @ enqueued t [c]"
proof (cases c)
  case (DrainTopic x)
  then show ?thesis by (cases "x = t") (auto simp: on_topic_def queue_defs filter_empty_conv intro!: filter_cong)
qed (auto simp: on_topic_def topic_defs device_defs queue_defs Let_def filter_empty_conv
  split: option.splits sum.splits prod.splits)

lemma enqueued_Cons: "enqueued t (c # cs) = enqueued t [c] @ enqueued t cs"
  by (cases c) simp_all

lemma queue_run:
  "sync_run cs e = (ds, e') \<Longrightarrow>
     on_topic t ds @ on_topic t (eng_queue e') = on_topic t (eng_queue e) @ enqueued t cs"
proof (induction cs arbitrary: e ds e')
  case (Cons c cs)
  obtain d1 e1 where s: "sync_step c e = (d1, e1)" by fastforce
  obtain d2 e2 where r: "sync_run cs e1 = (d2, e2)" by fastforce
  have "on_topic t d1 @ on_topic t d2 @ on_topic t (eng_queue e2)
      = (on_topic t d1 @ on_topic t (eng_queue e1)) @ enqueued t cs"
    using Cons.IH [OF r] by simp
  also have "\<dots> = on_topic t (eng_queue e) @ enqueued t (c # cs)"
    using queue_step [of t c e] s by (simp add: enqueued_Cons [of t c cs])
  finally show ?case using s r Cons.prems by auto
qed simp

section \<open>Receiving remote changes\<close>

text \<open>A client that applies the remote values of one entry in turn and keeps its own on an error.\<close>

fun receive :: "sync_engine \<Rightarrow> sync_topic \<Rightarrow> json \<Rightarrow> json list \<Rightarrow> json" where
  "receive e t v [] = v"
| "receive e t v (r # rs) =
     (case apply_remote_change t v r e of Inr v' \<Rightarrow> receive e t v' rs | Inl err \<Rightarrow> receive e t v rs)"

lemma receive_foldl:
  "subscribed t e \<Longrightarrow> eng_conflict e = CrdtMerge \<Longrightarrow> receive e t v rs = foldl (merged crdt_merge) v rs"
proof (induction rs arbitrary: v)
  case (Cons r rs)
  then show ?case
    by (auto simp: apply_remote_change_def subscribed_def resolve_def CrdtMerge_def merged_def
      split: sum.splits)
qed simp

section \<open>Pairing\<close>

datatype pairing_decision = Approve time | Reject time

fun ps_decide :: "pairing_decision \<Rightarrow> pairing_session \<Rightarrow> sync_error + pairing_session" where
  "ps_decide (Approve now) s = approve now s"
| "ps_decide (Reject now) s = reject now s"

fun ps_decided :: "pairing_decision \<Rightarrow> approval_state" where
  "ps_decided (Approve now) = Approved"
| "ps_decided (Reject now) = Rejected"

definition ps_pending :: "pairing_session \<Rightarrow> bool" where
  "ps_pending s \<longleftrightarrow> ps_state s = Pending"

interpretation ps: one_shot ps_pending ps_decide
proof
  fix s d
  assume "ps_pending s"
  then show "\<exists>s'. ps_decide d s = Inr s' \<and> \<not> ps_pending s'"
    by (cases d) (simp_all add: ps_pending_def approve_def reject_def)
next
  fix s d
  assume "\<not> ps_pending s"
  then show "\<exists>e. ps_decide d s = Inl e"
    by (cases d) (simp_all add: ps_pending_def approve_def reject_def)
qed

lemma from_hex_Inr: "from_hex h = Inr k \<longleftrightarrow>
    length h = 64 \<and> list_all is_ascii_hexdigit h \<and> k = map ascii_lower h"
  by (auto simp: from_hex_def)

lemma hexdigit_no_cont: "is_ascii_hexdigit c \<Longrightarrow> \<not> is_utf8_cont c"
  by (auto simp: is_ascii_hexdigit_def is_utf8_cont_def Let_def)

lemma pairing_code_hex:
  assumes "length k = 64" and "list_all is_ascii_hexdigit k"
  shows "to_pairing_code k = Some (map ascii_upper (take 6 k))"
proof -
  have "\<not> is_utf8_cont (k ! 6)" using assms by (intro hexdigit_no_cont) (simp add: list_all_length)
  then show ?thesis using assms by (simp add: to_pairing_code_def slice_to_def is_char_boundary_def)
qed

lemma lower_hex: "list_all is_ascii_hexdigit h \<Longrightarrow> list_all is_ascii_hexdigit (map ascii_lower h)"
  by (auto simp: list_all_iff ascii_case_hex)

lemma lower_lower: "map ascii_lower (map ascii_lower h) = map ascii_lower h"
  by (simp add: ascii_case_hex)

section \<open>Properties\<close>

text \<open>C2: Replicas converge.  Two engines of any devices, after any histories, that are both
  subscribed to a topic end with the same value of an entry when each applies the values it has not
  seen, in whatever order and with whatever repetitions, as long as the values carry different time
  stamps (at most one may lack one).\<close>

theorem replicas_converge:
  assumes "subscribed t (after cs (engine_new n))" and "subscribed t (after ds (engine_new m))"
    and "inj_on timestamp_str (set (v # vs))" and "set (w # ws) = set (v # vs)"
  shows "receive (after cs (engine_new n)) t v vs = receive (after ds (engine_new m)) t w ws"
proof -
  have "eng_conflict (after cs (engine_new n)) = CrdtMerge" for cs n
    using sync_run_inv [of engine_ok, OF sync_step_ok engine_new_ok] by (simp add: after_def engine_ok_def)
  then show ?thesis using assms(1,2) crdt.foldl_converges [OF assms(3,4)] by (simp add: receive_foldl)
qed

theorem replicas_converge_witness:
  "let a = JObject [(''updated_at'', JString ''2024-01-01'')];
       b = JObject [(''updated_at'', JString ''2024-02-01'')] in
   receive (after [Subscribe 0 Procedures] (engine_new ''x'')) Procedures a [b, b]
   = receive (after [Subscribe 1 Procedures] (engine_new ''y'')) Procedures b [a]"
  unfolding Let_def
proof (rule replicas_converge)
  show "subscribed Procedures (after [Subscribe 0 Procedures] (engine_new ''x''))"
    and "subscribed Procedures (after [Subscribe 1 Procedures] (engine_new ''y''))"
    by (simp_all add: after_def subscribed_def is_subscribed_def topic_defs engine_new_def hm_simps)
qed (simp_all add: timestamp_str_def insert_commute)

text \<open>Without distinct time stamps they do not: on a tie the merge keeps whichever value is
  remote, so two devices that exchange different values with the same stamp swap them, and every
  further exchange swaps them again.\<close>

theorem tie_swaps_values:
  assumes "timestamp_str a = timestamp_str b"
  shows "resolve CrdtMerge a b = Inr b \<and> resolve CrdtMerge b a = Inr a"
  using assms crdt.tie_right [of a b] crdt.tie_right [of b a]
  by (simp add: resolve_def CrdtMerge_def crdt_merge_def split: option.split)

theorem tie_swaps_values_witness:
  "resolve CrdtMerge (JObject [(''v'', JBool True)]) (JObject [(''v'', JBool False)])
     = Inr (JObject [(''v'', JBool False)])"
  using tie_swaps_values [of "JObject [(''v'', JBool True)]" "JObject [(''v'', JBool False)]"]
  by (simp add: timestamp_str_def)

text \<open>C9: Every queued change is delivered once and in order: over any history of calls, the changes
  delivered for a topic followed by those still queued for it are exactly the changes enqueued for
  it, in the order they were enqueued, whichever mixture of full and per-topic drains delivered
  them.\<close>

theorem queue_exactly_once:
  assumes "sync_run cs (engine_new n) = (delivered, e)"
  shows "on_topic t delivered @ on_topic t (eng_queue e) = enqueued t cs"
  using queue_run [OF assms, of t] by (simp add: engine_new_def)

theorem queue_exactly_once_witness:
  "on_topic Procedures
     (fst (sync_run [Enqueue ''1'' 0 Procedures JNull, Enqueue ''2'' 0 AgentConfig JNull,
        DrainTopic AgentConfig, Enqueue ''3'' 1 Procedures JNull, Drain] (engine_new ''d'')))
   = [change_event_new ''1'' 0 Procedures JNull, change_event_new ''3'' 1 Procedures JNull]"
proof -
  let ?cs = "[Enqueue ''1'' 0 Procedures JNull, Enqueue ''2'' 0 AgentConfig JNull,
        DrainTopic AgentConfig, Enqueue ''3'' 1 Procedures JNull, Drain]"
  obtain d e where r: "sync_run ?cs (engine_new ''d'') = (d, e)" by fastforce
  then have "eng_queue e = []" by (auto simp: queue_defs engine_new_def)
  then show ?thesis using queue_exactly_once [OF r, of Procedures] r by simp
qed

text \<open>A remote change is accepted exactly when the last call on its topic, in the whole history of
  the engine, subscribed it; otherwise it is refused with the topic's key and the local value is not
  touched.\<close>

theorem remote_change_accepted:
  "is_ok (apply_remote_change t local remote (after cs (engine_new n))) = last_subscribes t cs False
   \<and> (\<not> last_subscribes t cs False \<longrightarrow>
       apply_remote_change t local remote (after cs (engine_new n)) = Inl (TopicNotSubscribed (as_key t)))"
proof -
  let ?e = "after cs (engine_new n)"
  have "subscribed t ?e = last_subscribes t cs False"
    using subscribed_run [of t cs "engine_new n"] subscribed_new [of t n] by (simp add: after_def)
  moreover have "eng_conflict ?e = CrdtMerge"
    using sync_run_inv [of engine_ok, OF sync_step_ok engine_new_ok] by (simp add: after_def engine_ok_def)
  ultimately show ?thesis
    by (auto simp: apply_remote_change_def subscribed_def resolve_def CrdtMerge_def crdt_merge_def
      split: option.splits)
qed

theorem remote_change_accepted_witness:
  "apply_remote_change Procedures JNull (JBool True)
     (after [Subscribe 0 Procedures, Unsubscribe Procedures] (engine_new ''d''))
   = Inl (TopicNotSubscribed ''pares-agens/procedures/v1'')"
  using remote_change_accepted [of Procedures JNull "JBool True"
      "[Subscribe 0 Procedures, Unsubscribe Procedures]" "''d''"] by simp

text \<open>Whatever the history, the engine is well formed: subscriptions and devices stand under their
  own key, a topic that has been left counts no peers, a device has a name that is not blank, and a
  device that is active or syncing has been seen.\<close>

theorem engine_history_ok: "engine_ok (after cs (engine_new n))"
  unfolding after_def by (rule sync_run_inv) (auto intro: sync_step_ok engine_new_ok)

text \<open>Both sides of a pairing agree.  From the UUIDs drawn on device A the session is built without
  a panic, and device B, given the key in any mixture of upper and lower case, gets the same key and
  the same six-character code.\<close>

theorem pairing_sides_agree:
  assumes "length a = 32" and "length b = 32" and "list_all is_ascii_hexdigit (a @ b)"
    and "map ascii_lower (a @ b) = a @ b" and "map ascii_lower typed = a @ b"
    and "list_all is_ascii_hexdigit typed" and "trim n \<noteq> []" and "trim m \<noteq> []"
  shows "\<exists>s s'. session_new a b u now n = Some (Inr s) \<and> session_from_key u' now' typed m = Some (Inr s')
    \<and> ps_sync_key s' = ps_sync_key s \<and> ps_pairing_code s' = ps_pairing_code s
    \<and> length (ps_pairing_code s) = 6 \<and> ps_pending s \<and> ps_pending s'"
proof -
  have len: "length (a @ b) = 64" using assms(1,2) by simp
  have "length typed = 64" using len assms(5) by (metis length_map)
  then have "from_hex typed = Inr (a @ b)" using assms(5,6) by (simp add: from_hex_Inr)
  moreover have "to_pairing_code (a @ b) = Some (map ascii_upper (take 6 (a @ b)))"
    using len assms(3) by (rule pairing_code_hex)
  ultimately show ?thesis using assms(1,2,7,8)
    by (simp add: session_new_def session_from_key_def generate_key_def ps_pending_def)
qed

theorem pairing_sides_agree_witness:
  "\<exists>s s'. session_new (replicate 32 CHR ''a'') (replicate 32 CHR ''0'') ''u'' 1 ''A'' = Some (Inr s)
    \<and> session_from_key ''v'' 2 (replicate 32 CHR ''A'' @ replicate 32 CHR ''0'') ''B'' = Some (Inr s')
    \<and> ps_sync_key s' = ps_sync_key s \<and> ps_pairing_code s' = ps_pairing_code s
    \<and> length (ps_pairing_code s) = 6 \<and> ps_pending s \<and> ps_pending s'"
proof -
  have "ascii_lower (CHR ''a'') = CHR ''a''" "ascii_lower (CHR ''A'') = CHR ''a''"
    "ascii_lower (CHR ''0'') = CHR ''0''" by code_simp+
  then show ?thesis
    by (intro pairing_sides_agree) (simp_all add: list_all_iff is_ascii_hexdigit_def trim_graph is_graph_def)
qed

text \<open>A sync key is accepted exactly when it has 64 hexadecimal digits; what is accepted is in lower
  case, so reading it again gives the same key.\<close>

theorem from_hex_spec:
  "(from_hex h = Inr k \<longleftrightarrow> length h = 64 \<and> list_all is_ascii_hexdigit h \<and> k = map ascii_lower h)
   \<and> (from_hex h = Inr k \<longrightarrow> from_hex k = Inr k)"
  using lower_hex [of h] lower_lower [of h] by (auto simp: from_hex_Inr simp del: map_map)

theorem from_hex_spec_witness:
  "from_hex (replicate 64 CHR ''F'') = Inr (replicate 64 CHR ''f'')"
proof -
  have "ascii_lower (CHR ''F'') = CHR ''f''" by code_simp
  then show ?thesis using from_hex_spec [of "replicate 64 CHR ''F''" "replicate 64 CHR ''f''"]
    by (simp add: is_ascii_hexdigit_def list_all_iff)
qed

text \<open>A pairing session is decided once: of any sequence of approvals and rejections the first takes
  effect and fixes the state and its time, and all others fail and change nothing.\<close>

theorem pairing_decided_once:
  assumes "ps_pending s"
  shows "\<exists>s'. ps_decide d s = Inr s' \<and> attempts ps_decide (d # ds) s = s' \<and> ps_state s' = ps_decided d
    \<and> (is_approved s' \<longleftrightarrow> (\<exists>now. d = Approve now))"
proof -
  obtain s' where s': "ps_decide d s = Inr s'" "attempts ps_decide (d # ds) s = s'"
    using ps.first_decision_wins [OF assms] by blast
  moreover have "ps_state s' = ps_decided d"
    using s'(1) by (cases d) (auto simp: approve_def reject_def split: if_splits)
  ultimately show ?thesis by (cases d) (simp_all add: is_approved_def)
qed

theorem pairing_decided_once_witness:
  "\<exists>s'. ps_decide (Reject 5) \<lparr>ps_id = ''i'', ps_sync_key = [], ps_pairing_code = [], ps_initiator_name = ''n'',
       ps_state = Pending, ps_created_at = 0, ps_resolved_at = None\<rparr> = Inr s'
     \<and> attempts ps_decide [Reject 5, Approve 6] \<lparr>ps_id = ''i'', ps_sync_key = [], ps_pairing_code = [],
       ps_initiator_name = ''n'', ps_state = Pending, ps_created_at = 0, ps_resolved_at = None\<rparr> = s'
     \<and> ps_state s' = ps_decided (Reject 5) \<and> (is_approved s' \<longleftrightarrow> (\<exists>now. Reject 5 = Approve now))"
  by (rule pairing_decided_once) (simp add: ps_pending_def)

end
