(* ===== verification/Audit_Log.thy ===== *)
theory Audit_Log
  imports Prelude
begin

text \<open>
  The audit log (\<open>crates/audit/src\<close>): events (\<open>event.rs\<close>), queries (\<open>query.rs\<close>), the
  in-memory and the PluresDB store (\<open>store.rs\<close>), retention (\<open>retention.rs\<close>) and the CSV
  export (\<open>export.rs\<close>).  Time stamps are the RFC 3339 texts the code stores and compares as
  strings; UUIDs and clock readings are arguments, \<open>chrono\<close>, the key-value store and the JSON
  encoding are parameters.
\<close>

section \<open>Events\<close>

datatype event_kind = ModelCall | MemoryWrite | MemoryRead | ToolExec | ChannelSend

fun kind_str :: "event_kind \<Rightarrow> string" where
  "kind_str ModelCall = ''model-call''"
| "kind_str MemoryWrite = ''memory-write''"
| "kind_str MemoryRead = ''memory-read''"
| "kind_str ToolExec = ''tool-exec''"
| "kind_str ChannelSend = ''channel-send''"

record audit_event =
  ae_id :: string
  ae_timestamp :: string
  ae_actor :: string
  ae_kind :: event_kind
  ae_data_summary :: string
  ae_destination :: string
  ae_pii_flag :: bool

definition audit_event_new ::
    "chrono \<Rightarrow> string \<Rightarrow> time \<Rightarrow> event_kind \<Rightarrow> string \<Rightarrow> string \<Rightarrow> string \<Rightarrow> bool \<Rightarrow> audit_event" where
  "audit_event_new ch uuid now kind actor destination data_summary pii_flag =
     \<lparr>ae_id = uuid, ae_timestamp = to_rfc3339 ch now, ae_actor = actor, ae_kind = kind,
      ae_data_summary = data_summary, ae_destination = destination, ae_pii_flag = pii_flag\<rparr>"

section \<open>Queries\<close>

record audit_query =
  q_since :: "string option"
  q_until :: "string option"
  q_kind :: "event_kind option"
  q_destination :: "string option"
  q_actor :: "string option"
  q_pii_only :: "bool option"

definition query_new :: audit_query where
  "query_new = \<lparr>q_since = None, q_until = None, q_kind = None, q_destination = None,
     q_actor = None, q_pii_only = None\<rparr>"

definition with_since :: "string \<Rightarrow> audit_query \<Rightarrow> audit_query" where
  "with_since t q = q\<lparr>q_since := Some t\<rparr>"

definition with_until :: "string \<Rightarrow> audit_query \<Rightarrow> audit_query" where
  "with_until t q = q\<lparr>q_until := Some t\<rparr>"

definition with_kind :: "event_kind \<Rightarrow> audit_query \<Rightarrow> audit_query" where
  "with_kind k q = q\<lparr>q_kind := Some k\<rparr>"

definition with_destination :: "string \<Rightarrow> audit_query \<Rightarrow> audit_query" where
  "with_destination d q = q\<lparr>q_destination := Some d\<rparr>"

definition with_actor :: "string \<Rightarrow> audit_query \<Rightarrow> audit_query" where
  "with_actor a q = q\<lparr>q_actor := Some a\<rparr>"

definition with_pii_only :: "bool \<Rightarrow> audit_query \<Rightarrow> audit_query" where
  "with_pii_only b q = q\<lparr>q_pii_only := Some b\<rparr>"

text \<open>One early return of \<open>matches\<close>: the criterion is given and the event fails it.\<close>

definition fails :: "'a option \<Rightarrow> ('a \<Rightarrow> bool) \<Rightarrow> bool" where
  "fails crit bad = (case crit of Some x \<Rightarrow> bad x | None \<Rightarrow> False)"

definition matches :: "audit_query \<Rightarrow> audit_event \<Rightarrow> bool" where
  "matches q e =
     (if fails (q_since q) (\<lambda>s. ae_timestamp e < s) then False
      else if fails (q_until q) (\<lambda>u. ae_timestamp e > u) then False
      else if fails (q_kind q) (\<lambda>k. ae_kind e \<noteq> k) then False
      else if fails (q_destination q) (\<lambda>d. ae_destination e \<noteq> d) then False
      else if fails (q_actor q) (\<lambda>a. ae_actor e \<noteq> a) then False
      else if fails (q_pii_only q) (\<lambda>p. ae_pii_flag e \<noteq> p) then False
      else True)"

section \<open>The in-memory store\<close>

type_synonym memory_log = "audit_event list"

definition mem_append :: "audit_event \<Rightarrow> memory_log \<Rightarrow> memory_log" where
  "mem_append e l = l @ [e]"

definition mem_query :: "audit_query \<Rightarrow> memory_log \<Rightarrow> audit_event list" where
  "mem_query q l = filter (matches q) l"

definition mem_all :: "memory_log \<Rightarrow> audit_event list" where
  "mem_all l = l"

definition mem_len :: "memory_log \<Rightarrow> nat" where
  "mem_len l = length l"

definition mem_purge_before :: "string \<Rightarrow> memory_log \<Rightarrow> memory_log" where
  "mem_purge_before cutoff l = filter (\<lambda>e. ae_timestamp e \<ge> cutoff) l"

section \<open>The PluresDB store\<close>

definition audit_actor :: string where
  "audit_actor = ''pares-agens-audit''"

record 'j event_codec =
  ev_to_value :: "audit_event \<Rightarrow> string + 'j"
  ev_from_value :: "'j \<Rightarrow> string + audit_event"

definition plures_append ::
    "('s, 'j) crdt \<Rightarrow> 'j event_codec \<Rightarrow> audit_event \<Rightarrow> 's \<Rightarrow> 's" where
  "plures_append db cd e s =
     (case ev_to_value cd e of
        Inr data \<Rightarrow> crdt_put db (ae_id e) audit_actor data s
      | Inl err \<Rightarrow> s)"

text \<open>The records that decode, in the order of the listing.\<close>

definition decode_events :: "'j event_codec \<Rightarrow> (string \<times> 'j) list \<Rightarrow> audit_event list" where
  "decode_events cd rs =
     List.map_filter (\<lambda>(k, v). case ev_from_value cd v of Inr e \<Rightarrow> Some e | Inl err \<Rightarrow> None) rs"

definition plures_query ::
    "('s, 'j) crdt \<Rightarrow> 'j event_codec \<Rightarrow> audit_query \<Rightarrow> 's \<Rightarrow> audit_event list" where
  "plures_query db cd q s = filter (matches q) (decode_events cd (crdt_list db s))"

definition plures_events :: "('s, 'j) crdt \<Rightarrow> 'j event_codec \<Rightarrow> 's \<Rightarrow> audit_event list" where
  "plures_events db cd s = sort_key ae_timestamp (decode_events cd (crdt_list db s))"

definition plures_len :: "('s, 'j) crdt \<Rightarrow> 's \<Rightarrow> nat" where
  "plures_len db s = length (crdt_list db s)"

definition plures_purge_before ::
    "('s, 'j) crdt \<Rightarrow> 'j event_codec \<Rightarrow> string \<Rightarrow> 's \<Rightarrow> 's" where
  "plures_purge_before db cd cutoff s =
     (let to_delete = map ae_id (filter (\<lambda>e. ae_timestamp e < cutoff) (decode_events cd (crdt_list db s))) in
      fold (\<lambda>xid s. snd (crdt_delete db xid s)) to_delete s)"

section \<open>Retention\<close>

text \<open>\<open>retain_days\<close>; \<open>None\<close> keeps everything.\<close>

type_synonym retention_config = "32 word option"

definition retain_days :: "32 word \<Rightarrow> retention_config" where
  "retain_days days = Some days"

definition retain_forever :: retention_config where
  "retain_forever = None"

definition default_retention :: retention_config where
  "default_retention = retain_days 365"

text \<open>
  The purge of the store at hand is an argument, as the code takes a \<open>&dyn AuditStore\<close>; the
  outer \<open>option\<close> is \<open>None\<close> when the arithmetic on dates panics.
\<close>

definition apply_retention ::
    "chrono \<Rightarrow> (string \<Rightarrow> 's \<Rightarrow> 's) \<Rightarrow> time \<Rightarrow> retention_config \<Rightarrow> 's \<Rightarrow> 's option" where
  "apply_retention ch purge now config s =
     (case config of
        None \<Rightarrow> Some s
      | Some days \<Rightarrow>
          (case td_days ch (int (unat days)) of
             None \<Rightarrow> None
           | Some window \<Rightarrow>
               (case dt_add ch now (- window) of
                  None \<Rightarrow> None
                | Some cutoff \<Rightarrow> Some (purge (to_rfc3339 ch cutoff) s))))"

section \<open>CSV export\<close>

definition csv_header :: string where
  "csv_header = ''id,timestamp,actor,kind,data_summary,destination,pii_flag''"

abbreviation dquote :: char where
  "dquote \<equiv> CHR 0x22"

definition csv_escape :: "string \<Rightarrow> string" where
  "csv_escape s =
     (if list_ex (\<lambda>c. c = CHR '','' \<or> c = dquote \<or> c = newline \<or> c = CHR 0x0D) s
      then [dquote] @ concat (map (\<lambda>c. if c = dquote then [dquote, dquote] else [c]) s) @ [dquote]
      else s)"

definition show_bool :: "bool \<Rightarrow> string" where
  "show_bool b = (if b then ''true'' else ''false'')"

definition csv_row :: "audit_event \<Rightarrow> string" where
  "csv_row e =
     csv_escape (ae_id e) @ '','' @ csv_escape (ae_timestamp e) @ '','' @ csv_escape (ae_actor e)
     @ '','' @ csv_escape (kind_str (ae_kind e)) @ '','' @ csv_escape (ae_data_summary e)
     @ '','' @ csv_escape (ae_destination e) @ '','' @ show_bool (ae_pii_flag e)"

definition export_csv :: "audit_event list \<Rightarrow> string" where
  "export_csv es = join [newline] (csv_header # map csv_row es)"

section \<open>A reader of CSV\<close>

text \<open>
  How a CSV text is read, stated apart from the export: fields separated by commas, rows by line
  feeds, a field that starts with a double quote runs to the closing one with doubled quotes
  inside.  The state is the field being read, reversed.
\<close>

datatype csv_state = Start | Plain string | Quoted string | Closing string

fun csv :: "csv_state \<Rightarrow> string list \<Rightarrow> string \<Rightarrow> string list list option" where
  "csv Start row [] = Some [row @ [[]]]"
| "csv (Plain a) row [] = Some [row @ [rev a]]"
| "csv (Quoted a) row [] = None"
| "csv (Closing a) row [] = Some [row @ [rev a]]"
| "csv Start row (c # cs) =
     (if c = dquote then csv (Quoted []) row cs
      else if c = CHR '','' then csv Start (row @ [[]]) cs
      else if c = newline then map_option (\<lambda>rs. (row @ [[]]) # rs) (csv Start [] cs)
      else csv (Plain [c]) row cs)"
| "csv (Plain a) row (c # cs) =
     (if c = dquote then None
      else if c = CHR '','' then csv Start (row @ [rev a]) cs
      else if c = newline then map_option (\<lambda>rs. (row @ [rev a]) # rs) (csv Start [] cs)
      else csv (Plain (c # a)) row cs)"
| "csv (Quoted a) row (c # cs) =
     (if c = dquote then csv (Closing a) row cs else csv (Quoted (c # a)) row cs)"
| "csv (Closing a) row (c # cs) =
     (if c = dquote then csv (Quoted (dquote # a)) row cs
      else if c = CHR '','' then csv Start (row @ [rev a]) cs
      else if c = newline then map_option (\<lambda>rs. (row @ [rev a]) # rs) (csv Start [] cs)
      else None)"

definition parse_csv :: "string \<Rightarrow> string list list option" where
  "parse_csv s = csv Start [] s"

definition csv_plain :: "char \<Rightarrow> bool" where
  "csv_plain c \<longleftrightarrow> c \<noteq> CHR '','' \<and> c \<noteq> dquote \<and> c \<noteq> newline"

lemma csv_Plain: "list_all csv_plain w \<Longrightarrow> csv (Plain a) row (w @ s) = csv (Plain (rev w @ a)) row s"
  by (induction w arbitrary: a) (auto simp: csv_plain_def)

lemma csv_Quoted:
  "csv (Quoted a) row (concat (map (\<lambda>c. if c = dquote then [dquote, dquote] else [c]) w) @ dquote # s)
     = csv (Closing (rev w @ a)) row s"
  by (induction w arbitrary: a) auto

text \<open>Reading an escaped field up to a comma, a line feed or the end.\<close>

lemma csv_escape_read:
  "csv Start row (csv_escape w @ CHR '','' # s) = csv Start (row @ [w]) s"
  "csv Start row (csv_escape w @ newline # s) = map_option (\<lambda>rs. (row @ [w]) # rs) (csv Start [] s)"
  "csv Start row (csv_escape w) = Some [row @ [w]]"
proof -
  have "csv Start row (csv_escape w @ CHR '','' # s) = csv Start (row @ [w]) s
    \<and> csv Start row (csv_escape w @ newline # s) = map_option (\<lambda>rs. (row @ [w]) # rs) (csv Start [] s)
    \<and> csv Start row (csv_escape w @ []) = Some [row @ [w]]"
  proof (cases "list_ex (\<lambda>c. c = CHR '','' \<or> c = dquote \<or> c = newline \<or> c = CHR 0x0D) w")
    case True
    then show ?thesis by (simp add: csv_escape_def csv_Quoted)
  next
    case False
    then have "list_all csv_plain w" by (auto simp: list_all_iff list_ex_iff csv_plain_def)
    with False show ?thesis using csv_Plain [of "tl w" "[hd w]" row "[]"]
      by (cases w) (auto simp: csv_escape_def csv_Plain csv_plain_def)
  qed
  then show "csv Start row (csv_escape w @ CHR '','' # s) = csv Start (row @ [w]) s"
    "csv Start row (csv_escape w @ newline # s) = map_option (\<lambda>rs. (row @ [w]) # rs) (csv Start [] s)"
    "csv Start row (csv_escape w) = Some [row @ [w]]" by simp_all
qed

lemma csv_show_bool_read:
  "csv Start row (show_bool b @ newline # s) = map_option (\<lambda>rs. (row @ [show_bool b]) # rs) (csv Start [] s)"
  "csv Start row (show_bool b) = Some [row @ [show_bool b]]"
  by (cases b; simp add: show_bool_def)+

definition csv_fields :: "audit_event \<Rightarrow> string list" where
  "csv_fields e = [ae_id e, ae_timestamp e, ae_actor e, kind_str (ae_kind e), ae_data_summary e,
     ae_destination e, show_bool (ae_pii_flag e)]"

lemma csv_row_read:
  "csv Start [] (csv_row e @ newline # s) = map_option (\<lambda>rs. csv_fields e # rs) (csv Start [] s)"
  "csv Start [] (csv_row e) = Some [csv_fields e]"
  by (simp_all add: csv_row_def csv_fields_def csv_escape_read csv_show_bool_read)

definition csv_columns :: "string list" where
  "csv_columns = [''id'', ''timestamp'', ''actor'', ''kind'', ''data_summary'', ''destination'', ''pii_flag'']"

lemma csv_header_read:
  "csv Start [] (csv_header @ newline # s) = map_option (\<lambda>rs. csv_columns # rs) (csv Start [] s)"
  "csv Start [] csv_header = Some [csv_columns]"
  by (simp_all add: csv_header_def csv_columns_def)

lemma csv_rows_read: "es \<noteq> [] \<Longrightarrow> csv Start [] (join [newline] (map csv_row es)) = Some (map csv_fields es)"
  by (induction es rule: induct_list012) (simp_all add: csv_row_read)

lemma parse_export: "parse_csv (export_csv es) = Some (csv_columns # map csv_fields es)"
proof (cases es)
  case Nil
  then show ?thesis by (simp add: parse_csv_def export_csv_def csv_header_read)
next
  case (Cons e es')
  then have "join [newline] (csv_header # map csv_row es) = csv_header @ newline # join [newline] (map csv_row es)"
    by simp
  then show ?thesis using csv_rows_read [of es] Cons
    by (simp add: parse_csv_def export_csv_def csv_header_read)
qed

section \<open>Both stores implement the same log\<close>

interpretation memory_log: append_log mem_append mem_all
  by unfold_locales (simp add: mem_append_def mem_all_def)

definition event_codec_laws :: "'j event_codec \<Rightarrow> bool" where
  "event_codec_laws cd \<longleftrightarrow> (\<forall>e. \<exists>j. ev_to_value cd e = Inr j \<and> ev_from_value cd j = Inr e)"

text \<open>The store holds the events of a log, each under its identifier.\<close>

definition holds :: "'j event_codec \<Rightarrow> (string \<rightharpoonup> 'j) \<Rightarrow> memory_log \<Rightarrow> bool" where
  "holds cd v l \<longleftrightarrow> distinct (map ae_id l)
     \<and> (\<forall>e \<in> set l. \<exists>j. v (ae_id e) = Some j \<and> ev_from_value cd j = Inr e)
     \<and> (\<forall>k j. v k = Some j \<longrightarrow> k \<in> ae_id ` set l)"

lemma holdsD:
  assumes "holds cd v l"
  shows "distinct (map ae_id l)"
    and "e \<in> set l \<Longrightarrow> \<exists>j. v (ae_id e) = Some j \<and> ev_from_value cd j = Inr e"
    and "v k = Some j \<Longrightarrow> \<exists>e \<in> set l. ae_id e = k \<and> ev_from_value cd j = Inr e"
proof -
  show "distinct (map ae_id l)"
    and ex: "e \<in> set l \<Longrightarrow> \<exists>j. v (ae_id e) = Some j \<and> ev_from_value cd j = Inr e" for e
    using assms by (simp_all add: holds_def)
  assume k: "v k = Some j"
  then obtain e where "e \<in> set l" "ae_id e = k" using assms by (auto simp: holds_def)
  with ex [of e] k show "\<exists>e \<in> set l. ae_id e = k \<and> ev_from_value cd j = Inr e" by auto
qed

lemma decode_events_Cons: "decode_events cd ((k, v) # rs) =
    (case ev_from_value cd v of Inr e \<Rightarrow> e # decode_events cd rs | Inl err \<Rightarrow> decode_events cd rs)"
  by (simp add: decode_events_def List.map_filter_def split: sum.split)

lemma decode_events_set:
  "e \<in> set (decode_events cd rs) \<longleftrightarrow> (\<exists>k v. (k, v) \<in> set rs \<and> ev_from_value cd v = Inr e)"
proof (induction rs)
  case (Cons r rs)
  obtain k v where "r = (k, v)" by (cases r)
  then show ?case using Cons.IH by (cases "ev_from_value cd v") (auto simp: decode_events_Cons)
qed (simp add: decode_events_def List.map_filter_def)

lemma decode_events_ids:
  assumes "distinct (map fst rs)" and "\<And>k v e. (k, v) \<in> set rs \<Longrightarrow> ev_from_value cd v = Inr e \<Longrightarrow> ae_id e = k"
  shows "distinct (decode_events cd rs)"
  using assms
proof (induction rs)
  case (Cons r rs)
  obtain k v where r: "r = (k, v)" by (cases r)
  show ?case
  proof (cases "ev_from_value cd v")
    case (Inr e)
    have "e \<notin> set (decode_events cd rs)"
    proof
      assume "e \<in> set (decode_events cd rs)"
      then obtain k' v' where kv: "(k', v') \<in> set rs" "ev_from_value cd v' = Inr e"
        by (auto simp: decode_events_set)
      then have "k' = k" using Cons.prems(2) Inr r by (metis list.set_intros)
      then show False using Cons.prems(1) kv r by (force simp: image_iff)
    qed
    moreover have "distinct (decode_events cd rs)"
      using Cons.prems by (intro Cons.IH) auto
    ultimately show ?thesis using r Inr by (simp add: decode_events_Cons)
  next
    case (Inl x)
    have "distinct (decode_events cd rs)"
      using Cons.prems by (intro Cons.IH) auto
    then show ?thesis using r Inl by (simp add: decode_events_Cons)
  qed
qed (simp add: decode_events_def List.map_filter_def)

lemma holds_decode:
  assumes h: "holds cd (view s) l" and db: "crdt_laws db view"
  shows "mset (decode_events cd (crdt_list db s)) = mset l"
proof -
  have d: "distinct (map fst (crdt_list db s))" and v: "map_of (crdt_list db s) = view s"
    using db by (simp_all add: crdt_laws_def)
  have mem: "(k, j) \<in> set (crdt_list db s) \<longleftrightarrow> view s k = Some j" for k j
    using map_of_eq_Some_iff [OF d, of k j] v by simp
  note dl = holdsD(1) [OF h] and in_store = holdsD(2) [OF h] and in_log = holdsD(3) [OF h]
  have "set (decode_events cd (crdt_list db s)) = set l"
  proof (intro equalityI subsetI)
    fix e assume "e \<in> set (decode_events cd (crdt_list db s))"
    then obtain k j where kj: "view s k = Some j" "ev_from_value cd j = Inr e"
      by (auto simp: decode_events_set mem)
    from in_log [OF kj(1)] kj(2) show "e \<in> set l" by auto
  next
    fix e assume "e \<in> set l"
    from in_store [OF this] show "e \<in> set (decode_events cd (crdt_list db s))"
      by (auto simp: decode_events_set mem)
  qed
  moreover have "distinct (decode_events cd (crdt_list db s))"
    using d
  proof (rule decode_events_ids)
    fix k j e assume kj: "(k, j) \<in> set (crdt_list db s)" "ev_from_value cd j = Inr e"
    from kj(1) have "view s k = Some j" by (simp add: mem)
    from in_log [OF this] kj(2) show "ae_id e = k" by auto
  qed
  ultimately show ?thesis using dl by (simp add: set_eq_iff_mset_eq_distinct distinct_map)
qed

lemma holds_append:
  assumes h: "holds cd (view s) l" and db: "crdt_laws db view" and cd: "event_codec_laws cd"
    and "ae_id e \<notin> ae_id ` set l"
  shows "holds cd (view (plures_append db cd e s)) (mem_append e l)"
proof -
  obtain j where j: "ev_to_value cd e = Inr j" "ev_from_value cd j = Inr e"
    using cd by (auto simp: event_codec_laws_def)
  have "view (plures_append db cd e s) = (view s)(ae_id e \<mapsto> j)"
    using db j by (simp add: plures_append_def crdt_laws_def)
  then show ?thesis using h assms(4) j by (auto simp: holds_def mem_append_def)
qed

lemma delete_all:
  assumes db: "crdt_laws db view"
  shows "view (fold (\<lambda>xid s. snd (crdt_delete db xid s)) ks s) k = (if k \<in> set ks then None else view s k)"
proof (induction ks arbitrary: s)
  case (Cons x ks)
  have "view (snd (crdt_delete db x s)) = (view s)(x := None)" using db by (simp add: crdt_laws_def)
  then show ?case using Cons.IH by simp
qed simp

lemma holds_purge:
  assumes h: "holds cd (view s) l" and db: "crdt_laws db view"
  shows "holds cd (view (plures_purge_before db cd c s)) (mem_purge_before c l)"
proof -
  have dl: "distinct (map ae_id l)" using h by (rule holdsD)
  have "set (decode_events cd (crdt_list db s)) = set l"
    using holds_decode [OF h db] by (metis set_mset_mset)
  then have v: "view (plures_purge_before db cd c s) k =
      (if \<exists>e \<in> set l. ae_timestamp e < c \<and> k = ae_id e then None else view s k)" for k
    by (auto simp: plures_purge_before_def delete_all [OF db] Let_def)
  have uniq: "e = e'" if "e \<in> set l" "e' \<in> set l" "ae_id e = ae_id e'" for e e'
    using dl that by (auto simp: distinct_map dest: inj_onD)
  show ?thesis unfolding holds_def
  proof (intro conjI ballI allI impI)
    show "distinct (map ae_id (mem_purge_before c l))"
      using dl by (simp add: mem_purge_before_def distinct_map_filter)
  next
    fix e assume "e \<in> set (mem_purge_before c l)"
    then have e: "e \<in> set l" "\<not> ae_timestamp e < c" by (auto simp: mem_purge_before_def)
    then have "view (plures_purge_before db cd c s) (ae_id e) = view s (ae_id e)"
      using uniq by (auto simp: v)
    then show "\<exists>j. view (plures_purge_before db cd c s) (ae_id e) = Some j \<and> ev_from_value cd j = Inr e"
      using holdsD(2) [OF h e(1)] by simp
  next
    fix k j assume kj: "view (plures_purge_before db cd c s) k = Some j"
    then have no: "\<not> (\<exists>e \<in> set l. ae_timestamp e < c \<and> k = ae_id e)" and "view s k = Some j"
      by (simp_all add: v split: if_splits)
    from holdsD(3) [OF h this(2)] obtain e where "e \<in> set l" "ae_id e = k" by blast
    then show "k \<in> ae_id ` set (mem_purge_before c l)"
      using no by (auto simp: mem_purge_before_def)
  qed
qed

text \<open>The calls that change a store.\<close>

datatype audit_op = Append audit_event | PurgeBefore string

fun mem_op :: "audit_op \<Rightarrow> memory_log \<Rightarrow> memory_log" where
  "mem_op (Append e) l = mem_append e l"
| "mem_op (PurgeBefore c) l = mem_purge_before c l"

fun plures_op :: "('s, 'j) crdt \<Rightarrow> 'j event_codec \<Rightarrow> audit_op \<Rightarrow> 's \<Rightarrow> 's" where
  "plures_op db cd (Append e) s = plures_append db cd e s"
| "plures_op db cd (PurgeBefore c) s = plures_purge_before db cd c s"

fun appended :: "audit_op list \<Rightarrow> audit_event list" where
  "appended [] = []"
| "appended (Append e # ops) = e # appended ops"
| "appended (PurgeBefore c # ops) = appended ops"

lemma holds_fold:
  assumes "holds cd (view s) l" and db: "crdt_laws db view" and cd: "event_codec_laws cd"
    and "distinct (map ae_id (appended ops))" and "ae_id ` set l \<inter> ae_id ` set (appended ops) = {}"
  shows "holds cd (view (fold (plures_op db cd) ops s)) (fold mem_op ops l)"
  using assms(1,4,5)
proof (induction ops arbitrary: s l)
  case (Cons op ops)
  show ?case
  proof (cases op)
    case (Append e)
    then have "holds cd (view (plures_append db cd e s)) (mem_append e l)"
      using Cons.prems by (intro holds_append db cd) auto
    then show ?thesis using Cons Append by (auto simp: mem_append_def image_Un)
  next
    case (PurgeBefore c)
    then have "holds cd (view (plures_purge_before db cd c s)) (mem_purge_before c l)"
      using Cons.prems by (intro holds_purge db) auto
    moreover have "set (mem_purge_before c l) \<subseteq> set l" by (auto simp: mem_purge_before_def)
    ultimately show ?thesis using Cons PurgeBefore by fastforce
  qed
qed simp

section \<open>Time stamps as texts\<close>

text \<open>What the code relies on of the formatter: in a range of times, texts order as the times do.\<close>

definition rfc_order :: "chrono \<Rightarrow> time \<Rightarrow> time \<Rightarrow> bool" where
  "rfc_order ch lo hi \<longleftrightarrow> (\<forall>t \<in> {lo..hi}. \<forall>u \<in> {lo..hi}. to_rfc3339 ch t < to_rfc3339 ch u \<longleftrightarrow> t < u)"

lemma rfc_order_le:
  "rfc_order ch lo hi \<Longrightarrow> t \<in> {lo..hi} \<Longrightarrow> u \<in> {lo..hi} \<Longrightarrow>
     to_rfc3339 ch t \<le> to_rfc3339 ch u \<longleftrightarrow> t \<le> u"
  by (simp add: rfc_order_def linorder_not_less [symmetric])

definition stamped :: "chrono \<Rightarrow> time \<times> audit_event \<Rightarrow> audit_event" where
  "stamped ch = (\<lambda>(t, e). e\<lparr>ae_timestamp := to_rfc3339 ch t\<rparr>)"

section \<open>Properties\<close>

text \<open>The CSV export can be read back: whatever bytes the events hold, commas, quotes and line
  breaks included, a reader of CSV gets the column names and exactly the fields of every event, in
  order.\<close>

theorem csv_export_reads_back: "parse_csv (export_csv es) = Some (csv_columns # map csv_fields es)"
  by (rule parse_export)


definition plain_codec :: "audit_event event_codec" where
  "plain_codec = \<lparr>ev_to_value = Inr, ev_from_value = Inr\<rparr>"

definition sample_event :: "string \<Rightarrow> string \<Rightarrow> audit_event" where
  "sample_event i t = \<lparr>ae_id = i, ae_timestamp = t, ae_actor = [], ae_kind = ToolExec,
     ae_data_summary = [], ae_destination = [], ae_pii_flag = False\<rparr>"

definition sample_ops :: "audit_op list" where
  "sample_ops = [Append (sample_event ''1'' ''2024''), Append (sample_event ''2'' ''2023''),
     PurgeBefore ''2023'', Append (sample_event ''3'' ''2022'')]"


text \<open>Retention keeps exactly the window: with stamps that the code's own formatter produced, in a
  range where the texts order as the times, applying a policy of \<open>d\<close> days at time \<open>now\<close> keeps the
  events of the last \<open>d\<close> days, in order, and removes all older ones; a policy without a number of days
  removes nothing.\<close>

theorem retention_window:
  assumes "rfc_order ch lo hi" and "\<forall>(t, e) \<in> set tes. t \<in> {lo..hi}"
    and "td_days ch (int (unat d)) = Some w" and "dt_add ch now (- w) = Some (now - w)"
    and "now - w \<in> {lo..hi}"
  shows "apply_retention ch mem_purge_before now (retain_days d) (map (stamped ch) tes)
      = Some (map (stamped ch) (filter (\<lambda>(t, e). now - w \<le> t) tes))
    \<and> apply_retention ch mem_purge_before now retain_forever (map (stamped ch) tes)
      = Some (map (stamped ch) tes)"
proof -
  have "filter (\<lambda>e. to_rfc3339 ch (now - w) \<le> ae_timestamp e) (map (stamped ch) tes)
      = map (stamped ch) (filter (\<lambda>(t, e). now - w \<le> t) tes)"
    using assms(2) rfc_order_le [OF assms(1) assms(5)]
    by (induction tes) (auto simp: stamped_def)
  then show ?thesis using assms(3,4)
    by (simp add: apply_retention_def retain_days_def retain_forever_def mem_purge_before_def)
qed

definition byte_chrono :: chrono where
  "byte_chrono = \<lparr>td_seconds = Some, td_hours = Some, td_days = Some, dt_add = (\<lambda>t d. Some (t + d)),
     dt_minute = (\<lambda>_. 0), dt_hour = (\<lambda>_. 0), dt_day = (\<lambda>_. 1), dt_month = (\<lambda>_. 1), dt_weekday = (\<lambda>_. 0),
     to_rfc3339 = (\<lambda>t. [char_of (nat t)]), parse_rfc3339 = (\<lambda>_. None)\<rparr>"

theorem retention_window_witness:
  "let e = \<lparr>ae_id = ''i'', ae_timestamp = [], ae_actor = [], ae_kind = ToolExec, ae_data_summary = [],
         ae_destination = [], ae_pii_flag = False\<rparr> in
   apply_retention byte_chrono mem_purge_before 50 (retain_days 10)
       (map (stamped byte_chrono) [(39, e), (40, e), (45, e)])
   = Some (map (stamped byte_chrono) [(40, e), (45, e)])"
proof -
  have "rfc_order byte_chrono 0 99"
    by (auto simp: rfc_order_def byte_chrono_def less_char_def)
  from retention_window [OF this, of "[(39, e), (40, e), (45, e)]" 10 10 50 for e] show ?thesis
    unfolding Let_def by (simp add: byte_chrono_def)
qed

text \<open>The bounds of a query are compared as texts, so a bound that is a valid RFC 3339 text in
  another form than the stored one misses: with the bound written with \<open>Z\<close>, an event half a second
  after it is left out, while the same bound written with the offset \<open>+00:00\<close> includes it.\<close>

theorem since_text_misses_event:
  "let e = \<lparr>ae_id = ''1'', ae_timestamp = ''2024-01-01T00:00:00.500+00:00'', ae_actor = ''a'',
        ae_kind = ModelCall, ae_data_summary = [], ae_destination = ''d'', ae_pii_flag = False\<rparr> in
     mem_query (with_since ''2024-01-01T00:00:00Z'' query_new) (mem_append e []) = []
   \<and> mem_query (with_since ''2024-01-01T00:00:00+00:00'' query_new) (mem_append e []) = [e]"
  by (simp add: mem_query_def mem_append_def matches_def fails_def with_since_def query_new_def less_char_def)

end
