(* ===== verification/Forgetting.thy ===== *)
theory Forgetting
  imports Prelude
begin

text \<open>
  Controlled forgetting (\<open>crates/core/src/memory/forgetting\<close>): retention policies
  (\<open>policy.rs\<close>), approval gates (\<open>gate.rs\<close>), the ledger (\<open>audit.rs\<close>), the engine with its
  dry run, execution, restore and scheduled purge (\<open>engine.rs\<close>), and simulation drills
  (\<open>simulation.rs\<close>).

  The category of a memory is a type of another crate, here a type variable; of a memory entry
  the record has the fields the engine reads and its content.  The listing of the memory store
  (\<open>store.all()\<close>, which may fail) is an argument of the operations that take it.  Ages are kept in
  seconds where the code divides by 86400, and the texts of reasons as the data they are made of.
\<close>

section \<open>Memory entries\<close>

record 'c mem_entry =
  me_id :: string
  me_category :: 'c
  me_created_at :: string
  me_content :: string

section \<open>Retention policies\<close>

record retention_rule =
  max_age_days :: "64 word option"
  max_count :: "nat option"

definition keep_forever :: retention_rule where
  "keep_forever = \<lparr>max_age_days = None, max_count = None\<rparr>"

definition expire_after :: "64 word \<Rightarrow> retention_rule" where
  "expire_after days = \<lparr>max_age_days = Some days, max_count = None\<rparr>"

definition limit_count :: "nat \<Rightarrow> retention_rule" where
  "limit_count n = \<lparr>max_age_days = None, max_count = Some n\<rparr>"

definition expire_and_limit :: "64 word \<Rightarrow> nat \<Rightarrow> retention_rule" where
  "expire_and_limit days n = \<lparr>max_age_days = Some days, max_count = Some n\<rparr>"

record 'c policy =
  rules :: "('c, retention_rule) hmap"
  default_rule :: retention_rule

definition policy_new :: "'c policy" where
  "policy_new = \<lparr>rules = [], default_rule = keep_forever\<rparr>"

definition set_rule :: "'c \<Rightarrow> retention_rule \<Rightarrow> 'c policy \<Rightarrow> 'c policy" where
  "set_rule c r p = p\<lparr>rules := hm_insert c r (rules p)\<rparr>"

definition rule_for :: "'c policy \<Rightarrow> 'c \<Rightarrow> retention_rule" where
  "rule_for p c = (case hm_get (rules p) c of Some r \<Rightarrow> r | None \<Rightarrow> default_rule p)"

text \<open>The categories the production policy names.\<close>

record 'c categories =
  Conversation :: 'c
  Preference :: 'c
  Decision :: 'c
  Procedure :: 'c
  Fact :: 'c
  CodePattern :: 'c
  ErrorFix :: 'c
  UiInteraction :: 'c
  AppState :: 'c
  ScreenCapture :: 'c
  AutomationTrace :: 'c
  BuildResult :: 'c
  DemoCheckpoint :: 'c

definition default_production :: "'c categories \<Rightarrow> 'c policy" where
  "default_production cs =
     set_rule (DemoCheckpoint cs) (expire_after 90)
     (set_rule (BuildResult cs) (expire_and_limit 14 100)
     (set_rule (AutomationTrace cs) (expire_after 30)
     (set_rule (ScreenCapture cs) (expire_after 14)
     (set_rule (AppState cs) (expire_after 7)
     (set_rule (UiInteraction cs) (expire_after 7)
     (set_rule (ErrorFix cs) (expire_and_limit 90 200)
     (set_rule (CodePattern cs) (expire_and_limit 180 500)
     (set_rule (Fact cs) (expire_and_limit 365 1000)
     (set_rule (Procedure cs) keep_forever
     (set_rule (Decision cs) keep_forever
     (set_rule (Preference cs) keep_forever
     (set_rule (Conversation cs) (expire_and_limit 30 1000) policy_new))))))))))))"

section \<open>The ledger\<close>

datatype audit_action = SoftDeleted | HardPurged | Restored | SimulatedLoss | ScheduledPurgeRan

fun action_str :: "audit_action \<Rightarrow> string" where
  "action_str SoftDeleted = ''soft-deleted''"
| "action_str HardPurged = ''hard-purged''"
| "action_str Restored = ''restored''"
| "action_str SimulatedLoss = ''simulated-loss''"
| "action_str ScheduledPurgeRan = ''scheduled-purge-ran''"

text \<open>Why an entry is eligible: its age in seconds against the days allowed, or the entries of its
  category against the number allowed.\<close>

datatype purge_reason = Expired int "64 word" | OverCount nat nat

datatype ledger_reason =
    Because purge_reason
  | UserRestore
  | WindowExpired nat purge_reason
  | Summary nat nat
  | Drill string

record 'c ledger_entry =
  le_id :: string
  le_memory_id :: string
  le_category :: "'c option"
  le_action :: audit_action
  le_reason :: ledger_reason
  le_timestamp :: string
  le_is_simulation :: bool

text \<open>The identifier and time stamp drawn for the n-th entry of a ledger.\<close>

type_synonym stamps = "nat \<Rightarrow> string \<times> string"

definition ledger_entry_new ::
    "string \<times> string \<Rightarrow> string \<Rightarrow> 'c \<Rightarrow> audit_action \<Rightarrow> ledger_reason \<Rightarrow> bool \<Rightarrow> 'c ledger_entry" where
  "ledger_entry_new st memory_id category action reason is_simulation =
     \<lparr>le_id = fst st, le_memory_id = memory_id, le_category = Some category, le_action = action,
      le_reason = reason, le_timestamp = snd st, le_is_simulation = is_simulation\<rparr>"

definition ledger_aggregate ::
    "string \<times> string \<Rightarrow> audit_action \<Rightarrow> ledger_reason \<Rightarrow> 'c ledger_entry" where
  "ledger_aggregate st action reason =
     \<lparr>le_id = fst st, le_memory_id = [], le_category = None, le_action = action, le_reason = reason,
      le_timestamp = snd st, le_is_simulation = False\<rparr>"

type_synonym 'c ledger = "'c ledger_entry list"

definition ledger_append :: "'c ledger_entry \<Rightarrow> 'c ledger \<Rightarrow> 'c ledger" where
  "ledger_append e l = l @ [e]"

definition entries_by_action :: "audit_action \<Rightarrow> 'c ledger \<Rightarrow> 'c ledger" where
  "entries_by_action a l = filter (\<lambda>e. le_action e = a) l"

section \<open>Reports and gates\<close>

record 'c impact =
  im_memory_id :: string
  im_category :: 'c
  im_age_secs :: int
  im_reason :: purge_reason

record 'c report =
  rp_entries :: "'c impact list"
  rp_total_affected :: nat
  rp_is_dry_run :: bool

type_synonym 'c gate = "'c report \<Rightarrow> bool"

definition auto_approve_gate :: "'c gate" where
  "auto_approve_gate r = True"

definition deny_all_gate :: "'c gate" where
  "deny_all_gate r = False"

definition pre_approved_gate :: "bool \<Rightarrow> 'c gate" where
  "pre_approved_gate approved r = approved"

definition threshold_gate :: "nat \<Rightarrow> 'c gate" where
  "threshold_gate max_affected r = (rp_total_affected r \<le> max_affected)"

section \<open>The engine\<close>

record 'c soft_record =
  sr_entry :: "'c mem_entry"
  sr_expires_at :: time
  sr_reason :: purge_reason

record 'c forgetting =
  soft_deleted :: "(string, 'c soft_record) hmap"
  audit_log :: "'c ledger"
  recovery_window_hours :: "64 word"

definition forgetting_new :: "64 word \<Rightarrow> 'c forgetting" where
  "forgetting_new hours = \<lparr>soft_deleted = [], audit_log = [], recovery_window_hours = hours\<rparr>"

record 'c purge_result =
  pr_soft_deleted_ids :: "string list"
  pr_hard_purged_ids :: "string list"
  pr_audit_entries :: "'c ledger_entry list"

definition purge_result_default :: "'c purge_result" where
  "purge_result_default = \<lparr>pr_soft_deleted_ids = [], pr_hard_purged_ids = [], pr_audit_entries = []\<rparr>"

subsection \<open>The dry run\<close>

text \<open>\<open>by_category.entry(c).or_default().push(e)\<close> over the entries that are not soft-deleted.\<close>

fun group_live ::
    "(string, 'c soft_record) hmap \<Rightarrow> 'c mem_entry list \<Rightarrow> ('c, 'c mem_entry list) hmap
      \<Rightarrow> ('c, 'c mem_entry list) hmap" where
  "group_live sd [] m = m"
| "group_live sd (e # es) m =
     (if hm_contains sd (me_id e) then group_live sd es m
      else group_live sd es
        (hm_insert (me_category e)
          ((case hm_get m (me_category e) of Some xs \<Rightarrow> xs | None \<Rightarrow> []) @ [e]) m))"

fun age_pass ::
    "chrono \<Rightarrow> time \<Rightarrow> time \<Rightarrow> 'c \<Rightarrow> 64 word \<Rightarrow> 'c mem_entry list \<Rightarrow> 'c impact list \<Rightarrow> 'c impact list" where
  "age_pass ch now cutoff c max_age [] eligible = eligible"
| "age_pass ch now cutoff c max_age (e # es) eligible =
     (case parse_rfc3339 ch (me_created_at e) of
        None \<Rightarrow> age_pass ch now cutoff c max_age es eligible
      | Some created \<Rightarrow>
          age_pass ch now cutoff c max_age es
            (if created < cutoff then
               eligible @ [\<lparr>im_memory_id = me_id e, im_category = c,
                 im_age_secs = num_seconds (now - created),
                 im_reason = Expired (num_seconds (now - created)) max_age\<rparr>]
             else eligible))"

fun count_pass ::
    "chrono \<Rightarrow> time \<Rightarrow> 'c \<Rightarrow> nat \<Rightarrow> nat \<Rightarrow> 'c mem_entry list \<Rightarrow> 'c impact list \<Rightarrow> 'c impact list" where
  "count_pass ch now c n mx [] eligible = eligible"
| "count_pass ch now c n mx (e # es) eligible =
     count_pass ch now c n mx es
       (if list_ex (\<lambda>x. im_memory_id x = me_id e) eligible then eligible
        else eligible @ [\<lparr>im_memory_id = me_id e, im_category = c,
          im_age_secs = (case parse_rfc3339 ch (me_created_at e) of
             Some created \<Rightarrow> num_seconds (now - created) | None \<Rightarrow> 0),
          im_reason = OverCount n mx\<rparr>])"

text \<open>The passes over one category; \<open>None\<close> is a panic of the arithmetic on dates.\<close>

definition category_pass ::
    "chrono \<Rightarrow> time \<Rightarrow> 'c policy \<Rightarrow> 'c \<Rightarrow> 'c mem_entry list \<Rightarrow> 'c impact list \<Rightarrow> 'c impact list option" where
  "category_pass ch now p c es eligible =
     (let rule = rule_for p c in
      case (case max_age_days rule of
              None \<Rightarrow> Some eligible
            | Some max_age \<Rightarrow>
                (case td_days ch (sint max_age) of
                   None \<Rightarrow> None
                 | Some d \<Rightarrow>
                     (case dt_add ch now (- d) of
                        None \<Rightarrow> None
                      | Some cutoff \<Rightarrow> Some (age_pass ch now cutoff c max_age es eligible)))) of
        None \<Rightarrow> None
      | Some eligible \<Rightarrow>
          (case max_count rule of
             None \<Rightarrow> Some eligible
           | Some mx \<Rightarrow>
               if mx < length es then
                 Some (count_pass ch now c (length es) mx
                   (take (length es - mx) (sort_key me_created_at es)) eligible)
               else Some eligible))"

fun category_passes ::
    "chrono \<Rightarrow> time \<Rightarrow> 'c policy \<Rightarrow> ('c, 'c mem_entry list) hmap \<Rightarrow> 'c impact list
      \<Rightarrow> 'c impact list option" where
  "category_passes ch now p [] eligible = Some eligible"
| "category_passes ch now p ((c, es) # m) eligible =
     (case category_pass ch now p c es eligible of
        None \<Rightarrow> None
      | Some eligible \<Rightarrow> category_passes ch now p m eligible)"

definition dry_run ::
    "chrono \<Rightarrow> time \<Rightarrow> string + 'c mem_entry list \<Rightarrow> 'c policy \<Rightarrow> 'c forgetting
      \<Rightarrow> (string + 'c report) option" where
  "dry_run ch now listing p s =
     (case listing of
        Inl e \<Rightarrow> Some (Inl e)
      | Inr es \<Rightarrow>
          (case category_passes ch now p (group_live (soft_deleted s) es []) [] of
             None \<Rightarrow> None
           | Some eligible \<Rightarrow> Some (Inr \<lparr>rp_entries = eligible, rp_total_affected = length eligible,
               rp_is_dry_run = True\<rparr>)))"

subsection \<open>Execution\<close>

fun execute_loop ::
    "stamps \<Rightarrow> ('c mem_entry list) \<Rightarrow> time \<Rightarrow> 'c impact list \<Rightarrow> 'c forgetting \<Rightarrow> 'c purge_result
      \<Rightarrow> 'c purge_result \<times> 'c forgetting" where
  "execute_loop st es expires_at [] s res = (res, s)"
| "execute_loop st es expires_at (im # ims) s res =
     (case map_of (rev (map (\<lambda>e. (me_id e, e)) es)) (im_memory_id im) of
        None \<Rightarrow> execute_loop st es expires_at ims s res
      | Some e \<Rightarrow>
          let audit = ledger_entry_new (st (length (audit_log s))) (im_memory_id im) (me_category e)
                SoftDeleted (Because (im_reason im)) False in
          execute_loop st es expires_at ims
            (s\<lparr>soft_deleted := hm_insert (im_memory_id im)
                 \<lparr>sr_entry = e, sr_expires_at = expires_at, sr_reason = im_reason im\<rparr> (soft_deleted s),
               audit_log := ledger_append audit (audit_log s)\<rparr>)
            (res\<lparr>pr_soft_deleted_ids := pr_soft_deleted_ids res @ [im_memory_id im],
                 pr_audit_entries := pr_audit_entries res @ [audit]\<rparr>))"

definition execute ::
    "chrono \<Rightarrow> stamps \<Rightarrow> time \<Rightarrow> string + 'c mem_entry list \<Rightarrow> 'c report \<Rightarrow> 'c gate \<Rightarrow> 'c forgetting
      \<Rightarrow> (string + ('c purge_result \<times> 'c forgetting)) option" where
  "execute ch st now listing rep gate s =
     (if \<not> gate rep then Some (Inr (purge_result_default, s))
      else if rp_entries rep = [] then Some (Inr (purge_result_default, s))
      else
        (case listing of
           Inl e \<Rightarrow> Some (Inl e)
         | Inr es \<Rightarrow>
             (case td_hours ch (sint (recovery_window_hours s)) of
                None \<Rightarrow> None
              | Some w \<Rightarrow>
                  (case dt_add ch now w of
                     None \<Rightarrow> None
                   | Some expires_at \<Rightarrow>
                       Some (Inr (execute_loop st es expires_at (rp_entries rep) s
                         purge_result_default))))))"

subsection \<open>Restore\<close>

definition restore ::
    "stamps \<Rightarrow> time \<Rightarrow> string \<Rightarrow> 'c forgetting \<Rightarrow> (string + 'c mem_entry) \<times> 'c forgetting" where
  "restore st now memory_id s =
     (case hm_get (soft_deleted s) memory_id of
        None \<Rightarrow> (Inl (''restore failed: '' @ [CHR 0x27] @ memory_id @ [CHR 0x27]
                  @ '' not in soft-delete area''), s)
      | Some r \<Rightarrow>
          let guard = hm_remove memory_id (soft_deleted s) in
          if sr_expires_at r < now then
            (Inl (''restore failed: recovery window expired for '' @ [CHR 0x27] @ memory_id @ [CHR 0x27]),
             s\<lparr>soft_deleted := hm_insert memory_id r guard\<rparr>)
          else
            (Inr (sr_entry r),
             s\<lparr>soft_deleted := guard,
               audit_log := ledger_append (ledger_entry_new (st (length (audit_log s))) memory_id
                 (me_category (sr_entry r)) Restored UserRestore False) (audit_log s)\<rparr>))"

definition soft_deleted_ids :: "'c forgetting \<Rightarrow> string list" where
  "soft_deleted_ids s = hm_keys (soft_deleted s)"

definition is_soft_deleted :: "'c forgetting \<Rightarrow> string \<Rightarrow> bool" where
  "is_soft_deleted s memory_id = hm_contains (soft_deleted s) memory_id"

subsection \<open>The scheduled purge\<close>

fun log_hard_purged ::
    "stamps \<Rightarrow> nat \<Rightarrow> (string \<times> 'c \<times> purge_reason) list \<Rightarrow> 'c ledger \<Rightarrow> 'c ledger" where
  "log_hard_purged st hours [] l = l"
| "log_hard_purged st hours ((xid, c, reason) # xs) l =
     log_hard_purged st hours xs
       (ledger_append (ledger_entry_new (st (length l)) xid c HardPurged (WindowExpired hours reason) False) l)"

definition hard_purge_expired ::
    "stamps \<Rightarrow> time \<Rightarrow> 'c forgetting \<Rightarrow> string list \<times> 'c forgetting" where
  "hard_purge_expired st now s =
     (let expired = map (\<lambda>(xid, r). (xid, me_category (sr_entry r), sr_reason r))
            (filter (\<lambda>(xid, r). sr_expires_at r < now) (soft_deleted s));
          ids = map fst expired in
      (ids, s\<lparr>soft_deleted := fold hm_remove ids (soft_deleted s),
              audit_log := log_hard_purged st (unat (recovery_window_hours s)) expired (audit_log s)\<rparr>))"

text \<open>The clock is read by each part: \<open>now1\<close> by the hard purge, \<open>now2\<close> by the dry run, \<open>now3\<close> by the
  execution; the store is listed twice.\<close>

definition run_scheduled_purge ::
    "chrono \<Rightarrow> stamps \<Rightarrow> time \<Rightarrow> time \<Rightarrow> time \<Rightarrow> string + 'c mem_entry list \<Rightarrow> string + 'c mem_entry list
      \<Rightarrow> 'c policy \<Rightarrow> 'c forgetting \<Rightarrow> ((string + 'c purge_result) \<times> 'c forgetting) option" where
  "run_scheduled_purge ch st now1 now2 now3 listing2 listing3 p s =
     (case hard_purge_expired st now1 s of
        (hard_purged, s) \<Rightarrow>
          (case dry_run ch now2 listing2 p s of
             None \<Rightarrow> None
           | Some (Inl e) \<Rightarrow> Some (Inl e, s)
           | Some (Inr rep) \<Rightarrow>
               (case execute ch st now3 listing3 rep auto_approve_gate s of
                  None \<Rightarrow> None
                | Some (Inl e) \<Rightarrow> Some (Inl e, s)
                | Some (Inr (res, s)) \<Rightarrow>
                    let res = res\<lparr>pr_hard_purged_ids := pr_hard_purged_ids res @ hard_purged\<rparr> in
                    Some (Inr res,
                      s\<lparr>audit_log := ledger_append (ledger_aggregate (st (length (audit_log s)))
                          ScheduledPurgeRan (Summary (length (pr_soft_deleted_ids res))
                            (length (pr_hard_purged_ids res)))) (audit_log s)\<rparr>))))"

section \<open>Simulation drills\<close>

text \<open>The fraction is a single-precision float: \<open>scale f n\<close> stands for
  \<open>(n as f32 * f.clamp(0.0, 1.0)).round() as usize\<close>.\<close>

record ('c, 'f) drill =
  dr_name :: string
  dr_categories :: "'c list"
  dr_fraction :: 'f
  dr_reason :: string

fun drill_loop :: "stamps \<Rightarrow> string \<Rightarrow> 'c mem_entry list \<Rightarrow> 'c ledger \<Rightarrow> 'c ledger \<Rightarrow> 'c ledger \<times> 'c ledger" where
  "drill_loop st reason [] simulated l = (simulated, l)"
| "drill_loop st reason (e # es) simulated l =
     (let audit = ledger_entry_new (st (length l)) (me_id e) (me_category e) SimulatedLoss (Drill reason) True in
      drill_loop st reason es (simulated @ [audit]) (ledger_append audit l))"

definition run_drill ::
    "('f \<Rightarrow> nat \<Rightarrow> nat) \<Rightarrow> stamps \<Rightarrow> 'c mem_entry list \<Rightarrow> ('c, 'f) drill \<Rightarrow> 'c ledger
      \<Rightarrow> 'c ledger \<times> 'c ledger" where
  "run_drill scale st es d l =
     (let candidates = (if dr_categories d = [] then es
            else filter (\<lambda>e. me_category e \<in> set (dr_categories d)) es);
          loss_count = scale (dr_fraction d) (length candidates) in
      drill_loop st (dr_reason d) (take loss_count candidates) [] l)"

section \<open>What a dry run lists\<close>

definition live :: "(string, 'c soft_record) hmap \<Rightarrow> 'c mem_entry list \<Rightarrow> 'c \<Rightarrow> 'c mem_entry list" where
  "live sd es c = filter (\<lambda>e. \<not> hm_contains sd (me_id e) \<and> me_category e = c) es"

definition or_default :: "'a list option \<Rightarrow> 'a list" where
  "or_default x = (case x of Some xs \<Rightarrow> xs | None \<Rightarrow> [])"

lemma group_live_get:
  "or_default (hm_get (group_live sd es m) c) = or_default (hm_get m c) @ live sd es c"
proof (induction sd es m rule: group_live.induct)
  case (2 sd e es m)
  then show ?case by (auto simp: live_def or_default_def hm_simps split: option.splits)
qed (simp add: live_def)

lemma group_live_ok: "hm_ok m \<Longrightarrow> hm_ok (group_live sd es m)"
  by (induction sd es m rule: group_live.induct) (auto simp: hm_simps)

lemma group_live_nonempty:
  "hm_all (\<lambda>c xs. xs \<noteq> []) m \<Longrightarrow> hm_all (\<lambda>c xs. xs \<noteq> []) (group_live sd es m)"
  by (induction sd es m rule: group_live.induct) (auto simp: hm_simps)

lemma group_live_set:
  "(c, xs) \<in> set (group_live sd es []) \<longleftrightarrow> xs = live sd es c \<and> xs \<noteq> []"
proof -
  let ?g = "group_live sd es []"
  have ok: "hm_ok ?g" and ne: "hm_all (\<lambda>c xs. xs \<noteq> []) ?g"
    by (simp_all add: group_live_ok group_live_nonempty hm_simps)
  have "(c, xs) \<in> set ?g \<longleftrightarrow> hm_get ?g c = Some xs"
    using ok by (simp add: hm_get_def hm_ok_def)
  moreover have "or_default (hm_get ?g c) = live sd es c"
    using group_live_get [of sd es "[]" c] by (simp add: hm_simps or_default_def)
  ultimately show ?thesis using ne
    by (cases "hm_get ?g c") (auto simp: or_default_def dest: hm_all_get)
qed

text \<open>The oldest time a rule keeps: \<open>None\<close> if the arithmetic panics, \<open>Some None\<close> without a limit.\<close>

definition cutoff :: "chrono \<Rightarrow> time \<Rightarrow> retention_rule \<Rightarrow> time option option" where
  "cutoff ch now r = (case max_age_days r of None \<Rightarrow> Some None
     | Some d \<Rightarrow> map_option Some (Option.bind (td_days ch (sint d)) (\<lambda>w. dt_add ch now (- w))))"

definition older :: "chrono \<Rightarrow> time \<Rightarrow> 'c mem_entry \<Rightarrow> bool" where
  "older ch t e = (case parse_rfc3339 ch (me_created_at e) of Some created \<Rightarrow> created < t | None \<Rightarrow> False)"

definition expired :: "chrono \<Rightarrow> time \<Rightarrow> retention_rule \<Rightarrow> 'c mem_entry \<Rightarrow> bool" where
  "expired ch now r e = (case cutoff ch now r of Some (Some t) \<Rightarrow> older ch t e | _ \<Rightarrow> False)"

definition surplus :: "retention_rule \<Rightarrow> 'c mem_entry list \<Rightarrow> 'c mem_entry list" where
  "surplus r es = (case max_count r of None \<Rightarrow> []
     | Some n \<Rightarrow> take (length es - n) (sort_key me_created_at es))"

definition doomed :: "chrono \<Rightarrow> time \<Rightarrow> retention_rule \<Rightarrow> 'c mem_entry list \<Rightarrow> string set" where
  "doomed ch now r es = me_id ` (set (filter (expired ch now r) es) \<union> set (surplus r es))"

definition ids :: "'c impact list \<Rightarrow> string set" where
  "ids ims = im_memory_id ` set ims"

lemma ids_simps [simp]: "ids [] = {}" "ids (xs @ ys) = ids xs \<union> ids ys" "ids (x # xs) = insert (im_memory_id x) (ids xs)"
  by (auto simp: ids_def)

lemma ids_age_pass:
  "ids (age_pass ch now t c d es el) = ids el \<union> me_id ` set (filter (older ch t) es)"
proof (induction es arbitrary: el)
  case (Cons e es)
  show ?case
    by (cases "parse_rfc3339 ch (me_created_at e)") (simp_all add: Cons.IH older_def [of ch t e])
qed simp

lemma list_ex_ids: "list_ex (\<lambda>x. im_memory_id x = k) el \<longleftrightarrow> k \<in> ids el"
  by (auto simp: list_ex_iff ids_def)

lemma ids_count_pass: "ids (count_pass ch now c n mx es el) = ids el \<union> me_id ` set es"
  by (induction ch now c n mx es el rule: count_pass.induct) (auto simp: list_ex_ids)

lemma category_pass_None: "category_pass ch now p c es el = None \<longleftrightarrow> cutoff ch now (rule_for p c) = None"
  by (auto simp: category_pass_def cutoff_def Let_def split: option.splits)

lemma category_pass_ids:
  assumes "category_pass ch now p c es el = Some el'"
  shows "ids el' = ids el \<union> doomed ch now (rule_for p c) es"
proof -
  let ?r = "rule_for p c"
  define el1 where "el1 = (case cutoff ch now ?r of Some (Some t) \<Rightarrow> age_pass ch now t c (the (max_age_days ?r)) es el | _ \<Rightarrow> el)"
  have 1: "ids el1 = ids el \<union> me_id ` set (filter (expired ch now ?r) es)"
    by (auto simp: el1_def ids_age_pass expired_def split: option.splits)
  have "ids el' = ids el1 \<union> me_id ` set (surplus ?r es)"
    using assms by (auto simp: category_pass_def cutoff_def el1_def surplus_def ids_count_pass Let_def
      split: option.splits if_splits)
  with 1 show ?thesis by (auto simp: doomed_def)
qed

lemma category_passes_ids:
  "category_passes ch now p m el = Some el' \<Longrightarrow>
     ids el' = ids el \<union> (\<Union>(c, es) \<in> set m. doomed ch now (rule_for p c) es)"
proof (induction m arbitrary: el)
  case (Cons ces m)
  obtain c es where "ces = (c, es)" by (cases ces)
  then show ?case using Cons by (auto dest!: category_pass_ids split: option.splits)
qed simp

lemma category_passes_None:
  "category_passes ch now p m el = None \<longleftrightarrow> (\<exists>(c, es) \<in> set m. cutoff ch now (rule_for p c) = None)"
proof (induction m arbitrary: el)
  case (Cons ces m)
  obtain c es where "ces = (c, es)" by (cases ces)
  then show ?case using Cons category_pass_None [of ch now p c es el] by (auto split: option.splits)
qed simp

lemma dry_run_ids:
  assumes "dry_run ch now (Inr es) p s = Some (Inr rep)"
  shows "ids (rp_entries rep) = (\<Union>c. doomed ch now (rule_for p c) (live (soft_deleted s) es c))"
    and "rp_total_affected rep = length (rp_entries rep)"
proof -
  have d: "doomed ch now r [] = {}" for r by (auto simp: doomed_def surplus_def split: option.split)
  obtain el where el: "category_passes ch now p (group_live (soft_deleted s) es []) [] = Some el"
    and rep: "rp_entries rep = el" "rp_total_affected rep = length el"
    using assms by (auto simp: dry_run_def split: option.splits)
  have "ids el = (\<Union>(c, xs) \<in> set (group_live (soft_deleted s) es []). doomed ch now (rule_for p c) xs)"
    using category_passes_ids [OF el] by simp
  also have "\<dots> = (\<Union>c. doomed ch now (rule_for p c) (live (soft_deleted s) es c))"
  proof (intro equalityI subsetI)
    fix k assume "k \<in> (\<Union>c. doomed ch now (rule_for p c) (live (soft_deleted s) es c))"
    then obtain c where c: "k \<in> doomed ch now (rule_for p c) (live (soft_deleted s) es c)" by blast
    then have "live (soft_deleted s) es c \<noteq> []" using d by force
    then have "(c, live (soft_deleted s) es c) \<in> set (group_live (soft_deleted s) es [])"
      by (simp add: group_live_set)
    with c show "k \<in> (\<Union>(c, xs) \<in> set (group_live (soft_deleted s) es []). doomed ch now (rule_for p c) xs)"
      by blast
  qed (auto simp: group_live_set)
  finally show "ids (rp_entries rep) = (\<Union>c. doomed ch now (rule_for p c) (live (soft_deleted s) es c))"
    and "rp_total_affected rep = length (rp_entries rep)" by (simp_all add: rep)
qed

section \<open>What an execution does\<close>

definition stored_entry :: "'c mem_entry list \<Rightarrow> string \<Rightarrow> 'c mem_entry option" where
  "stored_entry es k = map_of (rev (map (\<lambda>e. (me_id e, e)) es)) k"

lemma stored_entry_None: "stored_entry es k = None \<longleftrightarrow> k \<notin> me_id ` set es"
  by (force simp: stored_entry_def map_of_eq_None_iff image_iff)

lemma stored_entry_Some: "stored_entry es k = Some e \<Longrightarrow> e \<in> set es \<and> me_id e = k"
  by (auto simp: stored_entry_def dest!: map_of_SomeD)

lemmas execute_loop_Cons = execute_loop.simps(2) [folded stored_entry_def]

lemma execute_loop_frame:
  "execute_loop st es x ims s res = (res', s') \<Longrightarrow>
     recovery_window_hours s' = recovery_window_hours s \<and> pr_hard_purged_ids res' = pr_hard_purged_ids res
     \<and> length (pr_soft_deleted_ids res') \<le> length (pr_soft_deleted_ids res) + length ims
     \<and> (hm_ok (soft_deleted s) \<longrightarrow> hm_ok (soft_deleted s'))"
proof (induction ims arbitrary: s res)
  case (Cons im ims)
  then show ?case
    by (cases "stored_entry es (im_memory_id im)")
      (fastforce simp: execute_loop_Cons Let_def hm_simps simp del: execute_loop.simps(2))+
qed simp

lemma execute_loop_get:
  assumes "execute_loop st es x ims s res = (res', s')"
  shows "(k \<notin> ids ims \<or> stored_entry es k = None \<longrightarrow> hm_get (soft_deleted s') k = hm_get (soft_deleted s) k)
    \<and> (\<forall>e. k \<in> ids ims \<longrightarrow> stored_entry es k = Some e \<longrightarrow>
         (\<exists>q. hm_get (soft_deleted s') k = Some \<lparr>sr_entry = e, sr_expires_at = x, sr_reason = q\<rparr>))"
  using assms
proof (induction ims arbitrary: s res)
  case (Cons im ims)
  show ?case
  proof (cases "stored_entry es (im_memory_id im)")
    case None
    then show ?thesis using Cons by (auto simp: execute_loop_Cons simp del: execute_loop.simps(2))
  next
    case (Some e)
    let ?s = "s\<lparr>soft_deleted := hm_insert (im_memory_id im)
         \<lparr>sr_entry = e, sr_expires_at = x, sr_reason = im_reason im\<rparr> (soft_deleted s),
       audit_log := ledger_append (ledger_entry_new (st (length (audit_log s))) (im_memory_id im)
         (me_category e) SoftDeleted (Because (im_reason im)) False) (audit_log s)\<rparr>"
    obtain r where r: "execute_loop st es x ims ?s r = (res', s')"
      using Cons.prems Some by (auto simp: execute_loop_Cons Let_def simp del: execute_loop.simps(2))
    from Cons.IH [OF r] Some show ?thesis
      by (cases "k \<in> ids ims") (auto simp: hm_simps)
  qed
qed simp

lemma execute_loop_listed:
  "execute_loop st es x ims s res = (res', s') \<Longrightarrow>
     pr_soft_deleted_ids res' = pr_soft_deleted_ids res
       @ filter (\<lambda>k. k \<in> me_id ` set es) (map im_memory_id ims)"
proof (induction ims arbitrary: s res)
  case (Cons im ims)
  then show ?case using stored_entry_None [of es "im_memory_id im"]
    by (cases "stored_entry es (im_memory_id im)")
      (auto simp: execute_loop_Cons Let_def simp del: execute_loop.simps(2))
qed simp

section \<open>After an execution\<close>

text \<open>The soft-deleted entries of \<open>s'\<close> are those of \<open>s\<close> and the listed identifiers of the store.\<close>

definition extends_soft :: "'c mem_entry list \<Rightarrow> string set \<Rightarrow> 'c forgetting \<Rightarrow> 'c forgetting \<Rightarrow> bool" where
  "extends_soft es D s s' \<longleftrightarrow> (\<forall>k. hm_contains (soft_deleted s') k \<longleftrightarrow>
     hm_contains (soft_deleted s) k \<or> (k \<in> D \<and> k \<in> me_id ` set es))"

lemma execute_soft:
  assumes "execute ch st now (Inr es) rep gate s = Some (Inr (res, s'))" and "gate rep"
  shows "extends_soft es (ids (rp_entries rep)) s s'"
    and "pr_soft_deleted_ids res = filter (\<lambda>k. k \<in> me_id ` set es) (map im_memory_id (rp_entries rep))"
proof -
  have "extends_soft es (ids (rp_entries rep)) s s'
    \<and> pr_soft_deleted_ids res = filter (\<lambda>k. k \<in> me_id ` set es) (map im_memory_id (rp_entries rep))"
  proof (cases "rp_entries rep = []")
    case True
    then show ?thesis using assms by (auto simp: execute_def extends_soft_def purge_result_default_def)
  next
    case False
    then obtain x where x: "execute_loop st es x (rp_entries rep) s purge_result_default = (res, s')"
      using assms by (auto simp: execute_def split: option.splits)
    have "hm_contains (soft_deleted s') k \<longleftrightarrow>
        hm_contains (soft_deleted s) k \<or> (k \<in> ids (rp_entries rep) \<and> k \<in> me_id ` set es)" for k
    proof (cases "k \<in> ids (rp_entries rep) \<and> k \<in> me_id ` set es")
      case True
      then obtain e where "stored_entry es k = Some e" using stored_entry_None [of es k] by blast
      with execute_loop_get [OF x, of k] True have "hm_contains (soft_deleted s') k"
        by (auto simp: hm_contains_def)
      with True show ?thesis by blast
    next
      case False
      then have "hm_get (soft_deleted s') k = hm_get (soft_deleted s) k"
        using execute_loop_get [OF x, of k] stored_entry_None [of es k] by metis
      with False show ?thesis by (auto simp: hm_contains_def)
    qed
    then show ?thesis using execute_loop_listed [OF x]
      by (simp add: extends_soft_def purge_result_default_def)
  qed
  then show "extends_soft es (ids (rp_entries rep)) s s'"
    and "pr_soft_deleted_ids res = filter (\<lambda>k. k \<in> me_id ` set es) (map im_memory_id (rp_entries rep))"
    by auto
qed

lemma filter_drop_bound:
  assumes "mset ys = mset xs" and "\<forall>x \<in> set (take (length xs - n) ys). \<not> P x"
  shows "length (filter P xs) \<le> n"
proof -
  have "mset (filter P xs) = mset (filter P ys)" using assms(1) by (simp add: mset_filter)
  then have "length (filter P xs) = length (filter P ys)" by (metis size_mset)
  also have "filter P ys = filter P (take (length xs - n) ys @ drop (length xs - n) ys)" by simp
  also have "length \<dots> \<le> length (drop (length xs - n) ys)"
  proof -
    have "filter P (take (length xs - n) ys) = []" using assms(2) by (simp add: filter_empty_conv)
    then show ?thesis using length_filter_le [of P "drop (length xs - n) ys"] by (simp only: filter_append) simp
  qed
  also have "\<dots> \<le> n" using mset_eq_length [OF assms(1)] by simp
  finally show ?thesis .
qed

text \<open>What stays live of a category.\<close>

lemma live_after:
  assumes soft: "extends_soft es D s s'" and D: "D = (\<Union>c. doomed ch now (rule_for p c) (live (soft_deleted s) es c))"
    and dist: "distinct (map me_id es)"
  shows "live (soft_deleted s') es c =
    filter (\<lambda>e. me_id e \<notin> doomed ch now (rule_for p c) (live (soft_deleted s) es c)) (live (soft_deleted s) es c)"
proof -
  let ?l = "live (soft_deleted s) es"
  have sub: "k \<in> me_id ` set (?l c)" if "k \<in> doomed ch now (rule_for p c) (?l c)" for k c
    using that by (auto simp: doomed_def surplus_def split: option.splits dest!: in_set_takeD)
  have "me_id e \<in> D \<longleftrightarrow> me_id e \<in> doomed ch now (rule_for p c) (?l c)" if e: "e \<in> set (?l c)" for e
  proof
    assume "me_id e \<in> D"
    then obtain c' where c': "me_id e \<in> doomed ch now (rule_for p c') (?l c')" using D by blast
    from sub [OF this] obtain e' where "e' \<in> set (?l c')" "me_id e' = me_id e" by auto
    moreover from this have "e' = e" using dist e by (auto simp: live_def distinct_map dest: inj_onD)
    ultimately have "c' = c" using e by (simp add: live_def)
    with c' show "me_id e \<in> doomed ch now (rule_for p c) (?l c)" by simp
  qed (use D in blast)
  then have *: "filter (\<lambda>e. me_id e \<notin> D) (?l c) = filter (\<lambda>e. me_id e \<notin> doomed ch now (rule_for p c) (?l c)) (?l c)"
    by (intro filter_cong) auto
  have "live (soft_deleted s') es c = filter (\<lambda>e. me_id e \<notin> D) (?l c)"
    using soft by (auto simp: live_def extends_soft_def intro!: filter_cong)
  with * show ?thesis by simp
qed

definition within_policy :: "chrono \<Rightarrow> time \<Rightarrow> 'c policy \<Rightarrow> 'c forgetting \<Rightarrow> 'c mem_entry list \<Rightarrow> bool" where
  "within_policy ch now p s es \<longleftrightarrow> (\<forall>c.
     (\<forall>n. max_count (rule_for p c) = Some n \<longrightarrow> length (live (soft_deleted s) es c) \<le> n)
     \<and> (\<forall>e \<in> set (live (soft_deleted s) es c). \<not> expired ch now (rule_for p c) e))"

lemma within_policy_after:
  assumes "extends_soft es (ids (rp_entries rep)) s s'" and "distinct (map me_id es)"
    and "dry_run ch now (Inr es) p s = Some (Inr rep)"
  shows "within_policy ch now p s' es"
  unfolding within_policy_def
proof (intro allI conjI impI ballI)
  fix c n
  let ?l = "live (soft_deleted s) es c" and ?r = "rule_for p c"
  have l: "live (soft_deleted s') es c = filter (\<lambda>e. me_id e \<notin> doomed ch now ?r ?l) ?l"
    using live_after [OF assms(1) dry_run_ids(1) [OF assms(3)] assms(2)] .
  show "length (live (soft_deleted s') es c) \<le> n" if "max_count ?r = Some n"
    unfolding l
    by (rule filter_drop_bound [where ys = "sort_key me_created_at ?l"])
      (use that in \<open>auto simp: doomed_def surplus_def\<close>)
  show "\<not> expired ch now ?r e" if "e \<in> set (live (soft_deleted s') es c)" for e
    using that unfolding l by (auto simp: doomed_def)
qed

lemma within_policy_dry_run:
  assumes wp: "within_policy ch now p s' es" and soft: "extends_soft es D s s'"
    and "dry_run ch now (Inr es) p s = Some (Inr rep)"
  shows "dry_run ch now (Inr es) p s' = Some (Inr \<lparr>rp_entries = [], rp_total_affected = 0, rp_is_dry_run = True\<rparr>)"
proof -
  have sub: "set (live (soft_deleted s') es c) \<subseteq> set (live (soft_deleted s) es c)" for c
    using soft by (auto simp: live_def extends_soft_def)
  have "category_passes ch now p (group_live (soft_deleted s) es []) [] \<noteq> None"
    using assms(3) by (auto simp: dry_run_def split: option.splits)
  have ok: "cutoff ch now (rule_for p c) \<noteq> None" if "live (soft_deleted s) es c \<noteq> []" for c
  proof -
    have "(c, live (soft_deleted s) es c) \<in> set (group_live (soft_deleted s) es [])"
      using that by (simp add: group_live_set)
    then show ?thesis
      using \<open>category_passes ch now p (group_live (soft_deleted s) es []) [] \<noteq> None\<close>
      unfolding category_passes_None by blast
  qed
  have "cutoff ch now (rule_for p c) \<noteq> None" if "(c, xs) \<in> set (group_live (soft_deleted s') es [])" for c xs
  proof (rule ok)
    have "live (soft_deleted s') es c \<noteq> []" using that group_live_set by metis
    with sub [of c] show "live (soft_deleted s) es c \<noteq> []" by auto
  qed
  then have "category_passes ch now p (group_live (soft_deleted s') es []) [] \<noteq> None"
    unfolding category_passes_None by blast
  then obtain el where el: "category_passes ch now p (group_live (soft_deleted s') es []) [] = Some el"
    by blast
  have "doomed ch now (rule_for p c) (live (soft_deleted s') es c) = {}" for c
    using wp by (auto simp: within_policy_def doomed_def surplus_def split: option.split)
  then have "ids el = {}" using category_passes_ids [OF el] by (auto simp: group_live_set)
  then have "el = []" by (cases el) auto
  with el show ?thesis by (simp add: dry_run_def)
qed

section \<open>Recovery\<close>

lemma execute_expiry:
  assumes "execute ch st now (Inr es) rep gate s = Some (Inr (res, s'))"
    and "k \<in> set (pr_soft_deleted_ids res)"
    and "td_hours ch (sint (recovery_window_hours s)) = Some w" and "dt_add ch now w = Some x"
  shows "\<exists>e q. hm_get (soft_deleted s') k = Some \<lparr>sr_entry = e, sr_expires_at = x, sr_reason = q\<rparr>
    \<and> e \<in> set es \<and> me_id e = k"
proof -
  have l: "execute_loop st es x (rp_entries rep) s purge_result_default = (res, s')"
    using assms by (auto simp: execute_def purge_result_default_def split: if_splits)
  have k: "k \<in> ids (rp_entries rep)" "k \<in> me_id ` set es"
    using assms(2) execute_loop_listed [OF l] by (auto simp: purge_result_default_def ids_def)
  then obtain e where e: "stored_entry es k = Some e" using stored_entry_None [of es k] by auto
  from execute_loop_get [OF l, of k] k(1) e stored_entry_Some [OF e] show ?thesis by blast
qed

lemma restore_known:
  assumes "hm_get (soft_deleted s) k = Some \<lparr>sr_entry = e, sr_expires_at = x, sr_reason = q\<rparr>"
  shows "fst (restore st now k s) = Inr e \<longleftrightarrow> now \<le> x"
    and "now \<le> x \<Longrightarrow> \<not> is_soft_deleted (snd (restore st now k s)) k"
    and "x < now \<Longrightarrow> hm_get (soft_deleted (snd (restore st now k s))) = hm_get (soft_deleted s)
      \<and> audit_log (snd (restore st now k s)) = audit_log s"
    and "k' \<noteq> k \<Longrightarrow> hm_get (soft_deleted (snd (restore st now k s))) k' = hm_get (soft_deleted s) k'"
  using assms by (auto simp: restore_def Let_def is_soft_deleted_def hm_contains_def hm_simps fun_eq_iff)

section \<open>Gates\<close>

text \<open>The contract of a gate: if it lets a report pass it lets every smaller one pass.\<close>

locale approval_gate =
  fixes gate :: "'c gate"
  assumes antitone: "rp_total_affected r \<le> rp_total_affected r' \<Longrightarrow> gate r' \<Longrightarrow> gate r"
begin

lemma denied_larger:
  assumes "\<not> gate r" and "rp_total_affected r \<le> rp_total_affected r'"
  shows "execute ch st now listing r' gate s = Some (Inr (purge_result_default, s))"
  using assms antitone [of r r'] by (auto simp: execute_def)

end

interpretation auto_approve: approval_gate auto_approve_gate
  by unfold_locales (simp add: auto_approve_gate_def)

interpretation deny_all: approval_gate deny_all_gate
  by unfold_locales (simp add: deny_all_gate_def)

interpretation pre_approved: approval_gate "pre_approved_gate b" for b
  by unfold_locales (simp add: pre_approved_gate_def)

interpretation threshold: approval_gate "threshold_gate n" for n
  by unfold_locales (simp add: threshold_gate_def)

section \<open>The ledger\<close>

interpretation forget_log: append_log ledger_append "\<lambda>l. l"
  by unfold_locales (simp add: ledger_append_def)

lemma execute_loop_log:
  "execute_loop st es x ims s res = (res', s') \<Longrightarrow> prefix (audit_log s) (audit_log s')"
proof (induction ims arbitrary: s res)
  case (Cons im ims)
  show ?case
  proof (cases "stored_entry es (im_memory_id im)")
    case None
    then show ?thesis using Cons by (simp add: execute_loop_Cons del: execute_loop.simps(2))
  next
    case (Some e)
    then show ?thesis using Cons.prems
      by (auto simp: execute_loop_Cons Let_def ledger_append_def simp del: execute_loop.simps(2)
        dest!: Cons.IH append_prefixD)
  qed
qed simp

lemma log_hard_purged_prefix: "prefix l (log_hard_purged st h xs l)"
  by (induction st h xs l rule: log_hard_purged.induct) (auto simp: ledger_append_def dest: append_prefixD)

lemma drill_loop_prefix: "prefix l (snd (drill_loop st r es sim l))"
  by (induction st r es sim l rule: drill_loop.induct)
    (auto simp: ledger_append_def Let_def dest: append_prefixD)

text \<open>The calls of the engine; a call that fails or panics leaves the state as it is.\<close>

datatype 'c fg_call =
    Execute time "string + 'c mem_entry list" "'c report" "'c gate"
  | RestoreCall time string
  | Scheduled time time time "string + 'c mem_entry list" "string + 'c mem_entry list" "'c policy"
  | DrillCall "'c list" nat string "'c mem_entry list"

fun fg_step :: "chrono \<Rightarrow> stamps \<Rightarrow> 'c fg_call \<Rightarrow> 'c forgetting \<Rightarrow> 'c forgetting" where
  "fg_step ch st (Execute now listing rep gate) s =
     (case execute ch st now listing rep gate s of Some (Inr (res, s')) \<Rightarrow> s' | _ \<Rightarrow> s)"
| "fg_step ch st (RestoreCall now k) s = snd (restore st now k s)"
| "fg_step ch st (Scheduled n1 n2 n3 l2 l3 p) s =
     (case run_scheduled_purge ch st n1 n2 n3 l2 l3 p s of Some (r, s') \<Rightarrow> s' | None \<Rightarrow> s)"
| "fg_step ch st (DrillCall cs n reason es) s =
     s\<lparr>audit_log := snd (run_drill (\<lambda>f k. min f k) st es
        \<lparr>dr_name = [], dr_categories = cs, dr_fraction = n, dr_reason = reason\<rparr> (audit_log s))\<rparr>"

lemma execute_log:
  "execute ch st now listing rep gate s = Some (Inr (res, s')) \<Longrightarrow> prefix (audit_log s) (audit_log s')"
  by (auto simp: execute_def split: if_splits sum.splits option.splits dest: execute_loop_log)

lemma hard_purge_log: "prefix (audit_log s) (audit_log (snd (hard_purge_expired st now s)))"
  by (simp add: hard_purge_expired_def Let_def log_hard_purged_prefix)

lemma scheduled_log:
  assumes "run_scheduled_purge ch st n1 n2 n3 l2 l3 p s = Some (r, s')"
  shows "prefix (audit_log s) (audit_log s')"
proof -
  obtain hp s1 where h: "hard_purge_expired st n1 s = (hp, s1)" by fastforce
  then have 1: "prefix (audit_log s) (audit_log s1)" using hard_purge_log [of s st n1] by simp
  from assms h show ?thesis
    by (auto simp: run_scheduled_purge_def Let_def ledger_append_def split: option.splits sum.splits
      dest!: execute_log intro: prefix_order.trans [OF 1])
qed

lemma fg_step_log: "prefix (audit_log s) (audit_log (fg_step ch st c s))"
proof (cases c)
  case (Scheduled n1 n2 n3 l2 l3 p)
  then show ?thesis by (auto split: option.splits dest: scheduled_log)
next
  case (DrillCall cs n reason es)
  then show ?thesis by (simp add: run_drill_def Let_def drill_loop_prefix)
qed (auto simp: restore_def Let_def ledger_append_def split: option.splits sum.splits dest: execute_log)

section \<open>A hard purge and the next run\<close>

lemma fold_hm_remove: "hm_get (fold hm_remove ks m) k = (if k \<in> set ks then None else hm_get m k)"
  by (induction ks arbitrary: m) (auto simp: hm_simps)

lemma hard_purge_ids:
  assumes "hm_ok (soft_deleted s)" and "hard_purge_expired st now s = (hp, s')"
  shows "k \<in> set hp \<longleftrightarrow> (\<exists>r. hm_get (soft_deleted s) k = Some r \<and> sr_expires_at r < now)"
    and "hm_get (soft_deleted s') k = (if k \<in> set hp then None else hm_get (soft_deleted s) k)"
    and "recovery_window_hours s' = recovery_window_hours s"
proof -
  have "set hp = {k. \<exists>r. (k, r) \<in> set (soft_deleted s) \<and> sr_expires_at r < now}"
    using assms(2) by (force simp: hard_purge_expired_def Let_def)
  then show "k \<in> set hp \<longleftrightarrow> (\<exists>r. hm_get (soft_deleted s) k = Some r \<and> sr_expires_at r < now)"
    using assms(1) by (auto simp: hm_get_def hm_ok_def)
  show "hm_get (soft_deleted s') k = (if k \<in> set hp then None else hm_get (soft_deleted s) k)"
    and "recovery_window_hours s' = recovery_window_hours s"
    using assms(2) by (auto simp: hard_purge_expired_def Let_def fold_hm_remove)
qed

section \<open>Properties\<close>

text \<open>C34: A purge brings the memory within its policy and takes nothing else.  Executing the report of a
  dry run, once a gate lets it pass, leaves of every category at most the number of entries its rule
  allows and no entry that is older than its rule allows; exactly the entries of the report become
  soft-deleted; and a second dry run at the same time finds nothing left to purge.\<close>

theorem purge_meets_policy:
  assumes "distinct (map me_id es)" and "dry_run ch now (Inr es) p s = Some (Inr rep)" and "gate rep"
    and "execute ch st now' (Inr es) rep gate s = Some (Inr (res, s'))"
  shows "within_policy ch now p s' es
    \<and> (\<forall>k. is_soft_deleted s' k \<longleftrightarrow> is_soft_deleted s k \<or> k \<in> set (pr_soft_deleted_ids res))
    \<and> set (pr_soft_deleted_ids res) = ids (rp_entries rep)
    \<and> dry_run ch now (Inr es) p s' = Some (Inr \<lparr>rp_entries = [], rp_total_affected = 0, rp_is_dry_run = True\<rparr>)"
proof -
  note soft = execute_soft [OF assms(4,3)]
  have sub: "ids (rp_entries rep) \<subseteq> me_id ` set es"
    using dry_run_ids(1) [OF assms(2)]
    by (auto simp: doomed_def surplus_def live_def split: option.splits dest!: in_set_takeD)
  then have listed: "set (pr_soft_deleted_ids res) = ids (rp_entries rep)"
    by (auto simp: soft(2) ids_def)
  have "is_soft_deleted s' k \<longleftrightarrow> is_soft_deleted s k \<or> k \<in> set (pr_soft_deleted_ids res)" for k
    using soft(1) sub by (auto simp: is_soft_deleted_def extends_soft_def listed)
  moreover have "within_policy ch now p s' es" by (rule within_policy_after [OF soft(1) assms(1,2)])
  moreover from within_policy_dry_run [OF this soft(1) assms(2)]
  have "dry_run ch now (Inr es) p s' = Some (Inr \<lparr>rp_entries = [], rp_total_affected = 0, rp_is_dry_run = True\<rparr>)" .
  ultimately show ?thesis using listed by blast
qed

definition unary_chrono :: chrono where
  "unary_chrono = \<lparr>td_seconds = Some, td_hours = Some, td_days = Some, dt_add = (\<lambda>t d. Some (t + d)),
     dt_minute = (\<lambda>_. 0), dt_hour = (\<lambda>_. 0), dt_day = (\<lambda>_. 1), dt_month = (\<lambda>_. 1), dt_weekday = (\<lambda>_. 0),
     to_rfc3339 = (\<lambda>t. replicate (nat t) CHR ''x''), parse_rfc3339 = (\<lambda>s. Some (int (length s)))\<rparr>"

definition sample_entries :: "bool mem_entry list" where
  "sample_entries =
     [\<lparr>me_id = ''a'', me_category = True, me_created_at = ''x'', me_content = []\<rparr>,
      \<lparr>me_id = ''b'', me_category = True, me_created_at = ''xxxx'', me_content = []\<rparr>,
      \<lparr>me_id = ''c'', me_category = False, me_created_at = [], me_content = []\<rparr>]"

definition sample_policy :: "bool policy" where
  "sample_policy = set_rule True (expire_and_limit 8 1) policy_new"

lemmas forget_eval =
  dry_run_def sample_entries_def sample_policy_def policy_new_def set_rule_def rule_for_def
  expire_and_limit_def keep_forever_def category_pass_def unary_chrono_def execute_def hm_contains_def
  hm_get_def hm_insert_def forgetting_new_def ledger_append_def ledger_entry_new_def purge_result_default_def
  auto_approve_gate_def Let_def num_seconds_def nanos_per_sec_def

theorem purge_meets_policy_witness:
  "\<exists>rep res s'. dry_run unary_chrono 10 (Inr sample_entries) sample_policy (forgetting_new 24) = Some (Inr rep)
    \<and> execute unary_chrono (\<lambda>n. ([], [])) 11 (Inr sample_entries) rep auto_approve_gate (forgetting_new 24)
        = Some (Inr (res, s'))
    \<and> within_policy unary_chrono 10 sample_policy s' sample_entries
    \<and> set (pr_soft_deleted_ids res) = {''a''}"
proof -
  obtain rep where rep: "dry_run unary_chrono 10 (Inr sample_entries) sample_policy (forgetting_new 24)
      = Some (Inr rep)" and ids: "ids (rp_entries rep) = {''a''}"
    by (simp add: forget_eval)
  obtain res s' where ex: "execute unary_chrono (\<lambda>n. ([], [])) 11 (Inr sample_entries) rep auto_approve_gate
      (forgetting_new 24) = Some (Inr (res, s'))"
    using ids by (fastforce simp: execute_def auto_approve_gate_def unary_chrono_def)
  have "within_policy unary_chrono 10 sample_policy s' sample_entries \<and> set (pr_soft_deleted_ids res) = {''a''}"
  proof -
    have "distinct (map me_id sample_entries)" and "auto_approve_gate rep"
      by (simp_all add: sample_entries_def auto_approve_gate_def)
    from purge_meets_policy [OF this(1) rep this(2) ex] ids show ?thesis by metis
  qed
  with rep ex show ?thesis by (elim conjE) (intro exI conjI, assumption+)
qed

text \<open>What a purge soft-deletes can be taken back unchanged during the whole recovery window and not
  after it: for every identifier an execution reports, a restore up to the end of the window returns
  the entry the store held and ends its soft deletion, and a later one fails and changes nothing.\<close>

theorem soft_delete_recoverable:
  assumes "execute ch st now (Inr es) rep gate s = Some (Inr (res, s'))"
    and "k \<in> set (pr_soft_deleted_ids res)"
    and "td_hours ch (sint (recovery_window_hours s)) = Some w" and "dt_add ch now w = Some (now + w)"
  shows "\<exists>e \<in> set es. me_id e = k \<and>
    (\<forall>later. case restore st later k s' of (out, s'') \<Rightarrow>
       if later \<le> now + w then out = Inr e \<and> \<not> is_soft_deleted s'' k
       else \<not> is_ok out \<and> hm_get (soft_deleted s'') = hm_get (soft_deleted s') \<and> audit_log s'' = audit_log s')"
proof -
  obtain e q where r: "hm_get (soft_deleted s') k = Some \<lparr>sr_entry = e, sr_expires_at = now + w, sr_reason = q\<rparr>"
    and e: "e \<in> set es" "me_id e = k"
    using execute_expiry [OF assms] by blast
  have "case restore st later k s' of (out, s'') \<Rightarrow>
       if later \<le> now + w then out = Inr e \<and> \<not> is_soft_deleted s'' k
       else \<not> is_ok out \<and> hm_get (soft_deleted s'') = hm_get (soft_deleted s') \<and> audit_log s'' = audit_log s'" for later
    using r by (auto simp: restore_def Let_def is_soft_deleted_def hm_contains_def hm_simps fun_eq_iff)
  with e show ?thesis by blast
qed

theorem soft_delete_recoverable_witness:
  "\<exists>res s'. execute unary_chrono (\<lambda>n. ([], [])) 10 (Inr sample_entries)
      \<lparr>rp_entries = [\<lparr>im_memory_id = ''b'', im_category = True, im_age_secs = 0, im_reason = OverCount 2 1\<rparr>],
       rp_total_affected = 1, rp_is_dry_run = True\<rparr> auto_approve_gate (forgetting_new 24) = Some (Inr (res, s'))
    \<and> fst (restore (\<lambda>n. ([], [])) 34 ''b'' s') = Inr (sample_entries ! 1)
    \<and> \<not> is_ok (fst (restore (\<lambda>n. ([], [])) 35 ''b'' s'))"
proof -
  let ?rep = "\<lparr>rp_entries = [\<lparr>im_memory_id = ''b'', im_category = True, im_age_secs = 0, im_reason = OverCount 2 1\<rparr>],
       rp_total_affected = 1, rp_is_dry_run = True\<rparr>"
  obtain res s' where ex: "execute unary_chrono (\<lambda>n. ([], [])) 10 (Inr sample_entries) ?rep auto_approve_gate
      (forgetting_new 24) = Some (Inr (res, s'))" and ids: "''b'' \<in> set (pr_soft_deleted_ids res)"
    by (simp add: forget_eval)
  have h: "td_hours unary_chrono (sint (recovery_window_hours (forgetting_new 24 :: bool forgetting))) = Some 24"
    "dt_add unary_chrono 10 24 = Some (10 + 24)"
    by (simp_all add: forgetting_new_def unary_chrono_def)
  from soft_delete_recoverable [OF ex ids h] obtain e where e: "e \<in> set sample_entries" "me_id e = ''b''"
    and r: "\<forall>later. case restore (\<lambda>n. ([], [])) later ''b'' s' of (out, s'') \<Rightarrow>
       if later \<le> 10 + 24 then out = Inr e \<and> \<not> is_soft_deleted s'' ''b''
       else \<not> is_ok out \<and> hm_get (soft_deleted s'') = hm_get (soft_deleted s') \<and> audit_log s'' = audit_log s'"
    by blast
  have "e = sample_entries ! 1" using e by (auto simp: sample_entries_def)
  then have "fst (restore (\<lambda>n. ([], [])) 34 ''b'' s') = Inr (sample_entries ! 1)"
    and "\<not> is_ok (fst (restore (\<lambda>n. ([], [])) 35 ''b'' s'))"
    using r [rule_format, of 34] r [rule_format, of 35] by (simp_all split: prod.splits)
  then show ?thesis using ex by blast
qed

text \<open>A hard purge forgets nothing.  It drops the record of the soft deletion but never removes the
  entry from the store, so the scheduled run that reports an expired entry as hard-purged finds it live
  again, soft-deletes it anew under the same rule in the same run, and a restore right after gives it
  back.\<close>

theorem hard_purge_does_not_forget:
  assumes "hm_ok (soft_deleted s)" and "hm_get (soft_deleted s) (me_id e) = Some r" and "sr_expires_at r < n1"
    and "e \<in> set es" and "expired ch n2 (rule_for p (me_category e)) e"
    and "run_scheduled_purge ch st n1 n2 n3 (Inr es) (Inr es) p s = Some (Inr res, s')"
    and "td_hours ch (sint (recovery_window_hours s)) = Some w" and "dt_add ch n3 w = Some (n3 + w)" and "0 \<le> w"
  shows "me_id e \<in> set (pr_hard_purged_ids res) \<and> me_id e \<in> set (pr_soft_deleted_ids res)
    \<and> (\<exists>e' \<in> set es. me_id e' = me_id e \<and> fst (restore st n3 (me_id e) s') = Inr e')"
proof -
  obtain hp s1 where h: "hard_purge_expired st n1 s = (hp, s1)" by fastforce
  note hp = hard_purge_ids [OF assms(1) h]
  obtain rep res1 s2 where d: "dry_run ch n2 (Inr es) p s1 = Some (Inr rep)"
    and ex: "execute ch st n3 (Inr es) rep auto_approve_gate s1 = Some (Inr (res1, s2))"
    and res: "pr_soft_deleted_ids res = pr_soft_deleted_ids res1" "pr_hard_purged_ids res = pr_hard_purged_ids res1 @ hp"
    and s': "soft_deleted s' = soft_deleted s2"
    using assms(6) h by (auto simp: run_scheduled_purge_def Let_def split: option.splits sum.splits)
  have khp: "me_id e \<in> set hp" using assms(2,3) by (simp add: hp(1))
  then have "e \<in> set (live (soft_deleted s1) es (me_category e))"
    using assms(4) by (simp add: live_def hm_contains_def hp(2))
  then have "me_id e \<in> ids (rp_entries rep)"
    using assms(5) unfolding dry_run_ids(1) [OF d] by (force simp: doomed_def)
  then have soft: "me_id e \<in> set (pr_soft_deleted_ids res1)"
    using assms(4) execute_soft(2) [OF ex] by (auto simp: auto_approve_gate_def ids_def)
  have "\<exists>e' q. hm_get (soft_deleted s2) (me_id e) = Some \<lparr>sr_entry = e', sr_expires_at = n3 + w, sr_reason = q\<rparr>
      \<and> e' \<in> set es \<and> me_id e' = me_id e"
    by (rule execute_expiry [OF ex soft]) (use assms(7,8) in \<open>simp_all add: hp(3)\<close>)
  then obtain e' q where e': "hm_get (soft_deleted s') (me_id e) = Some \<lparr>sr_entry = e', sr_expires_at = n3 + w, sr_reason = q\<rparr>"
      "e' \<in> set es" "me_id e' = me_id e" by (auto simp: s')
  have "fst (restore st n3 (me_id e) s') = Inr e'" using restore_known(1) [OF e'(1)] assms(9) by simp
  then show ?thesis using khp soft res e'(2,3) by auto
qed

definition sample_soft :: "bool forgetting" where
  "sample_soft = \<lparr>soft_deleted = [(''a'', \<lparr>sr_entry = sample_entries ! 0, sr_expires_at = 9, sr_reason = OverCount 2 1\<rparr>)],
     audit_log = [], recovery_window_hours = 24\<rparr>"

theorem hard_purge_does_not_forget_witness:
  "\<exists>res s'. run_scheduled_purge unary_chrono (\<lambda>n. ([], [])) 10 10 10 (Inr sample_entries) (Inr sample_entries)
      sample_policy sample_soft = Some (Inr res, s')
    \<and> ''a'' \<in> set (pr_hard_purged_ids res) \<and> ''a'' \<in> set (pr_soft_deleted_ids res)
    \<and> is_ok (fst (restore (\<lambda>n. ([], [])) 10 ''a'' s'))"
proof -
  obtain res s' where run: "run_scheduled_purge unary_chrono (\<lambda>n. ([], [])) 10 10 10 (Inr sample_entries)
      (Inr sample_entries) sample_policy sample_soft = Some (Inr res, s')"
    by (simp add: forget_eval run_scheduled_purge_def hard_purge_expired_def sample_soft_def hm_remove_def)
  have "hm_ok (soft_deleted sample_soft)" and "hm_get (soft_deleted sample_soft) (me_id (sample_entries ! 0))
      = Some \<lparr>sr_entry = sample_entries ! 0, sr_expires_at = 9, sr_reason = OverCount 2 1\<rparr>"
    and "sample_entries ! 0 \<in> set sample_entries"
    and "expired unary_chrono 10 (rule_for sample_policy (me_category (sample_entries ! 0))) (sample_entries ! 0)"
    by (simp_all add: sample_soft_def hm_ok_def forget_eval expired_def cutoff_def older_def)
  from hard_purge_does_not_forget [OF this(1,2) _ this(3,4) run, of 24] show ?thesis
    using run by (auto simp: sample_soft_def unary_chrono_def sample_entries_def)
qed

text \<open>A threshold gate bounds a purge: executing the report of a dry run behind a threshold of \<open>n\<close> entries
  soft-deletes at most \<open>n\<close> entries, and if the gate denies one report, executing any report at least as
  large does nothing at all.\<close>

theorem threshold_bounds_purge:
  assumes "dry_run ch now listing p s = Some (Inr rep)"
    and "execute ch st now' listing' rep (threshold_gate n) s = Some (Inr (res, s'))"
  shows "length (pr_soft_deleted_ids res) \<le> n
    \<and> (\<forall>r. \<not> threshold_gate n rep \<longrightarrow> rp_total_affected rep \<le> rp_total_affected r \<longrightarrow>
         execute ch st now' listing' r (threshold_gate n) s = Some (Inr (purge_result_default, s)))"
proof -
  obtain es where es: "listing = Inr es" using assms(1) by (cases listing) (auto simp: dry_run_def)
  have t: "rp_total_affected rep = length (rp_entries rep)"
    using assms(1) by (intro dry_run_ids(2)) (simp add: es)
  have "length (pr_soft_deleted_ids res) \<le> n"
    using assms(2) t
    by (auto simp: execute_def threshold_gate_def purge_result_default_def split: if_splits sum.splits option.splits
      dest!: execute_loop_frame)
  then show ?thesis using threshold.denied_larger [of n rep] by blast
qed

theorem threshold_bounds_purge_witness:
  "\<exists>rep. dry_run unary_chrono 10 (Inr sample_entries) sample_policy (forgetting_new 24) = Some (Inr rep)
    \<and> execute unary_chrono (\<lambda>n. ([], [])) 10 (Inr sample_entries) rep (threshold_gate 0) (forgetting_new 24)
      = Some (Inr (purge_result_default, forgetting_new 24))"
proof -
  obtain rep where rep: "dry_run unary_chrono 10 (Inr sample_entries) sample_policy (forgetting_new 24)
      = Some (Inr rep)" and t: "rp_total_affected rep = 1"
    by (simp add: forget_eval)
  then have "execute unary_chrono (\<lambda>n. ([], [])) 10 (Inr sample_entries) rep (threshold_gate 0) (forgetting_new 24)
      = Some (Inr (purge_result_default, forgetting_new 24))"
    by (simp add: execute_def threshold_gate_def)
  from rep this threshold_bounds_purge [OF rep this] show ?thesis by blast
qed

text \<open>The ledger only grows: whatever calls are made, executions behind any gate, restores,
  scheduled purges and drills, failing ones included, every earlier entry of the ledger keeps its
  place and its contents.\<close>

theorem ledger_append_only: "prefix (audit_log s) (audit_log (fold (fg_step ch st) calls s))"
proof (induction calls arbitrary: s)
  case (Cons c calls)
  from fg_step_log [of s ch st c] Cons.IH [of "fg_step ch st c s"] show ?case
    by (simp add: prefix_order.trans)
qed simp

end
