(* ===== verification/Delegation.thy ===== *)
theory Delegation
  imports Prelude
begin

text \<open>
  Delegation to sub-agents (\<open>crates/core/src/delegation\<close>): the agent definitions and their
  registry (\<open>registry.rs\<close>, \<open>builtin.rs\<close>), the conversation of a run (\<open>context.rs\<close>), the broker
  with the model loop of one sub-task (\<open>broker.rs\<close>), and the aggregation of results
  (\<open>aggregator.rs\<close>).

  The model client and the tool dispatcher are parameters that act on a state of the world \<open>'w\<close>;
  the arguments of a tool call and the description of a tool are type variables.  A chat message
  is one constructor per way the code builds it.  What the steering channel yields at each turn is
  a function of the turn; a run also records the calls it made.
\<close>

section \<open>Agents\<close>

record agent_capabilities =
  ac_model :: "string option"
  ac_allowed_tools :: "string list"
  ac_max_turns :: nat

definition default_capabilities :: agent_capabilities where
  "default_capabilities = \<lparr>ac_model = None, ac_allowed_tools = [], ac_max_turns = 10\<rparr>"

record agent_definition =
  ad_name :: string
  ad_description :: string
  ad_system_prompt :: string
  ad_capabilities :: agent_capabilities

definition agent_new :: "string \<Rightarrow> string \<Rightarrow> string \<Rightarrow> agent_definition" where
  "agent_new name description system_prompt =
     \<lparr>ad_name = name, ad_description = description, ad_system_prompt = system_prompt,
      ad_capabilities = default_capabilities\<rparr>"

definition with_model :: "string \<Rightarrow> agent_definition \<Rightarrow> agent_definition" where
  "with_model m a = a\<lparr>ad_capabilities := (ad_capabilities a)\<lparr>ac_model := Some m\<rparr>\<rparr>"

definition with_tools :: "string list \<Rightarrow> agent_definition \<Rightarrow> agent_definition" where
  "with_tools ts a = a\<lparr>ad_capabilities := (ad_capabilities a)\<lparr>ac_allowed_tools := ts\<rparr>\<rparr>"

definition with_max_turns :: "nat \<Rightarrow> agent_definition \<Rightarrow> agent_definition" where
  "with_max_turns n a = a\<lparr>ad_capabilities := (ad_capabilities a)\<lparr>ac_max_turns := n\<rparr>\<rparr>"

record 'd tool_def =
  tool_name :: string
  tool_spec :: 'd

definition filter_tools :: "agent_definition \<Rightarrow> 'd tool_def list \<Rightarrow> 'd tool_def list" where
  "filter_tools a ts =
     (if ac_allowed_tools (ad_capabilities a) = [] then []
      else filter (\<lambda>t. tool_name t \<in> set (ac_allowed_tools (ad_capabilities a))) ts)"

definition researcher :: agent_definition where
  "researcher = with_max_turns 8 (with_tools [''web_search'', ''fetch_url'']
     (agent_new ''researcher'' ''Information retrieval and web research specialist.''
       (''You are an expert research assistant. Your job is to find accurate, ''
        @ ''up-to-date information on topics using the available web search and ''
        @ ''retrieval tools. Always cite sources and prefer recent authoritative ''
        @ ''references. Be concise and factual. When unsure, say so.'')))"

definition coder :: agent_definition where
  "coder = with_max_turns 15 (with_tools [''read_file'', ''write_file'', ''run_command'', ''search_code'']
     (agent_new ''coder'' ''Software engineering and code-focused specialist.''
       (''You are an expert software engineer. Your job is to write correct, ''
        @ ''idiomatic, and well-documented code. Prefer the language and framework ''
        @ ''already in use in the repository. Always run lint/test tools after ''
        @ ''writing or modifying code. Explain your changes clearly and flag any ''
        @ ''potential security issues.'')))"

definition analyst :: agent_definition where
  "analyst = with_max_turns 6
     (agent_new ''analyst'' ''Deep reasoning, evaluation, and synthesis specialist.''
       (''You are an expert analytical thinker. Your job is to reason carefully ''
        @ ''over the information you are given, identify patterns, evaluate ''
        @ ''trade-offs, and synthesise clear conclusions. Do not make things up; ''
        @ ''if the context is insufficient, explicitly state what additional ''
        @ ''information is needed. Structure your output with clear headings.''))"

type_synonym agent_registry = "(string, agent_definition) hmap"

definition agent_register :: "agent_definition \<Rightarrow> agent_registry \<Rightarrow> agent_registry" where
  "agent_register a m = hm_insert (ad_name a) a m"

definition register_builtins :: "agent_registry \<Rightarrow> agent_registry" where
  "register_builtins m = agent_register analyst (agent_register coder (agent_register researcher m))"

definition agent_get :: "string \<Rightarrow> agent_registry \<Rightarrow> agent_definition option" where
  "agent_get name m = hm_get m name"

definition agent_remove :: "string \<Rightarrow> agent_registry \<Rightarrow> agent_definition option \<times> agent_registry" where
  "agent_remove name m = (hm_get m name, hm_remove name m)"

section \<open>The conversation\<close>

record 'a tool_call =
  tc_id :: string
  tc_name :: string
  tc_arguments :: 'a

datatype 'a chat_message =
    SystemMsg string
  | UserMsg string
  | AssistantMsg string
  | AssistantCalls string "'a tool_call list"
  | ToolResult string string

record 'a agent_context =
  cx_agent_name :: string
  cx_messages :: "'a chat_message list"

definition context_new :: "string \<Rightarrow> string \<Rightarrow> 'a agent_context" where
  "context_new name system_prompt = \<lparr>cx_agent_name = name, cx_messages = [SystemMsg system_prompt]\<rparr>"

definition push_message :: "'a chat_message \<Rightarrow> 'a agent_context \<Rightarrow> 'a agent_context" where
  "push_message m cx = cx\<lparr>cx_messages := cx_messages cx @ [m]\<rparr>"

definition context_with_parent :: "string \<Rightarrow> string \<Rightarrow> string \<Rightarrow> 'a agent_context" where
  "context_with_parent name system_prompt summary =
     (let cx = context_new name system_prompt in
      if trim summary \<noteq> [] then
        push_message (SystemMsg (''## Parent context (summary)'' @ [newline] @ summary)) cx
      else cx)"

definition push_user :: "string \<Rightarrow> 'a agent_context \<Rightarrow> 'a agent_context" where
  "push_user content cx = push_message (UserMsg content) cx"

definition push_assistant :: "string \<Rightarrow> 'a agent_context \<Rightarrow> 'a agent_context" where
  "push_assistant content cx = push_message (AssistantMsg content) cx"

section \<open>The broker\<close>

text \<open>A sub-task; its steering channel is what each turn drains from it.\<close>

record sub_task =
  st_agent_name :: string
  st_input :: string
  st_parent_context :: "string option"
  st_steering :: "(nat \<Rightarrow> string list) option"

definition sub_task_new :: "string \<Rightarrow> string \<Rightarrow> sub_task" where
  "sub_task_new name input =
     \<lparr>st_agent_name = name, st_input = input, st_parent_context = None, st_steering = None\<rparr>"

record sub_task_result =
  sr_agent_name :: string
  sr_output :: "string + string"

record 'a completion =
  co_content :: "string option"
  co_tool_calls :: "'a tool_call list"

record ('w, 'a, 'd) env =
  model_complete :: "'a chat_message list \<Rightarrow> 'd tool_def list \<Rightarrow> 'w \<Rightarrow> (string + 'a completion) \<times> 'w"
  available_tools :: "'w \<Rightarrow> 'd tool_def list \<times> 'w"
  call_tool :: "string \<Rightarrow> 'a \<Rightarrow> 'w \<Rightarrow> string \<times> 'w"

text \<open>\<open>DelegationError\<close> with its texts.\<close>

datatype delegation_error = UnknownAgent string | ModelError string string | Panic string

fun delegation_error_text :: "delegation_error \<Rightarrow> string" where
  "delegation_error_text (UnknownAgent n) = ''unknown agent: '' @ n"
| "delegation_error_text (ModelError a m) =
     ''model error in agent '' @ [CHR 0x27] @ a @ [CHR 0x27] @ '': '' @ m"
| "delegation_error_text (Panic m) = ''sub-task panicked: '' @ m"

text \<open>A run: its result, conversation and world, the number of calls of the model and the calls of
  tools, oldest first.\<close>

record ('w, 'a) run =
  run_result :: sub_task_result
  run_context :: "'a agent_context"
  run_world :: 'w
  run_models :: nat
  run_tools :: "(string \<times> 'a) list"

fun dispatch_calls :: "('w, 'a, 'd) env \<Rightarrow> 'a tool_call list \<Rightarrow> ('w, 'a) run \<Rightarrow> ('w, 'a) run" where
  "dispatch_calls env [] r = r"
| "dispatch_calls env (c # cs) r =
     (case call_tool env (tc_name c) (tc_arguments c) (run_world r) of
        (result, w) \<Rightarrow> dispatch_calls env cs
          (r\<lparr>run_world := w, run_tools := run_tools r @ [(tc_name c, tc_arguments c)],
             run_context := push_message (ToolResult (tc_id c) result) (run_context r)\<rparr>))"

definition or_empty :: "string option \<Rightarrow> string" where
  "or_empty x = (case x of Some s \<Rightarrow> s | None \<Rightarrow> [])"

text \<open>What a turn drains from the steering channel, and how it is put to the model.\<close>

definition drained :: "(nat \<Rightarrow> string list) option \<Rightarrow> nat \<Rightarrow> string list" where
  "drained steering turn = (case steering of None \<Rightarrow> [] | Some drain \<Rightarrow> drain turn)"

definition steer_text :: "string \<Rightarrow> string" where
  "steer_text m = ''[STEERING from parent]: '' @ m"

text \<open>The loop over the turns; the natural number counts the turns that are left.\<close>

fun model_loop ::
    "('w, 'a, 'd) env \<Rightarrow> string \<Rightarrow> 'd tool_def list \<Rightarrow> nat \<Rightarrow> (nat \<Rightarrow> string list) option \<Rightarrow> nat \<Rightarrow> nat
      \<Rightarrow> ('w, 'a) run \<Rightarrow> ('w, 'a) run" where
  "model_loop env name allowed mx steering turn 0 r =
     r\<lparr>run_result := \<lparr>sr_agent_name = name, sr_output =
         Inl (''agent '' @ [CHR 0x27] @ name @ [CHR 0x27] @ '' exceeded max_turns ('' @ show_nat mx
           @ '') without producing a final answer'')\<rparr>\<rparr>"
| "model_loop env name allowed mx steering turn (Suc n) r =
     (let cx = fold (\<lambda>m. push_user (steer_text m)) (drained steering turn) (run_context r) in
      case model_complete env (cx_messages cx) allowed (run_world r) of
        (Inl e, w) \<Rightarrow>
          r\<lparr>run_context := cx, run_world := w, run_models := run_models r + 1,
            run_result := \<lparr>sr_agent_name = name,
              sr_output = Inl (delegation_error_text (ModelError name e))\<rparr>\<rparr>
      | (Inr c, w) \<Rightarrow>
          let r = r\<lparr>run_context := cx, run_world := w, run_models := run_models r + 1\<rparr> in
          if co_tool_calls c \<noteq> [] then
            model_loop env name allowed mx steering (turn + 1) n
              (dispatch_calls env (co_tool_calls c)
                (r\<lparr>run_context := push_message
                    (AssistantCalls (or_empty (co_content c)) (co_tool_calls c)) cx\<rparr>))
          else
            let output = or_empty (co_content c) in
            r\<lparr>run_context := push_assistant output cx,
              run_result := \<lparr>sr_agent_name = name, sr_output = Inr output\<rparr>\<rparr>)"

definition run_sub_task ::
    "('w, 'a, 'd) env \<Rightarrow> agent_registry \<Rightarrow> sub_task \<Rightarrow> 'w \<Rightarrow> ('w, 'a) run" where
  "run_sub_task env registry task w =
     (let name = st_agent_name task in
      case agent_get name registry of
        None \<Rightarrow>
          \<lparr>run_result = \<lparr>sr_agent_name = name, sr_output = Inl (delegation_error_text (UnknownAgent name))\<rparr>,
           run_context = \<lparr>cx_agent_name = name, cx_messages = []\<rparr>, run_world = w, run_models = 0,
           run_tools = []\<rparr>
      | Some definition0 \<Rightarrow>
          let cx = (case st_parent_context task of
                Some summary \<Rightarrow> context_with_parent name (ad_system_prompt definition0) summary
              | None \<Rightarrow> context_new name (ad_system_prompt definition0));
              cx = push_user (st_input task) cx in
          (case available_tools env w of
             (all_tools, w) \<Rightarrow>
               let allowed = filter_tools definition0 all_tools;
                   max_turns = ac_max_turns (ad_capabilities definition0) in
               model_loop env name allowed max_turns (st_steering task) 0 max_turns
                 \<lparr>run_result = \<lparr>sr_agent_name = name, sr_output = Inl []\<rparr>, run_context = cx,
                  run_world = w, run_models = 0, run_tools = []\<rparr>))"

text \<open>
  \<open>delegate\<close>: the tasks run concurrently; \<open>outcomes\<close> holds for each task its result, or the text
  of the join error if its task panicked, and \<open>order\<close> the positions in the order of completion.
\<close>

definition delegate :: "(string + sub_task_result) list \<Rightarrow> nat list \<Rightarrow> sub_task_result list" where
  "delegate outcomes order =
     map (\<lambda>i. case outcomes ! i of
            Inr result \<Rightarrow> result
          | Inl join_err \<Rightarrow> \<lparr>sr_agent_name = ''<unknown>'',
              sr_output = Inl (''task panicked: '' @ join_err)\<rparr>) order"

section \<open>Aggregation\<close>

record aggregated =
  ag_content :: string
  ag_succeeded :: "string list"
  ag_failed :: "(string \<times> string) list"

definition all_succeeded :: "aggregated \<Rightarrow> bool" where
  "all_succeeded a \<longleftrightarrow> ag_failed a = []"

definition has_output :: "aggregated \<Rightarrow> bool" where
  "has_output a \<longleftrightarrow> ag_content a \<noteq> []"

fun aggregate_loop ::
    "sub_task_result list \<Rightarrow> (string \<times> string) list \<Rightarrow> string list \<Rightarrow> (string \<times> string) list
      \<Rightarrow> (string \<times> string) list \<times> string list \<times> (string \<times> string) list" where
  "aggregate_loop [] sections succeeded failed = (sections, succeeded, failed)"
| "aggregate_loop (r # rs) sections succeeded failed =
     (case sr_output r of
        Inr output \<Rightarrow>
          if trim output \<noteq> [] then
            aggregate_loop rs (sections @ [(sr_agent_name r, trim output)])
              (succeeded @ [sr_agent_name r]) failed
          else aggregate_loop rs sections (succeeded @ [sr_agent_name r]) failed
      | Inl err \<Rightarrow> aggregate_loop rs sections succeeded (failed @ [(sr_agent_name r, err)]))"

definition section_separator :: string where
  "section_separator = [newline, newline] @ ''---'' @ [newline, newline]"

definition aggregate :: "sub_task_result list \<Rightarrow> aggregated" where
  "aggregate results =
     (case aggregate_loop results [] [] [] of
        (sections, succeeded, failed) \<Rightarrow>
          let content = (if length sections = 1 then snd (hd sections)
                else join section_separator (map snd sections)) in
          \<lparr>ag_content = content, ag_succeeded = succeeded, ag_failed = failed\<rparr>)"

section \<open>Lemmas\<close>

fun ok_output :: "sub_task_result \<Rightarrow> string option" where
  "ok_output r = (case sr_output r of Inr out \<Rightarrow> if trim out \<noteq> [] then Some (trim out) else None | Inl e \<Rightarrow> None)"

lemma aggregate_loop_spec:
  "aggregate_loop rs secs ss fs =
     (secs @ List.map_filter (\<lambda>r. map_option (Pair (sr_agent_name r)) (ok_output r)) rs,
      ss @ map sr_agent_name (filter (is_ok \<circ> sr_output) rs),
      fs @ List.map_filter (\<lambda>r. case sr_output r of Inl e \<Rightarrow> Some (sr_agent_name r, e) | Inr x \<Rightarrow> None) rs)"
proof (induction rs arbitrary: secs ss fs)
  case (Cons r rs)
  show ?case by (cases "sr_output r") (simp_all add: Cons.IH List.map_filter_def)
qed (simp add: List.map_filter_def)

lemma map_snd_pairs:
  "map snd (List.map_filter (\<lambda>r. map_option (Pair (f r)) (g r)) rs) = List.map_filter g rs"
  by (induction rs) (auto simp: List.map_filter_def split: option.split)

lemma join_single: "length xs = 1 \<Longrightarrow> join sep xs = hd xs"
  by (cases xs) auto

lemma dispatch_calls_log:
  "run_tools (dispatch_calls env cs r) = run_tools r @ map (\<lambda>c. (tc_name c, tc_arguments c)) cs
   \<and> run_models (dispatch_calls env cs r) = run_models r"
  by (induction env cs r rule: dispatch_calls.induct) (auto split: prod.split)

fun user_texts :: "'a chat_message list \<Rightarrow> string list" where
  "user_texts [] = []"
| "user_texts (UserMsg s # ms) = s # user_texts ms"
| "user_texts (m # ms) = user_texts ms"

lemma user_texts_append [simp]: "user_texts (xs @ ys) = user_texts xs @ user_texts ys"
  by (induction xs rule: user_texts.induct) auto

lemma dispatch_calls_users:
  "user_texts (cx_messages (run_context (dispatch_calls env cs r))) = user_texts (cx_messages (run_context r))"
  by (induction env cs r rule: dispatch_calls.induct) (auto simp: push_message_def split: prod.split)

lemma fold_push_user:
  "cx_messages (fold (\<lambda>m. push_user (f m)) ms cx) = cx_messages cx @ map (\<lambda>m. UserMsg (f m)) ms"
  by (induction ms arbitrary: cx) (auto simp: push_user_def push_message_def)

lemma user_texts_map: "user_texts (map (\<lambda>m. UserMsg (f m)) ms) = map f ms"
  by (induction ms) auto

text \<open>What the loop adds to a run.\<close>

lemma model_loop_spec:
  "\<exists>k. run_models (model_loop env name allowed mx st turn n r) = run_models r + k \<and> k \<le> n
     \<and> user_texts (cx_messages (run_context (model_loop env name allowed mx st turn n r)))
       = user_texts (cx_messages (run_context r)) @ map steer_text (concat (map (drained st) [turn..<turn + k]))
     \<and> (\<forall>out. sr_output (run_result (model_loop env name allowed mx st turn n r)) = Inr out \<longrightarrow>
         0 < k \<and> last (cx_messages (run_context (model_loop env name allowed mx st turn n r))) = AssistantMsg out)"
  (is "\<exists>k. ?P n turn r k")
proof (induction n arbitrary: turn r)
  case 0
  then show ?case by (intro exI [of _ 0]) simp
next
  case (Suc n)
  let ?cx = "fold (\<lambda>m. push_user (steer_text m)) (drained st turn) (run_context r)"
  have users: "user_texts (cx_messages ?cx) = user_texts (cx_messages (run_context r)) @ map steer_text (drained st turn)"
    by (simp add: fold_push_user user_texts_map)
  obtain res w where m: "model_complete env (cx_messages ?cx) allowed (run_world r) = (res, w)" by fastforce
  show ?case
  proof (cases res)
    case (Inl e)
    then show ?thesis using m users by (intro exI [of _ 1]) (simp add: Let_def)
  next
    case (Inr c)
    show ?thesis
    proof (cases "co_tool_calls c = []")
      case True
      then show ?thesis using m users Inr
        by (intro exI [of _ 1]) (simp add: Let_def push_assistant_def push_message_def)
    next
      case False
      let ?r = "dispatch_calls env (co_tool_calls c) (r\<lparr>run_world := w, run_models := run_models r + 1,
          run_context := push_message (AssistantCalls (or_empty (co_content c)) (co_tool_calls c)) ?cx\<rparr>)"
      have step: "model_loop env name allowed mx st turn (Suc n) r = model_loop env name allowed mx st (turn + 1) n ?r"
        using m Inr False by (simp add: Let_def)
      have "run_models ?r = run_models r + 1" and "user_texts (cx_messages (run_context ?r))
          = user_texts (cx_messages (run_context r)) @ map steer_text (drained st turn)"
        using users by (simp_all add: dispatch_calls_log dispatch_calls_users push_message_def)
      moreover obtain k where "?P n (turn + 1) ?r k" using Suc.IH by blast
      moreover have "[turn..<turn + (1 + k)] = turn # [turn + 1..<turn + 1 + k]" by (simp add: upt_rec)
      ultimately show ?thesis unfolding step by (intro exI [of _ "1 + k"]) simp
    qed
  qed
qed

section \<open>Properties\<close>

text \<open>A sub-task stays within its turns and hears its parent.  It calls the model at most as often as
  its agent allows; it succeeds only with a text answer of the model, which ends the conversation; and
  the user messages of the conversation are the input followed by all messages steered to it during the
  turns it took, in order and none dropped.  A task for an unknown agent fails without a call of the
  model or of a tool.\<close>

theorem sub_task_bounded:
  fixes env :: "('w, 'a, 'd) env"
  shows "case agent_get (st_agent_name task) registry of
     None \<Rightarrow> run_models (run_sub_task env registry task w) = 0 \<and> run_tools (run_sub_task env registry task w) = []
       \<and> \<not> is_ok (sr_output (run_result (run_sub_task env registry task w)))
   | Some a \<Rightarrow>
       run_models (run_sub_task env registry task w) \<le> ac_max_turns (ad_capabilities a)
       \<and> user_texts (cx_messages (run_context (run_sub_task env registry task w)))
         = st_input task # map steer_text (concat (map (drained (st_steering task))
             [0..<run_models (run_sub_task env registry task w)]))
       \<and> (case sr_output (run_result (run_sub_task env registry task w)) of
             Inl e \<Rightarrow> True
           | Inr out \<Rightarrow> last (cx_messages (run_context (run_sub_task env registry task w))) = AssistantMsg out)"
proof (cases "agent_get (st_agent_name task) registry")
  case None
  then show ?thesis by (simp add: run_sub_task_def Let_def)
next
  case (Some a)
  obtain ts w' where av: "available_tools env w = (ts, w')" by fastforce
  define cx :: "'a agent_context" where "cx = push_user (st_input task) (case st_parent_context task of
      Some summary \<Rightarrow> context_with_parent (st_agent_name task) (ad_system_prompt a) summary
    | None \<Rightarrow> context_new (st_agent_name task) (ad_system_prompt a))"
  let ?r = "\<lparr>run_result = \<lparr>sr_agent_name = st_agent_name task, sr_output = Inl []\<rparr>, run_context = cx,
      run_world = w', run_models = 0, run_tools = []\<rparr>"
  have run: "run_sub_task env registry task w = model_loop env (st_agent_name task) (filter_tools a ts)
      (ac_max_turns (ad_capabilities a)) (st_steering task) 0 (ac_max_turns (ad_capabilities a)) ?r"
    using Some av by (simp add: run_sub_task_def Let_def cx_def)
  have "user_texts (cx_messages cx) = [st_input task]"
    by (simp add: cx_def push_user_def push_message_def context_with_parent_def context_new_def Let_def
      split: option.split)
  then show ?thesis
    using model_loop_spec [of env "st_agent_name task" "filter_tools a ts" "ac_max_turns (ad_capabilities a)"
      "st_steering task" 0 "ac_max_turns (ad_capabilities a)" ?r]
    by (auto simp: Some run split: sum.split)
qed

text \<open>The tools an agent is allowed are offered to the model but not enforced: the broker dispatches
  every call the model asks for.  If the first answer of the model asks for tools, all of them are
  called with their arguments, also those of an agent that is allowed none and was offered none.\<close>

theorem tool_limits_not_enforced:
  assumes "agent_get (st_agent_name task) registry = Some a" and "ac_allowed_tools (ad_capabilities a) = []"
    and "0 < ac_max_turns (ad_capabilities a)"
    and "\<And>msgs w. \<exists>w' content. model_complete env msgs [] w
      = (Inr \<lparr>co_content = content, co_tool_calls = calls\<rparr>, w')"
    and "calls \<noteq> []"
  shows "filter_tools a (fst (available_tools env w)) = []
    \<and> prefix (map (\<lambda>c. (tc_name c, tc_arguments c)) calls) (run_tools (run_sub_task env registry task w))"
proof -
  have turn: "\<exists>r'. run_tools r' = run_tools r @ map (\<lambda>c. (tc_name c, tc_arguments c)) calls
      \<and> model_loop env name [] mx st turn (Suc n) r = model_loop env name [] mx st (Suc turn) n r'"
    for name mx st turn n r
  proof -
    obtain w' content where "model_complete env (cx_messages (fold (\<lambda>m. push_user (steer_text m))
        (drained st turn) (run_context r))) [] (run_world r)
        = (Inr \<lparr>co_content = content, co_tool_calls = calls\<rparr>, w')"
      using assms(4) by blast
    then show ?thesis using assms(5) by (auto simp: Let_def dispatch_calls_log intro!: exI)
  qed
  have grow: "prefix (run_tools r) (run_tools (model_loop env name [] mx st turn n r))" for name mx st turn n r
  proof (induction n arbitrary: turn r)
    case (Suc n)
    obtain r' where "run_tools r' = run_tools r @ map (\<lambda>c. (tc_name c, tc_arguments c)) calls"
      and "model_loop env name [] mx st turn (Suc n) r = model_loop env name [] mx st (Suc turn) n r'"
      using turn by blast
    then show ?case using Suc.IH [of r' "Suc turn"] append_prefixD by metis
  qed simp
  obtain n where n: "ac_max_turns (ad_capabilities a) = Suc n" using assms(3) gr0_conv_Suc by blast
  have step: "prefix (map (\<lambda>c. (tc_name c, tc_arguments c)) calls)
      (run_tools (model_loop env name [] mx st turn (Suc n) r))" if "run_tools r = []" for name mx st turn r
    using turn [of r name mx st turn n] grow that by (metis append_Nil)
  obtain ts w' where av: "available_tools env w = (ts, w')" by fastforce
  then show ?thesis using assms(1,2) n step
    by (simp add: run_sub_task_def Let_def filter_tools_def del: model_loop.simps)
qed

definition rogue_env :: "(nat, string, unit) env" where
  "rogue_env = \<lparr>model_complete = (\<lambda>msgs ts w.
       (Inr \<lparr>co_content = None, co_tool_calls = [\<lparr>tc_id = ''1'', tc_name = ''run_command'', tc_arguments = ''rm -rf /''\<rparr>]\<rparr>, w)),
     available_tools = (\<lambda>w. ([\<lparr>tool_name = ''run_command'', tool_spec = ()\<rparr>], w)),
     call_tool = (\<lambda>n a w. (''done'', w + 1))\<rparr>"

theorem tool_limits_not_enforced_witness:
  "filter_tools analyst (fst (available_tools rogue_env 0)) = []
    \<and> prefix [(''run_command'', ''rm -rf /'')]
        (run_tools (run_sub_task rogue_env (register_builtins []) (sub_task_new ''analyst'' ''hi'') 0))"
  using tool_limits_not_enforced [of "sub_task_new ''analyst'' ''hi''" "register_builtins []" analyst rogue_env
      "[\<lparr>tc_id = ''1'', tc_name = ''run_command'', tc_arguments = ''rm -rf /''\<rparr>]" 0]
  by (simp add: rogue_env_def sub_task_new_def agent_get_def register_builtins_def agent_register_def hm_simps
    analyst_def agent_new_def with_max_turns_def default_capabilities_def)

text \<open>An aggregation accounts for every result: the agents of the successful results are listed in
  order, those of the failed ones with their errors, and the content is exactly the trimmed outputs that
  are not blank, in order and joined by the separator; a blank output counts as a success without
  content.\<close>

theorem aggregate_accounts_for_all:
  "ag_content (aggregate rs) = join section_separator (List.map_filter ok_output rs)
   \<and> ag_succeeded (aggregate rs) = map sr_agent_name (filter (is_ok \<circ> sr_output) rs)
   \<and> ag_failed (aggregate rs) = List.map_filter
       (\<lambda>r. case sr_output r of Inl e \<Rightarrow> Some (sr_agent_name r, e) | Inr x \<Rightarrow> None) rs
   \<and> length (ag_succeeded (aggregate rs)) + length (ag_failed (aggregate rs)) = length rs"
proof -
  let ?secs = "List.map_filter (\<lambda>r. map_option (Pair (sr_agent_name r)) (ok_output r)) rs"
  have "(if length ?secs = 1 then snd (hd ?secs) else join section_separator (map snd ?secs))
      = join section_separator (map snd ?secs)"
    using join_single [of "map snd ?secs" section_separator] by (cases ?secs) auto
  moreover have "length (filter (is_ok \<circ> sr_output) rs) + length (List.map_filter
       (\<lambda>r. case sr_output r of Inl e \<Rightarrow> Some (sr_agent_name r, e) | Inr x \<Rightarrow> None) rs) = length rs"
    by (induction rs) (auto simp: List.map_filter_def split: sum.splits)
  ultimately show ?thesis
    by (simp add: aggregate_def aggregate_loop_spec Let_def map_snd_pairs del: ok_output.simps)
qed

text \<open>A delegation returns one result per task but in the order of completion, not of submission, and
  the aggregated answer depends on it: the same two tasks with the same outputs give two different
  contents.\<close>

theorem answer_depends_on_completion_order:
  "let outcomes = [Inr \<lparr>sr_agent_name = ''coder'', sr_output = Inr ''first''\<rparr>,
        Inr \<lparr>sr_agent_name = ''analyst'', sr_output = Inr ''second''\<rparr>] in
     map sr_agent_name (delegate outcomes [1, 0]) = [''analyst'', ''coder'']
   \<and> (\<forall>order \<in> {[0, 1], [1, 0]}. mset (delegate outcomes order) = mset (delegate outcomes [0, 1]))
   \<and> ag_content (aggregate (delegate outcomes [0, 1])) \<noteq> ag_content (aggregate (delegate outcomes [1, 0]))"
  by (simp add: delegate_def aggregate_def Let_def section_separator_def trim_graph is_graph_def)

theorem answer_depends_on_completion_order_witness:
  "ag_content (aggregate (delegate [Inr \<lparr>sr_agent_name = ''coder'', sr_output = Inr ''first''\<rparr>,
        Inr \<lparr>sr_agent_name = ''analyst'', sr_output = Inr ''second''\<rparr>] [0, 1]))
   \<noteq> ag_content (aggregate (delegate [Inr \<lparr>sr_agent_name = ''coder'', sr_output = Inr ''first''\<rparr>,
        Inr \<lparr>sr_agent_name = ''analyst'', sr_output = Inr ''second''\<rparr>] [1, 0]))"
  using answer_depends_on_completion_order by (simp add: Let_def)

end
