(* ===== verification/Sessions.thy ===== *)
theory Sessions
  imports Delegation
begin

text \<open>
  The sessions of sub-agents (\<open>crates/core/src/delegation/manager.rs\<close>) and their steering channels
  (\<open>steering.rs\<close>), as a machine whose steps are the sections of the methods and of the spawned
  tasks between two points where another task may run: every section that takes a lock is a step.
  The methods \<open>kill\<close> and \<open>steer\<close> are also given as their sections in a row.

  An abort only takes effect at the next point where the task yields, so the steps of an aborted
  task stay possible until it is stopped.  Beside the state of the code the machine keeps the
  messages accepted by channels and those the broker has taken, oldest first.
\<close>

section \<open>State\<close>

datatype session_status = Running | Completed | Failed string | Killed | TimedOut

record session_info =
  si_id :: string
  si_agent_name :: string
  si_task_input :: string
  si_label :: "string option"
  si_started_at :: time
  si_completed_at :: "time option"
  si_status :: session_status
  si_output :: "string option"
  si_pending_messages :: "string list"

record completion_event =
  cv_session_id :: string
  cv_agent_name :: string
  cv_result :: "string + string"
  cv_duration :: int
  cv_undelivered :: "string list"

text \<open>The options; the timeout is given by the text \<open>{:?}\<close> of its duration.\<close>

record spawn_options =
  so_label :: "string option"
  so_timeout :: "string option"
  so_parent_context :: "string option"

definition default_options :: spawn_options where
  "default_options = \<lparr>so_label = None, so_timeout = Some ''1800s'', so_parent_context = None\<rparr>"

text \<open>Where a spawned task is: running the broker, or past it with the result, its status recorded, or
  its channel removed.  A task that has pushed its event or was stopped is no longer listed.\<close>

datatype phase =
    Executing "string option"
  | Finished "string + string"
  | Recorded "string + string"
  | Detached "string + string"

record session_manager =
  sessions :: "(string, session_info) hmap"
  handles :: "(string, unit) hmap"
  steering_txs :: "(string, unit) hmap"
  queues :: "(string, string list) hmap"
  phases :: "(string, phase) hmap"
  agents :: "(string, string) hmap"
  events :: "completion_event list"
  checked :: "(string \<times> string) list"
  unrecorded :: "(string \<times> string) list"
  aborting :: "string list"
  detaching :: "string list"
  accepted :: "(string \<times> string) list"
  taken :: "(string \<times> string) list"

definition session_manager_new :: session_manager where
  "session_manager_new = \<lparr>sessions = [], handles = [], steering_txs = [], queues = [], phases = [], agents = [],
     events = [], checked = [], unrecorded = [], aborting = [], detaching = [], accepted = [], taken = []\<rparr>"

section \<open>Steering channels\<close>

text \<open>A channel is its queue.\<close>

definition channel_send :: "string \<Rightarrow> string list \<Rightarrow> string list" where
  "channel_send m q = q @ [m]"

definition channel_drain :: "string list \<Rightarrow> string list \<times> string list" where
  "channel_drain q = (q, [])"

definition queue_of :: "session_manager \<Rightarrow> string \<Rightarrow> string list" where
  "queue_of s k = (case hm_get (queues s) k of Some q \<Rightarrow> q | None \<Rightarrow> [])"

section \<open>Spawning and running\<close>

text \<open>A fresh identifier has no channel yet.\<close>

definition spawn :: "string \<Rightarrow> time \<Rightarrow> string \<Rightarrow> string \<Rightarrow> spawn_options \<Rightarrow> session_manager \<Rightarrow> session_manager" where
  "spawn k now agent_name input options s =
     (if hm_contains (queues s) k then s
      else s\<lparr>sessions := hm_insert k \<lparr>si_id = k, si_agent_name = agent_name, si_task_input = input,
                 si_label = so_label options, si_started_at = now, si_completed_at = None,
                 si_status = Running, si_output = None, si_pending_messages = []\<rparr> (sessions s),
             steering_txs := hm_insert k () (steering_txs s), queues := hm_insert k [] (queues s),
             phases := hm_insert k (Executing (so_timeout options)) (phases s),
             agents := hm_insert k agent_name (agents s), handles := hm_insert k () (handles s)\<rparr>)"

text \<open>The broker drains the channel between two turns.\<close>

definition broker_drain :: "string \<Rightarrow> session_manager \<Rightarrow> session_manager" where
  "broker_drain k s =
     (case hm_get (phases s) k of
        Some (Executing t) \<Rightarrow>
          (case channel_drain (queue_of s k) of (msgs, q) \<Rightarrow>
             s\<lparr>queues := hm_insert k q (queues s), taken := taken s @ map (Pair k) msgs\<rparr>)
      | _ \<Rightarrow> s)"

definition extract_single_result :: "sub_task_result list \<Rightarrow> string + string" where
  "extract_single_result results =
     (case results of [] \<Rightarrow> Inl ''no result from delegation'' | r # rs \<Rightarrow> sr_output r)"

text \<open>How the broker's future ends: with results, or by the timeout if there is one.\<close>

datatype broker_end = Returned "sub_task_result list" | Elapsed

definition finish :: "string \<Rightarrow> broker_end \<Rightarrow> session_manager \<Rightarrow> session_manager" where
  "finish k e s =
     (case hm_get (phases s) k of
        Some (Executing timeout) \<Rightarrow>
          (case (e, timeout) of
             (Returned results, _) \<Rightarrow>
               s\<lparr>phases := hm_insert k (Finished (extract_single_result results)) (phases s)\<rparr>
           | (Elapsed, Some dur) \<Rightarrow>
               s\<lparr>phases := hm_insert k (Finished (Inl (''timed out after '' @ dur))) (phases s)\<rparr>
           | (Elapsed, None) \<Rightarrow> s)
      | _ \<Rightarrow> s)"

fun status_of :: "string + string \<Rightarrow> session_status" where
  "status_of (Inr out) = Completed"
| "status_of (Inl e) = (if contains_str e ''timed out'' then TimedOut else Failed e)"

fun result_output :: "string + string \<Rightarrow> string option" where
  "result_output (Inr out) = Some out"
| "result_output (Inl e) = None"

definition record_result :: "string \<Rightarrow> time \<Rightarrow> session_manager \<Rightarrow> session_manager" where
  "record_result k now s =
     (case hm_get (phases s) k of
        Some (Finished r) \<Rightarrow>
          s\<lparr>phases := hm_insert k (Recorded r) (phases s),
            sessions := hm_modify k (\<lambda>i. i\<lparr>si_status := status_of r, si_completed_at := Some now,
              si_output := result_output r\<rparr>) (sessions s)\<rparr>
      | _ \<Rightarrow> s)"

definition detach :: "string \<Rightarrow> session_manager \<Rightarrow> session_manager" where
  "detach k s =
     (case hm_get (phases s) k of
        Some (Recorded r) \<Rightarrow>
          s\<lparr>phases := hm_insert k (Detached r) (phases s), steering_txs := hm_remove k (steering_txs s)\<rparr>
      | _ \<Rightarrow> s)"

definition push_event :: "string \<Rightarrow> int \<Rightarrow> session_manager \<Rightarrow> session_manager" where
  "push_event k duration s =
     (case hm_get (phases s) k of
        Some (Detached r) \<Rightarrow>
          (case channel_drain (queue_of s k) of (undelivered, q) \<Rightarrow>
             s\<lparr>phases := hm_remove k (phases s), queues := hm_insert k q (queues s),
               events := events s @ [\<lparr>cv_session_id = k,
                 cv_agent_name = (case hm_get (agents s) k of Some a \<Rightarrow> a | None \<Rightarrow> []),
                 cv_result = r, cv_duration = duration, cv_undelivered = undelivered\<rparr>]\<rparr>)
      | _ \<Rightarrow> s)"

section \<open>Inspection\<close>

definition list_sessions :: "session_manager \<Rightarrow> session_info list" where
  "list_sessions s = hm_values (sessions s)"

definition list_running :: "session_manager \<Rightarrow> session_info list" where
  "list_running s = filter (\<lambda>i. si_status i = Running) (hm_values (sessions s))"

definition get_session :: "string \<Rightarrow> session_manager \<Rightarrow> session_info option" where
  "get_session k s = hm_get (sessions s) k"

section \<open>Killing\<close>

definition kill_abort :: "string \<Rightarrow> session_manager \<Rightarrow> bool \<times> session_manager" where
  "kill_abort k s =
     (if hm_contains (handles s) k
      then (True, s\<lparr>handles := hm_remove k (handles s), aborting := k # aborting s\<rparr>)
      else (False, s))"

definition kill_update :: "string \<Rightarrow> time \<Rightarrow> session_manager \<Rightarrow> session_manager" where
  "kill_update k now s =
     (if k \<notin> set (aborting s) then s
      else s\<lparr>aborting := remove1 k (aborting s), detaching := k # detaching s,
             sessions := hm_modify k (\<lambda>i. i\<lparr>si_status := Killed, si_completed_at := Some now\<rparr>) (sessions s)\<rparr>)"

definition kill_detach :: "string \<Rightarrow> session_manager \<Rightarrow> session_manager" where
  "kill_detach k s =
     (if k \<notin> set (detaching s) then s
      else s\<lparr>detaching := remove1 k (detaching s), steering_txs := hm_remove k (steering_txs s)\<rparr>)"

definition kill :: "string \<Rightarrow> time \<Rightarrow> session_manager \<Rightarrow> bool \<times> session_manager" where
  "kill k now s =
     (case kill_abort k s of
        (False, s) \<Rightarrow> (False, s)
      | (True, s) \<Rightarrow> (True, kill_detach k (kill_update k now s)))"

text \<open>The runtime drops a task that was aborted; its handle is gone by then.\<close>

definition stop_task :: "string \<Rightarrow> session_manager \<Rightarrow> session_manager" where
  "stop_task k s =
     (if hm_contains (handles s) k then s else s\<lparr>phases := hm_remove k (phases s)\<rparr>)"

section \<open>Steering\<close>

definition steer_check :: "string \<Rightarrow> string \<Rightarrow> session_manager \<Rightarrow> bool \<times> session_manager" where
  "steer_check k m s =
     (case hm_get (sessions s) k of
        Some i \<Rightarrow> if si_status i = Running then (True, s\<lparr>checked := checked s @ [(k, m)]\<rparr>) else (False, s)
      | None \<Rightarrow> (False, s))"

definition steer_send :: "string \<Rightarrow> string \<Rightarrow> session_manager \<Rightarrow> bool \<times> session_manager" where
  "steer_send k m s =
     (if (k, m) \<notin> set (checked s) then (False, s)
      else
        let s = s\<lparr>checked := remove1 (k, m) (checked s)\<rparr> in
        if hm_contains (steering_txs s) k then
          (True, s\<lparr>queues := hm_insert k (channel_send m (queue_of s k)) (queues s),
                   accepted := accepted s @ [(k, m)], unrecorded := unrecorded s @ [(k, m)]\<rparr>)
        else (False, s))"

definition steer_record :: "string \<Rightarrow> string \<Rightarrow> session_manager \<Rightarrow> session_manager" where
  "steer_record k m s =
     (if (k, m) \<notin> set (unrecorded s) then s
      else s\<lparr>unrecorded := remove1 (k, m) (unrecorded s),
             sessions := hm_modify k (\<lambda>i. i\<lparr>si_pending_messages := si_pending_messages i @ [m]\<rparr>)
               (sessions s)\<rparr>)"

definition steer :: "string \<Rightarrow> string \<Rightarrow> session_manager \<Rightarrow> bool \<times> session_manager" where
  "steer k m s =
     (case steer_check k m s of
        (False, s) \<Rightarrow> (False, s)
      | (True, s) \<Rightarrow>
          (case steer_send k m s of
             (sent, s) \<Rightarrow> (sent, if sent then steer_record k m s else s)))"

section \<open>Cleanup\<close>

text \<open>\<open>max_age\<close> is the duration after \<open>from_std(\<dots>).unwrap_or_default()\<close>.\<close>

definition cleanup :: "time \<Rightarrow> int \<Rightarrow> session_manager \<Rightarrow> session_manager" where
  "cleanup now max_age s =
     (let cutoff = now - max_age in
      s\<lparr>sessions := hm_retain (\<lambda>i. if si_status i = Running then True
          else (case si_completed_at i of Some t \<Rightarrow> cutoff < t | None \<Rightarrow> True)) (sessions s)\<rparr>)"

section \<open>The machine\<close>

datatype mgr_event =
    Spawn string time string string spawn_options
  | BrokerDrain string
  | Finish string broker_end
  | RecordResult string time
  | Detach string
  | PushEvent string int
  | KillAbort string
  | KillUpdate string time
  | KillDetach string
  | StopTask string
  | SteerCheck string string
  | SteerSend string string
  | SteerRecord string string
  | Cleanup time int

fun mgr_step :: "mgr_event \<Rightarrow> session_manager \<Rightarrow> session_manager" where
  "mgr_step (Spawn k now a i options) s = spawn k now a i options s"
| "mgr_step (BrokerDrain k) s = broker_drain k s"
| "mgr_step (Finish k e) s = finish k e s"
| "mgr_step (RecordResult k now) s = record_result k now s"
| "mgr_step (Detach k) s = detach k s"
| "mgr_step (PushEvent k d) s = push_event k d s"
| "mgr_step (KillAbort k) s = snd (kill_abort k s)"
| "mgr_step (KillUpdate k now) s = kill_update k now s"
| "mgr_step (KillDetach k) s = kill_detach k s"
| "mgr_step (StopTask k) s = stop_task k s"
| "mgr_step (SteerCheck k m) s = snd (steer_check k m s)"
| "mgr_step (SteerSend k m) s = snd (steer_send k m s)"
| "mgr_step (SteerRecord k m) s = steer_record k m s"
| "mgr_step (Cleanup now a) s = cleanup now a s"

definition mgr_run :: "mgr_event list \<Rightarrow> session_manager" where
  "mgr_run evs = fold mgr_step evs session_manager_new"

section \<open>Messages and events\<close>

definition of_session :: "string \<Rightarrow> (string \<times> string) list \<Rightarrow> string list" where
  "of_session k l = map snd (filter (\<lambda>p. fst p = k) l)"

definition own_events :: "session_manager \<Rightarrow> string \<Rightarrow> completion_event list" where
  "own_events s k = filter (\<lambda>e. cv_session_id e = k) (events s)"

definition reported :: "session_manager \<Rightarrow> string \<Rightarrow> string list" where
  "reported s k = concat (map cv_undelivered (own_events s k))"

definition has_event :: "session_manager \<Rightarrow> string \<Rightarrow> bool" where
  "has_event s k \<longleftrightarrow> own_events s k \<noteq> []"

definition gone :: "session_manager \<Rightarrow> string \<Rightarrow> bool" where
  "gone s k \<longleftrightarrow> has_event s k \<or> (\<exists>r. hm_get (phases s) k = Some (Detached r))"

definition session_inv :: "session_manager \<Rightarrow> string \<Rightarrow> bool" where
  "session_inv s k \<longleftrightarrow>
     of_session k (accepted s) = of_session k (taken s) @ reported s k @ queue_of s k
     \<and> (gone s k \<longrightarrow> \<not> hm_contains (steering_txs s) k)
     \<and> (has_event s k \<longrightarrow> hm_get (phases s) k = None \<and> queue_of s k = [])
     \<and> (hm_get (phases s) k \<noteq> None \<or> hm_contains (steering_txs s) k \<or> has_event s k \<longrightarrow> hm_contains (queues s) k)
     \<and> length (own_events s k) \<le> 1"

lemma of_session_simps [simp]:
  "of_session k [] = []" "of_session k (xs @ ys) = of_session k xs @ of_session k ys"
  "of_session k ((k', m) # xs) = (if k' = k then m # of_session k xs else of_session k xs)"
  by (simp_all add: of_session_def)

lemma of_session_pairs: "of_session k (map (Pair k') ms) = (if k' = k then ms else [])"
  by (induction ms) auto

lemmas mgr_defs =
  spawn_def broker_drain_def finish_def record_result_def detach_def push_event_def kill_abort_def
  kill_update_def kill_detach_def stop_task_def steer_check_def steer_send_def steer_record_def cleanup_def

lemmas inv_defs =
  session_inv_def gone_def has_event_def reported_def queue_of_def hm_contains_def channel_send_def
  channel_drain_def

lemma session_inv_new: "session_inv session_manager_new k"
  by (simp add: inv_defs own_events_def session_manager_new_def hm_simps)

lemma own_events_cong [simp]:
  "own_events (s\<lparr>sessions := a\<rparr>) k = own_events s k" "own_events (s\<lparr>handles := b\<rparr>) k = own_events s k"
  "own_events (s\<lparr>steering_txs := c\<rparr>) k = own_events s k" "own_events (s\<lparr>queues := d\<rparr>) k = own_events s k"
  "own_events (s\<lparr>phases := f\<rparr>) k = own_events s k" "own_events (s\<lparr>agents := g\<rparr>) k = own_events s k"
  "own_events (s\<lparr>checked := h\<rparr>) k = own_events s k" "own_events (s\<lparr>unrecorded := h\<rparr>) k = own_events s k"
  "own_events (s\<lparr>aborting := l\<rparr>) k = own_events s k" "own_events (s\<lparr>detaching := l\<rparr>) k = own_events s k"
  "own_events (s\<lparr>accepted := h\<rparr>) k = own_events s k" "own_events (s\<lparr>taken := h\<rparr>) k = own_events s k"
  "own_events (s\<lparr>events := es @ [e]\<rparr>) k =
     filter (\<lambda>e. cv_session_id e = k) es @ (if cv_session_id e = k then [e] else [])"
  by (simp_all add: own_events_def)

lemma filter_events [simp]: "filter (\<lambda>e. cv_session_id e = k) (events s) = own_events s k"
  by (simp add: own_events_def)

lemma session_inv_cong:
  assumes "queues s' = queues s" and "phases s' = phases s" and "steering_txs s' = steering_txs s"
    and "events s' = events s" and "accepted s' = accepted s" and "taken s' = taken s"
  shows "session_inv s' k = session_inv s k"
  using assms by (simp add: inv_defs own_events_def del: filter_events)

lemma inv_spawn: "session_inv s k \<Longrightarrow> session_inv (spawn k' now a i options s) k"
  by (cases "k = k'") (auto simp: inv_defs spawn_def hm_simps split: option.splits)

lemma inv_broker_drain: "session_inv s k \<Longrightarrow> session_inv (broker_drain k' s) k"
  by (cases "k = k'") (auto simp: inv_defs broker_drain_def hm_simps of_session_pairs split: option.splits phase.splits)

lemma inv_finish: "session_inv s k \<Longrightarrow> session_inv (finish k' e s) k"
  by (cases "k = k'") (auto simp: inv_defs finish_def hm_simps split: option.splits phase.splits broker_end.splits)

lemma inv_record_result: "session_inv s k \<Longrightarrow> session_inv (record_result k' now s) k"
  by (cases "k = k'") (auto simp: inv_defs record_result_def hm_simps split: option.splits phase.splits)

lemma inv_detach: "session_inv s k \<Longrightarrow> session_inv (detach k' s) k"
  by (cases "k = k'") (auto simp: inv_defs detach_def hm_simps split: option.splits phase.splits)

lemma inv_push_event: "session_inv s k \<Longrightarrow> session_inv (push_event k' d s) k"
  by (cases "k = k'")
    (auto simp: inv_defs push_event_def hm_simps split: option.splits phase.splits)

lemma inv_kill_detach: "session_inv s k \<Longrightarrow> session_inv (kill_detach k' s) k"
  by (cases "k = k'") (auto simp: inv_defs kill_detach_def hm_simps split: option.splits)

lemma inv_stop_task: "session_inv s k \<Longrightarrow> session_inv (stop_task k' s) k"
  by (cases "k = k'") (auto simp: inv_defs stop_task_def hm_simps split: option.splits)

lemma inv_steer_send: "session_inv s k \<Longrightarrow> session_inv (snd (steer_send k' m s)) k"
  by (cases "k = k'") (auto simp: inv_defs steer_send_def hm_simps Let_def split: option.splits)

lemma inv_others:
  "session_inv (snd (kill_abort k' s)) k = session_inv s k" "session_inv (kill_update k' now s) k = session_inv s k"
  "session_inv (snd (steer_check k' m s)) k = session_inv s k" "session_inv (steer_record k' m s) k = session_inv s k"
  "session_inv (cleanup now a s) k = session_inv s k"
  by (rule session_inv_cong; simp add: mgr_defs Let_def split: option.split)+

lemma inv_step: "session_inv s k \<Longrightarrow> session_inv (mgr_step ev s) k"
  by (cases ev) (simp_all add: inv_spawn inv_broker_drain inv_finish inv_record_result inv_detach
    inv_push_event inv_kill_detach inv_stop_task inv_steer_send inv_others)

lemma inv_fold: "session_inv s k \<Longrightarrow> session_inv (fold mgr_step evs s) k"
  by (induction evs arbitrary: s) (simp_all add: inv_step)

lemma inv_run: "session_inv (mgr_run evs) k"
  unfolding mgr_run_def by (rule inv_fold, rule session_inv_new)


section \<open>Steering messages are delivered or reported\<close>

text \<open>The sends of a run that returned true.\<close>

fun sent_by :: "mgr_event list \<Rightarrow> session_manager \<Rightarrow> (string \<times> string) list" where
  "sent_by [] s = []"
| "sent_by (ev # evs) s =
     (case ev of
        SteerSend k m \<Rightarrow> (if fst (steer_send k m s) then [(k, m)] else [])
      | _ \<Rightarrow> []) @ sent_by evs (mgr_step ev s)"

lemma accepted_step:
  "accepted (mgr_step ev s) = accepted s @ (case ev of SteerSend k m \<Rightarrow> (if fst (steer_send k m s) then [(k, m)] else []) | _ \<Rightarrow> [])"
  by (cases ev) (simp_all add: mgr_defs channel_drain_def Let_def
    split: option.split phase.split broker_end.split)

lemma accepted_fold: "accepted (fold mgr_step evs s) = accepted s @ sent_by evs s"
  by (induction evs arbitrary: s) (simp_all add: accepted_step)

lemma accepted_run: "accepted (mgr_run evs) = sent_by evs session_manager_new"
  by (simp add: mgr_run_def accepted_fold session_manager_new_def)

lemma one_event:
  assumes "e \<in> set (events (mgr_run evs))" and "cv_session_id e = k"
  shows "own_events (mgr_run evs) k = [e]"
proof -
  have "e \<in> set (own_events (mgr_run evs) k)" using assms by (simp add: own_events_def del: filter_events)
  then show ?thesis
    using inv_run [of evs k] by (cases "own_events (mgr_run evs) k") (auto simp: session_inv_def)
qed

text \<open>C35: Once the completion event of a session is pushed, every message its steering calls reported as
  sent was handed to the broker or is among the undelivered messages of the event, in the order of
  sending, each once; the session has one event only.\<close>

theorem no_steering_lost:
  assumes "e \<in> set (events (mgr_run evs))" and "cv_session_id e = k"
  shows "of_session k (sent_by evs session_manager_new) = of_session k (taken (mgr_run evs)) @ cv_undelivered e
    \<and> filter (\<lambda>e. cv_session_id e = k) (events (mgr_run evs)) = [e]"
proof -
  let ?s = "mgr_run evs"
  have inv: "session_inv ?s k" by (rule inv_run)
  have own: "own_events ?s k = [e]" using assms by (rule one_event)
  then have "queue_of ?s k = []" using inv by (simp add: session_inv_def has_event_def)
  then show ?thesis
    using inv own by (simp add: session_inv_def reported_def accepted_run)
qed

definition sample_run :: "mgr_event list" where
  "sample_run =
    [Spawn ''s'' 0 ''coder'' ''task'' default_options, SteerCheck ''s'' ''one'', SteerSend ''s'' ''one'',
     BrokerDrain ''s'', SteerCheck ''s'' ''two'', Finish ''s'' (Returned [\<lparr>sr_agent_name = ''coder'',
       sr_output = Inr ''done''\<rparr>]), SteerSend ''s'' ''two'',
     RecordResult ''s'' 7, Detach ''s'', PushEvent ''s'' 7]"

lemma sample_events: "events (mgr_run sample_run) = [\<lparr>cv_session_id = ''s'', cv_agent_name = ''coder'',
    cv_result = Inr ''done'', cv_duration = 7, cv_undelivered = [''two'']\<rparr>]"
  by code_simp

theorem no_steering_lost_witness:
  "of_session ''s'' (sent_by sample_run session_manager_new) = of_session ''s'' (taken (mgr_run sample_run)) @ [''two'']"
  using no_steering_lost [of "\<lparr>cv_session_id = ''s'', cv_agent_name = ''coder'',
    cv_result = Inr ''done'', cv_duration = 7, cv_undelivered = [''two'']\<rparr>" sample_run "''s''"]
  by (simp add: sample_events)

text \<open>The whole method, when nothing runs in between.\<close>

lemma steer_spec:
  "fst (steer k m s) \<longleftrightarrow> (\<exists>i. hm_get (sessions s) k = Some i \<and> si_status i = Running) \<and> hm_contains (steering_txs s) k"
  "fst (steer k m s) \<Longrightarrow> queue_of (snd (steer k m s)) k = queue_of s k @ [m]"
  by (auto simp: steer_def mgr_defs Let_def queue_of_def channel_send_def hm_simps split: option.splits if_splits prod.splits)

section \<open>Results and kills\<close>

text \<open>As long as nobody kills the session.\<close>

definition unkilled :: "session_manager \<Rightarrow> string \<Rightarrow> bool" where
  "unkilled s k \<longleftrightarrow> (hm_contains (queues s) k \<longrightarrow> hm_contains (handles s) k) \<and> k \<notin> set (aborting s)"

definition agrees :: "session_info \<Rightarrow> string + string \<Rightarrow> bool" where
  "agrees i r \<longleftrightarrow> si_status i = status_of r \<and> si_output i = result_output r \<and> si_completed_at i \<noteq> None"

fun info_ok :: "phase option \<Rightarrow> completion_event list \<Rightarrow> session_info \<Rightarrow> bool" where
  "info_ok None es i = list_ex (\<lambda>e. agrees i (cv_result e)) es"
| "info_ok (Some (Executing t)) es i = (si_status i = Running \<and> si_output i = None)"
| "info_ok (Some (Finished r)) es i = (si_status i = Running \<and> si_output i = None)"
| "info_ok (Some (Recorded r)) es i = agrees i r"
| "info_ok (Some (Detached r)) es i = agrees i r"

definition result_inv :: "session_manager \<Rightarrow> string \<Rightarrow> bool" where
  "result_inv s k \<longleftrightarrow> session_inv s k \<and> unkilled s k \<and> hm_ok (sessions s)
     \<and> (\<forall>i. hm_get (sessions s) k = Some i \<longrightarrow> info_ok (hm_get (phases s) k) (own_events s k) i \<and> hm_contains (queues s) k)
     \<and> (hm_get (phases s) k \<noteq> None \<longrightarrow> hm_contains (queues s) k)"


lemmas rinv_defs = result_inv_def unkilled_def agrees_def hm_contains_def

lemma result_inv_new: "result_inv session_manager_new k"
  by (simp add: rinv_defs session_inv_new) (simp add: session_manager_new_def hm_simps)

lemma own_events_same: "events s' = events s \<Longrightarrow> own_events s' k = own_events s k"
  by (simp add: own_events_def del: filter_events)

lemma rinv_cong:
  assumes "session_inv s' k" and "queues s' = queues s" and "phases s' = phases s" and "sessions s' = sessions s"
    and "events s' = events s" and "handles s' = handles s" and "k \<in> set (aborting s') \<longrightarrow> k \<in> set (aborting s)"
    and "result_inv s k"
  shows "result_inv s' k"
  using assms own_events_same [of s' s k] by (auto simp: result_inv_def unkilled_def hm_contains_def)

lemma rinv_spawn: "result_inv s k \<Longrightarrow> result_inv (spawn k' now a i options s) k"
  using inv_spawn [of s k k' now a i options]
  by (cases "k = k'") (auto simp: rinv_defs spawn_def hm_simps split: option.splits)

lemma rinv_broker_drain: "result_inv s k \<Longrightarrow> result_inv (broker_drain k' s) k"
  using inv_broker_drain [of s k k']
  by (cases "k = k'") (auto simp: rinv_defs broker_drain_def channel_drain_def hm_simps split: option.splits phase.splits)

lemma rinv_finish: "result_inv s k \<Longrightarrow> result_inv (finish k' e s) k"
  using inv_finish [of s k k' e]
  by (cases "k = k'") (auto simp: rinv_defs finish_def hm_simps split: option.split_asm option.split phase.split_asm phase.split broker_end.split)

lemma rinv_record_result: "result_inv s k \<Longrightarrow> result_inv (record_result k' now s) k"
  using inv_record_result [of s k k' now]
  by (cases "k = k'") (auto simp: rinv_defs record_result_def hm_simps split: option.splits phase.splits)

lemma rinv_detach: "result_inv s k \<Longrightarrow> result_inv (detach k' s) k"
  using inv_detach [of s k k']
  by (cases "k = k'") (auto simp: rinv_defs detach_def hm_simps split: option.splits phase.splits)

lemma rinv_push_event: "result_inv s k \<Longrightarrow> result_inv (push_event k' d s) k"
  using inv_push_event [of s k k' d]
  by (cases "k = k'") (auto simp: rinv_defs push_event_def channel_drain_def hm_simps split: option.splits phase.splits)


lemma rinv_kill_abort: "result_inv s k \<Longrightarrow> k' \<noteq> k \<Longrightarrow> result_inv (snd (kill_abort k' s)) k"
  using inv_others(1) [of k' s k] by (auto simp: rinv_defs inv_others kill_abort_def hm_simps)

lemma rinv_kill_update: "result_inv s k \<Longrightarrow> result_inv (kill_update k' now s) k"
  using inv_others(2) [of k' now s k] set_remove1_subset [of k' "aborting s"]
  by (auto simp: rinv_defs kill_update_def hm_simps)

lemma rinv_stop_task: "result_inv s k \<Longrightarrow> result_inv (stop_task k' s) k"
  using inv_stop_task [of s k k']
  by (cases "k = k'") (auto simp: rinv_defs stop_task_def hm_simps)

lemma rinv_kill_detach: "result_inv s k \<Longrightarrow> result_inv (kill_detach k' s) k"
  by (rule rinv_cong [of _ _ s], rule inv_kill_detach) (simp_all add: result_inv_def kill_detach_def)

lemma rinv_steer_check: "result_inv s k \<Longrightarrow> result_inv (snd (steer_check k' m s)) k"
  by (rule rinv_cong [of _ _ s]) (simp_all only: inv_others, simp_all add: result_inv_def steer_check_def split: option.split)

lemma rinv_steer_send: "result_inv s k \<Longrightarrow> result_inv (snd (steer_send k' m s)) k"
  using inv_steer_send [of s k k' m]
  by (cases "k = k'") (auto simp: rinv_defs session_inv_def steer_send_def Let_def hm_simps)

lemma rinv_steer_record: "result_inv s k \<Longrightarrow> result_inv (steer_record k' m s) k"
proof -
  have upd: "info_ok p es (i\<lparr>si_pending_messages := ms\<rparr>) = info_ok p es i" for p es i ms
    by (cases "(p, es, i)" rule: info_ok.cases) (simp_all add: agrees_def)
  assume "result_inv s k"
  then show ?thesis
    using inv_others(4) [of k' m s k]
    by (auto simp: result_inv_def unkilled_def hm_contains_def steer_record_def hm_simps upd)
qed

lemma rinv_cleanup: "result_inv s k \<Longrightarrow> result_inv (cleanup now a s) k"
  using inv_others(5) [of now a s k]
  by (auto simp: result_inv_def unkilled_def hm_contains_def cleanup_def Let_def hm_simps
      split: option.split_asm if_split_asm)

lemma rinv_step: "result_inv s k \<Longrightarrow> ev \<noteq> KillAbort k \<Longrightarrow> result_inv (mgr_step ev s) k"
  by (cases ev) (simp_all add: rinv_spawn rinv_broker_drain rinv_finish rinv_record_result rinv_detach
    rinv_push_event rinv_kill_abort rinv_kill_update rinv_stop_task rinv_kill_detach rinv_steer_check
    rinv_steer_send rinv_steer_record rinv_cleanup)

lemma rinv_fold: "result_inv s k \<Longrightarrow> KillAbort k \<notin> set evs \<Longrightarrow> result_inv (fold mgr_step evs s) k"
  by (induction evs arbitrary: s) (auto simp: rinv_step)

lemma rinv_run: "KillAbort k \<notin> set evs \<Longrightarrow> result_inv (mgr_run evs) k"
  unfolding mgr_run_def by (rule rinv_fold [OF result_inv_new])

text \<open>C36: As long as a session is not killed, its record says Running until the broker's result is
  recorded, and from its completion event on it carries the status and the output of the
  result of that event.\<close>

theorem session_shows_result:
  assumes "KillAbort k \<notin> set evs" and "get_session k (mgr_run evs) = Some i"
    and "e \<in> set (events (mgr_run evs))" and "cv_session_id e = k"
  shows "si_status i = status_of (cv_result e) \<and> si_output i = result_output (cv_result e)
    \<and> si_completed_at i \<noteq> None \<and> i \<notin> set (list_running (mgr_run evs))"
proof -
  let ?s = "mgr_run evs"
  have inv: "result_inv ?s k" using assms(1) by (rule rinv_run)
  have own: "own_events ?s k = [e]" using assms(3,4) by (rule one_event)
  then have "hm_get (phases ?s) k = None" using inv by (simp add: result_inv_def session_inv_def has_event_def)
  then have "agrees i (cv_result e)" using inv own assms(2) by (simp add: result_inv_def get_session_def)
  moreover have "status_of (cv_result e) \<noteq> Running" by (cases "cv_result e") simp_all
  ultimately show ?thesis by (simp add: agrees_def list_running_def)
qed


theorem session_shows_result_witness:
  "\<exists>i. get_session ''s'' (mgr_run sample_run) = Some i \<and> si_status i = Completed \<and> si_output i = Some ''done''"
proof -
  have "map_option si_status (get_session ''s'' (mgr_run sample_run)) = Some Completed" by code_simp
  then obtain i where i: "get_session ''s'' (mgr_run sample_run) = Some i" by auto
  have "KillAbort ''s'' \<notin> set sample_run" by code_simp
  from session_shows_result [OF this i, of "\<lparr>cv_session_id = ''s'', cv_agent_name = ''coder'',
    cv_result = Inr ''done'', cv_duration = 7, cv_undelivered = [''two'']\<rparr>"] i
  show ?thesis by (simp add: sample_events)
qed

text \<open>The handle of a finished session stays: killing a session that was spawned and not killed
  before is always reported as done, and replaces whatever status the session has, a
  completed one included; only the output still shows that it had finished.\<close>

theorem kill_overwrites_finished:
  assumes "KillAbort k \<notin> set evs" and "get_session k (mgr_run evs) = Some i"
  shows "fst (kill k now (mgr_run evs))
    \<and> get_session k (snd (kill k now (mgr_run evs))) = Some (i\<lparr>si_status := Killed, si_completed_at := Some now\<rparr>)"
proof -
  have "result_inv (mgr_run evs) k" using assms(1) by (rule rinv_run)
  then have "hm_contains (handles (mgr_run evs)) k"
    using assms(2) by (simp add: result_inv_def unkilled_def get_session_def)
  then show ?thesis
    using assms(2) by (simp add: kill_def kill_abort_def kill_update_def kill_detach_def get_session_def hm_simps)
qed

theorem kill_overwrites_finished_witness:
  "\<exists>i. get_session ''s'' (mgr_run sample_run) = Some i \<and> si_status i = Completed
    \<and> fst (kill ''s'' 9 (mgr_run sample_run))
    \<and> get_session ''s'' (snd (kill ''s'' 9 (mgr_run sample_run))) = Some (i\<lparr>si_status := Killed, si_completed_at := Some 9\<rparr>)"
proof -
  have k: "KillAbort ''s'' \<notin> set sample_run" by code_simp
  have "map_option si_status (get_session ''s'' (mgr_run sample_run)) = Some Completed" by code_simp
  then obtain i where i: "get_session ''s'' (mgr_run sample_run) = Some i" and "si_status i = Completed" by auto
  then show ?thesis using kill_overwrites_finished [OF k i, of 9] by blast
qed

end
