(* ===== verification/Patch.thy ===== *)
theory Patch
  imports Prelude
begin

text \<open>
  Multi-file patches (\<open>crates/mcp-server/src/patch.rs\<close>) and the tool that applies them
  (\<open>apply_patch\<close> in \<open>radix_handler.rs\<close>): parsing of the envelope, matching of hunks, the plan that
  is validated first and its commit.

  A line index into the input is the list of the lines from there on.  Errors are data instead of
  texts.  The file system is a parameter, a state with fallible operations; paths are a linear
  order, so that the writes of a plan (a \<open>BTreeMap\<close>) are committed in the order of their keys.
\<close>

section \<open>Operations\<close>

record hunk =
  hk_find :: "string list"
  hk_replace :: "string list"

datatype file_op = Add string string | Delete string | Update string "hunk list"

datatype parse_error =
    MissingBegin
  | EmptyPath string
  | NoHunks string
  | UnexpectedLine string
  | MissingEnd
  | NoOperations

section \<open>Parsing\<close>

definition is_section_marker :: "string \<Rightarrow> bool" where
  "is_section_marker line =
     (let t = trim_end line in
      t = ''*** End Patch'' \<or> prefix ''*** Add File: '' t \<or> prefix ''*** Update File: '' t
      \<or> prefix ''*** Delete File: '' t)"

fun skip_to_begin :: "string list \<Rightarrow> string list option" where
  "skip_to_begin [] = None"
| "skip_to_begin (l # ls) = (if trim l = ''*** Begin Patch'' then Some ls else skip_to_begin ls)"

definition strip_or_same :: "string \<Rightarrow> string \<Rightarrow> string" where
  "strip_or_same p l = (case strip_prefix p l of Some r \<Rightarrow> r | None \<Rightarrow> l)"

fun add_body :: "string list \<Rightarrow> string list \<times> string list" where
  "add_body [] = ([], [])"
| "add_body (l # ls) =
     (if is_section_marker l then ([], l # ls)
      else (case add_body ls of (body, rest) \<Rightarrow> (strip_or_same ''+'' l # body, rest)))"

definition add_contents :: "string list \<Rightarrow> string" where
  "add_contents body_lines =
     (let body = join [newline] body_lines in if body \<noteq> [] then body @ [newline] else body)"

fun hunk_body :: "string list \<Rightarrow> string list \<Rightarrow> string list \<Rightarrow> bool \<Rightarrow> (hunk \<times> bool) \<times> string list" where
  "hunk_body [] fnd repl any = ((\<lparr>hk_find = fnd, hk_replace = repl\<rparr>, any), [])"
| "hunk_body (l # ls) fnd repl any =
     (if is_section_marker l \<or> prefix ''@@'' l then ((\<lparr>hk_find = fnd, hk_replace = repl\<rparr>, any), l # ls)
      else
        (case strip_prefix ''+'' l of
           Some rest \<Rightarrow> hunk_body ls fnd (repl @ [rest]) True
         | None \<Rightarrow>
             (case strip_prefix ''-'' l of
                Some rest \<Rightarrow> hunk_body ls (fnd @ [rest]) repl True
              | None \<Rightarrow>
                  let ctx = strip_or_same '' '' l in hunk_body ls (fnd @ [ctx]) (repl @ [ctx]) True)))"

lemma hunk_body_rest: "length (snd (hunk_body ls fnd repl any)) \<le> length ls"
  by (induction ls arbitrary: fnd repl any) (auto simp: Let_def le_SucI split: option.split)

lemma hunk_body_consumes:
  assumes "\<not> is_section_marker l" and "\<not> prefix ''@@'' l"
  shows "length (snd (hunk_body (l # ls) fnd repl any)) < length (l # ls)"
  using assms by (auto simp: Let_def less_Suc_eq_le hunk_body_rest split: option.split)

text \<open>One hunk: its \<open>@@\<close> line, of which the rest is only a hint, and its body.\<close>

definition one_hunk :: "string \<Rightarrow> string list \<Rightarrow> (hunk \<times> bool) \<times> string list" where
  "one_hunk l ls = hunk_body (if prefix ''@@'' l then ls else l # ls) [] [] False"

lemma one_hunk_rest: "\<not> is_section_marker l \<Longrightarrow> length (snd (one_hunk l ls)) \<le> length ls"
  using hunk_body_rest [of ls "[]" "[]" False] hunk_body_consumes [of l ls "[]" "[]" False]
  by (auto simp: one_hunk_def simp del: hunk_body.simps)

function parse_hunks :: "string list \<Rightarrow> hunk list \<times> string list" where
  "parse_hunks [] = ([], [])"
| "parse_hunks (l # ls) =
     (if is_section_marker l then ([], l # ls)
      else
        (case parse_hunks (snd (one_hunk l ls)) of
           (hs, rest) \<Rightarrow> (if snd (fst (one_hunk l ls)) then fst (fst (one_hunk l ls)) # hs else hs, rest)))"
  by pat_completeness auto
termination
  by (relation "measure length") (auto simp: less_Suc_eq_le one_hunk_rest)

lemma parse_hunks_rest: "length (snd (parse_hunks ls)) \<le> length ls"
proof (induction ls rule: parse_hunks.induct)
  case (2 l ls)
  then show ?case using one_hunk_rest [of l ls] by (auto split: prod.split)
qed simp

lemma add_body_rest: "length (snd (add_body ls)) \<le> length ls"
  by (induction ls) (auto split: prod.split)

text \<open>The loop over the sections: the operations, or the first error.\<close>

function parse_sections :: "string list \<Rightarrow> file_op list \<Rightarrow> parse_error + file_op list" where
  "parse_sections [] ops = Inl MissingEnd"
| "parse_sections (line # ls) ops =
     (let trimmed = trim_end line in
      if trim trimmed = ''*** End Patch'' then if ops = [] then Inl NoOperations else Inr ops
      else
        (case strip_prefix ''*** Add File: '' trimmed of
           Some p \<Rightarrow>
             if trim p = [] then Inl (EmptyPath ''Add'')
             else parse_sections (snd (add_body ls)) (ops @ [Add (trim p) (add_contents (fst (add_body ls)))])
         | None \<Rightarrow>
        (case strip_prefix ''*** Delete File: '' trimmed of
           Some p \<Rightarrow>
             if trim p = [] then Inl (EmptyPath ''Delete'')
             else parse_sections ls (ops @ [Delete (trim p)])
         | None \<Rightarrow>
        (case strip_prefix ''*** Update File: '' trimmed of
           Some p \<Rightarrow>
             if trim p = [] then Inl (EmptyPath ''Update'')
             else if fst (parse_hunks ls) = [] then Inl (NoHunks (trim p))
             else parse_sections (snd (parse_hunks ls)) (ops @ [Update (trim p) (fst (parse_hunks ls))])
         | None \<Rightarrow>
             if trimmed = [] then parse_sections ls ops else Inl (UnexpectedLine trimmed)))))"
  by pat_completeness auto
termination
  by (relation "measure (length \<circ> fst)") (auto simp: less_Suc_eq_le add_body_rest parse_hunks_rest)

definition parse_patch :: "string \<Rightarrow> parse_error + file_op list" where
  "parse_patch input =
     (case skip_to_begin (lines input) of
        None \<Rightarrow> Inl MissingBegin
      | Some ls \<Rightarrow> parse_sections ls [])"

section \<open>Applying hunks\<close>

definition find_contiguous :: "string list \<Rightarrow> string list \<Rightarrow> nat \<Rightarrow> nat option" where
  "find_contiguous haystack needle from =
     (if needle = [] \<or> length haystack < length needle then None
      else
        let last_start = length haystack - length needle in
        find (\<lambda>start. take (length needle) (drop start haystack) = needle) [from..<Suc last_start])"

text \<open>The loop over the hunks; an error is the number of the hunk.\<close>

fun hunk_loop :: "string list \<Rightarrow> nat \<Rightarrow> hunk list \<Rightarrow> string list \<Rightarrow> nat \<Rightarrow> nat + string list \<times> nat" where
  "hunk_loop orig hi [] out cursor = Inr (out, cursor)"
| "hunk_loop orig hi (h # hs) out cursor =
     (if hk_find h = [] then hunk_loop orig (hi + 1) hs (out @ hk_replace h) cursor
      else
        (case find_contiguous orig (hk_find h) cursor of
           None \<Rightarrow> Inl (hi + 1)
         | Some start \<Rightarrow>
             hunk_loop orig (hi + 1) hs (out @ take (start - cursor) (drop cursor orig) @ hk_replace h)
               (start + length (hk_find h))))"

definition ends_with_newline :: "string \<Rightarrow> bool" where
  "ends_with_newline s \<longleftrightarrow> s \<noteq> [] \<and> last s = newline"

definition apply_hunks :: "string \<Rightarrow> hunk list \<Rightarrow> nat + string" where
  "apply_hunks content hunks =
     (let orig = lines content in
      case hunk_loop orig 0 hunks [] 0 of
        Inl e \<Rightarrow> Inl e
      | Inr (out, cursor) \<Rightarrow>
          let result = join [newline] (out @ drop cursor orig) in
          Inr (if ends_with_newline content then result @ [newline] else result))"

section \<open>Plans\<close>

text \<open>A \<open>BTreeMap\<close> is the list of its entries in the order of the keys.\<close>

fun bt_insert :: "'p::linorder \<Rightarrow> 'v \<Rightarrow> ('p \<times> 'v) list \<Rightarrow> ('p \<times> 'v) list" where
  "bt_insert k v [] = [(k, v)]"
| "bt_insert k v ((k', v') # m) =
     (if k < k' then (k, v) # (k', v') # m
      else if k = k' then (k, v) # m
      else (k', v') # bt_insert k v m)"

record 'p plan =
  pl_writes :: "('p \<times> string) list"
  pl_deletes :: "'p list"
  pl_summary :: "string list"

datatype plan_error = AlreadyExists string | NoFileToDelete string | NoFileToUpdate string | HunkFailed string nat

text \<open>The operations of the file system; those that change it report whether they succeeded.\<close>

record ('p, 'f) file_system =
  fs_read :: "'p \<Rightarrow> 'f \<Rightarrow> string option"
  fs_exists :: "'p \<Rightarrow> 'f \<Rightarrow> bool"
  fs_create_parent :: "'p \<Rightarrow> 'f \<Rightarrow> bool \<times> 'f"
  fs_write :: "'p \<Rightarrow> string \<Rightarrow> 'f \<Rightarrow> bool \<times> 'f"
  fs_remove :: "'p \<Rightarrow> 'f \<Rightarrow> bool \<times> 'f"

fun plan_op ::
    "('p::linorder, 'f) file_system \<Rightarrow> (string \<Rightarrow> 'p) \<Rightarrow> 'f \<Rightarrow> file_op \<Rightarrow> 'p plan \<Rightarrow> plan_error + 'p plan" where
  "plan_op fs resolve f (Add path contents) plan =
     (if fs_exists fs (resolve path) f then Inl (AlreadyExists path)
      else Inr (plan\<lparr>pl_summary := pl_summary plan @ [''add '' @ path],
                     pl_writes := bt_insert (resolve path) contents (pl_writes plan)\<rparr>))"
| "plan_op fs resolve f (Delete path) plan =
     (if \<not> fs_exists fs (resolve path) f then Inl (NoFileToDelete path)
      else Inr (plan\<lparr>pl_summary := pl_summary plan @ [''delete '' @ path],
                     pl_deletes := pl_deletes plan @ [resolve path]\<rparr>))"
| "plan_op fs resolve f (Update path hunks) plan =
     (case fs_read fs (resolve path) f of
        None \<Rightarrow> Inl (NoFileToUpdate path)
      | Some current \<Rightarrow>
          (case apply_hunks current hunks of
             Inl hi \<Rightarrow> Inl (HunkFailed path hi)
           | Inr updated \<Rightarrow>
               Inr (plan\<lparr>pl_summary := pl_summary plan
                            @ [''update '' @ path @ '' ('' @ show_nat (length hunks) @ '' hunk(s))''],
                         pl_writes := bt_insert (resolve path) updated (pl_writes plan)\<rparr>)))"

fun plan_loop ::
    "('p::linorder, 'f) file_system \<Rightarrow> (string \<Rightarrow> 'p) \<Rightarrow> 'f \<Rightarrow> file_op list \<Rightarrow> 'p plan \<Rightarrow> plan_error + 'p plan" where
  "plan_loop fs resolve f [] plan = Inr plan"
| "plan_loop fs resolve f (op # ops) plan =
     (case plan_op fs resolve f op plan of Inl e \<Rightarrow> Inl e | Inr plan' \<Rightarrow> plan_loop fs resolve f ops plan')"

definition plan_patch ::
    "('p::linorder, 'f) file_system \<Rightarrow> (string \<Rightarrow> 'p) \<Rightarrow> 'f \<Rightarrow> file_op list \<Rightarrow> plan_error + 'p plan" where
  "plan_patch fs resolve f ops =
     plan_loop fs resolve f ops \<lparr>pl_writes = [], pl_deletes = [], pl_summary = []\<rparr>"

section \<open>The tool\<close>

datatype 'p tool_error =
    MissingInput
  | NotParsed parse_error
  | NotApplied plan_error
  | CreateFailed 'p
  | WriteFailed 'p
  | DeleteFailed 'p

fun commit_writes ::
    "('p, 'f) file_system \<Rightarrow> ('p \<times> string) list \<Rightarrow> 'f \<Rightarrow> 'p tool_error option \<times> 'f" where
  "commit_writes fs [] f = (None, f)"
| "commit_writes fs ((p, c) # ws) f =
     (case fs_create_parent fs p f of
        (False, f) \<Rightarrow> (Some (CreateFailed p), f)
      | (True, f) \<Rightarrow>
          (case fs_write fs p c f of
             (False, f) \<Rightarrow> (Some (WriteFailed p), f)
           | (True, f) \<Rightarrow> commit_writes fs ws f))"

fun commit_deletes :: "('p, 'f) file_system \<Rightarrow> 'p list \<Rightarrow> 'f \<Rightarrow> 'p tool_error option \<times> 'f" where
  "commit_deletes fs [] f = (None, f)"
| "commit_deletes fs (p # ps) f =
     (case fs_remove fs p f of
        (False, f) \<Rightarrow> (Some (DeleteFailed p), f)
      | (True, f) \<Rightarrow> commit_deletes fs ps f)"

definition apply_patch ::
    "('p::linorder, 'f) file_system \<Rightarrow> (string \<Rightarrow> 'p) \<Rightarrow> string option \<Rightarrow> 'f \<Rightarrow> ('p tool_error + string) \<times> 'f" where
  "apply_patch fs resolve input f =
     (case input of
        None \<Rightarrow> (Inl MissingInput, f)
      | Some text \<Rightarrow>
          (case parse_patch text of
             Inl e \<Rightarrow> (Inl (NotParsed e), f)
           | Inr ops \<Rightarrow>
               (case plan_patch fs resolve f ops of
                  Inl e \<Rightarrow> (Inl (NotApplied e), f)
                | Inr plan \<Rightarrow>
                    (case commit_writes fs (pl_writes plan) f of
                       (Some e, f) \<Rightarrow> (Inl e, f)
                     | (None, f) \<Rightarrow>
                         (case commit_deletes fs (pl_deletes plan) f of
                            (Some e, f) \<Rightarrow> (Inl e, f)
                          | (None, f) \<Rightarrow> (Inr (''applied patch: '' @ join ''; '' (pl_summary plan)), f))))))"

section \<open>The file system\<close>

text \<open>What is assumed of the file system, through the texts \<open>files f\<close> of its readable files.\<close>

definition fs_laws :: "('p, 'f) file_system \<Rightarrow> ('f \<Rightarrow> 'p \<rightharpoonup> string) \<Rightarrow> bool" where
  "fs_laws fs files \<longleftrightarrow>
     (\<forall>p f. fs_read fs p f = files f p) \<and>
     (\<forall>p f. files (snd (fs_create_parent fs p f)) = files f) \<and>
     (\<forall>p c f. fst (fs_write fs p c f) \<longrightarrow> files (snd (fs_write fs p c f)) = (files f)(p \<mapsto> c)) \<and>
     (\<forall>p f. fst (fs_remove fs p f) \<longrightarrow> fs_exists fs p f \<and> \<not> fs_exists fs p (snd (fs_remove fs p f))
       \<and> files (snd (fs_remove fs p f)) = (files f)(p := None))"

text \<open>A file system that is the map of its files.\<close>

definition map_fs :: "('p, ('p \<times> string) list) file_system" where
  "map_fs = \<lparr>fs_read = (\<lambda>p f. map_of f p), fs_exists = (\<lambda>p f. map_of f p \<noteq> None),
     fs_create_parent = (\<lambda>p f. (True, f)), fs_write = (\<lambda>p c f. (True, AList.update p c f)),
     fs_remove = (\<lambda>p f. if map_of f p = None then (False, f) else (True, AList.delete p f))\<rparr>"

lemma map_fs_laws: "fs_laws map_fs map_of"
  by (auto simp: fs_laws_def map_fs_def update_conv' delete_conv')

section \<open>Patches as operations in a row\<close>

fun op_path :: "file_op \<Rightarrow> string" where
  "op_path (Add p c) = p"
| "op_path (Delete p) = p"
| "op_path (Update p hs) = p"

fun op_effect :: "(string \<Rightarrow> 'p) \<Rightarrow> file_op \<Rightarrow> ('p \<rightharpoonup> string) \<Rightarrow> ('p \<rightharpoonup> string)" where
  "op_effect resolve (Add p c) m = m(resolve p \<mapsto> c)"
| "op_effect resolve (Delete p) m = m(resolve p := None)"
| "op_effect resolve (Update p hs) m =
     (case m (resolve p) of
        None \<Rightarrow> m
      | Some c \<Rightarrow> (case apply_hunks c hs of Inl e \<Rightarrow> m | Inr c' \<Rightarrow> m(resolve p \<mapsto> c')))"

definition plan_effect :: "'p plan \<Rightarrow> ('p \<rightharpoonup> string) \<Rightarrow> ('p \<rightharpoonup> string)" where
  "plan_effect plan m = (\<lambda>q. if q \<in> set (pl_deletes plan) then None else (m ++ map_of (pl_writes plan)) q)"

lemma map_of_bt_insert: "map_of (bt_insert k v m) = (map_of m)(k \<mapsto> v)"
  by (induction m) (auto split: if_splits)

lemma keys_bt_insert: "fst ` set (bt_insert k v m) = insert k (fst ` set m)"
  by (simp flip: dom_map_of_conv_image_fst add: map_of_bt_insert)

lemma sorted_bt_insert: "sorted_wrt (<) (map fst m) \<Longrightarrow> sorted_wrt (<) (map fst (bt_insert k v m))"
  by (induction m) (fastforce simp: keys_bt_insert not_less_iff_gr_or_eq)+

definition plan_ok :: "'p::linorder plan \<Rightarrow> bool" where
  "plan_ok plan \<longleftrightarrow> sorted_wrt (<) (map fst (pl_writes plan))"

definition touched :: "'p plan \<Rightarrow> 'p set" where
  "touched plan = fst ` set (pl_writes plan) \<union> set (pl_deletes plan)"

lemma touched_simps [simp]:
  "touched (plan\<lparr>pl_summary := t, pl_writes := bt_insert q c (pl_writes plan)\<rparr>) = insert q (touched plan)"
  "touched (plan\<lparr>pl_summary := t, pl_deletes := pl_deletes plan @ [q]\<rparr>) = insert q (touched plan)"
  by (auto simp: touched_def keys_bt_insert)

lemma untouched: "q \<notin> touched plan \<Longrightarrow> plan_effect plan m q = m q"
  by (simp add: touched_def plan_effect_def map_add_dom_app_simps dom_map_of_conv_image_fst)

lemma effect_write:
  "q \<notin> touched plan \<Longrightarrow>
    plan_effect (plan\<lparr>pl_summary := t, pl_writes := bt_insert q c (pl_writes plan)\<rparr>) m = (plan_effect plan m)(q \<mapsto> c)"
  by (auto simp: plan_effect_def touched_def map_of_bt_insert fun_eq_iff map_add_def)

lemma effect_delete:
  "plan_effect (plan\<lparr>pl_summary := t, pl_deletes := pl_deletes plan @ [q]\<rparr>) m = (plan_effect plan m)(q := None)"
  by (auto simp: plan_effect_def fun_eq_iff)

lemma plan_op_effect:
  assumes "fs_laws fs files" and "plan_op fs resolve f op plan = Inr plan'"
    and "resolve (op_path op) \<notin> touched plan" and "plan_ok plan"
  shows "plan_effect plan' (files f) = op_effect resolve op (plan_effect plan (files f))
    \<and> touched plan' = insert (resolve (op_path op)) (touched plan) \<and> plan_ok plan'"
proof -
  have read: "fs_read fs p f = files f p" for p using assms(1) by (simp add: fs_laws_def)
  show ?thesis
    using assms(2-4)
    by (cases op) (auto simp: effect_write effect_delete untouched read plan_ok_def sorted_bt_insert
        split: if_splits option.splits sum.splits)
qed

lemma plan_loop_effect:
  assumes "fs_laws fs files" and "plan_loop fs resolve f ops plan = Inr plan'" and "plan_ok plan"
    and "distinct (map (resolve \<circ> op_path) ops)" and "set (map (resolve \<circ> op_path) ops) \<inter> touched plan = {}"
  shows "plan_effect plan' (files f) = fold (op_effect resolve) ops (plan_effect plan (files f)) \<and> plan_ok plan'"
  using assms(2-)
proof (induction ops arbitrary: plan)
  case (Cons op ops)
  obtain plan1 where p1: "plan_op fs resolve f op plan = Inr plan1"
    and rest: "plan_loop fs resolve f ops plan1 = Inr plan'"
    using Cons.prems(1) by (auto split: sum.splits)
  have "resolve (op_path op) \<notin> touched plan" using Cons.prems(4) by auto
  note step = plan_op_effect [OF assms(1) p1 this Cons.prems(2)]
  have "plan_ok plan1" and "touched plan1 = insert (resolve (op_path op)) (touched plan)"
    and "plan_effect plan1 (files f) = op_effect resolve op (plan_effect plan (files f))"
    using step by blast+
  then show ?case using Cons.IH [OF rest] Cons.prems(3,4) by auto
qed simp

lemma commit_writes_effect:
  assumes "fs_laws fs files" and "commit_writes fs ws f = (None, f')" and "distinct (map fst ws)"
  shows "files f' = files f ++ map_of ws"
  using assms(2,3)
proof (induction ws arbitrary: f)
  case (Cons w ws)
  obtain p c where w: "w = (p, c)" by (cases w)
  obtain f1 f2 where f1: "fs_create_parent fs p f = (True, f1)" and f2: "fs_write fs p c f1 = (True, f2)"
    and rest: "commit_writes fs ws f2 = (None, f')"
    using Cons.prems(1) by (auto simp: w split: prod.splits bool.splits)
  have "files f1 = files f" using assms(1) f1 by (simp add: fs_laws_def) (metis snd_conv)
  moreover have "files f2 = (files f1)(p \<mapsto> c)"
    using assms(1) f2 by (simp add: fs_laws_def) (metis fst_conv snd_conv)
  ultimately show ?case
    using Cons.IH [OF rest] Cons.prems(2)
    by (auto simp: w map_add_def fun_eq_iff map_of_eq_None_iff split: option.splits dest: map_of_SomeD)
qed simp

lemma commit_deletes_effect:
  assumes "fs_laws fs files" and "commit_deletes fs ps f = (None, f')"
  shows "files f' = (\<lambda>q. if q \<in> set ps then None else files f q)"
  using assms(2)
proof (induction ps arbitrary: f)
  case (Cons p ps)
  obtain f1 where f1: "fs_remove fs p f = (True, f1)" and rest: "commit_deletes fs ps f1 = (None, f')"
    using Cons.prems by (auto split: prod.splits bool.splits)
  have "files f1 = (files f)(p := None)"
    using assms(1) f1 by (simp add: fs_laws_def) (metis fst_conv snd_conv)
  then show ?case using Cons.IH [OF rest] by (auto simp: fun_eq_iff)
qed simp


section \<open>Placements of hunks\<close>

text \<open>
  A placement of the hunks in a list of lines: the lines are kept but for the runs of the hunks, in
  order and disjoint, which are replaced; a hunk without a run is inserted where it stands.
\<close>

inductive placed :: "hunk list \<Rightarrow> string list \<Rightarrow> string list \<Rightarrow> bool" where
  Done: "placed [] ls ls"
| Insert: "hk_find h = [] \<Longrightarrow> placed hs ls out \<Longrightarrow> placed (h # hs) ls (hk_replace h @ out)"
| Replace: "hk_find h \<noteq> [] \<Longrightarrow> placed hs ls out \<Longrightarrow>
    placed (h # hs) (kept @ hk_find h @ ls) (kept @ hk_replace h @ out)"

inductive_cases placed_NilE: "placed [] ls out"
inductive_cases placed_ConsE: "placed (h # hs) ls out"

text \<open>What can be placed in a tail can be placed in the whole.\<close>

lemma placed_extend: "placed hs ls out \<Longrightarrow> \<exists>out'. placed hs (pre @ ls) out'"
proof (induction rule: placed.induct)
  case (Replace h hs ls out kept)
  have "placed (h # hs) ((pre @ kept) @ hk_find h @ ls) ((pre @ kept) @ hk_replace h @ out)"
    using Replace by (blast intro: placed.Replace)
  then show ?case by auto
qed (blast intro: placed.intros)+

lemma find_contiguous_Some:
  assumes "find_contiguous ls needle from = Some start"
  shows "from \<le> start \<and> start + length needle \<le> length ls \<and> take (length needle) (drop start ls) = needle
    \<and> (\<forall>j. from \<le> j \<longrightarrow> j < start \<longrightarrow> take (length needle) (drop j ls) \<noteq> needle)"
proof -
  let ?l = "[from..<Suc (length ls - length needle)]"
  let ?P = "\<lambda>start. take (length needle) (drop start ls) = needle"
  have le: "length needle \<le> length ls" and "find ?P ?l = Some start"
    using assms by (auto simp: find_contiguous_def Let_def split: if_splits)
  then obtain i where i: "i < length ?l" "?P (?l ! i)" "start = ?l ! i" "\<forall>j<i. \<not> ?P (?l ! j)"
    unfolding find_Some_iff by blast
  then have start: "start = from + i" "start < Suc (length ls - length needle)" by (simp_all del: upt_Suc)
  have "\<not> ?P j" if "from \<le> j" "j < start" for j
    using i(1,4) that start by (auto simp del: upt_Suc dest: spec [of _ "j - from"])
  moreover have "?P start" using i(2,3) by simp
  ultimately show ?thesis using start le by (auto simp del: upt_Suc)
qed

lemma find_contiguous_None:
  assumes "find_contiguous ls needle from = None" and "needle \<noteq> []" and "from \<le> j"
    and "j + length needle \<le> length ls"
  shows "take (length needle) (drop j ls) \<noteq> needle"
  using assms by (auto simp: find_contiguous_def Let_def find_None_iff split: if_splits)

lemma hunk_loop_sound:
  assumes "hunk_loop orig hi hs out cursor = Inr (out', cursor')"
  shows "\<exists>out''. out' @ drop cursor' orig = out @ out'' \<and> placed hs (drop cursor orig) out''"
  using assms
proof (induction hs arbitrary: hi out cursor)
  case Nil
  then show ?case by (auto intro: placed.Done)
next
  case (Cons h hs)
  show ?case
  proof (cases "hk_find h = []")
    case True
    then obtain o2 where "out' @ drop cursor' orig = (out @ hk_replace h) @ o2" "placed hs (drop cursor orig) o2"
      using Cons by fastforce
    then show ?thesis using True by (intro exI [of _ "hk_replace h @ o2"]) (simp add: placed.Insert)
  next
    case False
    then obtain start where f: "find_contiguous orig (hk_find h) cursor = Some start"
      using Cons.prems by (auto split: option.splits)
    let ?kept = "take (start - cursor) (drop cursor orig)" and ?next = "start + length (hk_find h)"
    obtain o2 where o2: "out' @ drop cursor' orig = (out @ ?kept @ hk_replace h) @ o2"
      and "placed hs (drop ?next orig) o2"
      using Cons.IH Cons.prems False f by fastforce
    moreover have "drop cursor orig = ?kept @ hk_find h @ drop ?next orig"
    proof -
      have "drop cursor orig = ?kept @ drop start orig"
        using find_contiguous_Some [OF f] append_take_drop_id [of "start - cursor" "drop cursor orig"] by simp
      moreover have "drop start orig = hk_find h @ drop ?next orig"
        using find_contiguous_Some [OF f] append_take_drop_id [of "length (hk_find h)" "drop start orig"]
        by (simp add: add.commute)
      ultimately show ?thesis by simp
    qed
    ultimately show ?thesis
      using placed.Replace [OF False, of hs "drop ?next orig" o2 ?kept] by fastforce
  qed
qed

lemma hunk_loop_complete:
  assumes "placed hs (drop cursor orig) out'" and "cursor \<le> length orig"
  shows "is_ok (hunk_loop orig hi hs out cursor)"
  using assms
proof (induction hs arbitrary: hi out out' cursor)
  case (Cons h hs)
  from Cons.prems(1) consider
      (insert) o2 where "hk_find h = []" "placed hs (drop cursor orig) o2"
    | (replace) kept ls o2 where "drop cursor orig = kept @ hk_find h @ ls" "hk_find h \<noteq> []" "placed hs ls o2"
    by (auto elim: placed_ConsE)
  then show ?case
  proof cases
    case insert
    then show ?thesis using Cons.IH Cons.prems(2) by simp
  next
    case replace
    let ?k = "cursor + length kept"
    have tail: "drop ?k orig = hk_find h @ ls" using replace(1) by (metis add.commute append_eq_conv_conj drop_drop)
    have len: "?k + length (hk_find h) \<le> length orig"
      using arg_cong [OF replace(1), of length] Cons.prems(2) by simp
    have at: "take (length (hk_find h)) (drop ?k orig) = hk_find h" using tail by simp
    then obtain start where f: "find_contiguous orig (hk_find h) cursor = Some start"
      using find_contiguous_None [OF _ replace(2) _ len] by (cases "find_contiguous orig (hk_find h) cursor") auto
    have start: "start \<le> ?k" "start + length (hk_find h) \<le> length orig"
      using find_contiguous_Some [OF f] at by (auto simp: not_less [symmetric])
    let ?next = "start + length (hk_find h)"
    have "drop (?k + length (hk_find h)) orig = ls" using tail by (metis add.commute append_eq_conv_conj drop_drop)
    then have "drop ?next orig = take (?k - start) (drop ?next orig) @ ls"
      using start append_take_drop_id [of "?k - start" "drop ?next orig"] by (simp add: ac_simps)
    then obtain o3 where "placed hs (drop ?next orig) o3"
      using placed_extend [OF replace(3)] by metis
    then show ?thesis using Cons.IH [of ?next] start replace(2) f by simp
  qed
qed simp


section \<open>Rendering\<close>

text \<open>The text of a patch: every line ended by a line feed.\<close>

definition unlines :: "string list \<Rightarrow> string" where
  "unlines ls = concat (map (\<lambda>l. l @ [newline]) ls)"

definition line_ok :: "string \<Rightarrow> bool" where
  "line_ok l \<longleftrightarrow> newline \<notin> set l \<and> (l = [] \<or> last l \<noteq> CHR 0x0D)"

definition path_ok :: "string \<Rightarrow> bool" where
  "path_ok p \<longleftrightarrow> p \<noteq> [] \<and> is_graph (hd p) \<and> is_graph (last p) \<and> newline \<notin> set p"

definition render_hunk :: "hunk \<Rightarrow> string list" where
  "render_hunk h = ''@@'' # map ((#) CHR ''-'') (hk_find h) @ map ((#) CHR ''+'') (hk_replace h)"

fun render_op :: "file_op \<Rightarrow> string list" where
  "render_op (Add p c) = (''*** Add File: '' @ p) # map ((#) CHR ''+'') (lines c)"
| "render_op (Delete p) = [''*** Delete File: '' @ p]"
| "render_op (Update p hs) = (''*** Update File: '' @ p) # concat (map render_hunk hs)"

definition render_patch :: "file_op list \<Rightarrow> string" where
  "render_patch ops = unlines (''*** Begin Patch'' # concat (map render_op ops) @ [''*** End Patch''])"

fun op_ok :: "file_op \<Rightarrow> bool" where
  "op_ok (Add p c) = (path_ok p \<and> list_all line_ok (lines c) \<and> c = unlines (lines c) \<and> c \<noteq> [newline])"
| "op_ok (Delete p) = path_ok p"
| "op_ok (Update p hs) = (path_ok p \<and> hs \<noteq> [] \<and> list_all (\<lambda>h. list_all line_ok (hk_find h)
     \<and> list_all line_ok (hk_replace h) \<and> (hk_find h \<noteq> [] \<or> hk_replace h \<noteq> [])) hs)"

lemma lines_unlines: "list_all line_ok ls \<Longrightarrow> lines (unlines ls) = ls"
  by (induction ls) (auto simp: lines_def unlines_def line_ok_def lines_aux_line strip_cr_def)

lemma unlines_join: "ls \<noteq> [] \<Longrightarrow> unlines ls = join [newline] ls @ [newline]"
  by (induction "[newline]" ls rule: join.induct) (simp_all add: unlines_def)

lemma add_contents_unlines: "c = unlines (lines c) \<Longrightarrow> c \<noteq> [newline] \<Longrightarrow> add_contents (lines c) = c"
  by (cases "lines c = []") (auto simp: add_contents_def Let_def unlines_join simp: unlines_def [of "[]"])

lemma ws_seqs_no_graph: "list_all (\<lambda>w. list_all (\<lambda>c. \<not> is_graph c) w) ws_seqs"
  by (simp add: ws_seqs_def is_graph_def)

lemma ws_len_rev_last:
  assumes "s \<noteq> []" and "is_graph (last s)"
  shows "ws_len_rev s < length s"
proof (cases "find (\<lambda>w. prefix (rev w) s) ws_seqs")
  case (Some w)
  then have w: "w \<in> set ws_seqs" "prefix (rev w) s" by (auto simp: find_Some_iff)
  have "length w \<noteq> length s"
  proof
    assume "length w = length s"
    then have "rev w = s" using w(2) by (auto simp: prefix_def)
    then have "last s \<in> set w" using assms(1) by (metis last_in_set set_rev)
    then show False using w(1) assms(2) ws_seqs_no_graph by (auto simp: list_all_iff)
  qed
  then show ?thesis using Some prefix_length_le [OF w(2)] by (simp add: ws_len_rev_def)
qed (use assms in \<open>simp add: ws_len_rev_def\<close>)

lemma trim_rev_last: "s \<noteq> [] \<Longrightarrow> is_graph (last s) \<Longrightarrow> trim_rev s \<noteq> [] \<and> last (trim_rev s) = last s"
proof (induction s rule: trim_rev.induct)
  case (1 s)
  then show ?case
    using ws_len_rev_last [of s] by (cases "ws_len_rev s = 0") (auto simp: trim_rev.simps [of s])
qed

lemma trim_end_Cons: "is_graph c \<Longrightarrow> \<exists>t. trim_end (c # s) = c # t"
  using trim_rev_last [of "rev s @ [c]"]
  by (cases "trim_rev (rev s @ [c])" rule: rev_cases) (auto simp: trim_end_def)

lemma not_marker: "is_graph c \<Longrightarrow> c \<noteq> CHR ''*'' \<Longrightarrow> \<not> is_section_marker (c # s)"
  using trim_end_Cons [of c s] by (auto simp: is_section_marker_def Let_def)

lemma plus_minus [simp]:
  "\<not> is_section_marker (CHR ''+'' # s)" "\<not> is_section_marker (CHR ''-'' # s)" "\<not> is_section_marker ''@@''"
  by (rule not_marker; simp add: is_graph_def)+


definition section_start :: "string list \<Rightarrow> bool" where
  "section_start ls \<longleftrightarrow> ls \<noteq> [] \<and> is_section_marker (hd ls)"

lemma add_body_render:
  "section_start rest \<Longrightarrow> add_body (map ((#) CHR ''+'') ls @ rest) = (ls, rest)"
  by (induction ls) (auto simp: strip_or_same_def strip_prefix_def section_start_def neq_Nil_conv)

lemma hunk_body_stop:
  "rest \<noteq> [] \<Longrightarrow> is_section_marker (hd rest) \<or> prefix ''@@'' (hd rest) \<Longrightarrow>
    hunk_body rest fnd repl any = ((\<lparr>hk_find = fnd, hk_replace = repl\<rparr>, any), rest)"
  by (cases rest) auto

lemma hunk_body_plus:
  "hunk_body (map ((#) CHR ''+'') ls @ rest) fnd repl any = hunk_body rest fnd (repl @ ls) (any \<or> ls \<noteq> [])"
  by (induction ls arbitrary: repl any) (simp_all add: strip_prefix_def)

lemma hunk_body_minus:
  "hunk_body (map ((#) CHR ''-'') ls @ rest) fnd repl any = hunk_body rest (fnd @ ls) repl (any \<or> ls \<noteq> [])"
  by (induction ls arbitrary: fnd any) (simp_all add: strip_prefix_def)

lemma parse_hunks_marker: "section_start rest \<Longrightarrow> parse_hunks rest = ([], rest)"
  by (cases rest) (simp_all add: section_start_def)

lemma parse_hunks_render:
  assumes "section_start rest" and "list_all (\<lambda>h. hk_find h \<noteq> [] \<or> hk_replace h \<noteq> []) hs"
  shows "parse_hunks (concat (map render_hunk hs) @ rest) = (hs, rest)"
  using assms(2)
proof (induction hs)
  case Nil
  then show ?case using assms(1) by (simp add: parse_hunks_marker)
next
  case (Cons h hs)
  let ?rest = "concat (map render_hunk hs) @ rest"
  have "?rest \<noteq> [] \<and> (is_section_marker (hd ?rest) \<or> prefix ''@@'' (hd ?rest))"
    using assms(1) by (cases hs) (auto simp: section_start_def render_hunk_def)
  then have stop: "hunk_body ?rest f r a = ((\<lparr>hk_find = f, hk_replace = r\<rparr>, a), ?rest)" for f r a
    using hunk_body_stop by blast
  let ?ls = "map ((#) CHR ''-'') (hk_find h) @ map ((#) CHR ''+'') (hk_replace h) @ ?rest"
  have "hunk_body ?ls [] [] False = ((h, True), ?rest)"
    using Cons.prems by (auto simp: hunk_body_minus hunk_body_plus stop)
  then have "one_hunk ''@@'' ?ls = ((h, True), ?rest)" by (simp add: one_hunk_def)
  moreover have "concat (map render_hunk (h # hs)) @ rest = ''@@'' # ?ls" by (simp add: render_hunk_def)
  moreover have "parse_hunks ?rest = (hs, rest)" using Cons by simp
  ultimately show ?case by (simp only: parse_hunks.simps) simp
qed

text \<open>A header line of a section, which is never the end marker.\<close>

lemma path_trim:
  assumes "path_ok p" and "is_graph c"
  shows "trim p = p" "p \<noteq> []" "trim_end (c # w @ p) = c # w @ p" "trim (c # w @ p) = c # w @ p"
  using assms by (auto simp: path_ok_def trim_graph trim_end_graph)

lemma star_graph: "is_graph CHR ''*''"
  by (simp add: is_graph_def)

lemmas header_trim =
  path_trim(3,4) [OF _ star_graph, of _ "''** Add File: ''", simplified]
  path_trim(3,4) [OF _ star_graph, of _ "''** Delete File: ''", simplified]
  path_trim(3,4) [OF _ star_graph, of _ "''** Update File: ''", simplified]

lemma marker_headers:
  "path_ok p \<Longrightarrow> is_section_marker (''*** Add File: '' @ p)"
  "path_ok p \<Longrightarrow> is_section_marker (''*** Delete File: '' @ p)"
  "path_ok p \<Longrightarrow> is_section_marker (''*** Update File: '' @ p)"
  by (simp_all add: is_section_marker_def header_trim)

lemma end_marker: "trim ''*** End Patch'' = ''*** End Patch''" "trim_end ''*** End Patch'' = ''*** End Patch''"
  "is_section_marker ''*** End Patch''"
  by (simp_all add: is_section_marker_def trim_graph trim_end_graph is_graph_def)

lemma parse_sections_op:
  assumes "op_ok op" and "section_start rest"
  shows "parse_sections (render_op op @ rest) ops = parse_sections rest (ops @ [op])"
proof (cases op)
  case (Add p c)
  have p: "path_ok p" using assms(1) Add by simp
  have "add_contents (lines c) = c" using assms(1) Add by (intro add_contents_unlines) auto
  then show ?thesis
    using path_trim(1,2) [OF p star_graph] assms(2) Add
    by (simp add: header_trim [OF p] add_body_render strip_prefix_def Let_def)
next
  case (Delete p)
  then have p: "path_ok p" using assms(1) by simp
  then show ?thesis
    using path_trim(1,2) [OF p star_graph] Delete by (simp add: header_trim [OF p] strip_prefix_def Let_def)
next
  case (Update p hs)
  have p: "path_ok p" and "hs \<noteq> []" and hs: "list_all (\<lambda>h. hk_find h \<noteq> [] \<or> hk_replace h \<noteq> []) hs"
    using assms(1) Update by (auto simp: list_all_iff)
  then show ?thesis
    using path_trim(1,2) [OF p star_graph] Update parse_hunks_render [OF assms(2) hs]
    by (simp add: header_trim [OF p] strip_prefix_def Let_def)
qed

lemma section_start_render: "list_all op_ok ops \<Longrightarrow> section_start (concat (map render_op ops) @ [''*** End Patch''])"
proof (cases ops)
  case (Cons op ops')
  assume "list_all op_ok ops"
  then show ?thesis using Cons marker_headers by (cases op) (auto simp: section_start_def)
qed (simp add: section_start_def end_marker)

lemma parse_sections_render:
  "list_all op_ok ops \<Longrightarrow> done @ ops \<noteq> [] \<Longrightarrow>
    parse_sections (concat (map render_op ops) @ [''*** End Patch'']) done = Inr (done @ ops)"
proof (induction ops arbitrary: "done")
  case (Cons op ops)
  then show ?case using parse_sections_op [OF _ section_start_render, of op ops "done"] by simp
qed (simp add: end_marker)

lemma path_lines_ok: "path_ok p \<Longrightarrow> newline \<notin> set w \<Longrightarrow> line_ok (w @ p)"
  by (auto simp: path_ok_def line_ok_def is_graph_def)

lemma cons_line_ok: "line_ok l \<Longrightarrow> c \<noteq> newline \<Longrightarrow> c \<noteq> CHR 0x0D \<Longrightarrow> line_ok (c # l)"
  by (auto simp: line_ok_def)

lemma render_hunk_lines: "list_all line_ok (hk_find h) \<Longrightarrow> list_all line_ok (hk_replace h) \<Longrightarrow> list_all line_ok (render_hunk h)"
  by (auto simp: render_hunk_def list_all_iff cons_line_ok) (simp add: line_ok_def)

lemma render_op_lines:
  assumes "op_ok op"
  shows "list_all line_ok (render_op op)"
proof (cases op)
  case (Add p c)
  then show ?thesis
    using assms path_lines_ok [of p "''*** Add File: ''"] by (auto simp: list_all_iff cons_line_ok)
next
  case (Delete p)
  then show ?thesis using assms path_lines_ok [of p "''*** Delete File: ''"] by simp
next
  case (Update p hs)
  then show ?thesis
    using assms path_lines_ok [of p "''*** Update File: ''"] render_hunk_lines by (simp add: list_all_iff) blast
qed

text \<open>C38: Parsing reads back what is rendered: a list of operations with proper paths and lines, printed
  as a patch, is parsed to itself, whatever lines stand before the patch.\<close>

theorem parse_render_patch:
  assumes "list_all op_ok ops" and "ops \<noteq> []" and "list_all line_ok pre"
    and "list_all (\<lambda>l. trim l \<noteq> ''*** Begin Patch'') pre"
  shows "parse_patch (unlines pre @ render_patch ops) = Inr ops"
proof -
  let ?body = "concat (map render_op ops) @ [''*** End Patch'']"
  have "unlines pre @ render_patch ops = unlines (pre @ ''*** Begin Patch'' # ?body)"
    by (simp add: render_patch_def unlines_def)
  moreover have "list_all line_ok (pre @ ''*** Begin Patch'' # ?body)"
    using assms(1,3) render_op_lines by (auto simp: list_all_iff) (auto simp: line_ok_def)
  moreover have "skip_to_begin (ls @ ''*** Begin Patch'' # xs) = Some xs"
    if "list_all (\<lambda>l. trim l \<noteq> ''*** Begin Patch'') ls" for ls xs
    using that by (induction ls) (simp_all add: trim_graph is_graph_def)
  ultimately show ?thesis
    using parse_sections_render [OF assms(1), of "[]"] assms(2,4) by (simp add: parse_patch_def lines_unlines)
qed


theorem parse_render_patch_witness:
  "parse_patch (unlines [''Here it is:''] @ render_patch [Add ''a.txt'' (unlines [''x'', [], ''y'']), Delete ''b'',
      Update ''c'' [\<lparr>hk_find = [''old''], hk_replace = [''new'']\<rparr>]])
    = Inr [Add ''a.txt'' (unlines [''x'', [], ''y'']), Delete ''b'',
      Update ''c'' [\<lparr>hk_find = [''old''], hk_replace = [''new'']\<rparr>]]"
  by (rule parse_render_patch)
    (simp_all add: path_ok_def is_graph_def line_ok_def trim_graph unlines_def lines_def strip_cr_def)

section \<open>Properties of application\<close>

text \<open>Hunks are applied whenever they can be: the search for the first match from where the last hunk
  ended succeeds exactly if the hunks can be placed in the lines of the file, in order and
  disjoint, and its result is the lines of such a placement.\<close>

theorem apply_hunks_placement:
  "(is_ok (apply_hunks content hunks) \<longleftrightarrow> (\<exists>out. placed hunks (lines content) out))
    \<and> (case apply_hunks content hunks of
         Inl hi \<Rightarrow> True
       | Inr result \<Rightarrow> \<exists>out. placed hunks (lines content) out
           \<and> result = join [newline] out @ (if ends_with_newline content then [newline] else []))"
proof (cases "hunk_loop (lines content) 0 hunks [] 0")
  case (Inl hi)
  then have "\<not> placed hunks (lines content) out" for out
    using hunk_loop_complete [of hunks 0 "lines content" out 0 "[]"] by auto
  then show ?thesis using Inl by (simp add: apply_hunks_def Let_def)
next
  case (Inr r)
  then obtain out cursor where "hunk_loop (lines content) 0 hunks [] 0 = Inr (out, cursor)" by (cases r) auto
  then show ?thesis using hunk_loop_sound [of "lines content" 0 hunks "[]" 0 out cursor] Inr
    by (auto simp: apply_hunks_def Let_def)
qed

text \<open>C37: A patch that is reported as applied has the effect of its operations performed one after the
  other, if no two of them name the same file.\<close>

theorem patch_refines_operations:
  assumes "fs_laws fs files" and "apply_patch fs resolve (Some input) f = (Inr txt, f')"
    and "parse_patch input = Inr ops" and "distinct (map (resolve \<circ> op_path) ops)"
  shows "files f' = fold (op_effect resolve) ops (files f)"
proof -
  obtain plan f1 where plan: "plan_patch fs resolve f ops = Inr plan"
    and writes: "commit_writes fs (pl_writes plan) f = (None, f1)"
    and deletes: "commit_deletes fs (pl_deletes plan) f1 = (None, f')"
    using assms(2,3) by (auto simp: apply_patch_def split: sum.splits prod.splits option.splits)
  let ?p0 = "\<lparr>pl_writes = [], pl_deletes = [], pl_summary = []\<rparr> :: 'a plan"
  have "plan_effect plan (files f) = fold (op_effect resolve) ops (plan_effect ?p0 (files f)) \<and> plan_ok plan"
    using plan assms(4) by (intro plan_loop_effect [OF assms(1)]) (auto simp: plan_patch_def plan_ok_def touched_def)
  moreover have "plan_effect ?p0 (files f) = files f" by (simp add: plan_effect_def)
  moreover have "distinct (map fst (pl_writes plan))"
    using calculation(1) by (simp add: plan_ok_def strict_sorted_iff)
  then have "files f' = plan_effect plan (files f)"
    using commit_writes_effect [OF assms(1) writes] commit_deletes_effect [OF assms(1) deletes]
    by (intro ext) (simp add: plan_effect_def)
  ultimately show ?thesis by simp
qed

definition sample_patch :: "file_op list" where
  "sample_patch = [Update ''f'' [\<lparr>hk_find = [''a''], hk_replace = [''b'']\<rparr>], Delete ''g'', Add ''h'' (unlines [''x''])]"

theorem patch_refines_operations_witness:
  "map_of (snd (apply_patch map_fs (\<lambda>p. p) (Some (render_patch sample_patch)) [(''f'', unlines [''a'']), (''g'', [])]))
    = fold (op_effect (\<lambda>p. p)) sample_patch (map_of [(''f'', unlines [''a'']), (''g'', [])])"
proof (rule patch_refines_operations [where input = "render_patch sample_patch" and files = map_of])
  show "fs_laws map_fs map_of" by (rule map_fs_laws)
  show "apply_patch map_fs (\<lambda>p. p) (Some (render_patch sample_patch)) [(''f'', unlines [''a'']), (''g'', [])]
    = (Inr ''applied patch: update f (1 hunk(s)); delete g; add h'',
       snd (apply_patch map_fs (\<lambda>p. p) (Some (render_patch sample_patch)) [(''f'', unlines [''a'']), (''g'', [])]))"
    by code_simp
  show "parse_patch (render_patch sample_patch) = Inr sample_patch" by code_simp
qed (simp add: sample_patch_def)

text \<open>Every hunk is matched against the file as it is on disk: of two sections that update the same
  file, both reported as applied, only the second leaves a trace.\<close>

theorem update_twice_loses_first:
  assumes "fs_read fs (resolve p) f = Some c" and "apply_hunks c hs1 = Inr c1" and "apply_hunks c hs2 = Inr c2"
  shows "\<exists>summary. plan_patch fs resolve f [Update p hs1, Update p hs2] = Inr \<lparr>pl_writes = [(resolve p, c2)],
      pl_deletes = [], pl_summary = summary\<rparr> \<and> length summary = 2"
  using assms by (simp add: plan_patch_def)

theorem update_twice_loses_first_witness:
  "\<exists>summary. plan_patch map_fs (\<lambda>p. p) [(''f'', unlines [''a'', ''b''])]
      [Update ''f'' [\<lparr>hk_find = [''a''], hk_replace = [''A'']\<rparr>], Update ''f'' [\<lparr>hk_find = [''b''], hk_replace = [''B'']\<rparr>]]
    = Inr \<lparr>pl_writes = [(''f'', unlines [''a'', ''B''])], pl_deletes = [], pl_summary = summary\<rparr> \<and> length summary = 2"
  by (rule update_twice_loses_first [where c = "unlines [''a'', ''b'']" and ?c1.0 = "unlines [''A'', ''b'']"])
    (simp add: map_fs_def, code_simp+)

lemma fst_True: "fst x \<Longrightarrow> x = (True, snd x)" and fst_False: "\<not> fst x \<Longrightarrow> x = (False, snd x)"
  by (cases x; simp)+

text \<open>The commit is not all-or-nothing: two sections that delete the same file pass the validation,
  and the second deletion fails after the writes and the first deletion are done.\<close>

theorem delete_twice_commits_half:
  assumes "fs_laws fs files" and "parse_patch input = Inr [Add q c, Delete p, Delete p]"
    and "\<not> fs_exists fs (resolve q) f" and "fs_exists fs (resolve p) f" and "resolve p \<noteq> resolve q"
    and "\<And>p f. fst (fs_create_parent fs p f)" and "\<And>p c f. fst (fs_write fs p c f)"
    and "fst (fs_remove fs (resolve p) (snd (fs_write fs (resolve q) c (snd (fs_create_parent fs (resolve q) f)))))"
    and "\<And>p f. \<not> fst (fs_remove fs p f) \<Longrightarrow> files (snd (fs_remove fs p f)) = files f"
  shows "fst (apply_patch fs resolve (Some input) f) = Inl (DeleteFailed (resolve p))
    \<and> files (snd (apply_patch fs resolve (Some input) f)) = (files f)(resolve q \<mapsto> c, resolve p := None)"
proof -
  obtain f1 where f1: "fs_create_parent fs (resolve q) f = (True, f1)" using assms(6) fst_True by blast
  obtain f2 where f2: "fs_write fs (resolve q) c f1 = (True, f2)" using assms(7) fst_True by blast
  obtain f3 where f3: "fs_remove fs (resolve p) f2 = (True, f3)" using assms(8) f1 f2 fst_True by fastforce
  have "files f1 = files f" and "files f2 = (files f1)(resolve q \<mapsto> c)"
    and "files f3 = (files f2)(resolve p := None)" and gone: "\<not> fs_exists fs (resolve p) f3"
    using assms(1) f1 f2 f3 unfolding fs_laws_def by (metis fst_conv snd_conv)+
  then have files: "files f3 = (files f)(resolve q \<mapsto> c, resolve p := None)" by simp
  have "\<not> fst (fs_remove fs (resolve p) f3)" using assms(1) gone unfolding fs_laws_def by blast
  then obtain f4 where f4: "fs_remove fs (resolve p) f3 = (False, f4)" and "files f4 = files f3"
    using assms(9) fst_False by fastforce
  moreover have "apply_patch fs resolve (Some input) f = (Inl (DeleteFailed (resolve p)), f4)"
    using assms(2-4) by (simp add: apply_patch_def plan_patch_def f1 f2 f3 f4)
  ultimately show ?thesis using files by simp
qed

theorem delete_twice_commits_half_witness:
  "fst (apply_patch map_fs (\<lambda>p. p) (Some (render_patch [Add ''new'' [], Delete ''old'', Delete ''old''])) [(''old'', ''x'')])
      = Inl (DeleteFailed ''old'')
    \<and> map_of (snd (apply_patch map_fs (\<lambda>p. p) (Some (render_patch [Add ''new'' [], Delete ''old'', Delete ''old'']))
        [(''old'', ''x'')])) = (map_of [(''old'', ''x'')])(''new'' \<mapsto> [], ''old'' := None)"
proof (rule delete_twice_commits_half [where q = "''new''" and c = "[]" and p = "''old''" and resolve = "\<lambda>p. p"])
  show "fs_laws map_fs map_of" by (rule map_fs_laws)
  show "parse_patch (render_patch [Add ''new'' [], Delete ''old'', Delete ''old''])
      = Inr [Add ''new'' [], Delete ''old'', Delete ''old'']"
    by code_simp
qed (simp_all add: map_fs_def split: if_splits)

lemma apply_hunks_cong:
  "lines c = lines c' \<Longrightarrow> ends_with_newline c = ends_with_newline c' \<Longrightarrow> apply_hunks c hs = apply_hunks c' hs"
  by (simp add: apply_hunks_def Let_def split: sum.split)

text \<open>The line ends of the file are not kept: a file with carriage returns is patched like the same
  file without them, so that every line loses its carriage return, also where no hunk applies.\<close>

theorem carriage_returns_dropped:
  assumes "list_all line_ok ls"
  shows "apply_hunks (concat (map (\<lambda>l. l @ [CHR 0x0D, newline]) ls)) hunks = apply_hunks (unlines ls) hunks"
proof -
  have "lines_aux [] (concat (map (\<lambda>l. l @ [CHR 0x0D, newline]) ls)) = ls"
    using assms
  proof (induction ls)
    case (Cons l ls)
    then show ?case
      using lines_aux_line [of "l @ [CHR 0x0D]" "[]"] by (simp add: line_ok_def strip_cr_def)
  qed simp
  moreover have "ends_with_newline (concat (map (\<lambda>l. l @ [CHR 0x0D, newline]) ls)) = ends_with_newline (unlines ls)"
    by (cases ls rule: rev_cases) (simp_all add: ends_with_newline_def unlines_def)
  ultimately show ?thesis using lines_unlines [OF assms] by (intro apply_hunks_cong) (simp_all add: lines_def)
qed

theorem carriage_returns_dropped_witness:
  "apply_hunks (concat (map (\<lambda>l. l @ [CHR 0x0D, newline]) [''a'', ''b''])) [\<lparr>hk_find = [''a''], hk_replace = [''c'']\<rparr>]
    = Inr (unlines [''c'', ''b''])"
  by (subst carriage_returns_dropped, code_simp, code_simp)

text \<open>A file all of whose lines are removed keeps an empty line.\<close>

lemma emptied_file_keeps_newline:
  assumes "list_all line_ok ls" and "ls \<noteq> []"
  shows "apply_hunks (unlines ls) [\<lparr>hk_find = ls, hk_replace = []\<rparr>] = Inr [newline]"
proof -
  have "find_contiguous ls ls 0 = Some 0" using assms(2) by (simp add: find_contiguous_def)
  moreover have "ends_with_newline (unlines ls)" using assms(2) by (simp add: ends_with_newline_def unlines_join)
  ultimately show ?thesis using assms by (simp add: apply_hunks_def Let_def lines_unlines)
qed

end
