(* ===== verification/Utf8.thy ===== *)
theory Utf8
  imports Prelude
begin

text \<open>
  The bytes of a text: UTF-8 sequences and the offsets at which a text may be cut, slices, the search
  for a substring and the split into words, with the lemmas that keep offsets between characters.
\<close>

section \<open>Slices, search and characters\<close>

text \<open>\<open>&text[a..b]\<close> panics when the offsets are out of order, past the end or inside a character.\<close>

definition slice :: "string \<Rightarrow> nat \<Rightarrow> nat \<Rightarrow> string option" where
  "slice s a b =
     (if a \<le> b \<and> is_char_boundary s a \<and> is_char_boundary s b then Some (drop a (take b s)) else None)"

text \<open>\<open>str::find\<close> of a string.\<close>

definition find_str :: "string \<Rightarrow> string \<Rightarrow> nat option" where
  "find_str hay needle = find (\<lambda>i. prefix needle (drop i hay)) [0..<Suc (length hay)]"

text \<open>The characters of a text, each as its bytes.\<close>

fun utf8_chars :: "string \<Rightarrow> string list" where
  "utf8_chars [] = []"
| "utf8_chars (c # cs) =
     (case utf8_chars cs of
        [] \<Rightarrow> [[c]]
      | w # ws \<Rightarrow> if is_utf8_cont (hd w) then (c # w) # ws else [c] # w # ws)"

definition is_ascii_alnum :: "char \<Rightarrow> bool" where
  "is_ascii_alnum c \<longleftrightarrow>
     (let n = of_char c :: nat in (48 \<le> n \<and> n \<le> 57) \<or> (65 \<le> n \<and> n \<le> 90) \<or> (97 \<le> n \<and> n \<le> 122))"

text \<open>
  The Unicode tables, a parameter: the classes of a character (given by its bytes), and the lower
  case of a text.  The tables of ASCII are an instance.
\<close>

record unicode =
  uc_uppercase :: "string \<Rightarrow> bool"
  uc_alphabetic :: "string \<Rightarrow> bool"
  uc_alphanumeric :: "string \<Rightarrow> bool"
  uc_lowercase :: "string \<Rightarrow> string"

definition ascii_unicode :: unicode where
  "ascii_unicode =
     \<lparr>uc_uppercase = (\<lambda>c. list_all (\<lambda>b. 65 \<le> (of_char b :: nat) \<and> of_char b \<le> (90 :: nat)) c),
      uc_alphabetic = list_all (\<lambda>b. is_ascii_alnum b \<and> \<not> is_ascii_digit b),
      uc_alphanumeric = list_all is_ascii_alnum,
      uc_lowercase = map ascii_lower\<rparr>"

text \<open>\<open>str::trim_matches\<close> with a character.\<close>

definition trim_matches :: "char \<Rightarrow> string \<Rightarrow> string" where
  "trim_matches c s = rev (dropWhile (\<lambda>x. x = c) (rev (dropWhile (\<lambda>x. x = c) s)))"

section \<open>Well-formed texts\<close>

text \<open>The length of a sequence by its first byte, 0 for a byte that cannot be first.\<close>

definition utf8_len :: "char \<Rightarrow> nat" where
  "utf8_len c =
     (let n = of_char c :: nat in
      if n < 128 then 1
      else if 194 \<le> n \<and> n < 224 then 2
      else if 224 \<le> n \<and> n < 240 then 3
      else if 240 \<le> n \<and> n < 245 then 4
      else 0)"

definition utf8_char :: "string \<Rightarrow> bool" where
  "utf8_char w \<longleftrightarrow> w \<noteq> [] \<and> length w = utf8_len (hd w) \<and> list_all is_utf8_cont (tl w)"

inductive utf8 :: "string \<Rightarrow> bool" where
  Empty: "utf8 []"
| Char: "utf8_char w \<Longrightarrow> utf8 s \<Longrightarrow> utf8 (w @ s)"

definition ascii :: "char \<Rightarrow> bool" where
  "ascii c \<longleftrightarrow> (of_char c :: nat) < 128"

lemma cont_facts:
  "is_utf8_cont c \<Longrightarrow> utf8_len c = 0" "is_utf8_cont c \<Longrightarrow> \<not> ascii c" "ascii c \<Longrightarrow> utf8_len c = 1"
  "ascii c \<Longrightarrow> \<not> is_utf8_cont c"
  by (auto simp: is_utf8_cont_def utf8_len_def ascii_def Let_def)

lemma utf8_char_hd: "utf8_char w \<Longrightarrow> \<not> is_utf8_cont (hd w)"
  by (auto simp: utf8_char_def cont_facts(1))

lemma utf8_hd: "utf8 s \<Longrightarrow> s \<noteq> [] \<Longrightarrow> \<not> is_utf8_cont (hd s)"
  by (induction rule: utf8.induct) (auto simp: utf8_char_hd utf8_char_def hd_append)

lemma utf8_char_ascii: "ascii c \<Longrightarrow> utf8_char [c]"
  by (simp add: utf8_char_def cont_facts)

lemma utf8_ascii: "list_all ascii s \<Longrightarrow> utf8 s"
proof (induction s)
  case (Cons c s)
  then show ?case using utf8.Char [OF utf8_char_ascii, of c s] by simp
qed (rule utf8.Empty)

lemma boundary_0 [simp]: "utf8 s \<Longrightarrow> is_char_boundary s 0"
  using utf8_hd [of s] by (cases s) (auto simp: is_char_boundary_def)

lemma boundary_length [simp]: "is_char_boundary s (length s)"
  by (simp add: is_char_boundary_def)

lemma boundary_le: "is_char_boundary s i \<Longrightarrow> i \<le> length s"
  by (auto simp: is_char_boundary_def)

lemma boundary_append: "is_char_boundary (w @ s) (length w + i) = is_char_boundary s i"
  by (auto simp: is_char_boundary_def nth_append)

text \<open>Inside the first character there is no boundary.\<close>

lemma boundary_inside:
  assumes "utf8_char w" and "is_char_boundary (w @ s) i" and "i < length w"
  shows "i = 0"
proof (rule ccontr)
  assume "i \<noteq> 0"
  then have "(w @ s) ! i = tl w ! (i - 1)" using assms(1,3) by (cases w) (auto simp: utf8_char_def nth_append)
  moreover have "is_utf8_cont (tl w ! (i - 1))"
    using assms(1,3) \<open>i \<noteq> 0\<close> by (auto simp: utf8_char_def list_all_length)
  ultimately show False using assms(2,3) by (auto simp: is_char_boundary_def)
qed

lemma utf8_cut: "utf8 s \<Longrightarrow> is_char_boundary s i \<Longrightarrow> utf8 (take i s) \<and> utf8 (drop i s)"
proof (induction arbitrary: i rule: utf8.induct)
  case (Char w s)
  show ?case
  proof (cases "i < length w")
    case True
    then have i: "i = 0" using Char.hyps(1) Char.prems by (intro boundary_inside)
    have "utf8 (w @ s)" using Char.hyps by (rule utf8.Char)
    then show ?thesis using i by (simp add: utf8.Empty)
  next
    case False
    then have "is_char_boundary s (i - length w)"
      using Char.prems boundary_append [of w s "i - length w"] by simp
    then have cut: "utf8 (take (i - length w) s)" "utf8 (drop (i - length w) s)" using Char.IH by blast+
    have "utf8 (w @ take (i - length w) s)" using Char.hyps(1) cut(1) by (rule utf8.Char)
    then show ?thesis using cut(2) False by simp
  qed
qed (simp add: is_char_boundary_def utf8.Empty)

lemma utf8_char_append:
  assumes "utf8 (w @ s)" and "utf8_char w"
  shows "utf8 s"
  using assms(1)
proof cases
  case Empty
  then show ?thesis using assms(2) by (simp add: utf8_char_def)
next
  case (Char v t)
  have "hd v = hd w" using Char assms(2) by (metis hd_append2 utf8_char_def)
  then have "length v = length w" using Char(2) assms(2) by (simp add: utf8_char_def)
  then have "t = s" using Char(1) by (metis append_eq_append_conv)
  then show ?thesis using Char(3) by blast
qed

lemma utf8_append: "utf8 x \<Longrightarrow> utf8 (x @ y) \<Longrightarrow> utf8 y"
  by (induction rule: utf8.induct) (auto dest: utf8_char_append)

text \<open>After an ASCII character the text may be cut.\<close>

lemma boundary_after_ascii: "utf8 s \<Longrightarrow> i < length s \<Longrightarrow> ascii (s ! i) \<Longrightarrow> is_char_boundary s (Suc i)"
proof (induction arbitrary: i rule: utf8.induct)
  case (Char w s)
  show ?case
  proof (cases "i < length w")
    case True
    then have "\<not> is_utf8_cont (w ! i)" using Char.prems(2) by (simp add: nth_append cont_facts(4))
    then have "i = 0"
      using True Char.hyps(1) by (cases i; cases w) (auto simp: utf8_char_def list_all_length)
    then have "length w = 1" using True Char.hyps(1) Char.prems(2)
      by (cases w) (auto simp: utf8_char_def cont_facts(3))
    then show ?thesis using boundary_append [of w s 0] Char.hyps(2) \<open>i = 0\<close> by simp
  next
    case False
    then show ?thesis
      using Char.IH [of "i - length w"] Char.prems boundary_append [of w s "Suc (i - length w)"]
      by (simp add: nth_append Suc_diff_le)
  qed
qed simp

lemma boundary_ascii: "i < length s \<Longrightarrow> ascii (s ! i) \<Longrightarrow> is_char_boundary s i"
  by (simp add: is_char_boundary_def cont_facts(4))

section \<open>Occurrences\<close>

lemma find_str_Some:
  assumes "find_str hay needle = Some i"
  shows "\<exists>rest. hay = take i hay @ needle @ rest \<and> i + length needle \<le> length hay"
proof -
  have "prefix needle (drop i hay)" and "i \<le> length hay"
    using assms by (auto simp: find_str_def find_Some_iff less_Suc_eq_le simp del: upt_Suc)
  then obtain rest where "drop i hay = needle @ rest" by (auto simp: prefix_def)
  then show ?thesis using \<open>i \<le> length hay\<close> append_take_drop_id [of i hay]
    by (intro exI [of _ rest]) (metis add_le_cancel_left append_assoc le_add1 length_append length_take min.absorb2)
qed

text \<open>A whole word is found between characters.\<close>

lemma find_str_boundaries:
  assumes "utf8 hay" and "utf8 needle" and "needle \<noteq> []" and "find_str hay needle = Some i"
  shows "is_char_boundary hay i \<and> is_char_boundary hay (i + length needle)"
proof -
  obtain rest where hay: "hay = take i hay @ needle @ rest" and le: "i + length needle \<le> length hay"
    using find_str_Some [OF assms(4)] by blast
  have "i < length hay" using le assms(3) by (cases needle) auto
  moreover have "hay ! i = hd needle" using hay assms(3) calculation
    by (metis append_is_Nil_conv append_take_drop_id hd_append2 hd_drop_conv_nth same_append_eq)
  ultimately have start: "is_char_boundary hay i" using utf8_hd [OF assms(2,3)] by (simp add: is_char_boundary_def)
  have "utf8 (needle @ rest)"
    using utf8_cut [OF assms(1) start] hay by (metis append_take_drop_id same_append_eq)
  then have "is_char_boundary rest 0" using utf8_append [OF assms(2)] by simp
  then have "is_char_boundary hay (i + length needle)"
    using boundary_append [of "take i hay @ needle" rest 0] hay \<open>i < length hay\<close>
    by (metis add_0_right append_assoc length_append length_take less_imp_le_nat min.absorb2)
  then show ?thesis using start by simp
qed

section \<open>Words\<close>

lemma ws_seqs_utf8: "list_all utf8_char ws_seqs"
  by code_simp

lemma ws_len_split:
  assumes "ws_len s \<noteq> 0"
  shows "\<exists>w. utf8_char w \<and> s = w @ drop (ws_len s) s"
proof -
  obtain w where w: "find (\<lambda>w. prefix w s) ws_seqs = Some w" and len: "ws_len s = length w"
    using assms by (auto simp: ws_len_def split: option.splits)
  then have "w \<in> set ws_seqs" and "prefix w s" by (auto simp: find_Some_iff)
  then show ?thesis using ws_seqs_utf8 len by (auto simp: list_all_iff prefix_def)
qed

lemma split_ws_aux_words:
  "utf8 (rev acc @ s) \<Longrightarrow> w \<in> set (split_ws_aux acc s) \<Longrightarrow> utf8 w \<and> w \<noteq> []"
proof (induction acc s rule: split_ws_aux.induct)
  case (1 acc s)
  show ?case
  proof (cases s)
    case Nil
    then show ?thesis using 1(3,4) by (auto simp: split_ws_aux.simps [of acc "[]"] split: if_splits)
  next
    case (Cons c cs)
    show ?thesis
    proof (cases "ws_len s = 0")
      case True
      then show ?thesis using 1(1) [OF Cons True] 1(3,4) Cons
        by (simp add: split_ws_aux.simps [of acc "c # cs"])
    next
      case False
      obtain v where v: "utf8_char v" "s = v @ drop (ws_len s) s" using ws_len_split [OF False] by blast
      then have "\<not> is_utf8_cont (hd s)" using utf8_char_hd by (metis hd_append2 utf8_char_def)
      then have "is_char_boundary (rev acc @ s) (length (rev acc) + 0)"
        using Cons unfolding boundary_append by (simp add: is_char_boundary_def)
      then have cut: "is_char_boundary (rev acc @ s) (length (rev acc))" by simp
      have "utf8 (rev acc)" and "utf8 s" using utf8_cut [OF 1(3) cut] by simp_all
      then have "utf8 (drop (ws_len s) s)" using v utf8_char_append by metis
      then show ?thesis using 1(2,4) Cons False \<open>utf8 (rev acc)\<close>
        by (auto simp: split_ws_aux.simps [of acc "c # cs"] split: if_splits)
    qed
  qed
qed

lemma split_whitespace_utf8: "utf8 s \<Longrightarrow> w \<in> set (split_whitespace s) \<Longrightarrow> utf8 w \<and> w \<noteq> []"
  using split_ws_aux_words [of "[]" s w] by (simp add: split_whitespace_def)

section \<open>Trimming\<close>

lemma utf8_trim_start: "utf8 s \<Longrightarrow> utf8 (trim_start s)"
proof (induction s rule: trim_start.induct)
  case (1 s)
  show ?case
  proof (cases "s = [] \<or> ws_len s = 0")
    case True
    then show ?thesis using 1(2) by (simp add: trim_start.simps [of s])
  next
    case False
    obtain v where "utf8_char v" "s = v @ drop (ws_len s) s" using ws_len_split [of s] False by blast
    then have "utf8 (drop (ws_len s) s)" using 1(2) utf8_char_append by metis
    then show ?thesis using 1(1) [OF False] False by (simp add: trim_start.simps [of s])
  qed
qed

lemma ws_len_rev_split:
  assumes "ws_len_rev s \<noteq> 0"
  shows "\<exists>w. utf8_char w \<and> rev s = rev (drop (ws_len_rev s) s) @ w"
proof -
  obtain w where w: "find (\<lambda>w. prefix (rev w) s) ws_seqs = Some w" and len: "ws_len_rev s = length w"
    using assms by (auto simp: ws_len_rev_def split: option.splits)
  then have "w \<in> set ws_seqs" and "prefix (rev w) s" by (auto simp: find_Some_iff)
  then show ?thesis using ws_seqs_utf8 len by (auto simp: list_all_iff prefix_def)
qed

lemma utf8_trim_rev: "utf8 (rev s) \<Longrightarrow> utf8 (rev (trim_rev s))"
proof (induction s rule: trim_rev.induct)
  case (1 s)
  show ?case
  proof (cases "s = [] \<or> ws_len_rev s = 0")
    case True
    then show ?thesis using 1(2) by (simp add: trim_rev.simps [of s])
  next
    case False
    let ?r = "rev (drop (ws_len_rev s) s)"
    obtain w where w: "utf8_char w" "rev s = ?r @ w" using ws_len_rev_split [of s] False by blast
    have "is_char_boundary (?r @ w) (length ?r)"
      using utf8_char_hd [OF w(1)] w(1) by (auto simp: is_char_boundary_def nth_append hd_conv_nth utf8_char_def)
    then have "utf8 ?r" using utf8_cut [of "?r @ w" "length ?r"] 1(2) w(2) by simp
    then show ?thesis using 1(1) [OF False] False by (simp add: trim_rev.simps [of s])
  qed
qed

lemma utf8_trim: "utf8 s \<Longrightarrow> utf8 (trim s)"
  using utf8_trim_rev [of "rev (trim_start s)"] utf8_trim_start [of s] by (simp add: trim_def trim_end_def)

section \<open>Characters\<close>

lemma utf8_chars_parts:
  "concat (utf8_chars s) = s"
  "\<forall>w \<in> set (utf8_chars s). w \<noteq> []"
  "\<forall>w \<in> set (tl (utf8_chars s)). \<not> is_utf8_cont (hd w)"
proof (induction s)
  case (Cons c s)
  { case 1
    show ?case using Cons(1) by (auto split: list.splits)
  next
    case 2
    show ?case using Cons(2) by (auto split: list.splits)
  next
    case 3
    show ?case using Cons(2,3) by (cases "utf8_chars s") (auto split: list.splits)
  }
qed simp_all

lemma chars_boundary:
  assumes "utf8 s" and "utf8_chars s = xs @ ys"
  shows "is_char_boundary s (length (concat xs))"
proof (cases ys)
  case Nil
  then show ?thesis using utf8_chars_parts(1) [of s] assms(2) by simp
next
  case (Cons w ys')
  have s: "s = concat xs @ w @ concat ys'" using utf8_chars_parts(1) [of s] assms(2) Cons by simp
  have "w \<noteq> []" using utf8_chars_parts(2) [of s] assms(2) Cons by simp
  moreover have "\<not> is_utf8_cont (hd w)"
  proof (cases xs)
    case Nil
    then show ?thesis using utf8_hd [OF assms(1)] s \<open>w \<noteq> []\<close> by simp
  next
    case (Cons x xs')
    then show ?thesis using utf8_chars_parts(3) [of s] assms(2) \<open>ys = w # ys'\<close> by simp
  qed
  ultimately show ?thesis
    unfolding is_char_boundary_def s by (simp add: nth_append hd_conv_nth)
qed

lemma utf8_chars_Char:
  "utf8_char w \<Longrightarrow> utf8 s \<Longrightarrow> utf8_chars (w @ s) = w # utf8_chars s"
proof (cases w)
  case (Cons c cs)
  assume w: "utf8_char w" and s: "utf8 s"
  have s_hd: "utf8_chars s = [] \<or> \<not> is_utf8_cont (hd (hd (utf8_chars s)))"
    using utf8_hd [OF s] utf8_chars_parts(1,2) [of s]
    by (cases "utf8_chars s") (auto simp: hd_append split: list.splits dest: sym)
  then have single: "utf8_chars (a # s) = [a] # utf8_chars s" for a by (auto split: list.splits)
  have many: "list_all is_utf8_cont (hd xs # tl xs) \<Longrightarrow> utf8_chars (xs @ s) = xs # utf8_chars s"
    if "xs \<noteq> []" for xs
    using that
  proof (induction xs rule: list_nonempty_induct)
    case (cons x xs)
    then show ?case by (cases xs) simp_all
  qed (simp add: single del: utf8_chars.simps)
  show ?thesis
  proof (cases "cs = []")
    case False
    then show ?thesis using w Cons many [OF False] by (cases cs) (simp_all add: utf8_char_def)
  qed (simp add: Cons single del: utf8_chars.simps)
qed (simp add: utf8_char_def)

text \<open>A search may leave out what cannot be the start.\<close>

lemma find_over_map: "find P (map f xs) = map_option f (find (P \<circ> f) xs)"
  by (induction xs) simp_all

lemma find_str_Cons:
  "find_str (c # cs) n = (if prefix n (c # cs) then Some 0 else map_option Suc (find_str cs n))"
proof -
  have "[0..<Suc (length (c # cs))] = 0 # map Suc [0..<Suc (length cs)]"
    by (metis Suc_length_conv list.size(4) map_Suc_upt upt_conv_Cons zero_less_Suc)
  then show ?thesis by (simp add: find_str_def find_over_map comp_def del: upt_Suc map_Suc_upt)
qed

lemma find_str_skip:
  "\<forall>i < length w. \<not> prefix n (drop i (w @ s)) \<Longrightarrow> find_str (w @ s) n = map_option (\<lambda>i. i + length w) (find_str s n)"
proof (induction w)
  case (Cons c w)
  have "\<not> prefix n (c # w @ s)" using Cons.prems [rule_format, of 0] by simp
  moreover have "find_str (w @ s) n = map_option (\<lambda>i. i + length w) (find_str s n)"
    using Cons.prems by (intro Cons.IH) (metis Suc_less_eq append_Cons drop_Suc_Cons length_Cons)
  ultimately show ?case by (simp add: find_str_Cons option.map_comp comp_def)
qed (simp add: option.map_ident)

lemma find_str_short: "length s < length n \<Longrightarrow> find_str s n = None"
  by (auto simp: find_str_def find_None_iff dest!: prefix_length_le)

end
