(* ===== verification/Redaction.thy ===== *)
theory Redaction
  imports Privacy
begin

text \<open>
  The properties of the privacy filter: scrubbing and redaction never cut a character, scrubbing
  replaces a choice of disjoint spans in which every detected span starts, and a redaction of a text
  without opening brackets is undone by its map.
\<close>

section \<open>The spans that are replaced\<close>

fun chosen :: "pii_match list \<Rightarrow> nat \<Rightarrow> pii_match list" where
  "chosen [] c = []"
| "chosen (m # ms) c = (if pm_start m < c then chosen ms c else m # chosen ms (pm_end m))"

text \<open>A text with the spans replaced, from an offset on.\<close>

fun with_spans :: "string \<Rightarrow> (pii_match \<Rightarrow> string) \<Rightarrow> pii_match list \<Rightarrow> nat \<Rightarrow> string" where
  "with_spans t f [] c = drop c t"
| "with_spans t f (m # ms) c = drop c (take (pm_start m) t) @ f m @ with_spans t f ms (pm_end m)"

lemma slice_ok: "a \<le> b \<Longrightarrow> is_char_boundary t a \<Longrightarrow> is_char_boundary t b \<Longrightarrow> slice t a b = Some (drop a (take b t))"
  by (simp add: slice_def)

lemma scrub_loop_eq:
  "\<forall>m \<in> set ms. span_ok t m \<Longrightarrow> is_char_boundary t c \<Longrightarrow>
    scrub_loop t ms c r = Some (r @ with_spans t (\<lambda>m. redacted) (chosen ms c) c)"
proof (induction ms arbitrary: c r)
  case Nil
  then show ?case using boundary_le [of t c] by (auto simp: slice_ok)
next
  case (Cons m ms)
  then show ?case by (auto simp: span_ok_def slice_ok split: option.split)
qed

lemma chosen_subseq: "subseq (chosen ms c) ms"
  by (induction ms arbitrary: c) auto

lemma chosen_start: "m \<in> set (chosen ms c) \<Longrightarrow> \<forall>m \<in> set ms. pm_start m \<le> pm_end m \<Longrightarrow> c \<le> pm_start m"
proof (induction ms arbitrary: c)
  case (Cons x ms)
  then show ?case by (fastforce split: if_splits)
qed simp

lemma chosen_disjoint:
  "\<forall>m \<in> set ms. pm_start m \<le> pm_end m \<Longrightarrow> sorted_wrt (\<lambda>a b. pm_end a \<le> pm_start b) (chosen ms c)"
  by (induction ms arbitrary: c) (auto dest: chosen_start)

text \<open>In a list sorted by the starts every span starts in a chosen one, or before the offset.\<close>

lemma chosen_covers:
  assumes "sorted (map pm_start ms)" and "m \<in> set ms" and "c \<le> pm_start m"
  shows "\<exists>x \<in> set (chosen ms c). pm_start x \<le> pm_start m \<and> (m = x \<or> pm_start m < pm_end x)"
  using assms
proof (induction ms arbitrary: c)
  case (Cons y ms)
  show ?case
  proof (cases "pm_start y < c")
    case True
    then have "m \<in> set ms" using Cons.prems by auto
    then show ?thesis using Cons.IH [of c] Cons.prems True by simp
  next
    case False
    have y: "y \<in> set (chosen (y # ms) c)" using False by simp
    have "pm_start y \<le> pm_start m" using Cons.prems(1,2) by auto
    then show ?thesis
    proof (cases "m = y \<or> pm_start m < pm_end y")
      case True
      then show ?thesis using y \<open>pm_start y \<le> pm_start m\<close> by blast
    next
      case inner: False
      then obtain x where "x \<in> set (chosen ms (pm_end y))" "pm_start x \<le> pm_start m \<and> (m = x \<or> pm_start m < pm_end x)"
        using Cons.IH [of "pm_end y"] Cons.prems by auto
      then show ?thesis using False by (intro bexI [of _ x]) auto
    qed
  qed
qed simp

lemma sorted_detect: "sorted (map pm_start (detect_pii u re c t))"
  by (simp add: detect_pii_def)

lemma scrub_text_eq:
  assumes "utf8 t" and "regex_laws re"
  shows "scrub_text (detect_pii u re c) t = Some (with_spans t (\<lambda>m. redacted) (chosen (detect_pii u re c t) 0) 0)"
  using assms by (auto simp: scrub_text_def Let_def scrub_loop_eq detected_ok)

text \<open>C8: Scrubbing a text never panics.  It replaces a choice of the detected spans that are disjoint and in
  order and leaves everything else, and every detected span starts inside one that is replaced or is
  replaced itself.\<close>

theorem scrub_replaces_disjoint_spans:
  assumes "utf8 t" and "regex_laws re"
  shows "\<exists>spans. scrub_text (detect_pii u re c) t = Some (with_spans t (\<lambda>m. redacted) spans 0)
    \<and> subseq spans (detect_pii u re c t) \<and> sorted_wrt (\<lambda>a b. pm_end a \<le> pm_start b) spans
    \<and> (\<forall>m \<in> set (detect_pii u re c t). \<exists>x \<in> set spans.
          pm_start x \<le> pm_start m \<and> (m = x \<or> pm_start m < pm_end x))"
proof (intro exI conjI)
  let ?ms = "detect_pii u re c t"
  show "scrub_text (detect_pii u re c) t = Some (with_spans t (\<lambda>m. redacted) (chosen ?ms 0) 0)"
    using assms by (rule scrub_text_eq)
  show "subseq (chosen ?ms 0) ?ms" by (rule chosen_subseq)
  show "sorted_wrt (\<lambda>a b. pm_end a \<le> pm_start b) (chosen ?ms 0)"
    using detected_ok [OF assms] by (intro chosen_disjoint) (auto simp: span_ok_def)
  show "\<forall>m \<in> set ?ms. \<exists>x \<in> set (chosen ?ms 0). pm_start x \<le> pm_start m \<and> (m = x \<or> pm_start m < pm_end x)"
    using chosen_covers [OF sorted_detect] by simp
qed

definition no_regex :: regex where
  "no_regex p = None"

lemma no_regex_laws: "regex_laws no_regex"
  by (simp add: regex_laws_def no_regex_def)

definition leaking_text :: string where
  "leaking_text = ''+1 8005551234bob@example.com''"

lemma leaking_text_utf8: "utf8 leaking_text"
  by (rule utf8_ascii) code_simp

lemma leaking_matches: "detect_pii ascii_unicode no_regex default_config leaking_text
    = [pii Phone 0 13 80, pii Email 3 28 95]"
  by code_simp

theorem scrub_replaces_disjoint_spans_witness:
  "\<exists>spans. scrub_text (detect_pii ascii_unicode no_regex default_config) leaking_text
      = Some (with_spans leaking_text (\<lambda>m. redacted) spans 0)
    \<and> subseq spans [pii Phone 0 13 80, pii Email 3 28 95]"
  using scrub_replaces_disjoint_spans [OF leaking_text_utf8 no_regex_laws, of ascii_unicode default_config]
  unfolding leaking_matches by blast

text \<open>Of two detected spans that cross only the first is replaced: the rest of the second one stays in the
  scrubbed text as it is.\<close>

theorem crossing_span_leaks:
  assumes "utf8 t" and "regex_laws re" and "detect_pii u re c t = [m, n]"
    and "pm_start m \<le> pm_start n" and "pm_start n < pm_end m" and "pm_end m < pm_end n"
  shows "scrub_text (detect_pii u re c) t
    = Some (take (pm_start m) t @ redacted @ drop (pm_end m) (take (pm_end n) t) @ drop (pm_end n) t)"
proof -
  have "chosen [m, n] 0 = [m]" using assms(5) by simp
  moreover have "drop (pm_end m) t = drop (pm_end m) (take (pm_end n) t) @ drop (pm_end n) t"
    using assms(6) by (metis append_take_drop_id drop_append drop_take less_imp_le_nat drop_drop le_add_diff_inverse2 take_drop)
  ultimately show ?thesis using scrub_text_eq [OF assms(1,2), of u c] assms(3) by simp
qed

theorem crossing_span_leaks_witness:
  "scrub_text (detect_pii ascii_unicode no_regex default_config) leaking_text = Some ''[REDACTED]bob@example.com''"
  using crossing_span_leaks [OF leaking_text_utf8 no_regex_laws leaking_matches]
  by (simp add: pii_def) (simp add: leaking_text_def redacted_def)


section \<open>Placeholders\<close>

definition bracketed :: "string \<Rightarrow> bool" where
  "bracketed p \<longleftrightarrow> (\<exists>b. p = ''['' @ b @ '']'' \<and> CHR ''['' \<notin> set b \<and> CHR '']'' \<notin> set b)"

lemma digits_plain:
  assumes "c \<in> set (show_nat n)"
  shows "c \<noteq> CHR ''['' \<and> c \<noteq> CHR '']'' \<and> c \<noteq> CHR ''_''"
  using show_nat_digits [of n] assms by (auto simp: list_all_iff is_ascii_digit_def)

lemma tag_plain: "CHR ''['' \<notin> set (pii_type_tag t) \<and> CHR '']'' \<notin> set (pii_type_tag t)"
  by (cases t) simp_all

lemma placeholder_bracketed: "bracketed (placeholder (pii_type_tag t) n)"
  unfolding bracketed_def placeholder_def
  using tag_plain [of t] digits_plain by (intro exI [of _ "pii_type_tag t @ ''_'' @ show_nat n"]) fastforce

lemma tag_placeholder: "tag_from_placeholder (placeholder tag n) = Some tag"
proof -
  have "CHR ''_'' \<notin> set (rev (show_nat n))" using digits_plain by auto
  then have "split_once CHR ''_'' (rev (show_nat n) @ CHR ''_'' # rev tag) = Some (rev (show_nat n), rev tag)"
    by (rule split_once_append)
  then show ?thesis
    by (simp add: tag_from_placeholder_def placeholder_def strip_prefix_def strip_suffix_def suffix_def)
qed

lemma placeholder_inject: "placeholder a n = placeholder b k \<longleftrightarrow> a = b \<and> n = k"
proof
  assume eq: "placeholder a n = placeholder b k"
  then have "a = b" using tag_placeholder [of a n] tag_placeholder [of b k] by simp
  then have "show_nat n = show_nat k" using eq by (simp add: placeholder_def)
  then show "a = b \<and> n = k" using \<open>a = b\<close> dec_val_show_nat by metis
qed simp

lemma tag_inject: "pii_type_tag t = pii_type_tag t' \<longleftrightarrow> t = t'"
  by (cases t; cases t') simp_all

section \<open>Replacing placeholders\<close>

text \<open>A redacted text in pieces.\<close>

datatype piece = Lit string | Ph string

fun flat :: "piece list \<Rightarrow> string" where
  "flat [] = []"
| "flat (Lit s # ps) = s @ flat ps"
| "flat (Ph p # ps) = p @ flat ps"

fun piece_ok :: "piece \<Rightarrow> bool" where
  "piece_ok (Lit s) = (CHR ''['' \<notin> set s)"
| "piece_ok (Ph p) = bracketed p"

fun put_back :: "string \<Rightarrow> string \<Rightarrow> piece \<Rightarrow> piece" where
  "put_back p r (Lit s) = Lit s"
| "put_back p r (Ph q) = (if q = p then Lit r else Ph q)"

lemma flat_append [simp]: "flat (xs @ ys) = flat xs @ flat ys"
  by (induction xs rule: flat.induct) auto

lemma replace_plain:
  assumes "bracketed p" and "CHR ''['' \<notin> set s"
  shows "replace_str p r (s @ t) = s @ replace_str p r t"
  using assms(2)
proof (induction s)
  case (Cons c s)
  moreover have "\<not> prefix p ((c # s) @ t)" using assms(1) Cons.prems by (auto simp: bracketed_def)
  ultimately show ?case by (simp add: replace_str.simps(2))
qed simp

lemma replace_same:
  assumes "bracketed p"
  shows "replace_str p r (p @ t) = r @ replace_str p r t"
proof -
  obtain c cs where p: "p = c # cs" using assms by (auto simp: bracketed_def)
  have "replace_str p r (c # cs @ t) = r @ replace_str p r (drop (length p) (c # cs @ t))"
    by (subst replace_str.simps) (simp add: p)
  then show ?thesis by (simp add: p)
qed

lemma bracketed_prefix:
  assumes "bracketed p" and "bracketed q" and "prefix p (q @ t)"
  shows "p = q"
proof -
  obtain a b where a: "p = ''['' @ a @ '']''" "CHR '']'' \<notin> set a" and b: "q = ''['' @ b @ '']''" "CHR '']'' \<notin> set b"
    using assms(1,2) by (auto simp: bracketed_def)
  obtain z where "a @ CHR '']'' # z = b @ CHR '']'' # t" using assms(3) a b by (auto simp: prefix_def)
  then have "split_once CHR '']'' (a @ CHR '']'' # z) = split_once CHR '']'' (b @ CHR '']'' # t)" by simp
  then have "a = b" using split_once_append [OF a(2), of z] split_once_append [OF b(2), of t] by simp
  then show ?thesis using a b by simp
qed

lemma replace_other:
  assumes "bracketed p" and "bracketed q" and "p \<noteq> q"
  shows "replace_str p r (q @ t) = q @ replace_str p r t"
proof -
  obtain b where q: "q = CHR ''['' # b @ '']''" "CHR ''['' \<notin> set b" using assms(2) by (auto simp: bracketed_def)
  have "\<not> prefix p (q @ t)" using bracketed_prefix [OF assms(1,2)] assms(3) by blast
  then have "replace_str p r (q @ t) = CHR ''['' # replace_str p r ((b @ '']'') @ t)"
    by (simp add: q(1) replace_str.simps(2))
  also have "\<dots> = q @ replace_str p r t" using q by (subst replace_plain [OF assms(1)]) simp_all
  finally show ?thesis .
qed

lemma replace_flat:
  "bracketed p \<Longrightarrow> list_all piece_ok ps \<Longrightarrow> replace_str p r (flat ps) = flat (map (put_back p r) ps)"
proof (induction ps rule: flat.induct)
  case 1
  then show ?case by (simp add: replace_str.simps)
next
  case (2 s ps)
  then show ?case by (simp add: replace_plain)
next
  case (3 q ps)
  then show ?case by (cases "q = p") (simp_all add: replace_same replace_other)
qed

text \<open>All entries of a map put back, in any order.\<close>

fun decode :: "(string \<times> string) list \<Rightarrow> piece \<Rightarrow> piece" where
  "decode es (Lit s) = Lit s"
| "decode es (Ph p) = (case map_of es p of Some v \<Rightarrow> Lit v | None \<Rightarrow> Ph p)"

definition entries_plain :: "(string \<times> string) list \<Rightarrow> bool" where
  "entries_plain es \<longleftrightarrow> list_all (\<lambda>(p, v). bracketed p \<and> CHR ''['' \<notin> set v) es"

lemma piece_ok_put_back: "CHR ''['' \<notin> set v \<Longrightarrow> piece_ok x \<Longrightarrow> piece_ok (put_back p v x)"
  by (cases x) auto

lemma decode_put_back: "decode es (put_back p v x) = decode ((p, v) # es) x"
  by (cases x) auto

lemma fold_replace:
  "entries_plain es \<Longrightarrow> list_all piece_ok ps \<Longrightarrow>
    fold (\<lambda>(p, v) r. replace_str p v r) es (flat ps) = flat (map (decode es) ps)"
proof (induction es arbitrary: ps)
  case Nil
  have "decode [] x = x" for x by (cases x) auto
  then show ?case by (simp add: map_idI)
next
  case (Cons e es)
  obtain p v where e: "e = (p, v)" by (cases e)
  have ok: "bracketed p" "CHR ''['' \<notin> set v" "entries_plain es" using Cons.prems(1) by (auto simp: entries_plain_def e)
  have "list_all piece_ok (map (put_back p v) ps)"
    using Cons.prems(2) ok(2) piece_ok_put_back by (auto simp: list_all_iff)
  then show ?case
    using Cons.IH [OF ok(3)] replace_flat [OF ok(1) Cons.prems(2)] by (simp add: e comp_def decode_put_back)
qed

lemma map_of_sort_key: "distinct (map fst es) \<Longrightarrow> map_of (sort_key f es) = map_of es"
proof -
  assume d: "distinct (map fst es)"
  have "distinct (map fst (sort_key f es))"
    using d by (metis distinct_map distinct_sort inj_on_subset set_sort subset_refl)
  then show ?thesis using d by (simp add: map_of_inject_set)
qed


section \<open>The loop of a redaction\<close>

definition entries_ok :: "redact_state \<Rightarrow> bool" where
  "entries_ok s \<longleftrightarrow>
     distinct (map fst (rs_entries s)) \<and> distinct (map snd (rs_entries s)) \<and> entries_plain (rs_entries s)
     \<and> (\<forall>v p. hm_get (rs_values s) v = Some p \<longleftrightarrow> (p, v) \<in> set (rs_entries s))
     \<and> (\<forall>t n. placeholder (pii_type_tag t) n \<in> fst ` set (rs_entries s)
           \<longrightarrow> (\<exists>k. hm_get (rs_counters s) (pii_type_tag t) = Some k \<and> n \<le> k))
     \<and> (\<forall>p \<in> fst ` set (rs_entries s). \<exists>t n. p = placeholder (pii_type_tag t) n)"

lemma entries_counter:
  assumes "entries_ok s" and "placeholder (pii_type_tag t) n \<in> fst ` set (rs_entries s)"
  obtains k where "hm_get (rs_counters s) (pii_type_tag t) = Some k" "n \<le> k"
  using assms unfolding entries_ok_def by blast

lemma assign_placeholder_ok:
  assumes "entries_ok s" and "CHR ''['' \<notin> set v" and "assign_placeholder t v s = (p, s')"
  shows "entries_ok s' \<and> (p, v) \<in> set (rs_entries s') \<and> (\<exists>es. rs_entries s' = rs_entries s @ es)
    \<and> rs_result s' = rs_result s \<and> rs_cursor s' = rs_cursor s"
proof (cases "hm_get (rs_values s) v")
  case (Some q)
  then show ?thesis using assms by (auto simp: assign_placeholder_def entries_ok_def)
next
  case None
  define n where "n = (case hm_get (rs_counters s) (pii_type_tag t) of Some n \<Rightarrow> n | None \<Rightarrow> 0) + 1"
  have s': "s' = s\<lparr>rs_counters := hm_insert (pii_type_tag t) n (rs_counters s),
      rs_values := hm_insert v p (rs_values s), rs_entries := rs_entries s @ [(p, v)]\<rparr>"
    and p: "p = placeholder (pii_type_tag t) n"
    using assms(3) None by (auto simp: assign_placeholder_def Let_def n_def)
  have fresh: "p \<notin> fst ` set (rs_entries s)"
  proof
    assume "p \<in> fst ` set (rs_entries s)"
    then obtain k where "hm_get (rs_counters s) (pii_type_tag t) = Some k" "n \<le> k"
      using entries_counter [OF assms(1)] unfolding p by blast
    then show False by (simp add: n_def)
  qed
  have vals: "\<forall>v p. hm_get (rs_values s) v = Some p \<longleftrightarrow> (p, v) \<in> set (rs_entries s)"
    using assms(1) by (simp add: entries_ok_def)
  have new: "v \<notin> snd ` set (rs_entries s)"
  proof
    assume "v \<in> snd ` set (rs_entries s)"
    then obtain q where "(q, v) \<in> set (rs_entries s)" by (metis imageE prod.collapse)
    then have "hm_get (rs_values s) v = Some q" using vals by blast
    then show False using None by simp
  qed
  have "entries_plain (rs_entries s')"
    using assms(1,2) by (simp add: entries_ok_def entries_plain_def s' p placeholder_bracketed)
  moreover have "hm_get (rs_values s') w = Some q \<longleftrightarrow> (q, w) \<in> set (rs_entries s')" for w q
    using assms(1) new by (auto simp: entries_ok_def s' hm_simps image_iff)
  moreover have "\<exists>k. hm_get (rs_counters s') (pii_type_tag ty) = Some k \<and> j \<le> k"
    if "placeholder (pii_type_tag ty) j \<in> fst ` set (rs_entries s')" for ty j
  proof (cases "ty = t")
    case True
    have "j \<le> n"
    proof (cases "placeholder (pii_type_tag t) j = p")
      case False
      then have "placeholder (pii_type_tag t) j \<in> fst ` set (rs_entries s)" using that True by (auto simp: s')
      then obtain k where "hm_get (rs_counters s) (pii_type_tag t) = Some k" "j \<le> k"
        using entries_counter [OF assms(1)] by blast
      then show ?thesis by (simp add: n_def)
    qed (simp add: p placeholder_inject)
    then show ?thesis using True by (simp add: s' hm_simps)
  next
    case False
    then have "placeholder (pii_type_tag ty) j \<in> fst ` set (rs_entries s)"
      using that by (auto simp: s' p placeholder_inject tag_inject)
    then show ?thesis using assms(1) False by (simp add: entries_ok_def s' hm_simps tag_inject)
  qed
  moreover have "\<exists>ty j. q = placeholder (pii_type_tag ty) j" if "q \<in> fst ` set (rs_entries s')" for q
    using that assms(1) unfolding entries_ok_def s' p by auto
  ultimately have "entries_ok s'"
    using assms(1) fresh new unfolding entries_ok_def by (simp add: s')
  then show ?thesis by (simp add: s')
qed

text \<open>The result so far decodes to the text so far.\<close>

definition decodes :: "string \<Rightarrow> redact_state \<Rightarrow> piece list \<Rightarrow> bool" where
  "decodes t s ps \<longleftrightarrow>
     rs_result s = flat ps \<and> flat (map (decode (rs_entries s)) ps) = take (rs_cursor s) t
     \<and> list_all piece_ok ps \<and> (\<forall>p. Ph p \<in> set ps \<longrightarrow> p \<in> fst ` set (rs_entries s))"

lemma decode_extend:
  assumes "\<forall>p. Ph p \<in> set ps \<longrightarrow> p \<in> fst ` set es"
  shows "map (decode (es @ fs)) ps = map (decode es) ps"
proof (rule map_cong [OF refl])
  fix x
  assume x: "x \<in> set ps"
  show "decode (es @ fs) x = decode es x"
  proof (cases x)
    case (Ph p)
    then have "map_of es p \<noteq> None" using assms x by (auto simp: map_of_eq_None_iff)
    then show ?thesis using Ph by (auto simp: map_add_def split: option.split)
  qed simp
qed

lemma decodes_step:
  assumes "decodes t s ps" and "entries_ok s" and "rs_cursor s \<le> a" and "a \<le> b" and "b \<le> length t"
    and "CHR ''['' \<notin> set t" and "assign_placeholder ty (drop a (take b t)) s = (p, s')"
  shows "\<exists>ps'. decodes t (s'\<lparr>rs_result := rs_result s' @ drop (rs_cursor s) (take a t) @ p, rs_cursor := b\<rparr>) ps'
    \<and> entries_ok s'"
proof -
  have plain: "CHR ''['' \<notin> set (drop m (take n t))" for m n
    using assms(6) by (meson in_set_dropD in_set_takeD)
  obtain es where s': "entries_ok s'" "(p, drop a (take b t)) \<in> set (rs_entries s')"
    "rs_entries s' = rs_entries s @ es" "rs_result s' = rs_result s"
    using assign_placeholder_ok [OF assms(2) plain assms(7)] by blast
  let ?ps = "ps @ [Lit (drop (rs_cursor s) (take a t)), Ph p]"
  have old: "map (decode (rs_entries s')) ps = map (decode (rs_entries s)) ps"
    using assms(1) unfolding s'(3) decodes_def by (intro decode_extend) blast
  have new: "decode (rs_entries s') (Ph p) = Lit (drop a (take b t))"
    using s'(1,2) by (simp add: entries_ok_def)
  have "take (rs_cursor s) t @ drop (rs_cursor s) (take a t) @ drop a (take b t) = take b t"
    using assms(3-5) by (metis append.assoc append_take_drop_id min.absorb2 take_take min.commute)
  then have "flat (map (decode (rs_entries s')) ?ps) = take b t"
    using assms(1) by (simp add: decodes_def old new del: decode.simps(2))
  moreover have "bracketed p" using s'(1,2) by (auto simp: entries_ok_def entries_plain_def list_all_iff)
  then have "list_all piece_ok ?ps" using assms(1) plain by (simp add: decodes_def)
  moreover have "\<forall>q. Ph q \<in> set ?ps \<longrightarrow> q \<in> fst ` set (rs_entries s')"
    using assms(1) s'(2) unfolding s'(3) decodes_def by force
  ultimately have "decodes t (s'\<lparr>rs_result := rs_result s' @ drop (rs_cursor s) (take a t) @ p, rs_cursor := b\<rparr>) ?ps"
    using assms(1) s'(4) by (simp add: decodes_def del: decode.simps)
  then show ?thesis using s'(1) by blast
qed

lemma redact_loop_decodes:
  assumes "CHR ''['' \<notin> set t" and "\<forall>m \<in> set ms. span_ok t m" and "decodes t s ps" and "entries_ok s"
    and "is_char_boundary t (rs_cursor s)"
  shows "\<exists>s' ps'. redact_loop t ms s = Some s' \<and> entries_ok s' \<and> rs_result s' = flat ps' \<and> list_all piece_ok ps'
    \<and> flat (map (decode (rs_entries s')) ps') = t"
  using assms(2-)
proof (induction ms arbitrary: s ps)
  case Nil
  show ?case
  proof (cases "rs_cursor s < length t")
    case True
    have "CHR ''['' \<notin> set (drop (rs_cursor s) t)" using assms(1) by (meson in_set_dropD)
    then show ?thesis
      using True Nil.prems
      by (intro exI [of _ "s\<lparr>rs_result := rs_result s @ drop (rs_cursor s) t\<rparr>"] exI [of _ "ps @ [Lit (drop (rs_cursor s) t)]"])
        (auto simp: slice_ok decodes_def entries_ok_def)
  next
    case False
    then show ?thesis using Nil.prems by (intro exI [of _ s] exI [of _ ps]) (auto simp: decodes_def)
  qed
next
  case (Cons m ms)
  show ?case
  proof (cases "pm_start m < rs_cursor s")
    case True
    then show ?thesis using Cons by simp
  next
    case False
    obtain p s' where a: "assign_placeholder (pm_type m) (drop (pm_start m) (take (pm_end m) t)) s = (p, s')"
      by fastforce
    let ?s = "s'\<lparr>rs_result := rs_result s' @ drop (rs_cursor s) (take (pm_start m) t) @ p, rs_cursor := pm_end m\<rparr>"
    have m: "span_ok t m" using Cons.prems(1) by simp
    have "pm_start m \<le> pm_end m" "pm_end m \<le> length t" using m boundary_le by (auto simp: span_ok_def)
    then obtain qs where "decodes t ?s qs" "entries_ok s'"
      using decodes_step [OF Cons.prems(2,3) _ _ _ assms(1) a] False by (meson not_less)
    moreover have "redact_loop t (m # ms) s = redact_loop t ms ?s"
      using False a m Cons.prems(4) by (auto simp: slice_ok span_ok_def)
    moreover have "entries_ok ?s" using \<open>entries_ok s'\<close> by (simp add: entries_ok_def)
    ultimately show ?thesis using Cons.IH [of ?s qs] Cons.prems(1) m by (simp add: span_ok_def)
  qed
qed

lemma redact_undone:
  assumes "utf8 t" and "regex_laws re" and "CHR ''['' \<notin> set t"
  shows "\<exists>r entries audit. redact (detect_pii u re c) t = Some (r, entries, audit)
    \<and> restore_text entries r = t \<and> distinct (map fst entries) \<and> distinct (map snd entries)
    \<and> ra_total_redacted audit = length entries"
proof (cases "detect_pii u re c t = []")
  case True
  then show ?thesis by (simp add: redact_def restore_text_def)
next
  case False
  let ?s0 = "\<lparr>rs_counters = [], rs_values = [], rs_entries = [], rs_result = [], rs_cursor = 0\<rparr>"
  have "decodes t ?s0 []" "entries_ok ?s0"
    by (simp_all add: decodes_def entries_ok_def entries_plain_def hm_simps)
  then obtain s ps where s: "redact_loop t (detect_pii u re c t) ?s0 = Some s" "entries_ok s"
    "rs_result s = flat ps" "list_all piece_ok ps" "flat (map (decode (rs_entries s)) ps) = t"
    using redact_loop_decodes [OF assms(3), of "detect_pii u re c t" ?s0 "[]"] detected_ok [OF assms(1,2)] assms(1)
    by auto
  let ?es = "sort_key (\<lambda>e. - int (length (fst e))) (rs_entries s)"
  have d: "distinct (map fst (rs_entries s))" and plain: "entries_plain ?es"
    using s(2) by (auto simp: entries_ok_def entries_plain_def list_all_iff)
  have "decode ?es x = decode (rs_entries s) x" for x by (cases x) (simp_all add: map_of_sort_key [OF d])
  then have "fold (\<lambda>(p, v) r. replace_str p v r) ?es (flat ps) = t"
    using fold_replace [OF plain s(4)] s(5) by (metis map_cong)
  moreover have "flat ps = t" if "rs_entries s = []"
    using s(5) that by (metis decode.elims list.map_ident map_cong map_of.simps(1) option.simps(4))
  ultimately have "restore_text (rs_entries s) (rs_result s) = t" using s(3) by (simp add: restore_text_def)
  then show ?thesis using False s(1,2) by (simp add: redact_def Let_def audit_of_def entries_ok_def)
qed

text \<open>C7: Redaction never panics, and on a text without opening brackets it can be undone: putting the originals
  of the map back into the redacted text gives the text again, and the map has each placeholder
  and each value once.\<close>

theorem redact_restores:
  assumes "utf8 t" and "regex_laws re" and "CHR ''['' \<notin> set t"
  shows "\<exists>r entries audit. redact (detect_pii u re c) t = Some (r, entries, audit)
    \<and> restore_text entries r = t \<and> distinct (map fst entries) \<and> distinct (map snd entries)
    \<and> ra_total_redacted audit = length entries"
  by (rule redact_undone [OF assms])


theorem redact_restores_witness:
  "\<exists>entries audit. redact (detect_pii ascii_unicode no_regex default_config) ''ask bob@x.io or al@y.io or bob@x.io''
      = Some (''ask [EMAIL_1] or [EMAIL_2] or [EMAIL_1]'', entries, audit)
    \<and> restore_text entries ''ask [EMAIL_1] or [EMAIL_2] or [EMAIL_1]'' = ''ask bob@x.io or al@y.io or bob@x.io''"
proof -
  let ?t = "''ask bob@x.io or al@y.io or bob@x.io''"
  have "utf8 ?t" by (rule utf8_ascii) code_simp
  moreover have "map_option fst (redact (detect_pii ascii_unicode no_regex default_config) ?t)
      = Some ''ask [EMAIL_1] or [EMAIL_2] or [EMAIL_1]''"
    by code_simp
  ultimately show ?thesis
    using redact_restores [of ?t no_regex ascii_unicode default_config] no_regex_laws by auto
qed

text \<open>Without that condition the round trip fails: a text that already contains a placeholder comes back with
  the placeholder replaced as well.\<close>

theorem restore_replaces_literal_brackets:
  "\<exists>r entries audit. redact (detect_pii ascii_unicode no_regex default_config) ''[EMAIL_1] is bob@x.io''
      = Some (r, entries, audit) \<and> restore_text entries r = ''bob@x.io is bob@x.io''"
  by (rule exI [of _ "''[EMAIL_1] is [EMAIL_1]''"], rule exI [of _ "[(''[EMAIL_1]'', ''bob@x.io'')]"],
      rule exI [of _ "\<lparr>ra_entries = [(Email, 1)], ra_total_redacted = 1\<rparr>"]) code_simp

text \<open>A name is looked up at its first place in the text, so that a run of title-case words may be missed.\<close>

lemma later_name_missed:
  "detect_names ascii_unicode ''AnnLee met Ann Lee'' = [pii PersonName 0 6 60]"
  by code_simp

end
