(* ===== verification/Marketplace.thy ===== *)
theory Marketplace
  imports Utf8
begin

text \<open>
  The marketplace of skills (\<open>crates/marketplace\<close>): metadata and their validation (\<open>lib.rs\<close>,
  \<open>skill_category.rs\<close>), permissions, ratings, the catalogue client (\<open>discovery.rs\<close>), the
  installer, the update checker, the security checker, the LoRA adapters (\<open>adapter.rs\<close>) and the
  command line (\<open>cli.rs\<close>) that runs them.

  Texts of errors and printed lines are data.  Unicode tables, SHA-256 and the division of
  floating-point numbers are parameters.
\<close>

section \<open>Metadata\<close>

datatype skill_category = Coding string | Writing string | Analysis string | DomainSpecific string

record skill_metadata =
  md_id :: string
  md_name :: string
  md_version :: string
  md_description :: string
  md_author :: string
  md_categories :: "skill_category list"
  md_checksum :: string
  md_download_url :: string
  md_signature :: "string option"

datatype metadata_problem =
    EmptyId | BadId string | EmptySkillName | BadVersion string | EmptySkillDescription | EmptyAuthor
  | NoCategories | BadChecksum string | EmptyUrl | NotHttps string | BadStars nat
  | EmptyProcedureId | EmptyReviewer | EmptyQuery | UnparseableVersion string string
  | EmptyTitle | EmptyListingDescription | EmptyLanguage

datatype marketplace_error =
    NetworkError string
  | InvalidMetadata metadata_problem
  | EmptyInstallDir
  | AlreadyInstalled string
  | UndeclaredPermission string
  | ChecksumMismatch string string
  | MissingSignature string
  | SkillNotFound string
  | EmptyAdapterPath

definition is_valid_semver :: "string \<Rightarrow> bool" where
  "is_valid_semver version \<longleftrightarrow>
     version \<noteq> [] \<and>
     (case split_on CHR ''.'' version of
        a # b # c # rest \<Rightarrow> list_all (\<lambda>p. p \<noteq> [] \<and> list_all is_ascii_digit p) [a, b, c]
      | _ \<Rightarrow> False)"

definition is_valid_sha256_hex :: "string \<Rightarrow> bool" where
  "is_valid_sha256_hex s \<longleftrightarrow> length s = 64 \<and> list_all is_ascii_hexdigit s"

definition id_char :: "unicode \<Rightarrow> string \<Rightarrow> bool" where
  "id_char u c \<longleftrightarrow> uc_alphanumeric u c \<or> c = ''-'' \<or> c = ''_'' \<or> c = ''/''"

definition validate_metadata :: "unicode \<Rightarrow> skill_metadata \<Rightarrow> marketplace_error option" where
  "validate_metadata u m =
     (if md_id m = [] then Some (InvalidMetadata EmptyId)
      else if \<not> list_all (id_char u) (utf8_chars (md_id m)) then Some (InvalidMetadata (BadId (md_id m)))
      else if md_name m = [] then Some (InvalidMetadata EmptySkillName)
      else if \<not> is_valid_semver (md_version m) then Some (InvalidMetadata (BadVersion (md_version m)))
      else if md_description m = [] then Some (InvalidMetadata EmptySkillDescription)
      else if md_author m = [] then Some (InvalidMetadata EmptyAuthor)
      else if md_categories m = [] then Some (InvalidMetadata NoCategories)
      else if \<not> is_valid_sha256_hex (md_checksum m) then Some (InvalidMetadata (BadChecksum (md_checksum m)))
      else if md_download_url m = [] then Some (InvalidMetadata EmptyUrl)
      else if \<not> prefix ''https://'' (md_download_url m) then Some (InvalidMetadata (NotHttps (md_download_url m)))
      else None)"

section \<open>Permissions\<close>

datatype permission =
    FileSystemRead | FileSystemWrite | NetworkFetch | EnvironmentPermission | DatabasePermission
  | ProcessPermission | ClipboardPermission | NotificationPermission | CustomPermission string

fun show_permission :: "permission \<Rightarrow> string" where
  "show_permission FileSystemRead = ''filesystem:read''"
| "show_permission FileSystemWrite = ''filesystem:write''"
| "show_permission NetworkFetch = ''network:fetch''"
| "show_permission EnvironmentPermission = ''environment''"
| "show_permission DatabasePermission = ''database''"
| "show_permission ProcessPermission = ''process''"
| "show_permission ClipboardPermission = ''clipboard''"
| "show_permission NotificationPermission = ''notification''"
| "show_permission (CustomPermission name) = ''custom:'' @ name"

text \<open>A \<open>HashSet\<close> is a list without duplicates.\<close>

definition from_permissions :: "permission list \<Rightarrow> permission list" where
  "from_permissions ps = remdups ps"

definition check_permission :: "permission list \<Rightarrow> permission \<Rightarrow> marketplace_error + unit" where
  "check_permission granted p =
     (if p \<in> set granted then Inr () else Inl (UndeclaredPermission (show_permission p)))"

section \<open>Ratings\<close>

definition star_rating :: "nat \<Rightarrow> marketplace_error + nat" where
  "star_rating stars =
     (if stars = 0 \<or> 5 < stars then Inl (InvalidMetadata (BadStars stars)) else Inr stars)"

record review =
  rv_procedure_id :: string
  rv_reviewer :: string
  rv_rating :: nat
  rv_comment :: "string option"
  rv_submitted_at :: string

record 'x rating_aggregate =
  ra_procedure_id :: string
  ra_mean_score :: 'x
  ra_review_count :: nat

definition submit_review :: "review \<Rightarrow> review list \<Rightarrow> marketplace_error + review list" where
  "submit_review r rs =
     (if rv_procedure_id r = [] then Inl (InvalidMetadata EmptyProcedureId)
      else if rv_reviewer r = [] then Inl (InvalidMetadata EmptyReviewer)
      else Inr (rs @ [r]))"

definition reviews_for :: "string \<Rightarrow> review list \<Rightarrow> review list" where
  "reviews_for k rs = filter (\<lambda>r. rv_procedure_id r = k) rs"

text \<open>The mean is the quotient of two integers as floating-point numbers, a parameter.\<close>

definition aggregate_rating :: "(nat \<Rightarrow> nat \<Rightarrow> 'x) \<Rightarrow> 'x \<Rightarrow> string \<Rightarrow> review list \<Rightarrow> 'x rating_aggregate" where
  "aggregate_rating fdiv zero k rs =
     (let relevant = reviews_for k rs; n = length relevant in
      \<lparr>ra_procedure_id = k,
       ra_mean_score = (if n = 0 then zero else fdiv (sum_list (map rv_rating relevant)) n),
       ra_review_count = n\<rparr>)"

section \<open>The catalogue\<close>

record marketplace_client =
  cl_api_base :: string
  cl_catalogue :: "skill_metadata list"

definition client_new :: "string \<Rightarrow> marketplace_client" where
  "client_new base = \<lparr>cl_api_base = base, cl_catalogue = []\<rparr>"

definition register_skill :: "skill_metadata \<Rightarrow> marketplace_client \<Rightarrow> marketplace_client" where
  "register_skill m c = c\<lparr>cl_catalogue := cl_catalogue c @ [m]\<rparr>"

fun category_matches :: "skill_category \<Rightarrow> skill_category \<Rightarrow> bool" where
  "category_matches (Coding a) (Coding b) = True"
| "category_matches (Writing a) (Writing b) = True"
| "category_matches (Analysis a) (Analysis b) = True"
| "category_matches (DomainSpecific a) (DomainSpecific b) = True"
| "category_matches a b = False"

definition search_skills ::
    "unicode \<Rightarrow> marketplace_client \<Rightarrow> string \<Rightarrow> skill_category option \<Rightarrow> marketplace_error + skill_metadata list" where
  "search_skills u c query category =
     (if query = [] then Inl (InvalidMetadata EmptyQuery)
      else
        let q = uc_lowercase u query in
        Inr (filter (\<lambda>m.
          (contains_str (uc_lowercase u (md_name m)) q \<or> contains_str (uc_lowercase u (md_description m)) q)
          \<and> (case category of None \<Rightarrow> True | Some cat \<Rightarrow> list_ex (\<lambda>x. category_matches x cat) (md_categories m)))
          (cl_catalogue c)))"

definition get_skill :: "marketplace_client \<Rightarrow> string \<Rightarrow> marketplace_error + skill_metadata" where
  "get_skill c k =
     (case find (\<lambda>m. md_id m = k) (cl_catalogue c) of None \<Rightarrow> Inl (SkillNotFound k) | Some m \<Rightarrow> Inr m)"

section \<open>Installer\<close>

record installed_skill =
  is_metadata :: skill_metadata
  is_install_path :: string
  is_installed_at :: string
  is_last_used :: "string option"

record installer =
  in_dir :: string
  in_installed :: "installed_skill list"

definition installer_new :: "string \<Rightarrow> marketplace_error + installer" where
  "installer_new dir = (if dir = [] then Inl EmptyInstallDir else Inr \<lparr>in_dir = dir, in_installed = []\<rparr>)"

text \<open>The time stamp of the code is a constant.\<close>

definition timestamp_now :: string where
  "timestamp_now = ''2026-01-01T00:00:00Z''"

definition install_path :: "string \<Rightarrow> skill_metadata \<Rightarrow> string" where
  "install_path dir m =
     dir @ ''/'' @ map (\<lambda>c. if c = CHR ''/'' then CHR ''-'' else c) (md_id m) @ ''-'' @ md_version m"

definition is_installed :: "string \<Rightarrow> installer \<Rightarrow> bool" where
  "is_installed k i \<longleftrightarrow> list_ex (\<lambda>s. md_id (is_metadata s) = k) (in_installed i)"

definition install_skill ::
    "unicode \<Rightarrow> skill_metadata \<Rightarrow> installer \<Rightarrow> marketplace_error + installed_skill \<times> installer" where
  "install_skill u m i =
     (case validate_metadata u m of
        Some e \<Rightarrow> Inl e
      | None \<Rightarrow>
          if is_installed (md_id m) i then Inl (AlreadyInstalled (md_id m))
          else
            let s = \<lparr>is_metadata = m, is_install_path = install_path (in_dir i) m,
                  is_installed_at = timestamp_now, is_last_used = None\<rparr> in
            Inr (s, i\<lparr>in_installed := in_installed i @ [s]\<rparr>))"

fun remove_first :: "('a \<Rightarrow> bool) \<Rightarrow> 'a list \<Rightarrow> 'a list" where
  "remove_first p [] = []"
| "remove_first p (x # xs) = (if p x then xs else x # remove_first p xs)"

definition uninstall_skill :: "string \<Rightarrow> installer \<Rightarrow> marketplace_error + installer" where
  "uninstall_skill k i =
     (if is_installed k i
      then Inr (i\<lparr>in_installed := remove_first (\<lambda>s. md_id (is_metadata s) = k) (in_installed i)\<rparr>)
      else Inl (SkillNotFound k))"

fun modify_first :: "('a \<Rightarrow> bool) \<Rightarrow> ('a \<Rightarrow> 'a) \<Rightarrow> 'a list \<Rightarrow> 'a list" where
  "modify_first p f [] = []"
| "modify_first p f (x # xs) = (if p x then f x # xs else x # modify_first p f xs)"

definition record_use :: "string \<Rightarrow> installer \<Rightarrow> marketplace_error + installer" where
  "record_use k i =
     (if is_installed k i
      then Inr (i\<lparr>in_installed := modify_first (\<lambda>s. md_id (is_metadata s) = k)
        (\<lambda>s. s\<lparr>is_last_used := Some timestamp_now\<rparr>) (in_installed i)\<rparr>)
      else Inl (SkillNotFound k))"

section \<open>Updates\<close>

record update_available =
  ua_skill_id :: string
  ua_installed_version :: string
  ua_available_version :: string
  ua_release_notes :: "string option"

type_synonym semver = "nat \<times> nat \<times> nat"

definition parse_semver :: "string \<Rightarrow> semver option" where
  "parse_semver version =
     (case split_on CHR ''.'' version of
        a # b # c # rest \<Rightarrow>
          (case (parse_uint 64 a, parse_uint 64 b, parse_uint 64 (hd (split_on CHR ''-'' c))) of
             (Some x, Some y, Some z) \<Rightarrow> Some (x, y, z)
           | _ \<Rightarrow> None)
      | _ \<Rightarrow> None)"

text \<open>The order of the triples.\<close>

fun semver_less :: "semver \<Rightarrow> semver \<Rightarrow> bool" where
  "semver_less (a, b, c) (a', b', c') \<longleftrightarrow> a < a' \<or> a = a' \<and> (b < b' \<or> b = b' \<and> c < c')"

definition remote_metadata :: "skill_metadata list \<Rightarrow> string \<Rightarrow> skill_metadata option" where
  "remote_metadata remote k = find (\<lambda>r. md_id r = k) remote"

fun check_updates ::
    "skill_metadata list \<Rightarrow> installed_skill list \<Rightarrow> marketplace_error + update_available list" where
  "check_updates remote [] = Inr []"
| "check_updates remote (s # ss) =
     (let m = is_metadata s in
      case parse_semver (md_version m) of
        None \<Rightarrow> Inl (InvalidMetadata (UnparseableVersion (md_id m) (md_version m)))
      | Some v \<Rightarrow>
          let here =
            (case remote_metadata remote (md_id m) of
               None \<Rightarrow> []
             | Some r \<Rightarrow>
                 (case parse_semver (md_version r) of
                    None \<Rightarrow> []
                  | Some w \<Rightarrow>
                      if semver_less v w
                      then [\<lparr>ua_skill_id = md_id m, ua_installed_version = md_version m,
                          ua_available_version = md_version r, ua_release_notes = None\<rparr>]
                      else [])) in
          case check_updates remote ss of Inl e \<Rightarrow> Inl e | Inr us \<Rightarrow> Inr (here @ us))"

section \<open>Security\<close>

datatype severity = LowSeverity | MediumSeverity | HighSeverity | CriticalSeverity

fun severity_rank :: "severity \<Rightarrow> nat" where
  "severity_rank LowSeverity = 0"
| "severity_rank MediumSeverity = 1"
| "severity_rank HighSeverity = 2"
| "severity_rank CriticalSeverity = 3"

datatype violation_kind = InvalidChecksum | InvalidSignature | SuspiciousPattern | MissingMetadata

record violation =
  vi_kind :: violation_kind
  vi_description :: string
  vi_severity :: severity

definition is_safe :: "violation list \<Rightarrow> bool" where
  "is_safe vs \<longleftrightarrow> vs = []"

definition has_severity_at_least :: "severity \<Rightarrow> violation list \<Rightarrow> bool" where
  "has_severity_at_least s vs \<longleftrightarrow> list_ex (\<lambda>v. severity_rank s \<le> severity_rank (vi_severity v)) vs"

definition hex_digit :: "nat \<Rightarrow> char" where
  "hex_digit n = (if n < 10 then char_of (48 + n) else char_of (87 + n))"

definition hex_byte :: "nat \<Rightarrow> string" where
  "hex_byte b = [hex_digit (b div 16), hex_digit (b mod 16)]"

text \<open>The digest of some bytes, in lower case; the digest itself is a parameter.\<close>

definition sha256_hex :: "(string \<Rightarrow> string) \<Rightarrow> string \<Rightarrow> string" where
  "sha256_hex sha data = concat (map (\<lambda>c. hex_byte (of_char c)) (sha data))"

definition verify_checksum :: "(string \<Rightarrow> string) \<Rightarrow> string \<Rightarrow> string \<Rightarrow> marketplace_error + unit" where
  "verify_checksum sha data expected =
     (if length expected \<noteq> 64 \<or> \<not> list_all is_ascii_hexdigit expected
      then Inl (InvalidMetadata (BadChecksum expected))
      else
        let computed = sha256_hex sha data in
        if computed \<noteq> expected then Inl (ChecksumMismatch expected computed) else Inr ())"

definition verify_signature :: "skill_metadata \<Rightarrow> marketplace_error + unit" where
  "verify_signature m =
     (case md_signature m of
        Some sig \<Rightarrow> if sig \<noteq> [] then Inr () else Inl (MissingSignature (md_id m))
      | None \<Rightarrow> Inl (MissingSignature (md_id m)))"

definition suspicious_patterns :: "(string \<times> string \<times> severity) list" where
  "suspicious_patterns =
     [(''eval('', ''dynamic code execution'', HighSeverity),
      (''exec('', ''dynamic code execution'', HighSeverity),
      (''__import__'', ''dynamic module import'', HighSeverity),
      (''subprocess'', ''shell subprocess invocation'', MediumSeverity),
      (''os.system'', ''direct shell command execution'', HighSeverity),
      (''base64.decode'', ''potentially obfuscated payload'', MediumSeverity),
      (''password'', ''hard-coded credential candidate'', MediumSeverity),
      (''secret'', ''hard-coded secret candidate'', MediumSeverity),
      (''api_key'', ''hard-coded API key candidate'', MediumSeverity)]"

text \<open>The dash of the descriptions is written as its UTF-8 bytes.\<close>

definition scan_content :: "unicode \<Rightarrow> string \<Rightarrow> violation list" where
  "scan_content u content =
     (let lower = uc_lowercase u content in
      map (\<lambda>(p, d, s). \<lparr>vi_kind = SuspiciousPattern,
            vi_description = ''suspicious pattern detected: '' @ [CHR 0x27] @ p @ [CHR 0x27]
              @ [CHR '' '', CHR 0xE2, CHR 0x80, CHR 0x94, CHR '' ''] @ d,
            vi_severity = s\<rparr>)
        (filter (\<lambda>(p, d, s). contains_str lower p) suspicious_patterns))"

definition full_check :: "unicode \<Rightarrow> skill_metadata \<Rightarrow> string \<Rightarrow> violation list" where
  "full_check u m content =
     (if md_id m = [] then [\<lparr>vi_kind = MissingMetadata, vi_description = ''skill id is missing'',
        vi_severity = CriticalSeverity\<rparr>] else [])
     @ (if md_checksum m = [] then [\<lparr>vi_kind = MissingMetadata, vi_description = ''checksum is missing'',
        vi_severity = CriticalSeverity\<rparr>] else [])
     @ (if md_download_url m = [] then [\<lparr>vi_kind = MissingMetadata, vi_description = ''download_url is missing'',
        vi_severity = HighSeverity\<rparr>] else [])
     @ scan_content u content"

section \<open>Adapters\<close>

record lora_adapter =
  la_path :: string
  la_rank :: nat
  la_epochs :: nat

record adapter_metadata =
  am_name :: string
  am_version :: string
  am_base_model :: string
  am_description :: string
  am_author :: string
  am_lora_rank :: nat
  am_epochs_trained :: nat

text \<open>The benchmark numbers, in hundredths.\<close>

record benchmark_results =
  br_perplexity :: int
  br_accuracy :: int
  br_num_examples :: nat

record adapter_package =
  ap_weights :: string
  ap_metadata :: adapter_metadata
  ap_benchmarks :: benchmark_results
  ap_sample_outputs :: "string list"

record listing =
  li_title :: string
  li_description :: string
  li_price :: nat
  li_skills :: "string list"
  li_language :: string

record adapter_market =
  mk_listings :: "(string \<times> listing) list"
  mk_next_id :: nat

definition package_adapter :: "lora_adapter \<Rightarrow> marketplace_error + adapter_package" where
  "package_adapter a =
     (if la_path a = [] then Inl EmptyAdapterPath
      else Inr
        \<lparr>ap_weights = la_path a,
         ap_metadata =
           \<lparr>am_name = ''lora-rank-'' @ show_nat (la_rank a), am_version = ''1.0.0'', am_base_model = ''unknown'',
            am_description = ''LoRA adapter with rank '' @ show_nat (la_rank a) @ '' trained for ''
              @ show_nat (la_epochs a) @ '' epochs'',
            am_author = ''unknown'', am_lora_rank = la_rank a, am_epochs_trained = la_epochs a\<rparr>,
         ap_benchmarks = \<lparr>br_perplexity = 1000, br_accuracy = 85, br_num_examples = 100\<rparr>,
         ap_sample_outputs = []\<rparr>)"

text \<open>The counter has 64 bits; with overflow checks it panics at the end.\<close>

definition create_listing ::
    "adapter_package \<Rightarrow> listing \<Rightarrow> adapter_market \<Rightarrow> (marketplace_error + string \<times> adapter_market) option" where
  "create_listing p l m =
     (if li_title l = [] then Some (Inl (InvalidMetadata EmptyTitle))
      else if li_description l = [] then Some (Inl (InvalidMetadata EmptyListingDescription))
      else if li_language l = [] then Some (Inl (InvalidMetadata EmptyLanguage))
      else
        let k = ''listing-'' @ show_nat (mk_next_id m) in
        if Suc (mk_next_id m) < 2 ^ 64
        then Some (Inr (k, \<lparr>mk_listings = mk_listings m @ [(k, l)], mk_next_id = Suc (mk_next_id m)\<rparr>))
        else None)"

definition search_adapters :: "unicode \<Rightarrow> adapter_market \<Rightarrow> string \<Rightarrow> marketplace_error + listing list" where
  "search_adapters u m query =
     (if query = [] then Inl (InvalidMetadata EmptyQuery)
      else
        let q = uc_lowercase u query in
        Inr (map snd (filter (\<lambda>(k, l).
          contains_str (uc_lowercase u (li_title l)) q
          \<or> contains_str (uc_lowercase u (li_description l)) q
          \<or> list_ex (\<lambda>s. contains_str (uc_lowercase u s) q) (li_skills l)) (mk_listings m))))"

section \<open>The command line\<close>

datatype marketplace_command =
    SearchCommand string | InstallCommand string | UpdateCommand "string option" | RemoveCommand string
  | ListCommand

datatype unknown_command = UnknownVerb string | MissingArgument string

definition parse_command :: "string \<Rightarrow> string list \<Rightarrow> unknown_command + marketplace_command" where
  "parse_command verb args =
     (let v = map ascii_lower verb in
      if v = ''search'' then
        (case args of [] \<Rightarrow> Inl (MissingArgument ''search'') | q # _ \<Rightarrow> Inr (SearchCommand q))
      else if v = ''install'' then
        (case args of [] \<Rightarrow> Inl (MissingArgument ''install'') | k # _ \<Rightarrow> Inr (InstallCommand k))
      else if v = ''update'' then
        Inr (UpdateCommand (case args of [] \<Rightarrow> None | k # _ \<Rightarrow> Some k))
      else if v = ''remove'' then
        (case args of [] \<Rightarrow> Inl (MissingArgument ''remove'') | k # _ \<Rightarrow> Inr (RemoveCommand k))
      else if v = ''list'' then Inr ListCommand
      else Inl (UnknownVerb verb))"

definition command_from_str :: "string \<Rightarrow> unknown_command + marketplace_command" where
  "command_from_str s = (if map ascii_lower s = ''list'' then Inr ListCommand else Inl (UnknownVerb s))"

fun command_name :: "marketplace_command \<Rightarrow> string" where
  "command_name (SearchCommand q) = ''search''"
| "command_name (InstallCommand k) = ''install''"
| "command_name (UpdateCommand k) = ''update''"
| "command_name (RemoveCommand k) = ''remove''"
| "command_name ListCommand = ''list''"

text \<open>What is printed, as data.\<close>

datatype cli_line =
    NothingFound string | FoundCount nat string | FoundSkill skill_metadata
  | InstalledLine installed_skill | UpToDate | UpdateCount nat | UpdateLine update_available
  | UpdatedLine installed_skill | UpdateFailed marketplace_error | RemovedLine string
  | NoneInstalled | InstalledCount nat | ListedSkill installed_skill

text \<open>The loop over the updates: the old version is removed first, then the remote one installed.\<close>

fun apply_updates ::
    "unicode \<Rightarrow> skill_metadata list \<Rightarrow> update_available list \<Rightarrow> installer \<Rightarrow> cli_line list \<times> installer" where
  "apply_updates u remote [] i = ([], i)"
| "apply_updates u remote (up # ups) i =
     (let (out, i) =
        (case remote_metadata remote (ua_skill_id up) of
           None \<Rightarrow> ([], i)
         | Some m \<Rightarrow>
             let i = (case uninstall_skill (ua_skill_id up) i of Inl e \<Rightarrow> i | Inr i' \<Rightarrow> i') in
             (case install_skill u m i of
                Inl e \<Rightarrow> ([UpdateFailed e], i)
              | Inr (s, i') \<Rightarrow> ([UpdatedLine s], i')));
          (rest, i) = apply_updates u remote ups i in
      (UpdateLine up # out @ rest, i))"

definition run_cli ::
    "unicode \<Rightarrow> marketplace_client \<Rightarrow> skill_metadata list \<Rightarrow> marketplace_command \<Rightarrow> installer
      \<Rightarrow> (marketplace_error + cli_line list) \<times> installer" where
  "run_cli u client remote cmd i =
     (case cmd of
        SearchCommand query \<Rightarrow>
          (case search_skills u client query None of
             Inl e \<Rightarrow> (Inl e, i)
           | Inr [] \<Rightarrow> (Inr [NothingFound query], i)
           | Inr ms \<Rightarrow> (Inr (FoundCount (length ms) query # map FoundSkill ms), i))
      | InstallCommand k \<Rightarrow>
          (case get_skill client k of
             Inl e \<Rightarrow> (Inl e, i)
           | Inr m \<Rightarrow>
               (case install_skill u m i of
                  Inl e \<Rightarrow> (Inl e, i)
                | Inr (s, i') \<Rightarrow> (Inr [InstalledLine s], i')))
      | UpdateCommand filter_id \<Rightarrow>
          (case check_updates remote (in_installed i) of
             Inl e \<Rightarrow> (Inl e, i)
           | Inr updates \<Rightarrow>
               let applicable =
                 (case filter_id of Some k \<Rightarrow> filter (\<lambda>up. ua_skill_id up = k) updates | None \<Rightarrow> updates) in
               if applicable = [] then (Inr [UpToDate], i)
               else
                 let (out, i') = apply_updates u remote applicable i in
                 (Inr (UpdateCount (length applicable) # out), i'))
      | RemoveCommand k \<Rightarrow>
          (case uninstall_skill k i of Inl e \<Rightarrow> (Inl e, i) | Inr i' \<Rightarrow> (Inr [RemovedLine k], i'))
      | ListCommand \<Rightarrow>
          (if in_installed i = [] then (Inr [NoneInstalled], i)
           else (Inr (InstalledCount (length (in_installed i)) # map ListedSkill (in_installed i)), i)))"

end
