(* ===== verification/Installation.thy ===== *)
theory Installation
  imports Marketplace
begin

text \<open>
  The correctness of the marketplace: the installed skills stay a table with one valid entry for every
  id, what an update does to every skill, and what the checks let through.
\<close>

section \<open>The installed skills as a table\<close>

abbreviation skill_id :: "installed_skill \<Rightarrow> string" where
  "skill_id s \<equiv> md_id (is_metadata s)"

definition skill_of :: "installer \<Rightarrow> string \<Rightarrow> installed_skill option" where
  "skill_of i k = find (\<lambda>s. skill_id s = k) (in_installed i)"

definition installed_as :: "string \<Rightarrow> skill_metadata \<Rightarrow> installed_skill" where
  "installed_as dir m = \<lparr>is_metadata = m, is_install_path = install_path dir m,
     is_installed_at = timestamp_now, is_last_used = None\<rparr>"

definition installer_ok :: "unicode \<Rightarrow> installer \<Rightarrow> bool" where
  "installer_ok u i \<longleftrightarrow>
     distinct (map skill_id (in_installed i)) \<and>
     (\<forall>s \<in> set (in_installed i). validate_metadata u (is_metadata s) = None
        \<and> is_install_path s = install_path (in_dir i) (is_metadata s))"

lemma find_distinct:
  "distinct (map f xs) \<Longrightarrow> find (\<lambda>x. f x = k) xs = Some x \<longleftrightarrow> x \<in> set xs \<and> f x = k"
  by (induction xs) (auto simp: rev_image_eqI)

lemma is_installed_iff: "is_installed k i \<longleftrightarrow> skill_of i k \<noteq> None"
  by (auto simp: is_installed_def skill_of_def find_None_iff list_ex_iff)

lemma find_snoc: "find P (xs @ [x]) = (case find P xs of None \<Rightarrow> if P x then Some x else None | Some y \<Rightarrow> Some y)"
  by (induction xs) auto

lemma find_remove_first:
  "distinct (map f xs) \<Longrightarrow>
     find (\<lambda>x. f x = k') (remove_first (\<lambda>x. f x = k) xs) = (if k' = k then None else find (\<lambda>x. f x = k') xs)"
  by (induction xs) (auto simp: find_None_iff intro: rev_image_eqI)

lemma set_remove_first: "set (remove_first P xs) \<subseteq> set xs"
  by (induction xs) auto

lemma distinct_remove_first: "distinct (map f xs) \<Longrightarrow> distinct (map f (remove_first P xs))"
proof (induction xs)
  case (Cons x xs)
  then show ?case using set_remove_first [of P xs] by auto
qed simp

lemma modify_first_ids: "(\<And>x. f (g x) = f x) \<Longrightarrow> map f (modify_first P g xs) = map f xs"
  by (induction xs) auto

lemma set_modify_first: "set (modify_first P g xs) \<subseteq> set xs \<union> g ` set xs"
  by (induction xs) auto

lemma install_Inr:
  "install_skill u m i = Inr (s, i') \<longleftrightarrow>
     validate_metadata u m = None \<and> skill_of i (md_id m) = None \<and> s = installed_as (in_dir i) m
     \<and> i' = i\<lparr>in_installed := in_installed i @ [s]\<rparr>"
  by (auto simp: install_skill_def is_installed_iff installed_as_def Let_def split: option.splits)

lemma install_ok:
  assumes "installer_ok u i" and "install_skill u m i = Inr (s, i')"
  shows "installer_ok u i'" and "skill_of i' = (skill_of i)(md_id m \<mapsto> s)" and "in_dir i' = in_dir i"
proof -
  have m: "validate_metadata u m = None" "skill_of i (md_id m) = None" "s = installed_as (in_dir i) m"
    and i': "i' = i\<lparr>in_installed := in_installed i @ [s]\<rparr>"
    using assms(2) by (auto simp: install_Inr)
  from m(2) have "\<forall>x \<in> set (in_installed i). skill_id x \<noteq> md_id m"
    by (auto simp: skill_of_def find_None_iff)
  then show "installer_ok u i'"
    using assms(1) m by (auto simp: i' installer_ok_def installed_as_def)
  show "skill_of i' = (skill_of i)(md_id m \<mapsto> s)"
    using m(2) by (auto simp: i' fun_eq_iff skill_of_def find_snoc m(3) installed_as_def split: option.splits)
  show "in_dir i' = in_dir i" by (simp add: i')
qed

lemma uninstall_ok:
  assumes "installer_ok u i" and "uninstall_skill k i = Inr i'"
  shows "installer_ok u i'" and "skill_of i' = (skill_of i)(k := None)" and "in_dir i' = in_dir i"
proof -
  have i': "i' = i\<lparr>in_installed := remove_first (\<lambda>s. skill_id s = k) (in_installed i)\<rparr>"
    using assms(2) by (auto simp: uninstall_skill_def split: if_splits)
  have d: "distinct (map skill_id (in_installed i))" using assms(1) by (simp add: installer_ok_def)
  show "installer_ok u i'"
    using assms(1) distinct_remove_first [OF d] set_remove_first [of _ "in_installed i"]
    by (auto simp: i' installer_ok_def)
  show "skill_of i' = (skill_of i)(k := None)"
    using find_remove_first [OF d] by (auto simp: i' skill_of_def fun_eq_iff)
  show "in_dir i' = in_dir i" by (simp add: i')
qed

lemma record_use_ok:
  assumes "installer_ok u i" and "record_use k i = Inr i'"
  shows "installer_ok u i'"
proof -
  let ?g = "\<lambda>s. s\<lparr>is_last_used := Some timestamp_now\<rparr>"
  have i': "i' = i\<lparr>in_installed := modify_first (\<lambda>s. skill_id s = k) ?g (in_installed i)\<rparr>"
    using assms(2) by (auto simp: record_use_def split: if_splits)
  have "validate_metadata u (is_metadata s) = None
      \<and> is_install_path s = install_path (in_dir i) (is_metadata s)" if "s \<in> set (in_installed i')" for s
    using that set_modify_first [of "\<lambda>s. skill_id s = k" ?g "in_installed i"] assms(1)
    by (auto simp: i' installer_ok_def)
  moreover have "map skill_id (in_installed i') = map skill_id (in_installed i)"
    by (simp add: i' modify_first_ids)
  ultimately show ?thesis using assms(1) by (simp add: installer_ok_def) (simp add: i')
qed

section \<open>Updates\<close>

definition outdated :: "skill_metadata list \<Rightarrow> skill_metadata \<Rightarrow> bool" where
  "outdated remote m \<longleftrightarrow>
     (case remote_metadata remote (md_id m) of
        None \<Rightarrow> False
      | Some r \<Rightarrow>
          (case (parse_semver (md_version m), parse_semver (md_version r)) of
             (Some v, Some w) \<Rightarrow> semver_less v w
           | _ \<Rightarrow> False))"

lemma semver_less_irrefl: "\<not> semver_less v v"
  by (cases v) simp

definition update_of :: "skill_metadata list \<Rightarrow> skill_metadata \<Rightarrow> update_available" where
  "update_of remote m =
     \<lparr>ua_skill_id = md_id m, ua_installed_version = md_version m,
      ua_available_version = md_version (the (remote_metadata remote (md_id m))), ua_release_notes = None\<rparr>"

lemma check_updates_Cons:
  "check_updates remote (s # ss) =
     (if parse_semver (md_version (is_metadata s)) = None
      then Inl (InvalidMetadata (UnparseableVersion (skill_id s) (md_version (is_metadata s))))
      else
        (case check_updates remote ss of
           Inl e \<Rightarrow> Inl e
         | Inr us \<Rightarrow>
             Inr ((if outdated remote (is_metadata s) then [update_of remote (is_metadata s)] else []) @ us)))"
  by (cases "parse_semver (md_version (is_metadata s))"; cases "remote_metadata remote (skill_id s)";
      cases "parse_semver (md_version (the (remote_metadata remote (skill_id s))))")
    (auto simp: outdated_def update_of_def Let_def split: sum.splits)

declare check_updates.simps(2) [simp del]

lemma check_updates_ids:
  "check_updates remote ss = Inr ups \<Longrightarrow>
     map ua_skill_id ups = map skill_id (filter (\<lambda>s. outdated remote (is_metadata s)) ss)
     \<and> (\<forall>s \<in> set ss. parse_semver (md_version (is_metadata s)) \<noteq> None)"
  by (induction ss arbitrary: ups)
    (auto simp: check_updates_Cons update_of_def split: sum.splits if_splits)

lemma check_updates_Nil:
  assumes "\<And>s. s \<in> set ss \<Longrightarrow> parse_semver (md_version (is_metadata s)) \<noteq> None \<and> \<not> outdated remote (is_metadata s)"
  shows "check_updates remote ss = Inr []"
  using assms
proof (induction ss)
  case (Cons s ss)
  then show ?case by (auto simp: check_updates_Cons)
qed simp

lemma remote_id: "remote_metadata remote k = Some m \<Longrightarrow> md_id m = k"
  by (auto simp: remote_metadata_def dest: find_sat)

text \<open>What the loop makes of a skill that is named by an update.\<close>

definition updated_to :: "unicode \<Rightarrow> skill_metadata list \<Rightarrow> string \<Rightarrow> string \<Rightarrow> installed_skill option" where
  "updated_to u remote dir k =
     (case remote_metadata remote k of
        None \<Rightarrow> None
      | Some m \<Rightarrow> if validate_metadata u m = None then Some (installed_as dir m) else None)"

lemma apply_updates_effect:
  assumes "installer_ok u i" and "distinct (map ua_skill_id ups)"
    and "\<And>up. up \<in> set ups \<Longrightarrow> skill_of i (ua_skill_id up) \<noteq> None \<and> remote_metadata remote (ua_skill_id up) \<noteq> None"
  shows "let i' = snd (apply_updates u remote ups i) in
    installer_ok u i' \<and> in_dir i' = in_dir i \<and>
    (\<forall>k. skill_of i' k =
       (if k \<in> ua_skill_id ` set ups then updated_to u remote (in_dir i) k else skill_of i k))"
  using assms
proof (induction ups arbitrary: i)
  case Nil
  then show ?case by simp
next
  case (Cons up ups)
  let ?k = "ua_skill_id up"
  obtain m where m: "remote_metadata remote ?k = Some m" "md_id m = ?k"
    using Cons.prems(3) [of up] remote_id by fastforce
  obtain i1 where i1: "uninstall_skill ?k i = Inr i1"
    using Cons.prems(3) [of up] by (auto simp: uninstall_skill_def is_installed_iff)
  note un = uninstall_ok [OF Cons.prems(1) i1]
  define i2 where "i2 = (case install_skill u m i1 of Inl e \<Rightarrow> i1 | Inr (s, i') \<Rightarrow> i')"
  have i2: "installer_ok u i2 \<and> in_dir i2 = in_dir i \<and> skill_of i2 = (skill_of i)(?k := updated_to u remote (in_dir i) ?k)"
  proof (cases "install_skill u m i1")
    case (Inl e)
    then obtain x where "validate_metadata u m = Some x"
      using un m by (auto simp: install_skill_def is_installed_iff Let_def split: option.splits)
    then show ?thesis using un m Inl by (simp add: i2_def updated_to_def)
  next
    case (Inr r)
    obtain s i' where r: "r = (s, i')" by fastforce
    note inst = install_ok [OF un(1) Inr [unfolded r]]
    have "validate_metadata u m = None" "s = installed_as (in_dir i) m"
      using Inr [unfolded r] un(3) by (auto simp: install_Inr)
    then show ?thesis using inst un m Inr r by (simp add: i2_def updated_to_def)
  qed
  have step: "snd (apply_updates u remote (up # ups) i) = snd (apply_updates u remote ups i2)"
    using m i1 by (auto simp: i2_def Let_def split: prod.splits sum.splits)
  have "let i' = snd (apply_updates u remote ups i2) in
    installer_ok u i' \<and> in_dir i' = in_dir i2 \<and>
    (\<forall>k. skill_of i' k =
       (if k \<in> ua_skill_id ` set ups then updated_to u remote (in_dir i2) k else skill_of i2 k))"
  proof (rule Cons.IH)
    show "installer_ok u i2" using i2 by simp
    show "distinct (map ua_skill_id ups)" using Cons.prems(2) by simp
    show "skill_of i2 (ua_skill_id x) \<noteq> None \<and> remote_metadata remote (ua_skill_id x) \<noteq> None" if "x \<in> set ups" for x
      using Cons.prems(2,3) that i2 by (auto simp: rev_image_eqI)
  qed
  moreover have "?k \<notin> ua_skill_id ` set ups" using Cons.prems(2) by simp
  ultimately show ?case
    unfolding step Let_def using i2 by auto
qed

lemma outdated_remote: "outdated remote m \<Longrightarrow> remote_metadata remote (md_id m) \<noteq> None"
  by (auto simp: outdated_def split: option.splits)

lemma skill_of_mem: "s \<in> set (in_installed i) \<Longrightarrow> skill_of i (skill_id s) \<noteq> None"
  by (auto simp: skill_of_def find_None_iff)

lemma update_names:
  assumes "check_updates remote (in_installed i) = Inr ups" and "up \<in> set ups"
  shows "skill_of i (ua_skill_id up) \<noteq> None \<and> remote_metadata remote (ua_skill_id up) \<noteq> None"
proof -
  have "map ua_skill_id ups = map skill_id (filter (\<lambda>s. outdated remote (is_metadata s)) (in_installed i))"
    using check_updates_ids [OF assms(1)] by simp
  then have "ua_skill_id up \<in> set (map skill_id (filter (\<lambda>s. outdated remote (is_metadata s)) (in_installed i)))"
    using assms(2) by (metis in_set_conv_nth length_map nth_map nth_mem)
  then obtain s where s: "s \<in> set (in_installed i)" "outdated remote (is_metadata s)" "ua_skill_id up = skill_id s"
    by auto
  show ?thesis unfolding s(3) using outdated_remote [OF s(2)] skill_of_mem [OF s(1)] by blast
qed

lemma update_effect:
  assumes ok: "installer_ok u i" and up: "check_updates remote (in_installed i) = Inr ups"
  shows "installer_ok u (snd (run_cli u client remote (UpdateCommand None) i))"
    and "fst (run_cli u client remote (UpdateCommand None) i) \<noteq> Inl e"
    and "in_dir (snd (run_cli u client remote (UpdateCommand None) i)) = in_dir i"
    and "skill_of (snd (run_cli u client remote (UpdateCommand None) i)) k =
      (case skill_of i k of
         None \<Rightarrow> None
       | Some s \<Rightarrow> if outdated remote (is_metadata s) then updated_to u remote (in_dir i) k else Some s)"
proof -
  let ?old = "filter (\<lambda>s. outdated remote (is_metadata s)) (in_installed i)"
  let ?i' = "snd (apply_updates u remote ups i)"
  have run: "snd (run_cli u client remote (UpdateCommand None) i) = ?i'"
    using up by (auto simp: run_cli_def Let_def split: prod.splits)
  have ids: "map ua_skill_id ups = map skill_id ?old" using check_updates_ids [OF up] by simp
  have d: "distinct (map skill_id (in_installed i))" using ok by (simp add: installer_ok_def)
  have mem: "x \<in> ua_skill_id ` set ups \<longleftrightarrow> x \<in> skill_id ` set ?old" for x
    using arg_cong [OF ids, of set] by simp
  have eff: "let i' = ?i' in installer_ok u i' \<and> in_dir i' = in_dir i \<and>
      (\<forall>k. skill_of i' k =
        (if k \<in> ua_skill_id ` set ups then updated_to u remote (in_dir i) k else skill_of i k))"
  proof (rule apply_updates_effect [OF ok])
    show "distinct (map ua_skill_id ups)" using d by (simp add: ids distinct_map_filter)
    show "skill_of i (ua_skill_id up) \<noteq> None \<and> remote_metadata remote (ua_skill_id up) \<noteq> None"
      if "up \<in> set ups" for up
      by (rule update_names [OF up that])
  qed
  show "installer_ok u (snd (run_cli u client remote (UpdateCommand None) i))"
    and "in_dir (snd (run_cli u client remote (UpdateCommand None) i)) = in_dir i"
    using eff by (simp_all add: run Let_def)
  show "fst (run_cli u client remote (UpdateCommand None) i) \<noteq> Inl e"
    using up by (auto simp: run_cli_def Let_def split: prod.splits)
  have "k \<in> ua_skill_id ` set ups \<longleftrightarrow> (\<exists>s. skill_of i k = Some s \<and> outdated remote (is_metadata s))"
    using find_distinct [OF d] by (auto simp: mem skill_of_def)
  then show "skill_of (snd (run_cli u client remote (UpdateCommand None) i)) k =
      (case skill_of i k of
         None \<Rightarrow> None
       | Some s \<Rightarrow> if outdated remote (is_metadata s) then updated_to u remote (in_dir i) k else Some s)"
    using eff by (auto simp: run Let_def split: option.splits)
qed

lemma run_cli_ok: "installer_ok u i \<Longrightarrow> installer_ok u (snd (run_cli u client remote cmd i))"
proof (cases cmd)
  case (UpdateCommand f)
  assume ok: "installer_ok u i"
  show ?thesis
  proof (cases "check_updates remote (in_installed i)")
    case (Inl e)
    then show ?thesis using ok UpdateCommand by (simp add: run_cli_def)
  next
    case (Inr ups)
    define sel where "sel = (case f of Some k \<Rightarrow> filter (\<lambda>up. ua_skill_id up = k) ups | None \<Rightarrow> ups)"
    have d: "distinct (map skill_id (in_installed i))" using ok by (simp add: installer_ok_def)
    have ids: "map ua_skill_id ups = map skill_id (filter (\<lambda>s. outdated remote (is_metadata s)) (in_installed i))"
      using check_updates_ids [OF Inr] by simp
    have "distinct (map ua_skill_id ups)" using d by (simp add: ids distinct_map_filter)
    then have ds: "distinct (map ua_skill_id sel)" and sub: "set sel \<subseteq> set ups"
      by (auto simp: sel_def distinct_map_filter split: option.splits)
    have "installer_ok u (snd (apply_updates u remote sel i))"
      using apply_updates_effect [OF ok ds update_names [OF Inr]] sub by (simp add: Let_def subset_iff)
    then show ?thesis
      using ok Inr UpdateCommand by (auto simp: run_cli_def Let_def sel_def [symmetric] split: prod.splits)
  qed
qed (auto simp: run_cli_def dest: install_ok uninstall_ok split: sum.splits list.splits)

section \<open>Properties\<close>

text \<open>
  Whatever commands are run from a fresh installer, with any catalogue and any remote list, the
  installed skills keep one entry for every id, every entry has valid metadata and the install path
  that belongs to it.
\<close>

theorem installed_skills_stay_valid:
  assumes "installer_new dir = Inr i"
  shows "installer_ok u (fold (\<lambda>(client, remote, cmd) i. snd (run_cli u client remote cmd i)) cmds i)"
proof -
  have "installer_ok u i"
    using assms by (auto simp: installer_new_def installer_ok_def split: if_splits)
  then show ?thesis
    by (induction cmds arbitrary: i) (auto simp: run_cli_ok)
qed

text \<open>
  An update of all skills that can be checked never fails.  It leaves every skill that is not
  outdated as it is and replaces an outdated one by the remote version - if the remote metadata are
  valid; if they are not, the skill is uninstalled, and the command still succeeds.
\<close>

theorem update_replaces_or_uninstalls:
  assumes "installer_ok u i" and "check_updates remote (in_installed i) = Inr ups"
  shows "fst (run_cli u client remote (UpdateCommand None) i) \<noteq> Inl e
    \<and> (skill_of i k = Some s \<longrightarrow> \<not> outdated remote (is_metadata s)
      \<longrightarrow> skill_of (snd (run_cli u client remote (UpdateCommand None) i)) k = Some s)
    \<and> (skill_of i k = Some s \<longrightarrow> outdated remote (is_metadata s) \<longrightarrow> remote_metadata remote k = Some m
      \<longrightarrow> skill_of (snd (run_cli u client remote (UpdateCommand None) i)) k =
        (if validate_metadata u m = None then Some (installed_as (in_dir i) m) else None))"
  using update_effect [OF assms, of client] by (simp_all add: updated_to_def)

text \<open>
  When the remote metadata of the outdated skills are valid, one update is enough: the next check
  finds nothing to update.
\<close>

theorem update_settles:
  assumes "installer_ok u i" and "check_updates remote (in_installed i) = Inr ups"
    and "\<forall>s \<in> set (in_installed i). outdated remote (is_metadata s)
      \<longrightarrow> validate_metadata u (the (remote_metadata remote (skill_id s))) = None"
  shows "check_updates remote (in_installed (snd (run_cli u client remote (UpdateCommand None) i))) = Inr []"
proof (rule check_updates_Nil)
  fix s
  let ?i' = "snd (run_cli u client remote (UpdateCommand None) i)"
  assume s: "s \<in> set (in_installed ?i')"
  note eff = update_effect [OF assms(1,2), of client]
  have "skill_of ?i' (skill_id s) = Some s"
    using eff(1) s by (simp add: installer_ok_def skill_of_def find_distinct)
  then obtain s0 where s0: "skill_of i (skill_id s) = Some s0"
    and s1: "Some s = (if outdated remote (is_metadata s0) then updated_to u remote (in_dir i) (skill_id s) else Some s0)"
    using eff(4) [of "skill_id s"] by (auto split: option.splits)
  from s0 have mem: "s0 \<in> set (in_installed i)" and id0: "skill_id s0 = skill_id s"
    by (auto simp: skill_of_def dest: find_sat)
  show "parse_semver (md_version (is_metadata s)) \<noteq> None \<and> \<not> outdated remote (is_metadata s)"
  proof (cases "outdated remote (is_metadata s0)")
    case False
    then show ?thesis using s1 mem check_updates_ids [OF assms(2)] by auto
  next
    case True
    obtain m where m: "remote_metadata remote (skill_id s) = Some m"
      using outdated_remote [OF True] id0 by auto
    then have "is_metadata s = m"
      using s1 True by (auto simp: updated_to_def installed_as_def split: if_splits)
    moreover have "parse_semver (md_version m) \<noteq> None"
      using True m id0 by (auto simp: outdated_def split: option.splits)
    ultimately show ?thesis
      using m by (auto simp: outdated_def semver_less_irrefl split: option.splits)
  qed
qed

text \<open>A version that passes the validation is parsed unless a component does not fit 64 bits.\<close>

lemma valid_version_parses:
  assumes "is_valid_semver v"
  shows "parse_semver v = None \<longleftrightarrow> list_ex (\<lambda>p. 2 ^ 64 \<le> dec_val p) (take 3 (split_on CHR ''.'' v))"
proof -
  obtain a b c rest where v: "split_on CHR ''.'' v = a # b # c # rest"
    and d: "list_all (\<lambda>p. p \<noteq> [] \<and> list_all is_ascii_digit p) [a, b, c]"
    using assms by (auto simp: is_valid_semver_def split: list.splits)
  have plus: "x \<noteq> CHR ''+''" if "is_ascii_digit x" for x using that by (auto simp: is_ascii_digit_def)
  have pu: "parse_uint 64 p = (if dec_val p < 2 ^ 64 then Some (dec_val p) else None)"
    if "p \<noteq> []" "list_all is_ascii_digit p" for p
    using that plus by (cases p) (auto simp: parse_uint_def Let_def)
  have "CHR ''-'' \<notin> set c" using d by (auto simp: list_all_iff is_ascii_digit_def)
  then show ?thesis using d by (auto simp: parse_semver_def v split_on_no_sep pu)
qed

text \<open>
  A skill whose version passes the validation but has a component of 64 bits or more can be
  installed; from then on every check for updates fails, whatever else is installed, and so does the
  update command.
\<close>

theorem large_version_blocks_updates:
  assumes "install_skill u m i = Inr (s, i')"
    and "list_ex (\<lambda>p. 2 ^ 64 \<le> dec_val p) (take 3 (split_on CHR ''.'' (md_version m)))"
  shows "is_valid_semver (md_version m)
    \<and> (\<exists>e. check_updates remote (in_installed i') = Inl e \<and> run_cli u client remote (UpdateCommand k) i' = (Inl e, i'))"
proof (intro conjI)
  have valid: "validate_metadata u m = None" and i': "in_installed i' = in_installed i @ [installed_as (in_dir i) m]"
    using assms(1) by (auto simp: install_Inr)
  then show sv: "is_valid_semver (md_version m)" by (auto simp: validate_metadata_def split: if_splits)
  have "parse_semver (md_version m) = None" using valid_version_parses [OF sv] assms(2) by blast
  then have "check_updates remote (ss @ [installed_as (in_dir i) m]) \<noteq> Inr us" for ss us
    using check_updates_ids [of remote "ss @ [installed_as (in_dir i) m]" us] by (auto simp: installed_as_def)
  then obtain e where "check_updates remote (in_installed i') = Inl e"
    unfolding i' by (metis sum.exhaust)
  then show "\<exists>e. check_updates remote (in_installed i') = Inl e \<and> run_cli u client remote (UpdateCommand k) i' = (Inl e, i')"
    by (simp add: run_cli_def)
qed

lemma div_16: "k < 256 \<Longrightarrow> k div 16 < (16 :: nat)"
  by presburger

lemma hex_digit_lower: "n < 16 \<Longrightarrow> \<not> (65 \<le> (of_char (hex_digit n) :: nat) \<and> of_char (hex_digit n) \<le> (70 :: nat))"
  by (auto simp: hex_digit_def)

text \<open>
  A checksum in upper case passes the validation of the metadata but no archive passes the
  verification against it.
\<close>

theorem uppercase_checksum_never_verifies:
  assumes "is_valid_sha256_hex expected" and "c \<in> set expected" and "c \<in> set ''ABCDEF''"
  shows "verify_checksum sha data expected = Inl (ChecksumMismatch expected (sha256_hex sha data))"
proof -
  have "c \<notin> set (sha256_hex sha data)"
  proof
    assume "c \<in> set (sha256_hex sha data)"
    then obtain b :: char where "c = hex_digit (of_char b div 16) \<or> c = hex_digit (of_char b mod 16)"
      by (auto simp: sha256_hex_def hex_byte_def)
    then obtain n where "n < 16" "c = hex_digit n"
      using div_16 [OF nat_of_char_less_256 [of b]] mod_less_divisor [of 16 "of_char b :: nat"]
      by (metis zero_less_numeral)
    moreover have "65 \<le> (of_char c :: nat) \<and> of_char c \<le> (70 :: nat)" using assms(3) by auto
    ultimately show False using hex_digit_lower by blast
  qed
  then have "sha256_hex sha data \<noteq> expected" using assms(2) by metis
  then show ?thesis using assms(1) by (simp add: verify_checksum_def is_valid_sha256_hex_def)
qed

section \<open>Witnesses\<close>

definition skill0 :: "string \<Rightarrow> string \<Rightarrow> skill_metadata" where
  "skill0 version url = \<lparr>md_id = ''a'', md_name = ''n'', md_version = version, md_description = ''d'',
     md_author = ''w'', md_categories = [Coding ''c''], md_checksum = replicate 64 CHR ''A'',
     md_download_url = url, md_signature = None\<rparr>"

definition installer0 :: installer where
  "installer0 = \<lparr>in_dir = ''x'', in_installed = [installed_as ''x'' (skill0 ''1.0.0'' ''https://h'')]\<rparr>"

lemma installer0_ok: "installer_ok ascii_unicode installer0"
  by code_simp

lemma versions0:
  "parse_semver ''1.0.0'' = Some (1, 0, 0)" "parse_semver ''1.1.0'' = Some (1, 1, 0)"
  "2 ^ 64 \<le> dec_val ''18446744073709551616''"
  by (simp_all add: parse_semver_def parse_uint_def dec_val_def digit_val_def is_ascii_digit_def)

lemma skill0_sel [simp]:
  "md_id (skill0 v h) = ''a''" "md_version (skill0 v h) = v"
  "is_metadata (installed_as dir m) = m" "in_dir installer0 = ''x''"
  "in_installed installer0 = [installed_as ''x'' (skill0 ''1.0.0'' ''https://h'')]"
  by (simp_all add: skill0_def installed_as_def installer0_def)

lemma facts0:
  assumes "h = ''http://h'' \<or> h = ''https://h''"
  shows "check_updates [skill0 ''1.1.0'' h] (in_installed installer0)
      = Inr [update_of [skill0 ''1.1.0'' h] (skill0 ''1.0.0'' ''https://h'')]"
    and "outdated [skill0 ''1.1.0'' h] (skill0 ''1.0.0'' ''https://h'')"
    and "remote_metadata [skill0 ''1.1.0'' h] ''a'' = Some (skill0 ''1.1.0'' h)"
  by (simp_all add: check_updates_Cons outdated_def remote_metadata_def versions0)

theorem installed_skills_stay_valid_witness:
  "installer_ok ascii_unicode (fold (\<lambda>(client, remote, cmd) i. snd (run_cli ascii_unicode client remote cmd i))
     [(\<lparr>cl_api_base = [], cl_catalogue = [skill0 ''1.0.0'' ''https://h'']\<rparr>, [], InstallCommand ''a'')]
     \<lparr>in_dir = ''x'', in_installed = []\<rparr>)"
  by (rule installed_skills_stay_valid [of "''x''"]) (simp add: installer_new_def)

theorem update_replaces_or_uninstalls_witness:
  "skill_of (snd (run_cli ascii_unicode (client_new []) [skill0 ''1.1.0'' ''http://h''] (UpdateCommand None) installer0)) ''a''
     = None"
proof -
  have "skill_of installer0 ''a'' = Some (installed_as ''x'' (skill0 ''1.0.0'' ''https://h''))"
    by (simp add: skill_of_def)
  moreover have "validate_metadata ascii_unicode (skill0 ''1.1.0'' ''http://h'') \<noteq> None" by code_simp
  ultimately show ?thesis
    using update_replaces_or_uninstalls [THEN conjunct2, THEN conjunct2, rule_format, OF installer0_ok facts0(1), of "''http://h''" "''a''"
        "installed_as ''x'' (skill0 ''1.0.0'' ''https://h'')" "skill0 ''1.1.0'' ''http://h''" "client_new []"]
      facts0(2,3) [of "''http://h''"] by simp
qed

theorem update_settles_witness:
  "check_updates [skill0 ''1.1.0'' ''https://h''] (in_installed (snd (run_cli ascii_unicode (client_new [])
     [skill0 ''1.1.0'' ''https://h''] (UpdateCommand None) installer0))) = Inr []"
proof (rule update_settles [OF installer0_ok facts0(1)])
  have "validate_metadata ascii_unicode (skill0 ''1.1.0'' ''https://h'') = None" by code_simp
  then show "\<forall>s \<in> set (in_installed installer0). outdated [skill0 ''1.1.0'' ''https://h''] (is_metadata s)
      \<longrightarrow> validate_metadata ascii_unicode (the (remote_metadata [skill0 ''1.1.0'' ''https://h''] (skill_id s))) = None"
    using facts0(3) [of "''https://h''"] by simp
qed simp

theorem large_version_blocks_updates_witness:
  "is_valid_semver ''18446744073709551616.0.0''"
proof -
  let ?m = "skill0 ''18446744073709551616.0.0'' ''https://h''"
  let ?i = "\<lparr>in_dir = ''x'', in_installed = []\<rparr>"
  have big: "list_ex (\<lambda>p. 2 ^ 64 \<le> dec_val p) (take 3 (split_on CHR ''.'' (md_version ?m)))"
    using versions0(3) by simp
  have valid: "validate_metadata ascii_unicode ?m = None" by code_simp
  have "install_skill ascii_unicode ?m ?i
      = Inr (installed_as (in_dir ?i) ?m, ?i\<lparr>in_installed := in_installed ?i @ [installed_as (in_dir ?i) ?m]\<rparr>)"
    unfolding install_Inr using valid by (simp add: skill_of_def)
  from large_version_blocks_updates [THEN conjunct1, OF this big] show ?thesis by simp
qed

theorem uppercase_checksum_never_verifies_witness:
  "verify_checksum (\<lambda>s. s) [] (replicate 64 CHR ''A'')
     = Inl (ChecksumMismatch (replicate 64 CHR ''A'') (sha256_hex (\<lambda>s. s) []))"
  by (rule uppercase_checksum_never_verifies [of _ "CHR ''A''"]) code_simp+

end
