(* ===== verification/Effects.thy ===== *)
theory Effects
  imports Prelude
begin

text \<open>
  Computations that change a state and may fail: the asynchronous and the file functions of the code
  that return a \<open>Result\<close>.  What was changed before a failure stays.
\<close>

type_synonym ('s, 'e, 'a) effect = "'s \<Rightarrow> ('e + 'a) \<times> 's"

definition io_ok :: "'a \<Rightarrow> ('s, 'e, 'a) effect" where
  "io_ok x f = (Inr x, f)"

definition io_err :: "'e \<Rightarrow> ('s, 'e, 'a) effect" where
  "io_err e f = (Inl e, f)"

text \<open>The question mark of the code.\<close>

definition io_bind :: "('s, 'e, 'a) effect \<Rightarrow> ('a \<Rightarrow> ('s, 'e, 'b) effect) \<Rightarrow> ('s, 'e, 'b) effect" where
  "io_bind m k f = (case m f of (Inl e, f') \<Rightarrow> (Inl e, f') | (Inr x, f') \<Rightarrow> k x f')"

definition io_check :: "'e option \<Rightarrow> ('s, 'e, unit) effect" where
  "io_check r = (case r of None \<Rightarrow> io_ok () | Some e \<Rightarrow> io_err e)"

definition io_ask :: "('s \<Rightarrow> 'a) \<Rightarrow> ('s, 'e, 'a) effect" where
  "io_ask g f = (Inr (g f), f)"

section \<open>Successful computations\<close>

lemma bind_Inr: "io_bind m k f = (Inr y, f') \<longleftrightarrow> (\<exists>x f1. m f = (Inr x, f1) \<and> k x f1 = (Inr y, f'))"
  by (auto simp: io_bind_def split: prod.splits sum.splits)

lemma check_Inr: "io_check r f = (Inr u, f') \<longleftrightarrow> r = None \<and> f' = f"
  by (auto simp: io_check_def io_ok_def io_err_def split: option.splits)

lemma ask_Inr: "io_ask g f = (Inr x, f') \<longleftrightarrow> x = g f \<and> f' = f"
  by (auto simp: io_ask_def)

lemma ok_Inr: "io_ok x f = (Inr y, f') \<longleftrightarrow> y = x \<and> f' = f"
  by (auto simp: io_ok_def)

lemma err_Inr: "io_err e f \<noteq> (Inr y, f')"
  by (simp add: io_err_def)

lemmas effect_Inr = bind_Inr check_Inr ask_Inr ok_Inr err_Inr

section \<open>Invariants\<close>

lemma check_snd: "snd (io_check r f) = f"
  by (cases r) (simp_all add: io_check_def io_ok_def io_err_def)

lemma bind_preserves:
  assumes "\<And>f. I f \<Longrightarrow> I (snd (m f))" and "\<And>x f. I f \<Longrightarrow> I (snd (k x f))" and "I f"
  shows "I (snd (io_bind m k f))"
proof (cases "fst (m f)")
  case (Inl e)
  then show ?thesis using assms(1,3) by (cases "m f") (simp add: io_bind_def, metis snd_conv)
next
  case (Inr x)
  have "I (snd (k x (snd (m f))))" using assms by blast
  then show ?thesis using Inr by (cases "m f") (simp add: io_bind_def)
qed

text \<open>A computation that only reads.\<close>

definition reads :: "('s, 'e, 'a) effect \<Rightarrow> bool" where
  "reads m \<longleftrightarrow> (\<forall>f. snd (m f) = f)"

lemma reads_basic: "reads (io_ok x)" "reads (io_err e)" "reads (io_ask g)"
  by (simp_all add: reads_def io_ok_def io_err_def io_ask_def)

lemma reads_bind: "reads m \<Longrightarrow> (\<And>x. reads (k x)) \<Longrightarrow> reads (io_bind m k)"
  by (simp add: reads_def io_bind_def split: prod.splits sum.splits) (metis snd_conv)

end
