(* ===== verification/Workshop.thy ===== *)
theory Workshop
  imports Utf8 Effects
begin

text \<open>
  The skill workshop (\<open>crates/marketplace/src/skill_workshop.rs\<close>): proposals of skills on a file system,
  their validation, revision, rejection and installation.

  A path is the list of its names from the root; \<open>..\<close> is resolved by the names (no symbolic links).
  An operation of the file system takes and returns its state and may fail; what is assumed of it
  is said through the tree of a state.  Error texts are data.  The JSON codec, the RFC 3339 text of
  the clock and its milliseconds are parameters.
\<close>

section \<open>Paths\<close>

type_synonym path = "string list"

datatype component = RootDir | CurDir | ParentDir | Normal string

definition body_components :: "string list \<Rightarrow> component list" where
  "body_components ws =
     map (\<lambda>w. if w = ''..'' then ParentDir else Normal w) (filter (\<lambda>w. w \<noteq> [] \<and> w \<noteq> ''.'') ws)"

text \<open>\<open>Path::components\<close>: empty names and single dots are dropped but for a leading dot.\<close>

definition components :: "string \<Rightarrow> component list" where
  "components s =
     (case split_on CHR ''/'' s of
        [] \<Rightarrow> []
      | w # ws \<Rightarrow>
          if w = [] \<and> ws \<noteq> [] then RootDir # body_components ws
          else if w = ''.'' then CurDir # body_components ws
          else body_components (w # ws))"

definition is_absolute :: "string \<Rightarrow> bool" where
  "is_absolute s \<longleftrightarrow> prefix ''/'' s"

text \<open>\<open>Path::join\<close>, and the parent of a path.\<close>

fun walk :: "path \<Rightarrow> component list \<Rightarrow> path" where
  "walk p [] = p"
| "walk p (RootDir # cs) = walk [] cs"
| "walk p (CurDir # cs) = walk p cs"
| "walk p (ParentDir # cs) = walk (butlast p) cs"
| "walk p (Normal w # cs) = walk (p @ [w]) cs"

definition join_path :: "path \<Rightarrow> string \<Rightarrow> path" where
  "join_path p s = walk p (components s)"

section \<open>Files\<close>

datatype node = File string | Dir

record 'f files =
  fl_read :: "path \<Rightarrow> 'f \<Rightarrow> string option"
  fl_is_dir :: "path \<Rightarrow> 'f \<Rightarrow> bool"
  fl_is_file :: "path \<Rightarrow> 'f \<Rightarrow> bool"
  fl_exists :: "path \<Rightarrow> 'f \<Rightarrow> bool"
  fl_list :: "path \<Rightarrow> 'f \<Rightarrow> string list option"
  fl_create_dir_all :: "path \<Rightarrow> 'f \<Rightarrow> bool \<times> 'f"
  fl_write :: "path \<Rightarrow> string \<Rightarrow> 'f \<Rightarrow> bool \<times> 'f"
  fl_remove_dir_all :: "path \<Rightarrow> 'f \<Rightarrow> bool \<times> 'f"

text \<open>Also an operation that fails changes nothing but what it is called for.\<close>

definition files_laws :: "'f files \<Rightarrow> ('f \<Rightarrow> path \<rightharpoonup> node) \<Rightarrow> bool" where
  "files_laws fs tree \<longleftrightarrow>
     (\<forall>p f. fl_is_dir fs p f \<longleftrightarrow> tree f p = Some Dir) \<and>
     (\<forall>p f. fl_is_file fs p f \<longleftrightarrow> (\<exists>c. tree f p = Some (File c))) \<and>
     (\<forall>p f. fl_exists fs p f \<longleftrightarrow> tree f p \<noteq> None) \<and>
     (\<forall>p f c. fl_read fs p f = Some c \<longrightarrow> tree f p = Some (File c)) \<and>
     (\<forall>p f q. tree (snd (fl_create_dir_all fs p f)) q = tree f q \<or>
        prefix q p \<and> tree f q = None \<and> tree (snd (fl_create_dir_all fs p f)) q = Some Dir) \<and>
     (\<forall>p f q. fst (fl_create_dir_all fs p f) \<longrightarrow> prefix q p \<longrightarrow> tree (snd (fl_create_dir_all fs p f)) q = Some Dir) \<and>
     (\<forall>p c f q. q \<noteq> p \<longrightarrow> tree (snd (fl_write fs p c f)) q = tree f q) \<and>
     (\<forall>p c f. fst (fl_write fs p c f) \<longrightarrow> tree (snd (fl_write fs p c f)) p = Some (File c)) \<and>
     (\<forall>p f q. \<not> prefix p q \<longrightarrow> tree (snd (fl_remove_dir_all fs p f)) q = tree f q) \<and>
     (\<forall>p f q. fst (fl_remove_dir_all fs p f) \<longrightarrow> prefix p q \<longrightarrow> tree (snd (fl_remove_dir_all fs p f)) q = None)"

section \<open>Proposals\<close>

definition max_description_bytes :: int where
  "max_description_bytes = 160"

definition max_body_bytes :: int where
  "max_body_bytes = 40000"

definition allowed_support_dirs :: "string list" where
  "allowed_support_dirs = [''assets'', ''examples'', ''references'', ''scripts'', ''templates'']"

datatype proposal_status = Pending | Applied | Rejected | Quarantined | Stale

fun status_str :: "proposal_status \<Rightarrow> string" where
  "status_str Pending = ''pending''"
| "status_str Applied = ''applied''"
| "status_str Rejected = ''rejected''"
| "status_str Quarantined = ''quarantined''"
| "status_str Stale = ''stale''"

record support_file =
  sf_path :: string
  sf_content :: string

record skill_proposal =
  sk_id :: string
  sk_name :: string
  sk_description :: string
  sk_body :: string
  sk_support_files :: "support_file list"
  sk_status :: proposal_status
  sk_target_skill :: "string option"
  sk_created_at :: string
  sk_updated_at :: string
  sk_applied_path :: "path option"

record proposal_draft =
  dr_name :: string
  dr_description :: string
  dr_body :: string
  dr_support_files :: "support_file list"
  dr_target_skill :: "string option"

datatype invalid =
    EmptyName | BadName string | EmptyDescription | LongDescription nat | EmptyBody | LongBody nat
  | EmptySupportPath | AbsolutePath string | BadStart string | NotAllowed string | Traversal string
  | NoFile string

datatype workshop_error =
    Invalid invalid
  | NotFound string
  | AlreadyExists string
  | InvalidState string proposal_status
  | SkillsDirMissing path
  | IoError path
  | JsonError

section \<open>Validation\<close>

definition is_valid_skill_name :: "string \<Rightarrow> bool" where
  "is_valid_skill_name name \<longleftrightarrow>
     \<not> (name = [] \<or> name = ''.'' \<or> name = ''..'')
     \<and> list_all (\<lambda>c. is_ascii_alnum c \<or> c = CHR ''-'' \<or> c = CHR ''_'' \<or> c = CHR ''.'') name"

fun all_normal :: "component list \<Rightarrow> bool" where
  "all_normal [] = True"
| "all_normal (Normal w # cs) = all_normal cs"
| "all_normal (c # cs) = False"

definition validate_support_path :: "string \<Rightarrow> workshop_error option" where
  "validate_support_path rel =
     (if trim rel = [] then Some (Invalid EmptySupportPath)
      else if is_absolute rel then Some (Invalid (AbsolutePath rel))
      else
        (case components rel of
           Normal first # rest \<Rightarrow>
             if first \<notin> set allowed_support_dirs then Some (Invalid (NotAllowed rel))
             else if \<not> all_normal rest then Some (Invalid (Traversal rel))
             else if rest = [] then Some (Invalid (NoFile first))
             else None
         | _ \<Rightarrow> Some (Invalid (BadStart rel))))"

fun validate_support_paths :: "support_file list \<Rightarrow> workshop_error option" where
  "validate_support_paths [] = None"
| "validate_support_paths (sf # sfs) =
     (case validate_support_path (sf_path sf) of
        Some e \<Rightarrow> Some e
      | None \<Rightarrow> validate_support_paths sfs)"

definition validate_draft :: "proposal_draft \<Rightarrow> workshop_error option" where
  "validate_draft d =
     (if trim (dr_name d) = [] then Some (Invalid EmptyName)
      else if \<not> is_valid_skill_name (dr_name d) then Some (Invalid (BadName (dr_name d)))
      else if trim (dr_description d) = [] then Some (Invalid EmptyDescription)
      else if max_description_bytes < int (length (dr_description d))
        then Some (Invalid (LongDescription (length (dr_description d))))
      else if trim (dr_body d) = [] then Some (Invalid EmptyBody)
      else if max_body_bytes < int (length (dr_body d)) then Some (Invalid (LongBody (length (dr_body d))))
      else validate_support_paths (dr_support_files d))"

section \<open>Computations on the files\<close>

type_synonym ('f, 'a) io = "('f, workshop_error, 'a) effect"

definition io_try :: "path \<Rightarrow> ('f \<Rightarrow> bool \<times> 'f) \<Rightarrow> ('f, unit) io" where
  "io_try p op f = (case op f of (ok, f') \<Rightarrow> (if ok then Inr () else Inl (IoError p), f'))"

definition io_read :: "'f files \<Rightarrow> path \<Rightarrow> ('f, string) io" where
  "io_read fs p f = (case fl_read fs p f of Some c \<Rightarrow> (Inr c, f) | None \<Rightarrow> (Inl (IoError p), f))"

section \<open>The store\<close>

record proposal_store =
  ps_root :: path
  ps_skills_dir :: path

record json_codec =
  jc_encode :: "skill_proposal \<Rightarrow> string option"
  jc_decode :: "string \<Rightarrow> skill_proposal option"

definition store_open :: "'f files \<Rightarrow> path \<Rightarrow> path \<Rightarrow> ('f, proposal_store) io" where
  "store_open fs root skills_dir =
     io_bind (io_try root (fl_create_dir_all fs root))
       (\<lambda>u. io_ok \<lparr>ps_root = root, ps_skills_dir = skills_dir\<rparr>)"

definition proposal_dir :: "proposal_store \<Rightarrow> string \<Rightarrow> path" where
  "proposal_dir st k = join_path (ps_root st) k"

definition slug_char :: "string \<Rightarrow> char" where
  "slug_char w = (case w of [c] \<Rightarrow> if is_ascii_alnum c then ascii_lower c else CHR ''-'' | _ \<Rightarrow> CHR ''-'')"

definition trim_dashes :: "string \<Rightarrow> string" where
  "trim_dashes s = rev (dropWhile (\<lambda>c. c = CHR ''-'') (rev (dropWhile (\<lambda>c. c = CHR ''-'') s)))"

definition derive_id :: "string \<Rightarrow> nat \<Rightarrow> string" where
  "derive_id name millis =
     (let slug = trim_dashes (map slug_char (utf8_chars name));
          slug = (if slug = [] then ''skill'' else slug) in
      slug @ ''-'' @ show_nat millis)"

text \<open>Support files below a directory, each with its parent created first.\<close>

fun write_support :: "'f files \<Rightarrow> path \<Rightarrow> support_file list \<Rightarrow> ('f, unit) io" where
  "write_support fs dir [] = io_ok ()"
| "write_support fs dir (sf # sfs) =
     io_bind (io_check (validate_support_path (sf_path sf))) (\<lambda>u.
       let dest = join_path dir (sf_path sf) in
       io_bind (io_try (butlast dest) (fl_create_dir_all fs (butlast dest))) (\<lambda>u.
       io_bind (io_try dest (fl_write fs dest (sf_content sf))) (\<lambda>u.
       write_support fs dir sfs)))"

definition persist :: "'f files \<Rightarrow> json_codec \<Rightarrow> proposal_store \<Rightarrow> skill_proposal \<Rightarrow> ('f, unit) io" where
  "persist fs jc st p =
     (let dir = proposal_dir st (sk_id p); body = dir @ [''PROPOSAL.md'']; meta = dir @ [''meta.json''] in
      io_bind (io_try dir (fl_create_dir_all fs dir)) (\<lambda>u.
      io_bind (io_try body (fl_write fs body (sk_body p))) (\<lambda>u.
        (case jc_encode jc p of
           None \<Rightarrow> io_err JsonError
         | Some json \<Rightarrow>
             io_bind (io_try meta (fl_write fs meta json)) (\<lambda>u.
               write_support fs (dir @ [''files'']) (sk_support_files p))))))"

definition create_proposal ::
    "'f files \<Rightarrow> json_codec \<Rightarrow> proposal_store \<Rightarrow> string \<Rightarrow> nat \<Rightarrow> proposal_draft \<Rightarrow> ('f, skill_proposal) io" where
  "create_proposal fs jc st now millis d =
     io_bind (io_check (validate_draft d)) (\<lambda>u.
       let p = \<lparr>sk_id = derive_id (dr_name d) millis, sk_name = dr_name d, sk_description = dr_description d,
             sk_body = dr_body d, sk_support_files = dr_support_files d, sk_status = Pending,
             sk_target_skill = dr_target_skill d, sk_created_at = now, sk_updated_at = now,
             sk_applied_path = None\<rparr> in
       io_bind (io_ask (fl_exists fs (proposal_dir st (sk_id p)))) (\<lambda>there.
         if there then io_err (AlreadyExists (sk_id p))
         else io_bind (persist fs jc st p) (\<lambda>u. io_ok p)))"

definition get_proposal :: "'f files \<Rightarrow> json_codec \<Rightarrow> proposal_store \<Rightarrow> string \<Rightarrow> ('f, skill_proposal) io" where
  "get_proposal fs jc st k =
     (let dir = proposal_dir st k in
      io_bind (io_ask (fl_is_dir fs dir)) (\<lambda>is_dir.
        if \<not> is_dir then io_err (NotFound k)
        else
          io_bind (io_read fs (dir @ [''meta.json''])) (\<lambda>raw.
            (case jc_decode jc raw of
               None \<Rightarrow> io_err JsonError
             | Some p \<Rightarrow>
                 io_bind (io_ask (fl_is_file fs (dir @ [''PROPOSAL.md'']))) (\<lambda>is_file.
                   if is_file then
                     io_bind (io_read fs (dir @ [''PROPOSAL.md''])) (\<lambda>body. io_ok (p\<lparr>sk_body := body\<rparr>))
                   else io_ok p)))))"

fun list_loop ::
    "'f files \<Rightarrow> json_codec \<Rightarrow> proposal_store \<Rightarrow> 'f \<Rightarrow> proposal_status option \<Rightarrow> string list
      \<Rightarrow> skill_proposal list" where
  "list_loop fs jc st f status [] = []"
| "list_loop fs jc st f status (name # names) =
     (if \<not> fl_is_dir fs (ps_root st @ [name]) f then list_loop fs jc st f status names
      else
        (case fst (get_proposal fs jc st name f) of
           Inl e \<Rightarrow> list_loop fs jc st f status names
         | Inr p \<Rightarrow>
             (if status = None \<or> status = Some (sk_status p) then [p] else [])
               @ list_loop fs jc st f status names))"

text \<open>The newest first, equal times in the order of the directory.\<close>

definition list_proposals ::
    "'f files \<Rightarrow> json_codec \<Rightarrow> proposal_store \<Rightarrow> proposal_status option \<Rightarrow> ('f, skill_proposal list) io" where
  "list_proposals fs jc st status f =
     (case fl_list fs (ps_root st) f of
        None \<Rightarrow> (Inl (IoError (ps_root st)), f)
      | Some names \<Rightarrow> (Inr (rev (sort_key sk_created_at (rev (list_loop fs jc st f status names)))), f))"

definition open_status :: "proposal_status \<Rightarrow> bool" where
  "open_status s \<longleftrightarrow> s = Pending \<or> s = Stale"

definition revise ::
    "'f files \<Rightarrow> json_codec \<Rightarrow> proposal_store \<Rightarrow> string \<Rightarrow> string \<Rightarrow> proposal_draft \<Rightarrow> ('f, skill_proposal) io" where
  "revise fs jc st now k d =
     io_bind (io_check (validate_draft d)) (\<lambda>u.
     io_bind (get_proposal fs jc st k) (\<lambda>p.
       if \<not> open_status (sk_status p) then io_err (InvalidState k (sk_status p))
       else
         let support_root = proposal_dir st k @ [''files''] in
         io_bind (io_ask (fl_exists fs support_root)) (\<lambda>there.
         io_bind (if there then io_try support_root (fl_remove_dir_all fs support_root) else io_ok ()) (\<lambda>u.
           let p = p\<lparr>sk_name := dr_name d, sk_description := dr_description d, sk_body := dr_body d,
                 sk_support_files := dr_support_files d, sk_target_skill := dr_target_skill d,
                 sk_status := Pending, sk_updated_at := now\<rparr> in
           io_bind (persist fs jc st p) (\<lambda>u. io_ok p)))))"

definition set_proposal_status ::
    "'f files \<Rightarrow> json_codec \<Rightarrow> proposal_store \<Rightarrow> string \<Rightarrow> string \<Rightarrow> proposal_status \<Rightarrow> ('f, skill_proposal) io" where
  "set_proposal_status fs jc st now k status =
     io_bind (get_proposal fs jc st k) (\<lambda>p.
       let p = p\<lparr>sk_status := status, sk_updated_at := now\<rparr> in
       io_bind (persist fs jc st p) (\<lambda>u. io_ok p))"

definition reject_proposal :: "'f files \<Rightarrow> json_codec \<Rightarrow> proposal_store \<Rightarrow> string \<Rightarrow> string \<Rightarrow> ('f, skill_proposal) io" where
  "reject_proposal fs jc st now k = set_proposal_status fs jc st now k Rejected"

definition quarantine :: "'f files \<Rightarrow> json_codec \<Rightarrow> proposal_store \<Rightarrow> string \<Rightarrow> string \<Rightarrow> ('f, skill_proposal) io" where
  "quarantine fs jc st now k = set_proposal_status fs jc st now k Quarantined"

definition apply_proposal ::
    "'f files \<Rightarrow> json_codec \<Rightarrow> proposal_store \<Rightarrow> string \<Rightarrow> string \<Rightarrow> ('f, skill_proposal) io" where
  "apply_proposal fs jc st now k =
     io_bind (get_proposal fs jc st k) (\<lambda>p.
       if \<not> open_status (sk_status p) then io_err (InvalidState k (sk_status p))
       else
         io_bind (io_ask (fl_is_dir fs (ps_skills_dir st))) (\<lambda>there.
         if \<not> there then io_err (SkillsDirMissing (ps_skills_dir st))
         else if \<not> is_valid_skill_name (sk_name p) then io_err (Invalid (BadName (sk_name p)))
         else
           let skill_dir = join_path (ps_skills_dir st) (sk_name p); skill_file = skill_dir @ [''SKILL.md''] in
           io_bind (io_ask (fl_exists fs skill_dir)) (\<lambda>old.
           io_bind (if old then io_try skill_dir (fl_remove_dir_all fs skill_dir) else io_ok ()) (\<lambda>u.
           io_bind (io_try skill_dir (fl_create_dir_all fs skill_dir)) (\<lambda>u.
           io_bind (io_try skill_file (fl_write fs skill_file (sk_body p))) (\<lambda>u.
           io_bind (write_support fs skill_dir (sk_support_files p)) (\<lambda>u.
             let p = p\<lparr>sk_status := Applied, sk_applied_path := Some skill_dir, sk_updated_at := now\<rparr> in
             io_bind (persist fs jc st p) (\<lambda>u. io_ok p))))))))"

section \<open>Confinement\<close>

text \<open>
  The second tree differs from the first only below the named directories, and by new directories
  on the way to them.
\<close>

definition within :: "path list \<Rightarrow> (path \<rightharpoonup> node) \<Rightarrow> (path \<rightharpoonup> node) \<Rightarrow> bool" where
  "within ds t t' \<longleftrightarrow>
     (\<forall>q. t' q = t q \<or> (\<exists>d\<in>set ds. prefix d q)
        \<or> t q = None \<and> t' q = Some Dir \<and> (\<exists>d\<in>set ds. prefix q d))"

definition keeps :: "('f \<Rightarrow> path \<rightharpoonup> node) \<Rightarrow> path list \<Rightarrow> ('f, 'a) io \<Rightarrow> bool" where
  "keeps tree ds m \<longleftrightarrow> (\<forall>f. within ds (tree f) (tree (snd (m f))))"

named_theorems keep_intros "computations that stay below a directory"

lemma within_refl: "within ds t t"
  by (simp add: within_def)

lemma within_trans: "within ds t t' \<Longrightarrow> within ds t' t'' \<Longrightarrow> within ds t t''"
  unfolding within_def by metis

lemma within_mono: "within ds t t' \<Longrightarrow> set ds \<subseteq> set es \<Longrightarrow> within es t t'"
  unfolding within_def by blast

lemma keeps_mono: "keeps tree ds m \<Longrightarrow> set ds \<subseteq> set es \<Longrightarrow> keeps tree es m"
  unfolding keeps_def by (blast intro: within_mono)

lemma keeps_ok [keep_intros]: "keeps tree ds (io_ok x)"
  and keeps_err [keep_intros]: "keeps tree ds (io_err e)"
  and keeps_ask [keep_intros]: "keeps tree ds (io_ask g)"
  by (simp_all add: keeps_def io_ok_def io_err_def io_ask_def within_refl)

lemma keeps_check [keep_intros]: "keeps tree ds (io_check r)"
  by (cases r) (simp_all add: io_check_def keep_intros)

lemma keeps_read [keep_intros]: "keeps tree ds (io_read fs p)"
  by (simp add: keeps_def io_read_def within_refl split: option.splits)

lemma keeps_bind [keep_intros]:
  assumes "keeps tree ds m" and "\<And>x. keeps tree ds (k x)"
  shows "keeps tree ds (io_bind m k)"
  unfolding keeps_def
proof
  fix f
  have "within ds (tree f) (tree (snd (m f)))" using assms(1) by (simp add: keeps_def)
  moreover have "\<And>x. within ds (tree (snd (m f))) (tree (snd (k x (snd (m f)))))"
    using assms(2) by (simp add: keeps_def)
  ultimately show "within ds (tree f) (tree (snd (io_bind m k f)))"
    by (auto simp: io_bind_def split: prod.splits sum.splits intro: within_trans)
qed

lemma keeps_bind_check [keep_intros]:
  "(r = None \<Longrightarrow> keeps tree ds (k ())) \<Longrightarrow> keeps tree ds (io_bind (io_check r) k)"
  by (cases r) (simp_all add: keeps_def io_bind_def io_check_def io_ok_def io_err_def within_refl)

lemma keeps_try: "(\<And>f. within ds (tree f) (tree (snd (op f)))) \<Longrightarrow> keeps tree ds (io_try p op)"
  by (simp add: keeps_def io_try_def split: prod.splits) (metis snd_conv)

text \<open>The laws, one by one.\<close>

lemma create_dir_cases:
  "files_laws fs tree \<Longrightarrow> tree (snd (fl_create_dir_all fs p f)) q = tree f q
     \<or> prefix q p \<and> tree f q = None \<and> tree (snd (fl_create_dir_all fs p f)) q = Some Dir"
  unfolding files_laws_def by blast

lemma create_dir_ok:
  "files_laws fs tree \<Longrightarrow> fst (fl_create_dir_all fs p f) \<Longrightarrow> prefix q p
     \<Longrightarrow> tree (snd (fl_create_dir_all fs p f)) q = Some Dir"
  unfolding files_laws_def by blast

lemma write_other: "files_laws fs tree \<Longrightarrow> q \<noteq> p \<Longrightarrow> tree (snd (fl_write fs p c f)) q = tree f q"
  unfolding files_laws_def by blast

lemma write_ok:
  "files_laws fs tree \<Longrightarrow> fst (fl_write fs p c f) \<Longrightarrow> tree (snd (fl_write fs p c f)) p = Some (File c)"
  unfolding files_laws_def by blast

lemma remove_other:
  "files_laws fs tree \<Longrightarrow> \<not> prefix p q \<Longrightarrow> tree (snd (fl_remove_dir_all fs p f)) q = tree f q"
  unfolding files_laws_def by blast

lemma remove_ok:
  "files_laws fs tree \<Longrightarrow> fst (fl_remove_dir_all fs p f) \<Longrightarrow> prefix p q
     \<Longrightarrow> tree (snd (fl_remove_dir_all fs p f)) q = None"
  unfolding files_laws_def by blast

lemma read_file: "files_laws fs tree \<Longrightarrow> fl_read fs p f = Some c \<Longrightarrow> tree f p = Some (File c)"
  by (simp add: files_laws_def)

lemma files_asks:
  assumes "files_laws fs tree"
  shows "fl_is_dir fs p f \<longleftrightarrow> tree f p = Some Dir" and "fl_exists fs p f \<longleftrightarrow> tree f p \<noteq> None"
    and "fl_is_file fs p f \<longleftrightarrow> (\<exists>c. tree f p = Some (File c))"
  using assms by (simp_all add: files_laws_def)

lemma keeps_create_dir:
  assumes "files_laws fs tree" and "d \<in> set ds" and "prefix d p"
  shows "keeps tree ds (io_try p (fl_create_dir_all fs p))"
proof (rule keeps_try, unfold within_def, rule allI)
  fix f q
  have "prefix q p \<Longrightarrow> prefix d q \<or> prefix q d"
    using assms(3) prefix_same_cases by blast
  then show "tree (snd (fl_create_dir_all fs p f)) q = tree f q \<or> (\<exists>d\<in>set ds. prefix d q)
      \<or> tree f q = None \<and> tree (snd (fl_create_dir_all fs p f)) q = Some Dir \<and> (\<exists>d\<in>set ds. prefix q d)"
    using create_dir_cases [OF assms(1), of p f q] assms(2) by blast
qed

lemma keeps_write:
  assumes "files_laws fs tree" and "d \<in> set ds" and "prefix d p"
  shows "keeps tree ds (io_try p (fl_write fs p c))"
  using write_other [OF assms(1)] assms(2,3) by (intro keeps_try) (metis within_def)

lemma keeps_remove:
  assumes "files_laws fs tree" and "d \<in> set ds" and "prefix d p"
  shows "keeps tree ds (io_try p (fl_remove_dir_all fs p))"
  using remove_other [OF assms(1)] assms(2,3)
  by (intro keeps_try) (metis prefix_order.trans within_def)

section \<open>Validated names and paths\<close>

lemma walk_normal: "all_normal cs \<Longrightarrow> \<exists>ws. walk p cs = p @ ws \<and> length ws = length cs"
proof (induction cs arbitrary: p rule: all_normal.induct)
  case (2 w cs)
  then obtain ws where "walk (p @ [w]) cs = (p @ [w]) @ ws" "length ws = length cs" by fastforce
  then show ?case by (intro exI [of _ "w # ws"]) simp
qed auto

lemma valid_support_path_below:
  assumes "validate_support_path rel = None"
  shows "\<exists>ws. join_path d rel = d @ ws \<and> 2 \<le> length ws"
proof -
  obtain w cs where "components rel = Normal w # cs" "all_normal cs" "cs \<noteq> []"
    using assms by (auto simp: validate_support_path_def split: if_splits list.splits component.splits)
  moreover from this obtain ws where "walk (d @ [w]) cs = (d @ [w]) @ ws" "length ws = length cs"
    using walk_normal by blast
  ultimately show ?thesis
    by (intro exI [of _ "w # ws"]) (auto simp: join_path_def Suc_le_eq)
qed

lemma components_name:
  assumes "w \<noteq> []" and "CHR ''/'' \<notin> set w" and "w \<noteq> ''.''" and "w \<noteq> ''..''"
  shows "components w = [Normal w]"
  using assms by (simp add: components_def split_on_no_sep body_components_def)

lemma join_valid_name: "is_valid_skill_name w \<Longrightarrow> join_path p w = p @ [w]"
  by (auto simp: is_valid_skill_name_def list_all_iff is_ascii_alnum_def join_path_def
    intro!: components_name [THEN arg_cong, of _ "walk p", THEN trans])

lemma keeps_write_support:
  assumes "files_laws fs tree" and "d \<in> set ds" and "prefix d dir"
  shows "keeps tree ds (write_support fs dir sfs)"
proof (induction sfs)
  case Nil
  show ?case by (simp add: keep_intros)
next
  case (Cons sf sfs)
  show ?case
    unfolding write_support.simps Let_def
  proof (rule keeps_bind_check)
    assume "validate_support_path (sf_path sf) = None"
    then obtain ws where ws: "join_path dir (sf_path sf) = dir @ ws" "2 \<le> length ws"
      using valid_support_path_below by blast
    then have "butlast (dir @ ws) = dir @ butlast ws" by (auto simp: butlast_append)
    then show "keeps tree ds (io_bind
        (io_try (butlast (join_path dir (sf_path sf))) (fl_create_dir_all fs (butlast (join_path dir (sf_path sf)))))
        (\<lambda>u. io_bind (io_try (join_path dir (sf_path sf)) (fl_write fs (join_path dir (sf_path sf)) (sf_content sf)))
          (\<lambda>u. write_support fs dir sfs)))"
      using assms Cons.IH ws(1)
      by (auto intro!: keeps_bind keeps_create_dir keeps_write simp: prefix_order.trans prefix_def)
  qed
qed

lemma keeps_persist:
  assumes "files_laws fs tree" and "proposal_dir st (sk_id p) \<in> set ds"
  shows "keeps tree ds (persist fs jc st p)"
  using assms unfolding persist_def Let_def
  by (auto intro!: keep_intros keeps_create_dir keeps_write keeps_write_support split: option.splits)

lemma keeps_get: "keeps tree ds (get_proposal fs jc st k)"
  unfolding get_proposal_def Let_def by (auto intro!: keep_intros split: option.splits)

text \<open>A read leaves the files as they are.\<close>

lemma reads_read: "reads (io_read fs p)"
  by (simp add: reads_def io_read_def split: option.splits)

lemma get_same: "get_proposal fs jc st k f = (fst (get_proposal fs jc st k f), f)"
proof -
  have "reads (get_proposal fs jc st k)"
    unfolding get_proposal_def Let_def by (auto intro!: reads_bind reads_basic reads_read split: option.splits)
  then show ?thesis by (simp add: reads_def prod_eq_iff)
qed

lemma bind_get:
  "io_bind (get_proposal fs jc st k) h f = (case fst (get_proposal fs jc st k f) of Inl e \<Rightarrow> (Inl e, f) | Inr p \<Rightarrow> h p f)"
  by (subst io_bind_def, subst get_same) simp

text \<open>The installation of a proposal that was read.\<close>

definition install ::
    "'f files \<Rightarrow> json_codec \<Rightarrow> proposal_store \<Rightarrow> string \<Rightarrow> skill_proposal \<Rightarrow> ('f, skill_proposal) io" where
  "install fs jc st now p =
     (let skill_dir = join_path (ps_skills_dir st) (sk_name p); skill_file = skill_dir @ [''SKILL.md''] in
      io_bind (io_ask (fl_exists fs skill_dir)) (\<lambda>old.
      io_bind (if old then io_try skill_dir (fl_remove_dir_all fs skill_dir) else io_ok ()) (\<lambda>u.
      io_bind (io_try skill_dir (fl_create_dir_all fs skill_dir)) (\<lambda>u.
      io_bind (io_try skill_file (fl_write fs skill_file (sk_body p))) (\<lambda>u.
      io_bind (write_support fs skill_dir (sk_support_files p)) (\<lambda>u.
        let p = p\<lparr>sk_status := Applied, sk_applied_path := Some skill_dir, sk_updated_at := now\<rparr> in
        io_bind (persist fs jc st p) (\<lambda>u. io_ok p)))))))"

lemma apply_cases:
  "apply_proposal fs jc st now k f =
     (case fst (get_proposal fs jc st k f) of
        Inl e \<Rightarrow> (Inl e, f)
      | Inr p \<Rightarrow>
          if \<not> open_status (sk_status p) then (Inl (InvalidState k (sk_status p)), f)
          else if \<not> fl_is_dir fs (ps_skills_dir st) f then (Inl (SkillsDirMissing (ps_skills_dir st)), f)
          else if \<not> is_valid_skill_name (sk_name p) then (Inl (Invalid (BadName (sk_name p))), f)
          else install fs jc st now p f)"
  unfolding apply_proposal_def bind_get install_def
  by (auto simp: io_bind_def io_ask_def io_err_def split: sum.splits)

lemma keeps_install:
  assumes "files_laws fs tree" and "is_valid_skill_name (sk_name p)"
  shows "keeps tree [proposal_dir st (sk_id p), ps_skills_dir st @ [sk_name p]] (install fs jc st now p)"
  using assms unfolding install_def Let_def join_valid_name [OF assms(2)]
  by (auto intro!: keep_intros keeps_create_dir [OF assms(1)] keeps_write [OF assms(1)] keeps_remove [OF assms(1)]
     keeps_write_support [OF assms(1)] keeps_persist)

end
