(* ===== verification/Proposals.thy ===== *)
theory Proposals
  imports Workshop
begin

text \<open>
  The correctness of the skill workshop: what a successful operation leaves on the file system, the
  directories no operation leaves, the round trip of a proposal through the store, and what happens
  to a proposal that was applied.
\<close>

section \<open>The contents of the files\<close>

definition file_at :: "(path \<rightharpoonup> node) \<Rightarrow> path \<rightharpoonup> string" where
  "file_at t q = (case t q of Some (File c) \<Rightarrow> Some c | _ \<Rightarrow> None)"

definition add_files :: "path \<Rightarrow> support_file list \<Rightarrow> (path \<rightharpoonup> string) \<Rightarrow> path \<rightharpoonup> string" where
  "add_files dir sfs t = fold (\<lambda>sf t. t(join_path dir (sf_path sf) \<mapsto> sf_content sf)) sfs t"

definition stored :: "proposal_store \<Rightarrow> skill_proposal \<Rightarrow> string \<Rightarrow> (path \<rightharpoonup> string) \<Rightarrow> path \<rightharpoonup> string" where
  "stored st p json t =
     (let dir = proposal_dir st (sk_id p) in
      add_files (dir @ [''files'']) (sk_support_files p)
        (t(dir @ [''PROPOSAL.md''] \<mapsto> sk_body p, dir @ [''meta.json''] \<mapsto> json)))"

definition installed :: "path \<Rightarrow> skill_proposal \<Rightarrow> (path \<rightharpoonup> string) \<Rightarrow> path \<rightharpoonup> string" where
  "installed dir p t = add_files dir (sk_support_files p) (t(dir @ [''SKILL.md''] \<mapsto> sk_body p))"

definition emptied :: "path \<Rightarrow> (path \<rightharpoonup> string) \<Rightarrow> path \<rightharpoonup> string" where
  "emptied dir t q = (if prefix dir q then None else t q)"

subsection \<open>Successful computations\<close>

lemma try_Inr: "io_try p op f = (Inr u, f') \<longleftrightarrow> fst (op f) \<and> f' = snd (op f)"
  by (auto simp: io_try_def split: prod.splits)

lemmas io_Inr = effect_Inr try_Inr

lemma file_at_create_dir:
  "files_laws fs tree \<Longrightarrow> file_at (tree (snd (fl_create_dir_all fs p f))) = file_at (tree f)"
proof (rule ext)
  fix q
  assume "files_laws fs tree"
  from create_dir_cases [OF this, of p f q]
  show "file_at (tree (snd (fl_create_dir_all fs p f))) q = file_at (tree f) q"
    by (auto simp: file_at_def)
qed

lemma file_at_write:
  assumes "files_laws fs tree" and "fst (fl_write fs p c f)"
  shows "file_at (tree (snd (fl_write fs p c f))) = (file_at (tree f))(p \<mapsto> c)"
  using write_other [OF assms(1)] write_ok [OF assms] by (auto simp: file_at_def fun_eq_iff)

lemma file_at_write_from:
  "files_laws fs tree \<Longrightarrow> fst (fl_write fs p c f) \<Longrightarrow> file_at (tree f) = t
     \<Longrightarrow> file_at (tree (snd (fl_write fs p c f))) = t(p \<mapsto> c)"
  using file_at_write by metis

lemma file_at_remove:
  assumes "files_laws fs tree" and "fst (fl_remove_dir_all fs p f)"
  shows "file_at (tree (snd (fl_remove_dir_all fs p f))) = emptied p (file_at (tree f))"
  using remove_other [OF assms(1)] remove_ok [OF assms]
  by (auto simp: file_at_def emptied_def fun_eq_iff)

lemma add_files_simps:
  "add_files dir [] t = t"
  "add_files dir (sf # sfs) t = add_files dir sfs (t(join_path dir (sf_path sf) \<mapsto> sf_content sf))"
  by (simp_all add: add_files_def)

lemma write_support_effect:
  assumes "files_laws fs tree" and "write_support fs dir sfs f = (Inr u, f')"
  shows "file_at (tree f') = add_files dir sfs (file_at (tree f)) \<and>
    list_all (\<lambda>sf. validate_support_path (sf_path sf) = None) sfs"
  using assms(2)
proof (induction sfs arbitrary: f)
  case Nil
  then show ?case by (simp add: io_Inr add_files_simps)
next
  case (Cons sf sfs)
  let ?d = "join_path dir (sf_path sf)"
  let ?f1 = "snd (fl_create_dir_all fs (butlast ?d) f)"
  let ?f2 = "snd (fl_write fs ?d (sf_content sf) ?f1)"
  have ok: "validate_support_path (sf_path sf) = None" "fst (fl_write fs ?d (sf_content sf) ?f1)"
    and rest: "write_support fs dir sfs ?f2 = (Inr u, f')"
    using Cons.prems by (auto simp: io_Inr Let_def)
  show ?case
    using Cons.IH [OF rest] ok
    by (simp add: file_at_write_from [OF assms(1) ok(2) file_at_create_dir [OF assms(1)]] add_files_simps
      del: fun_upd_apply)
qed

lemma add_files_other:
  assumes "list_all (\<lambda>sf. validate_support_path (sf_path sf) = None) sfs"
    and "\<And>ws. 2 \<le> length ws \<Longrightarrow> q \<noteq> dir @ ws"
  shows "add_files dir sfs t q = t q"
  using assms(1)
proof (induction sfs arbitrary: t)
  case Nil
  then show ?case by (simp add: add_files_simps)
next
  case (Cons sf sfs)
  obtain ws where "join_path dir (sf_path sf) = dir @ ws" "2 \<le> length ws"
    using Cons.prems valid_support_path_below [of "sf_path sf" dir] by auto
  then have "q \<noteq> join_path dir (sf_path sf)" using assms(2) by metis
  then show ?case using Cons by (simp add: add_files_simps)
qed

lemma within_at:
  "within ds t t' \<Longrightarrow> t' q = t q \<or> (\<exists>d\<in>set ds. prefix d q)
     \<or> t q = None \<and> t' q = Some Dir \<and> (\<exists>d\<in>set ds. prefix q d)"
  by (simp add: within_def)

lemma within_dir: "within ds t t' \<Longrightarrow> t q \<noteq> None \<Longrightarrow> (\<forall>d\<in>set ds. \<not> prefix d q) \<Longrightarrow> t' q = t q"
  by (drule within_def [THEN iffD1, THEN spec, of _ _ _ q]) auto

lemma persist_effect:
  assumes laws: "files_laws fs tree" and ok: "persist fs jc st p f = (Inr u, f')"
  shows "\<exists>json. jc_encode jc p = Some json \<and> file_at (tree f') = stored st p json (file_at (tree f))
    \<and> list_all (\<lambda>sf. validate_support_path (sf_path sf) = None) (sk_support_files p)
    \<and> tree f' (proposal_dir st (sk_id p)) = Some Dir"
proof -
  define dir where "dir = proposal_dir st (sk_id p)"
  define body where "body = dir @ [''PROPOSAL.md'']"
  define meta where "meta = dir @ [''meta.json'']"
  define f1 where "f1 = snd (fl_create_dir_all fs dir f)"
  define f2 where "f2 = snd (fl_write fs body (sk_body p) f1)"
  obtain json where json: "jc_encode jc p = Some json" and c1: "fst (fl_create_dir_all fs dir f)"
    and c2: "fst (fl_write fs body (sk_body p) f1)" and c3: "fst (fl_write fs meta json f2)"
    and c4: "write_support fs (dir @ [''files'']) (sk_support_files p) (snd (fl_write fs meta json f2)) = (Inr u, f')"
    using ok by (cases "jc_encode jc p")
      (auto simp: persist_def io_Inr Let_def f1_def f2_def dir_def body_def meta_def)
  note eff = write_support_effect [OF laws c4] file_at_write [OF laws c2] file_at_write [OF laws c3]
    file_at_create_dir [OF laws, of dir f]
  have "tree f1 dir = Some Dir" using create_dir_ok [OF laws c1, of dir] by (simp add: f1_def)
  then have d3: "tree (snd (fl_write fs meta json f2)) dir = Some Dir"
    using write_other [OF laws] by (simp add: f2_def body_def meta_def)
  have "within [dir @ [''files'']] (tree (snd (fl_write fs meta json f2))) (tree f')"
    using keeps_write_support [OF laws, of "dir @ [''files'']" "[dir @ [''files'']]" "dir @ [''files'']"] c4
    by (simp add: keeps_def) (metis snd_conv)
  then have "tree f' dir = Some Dir" using d3 within_dir by fastforce
  then show ?thesis
    using json eff
    by (auto simp: stored_def Let_def dir_def [symmetric] body_def [symmetric] meta_def [symmetric] f1_def f2_def)
qed

lemma stored_meta:
  assumes "list_all (\<lambda>sf. validate_support_path (sf_path sf) = None) (sk_support_files p)"
  shows "stored st p json t (proposal_dir st (sk_id p) @ [''meta.json'']) = Some json"
    and "stored st p json t (proposal_dir st (sk_id p) @ [''PROPOSAL.md'']) = Some (sk_body p)"
  using assms by (simp_all add: stored_def Let_def add_files_other)

lemma file_at_Some: "file_at t q = Some c \<longleftrightarrow> t q = Some (File c)"
  by (auto simp: file_at_def split: option.splits node.splits)

definition codec_laws :: "json_codec \<Rightarrow> bool" where
  "codec_laws jc \<longleftrightarrow> (\<forall>p s. jc_encode jc p = Some s \<longrightarrow> jc_decode jc s = Some p)"

text \<open>What was stored is read back, unless a read fails.\<close>

definition reads_back ::
    "'f files \<Rightarrow> json_codec \<Rightarrow> proposal_store \<Rightarrow> skill_proposal \<Rightarrow> 'f \<Rightarrow> bool" where
  "reads_back fs jc st p f \<longleftrightarrow>
     (let dir = proposal_dir st (sk_id p) in
      fst (get_proposal fs jc st (sk_id p) f)
        \<in> {Inr p, Inl (IoError (dir @ [''meta.json''])), Inl (IoError (dir @ [''PROPOSAL.md'']))})"

lemma persisted_reads_back:
  assumes laws: "files_laws fs tree" and jc: "codec_laws jc"
    and ok: "persist fs jc st p f = (Inr u, f')"
  shows "reads_back fs jc st p f'"
proof -
  let ?dir = "proposal_dir st (sk_id p)"
  obtain json where json: "jc_encode jc p = Some json"
    and eff: "file_at (tree f') = stored st p json (file_at (tree f))"
    and v: "list_all (\<lambda>sf. validate_support_path (sf_path sf) = None) (sk_support_files p)"
    and d: "tree f' ?dir = Some Dir"
    using persist_effect [OF laws ok] by blast
  have m: "tree f' (?dir @ [''meta.json'']) = Some (File json)"
    and b: "tree f' (?dir @ [''PROPOSAL.md'']) = Some (File (sk_body p))"
    using stored_meta [OF v, of st json "file_at (tree f)"] eff by (simp_all add: file_at_Some [symmetric])
  have rm: "fl_read fs (?dir @ [''meta.json'']) f' \<in> {None, Some json}"
    and rb: "fl_read fs (?dir @ [''PROPOSAL.md'']) f' \<in> {None, Some (sk_body p)}"
    using read_file [OF laws] m b by (fastforce)+
  show ?thesis
    using rm rb json jc b d
    by (auto simp: reads_back_def Let_def get_proposal_def io_bind_def io_ask_def io_read_def io_ok_def io_err_def
        files_asks [OF laws] codec_laws_def)
qed

lemma ascii_lower_slash: "ascii_lower c = CHR ''/'' \<Longrightarrow> c = CHR ''/''"
  unfolding of_char_eq_iff [where 'a = nat, symmetric]
  by (auto simp: ascii_lower_def Let_def split: if_splits)

lemma derived_id_dir: "proposal_dir st (derive_id name millis) = ps_root st @ [derive_id name millis]"
proof -
  let ?slug = "trim_dashes (map slug_char (utf8_chars name))"
  have dash: "set (trim_dashes s) \<subseteq> set s" for s
    by (auto simp: trim_dashes_def dest!: set_dropWhileD)
  have "CHR ''/'' \<noteq> slug_char w" for w
    by (auto simp: slug_char_def is_ascii_alnum_def dest!: ascii_lower_slash [OF sym] split: list.splits)
  then have "CHR ''/'' \<notin> set ?slug" using dash by fastforce
  moreover have "CHR ''/'' \<notin> set (show_nat millis)"
    by (rule ascii_digit_not) (simp add: is_ascii_digit_def)
  ultimately have "CHR ''/'' \<notin> set (derive_id name millis)"
    by (simp add: derive_id_def Let_def)
  moreover have "CHR ''-'' \<in> set (derive_id name millis)" by (simp add: derive_id_def Let_def)
  then have "derive_id name millis \<notin> {[], ''.'', ''..''}" by auto
  ultimately show ?thesis
    using components_name [of "derive_id name millis"] by (simp add: proposal_dir_def join_path_def)
qed

lemma keeps_create:
  assumes "files_laws fs tree"
  shows "keeps tree [ps_root st @ [derive_id (dr_name d) millis]] (create_proposal fs jc st now millis d)"
  unfolding create_proposal_def Let_def
  by (auto intro!: keep_intros keeps_persist [OF assms] simp: derived_id_dir)

text \<open>
  C39: Whatever fails on the way, creating a proposal changes nothing outside the directory of its new
  id below the root, and applying one changes nothing outside the directory of the proposal that was
  read and the directory of its name below the live skills: new directories leading there apart, every
  other file and directory is as before.  An application that is refused before the installation
  changes nothing at all.
\<close>

theorem workshop_confined:
  assumes "files_laws fs tree"
  shows "within [ps_root st @ [derive_id (dr_name d) millis]] (tree f) (tree (snd (create_proposal fs jc st now millis d f)))
    \<and> within
      (case fst (get_proposal fs jc st k f) of
         Inr p \<Rightarrow> if open_status (sk_status p)
           then [proposal_dir st (sk_id p), ps_skills_dir st @ [sk_name p]] else []
       | Inl e \<Rightarrow> [])
      (tree f) (tree (snd (apply_proposal fs jc st now k f)))"
proof
  show "within [ps_root st @ [derive_id (dr_name d) millis]] (tree f) (tree (snd (create_proposal fs jc st now millis d f)))"
    using keeps_create [OF assms] by (simp add: keeps_def)
  show "within
      (case fst (get_proposal fs jc st k f) of
         Inr p \<Rightarrow> if open_status (sk_status p)
           then [proposal_dir st (sk_id p), ps_skills_dir st @ [sk_name p]] else []
       | Inl e \<Rightarrow> [])
      (tree f) (tree (snd (apply_proposal fs jc st now k f)))"
    using keeps_install [OF assms, of _ st jc now]
    by (auto simp: apply_cases keeps_def within_refl split: sum.splits)
qed

lemma create_dir_keeps:
  "files_laws fs tree \<Longrightarrow> tree f q = Some n \<Longrightarrow> tree (snd (fl_create_dir_all fs p f)) q = Some n"
  using create_dir_cases [of fs tree p f q] by auto

lemma try_snd: "snd (io_try p op f) = snd (op f)"
  by (simp add: io_try_def split: prod.splits)

lemma write_support_keeps_dir:
  assumes "files_laws fs tree" and "tree f dir = Some Dir"
  shows "tree (snd (write_support fs dir sfs f)) dir = Some Dir"
  using assms(2)
proof (induction sfs arbitrary: f)
  case Nil
  then show ?case by (simp add: io_ok_def)
next
  case (Cons sf sfs)
  let ?d = "join_path dir (sf_path sf)"
  show ?case
  proof (cases "validate_support_path (sf_path sf)")
    case None
    then obtain ws where ws: "?d = dir @ ws" "2 \<le> length ws"
      using valid_support_path_below by blast
    then have "dir \<noteq> ?d" by auto
    then show ?thesis
      unfolding write_support.simps Let_def
      by (intro bind_preserves [where I = "\<lambda>f. tree f dir = Some Dir"])
        (auto simp: try_snd check_snd write_other [OF assms(1)] Cons intro: create_dir_keeps [OF assms(1)])
  qed (simp add: io_bind_def io_check_def io_err_def Cons.prems)
qed

lemma install_effect:
  assumes laws: "files_laws fs tree" and name: "is_valid_skill_name (sk_name p)"
    and ok: "install fs jc st now p f = (Inr p', f')"
  defines "dir \<equiv> ps_skills_dir st @ [sk_name p]"
  shows "p' = p\<lparr>sk_status := Applied, sk_applied_path := Some dir, sk_updated_at := now\<rparr>
    \<and> (\<exists>f1. persist fs jc st p' f1 = (Inr (), f')
        \<and> file_at (tree f1) =
            installed dir p (if tree f dir = None then file_at (tree f) else emptied dir (file_at (tree f)))
        \<and> tree f1 dir = Some Dir
        \<and> list_all (\<lambda>sf. validate_support_path (sf_path sf) = None) (sk_support_files p))"
proof -
  define f1 where "f1 = (if tree f dir = None then f else snd (fl_remove_dir_all fs dir f))"
  define f2 where "f2 = snd (fl_create_dir_all fs dir f1)"
  define f3 where "f3 = snd (fl_write fs (dir @ [''SKILL.md'']) (sk_body p) f2)"
  obtain f4 where c1: "tree f dir \<noteq> None \<Longrightarrow> fst (fl_remove_dir_all fs dir f)"
    and c2: "fst (fl_create_dir_all fs dir f1)"
    and c3: "fst (fl_write fs (dir @ [''SKILL.md'']) (sk_body p) f2)"
    and c4: "write_support fs dir (sk_support_files p) f3 = (Inr (), f4)"
    and c5: "p' = p\<lparr>sk_status := Applied, sk_applied_path := Some dir, sk_updated_at := now\<rparr>"
    and c6: "persist fs jc st p' f4 = (Inr (), f')"
    using ok unfolding install_def Let_def join_valid_name [OF name] dir_def [symmetric]
    by (cases "tree f dir = None") (auto simp: io_Inr files_asks [OF laws] f1_def f2_def f3_def)
  have "file_at (tree f1) = (if tree f dir = None then file_at (tree f) else emptied dir (file_at (tree f)))"
    using c1 file_at_remove [OF laws] by (simp add: f1_def)
  then have "file_at (tree f3) = (if tree f dir = None then file_at (tree f) else emptied dir (file_at (tree f)))
      (dir @ [''SKILL.md''] \<mapsto> sk_body p)"
    unfolding f3_def
    by (intro file_at_write_from [OF laws c3]) (simp only: f2_def file_at_create_dir [OF laws])
  moreover have "tree f3 dir = Some Dir"
    using create_dir_ok [OF laws c2, of dir] write_other [OF laws] by (simp add: f3_def f2_def)
  then have "tree f4 dir = Some Dir"
    using write_support_keeps_dir [OF laws, of f3 dir "sk_support_files p"] c4 by simp
  ultimately show ?thesis
    using c5 c6 write_support_effect [OF laws c4] by (auto simp: installed_def)
qed

text \<open>
  A successful application leaves exactly the intended files: what was below the directory of the
  skill is gone, the body is there as SKILL.md and every support file at its path, the last of equal
  paths winning; then the proposal itself is stored with the status applied, the directory it was
  installed to and the new time stamp.  No other file differs.
\<close>

theorem apply_installs_skill:
  assumes "files_laws fs tree" and "fst (get_proposal fs jc st k f) = Inr p"
    and "apply_proposal fs jc st now k f = (Inr p', f')"
  shows "p' = p\<lparr>sk_status := Applied, sk_applied_path := Some (ps_skills_dir st @ [sk_name p]),
      sk_updated_at := now\<rparr>
    \<and> open_status (sk_status p)
    \<and> (\<exists>json. jc_encode jc p' = Some json \<and>
      file_at (tree f') = stored st p' json
        (installed (ps_skills_dir st @ [sk_name p]) p
          (if tree f (ps_skills_dir st @ [sk_name p]) = None then file_at (tree f)
           else emptied (ps_skills_dir st @ [sk_name p]) (file_at (tree f)))))"
proof (intro conjI)
  have op: "open_status (sk_status p)" and name: "is_valid_skill_name (sk_name p)"
    and inst: "install fs jc st now p f = (Inr p', f')"
    using assms(2,3) by (auto simp: apply_cases split: if_splits)
  note eff = install_effect [OF assms(1) name inst]
  show "open_status (sk_status p)" by (rule op)
  show "p' = p\<lparr>sk_status := Applied, sk_applied_path := Some (ps_skills_dir st @ [sk_name p]),
      sk_updated_at := now\<rparr>" using eff by blast
  show "\<exists>json. jc_encode jc p' = Some json \<and>
      file_at (tree f') = stored st p' json
        (installed (ps_skills_dir st @ [sk_name p]) p
          (if tree f (ps_skills_dir st @ [sk_name p]) = None then file_at (tree f)
           else emptied (ps_skills_dir st @ [sk_name p]) (file_at (tree f))))"
    using eff persist_effect [OF assms(1)] by metis
qed

text \<open>
  A proposal that was created is read back as it was drafted: pending, with the derived id, the name,
  description, body, support files and target of the draft and the time of its creation.  Only a read
  that fails can hide it.
\<close>

theorem create_reads_back:
  assumes "files_laws fs tree" and "codec_laws jc"
    and "create_proposal fs jc st now millis d f = (Inr p, f')"
  shows "p = \<lparr>sk_id = derive_id (dr_name d) millis, sk_name = dr_name d, sk_description = dr_description d,
      sk_body = dr_body d, sk_support_files = dr_support_files d, sk_status = Pending,
      sk_target_skill = dr_target_skill d, sk_created_at = now, sk_updated_at = now, sk_applied_path = None\<rparr>
    \<and> validate_draft d = None
    \<and> tree f (ps_root st @ [sk_id p]) = None
    \<and> reads_back fs jc st p f'"
proof -
  have "validate_draft d = None \<and> p = \<lparr>sk_id = derive_id (dr_name d) millis, sk_name = dr_name d,
      sk_description = dr_description d,
      sk_body = dr_body d, sk_support_files = dr_support_files d, sk_status = Pending,
      sk_target_skill = dr_target_skill d, sk_created_at = now, sk_updated_at = now, sk_applied_path = None\<rparr>
      \<and> tree f (ps_root st @ [sk_id p]) = None \<and> persist fs jc st p f = (Inr (), f')"
    using assms(3)
    by (auto simp: create_proposal_def Let_def io_Inr derived_id_dir files_asks [OF assms(1)] split: if_splits)
  then show ?thesis using persisted_reads_back [OF assms(1,2)] by blast
qed

lemma set_proposal_status_Inr:
  "set_proposal_status fs jc st now k s f = (Inr p', f') \<longleftrightarrow>
     (\<exists>p. fst (get_proposal fs jc st k f) = Inr p \<and> p' = p\<lparr>sk_status := s, sk_updated_at := now\<rparr>
       \<and> persist fs jc st p' f = (Inr (), f'))"
  unfolding set_proposal_status_def bind_get by (auto simp: io_Inr Let_def split: sum.splits)

text \<open>
  A decided proposal is not immutable: rejecting one that was applied succeeds.  It then reads as
  rejected and can no longer be applied, but the installed skill and everything else outside the
  directory of the proposal stay.
\<close>

theorem reject_keeps_installed_skill:
  assumes "files_laws fs tree" and "codec_laws jc"
    and "apply_proposal fs jc st now k f = (Inr p, f')"
    and "reject_proposal fs jc st now' (sk_id p) f' = (Inr p', f'')"
  shows "p' = p\<lparr>sk_status := Rejected, sk_updated_at := now'\<rparr>
    \<and> reads_back fs jc st p' f''
    \<and> (\<not> prefix (proposal_dir st (sk_id p)) q \<longrightarrow> file_at (tree f'') q = file_at (tree f') q)"
proof (intro conjI impI)
  obtain p0 where p0: "fst (get_proposal fs jc st k f) = Inr p0" "is_valid_skill_name (sk_name p0)"
    and inst: "install fs jc st now p0 f = (Inr p, f')"
    using assms(3) by (auto simp: apply_cases split: if_splits sum.splits)
  obtain f1 where "persist fs jc st p f1 = (Inr (), f')"
    using install_effect [OF assms(1) p0(2) inst] by blast
  then have read: "reads_back fs jc st p f'" by (rule persisted_reads_back [OF assms(1,2)])
  obtain p1 where p1: "fst (get_proposal fs jc st (sk_id p) f') = Inr p1"
      and p2: "p' = p1\<lparr>sk_status := Rejected, sk_updated_at := now'\<rparr>"
      and p3: "persist fs jc st p' f' = (Inr (), f'')"
    using assms(4) by (auto simp: reject_proposal_def set_proposal_status_Inr)
  then have "p1 = p" using read p1 by (auto simp: reads_back_def Let_def)
  then show new: "p' = p\<lparr>sk_status := Rejected, sk_updated_at := now'\<rparr>" using p2 by simp
  show "reads_back fs jc st p' f''" by (rule persisted_reads_back [OF assms(1,2) p3])
  have "within [proposal_dir st (sk_id p)] (tree f') (tree f'')"
    using keeps_persist [OF assms(1), of st p' "[proposal_dir st (sk_id p)]" jc] p3 new
    by (simp add: keeps_def) (metis snd_conv)
  then show "file_at (tree f'') q = file_at (tree f') q" if "\<not> prefix (proposal_dir st (sk_id p)) q"
    using within_at [of "[proposal_dir st (sk_id p)]" "tree f'" "tree f''" q] that by (auto simp: file_at_def)
qed

section \<open>A file system in memory\<close>

definition mem_create_dir_all :: "path \<Rightarrow> (path \<times> node) list \<Rightarrow> bool \<times> (path \<times> node) list" where
  "mem_create_dir_all p f =
     (if list_all (\<lambda>q. map_of f q \<in> {None, Some Dir}) (prefixes p)
      then (True, map (\<lambda>q. (q, Dir)) (filter (\<lambda>q. map_of f q = None) (prefixes p)) @ f) else (False, f))"

definition mem_write :: "path \<Rightarrow> string \<Rightarrow> (path \<times> node) list \<Rightarrow> bool \<times> (path \<times> node) list" where
  "mem_write p c f =
     (if map_of f p \<noteq> Some Dir \<and> map_of f (butlast p) = Some Dir then (True, (p, File c) # f) else (False, f))"

definition mem_remove_dir_all :: "path \<Rightarrow> (path \<times> node) list \<Rightarrow> bool \<times> (path \<times> node) list" where
  "mem_remove_dir_all p f = (True, filter (\<lambda>(q, n). \<not> prefix p q) f)"

definition mem_files :: "(path \<times> node) list files" where
  "mem_files =
     \<lparr>fl_read = (\<lambda>p f. file_at (map_of f) p),
      fl_is_dir = (\<lambda>p f. map_of f p = Some Dir),
      fl_is_file = (\<lambda>p f. file_at (map_of f) p \<noteq> None),
      fl_exists = (\<lambda>p f. map_of f p \<noteq> None),
      fl_list = (\<lambda>p f. Some (remdups (map last (filter (\<lambda>q. q \<noteq> [] \<and> butlast q = p) (map fst f))))),
      fl_create_dir_all = mem_create_dir_all,
      fl_write = mem_write,
      fl_remove_dir_all = mem_remove_dir_all\<rparr>"

lemma map_of_const: "map_of (map (\<lambda>q. (q, v)) ps @ f) q = (if q \<in> set ps then Some v else map_of f q)"
  by (induction ps) auto

lemma map_of_filter_key: "map_of (filter (\<lambda>(q, n). P q) f) q = (if P q then map_of f q else None)"
  by (induction f) auto

lemma mem_files_laws: "files_laws mem_files map_of"
  unfolding files_laws_def
  by (auto simp: mem_files_def file_at_def mem_create_dir_all_def mem_write_def mem_remove_dir_all_def
    map_of_const map_of_filter_key list_all_iff simp del: map_of_append split: option.splits node.splits)
    (metis in_set_prefixes option.distinct(1) option.inject)

text \<open>A codec that knows finitely many proposals.\<close>

definition table_codec :: "(string \<times> skill_proposal) list \<Rightarrow> json_codec" where
  "table_codec tbl =
     \<lparr>jc_encode = (\<lambda>p. map_option fst (find (\<lambda>(s, q). q = p \<and> map_of tbl s = Some p) tbl)),
      jc_decode = map_of tbl\<rparr>"

lemma table_codec_laws: "codec_laws (table_codec tbl)"
  unfolding codec_laws_def
proof (intro allI impI)
  fix p s
  assume "jc_encode (table_codec tbl) p = Some s"
  then obtain q where "find (\<lambda>(s, q). q = p \<and> map_of tbl s = Some p) tbl = Some (s, q)"
    by (auto simp: table_codec_def)
  from find_sat [OF this, THEN conjunct1] show "jc_decode (table_codec tbl) s = Some p"
    by (simp add: table_codec_def)
qed

definition draft0 :: proposal_draft where
  "draft0 = \<lparr>dr_name = ''a'', dr_description = ''d'', dr_body = ''b'',
     dr_support_files = [\<lparr>sf_path = ''scripts/x'', sf_content = ''y''\<rparr>], dr_target_skill = None\<rparr>"

definition pending0 :: skill_proposal where
  "pending0 = \<lparr>sk_id = ''a-7'', sk_name = ''a'', sk_description = ''d'', sk_body = ''b'',
     sk_support_files = [\<lparr>sf_path = ''scripts/x'', sf_content = ''y''\<rparr>], sk_status = Pending,
     sk_target_skill = None, sk_created_at = ''t'', sk_updated_at = ''t'', sk_applied_path = None\<rparr>"

definition applied0 :: skill_proposal where
  "applied0 = pending0\<lparr>sk_status := Applied, sk_applied_path := Some [''s'', ''a''], sk_updated_at := ''u''\<rparr>"

definition rejected0 :: skill_proposal where
  "rejected0 = applied0\<lparr>sk_status := Rejected, sk_updated_at := ''v''\<rparr>"

definition codec0 :: json_codec where
  "codec0 = table_codec [(''1'', pending0), (''2'', applied0), (''3'', rejected0)]"

definition store0 :: proposal_store where
  "store0 = \<lparr>ps_root = [''p''], ps_skills_dir = [''s'']\<rparr>"

definition mem0 :: "(path \<times> node) list" where
  "mem0 = [([], Dir), ([''s''], Dir)]"

definition mem1 :: "(path \<times> node) list" where
  "mem1 =
     [([''p'', ''a-7'', ''files'', ''scripts'', ''x''], File ''y''),
     ([''p'', ''a-7'', ''files''], Dir),
     ([''p'', ''a-7'', ''files'', ''scripts''], Dir),
     ([''p'', ''a-7'', ''meta.json''], File ''1''),
     ([''p'', ''a-7'', ''PROPOSAL.md''], File ''b''), ([''p''], Dir),
     ([''p'', ''a-7''], Dir), ([], Dir), ([''s''], Dir)]"

definition mem2 :: "(path \<times> node) list" where
  "mem2 =
     [([''p'', ''a-7'', ''files'', ''scripts'', ''x''], File ''y''),
     ([''p'', ''a-7'', ''meta.json''], File ''2''),
     ([''p'', ''a-7'', ''PROPOSAL.md''], File ''b''),
     ([''s'', ''a'', ''scripts'', ''x''], File ''y''),
     ([''s'', ''a'', ''scripts''], Dir),
     ([''s'', ''a'', ''SKILL.md''], File ''b''), ([''s'', ''a''], Dir),
     ([''p'', ''a-7'', ''files'', ''scripts'', ''x''], File ''y''),
     ([''p'', ''a-7'', ''files''], Dir),
     ([''p'', ''a-7'', ''files'', ''scripts''], Dir),
     ([''p'', ''a-7'', ''meta.json''], File ''1''),
     ([''p'', ''a-7'', ''PROPOSAL.md''], File ''b''), ([''p''], Dir),
     ([''p'', ''a-7''], Dir), ([], Dir), ([''s''], Dir)]"

definition mem3 :: "(path \<times> node) list" where
  "mem3 =
     [([''p'', ''a-7'', ''files'', ''scripts'', ''x''], File ''y''),
     ([''p'', ''a-7'', ''meta.json''], File ''3''),
     ([''p'', ''a-7'', ''PROPOSAL.md''], File ''b''),
     ([''p'', ''a-7'', ''files'', ''scripts'', ''x''], File ''y''),
     ([''p'', ''a-7'', ''meta.json''], File ''2''),
     ([''p'', ''a-7'', ''PROPOSAL.md''], File ''b''),
     ([''s'', ''a'', ''scripts'', ''x''], File ''y''),
     ([''s'', ''a'', ''scripts''], Dir),
     ([''s'', ''a'', ''SKILL.md''], File ''b''), ([''s'', ''a''], Dir),
     ([''p'', ''a-7'', ''files'', ''scripts'', ''x''], File ''y''),
     ([''p'', ''a-7'', ''files''], Dir),
     ([''p'', ''a-7'', ''files'', ''scripts''], Dir),
     ([''p'', ''a-7'', ''meta.json''], File ''1''),
     ([''p'', ''a-7'', ''PROPOSAL.md''], File ''b''), ([''p''], Dir),
     ([''p'', ''a-7''], Dir), ([], Dir), ([''s''], Dir)]"

lemma mem_step:
  "create_proposal mem_files codec0 store0 ''t'' 7 draft0 mem0 = (Inr pending0, mem1)"
  "apply_proposal mem_files codec0 store0 ''u'' ''a-7'' mem1 = (Inr applied0, mem2)"
  "reject_proposal mem_files codec0 store0 ''v'' ''a-7'' mem2 = (Inr rejected0, mem3)"
  by code_simp+

theorem workshop_confined_witness:
  "within [[''p'', ''a-7'']] (map_of mem0) (map_of mem1)
    \<and> within [[''p'', ''a-7''], [''s'', ''a'']] (map_of mem1) (map_of mem2)"
proof
  have "derive_id (dr_name draft0) 7 = ''a-7''" "ps_root store0 = [''p'']" by code_simp+
  then show "within [[''p'', ''a-7'']] (map_of mem0) (map_of mem1)"
    using workshop_confined [OF mem_files_laws, where st = store0 and d = draft0 and millis = 7 and f = mem0
        and jc = codec0 and now = "''t''", THEN conjunct1]
    by (simp add: mem_step)
  have "fst (get_proposal mem_files codec0 store0 ''a-7'' mem1) = Inr pending0" by code_simp
  moreover have "open_status (sk_status pending0)" "sk_name pending0 = ''a''"
    "proposal_dir store0 (sk_id pending0) = [''p'', ''a-7'']" "ps_skills_dir store0 = [''s'']" by code_simp+
  ultimately show "within [[''p'', ''a-7''], [''s'', ''a'']] (map_of mem1) (map_of mem2)"
    using workshop_confined [OF mem_files_laws, where jc = codec0 and st = store0 and k = "''a-7''" and f = mem1
        and now = "''u''", THEN conjunct2]
    by (simp add: mem_step)
qed

theorem apply_installs_skill_witness: "open_status (sk_status pending0)"
proof (rule apply_installs_skill [THEN conjunct2, THEN conjunct1, OF mem_files_laws _ mem_step(2)])
  show "fst (get_proposal mem_files codec0 store0 ''a-7'' mem1) = Inr pending0" by code_simp
qed

theorem create_reads_back_witness: "reads_back mem_files codec0 store0 pending0 mem1"
  by (rule create_reads_back [THEN conjunct2, THEN conjunct2, THEN conjunct2, OF mem_files_laws _ mem_step(1)]) (simp add: codec0_def table_codec_laws)

theorem reject_keeps_installed_skill_witness:
  "file_at (map_of mem3) [''s'', ''a'', ''SKILL.md''] = file_at (map_of mem2) [''s'', ''a'', ''SKILL.md'']"
proof (rule reject_keeps_installed_skill [THEN conjunct2, THEN conjunct2, rule_format, OF mem_files_laws _ mem_step(2)])
  show "codec_laws codec0" by (simp add: codec0_def table_codec_laws)
  show "reject_proposal mem_files codec0 store0 ''v'' (sk_id applied0) mem2 = (Inr rejected0, mem3)"
    using mem_step(3) by (simp add: applied0_def pending0_def)
  show "\<not> prefix (proposal_dir store0 (sk_id applied0)) [''s'', ''a'', ''SKILL.md'']" by code_simp
qed

text \<open>A directory beside the root that holds a proposal whose id leads out of the root.\<close>

definition outside0 :: skill_proposal where
  "outside0 = pending0\<lparr>sk_id := ''../o''\<rparr>"

definition codec1 :: json_codec where
  "codec1 = table_codec [(''1'', outside0), (''2'', outside0\<lparr>sk_status := Rejected, sk_updated_at := ''v''\<rparr>)]"

definition mem4 :: "(path \<times> node) list" where
  "mem4 = [([], Dir), ([''p''], Dir), ([''o''], Dir), ([''o'', ''meta.json''], File ''1''),
     ([''o'', ''PROPOSAL.md''], File ''b'')]"

text \<open>
  The ids of the operations are not checked: with two dots in the id a proposal beside the root is
  read, and rejecting it writes there.
\<close>

theorem id_leaves_root:
  "fst (get_proposal mem_files codec1 store0 ''../o'' mem4) = Inr outside0
    \<and> \<not> prefix (ps_root store0) [''o'', ''meta.json'']
    \<and> file_at (map_of mem4) [''o'', ''meta.json''] = Some ''1''
    \<and> file_at (map_of (snd (reject_proposal mem_files codec1 store0 ''v'' ''../o'' mem4))) [''o'', ''meta.json''] = Some ''2''"
  by (intro conjI; code_simp)

end
