(* ===== verification/Memory_Store.thy ===== *)
theory Memory_Store
  imports Utf8 Effects
begin

text \<open>
  The stores of memories and conversation turns (\<open>crates/core/src/memory/store.rs\<close>): the store in
  memory, the store on PluresDB with its encryption at rest, the records of hosts, the keys of the
  synchronisation and the exchange with one peer.

  Memories and turns are types of the platform, with the fields the code names; a category is a type
  variable.  Floating-point numbers, the JSON codec, the SEA encryption, base64 and the messages of the
  replicator are parameters.  The random part of an encryption is left out.  A record that is put with
  an embedding is the same record; the index of embeddings is not read by this code.
\<close>

section \<open>Memories and turns\<close>

record ('c, 'x) memory =
  mm_id :: string
  mm_content :: string
  mm_category :: 'c
  mm_tags :: "string list"
  mm_embedding :: "'x list"
  mm_score :: 'x
  mm_created_at :: string

record 'm turn =
  tn_id :: string
  tn_channel :: string
  tn_session_id :: string
  tn_timestamp :: string
  tn_messages :: "'m list"

datatype store_problem =
    NotSerialised | NotEncrypted | NotDecrypted | BadPlaintext | BadHostname
  | BadKeyLength | BadHexByte nat string | BadSharedKey | BadDocument string

datatype memory_error = EmbedError string | StoreError store_problem | FileError string

section \<open>The store in memory\<close>

record ('c, 'x, 'm) in_memory =
  im_entries :: "('c, 'x) memory list"
  im_turns :: "'m turn list"

definition in_memory_new :: "('c, 'x, 'm) in_memory" where
  "in_memory_new = \<lparr>im_entries = [], im_turns = []\<rparr>"

definition in_memory_insert :: "('c, 'x) memory \<Rightarrow> (('c, 'x, 'm) in_memory, memory_error, unit) effect" where
  "in_memory_insert e s = (Inr (), s\<lparr>im_entries := im_entries s @ [e]\<rparr>)"

definition in_memory_all :: "(('c, 'x, 'm) in_memory, memory_error, ('c, 'x) memory list) effect" where
  "in_memory_all s = (Inr (im_entries s), s)"

definition in_memory_remove :: "string \<Rightarrow> (('c, 'x, 'm) in_memory, memory_error, bool) effect" where
  "in_memory_remove k s =
     (let es = filter (\<lambda>e. mm_id e \<noteq> k) (im_entries s) in
      (Inr (length es < length (im_entries s)), s\<lparr>im_entries := es\<rparr>))"

definition in_memory_insert_turn :: "'m turn \<Rightarrow> (('c, 'x, 'm) in_memory, memory_error, unit) effect" where
  "in_memory_insert_turn t s = (Inr (), s\<lparr>im_turns := im_turns s @ [t]\<rparr>)"

text \<open>The last turns of a channel by time, equal times in the order of insertion.\<close>

definition last_turns :: "string \<Rightarrow> nat \<Rightarrow> 'm turn list \<Rightarrow> 'm turn list" where
  "last_turns channel limit ts =
     (let us = sort_key tn_timestamp (filter (\<lambda>t. tn_channel t = channel) ts) in
      drop (length us - limit) us)"

definition in_memory_recent_turns ::
    "string \<Rightarrow> nat \<Rightarrow> (('c, 'x, 'm) in_memory, memory_error, 'm turn list) effect" where
  "in_memory_recent_turns channel limit s = (Inr (last_turns channel limit (im_turns s)), s)"

section \<open>Keys of the synchronisation\<close>

definition hex_val :: "char \<Rightarrow> nat" where
  "hex_val c =
     (let n = of_char c :: nat in if n \<le> 57 then n - 48 else if n \<le> 70 then n - 55 else n - 87)"

text \<open>\<open>u8::from_str_radix(s, 16)\<close> for at most two characters: a plus sign is accepted.\<close>

definition u8_from_hex :: "string \<Rightarrow> nat option" where
  "u8_from_hex s =
     (let ds = (case s of [] \<Rightarrow> [] | c # cs \<Rightarrow> if c = CHR ''+'' then cs else s) in
      if ds = [] \<or> \<not> list_all is_ascii_hexdigit ds then None
      else Some (foldl (\<lambda>a c. 16 * a + hex_val c) 0 ds))"

text \<open>The bytes from position \<open>i\<close> on; \<open>None\<close> is the panic of a slice inside a character.\<close>

fun key_loop :: "string \<Rightarrow> nat list \<Rightarrow> (memory_error + nat list) option" where
  "key_loop value [] = Some (Inr [])"
| "key_loop value (i # is) =
     (case slice value (2 * i) (2 * i + 2) of
        None \<Rightarrow> None
      | Some pair \<Rightarrow>
          (case u8_from_hex pair of
             None \<Rightarrow> Some (Inl (StoreError (BadHexByte (2 * i) pair)))
           | Some b \<Rightarrow> map_option (map_sum id ((#) b)) (key_loop value is)))"

definition parse_sync_topic_key_hex :: "string \<Rightarrow> (memory_error + nat list) option" where
  "parse_sync_topic_key_hex raw =
     (let trimmed = trim raw;
          value = (case strip_prefix ''0x'' trimmed of None \<Rightarrow> trimmed | Some v \<Rightarrow> v) in
      if length value \<noteq> 64 then Some (Inl (StoreError BadKeyLength))
      else key_loop value [0..<32])"

text \<open>Two UUIDs in their simple form.\<close>

definition generate_sync_topic_key_hex :: "string \<Rightarrow> string \<Rightarrow> string" where
  "generate_sync_topic_key_hex a b = a @ b"

section \<open>Encryption at rest\<close>

record 'k sea =
  sea_encrypt :: "string \<Rightarrow> 'k \<Rightarrow> string option"
  sea_decrypt :: "string \<Rightarrow> 'k \<Rightarrow> string \<Rightarrow> string option"
  sea_epub :: "'k \<Rightarrow> string"

record ('c, 'x, 'm, 'a, 'i) store_codec =
  sc_print :: "json \<Rightarrow> string option"
  sc_parse :: "string \<Rightarrow> json option"
  sc_entry :: "('c, 'x) memory \<Rightarrow> json option"
  sc_to_entry :: "json \<Rightarrow> ('c, 'x) memory option"
  sc_turn :: "'m turn \<Rightarrow> json option"
  sc_to_turn :: "json \<Rightarrow> 'm turn option"
  sc_adapters :: "'a list \<Rightarrow> json option"
  sc_to_adapters :: "json \<Rightarrow> 'a list option"
  sc_capability :: "'i \<Rightarrow> json option"
  sc_to_capability :: "json \<Rightarrow> 'i option"

definition sea_data_field :: string where
  "sea_data_field = ''_sea''"

definition seal_value ::
    "'k sea \<Rightarrow> ('c, 'x, 'm, 'a, 'i) store_codec \<Rightarrow> 'k option \<Rightarrow> json \<Rightarrow> memory_error + json" where
  "seal_value sea cd key v =
     (case key of
        None \<Rightarrow> Inr v
      | Some k \<Rightarrow>
          (case sc_print cd v of
             None \<Rightarrow> Inl (StoreError NotSerialised)
           | Some plain \<Rightarrow>
               (case sea_encrypt sea plain k of
                  None \<Rightarrow> Inl (StoreError NotEncrypted)
                | Some wire \<Rightarrow> Inr (JObject [(sea_data_field, JString wire)]))))"

definition unseal_value ::
    "'k sea \<Rightarrow> ('c, 'x, 'm, 'a, 'i) store_codec \<Rightarrow> 'k option \<Rightarrow> json \<Rightarrow> memory_error + json" where
  "unseal_value sea cd key v =
     (case key of
        None \<Rightarrow> Inr v
      | Some k \<Rightarrow>
          (case Option.bind (json_get sea_data_field v) json_as_str of
             None \<Rightarrow> Inr v
           | Some wire \<Rightarrow>
               (case sea_decrypt sea wire k (sea_epub sea k) of
                  None \<Rightarrow> Inl (StoreError NotDecrypted)
                | Some plain \<Rightarrow>
                    (case sc_parse cd plain of
                       None \<Rightarrow> Inl (StoreError BadPlaintext)
                     | Some w \<Rightarrow> Inr w))))"

section \<open>The store on PluresDB\<close>

definition actor :: string where
  "actor = ''pares-radix''"

definition turn_prefix :: string where
  "turn_prefix = ''turn:''"

record ('s, 'k, 'c, 'x, 'm, 'a, 'i) plures =
  pl_db :: "('s, json) crdt"
  pl_sea :: "'k sea"
  pl_codec :: "('c, 'x, 'm, 'a, 'i) store_codec"
  pl_key :: "'k option"

definition put_sealed ::
    "('s, 'k, 'c, 'x, 'm, 'a, 'i) plures \<Rightarrow> string \<Rightarrow> json option \<Rightarrow> ('s, memory_error, unit) effect" where
  "put_sealed p k v s =
     (case v of
        None \<Rightarrow> (Inl (StoreError NotSerialised), s)
      | Some j \<Rightarrow>
          (case seal_value (pl_sea p) (pl_codec p) (pl_key p) j of
             Inl e \<Rightarrow> (Inl e, s)
           | Inr data \<Rightarrow> (Inr (), crdt_put (pl_db p) k actor data s)))"

definition plures_insert ::
    "('s, 'k, 'c, 'x, 'm, 'a, 'i) plures \<Rightarrow> ('c, 'x) memory \<Rightarrow> ('s, memory_error, unit) effect" where
  "plures_insert p e = put_sealed p (mm_id e) (sc_entry (pl_codec p) e)"

text \<open>A record is decrypted before it is looked at; what is no memory is skipped.\<close>

fun collect_entries ::
    "('s, 'k, 'c, 'x, 'm, 'a, 'i) plures \<Rightarrow> (string \<times> json) list \<Rightarrow> memory_error + ('c, 'x) memory list" where
  "collect_entries p [] = Inr []"
| "collect_entries p ((k, data) # rs) =
     (case unseal_value (pl_sea p) (pl_codec p) (pl_key p) data of
        Inl e \<Rightarrow> Inl e
      | Inr v \<Rightarrow>
          if prefix turn_prefix k then collect_entries p rs
          else
            (case sc_to_entry (pl_codec p) v of
               None \<Rightarrow> collect_entries p rs
             | Some m \<Rightarrow> map_sum id ((#) m) (collect_entries p rs)))"

definition plures_entries ::
    "('s, 'k, 'c, 'x, 'm, 'a, 'i) plures \<Rightarrow> ('s, memory_error, ('c, 'x) memory list) effect" where
  "plures_entries p s = (collect_entries p (crdt_list (pl_db p) s), s)"

definition plures_remove ::
    "('s, 'k, 'c, 'x, 'm, 'a, 'i) plures \<Rightarrow> string \<Rightarrow> ('s, memory_error, bool) effect" where
  "plures_remove p k s = (case crdt_delete (pl_db p) k s of (failed, s') \<Rightarrow> (Inr (\<not> failed), s'))"

definition plures_insert_turn ::
    "('s, 'k, 'c, 'x, 'm, 'a, 'i) plures \<Rightarrow> 'm turn \<Rightarrow> ('s, memory_error, unit) effect" where
  "plures_insert_turn p t = put_sealed p (turn_prefix @ tn_id t) (sc_turn (pl_codec p) t)"

fun collect_turns ::
    "('s, 'k, 'c, 'x, 'm, 'a, 'i) plures \<Rightarrow> (string \<times> json) list \<Rightarrow> memory_error + 'm turn list" where
  "collect_turns p [] = Inr []"
| "collect_turns p ((k, data) # rs) =
     (if \<not> prefix turn_prefix k then collect_turns p rs
      else
        (case unseal_value (pl_sea p) (pl_codec p) (pl_key p) data of
           Inl e \<Rightarrow> Inl e
         | Inr v \<Rightarrow>
             (case sc_to_turn (pl_codec p) v of
                None \<Rightarrow> collect_turns p rs
              | Some t \<Rightarrow> map_sum id ((#) t) (collect_turns p rs))))"

definition plures_recent_turns ::
    "('s, 'k, 'c, 'x, 'm, 'a, 'i) plures \<Rightarrow> string \<Rightarrow> nat \<Rightarrow> ('s, memory_error, 'm turn list) effect" where
  "plures_recent_turns p channel limit s =
     (map_sum id (last_turns channel limit) (collect_turns p (crdt_list (pl_db p) s)), s)"

section \<open>Records of hosts\<close>

text \<open>\<open>char::is_control\<close>.\<close>

definition is_control :: "string \<Rightarrow> bool" where
  "is_control w =
     (case w of
        [c] \<Rightarrow> (of_char c :: nat) < 32 \<or> (of_char c :: nat) = 127
      | [c, d] \<Rightarrow> c = CHR 0xC2 \<and> (of_char d :: nat) < 160
      | _ \<Rightarrow> False)"

definition bad_hostname :: "string \<Rightarrow> bool" where
  "bad_hostname h \<longleftrightarrow> trim h = [] \<or> CHR ''/'' \<in> set h \<or> list_ex is_control (utf8_chars h)"

definition adapters_key :: "string \<Rightarrow> string" where
  "adapters_key h = ''host/'' @ h @ ''/adapters''"

definition capability_key :: "string \<Rightarrow> string" where
  "capability_key h = ''host/'' @ h @ ''/inference-capabilities''"

definition set_host_adapters ::
    "('s, 'k, 'c, 'x, 'm, 'a, 'i) plures \<Rightarrow> string \<Rightarrow> 'a list \<Rightarrow> ('s, memory_error, unit) effect" where
  "set_host_adapters p h adapters =
     (if bad_hostname h then io_err (StoreError BadHostname)
      else put_sealed p (adapters_key h) (sc_adapters (pl_codec p) adapters))"

definition set_host_inference_capability ::
    "('s, 'k, 'c, 'x, 'm, 'a, 'i) plures \<Rightarrow> string \<Rightarrow> 'i \<Rightarrow> ('s, memory_error, unit) effect" where
  "set_host_inference_capability p h capability =
     (if bad_hostname h then io_err (StoreError BadHostname)
      else put_sealed p (capability_key h) (sc_capability (pl_codec p) capability))"

text \<open>The host of a key with the given suffix.\<close>

definition host_of :: "string \<Rightarrow> string \<Rightarrow> string option" where
  "host_of suff k =
     (case strip_prefix ''host/'' k of
        None \<Rightarrow> None
      | Some r \<Rightarrow> if suffix suff r then Some (take (length r - length suff) r) else None)"

fun collect_hosts ::
    "('s, 'k, 'c, 'x, 'm, 'a, 'i) plures \<Rightarrow> string \<Rightarrow> (json \<Rightarrow> 'b option) \<Rightarrow> (string \<times> json) list
      \<Rightarrow> memory_error + (string \<times> 'b) list" where
  "collect_hosts p suff decode [] = Inr []"
| "collect_hosts p suff decode ((k, data) # rs) =
     (case host_of suff k of
        None \<Rightarrow> collect_hosts p suff decode rs
      | Some h \<Rightarrow>
          (case unseal_value (pl_sea p) (pl_codec p) (pl_key p) data of
             Inl e \<Rightarrow> Inl e
           | Inr v \<Rightarrow>
               (case decode v of
                  None \<Rightarrow> collect_hosts p suff decode rs
                | Some x \<Rightarrow> map_sum id ((#) (h, x)) (collect_hosts p suff decode rs))))"

definition list_host_adapters ::
    "('s, 'k, 'c, 'x, 'm, 'a, 'i) plures \<Rightarrow> ('s, memory_error, (string \<times> 'a list) list) effect" where
  "list_host_adapters p s =
     (collect_hosts p ''/adapters'' (sc_to_adapters (pl_codec p)) (crdt_list (pl_db p) s), s)"

definition list_host_inference_capabilities ::
    "('s, 'k, 'c, 'x, 'm, 'a, 'i) plures \<Rightarrow> ('s, memory_error, (string \<times> 'i) list) effect" where
  "list_host_inference_capabilities p s =
     (collect_hosts p ''/inference-capabilities'' (sc_to_capability (pl_codec p)) (crdt_list (pl_db p) s), s)"

section \<open>The exchange with a peer\<close>

datatype sync_problem =
    UnsealFailed | EncodePutFailed | PayloadEncryptFailed | SendFailed | CloseFailed | ReceiveFailed
  | EnvelopeParseFailed | UnsupportedEncoding string | PayloadDecryptFailed | Base64Failed | DecodeFailed
  | SealFailed

record envelope =
  ev_sender_epub :: string
  ev_wire :: string
  ev_payload_b64 :: string

datatype gun_message = Put "(string \<times> (string \<times> json) list) list" | OtherMessage

datatype incoming = Payload string | Closed | TimedOut | ReceiveError

record replicator =
  rp_encode_put :: "string \<Rightarrow> json \<Rightarrow> string option"
  rp_decode :: "string \<Rightarrow> gun_message option"
  rp_b64_encode :: "string \<Rightarrow> string"
  rp_b64_decode :: "string \<Rightarrow> string option"
  rp_envelope :: "envelope \<Rightarrow> string option"
  rp_to_envelope :: "string \<Rightarrow> envelope option"

definition encrypt_sync_payload :: "'k sea \<Rightarrow> replicator \<Rightarrow> 'k \<Rightarrow> string \<Rightarrow> sync_problem + string" where
  "encrypt_sync_payload sea rp k payload =
     (case sea_encrypt sea (rp_b64_encode rp payload) k of
        None \<Rightarrow> Inl PayloadEncryptFailed
      | Some wire \<Rightarrow>
          (case rp_envelope rp \<lparr>ev_sender_epub = sea_epub sea k, ev_wire = wire, ev_payload_b64 = ''base64url''\<rparr> of
             None \<Rightarrow> Inl PayloadEncryptFailed
           | Some bytes \<Rightarrow> Inr bytes))"

definition decrypt_sync_payload :: "'k sea \<Rightarrow> replicator \<Rightarrow> 'k \<Rightarrow> string \<Rightarrow> sync_problem + string" where
  "decrypt_sync_payload sea rp k payload =
     (case rp_to_envelope rp payload of
        None \<Rightarrow> Inl EnvelopeParseFailed
      | Some ev \<Rightarrow>
          if ev_payload_b64 ev \<noteq> ''base64url'' then Inl (UnsupportedEncoding (ev_payload_b64 ev))
          else
            (case sea_decrypt sea (ev_wire ev) k (ev_sender_epub ev) of
               None \<Rightarrow> Inl PayloadDecryptFailed
             | Some plain \<Rightarrow>
                 (case rp_b64_decode rp plain of None \<Rightarrow> Inl Base64Failed | Some b \<Rightarrow> Inr b)))"

text \<open>
  Sending the records in turn; the outcome of the \<open>n\<close>-th send is an argument.  The payloads that
  were sent are returned also when it fails.
\<close>

fun send_records ::
    "('s, 'k, 'c, 'x, 'm, 'a, 'i) plures \<Rightarrow> replicator \<Rightarrow> 'k \<Rightarrow> (nat \<Rightarrow> bool) \<Rightarrow> (string \<times> json) list \<Rightarrow> nat
      \<Rightarrow> sync_problem option \<times> string list" where
  "send_records p rp k sends [] n = (None, [])"
| "send_records p rp k sends ((rid, data) # rs) n =
     (case unseal_value (pl_sea p) (pl_codec p) (pl_key p) data of
        Inl e \<Rightarrow> (Some UnsealFailed, [])
      | Inr v \<Rightarrow>
          (case rp_encode_put rp rid v of
             None \<Rightarrow> (Some EncodePutFailed, [])
           | Some payload \<Rightarrow>
               (case encrypt_sync_payload (pl_sea p) rp k payload of
                  Inl e \<Rightarrow> (Some e, [])
                | Inr bytes \<Rightarrow>
                    if \<not> sends n then (Some SendFailed, [])
                    else map_prod id ((#) bytes) (send_records p rp k sends rs (Suc n)))))"

fun store_nodes ::
    "('s, 'k, 'c, 'x, 'm, 'a, 'i) plures \<Rightarrow> (string \<times> (string \<times> json) list) list
      \<Rightarrow> ('s, sync_problem, unit) effect" where
  "store_nodes p [] s = (Inr (), s)"
| "store_nodes p ((rid, fields') # ns) s =
     (case seal_value (pl_sea p) (pl_codec p) (pl_key p) (JObject fields') of
        Inl e \<Rightarrow> (Inl SealFailed, s)
      | Inr data \<Rightarrow> store_nodes p ns (crdt_put (pl_db p) rid actor data s))"

fun receive_loop ::
    "('s, 'k, 'c, 'x, 'm, 'a, 'i) plures \<Rightarrow> replicator \<Rightarrow> 'k \<Rightarrow> incoming list \<Rightarrow> ('s, sync_problem, unit) effect" where
  "receive_loop p rp k [] s = (Inr (), s)"
| "receive_loop p rp k (x # xs) s =
     (case x of
        Closed \<Rightarrow> (Inr (), s)
      | TimedOut \<Rightarrow> (Inr (), s)
      | ReceiveError \<Rightarrow> (Inl ReceiveFailed, s)
      | Payload payload \<Rightarrow>
          (case decrypt_sync_payload (pl_sea p) rp k payload of
             Inl e \<Rightarrow> (Inl e, s)
           | Inr bytes \<Rightarrow>
               (case rp_decode rp bytes of
                  None \<Rightarrow> (Inl DecodeFailed, s)
                | Some OtherMessage \<Rightarrow> receive_loop p rp k xs s
                | Some (Put nodes) \<Rightarrow>
                    (case store_nodes p nodes s of
                       (Inl e, s') \<Rightarrow> (Inl e, s')
                     | (Inr _, s') \<Rightarrow> receive_loop p rp k xs s'))))"

definition sync_connection ::
    "('s, 'k, 'c, 'x, 'm, 'a, 'i) plures \<Rightarrow> replicator \<Rightarrow> 'k \<Rightarrow> (nat \<Rightarrow> bool) \<Rightarrow> bool \<Rightarrow> incoming list \<Rightarrow> 's
      \<Rightarrow> string list \<times> (sync_problem + unit) \<times> 's" where
  "sync_connection p rp k sends closes xs s =
     (case send_records p rp k sends (crdt_list (pl_db p) s) 0 of
        (Some e, sent) \<Rightarrow> (sent, Inl e, s)
      | (None, sent) \<Rightarrow>
          if \<not> closes then (sent, Inl CloseFailed, s)
          else (sent, receive_loop p rp k xs s))"

end
