(* ===== verification/Memory.thy ===== *)
theory Memory
  imports Memory_Store
begin

text \<open>
  The memory of the agent (\<open>crates/core/src/memory\<close>): the quality gate (\<open>quality.rs\<close>), the
  detection, storing and undoing of corrections (\<open>correction.rs\<close>), and capture, recall, context
  and document ingestion (\<open>mod.rs\<close>) over any store.

  The categories, the embedder, the arithmetic of floating-point numbers, Unicode lower case and the
  file system are parameters; ids and times are arguments.
\<close>

section \<open>Parameters\<close>

record 'c category_names =
  cn_error_fix :: 'c
  cn_code_pattern :: 'c
  cn_preference :: 'c
  cn_decision :: 'c
  cn_conversation :: 'c
  cn_correction :: 'c
  cn_fact :: 'c
  cn_procedure :: 'c
  cn_as_str :: "'c \<Rightarrow> string"

record 'x floats =
  fo_zero :: 'x
  fo_one :: 'x
  fo_echo :: 'x
  fo_mul :: "'x \<Rightarrow> 'x \<Rightarrow> 'x"
  fo_div :: "'x \<Rightarrow> 'x \<Rightarrow> 'x"
  fo_sum :: "'x list \<Rightarrow> 'x"
  fo_sqrt :: "'x \<Rightarrow> 'x"
  fo_less :: "'x \<Rightarrow> 'x \<Rightarrow> bool"
  fo_eq :: "'x \<Rightarrow> 'x \<Rightarrow> bool"

text \<open>What the clients use of a store.\<close>

record ('s, 'c, 'x) store_ops =
  so_insert :: "('c, 'x) memory \<Rightarrow> ('s, memory_error, unit) effect"
  so_all :: "('s, memory_error, ('c, 'x) memory list) effect"
  so_remove :: "string \<Rightarrow> ('s, memory_error, bool) effect"

record exchange =
  xc_user :: string
  xc_assistant :: string

type_synonym 'x embedder = "string \<Rightarrow> string + 'x list"

definition io_embed :: "'x embedder \<Rightarrow> string \<Rightarrow> ('s, memory_error, 'x list) effect" where
  "io_embed emb t s = (map_sum EmbedError id (emb t), s)"

section \<open>Quality\<close>

definition min_content_len :: nat where
  "min_content_len = 20"

definition noise_patterns :: "string list" where
  "noise_patterns =
     [''ok'', ''okay'', ''sure'', ''yes'', ''no'', ''nope'', ''got it'', ''thanks'', ''thank you'', ''great'',
      ''good'', ''nice'', ''cool'', ''awesome'', ''perfect'', ''alright'', ''right'', ''understood'', ''noted'',
      ''bye'', ''hello'', ''hi'']"

definition is_ascii_punctuation :: "char \<Rightarrow> bool" where
  "is_ascii_punctuation c \<longleftrightarrow> is_graph c \<and> \<not> is_ascii_alnum c"

definition trim_end_punctuation :: "string \<Rightarrow> string" where
  "trim_end_punctuation s = rev (dropWhile is_ascii_punctuation (rev s))"

definition is_too_short :: "string \<Rightarrow> bool" where
  "is_too_short t \<longleftrightarrow> length (trim t) < min_content_len"

definition is_noise :: "unicode \<Rightarrow> string \<Rightarrow> bool" where
  "is_noise u t \<longleftrightarrow>
     is_too_short t \<or> trim_end_punctuation (uc_lowercase u (trim t)) \<in> set noise_patterns"

definition dot :: "'x floats \<Rightarrow> 'x list \<Rightarrow> 'x list \<Rightarrow> 'x" where
  "dot fo a b = fo_sum fo (map2 (fo_mul fo) a b)"

definition norm_of :: "'x floats \<Rightarrow> 'x list \<Rightarrow> 'x" where
  "norm_of fo a = fo_sqrt fo (fo_sum fo (map (\<lambda>x. fo_mul fo x x) a))"

definition quality_cosine :: "'x floats \<Rightarrow> 'x list \<Rightarrow> 'x list \<Rightarrow> 'x" where
  "quality_cosine fo a b =
     (if length a \<noteq> length b then fo_zero fo
      else if fo_eq fo (norm_of fo a) (fo_zero fo) \<or> fo_eq fo (norm_of fo b) (fo_zero fo) then fo_zero fo
      else fo_div fo (dot fo a b) (fo_mul fo (norm_of fo a) (norm_of fo b)))"

definition is_echo :: "'x floats \<Rightarrow> 'x list \<Rightarrow> ('c, 'x) memory list \<Rightarrow> bool" where
  "is_echo fo v ms \<longleftrightarrow> list_ex (\<lambda>m. fo_less fo (fo_echo fo) (quality_cosine fo v (mm_embedding m))) ms"

section \<open>Corrections\<close>

definition correction_signals :: "string list" where
  "correction_signals =
     [''don'' @ [CHR 0x27] @ ''t do'', ''dont do'', ''do not do'', ''stop doing'',
      ''don'' @ [CHR 0x27] @ ''t use'', ''dont use'', ''do not use'',
      ''never do '', ''never use '', ''never again'',
      ''i prefer'', ''i'' @ [CHR 0x27] @ ''d prefer'', ''id prefer'', ''please use'', ''use instead'',
      ''instead of'', ''rather than'', ''not like that'', ''always use'', ''i want you to'',
      ''that'' @ [CHR 0x27] @ ''s incorrect'', ''thats incorrect'', ''that is incorrect'',
      ''that'' @ [CHR 0x27] @ ''s wrong'', ''thats wrong'', ''that is wrong'',
      ''you'' @ [CHR 0x27] @ ''re wrong'', ''youre wrong'', ''you are wrong'',
      ''i said'', ''i told you'', ''i already said'', ''remember to'',
      ''don'' @ [CHR 0x27] @ ''t forget'', ''dont forget'',
      ''from now on'', ''going forward'', ''in the future'', ''change that to'', ''switch to'']"

definition correction_prefixes :: "string list" where
  "correction_prefixes = [''no, '', ''no. '', ''actually,'', ''actually, '']"

definition is_correction :: "unicode \<Rightarrow> string \<Rightarrow> bool" where
  "is_correction u t \<longleftrightarrow>
     (let lower = uc_lowercase u t in
      list_ex (contains_str lower) correction_signals \<or> list_ex (\<lambda>p. prefix p lower) correction_prefixes)"

text \<open>The first prefix of the list with something behind it.\<close>

fun rule_after :: "string \<Rightarrow> string \<Rightarrow> string list \<Rightarrow> string option" where
  "rule_after label lower [] = None"
| "rule_after label lower (p # ps) =
     (case strip_prefix p lower of
        None \<Rightarrow> rule_after label lower ps
      | Some rest \<Rightarrow>
          if trim_end_punctuation rest \<noteq> [] then Some (label @ trim_end_punctuation rest)
          else rule_after label lower ps)"

text \<open>The end of the last character that starts before byte 77.\<close>

fun summary_end :: "string list \<Rightarrow> nat \<Rightarrow> nat" where
  "summary_end [] i = i"
| "summary_end (w # ws) i = (if i < 77 then summary_end ws (i + length w) else i)"

definition derive_rule_summary :: "unicode \<Rightarrow> string \<Rightarrow> string option" where
  "derive_rule_summary u t =
     (let lower = uc_lowercase u t; trimmed = trim t in
      case rule_after ''avoid: '' lower
             [''don'' @ [CHR 0x27] @ ''t '', ''dont '', ''do not '', ''never '', ''stop ''] of
        Some r \<Rightarrow> Some r
      | None \<Rightarrow>
          (case rule_after ''prefer: '' lower
                  [''i prefer '', ''please use '', ''always use '', ''use '', ''switch to ''] of
             Some r \<Rightarrow> Some r
           | None \<Rightarrow>
               (case rule_after ''rule: '' lower [''from now on '', ''going forward '', ''in the future ''] of
                  Some r \<Rightarrow> Some r
                | None \<Rightarrow>
                    if 80 < length trimmed
                    then map_option
                      (\<lambda>w. ''follow user correction: '' @ w @ [CHR 0xE2, CHR 0x80, CHR 0xA6])
                      (slice_to trimmed (summary_end (utf8_chars trimmed) 0))
                    else Some (''follow user correction: '' @ trimmed))))"

record correction_record =
  cr_id :: string
  cr_user_message :: string
  cr_rule_summary :: string
  cr_constraint_id :: "string option"
  cr_confirmation :: string
  cr_applied_at :: string

record undo_outcome =
  uo_removed :: bool
  uo_constraint_id :: "string option"

definition constraint_tag_prefix :: string where
  "constraint_tag_prefix = ''constraint_id:''"

definition correction_entry ::
    "'c category_names \<Rightarrow> 'x floats \<Rightarrow> string \<Rightarrow> string \<Rightarrow> exchange \<Rightarrow> string option \<Rightarrow> ('c, 'x) memory" where
  "correction_entry cn fo k now x cid =
     \<lparr>mm_id = k, mm_content = ''CORRECTION: '' @ xc_user x @ [newline] @ ''Context: '' @ xc_assistant x,
      mm_category = cn_correction cn,
      mm_tags = [''decay_protected'', ''correction'']
        @ (case cid of None \<Rightarrow> [] | Some c \<Rightarrow> [constraint_tag_prefix @ c]),
      mm_embedding = [], mm_score = fo_one fo, mm_created_at = now\<rparr>"

text \<open>\<open>None\<close> is the panic of a slice in the summary.\<close>

definition apply_correction ::
    "'c category_names \<Rightarrow> 'x floats \<Rightarrow> unicode \<Rightarrow> ('s, 'c, 'x) store_ops \<Rightarrow> string \<Rightarrow> string \<Rightarrow> exchange
      \<Rightarrow> string option \<Rightarrow> ('s, memory_error, correction_record) effect option" where
  "apply_correction cn fo u so k now x cid =
     map_option
       (\<lambda>rule. io_bind (so_insert so (correction_entry cn fo k now x cid)) (\<lambda>_.
          io_ok \<lparr>cr_id = k, cr_user_message = xc_user x, cr_rule_summary = rule, cr_constraint_id = cid,
            cr_confirmation = ''Got it, I'' @ [CHR 0x27] @ ''ll remember to '' @ rule @ '' going forward.'',
            cr_applied_at = now\<rparr>))
       (derive_rule_summary u (xc_user x))"

definition find_map :: "('a \<Rightarrow> 'b option) \<Rightarrow> 'a list \<Rightarrow> 'b option" where
  "find_map f xs = Option.bind (find (\<lambda>x. f x \<noteq> None) xs) f"

definition undo_correction ::
    "('s, 'c, 'x) store_ops \<Rightarrow> string \<Rightarrow> ('s, memory_error, undo_outcome) effect" where
  "undo_correction so k =
     io_bind (so_all so) (\<lambda>es.
       let cid = Option.bind (find (\<lambda>e. mm_id e = k) es)
             (\<lambda>e. find_map (strip_prefix constraint_tag_prefix) (mm_tags e)) in
       io_bind (so_remove so k) (\<lambda>removed. io_ok \<lparr>uo_removed = removed, uo_constraint_id = cid\<rparr>))"

section \<open>Capture\<close>

definition format_exchange :: "exchange \<Rightarrow> string" where
  "format_exchange x = ''User: '' @ xc_user x @ [newline] @ ''Assistant: '' @ xc_assistant x"

text \<open>The text the user wrote; the cuts are at ASCII characters.\<close>

definition user_segment :: "string \<Rightarrow> string" where
  "user_segment lower =
     (case find_str lower ''user:'' of
        None \<Rightarrow> lower
      | Some i \<Rightarrow>
          let after = drop (i + 5) lower in
          (case find_str after (newline # ''assistant:'') of
             None \<Rightarrow> trim after
           | Some j \<Rightarrow> trim (take j after)))"

definition detect_memory_category :: "'c category_names \<Rightarrow> unicode \<Rightarrow> string \<Rightarrow> 'c" where
  "detect_memory_category cn u t =
     (let lower = uc_lowercase u t; has = contains_str lower in
      if is_correction u (user_segment lower) then cn_correction cn
      else if has ''error'' \<or> has ''fix'' \<or> has ''bug'' \<or> has ''panic'' then cn_error_fix cn
      else if has ''fn '' \<or> has ''impl '' \<or> has ''struct '' \<or> has ''cargo'' \<or> has ''crate'' \<or> has ''trait ''
        then cn_code_pattern cn
      else if has ''prefer'' \<or> has ''always use'' \<or> has ''never use'' \<or> has ''convention'' then cn_preference cn
      else if has ''decided'' \<or> has ''decision'' \<or> has ''chose'' \<or> has ''because'' then cn_decision cn
      else cn_conversation cn)"

definition is_git_noise :: "unicode \<Rightarrow> string \<Rightarrow> bool" where
  "is_git_noise u t \<longleftrightarrow>
     (let has = contains_str (uc_lowercase u t) in
      has ''commit '' \<and> has ''author:'' \<and> has ''date:'' \<or> has ''diff --git'' \<or> has ''index '' \<and> has ''+++'')"

definition passes_quality_gate :: "unicode \<Rightarrow> string \<Rightarrow> bool" where
  "passes_quality_gate u content \<longleftrightarrow>
     (let trimmed = trim content in
      trimmed \<noteq> [] \<and> map ascii_lower trimmed \<noteq> ''heartbeat_ok'' \<and> \<not> is_noise u trimmed \<and> \<not> is_git_noise u trimmed)"

definition extract_tags :: "unicode \<Rightarrow> exchange \<Rightarrow> string list" where
  "extract_tags u x =
     (let combined = uc_lowercase u (xc_user x @ '' '' @ xc_assistant x) in
      map ((@) ''lang:'') (filter (contains_str combined) [''rust'', ''python'', ''typescript'', ''javascript'', ''go''])
      @ map ((@) ''tool:'') (filter (contains_str combined) [''cargo'', ''tokio'', ''serde'', ''git'', ''docker'']))"

text \<open>The gate against echoes and the insertion, which the three kinds of capture share.\<close>

definition insert_unless_echo ::
    "'x floats \<Rightarrow> ('s, 'c, 'x) store_ops \<Rightarrow> 'x embedder \<Rightarrow> string \<Rightarrow> ('x list \<Rightarrow> ('c, 'x) memory)
      \<Rightarrow> ('s, memory_error, string option) effect" where
  "insert_unless_echo fo so emb content entry =
     io_bind (io_embed emb content) (\<lambda>v.
     io_bind (so_all so) (\<lambda>all.
       if is_echo fo v all then io_ok None
       else io_bind (so_insert so (entry v)) (\<lambda>_. io_ok (Some (mm_id (entry v))))))"

definition capture ::
    "'c category_names \<Rightarrow> 'x floats \<Rightarrow> unicode \<Rightarrow> ('s, 'c, 'x) store_ops \<Rightarrow> 'x embedder \<Rightarrow> string \<Rightarrow> string
      \<Rightarrow> exchange \<Rightarrow> ('s, memory_error, string list) effect" where
  "capture cn fo u so emb k now x =
     (if is_noise u (xc_user x @ '' '' @ xc_assistant x) then io_ok []
      else
        let content = format_exchange x in
        io_bind
          (insert_unless_echo fo so emb content
            (\<lambda>v. \<lparr>mm_id = k, mm_content = content, mm_category = detect_memory_category cn u content,
               mm_tags = extract_tags u x, mm_embedding = v, mm_score = fo_zero fo, mm_created_at = now\<rparr>))
          (\<lambda>r. io_ok (case r of None \<Rightarrow> [] | Some i \<Rightarrow> [i])))"

definition capture_fact ::
    "'c category_names \<Rightarrow> 'x floats \<Rightarrow> unicode \<Rightarrow> ('s, 'c, 'x) store_ops \<Rightarrow> 'x embedder \<Rightarrow> string \<Rightarrow> string
      \<Rightarrow> string \<Rightarrow> string list \<Rightarrow> ('s, memory_error, string option) effect" where
  "capture_fact cn fo u so emb k now content tags =
     (if \<not> passes_quality_gate u content then io_ok None
      else insert_unless_echo fo so emb content
        (\<lambda>v. \<lparr>mm_id = k, mm_content = content, mm_category = cn_fact cn, mm_tags = tags, mm_embedding = v,
           mm_score = fo_zero fo, mm_created_at = now\<rparr>))"

definition capture_procedure_candidate ::
    "'c category_names \<Rightarrow> 'x floats \<Rightarrow> unicode \<Rightarrow> ('s, 'c, 'x) store_ops \<Rightarrow> 'x embedder \<Rightarrow> string \<Rightarrow> string
      \<Rightarrow> string \<Rightarrow> string list \<Rightarrow> ('s, memory_error, string option) effect" where
  "capture_procedure_candidate cn fo u so emb k now description tags =
     (if \<not> passes_quality_gate u description then io_ok None
      else insert_unless_echo fo so emb description
        (\<lambda>v. \<lparr>mm_id = k, mm_content = description, mm_category = cn_procedure cn,
           mm_tags = tags @ [''procedure:candidate''], mm_embedding = v, mm_score = fo_zero fo,
           mm_created_at = now\<rparr>))"

section \<open>Recall and context\<close>

definition cosine_similarity :: "'x floats \<Rightarrow> 'x list \<Rightarrow> 'x list \<Rightarrow> 'x" where
  "cosine_similarity fo a b =
     (if length a \<noteq> length b \<or> a = [] then fo_zero fo
      else if fo_eq fo (norm_of fo a) (fo_zero fo) \<or> fo_eq fo (norm_of fo b) (fo_zero fo) then fo_zero fo
      else fo_div fo (dot fo a b) (fo_mul fo (norm_of fo a) (norm_of fo b)))"

text \<open>The stable sort by falling score.\<close>

fun insert_desc :: "('x \<Rightarrow> 'x \<Rightarrow> bool) \<Rightarrow> 'x \<times> 'a \<Rightarrow> ('x \<times> 'a) list \<Rightarrow> ('x \<times> 'a) list" where
  "insert_desc lt x [] = [x]"
| "insert_desc lt x (y # ys) = (if lt (fst x) (fst y) then y # insert_desc lt x ys else x # y # ys)"

definition sort_desc :: "('x \<Rightarrow> 'x \<Rightarrow> bool) \<Rightarrow> ('x \<times> 'a) list \<Rightarrow> ('x \<times> 'a) list" where
  "sort_desc lt xs = foldr (insert_desc lt) xs []"

lemma insert_desc_mset: "mset (insert_desc lt x ys) = add_mset x (mset ys)"
  by (induction ys) auto

lemma insert_desc_set: "set (insert_desc lt x ys) = insert x (set ys)"
  by (induction ys) auto

lemma sort_desc_set: "set (sort_desc lt xs) = set xs"
  unfolding sort_desc_def by (induction xs) (simp_all add: insert_desc_set)

definition rank ::
    "'x floats \<Rightarrow> 'x list \<Rightarrow> nat \<Rightarrow> 'c list \<Rightarrow> ('c, 'x) memory list \<Rightarrow> ('c, 'x) memory list" where
  "rank fo q limit exclude all =
     map (\<lambda>(score, m). m\<lparr>mm_score := score\<rparr>)
       (take limit
         (sort_desc (fo_less fo)
           (map (\<lambda>m. (cosine_similarity fo q (mm_embedding m), m))
             (filter (\<lambda>m. mm_category m \<notin> set exclude) all))))"

definition recall ::
    "'x floats \<Rightarrow> ('s, 'c, 'x) store_ops \<Rightarrow> 'x embedder \<Rightarrow> string \<Rightarrow> nat \<Rightarrow> 'c list
      \<Rightarrow> ('s, memory_error, ('c, 'x) memory list) effect" where
  "recall fo so emb query limit exclude =
     io_bind (io_embed emb query) (\<lambda>q.
     io_bind (so_all so) (\<lambda>all. io_ok (rank fo q limit exclude all)))"

definition context_header :: string where
  "context_header = ''# Relevant memories'' @ [newline, newline]"

fun context_loop :: "'c category_names \<Rightarrow> nat \<Rightarrow> ('c, 'x) memory list \<Rightarrow> nat \<Rightarrow> string \<Rightarrow> string" where
  "context_loop cn max_chars [] i out = out"
| "context_loop cn max_chars (m # ms) i out =
     (let block = show_nat (i + 1) @ ''. ['' @ cn_as_str cn (mm_category m) @ ''] '' @ mm_content m @ [newline] in
      if max_chars < length out + length block then out
      else context_loop cn max_chars ms (i + 1) (out @ block))"

definition saturating_mul_4 :: "nat \<Rightarrow> nat" where
  "saturating_mul_4 n = min (4 * n) (2 ^ 64 - 1)"

definition inject_context ::
    "'c category_names \<Rightarrow> nat \<Rightarrow> ('c, 'x) memory list \<Rightarrow> nat option \<Rightarrow> string" where
  "inject_context cn context_window ms budget =
     (let max_tokens = (case budget of None \<Rightarrow> context_window div 4 | Some b \<Rightarrow> b) in
      context_loop cn (saturating_mul_4 max_tokens) ms 0 context_header)"

section \<open>Documents\<close>

datatype document_kind = Markdown | PlainText | SourceCode

fun document_kind_str :: "document_kind \<Rightarrow> string" where
  "document_kind_str Markdown = ''markdown''"
| "document_kind_str PlainText = ''text''"
| "document_kind_str SourceCode = ''source-code''"

definition kind_category :: "'c category_names \<Rightarrow> document_kind \<Rightarrow> 'c" where
  "kind_category cn k = (case k of SourceCode \<Rightarrow> cn_code_pattern cn | _ \<Rightarrow> cn_fact cn)"

definition source_extensions :: "string list" where
  "source_extensions =
     [''rs'', ''ts'', ''tsx'', ''js'', ''jsx'', ''py'', ''go'', ''java'', ''c'', ''cc'', ''cpp'', ''h'', ''hpp'', ''cs'',
      ''swift'', ''kt'', ''kts'', ''rb'', ''php'', ''scala'', ''sh'', ''bash'', ''zsh'', ''fish'', ''sql'', ''toml'',
      ''json'', ''yaml'', ''yml'']"

text \<open>\<open>Path::extension\<close> of a file name: after the last dot, unless that is the first character.\<close>

definition extension_of :: "string \<Rightarrow> string option" where
  "extension_of name =
     (if name = ''..'' then None
      else
        let ext = rev (takeWhile (\<lambda>c. c \<noteq> CHR ''.'') (rev name)) in
        if length ext + 1 < length name then Some ext else None)"

definition classify_document_kind :: "string \<Rightarrow> document_kind option" where
  "classify_document_kind name =
     (case extension_of name of
        None \<Rightarrow> None
      | Some x \<Rightarrow>
          let ext = map ascii_lower x in
          if ext \<in> {''md'', ''markdown''} then Some Markdown
          else if ext \<in> {''txt'', ''text''} then Some PlainText
          else if ext \<in> set source_extensions then Some SourceCode
          else None)"

fun boundary_below :: "string \<Rightarrow> nat \<Rightarrow> nat" where
  "boundary_below s 0 = 0"
| "boundary_below s (Suc i) = (if is_char_boundary s (Suc i) then Suc i else boundary_below s i)"

definition floor_char_boundary :: "string \<Rightarrow> nat \<Rightarrow> nat" where
  "floor_char_boundary s i = (if length s \<le> i then length s else boundary_below s i)"

definition next_start :: "string \<Rightarrow> nat \<Rightarrow> nat \<Rightarrow> nat \<Rightarrow> nat" where
  "next_start s overlap start e =
     (let n = floor_char_boundary s (e - overlap) in if n \<le> start then e else n)"

lemma next_start_greater: "start < e \<Longrightarrow> start < next_start s overlap start e"
  by (simp add: next_start_def Let_def)

text \<open>The loop over the text; \<open>None\<close> is the panic of a slice inside a character.\<close>

function chunk_loop :: "string \<Rightarrow> nat \<Rightarrow> nat \<Rightarrow> nat \<Rightarrow> string list option" where
  "chunk_loop s m overlap start =
     (if start < length s then
        let e = floor_char_boundary s (min (start + m) (length s)) in
        if e \<le> start then Some []
        else
          (case slice s start e of
             None \<Rightarrow> None
           | Some w \<Rightarrow>
               let here = (if trim w = [] then [] else [trim w]) in
               if e = length s then Some here
               else map_option ((@) here) (chunk_loop s m overlap (next_start s overlap start e)))
      else Some [])"
  by pat_completeness auto

termination chunk_loop
  by (relation "measure (\<lambda>(s, m, overlap, start). length s - start)")
    (auto intro!: diff_less_mono2 next_start_greater)

declare chunk_loop.simps [simp del]

definition split_document_chunks :: "string \<Rightarrow> nat \<Rightarrow> nat \<Rightarrow> string list option" where
  "split_document_chunks t m overlap =
     (let trimmed = trim t in
      if trimmed = [] \<or> m = 0 then Some [] else chunk_loop trimmed m overlap 0)"

definition format_document_chunk_content :: "string \<Rightarrow> nat \<Rightarrow> nat \<Rightarrow> string \<Rightarrow> string" where
  "format_document_chunk_content source i n chunk =
     ''Source: '' @ source @ [newline] @ ''Chunk: '' @ show_nat i @ ''/'' @ show_nat n @ [newline, newline] @ chunk"

datatype file_kind = IsDir | IsFile | OtherKind

text \<open>
  What is asked of the file system; a path is its text.  The entries of a directory come with whether
  the reading ends in a failure.
\<close>

record documents =
  dc_kind :: "string \<Rightarrow> file_kind option"
  dc_name :: "string \<Rightarrow> string"
  dc_entries :: "string \<Rightarrow> ((string \<times> file_kind) list \<times> bool) option"
  dc_canonical :: "string \<Rightarrow> string option"
  dc_read :: "string \<Rightarrow> string option"

definition chunk_entry ::
    "'c category_names \<Rightarrow> 'x floats \<Rightarrow> string \<Rightarrow> string \<Rightarrow> string \<Rightarrow> document_kind \<Rightarrow> nat \<Rightarrow> nat \<Rightarrow> string
      \<Rightarrow> 'x list \<Rightarrow> ('c, 'x) memory" where
  "chunk_entry cn fo k now source kind i n chunk v =
     \<lparr>mm_id = k, mm_content = format_document_chunk_content source i n chunk,
      mm_category = kind_category cn kind,
      mm_tags = [''source:'' @ source, ''source-kind:'' @ document_kind_str kind,
        ''chunk:'' @ show_nat i @ ''/'' @ show_nat n],
      mm_embedding = v, mm_score = fo_zero fo, mm_created_at = now\<rparr>"

text \<open>The loop over the chunks; the id of chunk \<open>i\<close> is \<open>ids i\<close>.\<close>

fun insert_chunks ::
    "'c category_names \<Rightarrow> 'x floats \<Rightarrow> ('s, 'c, 'x) store_ops \<Rightarrow> 'x embedder \<Rightarrow> (nat \<Rightarrow> string) \<Rightarrow> string
      \<Rightarrow> string \<Rightarrow> document_kind \<Rightarrow> nat \<Rightarrow> nat \<Rightarrow> string list \<Rightarrow> ('s, memory_error, unit) effect" where
  "insert_chunks cn fo so emb ids now source kind n i [] = io_ok ()"
| "insert_chunks cn fo so emb ids now source kind n i (c # cs) =
     io_bind (io_embed emb (format_document_chunk_content source (i + 1) n c)) (\<lambda>v.
     io_bind (so_insert so (chunk_entry cn fo (ids i) now source kind (i + 1) n c v)) (\<lambda>_.
     insert_chunks cn fo so emb ids now source kind n (i + 1) cs))"

fun remove_tagged :: "('s, 'c, 'x) store_ops \<Rightarrow> string \<Rightarrow> ('c, 'x) memory list \<Rightarrow> ('s, memory_error, unit) effect" where
  "remove_tagged so tag [] = io_ok ()"
| "remove_tagged so tag (e # es) =
     (if tag \<in> set (mm_tags e)
      then io_bind (so_remove so (mm_id e)) (\<lambda>_. remove_tagged so tag es)
      else remove_tagged so tag es)"

definition remove_existing_document_chunks ::
    "('s, 'c, 'x) store_ops \<Rightarrow> string \<Rightarrow> ('s, memory_error, unit) effect" where
  "remove_existing_document_chunks so source = io_bind (so_all so) (remove_tagged so (''source:'' @ source))"

text \<open>\<open>None\<close> is a panic of the splitting.\<close>

definition ingest_document_file ::
    "'c category_names \<Rightarrow> 'x floats \<Rightarrow> ('s, 'c, 'x) store_ops \<Rightarrow> 'x embedder \<Rightarrow> documents
      \<Rightarrow> (string \<Rightarrow> nat \<Rightarrow> string) \<Rightarrow> string \<Rightarrow> string \<Rightarrow> 's \<Rightarrow> ((memory_error + nat) \<times> 's) option" where
  "ingest_document_file cn fo so emb dc ids now p s =
     (case classify_document_kind (dc_name dc p) of
        None \<Rightarrow> Some (Inr 0, s)
      | Some kind \<Rightarrow>
          let source = (case dc_canonical dc p of None \<Rightarrow> p | Some q \<Rightarrow> q) in
          (case remove_existing_document_chunks so source s of
             (Inl e, s1) \<Rightarrow> Some (Inl e, s1)
           | (Inr _, s1) \<Rightarrow>
               (case dc_read dc p of
                  None \<Rightarrow> Some (Inl (FileError p), s1)
                | Some raw \<Rightarrow>
                    map_option
                      (\<lambda>chunks.
                        if chunks = [] then (Inr 0, s1)
                        else io_bind
                          (insert_chunks cn fo so emb (ids p) now source kind (length chunks) 0 chunks)
                          (\<lambda>_. io_ok (length chunks)) s1)
                      (split_document_chunks raw 1200 200))))"

text \<open>The entries of one directory: the sub-directories for the stack, the number of chunks.\<close>

fun ingest_entries ::
    "(string \<Rightarrow> 's \<Rightarrow> ((memory_error + nat) \<times> 's) option) \<Rightarrow> (string \<times> file_kind) list \<Rightarrow> string list \<Rightarrow> nat
      \<Rightarrow> 's \<Rightarrow> ((memory_error + string list \<times> nat) \<times> 's) option" where
  "ingest_entries ingest [] dirs n s = Some (Inr (dirs, n), s)"
| "ingest_entries ingest ((p, IsDir) # es) dirs n s = ingest_entries ingest es (p # dirs) n s"
| "ingest_entries ingest ((p, IsFile) # es) dirs n s =
     (case ingest p s of
        None \<Rightarrow> None
      | Some (Inl e, s') \<Rightarrow> Some (Inl e, s')
      | Some (Inr k, s') \<Rightarrow> ingest_entries ingest es dirs (n + k) s')"
| "ingest_entries ingest ((p, OtherKind) # es) dirs n s = ingest_entries ingest es dirs n s"

text \<open>The walk over the directories, with the number of directories it may visit.\<close>

fun ingest_dirs ::
    "(string \<Rightarrow> 's \<Rightarrow> ((memory_error + nat) \<times> 's) option) \<Rightarrow> documents \<Rightarrow> nat \<Rightarrow> string list \<Rightarrow> nat \<Rightarrow> 's
      \<Rightarrow> ((memory_error + nat) \<times> 's) option" where
  "ingest_dirs ingest dc fuel [] n s = Some (Inr n, s)"
| "ingest_dirs ingest dc 0 (d # ds) n s = None"
| "ingest_dirs ingest dc (Suc fuel) (d # ds) n s =
     (case dc_entries dc d of
        None \<Rightarrow> Some (Inl (FileError d), s)
      | Some (es, fails) \<Rightarrow>
          (case ingest_entries ingest es ds n s of
             None \<Rightarrow> None
           | Some (Inl e, s') \<Rightarrow> Some (Inl e, s')
           | Some (Inr (ds', n'), s') \<Rightarrow>
               if fails then Some (Inl (FileError d), s') else ingest_dirs ingest dc fuel ds' n' s'))"

definition ingest_documents_path ::
    "'c category_names \<Rightarrow> 'x floats \<Rightarrow> ('s, 'c, 'x) store_ops \<Rightarrow> 'x embedder \<Rightarrow> documents
      \<Rightarrow> (string \<Rightarrow> nat \<Rightarrow> string) \<Rightarrow> string \<Rightarrow> nat \<Rightarrow> string \<Rightarrow> 's \<Rightarrow> ((memory_error + nat) \<times> 's) option" where
  "ingest_documents_path cn fo so emb dc ids now fuel p s =
     (let ingest = ingest_document_file cn fo so emb dc ids now in
      case dc_kind dc p of
        None \<Rightarrow> Some (Inl (FileError p), s)
      | Some IsDir \<Rightarrow> ingest_dirs ingest dc fuel [p] 0 s
      | Some IsFile \<Rightarrow> ingest p s
      | Some OtherKind \<Rightarrow> Some (Inr 0, s))"

end
