(* ===== verification/Memory_Contract.thy ===== *)
theory Memory_Contract
  imports Memory
begin

text \<open>
  The contract between the memory and its stores: what the clients rely on as a locale, the two stores
  of the code as its instances, and what the clients achieve on every store that keeps it.
\<close>

section \<open>The contract\<close>

datatype ('c, 'x) change = Ins "('c, 'x) memory" | Del string

fun run_change :: "('s, 'c, 'x) store_ops \<Rightarrow> ('c, 'x) change \<Rightarrow> 's \<Rightarrow> 's" where
  "run_change so (Ins e) s = snd (so_insert so e s)"
| "run_change so (Del k) s = snd (so_remove so k s)"

fun change_set :: "('c, 'x) change \<Rightarrow> ('c, 'x) memory set \<Rightarrow> ('c, 'x) memory set" where
  "change_set (Ins e) m = insert e m"
| "change_set (Del k) m = {e \<in> m. mm_id e \<noteq> k}"

text \<open>Every insertion of a list of changes brings a new id and a memory that fits.\<close>

fun changes_ok :: "(('c, 'x) memory \<Rightarrow> bool) \<Rightarrow> ('c, 'x) change list \<Rightarrow> ('c, 'x) memory set \<Rightarrow> bool" where
  "changes_ok fits [] m \<longleftrightarrow> True"
| "changes_ok fits (Ins e # cs) m \<longleftrightarrow> fits e \<and> mm_id e \<notin> mm_id ` m \<and> changes_ok fits cs (insert e m)"
| "changes_ok fits (Del k # cs) m \<longleftrightarrow> changes_ok fits cs {e \<in> m. mm_id e \<noteq> k}"

definition chunk_entries ::
    "'c category_names \<Rightarrow> 'x floats \<Rightarrow> 'x embedder \<Rightarrow> (nat \<Rightarrow> string) \<Rightarrow> string \<Rightarrow> string \<Rightarrow> document_kind \<Rightarrow> nat
      \<Rightarrow> nat \<Rightarrow> string list \<Rightarrow> ('c, 'x) memory list" where
  "chunk_entries cn fo emb ids now source kind n i cs =
     map (\<lambda>(j, c). chunk_entry cn fo (ids j) now source kind (j + 1) n c
       (projr (emb (format_document_chunk_content source (j + 1) n c)))) (enumerate i cs)"

definition embeds_all :: "'x embedder \<Rightarrow> string \<Rightarrow> nat \<Rightarrow> nat \<Rightarrow> string list \<Rightarrow> bool" where
  "embeds_all emb source n i cs \<longleftrightarrow>
     (\<forall>(j, c) \<in> set (enumerate i cs). is_ok (emb (format_document_chunk_content source (j + 1) n c)))"

lemma chunk_entries_Cons:
  "chunk_entries cn fo emb ids now source kind n i (c # cs) =
     chunk_entry cn fo (ids i) now source kind (i + 1) n c
       (projr (emb (format_document_chunk_content source (i + 1) n c)))
     # chunk_entries cn fo emb ids now source kind n (Suc i) cs"
  by (simp add: chunk_entries_def)

lemma upt_length_Cons: "[i..<i + length (c # cs)] = i # [Suc i..<Suc i + length cs]"
  by (simp add: upt_conv_Cons del: upt_Suc)

lemma chunk_entries_ids: "map mm_id (chunk_entries cn fo emb ids now source kind n i cs) = map ids [i..<i + length cs]"
proof (induction cs arbitrary: i)
  case Nil
  then show ?case by (simp add: chunk_entries_def)
next
  case (Cons c cs)
  show ?case unfolding upt_length_Cons chunk_entries_Cons using Cons.IH [of "Suc i"]
    by (simp add: chunk_entry_def del: upt_Suc)
qed

lemma embeds_all_Cons:
  "embeds_all emb source n i (c # cs) \<longleftrightarrow>
     is_ok (emb (format_document_chunk_content source (i + 1) n c)) \<and> embeds_all emb source n (Suc i) cs"
  by (simp add: embeds_all_def)

locale memory_store =
  fixes so :: "('s, 'c, 'x) store_ops"
    and view :: "'s \<Rightarrow> ('c, 'x) memory list"
    and inv :: "'s \<Rightarrow> bool"
    and fits :: "('c, 'x) memory \<Rightarrow> bool"
  assumes all_ok: "inv s \<Longrightarrow> so_all so s = (Inr (view s), s)"
    and insert_ok: "inv s \<Longrightarrow> fits e \<Longrightarrow> mm_id e \<notin> mm_id ` set (view s) \<Longrightarrow>
      \<exists>s'. so_insert so e s = (Inr (), s') \<and> inv s' \<and> set (view s') = insert e (set (view s))"
    and remove_ok: "inv s \<Longrightarrow>
      \<exists>s' b. so_remove so k s = (Inr b, s') \<and> inv s' \<and> set (view s') = {e \<in> set (view s). mm_id e \<noteq> k}"
    and ids_distinct: "inv s \<Longrightarrow> inj_on mm_id (set (view s))"
begin

lemma run_changes:
  assumes "inv s" and "changes_ok fits cs (set (view s))"
  shows "inv (fold (run_change so) cs s) \<and> set (view (fold (run_change so) cs s)) = fold change_set cs (set (view s))"
  using assms
proof (induction cs arbitrary: s)
  case Nil
  then show ?case by simp
next
  case (Cons c cs)
  show ?case
  proof (cases c)
    case (Ins e)
    then obtain s' where "so_insert so e s = (Inr (), s')" "inv s'" "set (view s') = insert e (set (view s))"
      using insert_ok [of s e] Cons.prems by auto
    then show ?thesis using Cons.IH [of s'] Cons.prems(2) Ins by simp
  next
    case (Del k)
    then obtain s' b where "so_remove so k s = (Inr b, s')" "inv s'"
        "set (view s') = {e \<in> set (view s). mm_id e \<noteq> k}"
      using remove_ok [of s k] Cons.prems by auto
    then show ?thesis using Cons.IH [of s'] Cons.prems(2) Del by simp
  qed
qed

lemma find_id:
  assumes "inv s" and "e \<in> set (view s)"
  shows "find (\<lambda>x. mm_id x = mm_id e) (view s) = Some e"
proof -
  have "find (\<lambda>x. mm_id x = mm_id e) (view s) \<noteq> None" using assms(2) by (auto simp: find_None_iff)
  then obtain x where x: "find (\<lambda>x. mm_id x = mm_id e) (view s) = Some x" by blast
  then have "x \<in> set (view s) \<and> mm_id x = mm_id e" by (auto simp: find_Some_iff)
  then have "x = e" using ids_distinct [OF assms(1)] assms(2) by (auto dest: inj_onD)
  then show ?thesis using x by simp
qed

lemma undo_inserted:
  assumes "inv s" and "fits e" and "mm_id e \<notin> mm_id ` set (view s)"
  shows "\<exists>s1 s2 b. so_insert so e s = (Inr (), s1) \<and> inv s2 \<and> set (view s2) = set (view s) \<and>
    undo_correction so (mm_id e) s1 = (Inr \<lparr>uo_removed = b,
      uo_constraint_id = find_map (strip_prefix constraint_tag_prefix) (mm_tags e)\<rparr>, s2)"
proof -
  obtain s1 where s1: "so_insert so e s = (Inr (), s1)" "inv s1" "set (view s1) = insert e (set (view s))"
    using insert_ok [OF assms] by blast
  obtain s2 b where s2: "so_remove so (mm_id e) s1 = (Inr b, s2)" "inv s2"
      "set (view s2) = {x \<in> set (view s1). mm_id x \<noteq> mm_id e}"
    using remove_ok [OF s1(2)] by blast
  have "set (view s2) = set (view s)" using s1(3) s2(3) assms(3) by (auto simp: rev_image_eqI)
  moreover have "find (\<lambda>x. mm_id x = mm_id e) (view s1) = Some e" using find_id [OF s1(2)] s1(3) by simp
  ultimately show ?thesis
    using s1 s2 by (auto simp: undo_correction_def io_bind_def io_ok_def all_ok Let_def)
qed

lemma insert_chunks_ok:
  assumes "inv s" and "embeds_all emb source n i cs"
    and "\<forall>e \<in> set (chunk_entries cn fo emb ids now source kind n i cs). fits e \<and> mm_id e \<notin> mm_id ` set (view s)"
    and "distinct (map ids [i..<i + length cs])"
  shows "\<exists>s'. insert_chunks cn fo so emb ids now source kind n i cs s = (Inr (), s') \<and> inv s' \<and>
    set (view s') = set (view s) \<union> set (chunk_entries cn fo emb ids now source kind n i cs)"
  using assms
proof (induction cs arbitrary: s i)
  case Nil
  then show ?case by (auto simp: io_ok_def chunk_entries_def)
next
  case (Cons c cs)
  obtain v where emb: "emb (format_document_chunk_content source (i + 1) n c) = Inr v"
    using Cons.prems(2) by (cases "emb (format_document_chunk_content source (i + 1) n c)") (auto simp: embeds_all_Cons)
  let ?e = "chunk_entry cn fo (ids i) now source kind (i + 1) n c v"
  obtain s1 where s1: "so_insert so ?e s = (Inr (), s1)" "inv s1" "set (view s1) = insert ?e (set (view s))"
    using insert_ok [OF Cons.prems(1), of ?e] Cons.prems(3) emb by (auto simp: chunk_entries_Cons)
  have id: "mm_id ?e = ids i" by (simp add: chunk_entry_def)
  have rest: "mm_id ` set (chunk_entries cn fo emb ids now source kind n (Suc i) cs) = ids ` {Suc i..<Suc i + length cs}"
    using arg_cong [OF chunk_entries_ids, of set cn fo emb ids now source kind n "Suc i" cs]
    by (simp only: set_map set_upt)
  have "ids i \<notin> ids ` {Suc i..<Suc i + length cs}"
    using Cons.prems(4) unfolding upt_length_Cons by (simp del: upt_Suc)
  then have "ids i \<notin> mm_id ` set (chunk_entries cn fo emb ids now source kind n (Suc i) cs)"
    unfolding rest .
  then have "mm_id e \<noteq> ids i" if "e \<in> set (chunk_entries cn fo emb ids now source kind n (Suc i) cs)" for e
    using that by (metis imageI)
  then have "\<forall>e \<in> set (chunk_entries cn fo emb ids now source kind n (Suc i) cs).
      fits e \<and> mm_id e \<notin> mm_id ` set (view s1)"
    using Cons.prems(3) s1(3) id emb by (auto simp: chunk_entries_Cons)
  moreover have "distinct (map ids [Suc i..<Suc i + length cs])"
    using Cons.prems(4) unfolding upt_length_Cons by (simp del: upt_Suc)
  ultimately obtain s' where "insert_chunks cn fo so emb ids now source kind n (Suc i) cs s1 = (Inr (), s')" "inv s'"
      "set (view s') = set (view s1) \<union> set (chunk_entries cn fo emb ids now source kind n (Suc i) cs)"
    using Cons.IH [OF s1(2), of "Suc i"] Cons.prems(2) by (auto simp: embeds_all_Cons)
  then show ?case
    using s1 emb by (auto simp: io_bind_def io_embed_def chunk_entries_Cons)
qed

lemma remove_tagged_ok:
  assumes "inv s"
  shows "\<exists>s'. remove_tagged so tag es s = (Inr (), s') \<and> inv s' \<and>
    set (view s') = {e \<in> set (view s). \<forall>x \<in> set es. tag \<in> set (mm_tags x) \<longrightarrow> mm_id x \<noteq> mm_id e}"
  using assms
proof (induction es arbitrary: s)
  case Nil
  then show ?case by (simp add: io_ok_def)
next
  case (Cons x es)
  show ?case
  proof (cases "tag \<in> set (mm_tags x)")
    case False
    then show ?thesis using Cons by simp
  next
    case True
    obtain s1 b where s1: "so_remove so (mm_id x) s = (Inr b, s1)" "inv s1"
        "set (view s1) = {e \<in> set (view s). mm_id e \<noteq> mm_id x}"
      using remove_ok [OF Cons.prems] by blast
    obtain s' where "remove_tagged so tag es s1 = (Inr (), s')" "inv s'"
        "set (view s') = {e \<in> set (view s1). \<forall>x \<in> set es. tag \<in> set (mm_tags x) \<longrightarrow> mm_id x \<noteq> mm_id e}"
      using Cons.IH [OF s1(2)] by blast
    then show ?thesis using True s1 by (auto simp: io_bind_def)
  qed
qed

lemma remove_chunks_ok:
  assumes "inv s"
  shows "\<exists>s'. remove_existing_document_chunks so source s = (Inr (), s') \<and> inv s' \<and>
    set (view s') = {e \<in> set (view s). ''source:'' @ source \<notin> set (mm_tags e)}"
proof -
  obtain s' where "remove_tagged so (''source:'' @ source) (view s) s = (Inr (), s')" "inv s'"
      and v: "set (view s') = {e \<in> set (view s). \<forall>x \<in> set (view s). ''source:'' @ source \<in> set (mm_tags x)
        \<longrightarrow> mm_id x \<noteq> mm_id e}"
    using remove_tagged_ok [OF assms] by blast
  moreover have "set (view s') = {e \<in> set (view s). ''source:'' @ source \<notin> set (mm_tags e)}"
    unfolding v using ids_distinct [OF assms] by (auto dest: inj_onD)
  ultimately show ?thesis using all_ok [OF assms] by (auto simp: remove_existing_document_chunks_def io_bind_def)
qed

lemma ingest_ok:
  assumes "inv s" and "classify_document_kind (dc_name dc p) = Some kind" and "dc_read dc p = Some raw"
    and "split_document_chunks raw 1200 200 = Some cs"
    and "embeds_all emb source (length cs) 0 cs"
    and "source = (case dc_canonical dc p of None \<Rightarrow> p | Some q \<Rightarrow> q)"
    and "\<forall>e \<in> set (chunk_entries cn fo emb (ids p) now source kind (length cs) 0 cs).
      fits e \<and> mm_id e \<notin> mm_id ` set (view s)"
    and "distinct (map (ids p) [0..<length cs])"
  shows "\<exists>s'. ingest_document_file cn fo so emb dc ids now p s = Some (Inr (length cs), s') \<and> inv s' \<and>
    set (view s') = {e \<in> set (view s). ''source:'' @ source \<notin> set (mm_tags e)}
      \<union> set (chunk_entries cn fo emb (ids p) now source kind (length cs) 0 cs)"
proof -
  obtain s1 where s1: "remove_existing_document_chunks so source s = (Inr (), s1)" "inv s1"
      "set (view s1) = {e \<in> set (view s). ''source:'' @ source \<notin> set (mm_tags e)}"
    using remove_chunks_ok [OF assms(1)] by blast
  have "\<forall>e \<in> set (chunk_entries cn fo emb (ids p) now source kind (length cs) 0 cs).
      fits e \<and> mm_id e \<notin> mm_id ` set (view s1)"
    using assms(7) s1(3) by auto
  moreover have "distinct (map (ids p) [0..<0 + length cs])" using assms(8) by simp
  ultimately obtain s2 where
      "insert_chunks cn fo so emb (ids p) now source kind (length cs) 0 cs s1 = (Inr (), s2)" "inv s2"
      "set (view s2) = set (view s1) \<union> set (chunk_entries cn fo emb (ids p) now source kind (length cs) 0 cs)"
    using insert_chunks_ok [OF s1(2) assms(5)] by blast
  then show ?thesis
    using assms(2-4) s1 by (auto simp: ingest_document_file_def Let_def assms(6) [symmetric] io_bind_def io_ok_def
        chunk_entries_def)
qed

lemma failed_ingest:
  assumes "inv s" and "classify_document_kind (dc_name dc p) = Some kind" and "dc_read dc p = None"
    and "source = (case dc_canonical dc p of None \<Rightarrow> p | Some q \<Rightarrow> q)"
  shows "\<exists>s'. ingest_document_file cn fo so emb dc ids now p s = Some (Inl (FileError p), s') \<and> inv s' \<and>
    set (view s') = {e \<in> set (view s). ''source:'' @ source \<notin> set (mm_tags e)}"
proof -
  obtain s1 where "remove_existing_document_chunks so source s = (Inr (), s1)" "inv s1"
      "set (view s1) = {e \<in> set (view s). ''source:'' @ source \<notin> set (mm_tags e)}"
    using remove_chunks_ok [OF assms(1)] by blast
  then show ?thesis using assms(2,3) by (simp add: ingest_document_file_def Let_def assms(4) [symmetric])
qed

end

section \<open>The store in memory\<close>

definition in_memory_ops :: "(('c, 'x, 'm) in_memory, 'c, 'x) store_ops" where
  "in_memory_ops = \<lparr>so_insert = in_memory_insert, so_all = in_memory_all, so_remove = in_memory_remove\<rparr>"

interpretation vec: memory_store in_memory_ops im_entries "\<lambda>s. distinct (map mm_id (im_entries s))" "\<lambda>e. True"
  by unfold_locales
    (auto simp: in_memory_ops_def in_memory_insert_def in_memory_all_def in_memory_remove_def Let_def
      distinct_map_filter distinct_map elim: inj_on_subset)

section \<open>The store on PluresDB\<close>

definition plures_ops :: "('s, 'k, 'c, 'x, 'm, 'a, 'i) plures \<Rightarrow> ('s, 'c, 'x) store_ops" where
  "plures_ops p = \<lparr>so_insert = plures_insert p, so_all = plures_entries p, so_remove = plures_remove p\<rparr>"

text \<open>
  What is assumed of the database, the encryption and the codec: the laws of the key-value store, that
  decryption undoes encryption with the own key, and that what was encoded is decoded.
\<close>

definition plures_laws :: "('s, 'k, 'c, 'x, 'm, 'a, 'i) plures \<Rightarrow> ('s \<Rightarrow> string \<rightharpoonup> json) \<Rightarrow> bool" where
  "plures_laws p cview \<longleftrightarrow>
     crdt_laws (pl_db p) cview \<and>
     (\<forall>t k w. sea_encrypt (pl_sea p) t k = Some w \<longrightarrow> sea_decrypt (pl_sea p) w k (sea_epub (pl_sea p) k) = Some t) \<and>
     (\<forall>v t. sc_print (pl_codec p) v = Some t \<longrightarrow> sc_parse (pl_codec p) t = Some v) \<and>
     (\<forall>e j. sc_entry (pl_codec p) e = Some j \<longrightarrow> sc_to_entry (pl_codec p) j = Some e)"

definition plures_unseal :: "('s, 'k, 'c, 'x, 'm, 'a, 'i) plures \<Rightarrow> json \<Rightarrow> memory_error + json" where
  "plures_unseal p = unseal_value (pl_sea p) (pl_codec p) (pl_key p)"

definition plures_seal :: "('s, 'k, 'c, 'x, 'm, 'a, 'i) plures \<Rightarrow> json \<Rightarrow> memory_error + json" where
  "plures_seal p = seal_value (pl_sea p) (pl_codec p) (pl_key p)"

text \<open>Every record can be decrypted, and a memory is stored under its id.\<close>

definition plures_inv ::
    "('s, 'k, 'c, 'x, 'm, 'a, 'i) plures \<Rightarrow> ('s \<Rightarrow> string \<rightharpoonup> json) \<Rightarrow> 's \<Rightarrow> bool" where
  "plures_inv p cview s \<longleftrightarrow>
     (\<forall>k data. cview s k = Some data \<longrightarrow>
        (\<exists>v. plures_unseal p data = Inr v \<and>
          (\<not> prefix turn_prefix k \<longrightarrow> (\<forall>e. sc_to_entry (pl_codec p) v = Some e \<longrightarrow> mm_id e = k))))"

definition plures_view :: "('s, 'k, 'c, 'x, 'm, 'a, 'i) plures \<Rightarrow> 's \<Rightarrow> ('c, 'x) memory list" where
  "plures_view p s = projr (collect_entries p (crdt_list (pl_db p) s))"

text \<open>The memory that a record holds.\<close>

definition held :: "('s, 'k, 'c, 'x, 'm, 'a, 'i) plures \<Rightarrow> json option \<Rightarrow> string \<Rightarrow> ('c, 'x) memory \<Rightarrow> bool" where
  "held p r k e \<longleftrightarrow> (\<exists>data v. r = Some data \<and> \<not> prefix turn_prefix k \<and> plures_unseal p data = Inr v
     \<and> sc_to_entry (pl_codec p) v = Some e)"

definition plures_fits :: "('s, 'k, 'c, 'x, 'm, 'a, 'i) plures \<Rightarrow> ('c, 'x) memory \<Rightarrow> bool" where
  "plures_fits p e \<longleftrightarrow> \<not> prefix turn_prefix (mm_id e)
     \<and> (\<exists>j d. sc_entry (pl_codec p) e = Some j \<and> plures_seal p j = Inr d)"

lemma unseal_seal:
  assumes "plures_laws p cview" and "plures_seal p j = Inr d"
  shows "plures_unseal p d = Inr j"
  using assms
  by (auto simp: plures_seal_def plures_unseal_def seal_value_def unseal_value_def plures_laws_def
      split: option.splits)

lemma collect_entries_Inl:
  "(\<exists>e. collect_entries p rs = Inl e) \<longleftrightarrow> (\<exists>(k, data) \<in> set rs. \<exists>e. plures_unseal p data = Inl e)"
proof (induction rs)
  case (Cons r rs)
  obtain k data where r: "r = (k, data)" by fastforce
  show ?case
  proof (cases "plures_unseal p data")
    case (Inl e)
    then show ?thesis by (auto simp: r plures_unseal_def)
  next
    case (Inr v)
    then show ?thesis
      using Cons.IH by (cases "collect_entries p rs") (auto simp: r plures_unseal_def split: option.splits)
  qed
qed simp

lemma collect_entries_Inr:
  "collect_entries p rs = Inr es \<Longrightarrow>
     set es = {e. \<exists>k data v. (k, data) \<in> set rs \<and> \<not> prefix turn_prefix k \<and>
       plures_unseal p data = Inr v \<and> sc_to_entry (pl_codec p) v = Some e}"
proof (induction rs arbitrary: es)
  case (Cons r rs)
  obtain k data where r: "r = (k, data)" by fastforce
  obtain v where v: "plures_unseal p data = Inr v"
    using Cons.prems by (cases "plures_unseal p data") (auto simp: r plures_unseal_def)
  obtain es0 where es0: "collect_entries p rs = Inr es0"
    using Cons.prems v by (cases "collect_entries p rs") (auto simp: r plures_unseal_def split: if_splits option.splits)
  show ?case
    using Cons.prems Cons.IH [OF es0] v es0
    by (fastforce simp: r plures_unseal_def split: if_splits option.splits)
qed simp

locale plures_store =
  fixes p :: "('s, 'k, 'c, 'x, 'm, 'a, 'i) plures"
    and cview :: "'s \<Rightarrow> string \<rightharpoonup> json"
  assumes laws: "plures_laws p cview"
begin

lemma db_list: "distinct (map fst (crdt_list (pl_db p) s))" "map_of (crdt_list (pl_db p) s) = cview s"
  using laws by (auto simp: plures_laws_def crdt_laws_def)

lemma mem_list: "(k, data) \<in> set (crdt_list (pl_db p) s) \<longleftrightarrow> cview s k = Some data"
  using db_list [of s] by (metis map_of_eq_Some_iff)

lemma all_records:
  assumes "plures_inv p cview s"
  shows "plures_entries p s = (Inr (plures_view p s), s)"
    and "set (plures_view p s) = {e. \<exists>k data v. cview s k = Some data \<and> \<not> prefix turn_prefix k
      \<and> plures_unseal p data = Inr v \<and> sc_to_entry (pl_codec p) v = Some e}"
proof -
  have "\<not> (\<exists>e. collect_entries p (crdt_list (pl_db p) s) = Inl e)"
    unfolding collect_entries_Inl using assms by (fastforce simp: plures_inv_def mem_list)
  then obtain es where es: "collect_entries p (crdt_list (pl_db p) s) = Inr es"
    by (cases "collect_entries p (crdt_list (pl_db p) s)") auto
  then show "plures_entries p s = (Inr (plures_view p s), s)" by (simp add: plures_entries_def plures_view_def)
  show "set (plures_view p s) = {e. \<exists>k data v. cview s k = Some data \<and> \<not> prefix turn_prefix k
      \<and> plures_unseal p data = Inr v \<and> sc_to_entry (pl_codec p) v = Some e}"
    using collect_entries_Inr [OF es] es by (fastforce simp: plures_view_def mem_list)
qed

lemma view_iff:
  assumes "plures_inv p cview s"
  shows "e \<in> set (plures_view p s) \<longleftrightarrow> held p (cview s (mm_id e)) (mm_id e) e"
proof -
  have "mm_id e = k" if "cview s k = Some data" "\<not> prefix turn_prefix k" "plures_unseal p data = Inr v"
    "sc_to_entry (pl_codec p) v = Some e" for k data v
    using assms that by (fastforce simp: plures_inv_def)
  then show ?thesis unfolding all_records(2) [OF assms] held_def by blast
qed

lemma put_record:
  assumes "sc_entry (pl_codec p) e = Some j" and "plures_seal p j = Inr d"
  shows "plures_insert p e s = (Inr (), crdt_put (pl_db p) (mm_id e) actor d s)"
    and "cview (crdt_put (pl_db p) (mm_id e) actor d s) = (cview s)(mm_id e \<mapsto> d)"
    and "plures_unseal p d = Inr j" and "sc_to_entry (pl_codec p) j = Some e"
  using assms laws unseal_seal [OF laws assms(2)]
  by (auto simp: plures_insert_def put_sealed_def plures_seal_def plures_laws_def crdt_laws_def)

lemma delete_record:
  "plures_remove p k s = (Inr (\<not> fst (crdt_delete (pl_db p) k s)), snd (crdt_delete (pl_db p) k s))"
  "cview (snd (crdt_delete (pl_db p) k s)) = (cview s)(k := None)"
  using laws by (auto simp: plures_remove_def plures_laws_def crdt_laws_def split: prod.splits)

end

sublocale plures_store \<subseteq> memory_store "plures_ops p" "plures_view p" "plures_inv p cview" "plures_fits p"
proof unfold_locales
  fix s
  assume "plures_inv p cview s"
  then show "so_all (plures_ops p) s = (Inr (plures_view p s), s)"
    by (simp add: plures_ops_def all_records(1))
next
  fix s e
  assume inv: "plures_inv p cview s" and fits: "plures_fits p e" and new: "mm_id e \<notin> mm_id ` set (plures_view p s)"
  obtain j d where jd: "sc_entry (pl_codec p) e = Some j" "plures_seal p j = Inr d" and nt: "\<not> prefix turn_prefix (mm_id e)"
    using fits by (auto simp: plures_fits_def)
  note put = put_record(1) [OF jd, of s] put_record(2) [OF jd, of s] put_record(3,4) [OF jd]
  let ?s = "crdt_put (pl_db p) (mm_id e) actor d s"
  have inv': "plures_inv p cview ?s"
    using inv put(2-4) by (auto simp: plures_inv_def)
  have "held p (Some d) (mm_id e) x \<longleftrightarrow> x = e" for x
    using put(3,4) nt by (auto simp: held_def)
  then have "x \<in> set (plures_view p ?s) \<longleftrightarrow> x \<in> insert e (set (plures_view p s))" for x
    using new by (cases "mm_id x = mm_id e") (auto simp: view_iff [OF inv'] view_iff [OF inv] put(2), metis view_iff [OF inv] imageI)
  then have "set (plures_view p ?s) = insert e (set (plures_view p s))" by blast
  then show "\<exists>s'. so_insert (plures_ops p) e s = (Inr (), s') \<and> plures_inv p cview s'
      \<and> set (plures_view p s') = insert e (set (plures_view p s))"
    using put(1) inv' by (simp add: plures_ops_def)
next
  fix s k
  assume inv: "plures_inv p cview s"
  let ?s = "snd (crdt_delete (pl_db p) k s)"
  have inv': "plures_inv p cview ?s" using inv by (auto simp: plures_inv_def delete_record(2))
  have "x \<in> set (plures_view p ?s) \<longleftrightarrow> x \<in> set (plures_view p s) \<and> mm_id x \<noteq> k" for x
    by (cases "mm_id x = k") (simp_all add: view_iff [OF inv'] view_iff [OF inv] delete_record(2) held_def)
  then have "set (plures_view p ?s) = {e \<in> set (plures_view p s). mm_id e \<noteq> k}" by blast
  then show "\<exists>s' b. so_remove (plures_ops p) k s = (Inr b, s') \<and> plures_inv p cview s'
      \<and> set (plures_view p s') = {e \<in> set (plures_view p s). mm_id e \<noteq> k}"
    using delete_record(1) [of k s] inv' by (simp add: plures_ops_def)
next
  fix s
  assume inv: "plures_inv p cview s"
  show "inj_on mm_id (set (plures_view p s))"
    by (rule inj_onI) (auto simp: view_iff [OF inv] held_def)
qed

context plures_store
begin

lemma contract: "memory_store (plures_ops p) (plures_view p) (plures_inv p cview) (plures_fits p)"
  by (rule memory_store_axioms)

end

lemma plures_contract:
  assumes "plures_laws p cview"
  shows "memory_store (plures_ops p) (plures_view p) (plures_inv p cview) (plures_fits p)"
proof -
  have "plures_store p cview" using assms by (rule plures_store.intro)
  then show ?thesis by (rule plures_store.contract)
qed

section \<open>A store that is not encrypted\<close>

text \<open>
  The store that the code opens in memory has no key: \<open>PluresDbStore::in_memory\<close>.  Here with an
  association list for the database and a codec for memories with texts as categories.
\<close>

fun unit_entry :: "(string, unit) memory \<Rightarrow> json option" where
  "unit_entry e = Some (JObject
     [(''id'', JString (mm_id e)), (''content'', JString (mm_content e)), (''category'', JString (mm_category e)),
      (''tags'', JArray (map JString (mm_tags e))), (''embedding'', JArray (map (\<lambda>_. JNull) (mm_embedding e))),
      (''created_at'', JString (mm_created_at e))])"

definition json_str :: "json option \<Rightarrow> string" where
  "json_str r = (case r of Some (JString s) \<Rightarrow> s | _ \<Rightarrow> [])"

definition json_list :: "json option \<Rightarrow> json list" where
  "json_list r = (case r of Some (JArray xs) \<Rightarrow> xs | _ \<Rightarrow> [])"

definition unit_to_entry :: "json \<Rightarrow> (string, unit) memory option" where
  "unit_to_entry j =
     (if list_ex (\<lambda>k. json_get k j = None) [''id'', ''content'', ''category'', ''tags'', ''embedding'', ''created_at'']
      then None
      else Some \<lparr>mm_id = json_str (json_get ''id'' j), mm_content = json_str (json_get ''content'' j),
        mm_category = json_str (json_get ''category'' j),
        mm_tags = map (json_str \<circ> Some) (json_list (json_get ''tags'' j)),
        mm_embedding = map (\<lambda>_. ()) (json_list (json_get ''embedding'' j)), mm_score = (),
        mm_created_at = json_str (json_get ''created_at'' j)\<rparr>)"

definition unit_codec :: "(string, unit, unit, unit, unit) store_codec" where
  "unit_codec = \<lparr>sc_print = (\<lambda>_. None), sc_parse = (\<lambda>_. None), sc_entry = unit_entry, sc_to_entry = unit_to_entry,
     sc_turn = (\<lambda>_. None), sc_to_turn = (\<lambda>_. None), sc_adapters = (\<lambda>_. None), sc_to_adapters = (\<lambda>_. None),
     sc_capability = (\<lambda>_. None), sc_to_capability = (\<lambda>_. None)\<rparr>"

definition plain_plures :: "((string \<times> json) list, unit, string, unit, unit, unit, unit) plures" where
  "plain_plures = \<lparr>pl_db = alist_crdt, pl_sea = \<lparr>sea_encrypt = (\<lambda>_ _. None), sea_decrypt = (\<lambda>_ _ _. None),
     sea_epub = (\<lambda>_. [])\<rparr>, pl_codec = unit_codec, pl_key = None\<rparr>"

lemma map_unit: "map (\<lambda>_. ()) us = us"
  by (induction us) auto

lemma unit_round_trip: "unit_entry e = Some j \<Longrightarrow> unit_to_entry j = Some e"
  by (cases e) (auto simp: map_unit comp_def unit_to_entry_def json_str_def json_list_def)

lemma plain_laws: "plures_laws plain_plures map_of"
  by (auto simp: plures_laws_def plain_plures_def alist_crdt_laws unit_codec_def
      simp del: unit_entry.simps dest: unit_round_trip)

interpretation plain: plures_store plain_plures map_of
  by unfold_locales (rule plain_laws)

lemma plain_fits: "plures_fits plain_plures e \<longleftrightarrow> \<not> prefix turn_prefix (mm_id e)"
  by (simp add: plures_fits_def plain_plures_def plures_seal_def seal_value_def unit_codec_def)

lemma plain_empty: "plures_inv plain_plures map_of []" "plures_view plain_plures [] = []"
  by (simp_all add: plures_inv_def plures_view_def plain_plures_def alist_crdt_def)

end
