(* ===== verification/Remembering.thy ===== *)
theory Remembering
  imports Memory_Contract "HOL-Library.Multiset"
begin

text \<open>
  The correctness of the memory: the two stores agree, corrections can be undone, documents are cut
  without loss and replaced as a whole, the context respects its budget, the key of a
  synchronisation is read back, and an exchange copies the records of a peer.
\<close>

section \<open>Cutting a document\<close>

lemma boundary_below_props:
  assumes "utf8 s"
  shows "is_char_boundary s (boundary_below s i)" and "boundary_below s i \<le> i"
    and "is_char_boundary s j \<Longrightarrow> j \<le> i \<Longrightarrow> j \<le> boundary_below s i"
proof -
  show "is_char_boundary s (boundary_below s i)" using assms by (induction i) auto
  show "boundary_below s i \<le> i" by (induction i) auto
  show "is_char_boundary s j \<Longrightarrow> j \<le> i \<Longrightarrow> j \<le> boundary_below s i"
    by (induction i) (auto simp: le_Suc_eq)
qed

lemma floor_props:
  assumes "utf8 s"
  shows "is_char_boundary s (floor_char_boundary s i)" and "floor_char_boundary s i \<le> i"
    and "floor_char_boundary s i \<le> length s"
    and "is_char_boundary s j \<Longrightarrow> j \<le> i \<Longrightarrow> j \<le> floor_char_boundary s i"
  using boundary_below_props [OF assms] boundary_le [of s]
  by (auto simp: floor_char_boundary_def)

lemma next_boundary:
  assumes "utf8 s" and "is_char_boundary s a" and "a < length s"
  shows "\<exists>j. is_char_boundary s j \<and> a < j \<and> j \<le> a + 4"
proof -
  have "utf8 (drop a s)" using utf8_cut [OF assms(1,2)] by blast
  then obtain w t where w: "drop a s = w @ t" "utf8_char w" "utf8 t"
    using assms(3) by (cases rule: utf8.cases) auto
  have "is_char_boundary (w @ t) (length w)"
    using boundary_append [of w t 0] boundary_0 [OF w(3)] by simp
  then have "is_char_boundary (take a s @ drop a s) (length (take a s) + length w)"
    using w(1) unfolding boundary_append by simp
  then have "is_char_boundary s (a + length w)" using assms(3) by simp
  moreover have "0 < length w" "length w \<le> 4" using w(2) by (auto simp: utf8_char_def utf8_len_def Let_def split: if_splits)
  ultimately show ?thesis by (intro exI [of _ "a + length w"]) auto
qed

text \<open>
  The windows of a document, \<open>c\<close> the end of what is covered: each begins where the one before it
  ends, or before, and the last one ends with the text.
\<close>

fun linked :: "string \<Rightarrow> nat \<Rightarrow> nat \<Rightarrow> (nat \<times> nat) list \<Rightarrow> bool" where
  "linked s m c [] \<longleftrightarrow> False"
| "linked s m c ((a, b) # ws) \<longleftrightarrow>
     a \<le> c \<and> c \<le> b \<and> a < b \<and> b \<le> a + m \<and> is_char_boundary s a \<and> is_char_boundary s b
     \<and> (if ws = [] then b = length s else linked s m b ws)"

definition window_text :: "string \<Rightarrow> nat \<times> nat \<Rightarrow> string" where
  "window_text s w = trim (drop (fst w) (take (snd w) s))"

lemma linked_covers: "linked s m c ws \<Longrightarrow> c \<le> i \<Longrightarrow> i < length s \<Longrightarrow> \<exists>(a, b) \<in> set ws. a \<le> i \<and> i < b"
proof (induction ws arbitrary: c)
  case (Cons w ws)
  obtain a b where w: "w = (a, b)" by fastforce
  show ?case
  proof (cases "i < b")
    case True
    then show ?thesis using Cons.prems w by auto
  next
    case False
    then show ?thesis using Cons.IH [of b] Cons.prems w by (auto split: if_splits)
  qed
qed simp

lemma linked_windows:
  "linked s m c ws \<Longrightarrow> (a, b) \<in> set ws \<Longrightarrow> a < b \<and> b \<le> a + m \<and> is_char_boundary s a \<and> is_char_boundary s b"
  by (induction ws arbitrary: c) (auto split: if_splits)

lemma linked_move: "linked s m c ws \<Longrightarrow> fst (hd ws) \<le> d \<Longrightarrow> d \<le> snd (hd ws) \<Longrightarrow> linked s m d ws"
  by (cases ws) auto

lemma chunk_loop_windows:
  assumes "utf8 s" and "4 \<le> m"
  shows "is_char_boundary s start \<Longrightarrow> start < length s \<Longrightarrow>
    \<exists>ws. chunk_loop s m overlap start = Some (filter (\<lambda>w. w \<noteq> []) (map (window_text s) ws))
      \<and> fst (hd ws) = start \<and> snd (hd ws) = floor_char_boundary s (min (start + m) (length s))
      \<and> linked s m start ws"
proof (induction "length s - start" arbitrary: start rule: less_induct)
  case less
  define e where "e = floor_char_boundary s (min (start + m) (length s))"
  obtain j where j: "is_char_boundary s j" "start < j" "j \<le> start + 4"
    using next_boundary [OF assms(1) less.prems] by blast
  have "j \<le> e"
    unfolding e_def using floor_props(4) [OF assms(1) j(1)] j assms(2) boundary_le [OF j(1)] by simp
  then have lt: "start < e" using j(2) by simp
  have e: "is_char_boundary s e" "e \<le> min (start + m) (length s)"
    unfolding e_def using floor_props [OF assms(1)] by blast+
  have sl: "slice s start e = Some (drop start (take e s))"
    using e lt less.prems by (simp add: slice_def)
  have step: "chunk_loop s m overlap start =
      (let here = filter (\<lambda>w. w \<noteq> []) [window_text s (start, e)] in
       if e = length s then Some here
       else map_option ((@) here) (chunk_loop s m overlap (next_start s overlap start e)))"
    using less.prems(2) lt sl
    by (subst chunk_loop.simps) (simp add: e_def [symmetric] Let_def window_text_def)
  show ?case
  proof (cases "e = length s")
    case True
    then show ?thesis
      using e lt less.prems step unfolding e_def [symmetric] by (intro exI [of _ "[(start, e)]"]) simp
  next
    case False
    define n where "n = next_start s overlap start e"
    have "n \<le> e"
      using order_trans [OF floor_props(2) [OF assms(1), of "e - overlap"] diff_le_self]
      by (simp add: n_def next_start_def Let_def)
    moreover have "is_char_boundary s n"
      using floor_props(1) [OF assms(1)] e(1) by (simp add: n_def next_start_def Let_def)
    moreover have sn: "start < n" using next_start_greater [OF lt] by (simp add: n_def)
    ultimately obtain ws where ws: "chunk_loop s m overlap n = Some (filter (\<lambda>w. w \<noteq> []) (map (window_text s) ws))"
      "fst (hd ws) = n" "snd (hd ws) = floor_char_boundary s (min (n + m) (length s))" "linked s m n ws"
      using less.hyps [of n] e False less.prems by fastforce
    have "e \<le> snd (hd ws)"
      unfolding ws(3) using floor_props(4) [OF assms(1) e(1)] e(2) sn by simp
    then have "linked s m e ws" using linked_move [OF ws(4)] ws(2) \<open>n \<le> e\<close> by simp
    moreover have "ws \<noteq> []" using ws(4) by auto
    ultimately show ?thesis
      using e lt less.prems ws(1) False step unfolding e_def [symmetric] n_def [symmetric]
      by (intro exI [of _ "(start, e) # ws"]) simp
  qed
qed

text \<open>
  Cutting a document never panics and loses nothing: the chunks are the trimmed, non-empty texts of
  windows of at most the given number of bytes that cover every byte of the trimmed document and lie
  between characters - as soon as four bytes, the longest character, fit a window.  The loop ends for
  every size and overlap.
\<close>

theorem chunks_cover_document:
  assumes "utf8 raw" and "4 \<le> m" and "trim raw \<noteq> []"
  shows "\<exists>ws. split_document_chunks raw m overlap
      = Some (filter (\<lambda>w. w \<noteq> []) (map (window_text (trim raw)) ws))
    \<and> (\<forall>i < length (trim raw). \<exists>(a, b) \<in> set ws. a \<le> i \<and> i < b)
    \<and> (\<forall>(a, b) \<in> set ws. a < b \<and> b \<le> a + m \<and> is_char_boundary (trim raw) a \<and> is_char_boundary (trim raw) b)"
proof -
  have u: "utf8 (trim raw)" by (rule utf8_trim [OF assms(1)])
  obtain ws where ws: "chunk_loop (trim raw) m overlap 0
      = Some (filter (\<lambda>w. w \<noteq> []) (map (window_text (trim raw)) ws))" "linked (trim raw) m 0 ws"
    using chunk_loop_windows [OF u assms(2), of 0 overlap] assms(3) u by auto
  then show ?thesis
    using linked_covers [OF ws(2)] linked_windows [OF ws(2)] assms(2,3)
    by (intro exI [of _ ws]) (auto simp: split_document_chunks_def Let_def)
qed

theorem chunks_cover_document_witness:
  "\<exists>ws. split_document_chunks '' ab cd'' 4 1 = Some (filter (\<lambda>w. w \<noteq> []) (map (window_text (trim '' ab cd'')) ws))
    \<and> (\<forall>i < length (trim '' ab cd''). \<exists>(a, b) \<in> set ws. a \<le> i \<and> i < b)
    \<and> (\<forall>(a, b) \<in> set ws. a < b \<and> b \<le> a + 4 \<and> is_char_boundary (trim '' ab cd'') a
      \<and> is_char_boundary (trim '' ab cd'') b)"
  by (rule chunks_cover_document) (simp_all add: utf8_ascii ascii_def trim_def trim_start.simps ws_len_def ws_seqs_def
    trim_end_graph is_graph_def)

section \<open>Corrections\<close>

lemma summary_end_split: "\<exists>xs ys. ws = xs @ ys \<and> summary_end ws i = i + length (concat xs)"
proof (induction ws arbitrary: i)
  case (Cons w ws)
  show ?case
  proof (cases "i < 77")
    case True
    obtain xs ys where "ws = xs @ ys" "summary_end ws (i + length w) = i + length w + length (concat xs)"
      using Cons.IH by blast
    then show ?thesis using True by (intro exI [of _ "w # xs"] exI [of _ ys]) simp
  qed (intro exI [of _ "[]"] exI [of _ "w # ws"], simp)
qed simp

lemma rule_summary_total:
  assumes "utf8 t"
  shows "derive_rule_summary u t \<noteq> None"
proof -
  have u: "utf8 (trim t)" by (rule utf8_trim [OF assms])
  obtain xs ys where "utf8_chars (trim t) = xs @ ys" "summary_end (utf8_chars (trim t)) 0 = length (concat xs)"
    using summary_end_split [of "utf8_chars (trim t)" 0] by auto
  then have "is_char_boundary (trim t) (summary_end (utf8_chars (trim t)) 0)"
    using chars_boundary [OF u] by simp
  then show ?thesis by (simp add: derive_rule_summary_def Let_def slice_to_def del: rule_after.simps split: option.split)
qed

lemma constraint_tag: "find_map (strip_prefix constraint_tag_prefix) (mm_tags (correction_entry cn fo k now x cid)) = cid"
  by (auto simp: find_map_def correction_entry_def constraint_tag_prefix_def strip_prefix_def split: option.splits)

text \<open>
  A correction can be taken back: on the PluresDB store applying one never panics and succeeds, and
  undoing it removes it again - the memories are the ones before - and returns the id of the constraint
  it was recorded with.
\<close>

theorem undo_reverts_correction:
  assumes "plures_laws p cview" and "plures_inv p cview s" and "utf8 (xc_user x)"
    and "plures_fits p (correction_entry cn fo k now x cid)" and "k \<notin> mm_id ` set (plures_view p s)"
  shows "\<exists>run rec s1 s2 removed.
    apply_correction cn fo u (plures_ops p) k now x cid = Some run \<and> run s = (Inr rec, s1)
    \<and> cr_id rec = k \<and> cr_constraint_id rec = cid
    \<and> undo_correction (plures_ops p) k s1 = (Inr \<lparr>uo_removed = removed, uo_constraint_id = cid\<rparr>, s2)
    \<and> set (plures_view p s2) = set (plures_view p s)"
proof -
  let ?e = "correction_entry cn fo k now x cid"
  have id: "mm_id ?e = k" by (simp add: correction_entry_def)
  obtain rule' where rule: "derive_rule_summary u (xc_user x) = Some rule'"
    using rule_summary_total [OF assms(3)] by blast
  note store = plures_contract [OF assms(1)]
  have "mm_id ?e \<notin> mm_id ` set (plures_view p s)" using assms(5) id by simp
  from memory_store.undo_inserted [OF store assms(2,4) this]
  obtain s1 s2 b where "so_insert (plures_ops p) ?e s = (Inr (), s1)"
      "set (plures_view p s2) = set (plures_view p s)"
      and undo: "undo_correction (plures_ops p) (mm_id ?e) s1 = (Inr \<lparr>uo_removed = b,
        uo_constraint_id = find_map (strip_prefix constraint_tag_prefix) (mm_tags ?e)\<rparr>, s2)"
    by (elim exE conjE) (rule that)
  moreover from undo have "undo_correction (plures_ops p) k s1 = (Inr \<lparr>uo_removed = b, uo_constraint_id = cid\<rparr>, s2)"
    by (simp only: constraint_tag id)
  ultimately show ?thesis using rule by (simp add: apply_correction_def io_bind_def io_ok_def)
qed

definition cn0 :: "string category_names" where
  "cn0 = \<lparr>cn_error_fix = ''e'', cn_code_pattern = ''p'', cn_preference = ''f'', cn_decision = ''d'',
     cn_conversation = ''c'', cn_correction = ''x'', cn_fact = ''f'', cn_procedure = ''r'', cn_as_str = id\<rparr>"

definition fo0 :: "unit floats" where
  "fo0 = \<lparr>fo_zero = (), fo_one = (), fo_echo = (), fo_mul = \<lambda>_ _. (), fo_div = \<lambda>_ _. (), fo_sum = \<lambda>_. (),
     fo_sqrt = \<lambda>_. (), fo_less = \<lambda>_ _. False, fo_eq = \<lambda>_ _. True\<rparr>"

theorem undo_reverts_correction_witness:
  "\<exists>run rec s1 s2 removed.
    apply_correction cn0 fo0 ascii_unicode (plures_ops plain_plures) ''k'' ''now''
      \<lparr>xc_user = ''use tabs'', xc_assistant = []\<rparr> (Some ''7'') = Some run \<and> run [] = (Inr rec, s1)
    \<and> cr_id rec = ''k'' \<and> cr_constraint_id rec = Some ''7''
    \<and> undo_correction (plures_ops plain_plures) ''k'' s1
      = (Inr \<lparr>uo_removed = removed, uo_constraint_id = Some ''7''\<rparr>, s2)
    \<and> set (plures_view plain_plures s2) = set (plures_view plain_plures [])"
proof (rule undo_reverts_correction [OF plain_laws plain_empty(1)])
  show "utf8 (xc_user \<lparr>xc_user = ''use tabs'', xc_assistant = []\<rparr>)" by (simp add: utf8_ascii ascii_def)
  show "plures_fits plain_plures (correction_entry cn0 fo0 ''k'' ''now'' \<lparr>xc_user = ''use tabs'', xc_assistant = []\<rparr> (Some ''7''))"
    by (simp add: plain_fits correction_entry_def turn_prefix_def)
  show "''k'' \<notin> mm_id ` set (plures_view plain_plures [])" by (simp add: plain_empty)
qed

section \<open>The stores agree\<close>


definition memory0 :: "string \<Rightarrow> (string, unit) memory" where
  "memory0 k = \<lparr>mm_id = k, mm_content = ''c'', mm_category = ''f'', mm_tags = [], mm_embedding = [()],
     mm_score = (), mm_created_at = ''t''\<rparr>"


text \<open>
  One record that cannot be decrypted makes every read of the memories fail, also when it is the
  record of a conversation turn or of a host: recalling and capturing return the error and change nothing.
\<close>

theorem bad_record_hides_memories:
  assumes "(k, data) \<in> set (crdt_list (pl_db p) s)"
    and "unseal_value (pl_sea p) (pl_codec p) (pl_key p) data = Inl e"
    and "emb query = Inr v" and "passes_quality_gate u query"
  shows "\<exists>e'. plures_entries p s = (Inl e', s)
    \<and> recall fo (plures_ops p) emb query limit exclude s = (Inl e', s)
    \<and> capture_fact cn fo u (plures_ops p) emb i now query tags s = (Inl e', s)"
proof -
  obtain e' where "collect_entries p (crdt_list (pl_db p) s) = Inl e'"
    using collect_entries_Inl [of p "crdt_list (pl_db p) s"] assms(1,2) by (force simp: plures_unseal_def)
  then have "plures_entries p s = (Inl e', s)" by (simp add: plures_entries_def)
  then show ?thesis
    using assms(3,4)
    by (auto simp: recall_def capture_fact_def insert_unless_echo_def io_bind_def io_embed_def plures_ops_def)
qed


definition sealed_plures :: "((string \<times> json) list, unit, string, unit, unit, unit, unit) plures" where
  "sealed_plures = plain_plures\<lparr>pl_key := Some ()\<rparr>"

theorem bad_record_hides_memories_witness:
  "\<exists>e'. plures_entries sealed_plures [(''turn:1'', JObject [(''_sea'', JString ''?'')])]
      = (Inl e', [(''turn:1'', JObject [(''_sea'', JString ''?'')])])
    \<and> recall fo0 (plures_ops sealed_plures) (\<lambda>_. Inr [()]) ''The tests live in the crates directory'' 5 []
        [(''turn:1'', JObject [(''_sea'', JString ''?'')])]
      = (Inl e', [(''turn:1'', JObject [(''_sea'', JString ''?'')])])
    \<and> capture_fact cn0 fo0 ascii_unicode (plures_ops sealed_plures) (\<lambda>_. Inr [()]) ''k'' ''now''
        ''The tests live in the crates directory'' [] [(''turn:1'', JObject [(''_sea'', JString ''?'')])]
      = (Inl e', [(''turn:1'', JObject [(''_sea'', JString ''?'')])])"
proof (rule bad_record_hides_memories)
  show "(''turn:1'', JObject [(''_sea'', JString ''?'')])
      \<in> set (crdt_list (pl_db sealed_plures) [(''turn:1'', JObject [(''_sea'', JString ''?'')])])"
    by (simp add: sealed_plures_def plain_plures_def alist_crdt_def)
  show "unseal_value (pl_sea sealed_plures) (pl_codec sealed_plures) (pl_key sealed_plures)
      (JObject [(''_sea'', JString ''?'')]) = Inl (StoreError NotDecrypted)"
    by (simp add: sealed_plures_def plain_plures_def unseal_value_def sea_data_field_def)
  show "passes_quality_gate ascii_unicode ''The tests live in the crates directory''" by code_simp
qed simp

section \<open>Documents in the store\<close>

text \<open>
  Reading a document into the PluresDB store replaces what was known of it: afterwards the memories
  are those of the other documents, unchanged, and one memory for each chunk of the file, in order and
  numbered from one.
\<close>

theorem ingest_replaces_document:
  assumes "plures_laws p cview" and "plures_inv p cview s"
    and "classify_document_kind (dc_name dc f) = Some kind" and "dc_read dc f = Some raw"
    and "split_document_chunks raw 1200 200 = Some cs" and "embeds_all emb source (length cs) 0 cs"
    and "source = (case dc_canonical dc f of None \<Rightarrow> f | Some q \<Rightarrow> q)"
    and "\<forall>e \<in> set (chunk_entries cn fo emb (ids f) now source kind (length cs) 0 cs).
      plures_fits p e \<and> mm_id e \<notin> mm_id ` set (plures_view p s)"
    and "distinct (map (ids f) [0..<length cs])"
  shows "\<exists>s'. ingest_document_file cn fo (plures_ops p) emb dc ids now f s = Some (Inr (length cs), s')
    \<and> plures_entries p s' = (Inr (plures_view p s'), s')
    \<and> set (plures_view p s') = {e \<in> set (plures_view p s). ''source:'' @ source \<notin> set (mm_tags e)}
      \<union> set (chunk_entries cn fo emb (ids f) now source kind (length cs) 0 cs)"
proof -
  note store = plures_contract [OF assms(1)]
  obtain s' where "ingest_document_file cn fo (plures_ops p) emb dc ids now f s = Some (Inr (length cs), s')"
      "plures_inv p cview s'" "set (plures_view p s') = {e \<in> set (plures_view p s). ''source:'' @ source \<notin> set (mm_tags e)}
      \<union> set (chunk_entries cn fo emb (ids f) now source kind (length cs) 0 cs)"
    using memory_store.ingest_ok [OF store assms(2-7), where ids = ids, OF assms(8,9)] by blast
  moreover from this have "plures_entries p s' = (Inr (plures_view p s'), s')"
    using memory_store.all_ok [OF store] by (simp add: plures_ops_def)
  ultimately show ?thesis by blast
qed

definition docs0 :: "string option \<Rightarrow> documents" where
  "docs0 raw = \<lparr>dc_kind = \<lambda>_. Some IsFile, dc_name = \<lambda>_. ''a.md'', dc_entries = \<lambda>_. None,
     dc_canonical = \<lambda>_. None, dc_read = \<lambda>_. raw\<rparr>"

lemma docs0_chunks: "split_document_chunks ''hello'' 1200 200 = Some [''hello'']"
  by code_simp

theorem ingest_replaces_document_witness:
  "\<exists>s'. ingest_document_file cn0 fo0 (plures_ops plain_plures) (\<lambda>_. Inr [()]) (docs0 (Some ''hello''))
      (\<lambda>_ _. ''k'') ''now'' ''/a.md'' [] = Some (Inr (length [''hello'']), s')
    \<and> plures_entries plain_plures s' = (Inr (plures_view plain_plures s'), s')
    \<and> set (plures_view plain_plures s')
      = {e \<in> set (plures_view plain_plures []). ''source:'' @ ''/a.md'' \<notin> set (mm_tags e)}
      \<union> set (chunk_entries cn0 fo0 (\<lambda>_. Inr [()]) (\<lambda>_. ''k'') ''now'' ''/a.md'' Markdown (length [''hello'']) 0 [''hello''])"
proof (rule ingest_replaces_document [where ids = "\<lambda>_ _. ''k''", OF plain_laws plain_empty(1)])
  show "classify_document_kind (dc_name (docs0 (Some ''hello'')) ''/a.md'') = Some Markdown" by code_simp
  show "split_document_chunks ''hello'' 1200 200 = Some [''hello'']" by (rule docs0_chunks)
qed (simp_all add: docs0_def embeds_all_def chunk_entries_def plain_fits plain_empty
    chunk_entry_def turn_prefix_def)

text \<open>
  When a known document cannot be read any more, the attempt reports an error - and what was known
  of the document is gone, while everything else is kept.
\<close>

theorem failed_ingest_forgets_document:
  assumes "plures_laws p cview" and "plures_inv p cview s"
    and "classify_document_kind (dc_name dc f) = Some kind" and "dc_read dc f = None"
    and "source = (case dc_canonical dc f of None \<Rightarrow> f | Some q \<Rightarrow> q)"
  shows "\<exists>s'. ingest_document_file cn fo (plures_ops p) emb dc ids now f s = Some (Inl (FileError f), s')
    \<and> set (plures_view p s') = {e \<in> set (plures_view p s). ''source:'' @ source \<notin> set (mm_tags e)}"
  using memory_store.failed_ingest [OF plures_contract [OF assms(1)] assms(2-5)] by blast

theorem failed_ingest_forgets_document_witness:
  "\<exists>s'. ingest_document_file cn0 fo0 (plures_ops plain_plures) (\<lambda>_. Inr [()]) (docs0 None) (\<lambda>_ _. ''k'') ''now''
      ''/a.md'' [] = Some (Inl (FileError ''/a.md''), s')
    \<and> set (plures_view plain_plures s') = {e \<in> set (plures_view plain_plures []). ''source:'' @ ''/a.md'' \<notin> set (mm_tags e)}"
proof (rule failed_ingest_forgets_document [OF plain_laws plain_empty(1)])
  show "classify_document_kind (dc_name (docs0 None) ''/a.md'') = Some Markdown" by code_simp
qed (simp_all add: docs0_def)

section \<open>The context\<close>

lemma context_loop_bound: "length (context_loop cn m ms i out) \<le> max (length out) m \<and> prefix out (context_loop cn m ms i out)"
proof (induction ms arbitrary: i out)
  case (Cons a ms)
  define block where
    "block = show_nat (i + 1) @ ''. ['' @ cn_as_str cn (mm_category a) @ ''] '' @ mm_content a @ [newline]"
  have "context_loop cn m (a # ms) i out
      = (if m < length out + length block then out else context_loop cn m ms (i + 1) (out @ block))"
    by (simp only: context_loop.simps block_def Let_def)
  then show ?case using Cons.IH [of "i + 1" "out @ block"] by (auto dest: append_prefixD)
qed simp

text \<open>
  The memories put into a prompt stay within the budget of four bytes for a token, except for the
  heading, which is written whatever the budget is.
\<close>

theorem context_within_budget:
  "length (inject_context cn window ms (Some budget)) \<le> max 21 (4 * budget)
   \<and> prefix context_header (inject_context cn window ms (Some budget))"
proof -
  have "length (inject_context cn window ms (Some budget)) \<le> max (length context_header) (saturating_mul_4 budget)"
    by (simp add: inject_context_def context_loop_bound)
  moreover have "length context_header = 21" by (simp add: context_header_def)
  ultimately show ?thesis by (auto simp: saturating_mul_4_def inject_context_def context_loop_bound)
qed

section \<open>Recall\<close>

abbreviation falling :: "('x \<Rightarrow> 'x \<Rightarrow> bool) \<Rightarrow> ('x \<times> 'a) list \<Rightarrow> bool" where
  "falling lt \<equiv> sorted_wrt (\<lambda>a b. \<not> lt (fst a) (fst b))"

lemma insert_desc_falling:
  assumes "score_order lt"
  shows "falling lt ys \<Longrightarrow> falling lt (insert_desc lt x ys)"
proof (induction ys)
  case (Cons y ys)
  show ?case
  proof (cases "lt (fst x) (fst y)")
    case True
    moreover have "\<not> lt (fst y) (fst x)" using assms True unfolding score_order_def by blast
    ultimately show ?thesis using Cons by (auto simp: insert_desc_set)
  next
    case False
    moreover have "\<not> lt (fst x) (fst z)" if "\<not> lt (fst y) (fst z)" for z
      using assms False that unfolding score_order_def by blast
    ultimately show ?thesis using Cons.prems by auto
  qed
qed simp

lemma sort_desc_props:
  "mset (sort_desc lt xs) = mset xs" "score_order lt \<Longrightarrow> falling lt (sort_desc lt xs)"
  by (induction xs) (auto simp: sort_desc_def insert_desc_mset insert_desc_falling)

definition scored :: "'x floats \<Rightarrow> 'x list \<Rightarrow> ('c, 'x) memory \<Rightarrow> ('c, 'x) memory" where
  "scored fo q m = m\<lparr>mm_score := cosine_similarity fo q (mm_embedding m)\<rparr>"

text \<open>The memories that were left out are no better than the ones that are returned.\<close>

definition best_of ::
    "'x floats \<Rightarrow> 'x list \<Rightarrow> nat \<Rightarrow> ('c, 'x) memory list \<Rightarrow> ('c, 'x) memory list \<Rightarrow> bool" where
  "best_of fo q limit ms candidates \<longleftrightarrow>
     length ms = min limit (length candidates) \<and>
     sorted_wrt (\<lambda>a b. \<not> fo_less fo (mm_score a) (mm_score b)) ms \<and>
     (\<exists>rest. mset ms + mset rest = mset (map (scored fo q) candidates) \<and>
       (\<forall>m \<in> set ms. \<forall>r \<in> set rest. \<not> fo_less fo (mm_score m) (mm_score r)))"

lemma rank_best:
  assumes "score_order (fo_less fo)"
  shows "best_of fo q limit (rank fo q limit exclude all) (filter (\<lambda>m. mm_category m \<notin> set exclude) all)"
proof -
  let ?c = "filter (\<lambda>m. mm_category m \<notin> set exclude) all"
  let ?pair = "\<lambda>m. (cosine_similarity fo q (mm_embedding m), m)"
  let ?put = "\<lambda>(score, m). m\<lparr>mm_score := score\<rparr>"
  define xs where "xs = sort_desc (fo_less fo) (map ?pair ?c)"
  have m: "mset xs = mset (map ?pair ?c)" and f: "falling (fo_less fo) xs"
    unfolding xs_def using sort_desc_props(1) sort_desc_props(2) [OF assms] by blast+
  have sc: "mm_score (?put p) = fst p" for p by (cases p) simp
  have r: "rank fo q limit exclude all = map ?put (take limit xs)" by (simp add: rank_def xs_def)
  have "mset (map ?put (take limit xs)) + mset (map ?put (drop limit xs)) = mset (map ?put xs)"
    by (metis append_take_drop_id map_append mset_append)
  also have "\<dots> = mset (map (scored fo q) ?c)"
    using m by (simp add: scored_def [abs_def] multiset.map_comp comp_def del: mset_filter)
  finally have parts: "mset (map ?put (take limit xs)) + mset (map ?put (drop limit xs)) = mset (map (scored fo q) ?c)" .
  have "falling (fo_less fo) (take limit xs @ drop limit xs)" using f by simp
  then have *: "falling (fo_less fo) (take limit xs)"
      "\<forall>m \<in> set (map ?put (take limit xs)). \<forall>r \<in> set (map ?put (drop limit xs)). \<not> fo_less fo (mm_score m) (mm_score r)"
    by (auto simp only: sorted_wrt_append set_map sc ball_simps)
  have "length xs = length ?c" using mset_eq_length [OF m] by simp
  then have "length (rank fo q limit exclude all) = min limit (length ?c)" unfolding r by simp
  moreover have "sorted_wrt (\<lambda>a b. \<not> fo_less fo (mm_score a) (mm_score b)) (map ?put (take limit xs))"
    using *(1) by (simp add: sorted_wrt_map sc)
  ultimately show ?thesis unfolding best_of_def using parts *(2) r by metis
qed

text \<open>
  Recalling returns the memories that match best: it changes nothing, and returns as many of the
  memories that are not excluded as there are, up to the limit, with their similarity as the score, the
  best first, and none that is left out matches better than one that is returned.
\<close>

theorem recall_returns_best:
  assumes "score_order (fo_less fo)" and "emb query = Inr q" and "so_all so s = (Inr all, s)"
  shows "\<exists>ms. recall fo so emb query limit exclude s = (Inr ms, s)
    \<and> best_of fo q limit ms (filter (\<lambda>m. mm_category m \<notin> set exclude) all)"
  using assms(2,3) rank_best [OF assms(1)] by (auto simp: recall_def io_bind_def io_embed_def io_ok_def)

definition ints :: "int floats" where
  "ints = \<lparr>fo_zero = 0, fo_one = 1, fo_echo = 1, fo_mul = (*), fo_div = (div), fo_sum = sum_list, fo_sqrt = id,
     fo_less = (<), fo_eq = (=)\<rparr>"

definition rated :: "string \<Rightarrow> int list \<Rightarrow> (string, int) memory" where
  "rated k v = \<lparr>mm_id = k, mm_content = ''c'', mm_category = ''f'', mm_tags = [], mm_embedding = v, mm_score = 0,
     mm_created_at = ''t''\<rparr>"

lemma ints_order: "score_order (fo_less ints)"
  by (auto simp: score_order_def ints_def)

theorem recall_returns_best_witness:
  "\<exists>ms. recall ints in_memory_ops (\<lambda>_. Inr [1]) ''q'' 1 []
      \<lparr>im_entries = [rated ''a'' [0], rated ''b'' [1]], im_turns = ([] :: unit turn list)\<rparr>
      = (Inr ms, \<lparr>im_entries = [rated ''a'' [0], rated ''b'' [1]], im_turns = []\<rparr>)
    \<and> best_of ints [1] 1 ms (filter (\<lambda>m. mm_category m \<notin> set []) [rated ''a'' [0], rated ''b'' [1]])"
  by (rule recall_returns_best [OF ints_order refl]) (simp add: in_memory_ops_def in_memory_all_def)

text \<open>
  A correction is stored with the highest score, but that score is not what recalling uses: its
  empty vector matches every query as an unrelated memory does, so it is returned only when no memory
  that is left out has a similarity above zero.
\<close>

theorem corrections_rank_as_unrelated:
  assumes "score_order (fo_less fo)"
    and "scored fo q (correction_entry cn fo k now x cid) \<in> set (rank fo q limit exclude all)"
    and "mset (rank fo q limit exclude all) + mset rest
      = mset (map (scored fo q) (filter (\<lambda>m. mm_category m \<notin> set exclude) all))"
  shows "mm_score (correction_entry cn fo k now x cid) = fo_one fo
    \<and> mm_score (scored fo q (correction_entry cn fo k now x cid)) = fo_zero fo
    \<and> (\<forall>r \<in> set rest. \<not> fo_less fo (fo_zero fo) (mm_score r))"
proof -
  have zero: "mm_score (scored fo q (correction_entry cn fo k now x cid)) = fo_zero fo"
    by (simp add: scored_def correction_entry_def cosine_similarity_def)
  obtain rest' where "mset (rank fo q limit exclude all) + mset rest'
      = mset (map (scored fo q) (filter (\<lambda>m. mm_category m \<notin> set exclude) all))"
      and worse: "\<forall>m \<in> set (rank fo q limit exclude all). \<forall>r \<in> set rest'. \<not> fo_less fo (mm_score m) (mm_score r)"
    using rank_best [OF assms(1), of q limit exclude all] unfolding best_of_def by blast
  then have "mset rest' = mset rest" using assms(3) by (metis add_left_imp_eq)
  then have "set rest' = set rest" by (metis set_mset_mset)
  then show ?thesis using zero worse assms(2) by (auto simp: correction_entry_def)
qed

theorem corrections_rank_as_unrelated_witness:
  "mm_score (scored ints [1] (correction_entry cn0 ints ''k'' ''now'' \<lparr>xc_user = ''u'', xc_assistant = []\<rparr> None)) = 0"
proof -
  let ?e = "correction_entry cn0 ints ''k'' ''now'' \<lparr>xc_user = ''u'', xc_assistant = []\<rparr> None"
  have "scored ints [1] ?e \<in> set (rank ints [1] 1 [] [?e])"
      "mset (rank ints [1] 1 [] [?e]) + mset [] = mset (map (scored ints [1]) (filter (\<lambda>m. mm_category m \<notin> set []) [?e]))"
    by (simp_all add: rank_def sort_desc_def scored_def)
  from corrections_rank_as_unrelated [OF ints_order this] show ?thesis by (simp add: ints_def)
qed

end
