(* ===== verification/Replication.thy ===== *)
theory Replication
  imports Memory_Contract
begin

text \<open>
  The exchange of the memory with a peer: the key of the topic is read back from its text, and an
  exchange brings the receiver to the values of the sender.
\<close>

section \<open>Laws of the wire\<close>

text \<open>
  What is assumed of the replicator: the base64 text and the envelope are read back, and a message
  that was encoded is decoded to the one record with the same fields.
\<close>

definition wire_laws :: "'k sea \<Rightarrow> replicator \<Rightarrow> bool" where
  "wire_laws sea rp \<longleftrightarrow>
     (\<forall>t k w. sea_encrypt sea t k = Some w \<longrightarrow> sea_decrypt sea w k (sea_epub sea k) = Some t) \<and>
     (\<forall>b. rp_b64_decode rp (rp_b64_encode rp b) = Some b) \<and>
     (\<forall>ev b. rp_envelope rp ev = Some b \<longrightarrow> rp_to_envelope rp b = Some ev) \<and>
     (\<forall>k kvs b. rp_encode_put rp k (JObject kvs) = Some b \<longrightarrow>
        (\<exists>kvs'. rp_decode rp b = Some (Put [(k, kvs')]) \<and> map_of kvs' = map_of kvs))"

lemma payload_read_back:
  assumes "wire_laws sea rp" and "wire_laws sea' rp"
    and "encrypt_sync_payload sea rp k b = Inr bytes" and "sea_decrypt sea' = sea_decrypt sea"
  shows "decrypt_sync_payload sea' rp k bytes = Inr b"
  using assms
  by (auto simp: encrypt_sync_payload_def decrypt_sync_payload_def wire_laws_def split: option.splits)

text \<open>The sealed value shows the same fields as an object.\<close>

definition shows_fields ::
    "('s, 'k, 'c, 'x, 'm, 'a, 'i) plures \<Rightarrow> json option \<Rightarrow> (string \<times> json) list \<Rightarrow> bool" where
  "shows_fields p r kvs \<longleftrightarrow>
     (\<exists>data kvs'. r = Some data \<and> plures_unseal p data = Inr (JObject kvs') \<and> map_of kvs' = map_of kvs)"

definition all_objects :: "('s, 'k, 'c, 'x, 'm, 'a, 'i) plures \<Rightarrow> (string \<times> json) list \<Rightarrow> bool" where
  "all_objects p rs \<longleftrightarrow> (\<forall>(k, data) \<in> set rs. \<exists>kvs. plures_unseal p data = Inr (JObject kvs))"

definition seals_all :: "('s, 'k, 'c, 'x, 'm, 'a, 'i) plures \<Rightarrow> bool" where
  "seals_all p \<longleftrightarrow> (\<forall>v. \<exists>d. plures_seal p v = Inr d)"

lemma store_one:
  assumes "plures_laws q qview" and "seals_all q"
  shows "\<exists>d. store_nodes q [(k, kvs)] t = (Inr (), crdt_put (pl_db q) k actor d t)
    \<and> qview (crdt_put (pl_db q) k actor d t) = (qview t)(k \<mapsto> d) \<and> plures_unseal q d = Inr (JObject kvs)"
proof -
  obtain d where d: "plures_seal q (JObject kvs) = Inr d" using assms(2) by (auto simp: seals_all_def)
  moreover have "plures_unseal q d = Inr (JObject kvs)" by (rule unseal_seal [OF assms(1) d])
  moreover have "qview (crdt_put (pl_db q) k actor d t) = (qview t)(k \<mapsto> d)"
    using assms(1) by (simp add: plures_laws_def crdt_laws_def)
  ultimately show ?thesis by (auto simp: plures_seal_def)
qed

lemma exchange_loop:
  assumes laws: "plures_laws q qview" "seals_all q" "wire_laws (pl_sea p) rp" "pl_sea q = pl_sea p"
  shows "send_records p rp k sends rs n = (None, sent) \<Longrightarrow> all_objects p rs \<Longrightarrow> distinct (map fst rs) \<Longrightarrow>
    \<exists>t'. receive_loop q rp k (map Payload sent @ [Closed]) t = (Inr (), t')
      \<and> (\<forall>(i, data) \<in> set rs. \<forall>kvs. plures_unseal p data = Inr (JObject kvs) \<longrightarrow> shows_fields q (qview t' i) kvs)
      \<and> (\<forall>i. i \<notin> fst ` set rs \<longrightarrow> qview t' i = qview t i)"
proof (induction rs arbitrary: n sent t)
  case Nil
  then show ?case by simp
next
  case (Cons r rs)
  obtain i data where r: "r = (i, data)" by fastforce
  obtain kvs where kvs: "plures_unseal p data = Inr (JObject kvs)"
    using Cons.prems(2) by (auto simp: all_objects_def r)
  obtain b bytes sent' where b: "rp_encode_put rp i (JObject kvs) = Some b"
    and bytes: "encrypt_sync_payload (pl_sea p) rp k b = Inr bytes"
    and sent': "send_records p rp k sends rs (Suc n) = (None, sent')" "sent = bytes # sent'"
    using Cons.prems(1) kvs
    by (auto simp: r plures_unseal_def map_prod_def split: option.splits sum.splits if_splits prod.splits)
  obtain kvs' where put: "rp_decode rp b = Some (Put [(i, kvs')])" and same: "map_of kvs' = map_of kvs"
    using laws(3) b unfolding wire_laws_def by blast
  obtain d where d: "store_nodes q [(i, kvs')] t = (Inr (), crdt_put (pl_db q) i actor d t)"
      "qview (crdt_put (pl_db q) i actor d t) = (qview t)(i \<mapsto> d)" "plures_unseal q d = Inr (JObject kvs')"
    using store_one [OF laws(1,2)] by blast
  let ?t = "crdt_put (pl_db q) i actor d t"
  have "all_objects p rs" "distinct (map fst rs)" and new: "i \<notin> fst ` set rs"
    using Cons.prems(2,3) by (auto simp: all_objects_def r)
  then obtain t' where t': "receive_loop q rp k (map Payload sent' @ [Closed]) ?t = (Inr (), t')"
      "\<forall>(j, data) \<in> set rs. \<forall>kvs. plures_unseal p data = Inr (JObject kvs) \<longrightarrow> shows_fields q (qview t' j) kvs"
      "\<forall>j. j \<notin> fst ` set rs \<longrightarrow> qview t' j = qview ?t j"
    using Cons.IH [OF sent'(1), of ?t] by blast
  have "decrypt_sync_payload (pl_sea q) rp k bytes = Inr b"
    using payload_read_back [OF laws(3) laws(3) bytes] by (simp add: laws(4))
  then have "receive_loop q rp k (map Payload sent @ [Closed]) t = (Inr (), t')"
    using put d(1) t'(1) by (simp add: sent'(2))
  moreover have "shows_fields q (qview t' i) kvs"
    using t'(3) new d(2,3) same by (auto simp: shows_fields_def)
  ultimately show ?case using t'(2,3) d(2) kvs by (intro exI [of _ t']) (auto simp: r)
qed

text \<open>
  An exchange brings the receiver to the values of the sender: when every record was sent, the
  receiver ends without an error, shows for every record of the sender the sender's fields, sealed with
  its own key - whatever it had under that id before - and has left every other record alone.
\<close>

theorem exchange_copies_records:
  assumes "plures_laws p pview" and "plures_laws q qview" and "seals_all q"
    and "wire_laws (pl_sea p) rp" and "pl_sea q = pl_sea p"
    and "all_objects p (crdt_list (pl_db p) s)"
    and "fst (send_records p rp k sends (crdt_list (pl_db p) s) 0) = None"
    and "fst (sync_connection p rp k sends True xs s) = sent"
  shows "\<exists>t'. receive_loop q rp k (map Payload sent @ [Closed]) t = (Inr (), t')
    \<and> (\<forall>i data kvs. pview s i = Some data \<longrightarrow> plures_unseal p data = Inr (JObject kvs) \<longrightarrow>
        shows_fields q (qview t' i) kvs)
    \<and> (\<forall>i. pview s i = None \<longrightarrow> qview t' i = qview t i)"
proof -
  have db: "distinct (map fst (crdt_list (pl_db p) s))" "map_of (crdt_list (pl_db p) s) = pview s"
    using assms(1) by (simp_all add: plures_laws_def crdt_laws_def)
  have "send_records p rp k sends (crdt_list (pl_db p) s) 0 = (None, sent)"
    using assms(7,8) by (cases "send_records p rp k sends (crdt_list (pl_db p) s) 0") (simp add: sync_connection_def)
  from exchange_loop [OF assms(2-5) this assms(6) db(1), of t]
  obtain t' where "receive_loop q rp k (map Payload sent @ [Closed]) t = (Inr (), t')"
      "\<forall>(i, data) \<in> set (crdt_list (pl_db p) s). \<forall>kvs. plures_unseal p data = Inr (JObject kvs) \<longrightarrow>
        shows_fields q (qview t' i) kvs"
      "\<forall>i. i \<notin> fst ` set (crdt_list (pl_db p) s) \<longrightarrow> qview t' i = qview t i"
    by blast
  moreover have "shows_fields q (qview t' i) kvs"
    if "pview s i = Some data" "plures_unseal p data = Inr (JObject kvs)" for i data kvs
  proof -
    have "(i, data) \<in> set (crdt_list (pl_db p) s)" using that(1) db(2) by (metis map_of_SomeD)
    then show ?thesis using calculation(2) that(2) by blast
  qed
  moreover have "qview t' i = qview t i" if "pview s i = None" for i
  proof -
    have "i \<notin> fst ` set (crdt_list (pl_db p) s)" using that db(2) by (metis map_of_eq_None_iff)
    then show ?thesis using calculation(3) by blast
  qed
  ultimately show ?thesis by (intro exI [of _ t']) simp
qed

text \<open>A replicator for finitely many messages.\<close>

definition replicator0 :: replicator where
  "replicator0 = \<lparr>rp_encode_put = (\<lambda>k v. if k = ''a'' \<and> v = JObject [(''x'', JBool True)] then Some ''m'' else None),
     rp_decode = (\<lambda>b. if b = ''m'' then Some (Put [(''a'', [(''x'', JBool True)])]) else None),
     rp_b64_encode = id, rp_b64_decode = Some,
     rp_envelope = (\<lambda>ev. if ev_sender_epub ev = ''e'' \<and> ev_payload_b64 ev = ''base64url'' then Some (ev_wire ev) else None),
     rp_to_envelope = (\<lambda>b. Some \<lparr>ev_sender_epub = ''e'', ev_wire = b, ev_payload_b64 = ''base64url''\<rparr>)\<rparr>"

definition shared_plures :: "((string \<times> json) list, unit, string, unit, unit, unit, unit) plures" where
  "shared_plures = plain_plures\<lparr>pl_sea := \<lparr>sea_encrypt = (\<lambda>t _. Some t), sea_decrypt = (\<lambda>w _ _. Some w),
     sea_epub = (\<lambda>_. ''e'')\<rparr>\<rparr>"

lemma shared_facts: "plures_laws shared_plures map_of" "seals_all shared_plures" "wire_laws (pl_sea shared_plures) replicator0"
  using plain_laws
  by (auto simp: shared_plures_def plures_laws_def seals_all_def plain_plures_def plures_seal_def seal_value_def
      wire_laws_def replicator0_def split: if_splits)

theorem exchange_copies_records_witness:
  "\<exists>t'. receive_loop shared_plures replicator0 () (map Payload [''m''] @ [Closed]) [(''a'', JObject [(''x'', JBool False)])]
      = (Inr (), t')
    \<and> (\<forall>i data kvs. map_of [(''a'', JObject [(''x'', JBool True)])] i = Some data
        \<longrightarrow> plures_unseal shared_plures data = Inr (JObject kvs) \<longrightarrow> shows_fields shared_plures (map_of t' i) kvs)
    \<and> (\<forall>i. map_of [(''a'', JObject [(''x'', JBool True)])] i = None
        \<longrightarrow> map_of t' i = map_of [(''a'', JObject [(''x'', JBool False)])] i)"
proof (rule exchange_copies_records [OF shared_facts(1,1,2,3) refl, where sends = "\<lambda>_. True" and xs = "[]"])
  let ?s = "[(''a'', JObject [(''x'', JBool True)])]"
  show "all_objects shared_plures (crdt_list (pl_db shared_plures) ?s)"
    by (simp add: all_objects_def shared_plures_def plain_plures_def alist_crdt_def plures_unseal_def unseal_value_def)
  show "fst (send_records shared_plures replicator0 () (\<lambda>_. True) (crdt_list (pl_db shared_plures) ?s) 0) = None"
    "fst (sync_connection shared_plures replicator0 () (\<lambda>_. True) True [] ?s) = [''m'']"
    by (simp_all add: sync_connection_def shared_plures_def plain_plures_def alist_crdt_def unseal_value_def
        replicator0_def encrypt_sync_payload_def)
qed

end
