(* ===== verification/Importance.thy ===== *)
theory Importance
  imports Utf8
begin

text \<open>
  Which messages of a conversation are kept when it outgrows its budget (\<open>crates/core/src/headroom.rs\<close>):
  the heuristics that recognise logs, errors and code, the score of a message, and the selection by
  falling score that keeps a tool result with its call.  The arithmetic of \<open>f64\<close> and the token encoder
  are parameters.
\<close>

section \<open>Arithmetic\<close>

text \<open>\<open>ar_lit n k\<close> is the literal \<open>n / 10 ^ k\<close>.\<close>

record 'x arith =
  ar_lit :: "nat \<Rightarrow> nat \<Rightarrow> 'x"
  ar_nat :: "nat \<Rightarrow> 'x"
  ar_add :: "'x \<Rightarrow> 'x \<Rightarrow> 'x"
  ar_sub :: "'x \<Rightarrow> 'x \<Rightarrow> 'x"
  ar_mul :: "'x \<Rightarrow> 'x \<Rightarrow> 'x"
  ar_div :: "'x \<Rightarrow> 'x \<Rightarrow> 'x"
  ar_min :: "'x \<Rightarrow> 'x \<Rightarrow> 'x"
  ar_max :: "'x \<Rightarrow> 'x \<Rightarrow> 'x"
  ar_sqrt :: "'x \<Rightarrow> 'x"
  ar_sum :: "'x list \<Rightarrow> 'x"
  ar_less :: "'x \<Rightarrow> 'x \<Rightarrow> bool"
  ar_is_zero :: "'x \<Rightarrow> bool"

definition clamp01 :: "'x arith \<Rightarrow> 'x \<Rightarrow> 'x" where
  "clamp01 ar x = ar_min ar (ar_max ar x (ar_lit ar 0 0)) (ar_lit ar 1 0)"

section \<open>Recognising content\<close>

definition nth_is :: "string \<Rightarrow> nat \<Rightarrow> char \<Rightarrow> bool" where
  "nth_is s i c \<longleftrightarrow> i < length s \<and> s ! i = c"

definition digit_at :: "string \<Rightarrow> nat \<Rightarrow> bool" where
  "digit_at s i \<longleftrightarrow> i < length s \<and> is_ascii_digit (s ! i)"

definition starts_with_iso_date :: "string \<Rightarrow> bool" where
  "starts_with_iso_date b \<longleftrightarrow>
     10 \<le> length b \<and> digit_at b 0 \<and> digit_at b 1 \<and> digit_at b 2 \<and> digit_at b 3 \<and> nth_is b 4 (CHR ''-'')
     \<and> digit_at b 5 \<and> digit_at b 6 \<and> nth_is b 7 (CHR ''-'') \<and> digit_at b 8 \<and> digit_at b 9"

definition starts_like_bracketed_log :: "string \<Rightarrow> bool" where
  "starts_like_bracketed_log t \<longleftrightarrow>
     list_ex (\<lambda>b. prefix b t) [''[ERROR]'', ''[WARN]'', ''[INFO]'', ''[DEBUG]'', ''[TRACE]'']
     \<or> (t \<noteq> [] \<and> hd t = CHR ''['' \<and> starts_with_iso_date (tl t))"

definition is_log_line :: "string \<Rightarrow> bool" where
  "is_log_line l \<longleftrightarrow>
     (let t = trim l in
      list_ex (contains_str t) ['' INFO '', '' WARN '', '' ERROR '', '' DEBUG '', '' TRACE '', ''[info]'', ''[warn]'', ''[error]'']
      \<or> (19 \<le> length t \<and> nth_is t 4 (CHR ''-'') \<and> nth_is t 7 (CHR ''-'')
        \<and> (nth_is t 10 (CHR ''T'') \<or> nth_is t 10 (CHR '' '')) \<and> nth_is t 13 (CHR '':'')))"

definition is_log_content :: "string \<Rightarrow> bool" where
  "is_log_content content \<longleftrightarrow>
     (let ls = take 10 (lines content) in
      \<not> length ls < 3 \<and> 2 \<le> length (filter is_log_line ls))"

definition is_stack_frame :: "string \<Rightarrow> bool" where
  "is_stack_frame l \<longleftrightarrow>
     (let t = trim l in (prefix ''at '' t \<or> prefix ''  at '' t) \<and> (CHR ''('' \<in> set t \<or> contains_str t ''::''))"

definition error_indicators :: "string \<Rightarrow> bool list" where
  "error_indicators c =
     [contains_str c ''panicked at'', contains_str c ''Traceback'', contains_str c ''stack trace'',
      contains_str c (''thread '' @ [CHR 0x27]) \<and> contains_str c ''panicked'',
      list_ex (\<lambda>l. list_ex (\<lambda>p. prefix p (trim l)) [''Error:'', ''error:'', ''error['']) (lines c),
      list_ex (\<lambda>l. prefix ''Exception:'' (trim l)) (lines c),
      2 \<le> length (filter is_stack_frame (lines c)),
      contains_str c ''Caused by:'']"

definition looks_like_error :: "string \<Rightarrow> bool" where
  "looks_like_error c \<longleftrightarrow> 2 \<le> length (filter id (error_indicators c))"

definition short_code_starts :: "string list" where
  "short_code_starts =
     [''fn '', ''pub fn '', ''def '', ''function '', ''class '', ''impl '', ''struct '', ''enum '']"

definition code_starts :: "string list" where
  "code_starts =
     [''fn '', ''pub fn '', ''pub(crate) fn '', ''def '', ''function '', ''async fn '', ''class '', ''impl '',
      ''struct '', ''enum '', ''trait '', ''const '', ''let '', ''use '', ''import '', ''from '', ''#['']"

definition starts_with_any :: "string list \<Rightarrow> string \<Rightarrow> bool" where
  "starts_with_any ps t \<longleftrightarrow> list_ex (\<lambda>p. prefix p t) ps"

definition is_code_content :: "'x arith \<Rightarrow> string \<Rightarrow> bool" where
  "is_code_content ar content \<longleftrightarrow>
     (let ls = lines content in
      if length ls \<le> 2 then starts_with_any short_code_starts (trim content)
      else
        let count_of = (\<lambda>P. ar_nat ar (length (filter P ls)));
            brace = count_of (\<lambda>l. CHR ''{'' \<in> set l \<or> CHR ''}'' \<in> set l);
            indented = count_of (\<lambda>l. prefix ''    '' l \<or> prefix [CHR 0x09] l);
            semicolons = count_of (\<lambda>l. suffix '';'' (trim_end l));
            keywords = count_of (\<lambda>l. starts_with_any code_starts (trim l));
            total = ar_nat ar (length ls) in
        ar_less ar (ar_lit ar 15 2)
          (ar_div ar (ar_add ar (ar_add ar brace indented) semicolons) (ar_mul ar (ar_lit ar 3 0) total))
        \<and> ar_less ar (ar_lit ar 5 2) (ar_div ar keywords total))"

section \<open>The score of a message\<close>

record 'x message_meta =
  mt_role :: string
  mt_content :: string
  mt_has_tool_calls :: bool
  mt_tool_call_id :: "string option"
  mt_embedding :: "'x list option"

record 'x message_score =
  ms_recency :: 'x
  ms_role :: 'x
  ms_signal :: 'x
  ms_semantic_bonus :: 'x
  ms_composite :: 'x

definition explicit_keep_markers :: "string list" where
  "explicit_keep_markers =
     [''remember'', ''important'', ''decision'', ''decided'', ''codename'', ''do not'', ''never'', ''always'',
      ''api key'', ''token'', ''password'', ''secret'', ''todo'', ''fixme'', ''error'', ''panic'', ''failed'']"

definition has_explicit_keep_marker :: "string \<Rightarrow> bool" where
  "has_explicit_keep_marker c \<longleftrightarrow> list_ex (contains_str (map ascii_lower c)) explicit_keep_markers"

definition role_base_weight :: "'x arith \<Rightarrow> string \<Rightarrow> 'x" where
  "role_base_weight ar role =
     (if role = ''user'' then ar_lit ar 100 2
      else if role = ''assistant'' then ar_lit ar 75 2
      else if role = ''tool'' then ar_lit ar 55 2
      else if role = ''system'' then ar_lit ar 35 2
      else ar_lit ar 50 2)"

text \<open>
  The number of tokens; the encoder \<open>tk\<close> answers \<open>None\<close> when it cannot be set up, and the code then
  works with \<open>usize::MAX\<close>.
\<close>

definition content_signal_score :: "'x arith \<Rightarrow> (string \<Rightarrow> nat option) \<Rightarrow> 'x message_meta \<Rightarrow> 'x" where
  "content_signal_score ar tk m =
     (let c = mt_content m in
      if trim c = [] then (if mt_has_tool_calls m then ar_lit ar 70 2 else ar_lit ar 5 2)
      else if looks_like_error c then ar_lit ar 1 0
      else if has_explicit_keep_marker c then ar_lit ar 90 2
      else if mt_has_tool_calls m then ar_lit ar 70 2
      else if is_code_content ar c \<or> is_log_content c then ar_lit ar 50 2
      else
        ar_mul ar (ar_min ar (ar_div ar (ar_nat ar (case tk c of None \<Rightarrow> 0 | Some n \<Rightarrow> n)) (ar_lit ar 600 0)) (ar_lit ar 1 0))
          (ar_lit ar 40 2))"

definition squares :: "'x arith \<Rightarrow> 'x list \<Rightarrow> 'x" where
  "squares ar v = ar_sqrt ar (ar_sum ar (map (\<lambda>x. ar_mul ar x x) v))"

text \<open>The cosines with the vectors of the other messages, those that can be compared.\<close>

definition cosines :: "'x arith \<Rightarrow> 'x message_meta list \<Rightarrow> nat \<Rightarrow> 'x list \<Rightarrow> 'x list" where
  "cosines ar metas i v =
     concat (map (\<lambda>j.
       if j = i then []
       else
         (case mt_embedding (metas ! j) of
            None \<Rightarrow> []
          | Some w \<Rightarrow>
              if length w \<noteq> length v \<or> w = [] then []
              else if ar_is_zero ar (squares ar v) \<or> ar_is_zero ar (squares ar w) then []
              else [ar_div ar (ar_sum ar (map (\<lambda>(a, b). ar_mul ar a b) (zip v w)))
                (ar_mul ar (squares ar v) (squares ar w))])) [0..<length metas])"

definition semantic_centrality :: "'x arith \<Rightarrow> 'x message_meta list \<Rightarrow> nat \<Rightarrow> 'x option" where
  "semantic_centrality ar metas i =
     (case mt_embedding (metas ! i) of
        None \<Rightarrow> None
      | Some v \<Rightarrow>
          if v = [] then None
          else
            let cs = cosines ar metas i v in
            if cs = [] then None
            else Some (ar_div ar
              (ar_add ar (ar_div ar (foldl (ar_add ar) (ar_lit ar 0 0) cs) (ar_nat ar (length cs))) (ar_lit ar 1 0))
              (ar_lit ar 2 0)))"

text \<open>The score of the message at position \<open>i\<close>, which is in the conversation.\<close>

definition score_message_importance ::
    "'x arith \<Rightarrow> (string \<Rightarrow> nat option) \<Rightarrow> 'x message_meta list \<Rightarrow> nat \<Rightarrow> 'x message_score" where
  "score_message_importance ar tk metas i =
     (let n = length metas;
          m = metas ! i;
          recency = (if n \<le> 1 then ar_lit ar 1 0
            else ar_div ar (ar_nat ar i) (ar_sub ar (ar_nat ar n) (ar_lit ar 1 0)));
          role0 = role_base_weight ar (mt_role m);
          role = (if mt_role m = ''system'' \<and> (looks_like_error (mt_content m) \<or> has_explicit_keep_marker (mt_content m))
            then ar_max ar role0 (ar_lit ar 90 2) else role0);
          signal = content_signal_score ar tk m;
          base = clamp01 ar (ar_add ar (ar_add ar (ar_mul ar (ar_lit ar 40 2) recency) (ar_mul ar (ar_lit ar 25 2) role))
            (ar_mul ar (ar_lit ar 35 2) signal));
          lift = (if \<not> ar_less ar signal (ar_lit ar 90 2) then ar_lit ar 25 2 else ar_lit ar 0 0);
          bonus = (case semantic_centrality ar metas i of
              Some c \<Rightarrow> ar_mul ar (ar_lit ar 15 2) c
            | None \<Rightarrow> ar_lit ar 0 0) in
      \<lparr>ms_recency = recency, ms_role = role, ms_signal = signal, ms_semantic_bonus = bonus,
       ms_composite = clamp01 ar (ar_add ar (ar_add ar base lift) bonus)\<rparr>)"

section \<open>The selection\<close>

record retention_plan =
  rt_keep :: "nat list"
  rt_drop :: "nat list"
  rt_kept_tokens :: nat

definition message_token_count :: "(string \<Rightarrow> nat option) \<Rightarrow> string \<Rightarrow> nat" where
  "message_token_count tk c = (case tk c of None \<Rightarrow> length c div 4 + 1 | Some n \<Rightarrow> n)"

text \<open>The nearest earlier message of the assistant with tool calls.\<close>

definition caller_of :: "'x message_meta list \<Rightarrow> nat \<Rightarrow> nat option" where
  "caller_of metas i =
     find (\<lambda>k. mt_role (metas ! k) = ''assistant'' \<and> mt_has_tool_calls (metas ! k)) (rev [0..<i])"

definition is_tool_result :: "'x message_meta \<Rightarrow> bool" where
  "is_tool_result m \<longleftrightarrow> mt_role m = ''tool'' \<and> mt_tool_call_id m \<noteq> None"

definition pair_step :: "'x message_meta list \<Rightarrow> nat option list \<Rightarrow> nat \<Rightarrow> nat option list" where
  "pair_step metas partner i =
     (if is_tool_result (metas ! i) then
        (case caller_of metas i of
           None \<Rightarrow> partner
         | Some a \<Rightarrow>
             let partner = partner[i := Some a] in
             if partner ! a = None then partner[a := Some i] else partner)
      else partner)"

definition partners :: "'x message_meta list \<Rightarrow> nat option list" where
  "partners metas = foldl (pair_step metas) (replicate (length metas) None) [0..<length metas]"

definition force_keep :: "nat list \<Rightarrow> nat \<Rightarrow> bool list \<times> nat \<Rightarrow> bool list \<times> nat" where
  "force_keep tokens i st =
     (if fst st ! i then st else ((fst st)[i := True], snd st + tokens ! i))"

text \<open>The order of the candidates: by falling score, the more recent one first.\<close>

definition comes_before :: "('x \<Rightarrow> 'x \<Rightarrow> bool) \<Rightarrow> (nat \<Rightarrow> 'x) \<Rightarrow> nat \<Rightarrow> nat \<Rightarrow> bool" where
  "comes_before lt sc a b \<longleftrightarrow> lt (sc b) (sc a) \<or> (\<not> lt (sc a) (sc b) \<and> \<not> lt (sc b) (sc a) \<and> b < a)"

fun insert_by :: "(nat \<Rightarrow> nat \<Rightarrow> bool) \<Rightarrow> nat \<Rightarrow> nat list \<Rightarrow> nat list" where
  "insert_by before x [] = [x]"
| "insert_by before x (y # ys) = (if before y x then y # insert_by before x ys else x # y # ys)"

definition candidates :: "('x \<Rightarrow> 'x \<Rightarrow> bool) \<Rightarrow> (nat \<Rightarrow> 'x) \<Rightarrow> bool list \<Rightarrow> nat list" where
  "candidates lt sc kept =
     foldr (insert_by (comes_before lt sc)) (filter (\<lambda>i. \<not> kept ! i) [0..<length kept]) []"

definition additions :: "nat option list \<Rightarrow> bool list \<Rightarrow> nat \<Rightarrow> nat list" where
  "additions partner kept i =
     i # (case partner ! i of Some p \<Rightarrow> if \<not> kept ! p then [p] else [] | None \<Rightarrow> [])"

fun fill_loop ::
    "nat list \<Rightarrow> nat option list \<Rightarrow> nat \<Rightarrow> nat list \<Rightarrow> bool list \<times> nat \<Rightarrow> bool list \<times> nat" where
  "fill_loop tokens partner budget [] st = st"
| "fill_loop tokens partner budget (i # order) st =
     (if fst st ! i then fill_loop tokens partner budget order st
      else
        let add = additions partner (fst st) i in
        if snd st + sum_list (map ((!) tokens) add) \<le> budget
        then fill_loop tokens partner budget order (fold (force_keep tokens) add st)
        else st)"

definition select_by_importance ::
    "'x arith \<Rightarrow> (string \<Rightarrow> nat option) \<Rightarrow> 'x message_meta list \<Rightarrow> nat \<Rightarrow> retention_plan" where
  "select_by_importance ar tk metas budget =
     (let n = length metas;
          tokens = map (\<lambda>m. message_token_count tk (mt_content m)) metas in
      if n = 0 then \<lparr>rt_keep = [], rt_drop = [], rt_kept_tokens = 0\<rparr>
      else if sum_list tokens \<le> budget then \<lparr>rt_keep = [0..<n], rt_drop = [], rt_kept_tokens = sum_list tokens\<rparr>
      else
        let scores = map (\<lambda>i. ms_composite (score_message_importance ar tk metas i)) [0..<n];
            partner = partners metas;
            st0 = force_keep tokens (n - 1) (replicate n False, 0);
            st1 = (case partner ! (n - 1) of None \<Rightarrow> st0 | Some p \<Rightarrow> force_keep tokens p st0);
            st = fill_loop tokens partner budget (candidates (ar_less ar) ((!) scores) (fst st1)) st1 in
        \<lparr>rt_keep = filter (\<lambda>i. fst st ! i) [0..<n], rt_drop = filter (\<lambda>i. \<not> fst st ! i) [0..<n],
         rt_kept_tokens = snd st\<rparr>)"

section \<open>Tool results and their calls\<close>

lemma caller_Some: "caller_of metas i = Some a \<Longrightarrow> a < i \<and> mt_role (metas ! a) = ''assistant'' \<and> mt_has_tool_calls (metas ! a)"
  unfolding caller_of_def by (drule find_sat) auto

text \<open>
  The partner of a tool result is its call; the partner of anything else is a tool result that belongs
  to it.
\<close>

definition paired :: "'x message_meta list \<Rightarrow> nat option list \<Rightarrow> nat \<Rightarrow> bool" where
  "paired metas partner m \<longleftrightarrow>
     length partner = length metas \<and>
     (\<forall>i < length metas. is_tool_result (metas ! i) \<longrightarrow> partner ! i = (if i < m then caller_of metas i else None)) \<and>
     (\<forall>i < length metas. \<not> is_tool_result (metas ! i) \<longrightarrow>
        (\<forall>p. partner ! i = Some p \<longrightarrow> p < length metas \<and> is_tool_result (metas ! p) \<and> caller_of metas p = Some i))"

lemma paired_step:
  assumes "paired metas partner m" and "m < length metas"
  shows "paired metas (pair_step metas partner m) (Suc m)"
proof (cases "is_tool_result (metas ! m) \<and> caller_of metas m \<noteq> None")
  case False
  then have "pair_step metas partner m = partner"
    by (auto simp: pair_step_def split: option.split)
  moreover have "(if i < m then caller_of metas i else None) = (if i < Suc m then caller_of metas i else None)"
    if "is_tool_result (metas ! i)" for i
    using that False by (cases "i = m") auto
  ultimately show ?thesis using assms(1) unfolding paired_def by metis
next
  case True
  then obtain a where a: "is_tool_result (metas ! m)" "caller_of metas m = Some a" by blast
  then have am: "a < m" "mt_role (metas ! a) = ''assistant''" using caller_Some [OF a(2)] by auto
  then have na: "\<not> is_tool_result (metas ! a)" by (simp add: is_tool_result_def)
  have len: "length partner = length metas" using assms(1) by (simp add: paired_def)
  have step: "pair_step metas partner m ! i
      = (if i = m then Some a else if i = a \<and> partner ! a = None then Some m else partner ! i)" for i
    using a am(1) len assms(2) by (auto simp: pair_step_def Let_def nth_list_update)
  show ?thesis
    unfolding paired_def
  proof (intro conjI allI impI)
    show "length (pair_step metas partner m) = length metas"
      using len by (simp add: pair_step_def Let_def split: option.split)
  next
    fix i
    assume "i < length metas" "is_tool_result (metas ! i)"
    moreover from this have "partner ! i = (if i < m then caller_of metas i else None)"
      using assms(1) unfolding paired_def by blast
    ultimately show "pair_step metas partner m ! i = (if i < Suc m then caller_of metas i else None)"
      using a na by (auto simp: step)
  next
    fix i p
    assume i: "i < length metas" "\<not> is_tool_result (metas ! i)" and p: "pair_step metas partner m ! i = Some p"
    show "p < length metas" "is_tool_result (metas ! p)" "caller_of metas p = Some i"
    proof (atomize (full), cases "partner ! i = Some p")
      case True
      then show "p < length metas \<and> is_tool_result (metas ! p) \<and> caller_of metas p = Some i"
        using assms(1) i unfolding paired_def by blast
    next
      case False
      then have "i = a" "p = m" using p a(1) i(2) by (auto simp: step split: if_splits)
      then show "p < length metas \<and> is_tool_result (metas ! p) \<and> caller_of metas p = Some i"
        using a assms(2) by simp
    qed
  qed
qed

lemma paired_partners: "paired metas (partners metas) (length metas)"
proof -
  have "paired metas (foldl (pair_step metas) (replicate (length metas) None) [0..<m]) m" if "m \<le> length metas" for m
    using that
  proof (induction m)
    case 0
    then show ?case by (simp add: paired_def)
  next
    case (Suc m)
    then show ?case using paired_step [of metas _ m] by simp
  qed
  then show ?thesis by (simp add: partners_def)
qed

lemma partner_of_result:
  "i < length metas \<Longrightarrow> is_tool_result (metas ! i) \<Longrightarrow> partners metas ! i = caller_of metas i"
  using paired_partners [of metas] unfolding paired_def by metis

lemma partner_of_other:
  "i < length metas \<Longrightarrow> \<not> is_tool_result (metas ! i) \<Longrightarrow> partners metas ! i = Some p \<Longrightarrow>
    p < length metas \<and> is_tool_result (metas ! p) \<and> caller_of metas p = Some i"
  using paired_partners [of metas] unfolding paired_def by blast

lemma caller_no_result: "caller_of metas i = Some a \<Longrightarrow> \<not> is_tool_result (metas ! a)"
  by (drule caller_Some) (simp add: is_tool_result_def)

definition calls_kept :: "'x message_meta list \<Rightarrow> bool list \<Rightarrow> bool" where
  "calls_kept metas kept \<longleftrightarrow>
     (\<forall>i < length metas. kept ! i \<longrightarrow> is_tool_result (metas ! i) \<longrightarrow>
        (\<forall>a. caller_of metas i = Some a \<longrightarrow> kept ! a))"

lemma kept_pair:
  assumes "calls_kept metas kept" and "length kept = length metas" and "i < length metas"
    and "partner = partners metas"
  shows "calls_kept metas (fst (fold (force_keep tokens) (additions partner kept i) (kept, k)))"
proof -
  define kept' where "kept' = fst (fold (force_keep tokens) (additions partner kept i) (kept, k))"
  have kept': "kept' ! j \<longleftrightarrow> kept ! j \<or> j = i \<or> partner ! i = Some j" if "j < length metas" for j
  proof (cases "partner ! i")
    case None
    then show ?thesis using that assms(2,3)
      by (simp add: kept'_def additions_def force_keep_def nth_list_update)
  next
    case (Some q)
    then show ?thesis using that assms(2,3)
      by (simp add: kept'_def additions_def force_keep_def nth_list_update)
  qed
  have lt: "a < length metas" if "j < length metas" "caller_of metas j = Some a" for j a
    using caller_Some [OF that(2)] that(1) by simp
  have "kept' ! a" if j: "j < length metas" "kept' ! j" "is_tool_result (metas ! j)" "caller_of metas j = Some a" for j a
  proof -
    consider "kept ! j" | "j = i" | "partner ! i = Some j" using j(2) kept' [OF j(1)] by blast
    then show ?thesis
    proof cases
      case 1
      then have "kept ! a" using assms(1) j(1,3,4) unfolding calls_kept_def by blast
      then show ?thesis using kept' [OF lt [OF j(1,4)]] by blast
    next
      case 2
      then have "partner ! i = Some a" using partner_of_result [OF j(1,3)] j(4) assms(4) by simp
      then show ?thesis using kept' [OF lt [OF j(1,4)]] by blast
    next
      case 3
      then have "\<not> is_tool_result (metas ! i)"
        using partner_of_result [OF assms(3)] caller_no_result [of metas i j] j(3) assms(4) by metis
      then have "a = i" using partner_of_other [OF assms(3), of j] 3 j(4) assms(4) by simp
      then show ?thesis using kept' [OF assms(3)] by blast
    qed
  qed
  then show ?thesis by (simp add: calls_kept_def kept'_def)
qed

lemma force_keep_length: "length (fst (force_keep tokens i st)) = length (fst st)"
  by (simp add: force_keep_def)

lemma fold_force_length: "length (fst (fold (force_keep tokens) xs st)) = length (fst st)"
  by (induction xs arbitrary: st) (simp_all add: force_keep_length)

lemma fill_keeps_calls:
  assumes "partner = partners metas"
  shows "calls_kept metas (fst st) \<Longrightarrow> length (fst st) = length metas \<Longrightarrow> \<forall>i \<in> set order. i < length metas \<Longrightarrow>
    calls_kept metas (fst (fill_loop tokens partner budget order st))
    \<and> length (fst (fill_loop tokens partner budget order st)) = length metas"
proof (induction order arbitrary: st)
  case (Cons i order)
  obtain kept k where st: "st = (kept, k)" by fastforce
  have "calls_kept metas (fst (fold (force_keep tokens) (additions partner (fst st) i) st))"
    using kept_pair [of metas "fst st" i partner tokens "snd st"] Cons.prems assms by simp
  then show ?case
    using Cons.IH [of st] Cons.IH [of "fold (force_keep tokens) (additions partner (fst st) i) st"] Cons.prems
    by (simp add: Let_def fold_force_length)
qed simp

lemma insert_by_set: "set (insert_by before x ys) = insert x (set ys)"
  by (induction ys) auto

lemma candidates_set: "set (candidates lt sc kept) = {i. i < length kept \<and> \<not> kept ! i}"
proof -
  have "set (foldr (insert_by (comes_before lt sc)) xs []) = set xs" for xs
    by (induction xs) (simp_all add: insert_by_set)
  then show ?thesis by (auto simp: candidates_def)
qed

end
