(* ===== verification/Context.thy ===== *)
theory Context
  imports Importance Memory
begin

text \<open>
  The active context of the orchestrator (\<open>crates/core/src/orchestrator/context_manager.rs\<close>): the items
  of a conversation, the entities of a message, the score of an item and the items that fit the budget.

  The matches of a regular expression, the arithmetic of floats and the power of one are parameters.  The
  age of an item and its counts are natural numbers.
\<close>

section \<open>Items and entities\<close>

datatype context_source = From_Memory | From_History | From_System | From_Procedure | From_Entity

record 'x context_item =
  ci_id :: string
  ci_content :: string
  ci_tokens :: nat
  ci_relevance :: 'x
  ci_source :: context_source
  ci_age_turns :: nat
  ci_success_count :: nat
  ci_failure_count :: nat

record 'x managed_context =
  mc_items :: "'x context_item list"
  mc_token_budget :: nat
  mc_tokens_used :: nat

datatype entity_kind = AdoWorkItem | GitSha | FilePath | GitHubRepo | Url

fun entity_kind_text :: "entity_kind \<Rightarrow> string" where
  "entity_kind_text AdoWorkItem = ''AdoWorkItem''"
| "entity_kind_text GitSha = ''GitSha''"
| "entity_kind_text FilePath = ''FilePath''"
| "entity_kind_text GitHubRepo = ''GitHubRepo''"
| "entity_kind_text Url = ''Url''"

record extracted_entity =
  ee_kind :: entity_kind
  ee_value :: string
  ee_context_key :: string

definition backslash :: string where
  "backslash = [CHR 0x5C]"

definition work_item_pattern :: string where
  "work_item_pattern = ''#('' @ backslash @ ''d{5,7})''"

definition sha_pattern :: string where
  "sha_pattern = backslash @ ''b([0-9a-f]{7,40})'' @ backslash @ ''b''"

definition path_pattern :: string where
  "path_pattern = ''(?:^|'' @ backslash @ ''s)([~/]['' @ backslash @ ''w./'' @ backslash @ ''-]+'' @ backslash @ ''.''
     @ backslash @ ''w+)''"

definition repo_pattern :: string where
  "repo_pattern = backslash @ ''b('' @ backslash @ ''w+/['' @ backslash @ ''w'' @ backslash @ ''-]+)'' @ backslash @ ''b''"

definition url_pattern :: string where
  "url_pattern = ''https?://'' @ backslash @ ''S+''"

definition entity_of :: "entity_kind \<Rightarrow> string \<Rightarrow> string \<Rightarrow> extracted_entity" where
  "entity_of k label v = \<lparr>ee_kind = k, ee_value = v, ee_context_key = label @ v\<rparr>"

definition is_repo_name :: "string \<Rightarrow> bool" where
  "is_repo_name v \<longleftrightarrow> CHR ''/'' \<in> set v \<and> \<not> prefix ''/'' v \<and> CHR ''.'' \<notin> set v"

text \<open>The argument gives the captures of a pattern in a text, the whole matches where it has no group.\<close>

definition extract_entities :: "(string \<Rightarrow> string \<Rightarrow> string list) \<Rightarrow> string \<Rightarrow> extracted_entity list" where
  "extract_entities rx message =
     map (entity_of AdoWorkItem ''ado:workitem:'') (rx work_item_pattern message)
     @ map (entity_of GitSha ''git:sha:'') (rx sha_pattern message)
     @ map (entity_of FilePath ''file:'') (rx path_pattern message)
     @ map (entity_of GitHubRepo ''repo:'') (filter is_repo_name (rx repo_pattern message))
     @ map (entity_of Url ''url:'') (rx url_pattern message)"

section \<open>Scores\<close>

record 'x relevance_scorer =
  rs_weights :: "(string, 'x) hmap"
  rs_age_decay :: 'x

definition default_scorer :: "'x arith \<Rightarrow> 'x relevance_scorer" where
  "default_scorer ar = \<lparr>rs_weights = [], rs_age_decay = ar_lit ar 85 2\<rparr>"

definition score_item ::
    "'x arith \<Rightarrow> ('x \<Rightarrow> nat \<Rightarrow> 'x) \<Rightarrow> 'x relevance_scorer \<Rightarrow> 'x context_item \<Rightarrow> 'x \<Rightarrow> extracted_entity list \<Rightarrow> 'x" where
  "score_item ar pow sc item similarity entities =
     (let s1 = fold (\<lambda>e s. if contains_str (ci_content item) (ee_value e) then ar_add ar s (ar_lit ar 3 1) else s)
            entities similarity;
          s2 = (case hm_get (rs_weights sc) (ci_id item) of None \<Rightarrow> s1 | Some w \<Rightarrow> ar_mul ar s1 w);
          s3 = ar_mul ar s2 (pow (rs_age_decay sc) (ci_age_turns item));
          total = ci_success_count item + ci_failure_count item;
          rate = ar_div ar (ar_nat ar (ci_success_count item)) (ar_nat ar total);
          s4 = (if 0 < total then ar_mul ar s3 (ar_add ar (ar_lit ar 5 1) (ar_mul ar (ar_lit ar 5 1) rate)) else s3) in
      clamp01 ar s4)"

definition outcome_weight :: "'x arith \<Rightarrow> bool \<Rightarrow> 'x \<Rightarrow> 'x" where
  "outcome_weight ar success w =
     (if success then ar_min ar (ar_mul ar w (ar_lit ar 11 1)) (ar_lit ar 2 0)
      else ar_max ar (ar_mul ar w (ar_lit ar 9 1)) (ar_lit ar 1 1))"

definition record_outcome ::
    "'x arith \<Rightarrow> 'x context_item list \<Rightarrow> bool \<Rightarrow> 'x relevance_scorer \<Rightarrow> 'x relevance_scorer" where
  "record_outcome ar items success sc =
     sc\<lparr>rs_weights := fold (\<lambda>i ws.
          hm_insert (ci_id i)
            (outcome_weight ar success (case hm_get ws (ci_id i) of None \<Rightarrow> ar_lit ar 1 0 | Some w \<Rightarrow> w)) ws)
        items (rs_weights sc)\<rparr>"

section \<open>The items that are kept\<close>

definition grow_older :: "'x context_item \<Rightarrow> 'x context_item" where
  "grow_older i = i\<lparr>ci_age_turns := ci_age_turns i + 1\<rparr>"

text \<open>A recalled item whose id is known already is left out.\<close>

definition merge_recalled :: "'x context_item list \<Rightarrow> 'x context_item list \<Rightarrow> 'x context_item list" where
  "merge_recalled current recalled = current @ filter (\<lambda>i. ci_id i \<notin> ci_id ` set current) recalled"

fun fit_budget :: "nat \<Rightarrow> 'x context_item list \<Rightarrow> nat \<Rightarrow> 'x context_item list \<times> nat" where
  "fit_budget budget [] used = ([], used)"
| "fit_budget budget (i # xs) used =
     (if used + ci_tokens i \<le> budget
      then map_prod ((#) i) id (fit_budget budget xs (used + ci_tokens i))
      else fit_budget budget xs used)"

definition rate_item ::
    "'x arith \<Rightarrow> ('x \<Rightarrow> nat \<Rightarrow> 'x) \<Rightarrow> 'x relevance_scorer \<Rightarrow> extracted_entity list \<Rightarrow> (string, 'x) hmap
      \<Rightarrow> 'x context_item \<Rightarrow> 'x context_item" where
  "rate_item ar pow sc entities sims i =
     i\<lparr>ci_relevance := score_item ar pow sc i
        (case hm_get sims (ci_id i) of None \<Rightarrow> ar_nat ar 0 | Some s \<Rightarrow> s) entities\<rparr>"

definition by_relevance :: "'x arith \<Rightarrow> 'x context_item list \<Rightarrow> 'x context_item list" where
  "by_relevance ar xs = map snd (sort_desc (ar_less ar) (map (\<lambda>i. (ci_relevance i, i)) xs))"

text \<open>The context and the items that stay active, which are the same.\<close>

definition manage_context ::
    "'x arith \<Rightarrow> ('x \<Rightarrow> nat \<Rightarrow> 'x) \<Rightarrow> 'x context_item list \<Rightarrow> 'x context_item list \<Rightarrow> extracted_entity list
      \<Rightarrow> 'x relevance_scorer \<Rightarrow> (string, 'x) hmap \<Rightarrow> nat \<Rightarrow> 'x managed_context" where
  "manage_context ar pow current recalled entities sc sims budget =
     (let merged = merge_recalled (map grow_older current) recalled;
          rated = map (rate_item ar pow sc entities sims) merged;
          (kept, used) = fit_budget budget (by_relevance ar rated) 0 in
      \<lparr>mc_items = kept, mc_token_budget = budget, mc_tokens_used = used\<rparr>)"

section \<open>Properties\<close>

lemma fit_budget_used:
  "snd (fit_budget budget xs used) = used + sum_list (map ci_tokens (fst (fit_budget budget xs used)))"
proof (induction xs arbitrary: used)
  case (Cons i xs)
  show ?case by (simp add: Cons.IH [of "used + ci_tokens i"] Cons.IH [of used])
qed simp

lemma fit_budget_bound: "used \<le> budget \<Longrightarrow> snd (fit_budget budget xs used) \<le> budget"
  by (induction xs arbitrary: used) simp_all

lemma subseq_set: "subseq xs ys \<Longrightarrow> set xs \<subseteq> set ys"
  by (induction rule: list_emb.induct) auto

lemma fit_budget_subseq: "subseq (fst (fit_budget budget xs used)) xs"
  by (induction xs arbitrary: used) auto

lemma by_relevance_set: "set (by_relevance ar xs) = set xs"
  by (force simp: by_relevance_def sort_desc_set)

lemma grow_older_id: "ci_id (grow_older i) = ci_id i" "ci_content (grow_older i) = ci_content i"
  by (simp_all add: grow_older_def)

lemma rate_item_frame:
  "ci_id (rate_item ar pow sc es sims i) = ci_id i" "ci_content (rate_item ar pow sc es sims i) = ci_content i"
  "ci_tokens (rate_item ar pow sc es sims i) = ci_tokens i"
  by (simp_all add: rate_item_def)

text \<open>Where the items of a context come from.\<close>

lemma managed_origin:
  assumes "i \<in> set (mc_items (manage_context ar pow current recalled es sc sims budget))"
  shows "(\<exists>c \<in> set current. ci_id i = ci_id c \<and> ci_content i = ci_content c)
    \<or> (\<exists>r \<in> set recalled. ci_id i = ci_id r \<and> ci_content i = ci_content r \<and> ci_id r \<notin> ci_id ` set current)"
proof -
  let ?rated = "map (rate_item ar pow sc es sims) (merge_recalled (map grow_older current) recalled)"
  have "i \<in> set (fst (fit_budget budget (by_relevance ar ?rated) 0))"
    using assms by (simp add: manage_context_def Let_def split_beta)
  then have "i \<in> set ?rated"
    using subseq_set [OF fit_budget_subseq [of budget "by_relevance ar ?rated" 0]] by_relevance_set [of ar ?rated]
    by blast
  then show ?thesis
    by (auto simp: merge_recalled_def rate_item_frame grow_older_id image_image)
qed

end
