(* ===== verification/Routing.thy ===== *)
theory Routing
  imports Utf8
begin

text \<open>
  The choice of a model for a message: the classifier (\<open>crates/core/src/orchestrator/classifier.rs\<close>) and
  the tiers of the agent (\<open>crates/core/src/agent.rs\<close>, \<open>select_model_for_request\<close>).
\<close>

section \<open>The classifier\<close>

datatype message_intent = Command | Question | Feedback | Task | Chat

record message_classification =
  cl_intent :: message_intent
  cl_complexity :: nat
  cl_topic :: string
  cl_topic_shift :: bool
  cl_entities :: "string list"
  cl_plugin_match :: "string option"
  cl_completion_hint :: "string option"
  cl_needs_tools :: bool
  cl_needs_deep_model :: bool

text \<open>
  A classifier: what its backend answers for a message, parsed (\<open>None\<close> when it fails), and the names of
  the plugins.  The last topic is its state.
\<close>

record classifier =
  cf_backend :: "(string \<Rightarrow> message_classification option) option"
  cf_plugin_names :: "string list"

definition heuristic_only :: "string list \<Rightarrow> classifier" where
  "heuristic_only names = \<lparr>cf_backend = None, cf_plugin_names = names\<rparr>"

definition question_starters :: "string list" where
  "question_starters =
     [''what'', ''how'', ''why'', ''when'', ''where'', ''who'', ''is'', ''are'', ''can'', ''do'', ''does'', ''will'',
      ''would'', ''should'', ''could'']"

definition feedback_starters :: "string list" where
  "feedback_starters =
     [''ok'', ''yes'', ''no'', ''thanks'', ''thank'', ''good'', ''great'', ''perfect'', ''done'', ''approved'', ''lgtm'',
      ''nice'', ''cool'', ''sure'', ''agree'', ''correct'', ''right'', ''wrong'', ''nope'']"

definition task_keywords :: "string list" where
  "task_keywords =
     [''build'', ''create'', ''fix'', ''implement'', ''deploy'', ''set up'', ''install'', ''configure'', ''write'', ''add'',
      ''remove'', ''delete'', ''update'', ''change'', ''move'', ''migrate'', ''refactor'', ''test'', ''review'', ''check'',
      ''scan'', ''index'', ''push'', ''pull'', ''commit'', ''merge'']"

definition tool_keywords :: "string list" where
  "tool_keywords =
     [''file'', ''run'', ''command'', ''search'', ''code'', ''git'', ''build'', ''deploy'', ''install'', ''read'', ''write'',
      ''edit'', ''list'', ''directory'', ''ls'', ''cat'', ''grep'']"

definition stopwords :: "string list" where
  "stopwords =
     [''the'', ''a'', ''an'', ''is'', ''are'', ''was'', ''were'', ''be'', ''been'', ''to'', ''of'', ''in'', ''for'', ''on'',
      ''with'', ''at'', ''by'', ''this'', ''that'', ''it'', ''my'', ''your'', ''i'', ''you'', ''we'', ''he'', ''she'', ''they'',
      ''me'', ''us'', ''and'', ''or'', ''but'', ''not'', ''can'', ''do'', ''does'', ''will'', ''would'', ''should'', ''could'',
      ''please'', ''just'', ''also'']"

definition starts_with_one :: "string list \<Rightarrow> string \<Rightarrow> bool" where
  "starts_with_one ws s \<longleftrightarrow> list_ex (\<lambda>w. prefix w s) ws"

definition contains_one :: "string list \<Rightarrow> string \<Rightarrow> bool" where
  "contains_one ws s \<longleftrightarrow> list_ex (contains_str s) ws"

definition intent_of :: "string \<Rightarrow> message_intent" where
  "intent_of lower =
     (if prefix ''/'' lower then Command
      else if suffix ''?'' lower \<or> starts_with_one question_starters lower then Question
      else if starts_with_one feedback_starters lower then Feedback
      else if contains_one task_keywords lower then Task
      else Chat)"

definition word_complexity :: "nat \<Rightarrow> nat" where
  "word_complexity n = (if n \<le> 5 then 1 else if n \<le> 15 then 2 else if n \<le> 30 then 3 else if n \<le> 60 then 4 else 5)"

definition topic_of :: "unicode \<Rightarrow> string list \<Rightarrow> string" where
  "topic_of u ws = join '' '' (take 3 (filter (\<lambda>w. uc_lowercase u w \<notin> set stopwords \<and> 2 < length w) ws))"

definition topic_shifted :: "string option \<Rightarrow> string \<Rightarrow> bool" where
  "topic_shifted last_topic topic =
     (case last_topic of
        None \<Rightarrow> False
      | Some lt \<Rightarrow> topic \<noteq> [] \<and> \<not> contains_str lt topic \<and> \<not> contains_str topic lt)"

definition classify_heuristic ::
    "unicode \<Rightarrow> classifier \<Rightarrow> string \<Rightarrow> string option \<Rightarrow> message_classification \<times> string option" where
  "classify_heuristic u c message last_topic =
     (let lower = trim (uc_lowercase u message);
          ws = split_whitespace message;
          intent = intent_of lower;
          complexity = word_complexity (length ws);
          topic = topic_of u ws in
      (\<lparr>cl_intent = intent, cl_complexity = complexity, cl_topic = topic,
        cl_topic_shift = topic_shifted last_topic topic, cl_entities = [],
        cl_plugin_match = find (\<lambda>p. contains_str lower (map (\<lambda>x. if x = CHR ''-'' then CHR '' '' else x) p))
          (cf_plugin_names c),
        cl_completion_hint = (if intent = Task then Some ''task completed successfully'' else None),
        cl_needs_tools = contains_one tool_keywords lower, cl_needs_deep_model = 4 \<le> complexity\<rparr>,
       Some topic))"

definition classify ::
    "unicode \<Rightarrow> classifier \<Rightarrow> string \<Rightarrow> string option \<Rightarrow> message_classification \<times> string option" where
  "classify u c message last_topic =
     (case Option.bind (cf_backend c) (\<lambda>b. b message) of
        Some parsed \<Rightarrow> (parsed, Some (cl_topic parsed))
      | None \<Rightarrow> classify_heuristic u c message last_topic)"

section \<open>The complexity of a request\<close>

text \<open>\<open>str::matches(..).count()\<close> for a needle that is not empty: occurrences that do not overlap.\<close>

function count_matches :: "string \<Rightarrow> string \<Rightarrow> nat" where
  "count_matches needle hay =
     (if hay = [] then 0
      else if needle \<noteq> [] \<and> prefix needle hay then 1 + count_matches needle (drop (length needle) hay)
      else count_matches needle (tl hay))"
  by pat_completeness auto

termination count_matches
  by (relation "measure (\<lambda>(needle, hay). length hay)") auto

declare count_matches.simps [simp del]

definition reasoning_words :: "string list" where
  "reasoning_words =
     [''why'', ''how'', ''compare'', ''design'', ''explain'', ''analyze'', ''evaluate'', ''trade-off'', ''tradeoff'',
      ''architect'', ''what are the implications'', ''pros and cons'', ''difference between'']"

definition multi_step_markers :: "string list" where
  "multi_step_markers =
     [''first'', ''then'', ''after that'', ''finally'', ''step 1'', ''step 2'', ''also'', ''additionally'']"

definition code_marks :: "string list" where
  "code_marks = [''`'', ''fn '', ''def '', ''impl '', ''class '', ''struct '']"

definition estimate_complexity :: "unicode \<Rightarrow> string \<Rightarrow> nat \<Rightarrow> nat" where
  "estimate_complexity u content word_count =
     (let lower = uc_lowercase u content in
      if word_count \<le> 3 then 0
      else
        min 6
          ((if word_count \<le> 8 then 1 else 2)
           + (if contains_one reasoning_words lower then 1 else 0)
           + (if 2 \<le> length (filter (contains_str lower) multi_step_markers) then 1 else 0)
           + (if contains_one code_marks content then 1 else 0)
           + (if 3 \<le> length (filter (\<lambda>c. c = CHR '';'') content) + count_matches '' and '' content
                + count_matches '' but '' content + count_matches '' or '' content then 1 else 0)))"

definition composite_complexity :: "nat \<Rightarrow> message_classification \<Rightarrow> string \<Rightarrow> nat" where
  "composite_complexity base c learned_context =
     (let task_adjust :: int =
            (if cl_needs_deep_model c then 2
             else if cl_intent c = Task \<or> cl_needs_tools c then 1
             else if cl_intent c = Command \<or> cl_intent c = Feedback then -1
             else 0);
          memory_adjust :: int = (if 1500 \<le> length learned_context then 1 else 0) in
      nat (max 0 (min 6 (int base + task_adjust + memory_adjust))))"

section \<open>The tiers\<close>

datatype route_tier = Fast | Standard | Premium

fun tier_code :: "route_tier \<Rightarrow> nat" where
  "tier_code Fast = 1"
| "tier_code Standard = 2"
| "tier_code Premium = 3"

definition from_code :: "nat \<Rightarrow> route_tier option" where
  "from_code n = (if n = 1 then Some Fast else if n = 2 then Some Standard else if n = 3 then Some Premium else None)"

fun tier_label :: "route_tier \<Rightarrow> string" where
  "tier_label Fast = ''Fast''"
| "tier_label Standard = ''Standard''"
| "tier_label Premium = ''Premium''"

record 'm models =
  mo_fast :: "'m option"
  mo_standard :: "'m option"
  mo_deep :: "'m option"

definition saturating_times_13 :: "nat \<Rightarrow> nat" where
  "saturating_times_13 n = min (13 * n) (2 ^ 64 - 1)"

definition required_window :: "nat \<Rightarrow> nat" where
  "required_window word_count = saturating_times_13 (saturating_times_13 word_count div 10) div 10"

definition fits_context :: "('m \<Rightarrow> nat option) \<Rightarrow> nat \<Rightarrow> 'm \<Rightarrow> bool" where
  "fits_context window word_count m =
     (case window m of Some w \<Rightarrow> required_window word_count \<le> w | None \<Rightarrow> True)"

text \<open>The model, and the tier that is recorded; nothing is recorded when no model is found.\<close>

definition select_tier ::
    "('m \<Rightarrow> nat option) \<Rightarrow> 'm models \<Rightarrow> nat \<Rightarrow> nat \<Rightarrow> 'm option \<times> route_tier option" where
  "select_tier window mo complexity word_count =
     (let fits = fits_context window word_count;
          premium = (mo_deep mo, if mo_deep mo \<noteq> None then Some Premium else None) in
      if complexity \<le> 1 then
        (case mo_fast mo of
           Some f \<Rightarrow>
             if fits f then (Some f, Some Fast)
             else (case mo_standard mo of Some s \<Rightarrow> if fits s then (Some s, Some Standard) else premium | None \<Rightarrow> premium)
         | None \<Rightarrow> (case mo_standard mo of Some s \<Rightarrow> if fits s then (Some s, Some Standard) else premium | None \<Rightarrow> premium))
      else if complexity \<le> 3 then
        (let fallback =
               (case mo_deep mo of
                  Some d \<Rightarrow> (Some d, Some Premium)
                | None \<Rightarrow> (mo_standard mo, if mo_standard mo \<noteq> None then Some Standard else None)) in
         case mo_standard mo of Some s \<Rightarrow> if fits s then (Some s, Some Standard) else fallback | None \<Rightarrow> fallback)
      else
        (case mo_deep mo of
           Some d \<Rightarrow> (Some d, Some Premium)
         | None \<Rightarrow> (mo_standard mo, if mo_standard mo \<noteq> None then Some Standard else None)))"

text \<open>
  The selection for a request: the classification is the one of the agent's classifier, or of a
  heuristic one that starts anew.  The recorded tier stays when none is recorded.
\<close>

definition select_model_for_request ::
    "unicode \<Rightarrow> ('m \<Rightarrow> nat option) \<Rightarrow> 'm models \<Rightarrow> classifier option \<Rightarrow> string \<Rightarrow> string
      \<Rightarrow> string option \<times> nat \<Rightarrow> 'm option \<times> (string option \<times> nat)" where
  "select_model_for_request u window mo cf content learned_context st =
     (let word_count = length (split_whitespace content);
          base = estimate_complexity u content word_count;
          (c, topic) =
            (case cf of
               Some k \<Rightarrow> classify u k content (fst st)
             | None \<Rightarrow> (fst (classify u (heuristic_only []) content None), fst st));
          (m, tier) = select_tier window mo (composite_complexity base c learned_context) word_count in
      (m, (topic, case tier of Some t \<Rightarrow> tier_code t | None \<Rightarrow> snd st)))"

section \<open>Properties\<close>

lemma estimate_le: "estimate_complexity u content n \<le> 6"
  by (simp add: estimate_complexity_def Let_def)

lemma tier_codes: "from_code (tier_code t) = Some t"
  by (cases t) (simp_all add: from_code_def)

lemma select_none: "fst (select_tier window mo k n) = None \<Longrightarrow>
  mo_deep mo = None \<and> (mo_standard mo = None \<or> (k \<le> 1 \<and> \<not> fits_context window n (the (mo_standard mo))))"
  by (auto simp: select_tier_def Let_def split: option.splits if_splits)

text \<open>
  The selection of a model never downgrades: a message that scores four or more goes to the deep
  model when there is one, a model chosen for the fast or, below that score, for the standard tier can
  hold the message unless nothing larger is configured, and the recorded tier names the model that was
  chosen.
\<close>

theorem selection_respects_tiers:
  assumes "select_tier window mo k n = (Some m, t)"
  shows "\<exists>tier. t = Some tier
    \<and> (tier = Fast \<longrightarrow> mo_fast mo = Some m \<and> k \<le> 1 \<and> fits_context window n m)
    \<and> (tier = Standard \<longrightarrow> mo_standard mo = Some m \<and> (fits_context window n m \<or> mo_deep mo = None))
    \<and> (tier = Premium \<longrightarrow> mo_deep mo = Some m)
    \<and> (4 \<le> k \<longrightarrow> mo_deep mo \<noteq> None \<longrightarrow> tier = Premium)"
  using assms by (auto simp: select_tier_def Let_def split: option.splits if_splits)

definition window0 :: "nat \<Rightarrow> nat option" where
  "window0 m = (if m = 1 then Some 10 else None)"

definition models0 :: "nat models" where
  "models0 = \<lparr>mo_fast = Some 1, mo_standard = None, mo_deep = Some 3\<rparr>"

theorem selection_respects_tiers_witness:
  "\<exists>tier. Some Premium = Some tier
    \<and> (tier = Fast \<longrightarrow> mo_fast models0 = Some 3 \<and> (1 :: nat) \<le> 1 \<and> fits_context window0 40 3)
    \<and> (tier = Standard \<longrightarrow> mo_standard models0 = Some 3 \<and> (fits_context window0 40 3 \<or> mo_deep models0 = None))
    \<and> (tier = Premium \<longrightarrow> mo_deep models0 = Some 3)
    \<and> (4 \<le> (1 :: nat) \<longrightarrow> mo_deep models0 \<noteq> None \<longrightarrow> tier = Premium)"
  by (rule selection_respects_tiers)
    (simp add: models0_def select_tier_def fits_context_def window0_def required_window_def saturating_times_13_def)

lemma deep_composite: "cl_needs_deep_model c \<Longrightarrow> 2 \<le> base \<Longrightarrow> 4 \<le> composite_complexity base c learned"
  by (auto simp: composite_complexity_def Let_def max_def min_def)

lemma long_estimate: "30 < n \<Longrightarrow> 2 \<le> estimate_complexity u content n"
  by (simp add: estimate_complexity_def Let_def)

text \<open>
  Without a classifier backend every message of more than thirty words goes to the deep model when
  there is one, whatever it says and however large the other models are.
\<close>

theorem long_messages_go_deep:
  assumes "30 < length (split_whitespace content)" and "mo_deep mo = Some d"
    and "\<forall>k. cf = Some k \<longrightarrow> cf_backend k = None"
  shows "fst (select_model_for_request u window mo cf content learned st) = Some d
    \<and> from_code (snd (snd (select_model_for_request u window mo cf content learned st))) = Some Premium"
proof -
  have deep: "cl_needs_deep_model (fst (classify u k content t))" if "cf_backend k = None" for k t
    using assms(1) that by (simp add: classify_def classify_heuristic_def Let_def word_complexity_def)
  define c where "c = (case cf of Some k \<Rightarrow> fst (classify u k content (fst st))
      | None \<Rightarrow> fst (classify u (heuristic_only []) content None))"
  have "cl_needs_deep_model c"
    using deep assms(3) by (auto simp: c_def heuristic_only_def split: option.splits)
  then have "4 \<le> composite_complexity (estimate_complexity u content (length (split_whitespace content))) c learned"
    using deep_composite long_estimate [OF assms(1)] by blast
  then show ?thesis
    using assms(2)
    by (auto simp: select_model_for_request_def Let_def select_tier_def c_def from_code_def
        split: option.splits prod.splits)
qed

definition long_text :: string where
  "long_text = concat (replicate 31 ''a '')"

theorem long_messages_go_deep_witness:
  "fst (select_model_for_request ascii_unicode window0 \<lparr>mo_fast = Some 1, mo_standard = Some 2, mo_deep = Some 3\<rparr> None
      long_text [] (None, 0)) = Some 3
   \<and> from_code (snd (snd (select_model_for_request ascii_unicode window0
      \<lparr>mo_fast = Some 1, mo_standard = Some 2, mo_deep = Some 3\<rparr> None long_text [] (None, 0)))) = Some Premium"
proof (rule long_messages_go_deep)
  have "split_whitespace long_text = replicate 31 ''a''" unfolding long_text_def by code_simp
  then show "30 < length (split_whitespace long_text)" by simp
qed simp_all

end
