(* ===== verification/Orchestrator.thy ===== *)
theory Orchestrator
  imports Context Routing Delegation
begin

text \<open>
  The preprocessing of an event (\<open>crates/core/src/orchestrator/mod.rs\<close> and \<open>router.rs\<close>): recall, the
  shift of a topic, the active context, the gate of authorisation and the route.

  The gate, the procedures of PluresDB, the history of conversations and the rendering of numbers are
  parameters of \<open>orchestrator_env\<close>.  What is written to the timeline is not modelled.
\<close>

section \<open>Events and routes\<close>

text \<open>The events of the platform with the fields that are read here; a changed value is its text.\<close>

datatype event =
    Message (ev_id: string) (ev_channel: string) (ev_sender: string) (ev_content: string)
  | Timer string string bool
  | State_Change string string
  | Tool_Result string
  | Model_Response string string string
  | Pre_Action_Constraint
  | Constraint_Violation
  | Task_Decomposition_Required

datatype route =
    Route_Fast
  | Route_Standard
  | Route_Deep string
  | Route_Delegate string "sub_task list"
  | Route_Procedural
  | Route_Drop

record 'x orchestrator_config =
  oc_recall_limit :: nat
  oc_exclude_categories :: "string list"
  oc_enable_subconscious :: bool
  oc_complexity_threshold :: 'x
  oc_context_token_budget :: nat
  oc_staleness_days :: nat
  oc_similarity_threshold :: 'x
  oc_topic_similarity_threshold :: 'x

definition default_orchestrator_config :: "'x arith \<Rightarrow> 'x orchestrator_config" where
  "default_orchestrator_config ar =
     \<lparr>oc_recall_limit = 10, oc_exclude_categories = [], oc_enable_subconscious = True,
      oc_complexity_threshold = ar_lit ar 7 1, oc_context_token_budget = 4096, oc_staleness_days = 30,
      oc_similarity_threshold = ar_lit ar 85 2, oc_topic_similarity_threshold = ar_lit ar 72 2\<rparr>"

section \<open>The router\<close>

record signals =
  sg_token_estimate :: nat
  sg_analytical :: bool
  sg_simple :: bool
  sg_code :: bool
  sg_research :: bool
  sg_decomposable :: bool
  sg_noise :: bool
  sg_conversational :: bool

definition analytical_keywords :: "string list" where
  "analytical_keywords =
     [''analyze'', ''explain'', ''compare'', ''design'', ''architect'', ''why'', ''how does'', ''trade-off'', ''tradeoff'',
      ''evaluate'', ''reason'', ''think through'', ''deep dive'', ''investigate'', ''plan'']"

definition code_keywords :: "string list" where
  "code_keywords =
     [''code'', ''implement'', ''build'', ''create'', ''refactor'', ''fix'', ''compile'', ''cargo'', ''rust'', ''typescript'',
      ''javascript'', ''python'', ''module'', ''crate'', ''function'']"

definition research_keywords :: "string list" where
  "research_keywords =
     [''research'', ''search'', ''find'', ''look up'', ''documentation'', ''docs'', ''source'', ''citation'', ''paper'', ''web'']"

definition noise_replies :: "string list" where
  "noise_replies =
     [''ok'', ''sure'', ''thanks'', ''got it'', ''k'', ''cool'', ''np'', ''ty'', ''thx'', ''okay'', ''alright'']"

definition conversational_keywords :: "string list" where
  "conversational_keywords =
     [''hello'', ''hi '', ''hey '', ''hey,'', ''howdy'', ''good morning'', ''good afternoon'', ''good evening'',
      ''what'' @ [CHR 0x27] @ ''s up'', ''whats up'', ''sup'', ''yo '', ''greetings'', ''say hello'', ''loud and clear'',
      ''nice to meet'', ''can you hear me'', ''are you there'', ''are you online'', ''you around'', ''checking in'']"

definition simple_patterns :: "string list" where
  "simple_patterns =
     [''yes'', ''no'', ''ok'', ''sure'', ''thanks'', ''got it'', ''do it'', ''push'', ''run'', ''status'', ''heartbeat'']"

definition multi_part_keywords :: "string list" where
  "multi_part_keywords =
     [''multiple'', ''components'', ''modules'', ''parts'', ''files'', ''directories'', ''across'', ''integrate'', ''wire'']"

definition file_extensions :: "string list" where
  "file_extensions =
     [''.rs'', ''.ts'', ''.js'', ''.py'', ''.go'', ''.java'', ''.toml'', ''.json'', ''.yml'', ''.yaml'', ''.md'']"

definition count_file_mentions :: "string \<Rightarrow> nat" where
  "count_file_mentions lower =
     length (filter (contains_str lower) file_extensions)
     + length (filter (contains_str lower) [''/src/'', ''crates/'', ''modules/''])"

definition analyze :: "unicode \<Rightarrow> string \<Rightarrow> signals" where
  "analyze u content =
     (let lower = uc_lowercase u content;
          n = length (split_whitespace content);
          analytical = contains_one analytical_keywords lower;
          code = contains_one code_keywords lower;
          multi_part = contains_one multi_part_keywords lower;
          multi_verb = contains_one [''create'', ''build'', ''implement'', ''wire'', ''integrate''] lower
            \<and> (contains_str lower '' and '' \<or> multi_part) in
      \<lparr>sg_token_estimate = n, sg_analytical = analytical,
       sg_simple = trim lower \<in> set simple_patterns \<or> n \<le> 3 \<and> \<not> analytical,
       sg_code = code, sg_research = contains_one research_keywords lower,
       sg_decomposable = 200 < n \<or> 2 \<le> count_file_mentions lower \<or> multi_verb \<or> analytical \<and> code,
       sg_noise = trim lower \<in> set noise_replies,
       sg_conversational = contains_one conversational_keywords lower
         \<or> trim lower \<in> {''hi'', ''hey'', ''yo''}\<rparr>)"

definition signal_complexity :: "'x arith \<Rightarrow> signals \<Rightarrow> 'x" where
  "signal_complexity ar s =
     (let s0 = ar_nat ar 0;
          s1 = (if 50 < sg_token_estimate s then ar_add ar s0 (ar_lit ar 3 1)
                else if 10 < sg_token_estimate s then ar_add ar s0 (ar_lit ar 15 2) else s0);
          s2 = (if sg_analytical s then ar_add ar s1 (ar_lit ar 6 1) else s1) in
      ar_min ar s2 (ar_lit ar 1 0))"

definition routed_task :: "string \<Rightarrow> string \<Rightarrow> string \<Rightarrow> sub_task" where
  "routed_task context agent input =
     (let t = sub_task_new agent input in if context = [] then t else t\<lparr>st_parent_context := Some context\<rparr>)"

definition build_subtasks :: "string \<Rightarrow> string \<Rightarrow> signals \<Rightarrow> sub_task list" where
  "build_subtasks content learned_context s =
     (let t = routed_task (trim learned_context);
          tasks = (if sg_analytical s then [t ''analyst'' (''Analyze and outline the plan for: '' @ content)] else [])
            @ (if sg_code s then [t ''coder'' (''Implement or patch: '' @ content)] else [])
            @ (if sg_research s then [t ''researcher'' (''Research supporting details for: '' @ content)] else []) in
      if tasks = [] \<and> sg_decomposable s
      then [t ''analyst'' (''Decompose this request into actionable steps: '' @ content)] else tasks)"

definition decide_message :: "'x arith \<Rightarrow> unicode \<Rightarrow> 'x orchestrator_config \<Rightarrow> string \<Rightarrow> string \<Rightarrow> route" where
  "decide_message ar u oc content learned_context =
     (let s = analyze u content; tasks = build_subtasks content learned_context s in
      if sg_noise s then Route_Drop
      else if sg_conversational s \<and> \<not> sg_code s then Route_Standard
      else if sg_simple s \<and> \<not> sg_analytical s then Route_Standard
      else if sg_decomposable s \<and> tasks \<noteq> [] then
        Route_Delegate ''decomposition signals detected (multi-part or cross-domain request)'' tasks
      else if oc_enable_subconscious oc \<and> sg_analytical s
          \<and> \<not> ar_less ar (signal_complexity ar s) (oc_complexity_threshold oc) then
        Route_Deep ''analytical query exceeds complexity threshold''
      else Route_Standard)"

fun decide :: "'x arith \<Rightarrow> unicode \<Rightarrow> 'x orchestrator_config \<Rightarrow> event \<Rightarrow> string \<Rightarrow> route" where
  "decide ar u oc (Timer _ _ _) learned_context = Route_Procedural"
| "decide ar u oc (Tool_Result _) learned_context = Route_Standard"
| "decide ar u oc (Model_Response _ _ _) learned_context = Route_Drop"
| "decide ar u oc (State_Change _ _) learned_context = Route_Procedural"
| "decide ar u oc Pre_Action_Constraint learned_context = Route_Drop"
| "decide ar u oc (Message _ _ _ content) learned_context = decide_message ar u oc content learned_context"
| "decide ar u oc Constraint_Violation learned_context = Route_Drop"
| "decide ar u oc Task_Decomposition_Required learned_context = Route_Drop"

section \<open>Routes from procedures\<close>

definition px_task :: "json \<Rightarrow> sub_task option" where
  "px_task task =
     (case Option.bind (json_get ''input'' task) json_as_str of
        None \<Rightarrow> None
      | Some input \<Rightarrow>
          Some \<lparr>st_agent_name = (case Option.bind (json_get ''agent_name'' task) json_as_str of None \<Rightarrow> ''general'' | Some n \<Rightarrow> n),
            st_input = input, st_parent_context = Option.bind (json_get ''parent_context'' task) json_as_str,
            st_steering = None\<rparr>)"

definition parse_px_route :: "json \<Rightarrow> route option" where
  "parse_px_route v =
     (case Option.bind (json_get ''route'' v) json_as_str of
        None \<Rightarrow> None
      | Some r \<Rightarrow>
          (let reason = Option.bind (json_get ''reason'' v) json_as_str in
           if r = ''standard'' then Some Route_Standard
           else if r = ''fast'' then Some Route_Fast
           else if r = ''procedural'' then Some Route_Procedural
           else if r = ''drop'' then Some Route_Drop
           else if r = ''deep'' then
             Some (Route_Deep (case reason of None \<Rightarrow> ''px routing decided deep reasoning needed'' | Some t \<Rightarrow> t))
           else if r = ''delegate'' then
             Some (Route_Delegate (case reason of None \<Rightarrow> ''px routing decided delegation needed'' | Some t \<Rightarrow> t)
               (case json_get ''tasks'' v of Some (JArray ts) \<Rightarrow> List.map_filter px_task ts | _ \<Rightarrow> []))
           else None))"

section \<open>The state\<close>

datatype gate_result = Gate_Pass | Gate_Fail string | Gate_Warning string | Gate_Approval string string

datatype topic_outcome = Shifted | Not_Shifted | Skipped_Short_Message | Skipped_Short_Reply | Skipped_No_Prior_Turn

text \<open>
  The recall goes through the memory; \<open>oe_dataflow\<close> and \<open>oe_px\<close> are there when the bridge is there and
  active.  \<open>oe_history\<close> gives the roles and previews of the messages of a chat, oldest first.
\<close>

record ('s, 'c, 'x) orchestrator_env =
  oe_config :: "'x orchestrator_config"
  oe_arith :: "'x arith"
  oe_pow :: "'x \<Rightarrow> nat \<Rightarrow> 'x"
  oe_two_digits :: "'x \<Rightarrow> string"
  oe_unicode :: unicode
  oe_regex :: "string \<Rightarrow> string \<Rightarrow> string list"
  oe_category :: "string \<Rightarrow> 'c option"
  oe_floats :: "'x floats"
  oe_store :: "('s, 'c, 'x) store_ops"
  oe_embed :: "'x embedder"
  oe_kind :: "event \<Rightarrow> string"
  oe_chat_id :: "event \<Rightarrow> string option"
  oe_gate :: "string \<Rightarrow> bool \<Rightarrow> bool \<Rightarrow> gate_result"
  oe_history :: "(string \<Rightarrow> 's \<Rightarrow> (string \<times> string) list) option"
  oe_dataflow :: "(string \<Rightarrow> string \<Rightarrow> string \<Rightarrow> 's \<Rightarrow> (string + json option) \<times> 's) option"
  oe_px :: "(message_classification option \<Rightarrow> string \<Rightarrow> string \<Rightarrow> 's \<Rightarrow> (string + json) option \<times> 's) option"
  oe_classifier :: "classifier option"

record ('s, 'x) orchestrator_state =
  os_topics :: "(string, 'x list) hmap"
  os_items :: "'x context_item list"
  os_scorer :: "'x relevance_scorer"
  os_last_topic :: "string option"
  os_store :: 's

definition record_turn_outcome ::
    "('s, 'c, 'x) orchestrator_env \<Rightarrow> bool \<Rightarrow> ('s, 'x) orchestrator_state \<Rightarrow> ('s, 'x) orchestrator_state" where
  "record_turn_outcome oe success st =
     st\<lparr>os_scorer := record_outcome (oe_arith oe) (os_items st) success (os_scorer st)\<rparr>"

fun extract_query :: "event \<Rightarrow> string option" where
  "extract_query (Message _ _ _ content) = (if trim content = [] then None else Some content)"
| "extract_query (State_Change key v) = Some (key @ '': '' @ v)"
| "extract_query _ = None"

text \<open>The names of the categories that are excluded; their meaning is a parameter.\<close>

definition parse_excluded_categories :: "(string \<Rightarrow> 'c option) \<Rightarrow> string list \<Rightarrow> 'c list" where
  "parse_excluded_categories category raw =
     List.map_filter (\<lambda>r. category (map (\<lambda>c. if c = CHR ''_'' then CHR ''-'' else c) (map ascii_lower (trim r)))) raw"

definition topic_cosine :: "'x arith \<Rightarrow> 'x list \<Rightarrow> 'x list \<Rightarrow> 'x" where
  "topic_cosine ar a b =
     (if length a \<noteq> length b \<or> a = [] then ar_nat ar 0
      else
        (let (dot, na, nb) = fold (\<lambda>(x, y) (d, n, m). (ar_add ar d (ar_mul ar x y), ar_add ar n (ar_mul ar x x),
               ar_add ar m (ar_mul ar y y))) (zip a b) (ar_nat ar 0, ar_nat ar 0, ar_nat ar 0) in
         if ar_is_zero ar (ar_sqrt ar na) \<or> ar_is_zero ar (ar_sqrt ar nb) then ar_nat ar 0
         else ar_div ar dot (ar_mul ar (ar_sqrt ar na) (ar_sqrt ar nb))))"

definition detect_topic_shift ::
    "('s, 'c, 'x) orchestrator_env \<Rightarrow> event \<Rightarrow> 'x list \<Rightarrow> ('s, 'x) orchestrator_state
      \<Rightarrow> topic_outcome \<times> ('s, 'x) orchestrator_state" where
  "detect_topic_shift oe e v st =
     (case e of
        Message _ channel _ content \<Rightarrow>
          (let st' = st\<lparr>os_topics := hm_insert channel v (os_topics st)\<rparr> in
           if length (trim content) < 20 then (Skipped_Short_Reply, st')
           else
             (case hm_get (os_topics st) channel of
                None \<Rightarrow> (Skipped_No_Prior_Turn, st')
              | Some previous \<Rightarrow>
                  (if ar_less (oe_arith oe) (topic_cosine (oe_arith oe) previous v)
                        (oc_topic_similarity_threshold (oe_config oe))
                   then Shifted else Not_Shifted, st')))
      | _ \<Rightarrow> (Not_Shifted, st))"

text \<open>A recalled memory is an item whose id is its position in the answer.\<close>

definition memory_item :: "'x arith \<Rightarrow> nat \<Rightarrow> ('c, 'x) memory \<Rightarrow> 'x context_item" where
  "memory_item ar i m =
     \<lparr>ci_id = ''mem:'' @ show_nat i, ci_content = mm_content m, ci_tokens = length (mm_content m) div 4,
      ci_relevance = ar_nat ar 0, ci_source = From_Memory, ci_age_turns = 0, ci_success_count = 0,
      ci_failure_count = 0\<rparr>"

definition memory_similarity :: "'x arith \<Rightarrow> nat \<Rightarrow> 'x" where
  "memory_similarity ar i =
     ar_sub ar (ar_lit ar 1 0) (ar_min ar (ar_mul ar (ar_nat ar i) (ar_lit ar 5 2)) (ar_lit ar 5 1))"

definition skips_recall :: "string option \<Rightarrow> bool" where
  "skips_recall q =
     (case q of None \<Rightarrow> True | Some t \<Rightarrow> (let n = length (split_whitespace t) in n \<le> 3 \<and> 0 < n))"

text \<open>The recalled memories, and whether the topic has shifted; the error is the text of the memory's.\<close>

definition recall_for ::
    "('s, 'c, 'x) orchestrator_env \<Rightarrow> event \<Rightarrow> ('s, 'x) orchestrator_state
      \<Rightarrow> (memory_error + ('c, 'x) memory list \<times> bool) \<times> ('s, 'x) orchestrator_state" where
  "recall_for oe e st =
     (case extract_query e of
        None \<Rightarrow> (Inr ([], False), st)
      | Some q \<Rightarrow>
          if skips_recall (Some q) then (Inr ([], False), st)
          else
            (case io_embed (oe_embed oe) q (os_store st) of
               (Inl err, s) \<Rightarrow> (Inl err, st\<lparr>os_store := s\<rparr>)
             | (Inr v, s) \<Rightarrow>
                 (let (outcome, st1) = detect_topic_shift oe e v (st\<lparr>os_store := s\<rparr>) in
                  case recall (oe_floats oe) (oe_store oe) (oe_embed oe) q (oc_recall_limit (oe_config oe))
                      (parse_excluded_categories (oe_category oe) (oc_exclude_categories (oe_config oe))) (os_store st1) of
                    (Inl err, s') \<Rightarrow> (Inl err, st1\<lparr>os_store := s'\<rparr>)
                  | (Inr ms, s') \<Rightarrow> (Inr (ms, outcome = Shifted), st1\<lparr>os_store := s'\<rparr>))))"

definition entity_item :: "'x arith \<Rightarrow> extracted_entity \<Rightarrow> 'x context_item" where
  "entity_item ar e =
     \<lparr>ci_id = ee_context_key e, ci_content = entity_kind_text (ee_kind e) @ '': '' @ ee_value e, ci_tokens = 10,
      ci_relevance = ar_nat ar 0, ci_source = From_Entity, ci_age_turns = 0, ci_success_count = 0,
      ci_failure_count = 0\<rparr>"

definition add_entity :: "'x arith \<Rightarrow> extracted_entity \<Rightarrow> 'x context_item list \<Rightarrow> 'x context_item list" where
  "add_entity ar e xs = (if list_ex (\<lambda>i. ci_id i = ee_context_key e) xs then xs else xs @ [entity_item ar e])"

definition event_entities :: "('s, 'c, 'x) orchestrator_env \<Rightarrow> event \<Rightarrow> extracted_entity list" where
  "event_entities oe e = (case extract_query e of None \<Rightarrow> [] | Some q \<Rightarrow> extract_entities (oe_regex oe) q)"

definition context_for ::
    "('s, 'c, 'x) orchestrator_env \<Rightarrow> event \<Rightarrow> ('c, 'x) memory list \<Rightarrow> bool \<Rightarrow> ('s, 'x) orchestrator_state
      \<Rightarrow> 'x managed_context" where
  "context_for oe e ms shifted st =
     (let ar = oe_arith oe;
          entities = event_entities oe e;
          current = fold (add_entity ar) entities (if shifted then [] else os_items st) in
      manage_context ar (oe_pow oe) current (map (\<lambda>i. memory_item ar i (ms ! i)) [0..<length ms]) entities (os_scorer st)
        (map (\<lambda>i. (''mem:'' @ show_nat i, memory_similarity ar i)) [0..<length ms])
        (oc_context_token_budget (oe_config oe)))"

definition context_text :: "('s, 'c, 'x) orchestrator_env \<Rightarrow> event \<Rightarrow> 'x managed_context \<Rightarrow> 's \<Rightarrow> string" where
  "context_text oe e mc s =
     (if mc_items mc = [] then
        (let chat = (case oe_chat_id oe e of None \<Rightarrow> [] | Some c \<Rightarrow> c);
             recent = (case oe_history oe of
               None \<Rightarrow> [] | Some h \<Rightarrow> if chat = [] then [] else rev (take 4 (rev (h chat s)))) in
         if recent = [] then []
         else ''## Recent Conversation'' @ [newline]
           @ concat (map (\<lambda>(role, preview). ''- '' @ role @ '': '' @ preview @ [newline]) recent))
      else ''## Recalled Context'' @ [newline]
        @ concat (map (\<lambda>i. ''- [rel:'' @ oe_two_digits oe (ci_relevance i) @ ''] '' @ ci_content i @ [newline]) (mc_items mc)))"

section \<open>The gate\<close>

definition destructive_tool :: "string \<Rightarrow> bool" where
  "destructive_tool t \<longleftrightarrow> starts_with_one [''delete_'', ''write_'', ''update_'', ''create_'', ''publish_''] t"

definition external_tool :: "string \<Rightarrow> bool" where
  "external_tool t \<longleftrightarrow> starts_with_one [''send_'', ''post_'', ''email_'', ''webhook_'', ''http_''] t"

text \<open>The verdict on an event; the other facts of the context are always false.\<close>

definition authorise :: "('s, 'c, 'x) orchestrator_env \<Rightarrow> event \<Rightarrow> gate_result" where
  "authorise oe e =
     (case e of
        Tool_Result t \<Rightarrow> oe_gate oe (oe_kind oe e) (destructive_tool t) (external_tool t)
      | _ \<Rightarrow> oe_gate oe (oe_kind oe e) False False)"

section \<open>The route\<close>

text \<open>The classification for the procedures: the one of the classifier, a heuristic one without it.\<close>

definition dispatch_classification ::
    "('s, 'c, 'x) orchestrator_env \<Rightarrow> event \<Rightarrow> ('s, 'x) orchestrator_state
      \<Rightarrow> message_classification option \<times> ('s, 'x) orchestrator_state" where
  "dispatch_classification oe e st =
     (case e of
        Message _ _ _ content \<Rightarrow>
          (case oe_classifier oe of
             Some k \<Rightarrow>
               (let (c, topic) = classify (oe_unicode oe) k content (os_last_topic st) in
                (Some c, st\<lparr>os_last_topic := topic\<rparr>))
           | None \<Rightarrow> (Some (fst (classify (oe_unicode oe) (heuristic_only []) content None)), st))
      | _ \<Rightarrow> (None, st))"

definition own_route :: "('s, 'c, 'x) orchestrator_env \<Rightarrow> event \<Rightarrow> string \<Rightarrow> route" where
  "own_route oe e learned = decide (oe_arith oe) (oe_unicode oe) (oe_config oe) e learned"

definition try_px_bridge_route ::
    "('s, 'c, 'x) orchestrator_env \<Rightarrow> event \<Rightarrow> string \<Rightarrow> ('s, 'x) orchestrator_state
      \<Rightarrow> route \<times> ('s, 'x) orchestrator_state" where
  "try_px_bridge_route oe e learned st =
     (case oe_px oe of
        None \<Rightarrow> (own_route oe e learned, st)
      | Some dispatch \<Rightarrow>
          (let (c, st1) = dispatch_classification oe e st;
               (r, s) = dispatch c learned (oe_kind oe e) (os_store st1) in
           (case r of
              Some (Inr v) \<Rightarrow> (case parse_px_route v of Some route \<Rightarrow> route | None \<Rightarrow> own_route oe e learned)
            | _ \<Rightarrow> own_route oe e learned,
            st1\<lparr>os_store := s\<rparr>)))"

definition initial_route ::
    "('s, 'c, 'x) orchestrator_env \<Rightarrow> event \<Rightarrow> string \<Rightarrow> ('s, 'x) orchestrator_state
      \<Rightarrow> route \<times> ('s, 'x) orchestrator_state" where
  "initial_route oe e learned st =
     (case oe_dataflow oe of
        None \<Rightarrow> try_px_bridge_route oe e learned st
      | Some process \<Rightarrow>
          (case process (oe_kind oe e) (case extract_query e of None \<Rightarrow> [] | Some q \<Rightarrow> q) learned (os_store st) of
             (Inr (Some v), s) \<Rightarrow>
               (case parse_px_route v of Some route \<Rightarrow> route | None \<Rightarrow> Route_Standard, st\<lparr>os_store := s\<rparr>)
           | (_, s) \<Rightarrow> try_px_bridge_route oe e learned (st\<lparr>os_store := s\<rparr>)))"

record preprocessed =
  pp_learned_context :: string
  pp_route :: route
  pp_guidance :: "string list"
  pp_clear_history :: bool
  pp_approval :: "(string \<times> string) option"

definition is_message :: "event \<Rightarrow> bool" where
  "is_message e \<longleftrightarrow> (case e of Message _ _ _ _ \<Rightarrow> True | _ \<Rightarrow> False)"

definition gated :: "gate_result \<Rightarrow> event \<Rightarrow> string \<Rightarrow> route \<Rightarrow> preprocessed" where
  "gated g e learned r =
     (let plain = \<lparr>pp_learned_context = learned, pp_route = r, pp_guidance = [], pp_clear_history = False,
            pp_approval = None\<rparr> in
      case g of
        Gate_Warning m \<Rightarrow>
          plain\<lparr>pp_route := (if prefix ''skip:'' m \<and> \<not> is_message e then Route_Drop else r), pp_guidance := [m]\<rparr>
      | Gate_Approval action rationale \<Rightarrow>
          plain\<lparr>pp_guidance := [''approval_required: '' @ rationale], pp_approval := Some (action, rationale)\<rparr>
      | _ \<Rightarrow> plain)"

datatype preprocess_error = Memory_Failed memory_error | Authorization_Blocked string

definition preprocess ::
    "('s, 'c, 'x) orchestrator_env \<Rightarrow> event \<Rightarrow> ('s, 'x) orchestrator_state
      \<Rightarrow> (preprocess_error + preprocessed) \<times> ('s, 'x) orchestrator_state" where
  "preprocess oe e st =
     (case recall_for oe e st of
        (Inl err, st1) \<Rightarrow> (Inl (Memory_Failed err), st1)
      | (Inr (ms, shifted), st1) \<Rightarrow>
          (let mc = context_for oe e ms shifted st1;
               st2 = st1\<lparr>os_items := mc_items mc\<rparr>;
               learned = context_text oe e mc (os_store st2) in
           case authorise oe e of
             Gate_Fail reason \<Rightarrow> (Inl (Authorization_Blocked reason), st2)
           | g \<Rightarrow> (let (r, st3) = initial_route oe e learned st2 in (Inr (gated g e learned r), st3))))"

end
