(* ===== verification/Retention.thy ===== *)
theory Retention
  imports Importance "HOL-Library.Multiset"
begin

text \<open>
  The correctness of the selection of messages: no tool result loses its call, the budget is kept, and
  what is dropped scores no more than what was chosen.
\<close>

section \<open>The tokens kept\<close>

definition kept_sum :: "nat list \<Rightarrow> bool list \<Rightarrow> nat" where
  "kept_sum tokens kept = (\<Sum>i < length kept. if kept ! i then tokens ! i else 0)"

lemma kept_sum_filter: "kept_sum tokens kept = sum_list (map ((!) tokens) (filter ((!) kept) [0..<length kept]))"
proof -
  have "sum_list (map ((!) tokens) (filter ((!) kept) [0..<n])) = (\<Sum>i < n. if kept ! i then tokens ! i else 0)" for n
    by (induction n) auto
  then show ?thesis by (simp add: kept_sum_def)
qed

lemma kept_sum_update:
  assumes "i < length kept" and "\<not> kept ! i"
  shows "kept_sum tokens (kept[i := True]) = kept_sum tokens kept + tokens ! i"
proof -
  let ?f = "\<lambda>ks j. if ks ! j then tokens ! j else (0 :: nat)"
  have "(\<Sum>j < length kept. ?f (kept[i := True]) j) = tokens ! i + (\<Sum>j \<in> {..<length kept} - {i}. ?f (kept[i := True]) j)"
    using assms(1) by (subst sum.remove [of _ i]) auto
  also have "(\<Sum>j \<in> {..<length kept} - {i}. ?f (kept[i := True]) j) = (\<Sum>j \<in> {..<length kept} - {i}. ?f kept j)"
    by (rule sum.cong) auto
  also have "tokens ! i + \<dots> = tokens ! i + (\<Sum>j < length kept. ?f kept j)"
    using assms by (subst (2) sum.remove [of _ i]) auto
  finally show ?thesis by (simp add: kept_sum_def)
qed

definition tally :: "nat list \<Rightarrow> bool list \<times> nat \<Rightarrow> bool" where
  "tally tokens st \<longleftrightarrow> snd st = kept_sum tokens (fst st)"

lemma tally_force: "tally tokens st \<Longrightarrow> i < length (fst st) \<Longrightarrow> tally tokens (force_keep tokens i st)"
  by (simp add: tally_def force_keep_def kept_sum_update)

lemma tally_fold: "tally tokens st \<Longrightarrow> \<forall>i \<in> set xs. i < length (fst st) \<Longrightarrow> tally tokens (fold (force_keep tokens) xs st)"
  by (induction xs arbitrary: st) (simp_all add: tally_force force_keep_length)

lemma force_cost: "snd (fold (force_keep tokens) xs st) \<le> snd st + sum_list (map ((!) tokens) xs)"
proof (induction xs arbitrary: st)
  case (Cons x xs)
  have "snd (force_keep tokens x st) \<le> snd st + tokens ! x" by (simp add: force_keep_def)
  then show ?case using Cons.IH [of "force_keep tokens x st"] by simp
qed simp

lemma force_kept: "i < length (fst st) \<Longrightarrow> fst (fold (force_keep tokens) xs st) ! i \<longleftrightarrow> fst st ! i \<or> i \<in> set xs"
proof (induction xs arbitrary: st)
  case (Cons x xs)
  have "fst (force_keep tokens x st) ! i \<longleftrightarrow> fst st ! i \<or> i = x"
    using Cons.prems by (cases "i = x") (simp_all add: force_keep_def)
  then show ?case using Cons.IH [of "force_keep tokens x st"] Cons.prems by (auto simp: force_keep_length)
qed simp

lemma partner_range: "i < length metas \<Longrightarrow> partners metas ! i = Some p \<Longrightarrow> p < length metas"
  using partner_of_result [of i metas] partner_of_other [of i metas p] caller_Some [of metas i p]
  by (cases "is_tool_result (metas ! i)") auto

lemma additions_range:
  "i < length metas \<Longrightarrow> \<forall>j \<in> set (additions (partners metas) kept i). j < length metas"
  using partner_range [of i metas] by (simp add: additions_def split: option.split)

lemma fill_keeps: "i < length (fst st) \<Longrightarrow> fst st ! i \<Longrightarrow> fst (fill_loop tokens partner budget order st) ! i"
proof (induction order arbitrary: st)
  case (Cons j order)
  let ?st = "fold (force_keep tokens) (additions partner (fst st) j) st"
  have "fst ?st ! i" using Cons.prems by (simp add: force_kept)
  then show ?case using Cons.IH [of st] Cons.IH [of ?st] Cons.prems by (simp add: Let_def fold_force_length)
qed simp

lemma fill_budget:
  assumes "partner = partners metas"
  shows "tally tokens st \<Longrightarrow> length (fst st) = length metas \<Longrightarrow> \<forall>i \<in> set order. i < length metas \<Longrightarrow>
    tally tokens (fill_loop tokens partner budget order st)
    \<and> snd (fill_loop tokens partner budget order st) \<le> max budget (snd st)"
proof (induction order arbitrary: st)
  case (Cons i order)
  let ?st = "fold (force_keep tokens) (additions partner (fst st) i) st"
  have "tally tokens ?st"
    using tally_fold [OF Cons.prems(1)] additions_range [of i metas] Cons.prems(2,3) assms by simp
  moreover have "snd ?st \<le> snd st + sum_list (map ((!) tokens) (additions partner (fst st) i))" by (rule force_cost)
  ultimately show ?case
    using Cons.IH [of st] Cons.IH [of ?st] Cons.prems by (auto simp: Let_def fold_force_length)
qed simp

section \<open>The order of the candidates\<close>

lemma before_total: "score_order lt \<Longrightarrow> a \<noteq> b \<Longrightarrow> \<not> comes_before lt sc a b \<Longrightarrow> comes_before lt sc b a"
  unfolding comes_before_def by (metis linorder_neqE_nat)

lemma before_trans:
  assumes "score_order lt" and "comes_before lt sc a b" and "comes_before lt sc b c"
  shows "comes_before lt sc a c"
proof -
  have asym: "\<And>x y. lt x y \<Longrightarrow> \<not> lt y x" and neg: "\<And>x y z. \<not> lt x y \<Longrightarrow> \<not> lt y z \<Longrightarrow> \<not> lt x z"
    using assms(1) unfolding score_order_def by blast+
  from assms(2,3) show ?thesis
    unfolding comes_before_def using asym neg by (metis less_trans)
qed

lemma insert_by_sorted:
  assumes "score_order lt"
  shows "sorted_wrt (comes_before lt sc) ys \<Longrightarrow> x \<notin> set ys \<Longrightarrow>
    sorted_wrt (comes_before lt sc) (insert_by (comes_before lt sc) x ys)"
proof (induction ys)
  case (Cons y ys)
  show ?case
  proof (cases "comes_before lt sc y x")
    case True
    then show ?thesis using Cons by (simp add: insert_by_set)
  next
    case False
    then have "comes_before lt sc x y" using before_total [OF assms] Cons.prems(2) by auto
    then show ?thesis using Cons.prems(1) False before_trans [OF assms] by auto
  qed
qed simp

lemma candidates_sorted:
  assumes "score_order lt"
  shows "sorted_wrt (comes_before lt sc) (candidates lt sc kept)"
proof -
  have "sorted_wrt (comes_before lt sc) (foldr (insert_by (comes_before lt sc)) xs [])
      \<and> set (foldr (insert_by (comes_before lt sc)) xs []) = set xs" if "distinct xs" for xs
    using that by (induction xs) (simp_all add: insert_by_set insert_by_sorted [OF assms])
  then show ?thesis by (simp add: candidates_def)
qed

text \<open>
  The loop chooses candidates from the front of the order and takes each with its partner; a candidate
  that it does not keep comes after every chosen one.
\<close>

definition chosen_first ::
    "('x \<Rightarrow> 'x \<Rightarrow> bool) \<Rightarrow> (nat \<Rightarrow> 'x) \<Rightarrow> nat option list \<Rightarrow> nat list \<Rightarrow> bool list \<Rightarrow> bool list \<Rightarrow> bool" where
  "chosen_first lt sc partner order kept kept' \<longleftrightarrow>
     (\<exists>chosen \<subseteq> set order.
        (\<forall>i < length kept. kept' ! i \<longleftrightarrow> kept ! i \<or> i \<in> chosen \<or> (\<exists>c \<in> chosen. partner ! c = Some i)) \<and>
        (\<forall>c \<in> chosen. \<forall>d \<in> set order. \<not> kept' ! d \<longrightarrow> comes_before lt sc c d))"

lemma fill_chooses_first:
  assumes "partner = partners metas"
  shows "sorted_wrt (comes_before lt sc) order \<Longrightarrow> length (fst st) = length metas \<Longrightarrow>
    \<forall>i \<in> set order. i < length metas \<Longrightarrow>
    chosen_first lt sc partner order (fst st) (fst (fill_loop tokens partner budget order st))"
proof (induction order arbitrary: st)
  case Nil
  then show ?case by (simp add: chosen_first_def)
next
  case (Cons i order)
  let ?add = "additions partner (fst st) i"
  let ?st = "fold (force_keep tokens) ?add st"
  have rest: "sorted_wrt (comes_before lt sc) order" "\<forall>j \<in> set order. j < length metas"
    using Cons.prems by auto
  consider (kept) "fst st ! i"
    | (taken) "\<not> fst st ! i" "snd st + sum_list (map ((!) tokens) ?add) \<le> budget"
    | (stop) "\<not> fst st ! i" "\<not> snd st + sum_list (map ((!) tokens) ?add) \<le> budget" by blast
  then show ?case
  proof cases
    case kept
    then have step: "fill_loop tokens partner budget (i # order) st = fill_loop tokens partner budget order st" by simp
    obtain chosen where c: "chosen \<subseteq> set order"
        "\<forall>j < length (fst st). fst (fill_loop tokens partner budget order st) ! j \<longleftrightarrow>
          fst st ! j \<or> j \<in> chosen \<or> (\<exists>c \<in> chosen. partner ! c = Some j)"
        "\<forall>c \<in> chosen. \<forall>d \<in> set order. \<not> fst (fill_loop tokens partner budget order st) ! d \<longrightarrow> comes_before lt sc c d"
      using Cons.IH [OF rest(1) Cons.prems(2) rest(2)] unfolding chosen_first_def by blast
    have "fst (fill_loop tokens partner budget order st) ! i" using c(2) kept Cons.prems(2,3) by simp
    then show ?thesis unfolding step chosen_first_def using c by (intro exI [of _ chosen]) auto
  next
    case stop
    then have "fill_loop tokens partner budget (i # order) st = st" by (simp add: Let_def)
    then show ?thesis unfolding chosen_first_def by (intro exI [of _ "{}"]) simp
  next
    case taken
    then have step: "fill_loop tokens partner budget (i # order) st = fill_loop tokens partner budget order ?st"
      by (simp add: Let_def)
    have len: "length (fst ?st) = length metas" using Cons.prems(2) by (simp add: fold_force_length)
    have now: "fst ?st ! j \<longleftrightarrow> fst st ! j \<or> j = i \<or> partner ! i = Some j" if "j < length metas" for j
      using that Cons.prems(2) by (subst force_kept) (auto simp: additions_def split: option.splits)
    obtain chosen where c: "chosen \<subseteq> set order"
        "\<forall>j < length (fst ?st). fst (fill_loop tokens partner budget order ?st) ! j \<longleftrightarrow>
          fst ?st ! j \<or> j \<in> chosen \<or> (\<exists>c \<in> chosen. partner ! c = Some j)"
        "\<forall>c \<in> chosen. \<forall>d \<in> set order. \<not> fst (fill_loop tokens partner budget order ?st) ! d \<longrightarrow> comes_before lt sc c d"
      using Cons.IH [OF rest(1) len rest(2)] unfolding chosen_first_def by blast
    let ?k = "fst (fill_loop tokens partner budget order ?st)"
    have "?k ! j \<longleftrightarrow> fst st ! j \<or> j \<in> insert i chosen \<or> (\<exists>c \<in> insert i chosen. partner ! c = Some j)"
      if "j < length (fst st)" for j
      using c(2) now len that Cons.prems(2) by (metis insert_iff)
    moreover have "?k ! i" using c(2) now len Cons.prems(3) by simp
    moreover have "comes_before lt sc i d" if "d \<in> set order" for d using Cons.prems(1) that by simp
    ultimately show ?thesis
      unfolding step chosen_first_def using c(1,3) by (intro exI [of _ "insert i chosen"]) auto
  qed
qed

section \<open>The selection as a whole\<close>

text \<open>The newest message and its partner, which are kept whatever they cost.\<close>

definition forced :: "'x message_meta list \<Rightarrow> nat list" where
  "forced metas = (length metas - 1) # (case partners metas ! (length metas - 1) of None \<Rightarrow> [] | Some p \<Rightarrow> [p])"

definition selection_tokens :: "(string \<Rightarrow> nat option) \<Rightarrow> 'x message_meta list \<Rightarrow> nat list" where
  "selection_tokens tk metas = map (\<lambda>m. message_token_count tk (mt_content m)) metas"

definition score_of :: "'x arith \<Rightarrow> (string \<Rightarrow> nat option) \<Rightarrow> 'x message_meta list \<Rightarrow> nat \<Rightarrow> 'x" where
  "score_of ar tk metas i = ms_composite (score_message_importance ar tk metas i)"

definition forced_state :: "nat list \<Rightarrow> 'x message_meta list \<Rightarrow> bool list \<times> nat" where
  "forced_state tokens metas = fold (force_keep tokens) (forced metas) (replicate (length metas) False, 0)"

definition final_state ::
    "'x arith \<Rightarrow> (string \<Rightarrow> nat option) \<Rightarrow> 'x message_meta list \<Rightarrow> nat \<Rightarrow> bool list \<times> nat" where
  "final_state ar tk metas budget =
     (let tokens = selection_tokens tk metas; st = forced_state tokens metas in
      fill_loop tokens (partners metas) budget
        (candidates (ar_less ar) ((!) (map (score_of ar tk metas) [0..<length metas])) (fst st)) st)"

lemma select_by_importance_eq:
  assumes "budget < sum_list (selection_tokens tk metas)"
  shows "select_by_importance ar tk metas budget =
    (let st = final_state ar tk metas budget in
     \<lparr>rt_keep = filter (\<lambda>i. fst st ! i) [0..<length metas], rt_drop = filter (\<lambda>i. \<not> fst st ! i) [0..<length metas],
      rt_kept_tokens = snd st\<rparr>)"
proof -
  have "metas \<noteq> []" using assms by (auto simp: selection_tokens_def)
  then show ?thesis
    using assms
    unfolding select_by_importance_def Let_def selection_tokens_def [symmetric] score_of_def [symmetric]
    by (simp add: final_state_def forced_state_def forced_def Let_def split: option.split)
qed

lemma forced_range: "metas \<noteq> [] \<Longrightarrow> \<forall>i \<in> set (forced metas). i < length metas"
  using partner_range [of "length metas - 1" metas] by (simp add: forced_def split: option.split)

lemma forced_facts:
  assumes "metas \<noteq> []"
  shows "length (fst (forced_state tokens metas)) = length metas"
    and "tally tokens (forced_state tokens metas)"
    and "i < length metas \<Longrightarrow> fst (forced_state tokens metas) ! i \<longleftrightarrow> i \<in> set (forced metas)"
    and "calls_kept metas (fst (forced_state tokens metas))"
proof -
  let ?z = "(replicate (length metas) False, 0 :: nat)"
  show "length (fst (forced_state tokens metas)) = length metas"
    by (simp add: forced_state_def fold_force_length)
  show "tally tokens (forced_state tokens metas)"
    unfolding forced_state_def using tally_fold [of tokens ?z] forced_range [OF assms]
    by (simp add: tally_def kept_sum_def)
  show "i < length metas \<Longrightarrow> fst (forced_state tokens metas) ! i \<longleftrightarrow> i \<in> set (forced metas)"
    by (simp add: forced_state_def force_kept)
  have "forced metas = additions (partners metas) (fst ?z) (length metas - 1)"
    using partner_range [of "length metas - 1" metas] assms by (auto simp: forced_def additions_def split: option.split)
  then show "calls_kept metas (fst (forced_state tokens metas))"
    using kept_pair [of metas "fst ?z" "length metas - 1" _ tokens 0] assms
    by (simp add: forced_state_def calls_kept_def)
qed

lemma order_range:
  "metas \<noteq> [] \<Longrightarrow> set (candidates lt sc (fst (forced_state tokens metas))) = {i. i < length metas \<and> i \<notin> set (forced metas)}"
  by (auto simp: candidates_set forced_facts)

text \<open>
  C14: When the history is cut, no tool result loses the call it answers: every tool result that is kept
  has the assistant's message with its call among the kept ones.
\<close>

theorem kept_results_have_their_call:
  assumes "i \<in> set (rt_keep (select_by_importance ar tk metas budget))"
    and "is_tool_result (metas ! i)" and "caller_of metas i = Some a"
  shows "a \<in> set (rt_keep (select_by_importance ar tk metas budget))"
proof (cases "budget < sum_list (selection_tokens tk metas)")
  case False
  then show ?thesis using assms caller_Some [OF assms(3)]
    by (auto simp: select_by_importance_def selection_tokens_def Let_def)
next
  case True
  then have ne: "metas \<noteq> []" by (auto simp: selection_tokens_def)
  have "\<forall>i \<in> set (candidates lt sc (fst (forced_state t metas))). i < length metas" for lt sc t
    using order_range [OF ne] by blast
  then have "calls_kept metas (fst (final_state ar tk metas budget))"
    using fill_keeps_calls [OF refl forced_facts(4,1) [OF ne]] unfolding final_state_def Let_def by blast
  moreover have keep: "rt_keep (select_by_importance ar tk metas budget)
      = filter (\<lambda>i. fst (final_state ar tk metas budget) ! i) [0..<length metas]"
    by (simp add: select_by_importance_eq [OF True] Let_def)
  ultimately have "fst (final_state ar tk metas budget) ! a"
    using assms unfolding calls_kept_def by (metis (mono_tags) atLeastLessThan_iff filter_is_subset in_mono
        mem_Collect_eq set_filter set_upt)
  then show ?thesis using assms(1) caller_Some [OF assms(3)] unfolding keep by simp
qed

text \<open>
  The selection splits the history in two and counts what it keeps: the newest message is always
  kept, and the tokens kept are within the budget, unless the newest message and its partner alone
  exceed it.
\<close>

theorem selection_within_budget:
  assumes "metas \<noteq> []" and "plan = select_by_importance ar tk metas budget"
  shows "mset (rt_keep plan) + mset (rt_drop plan) = mset [0..<length metas]
    \<and> length metas - 1 \<in> set (rt_keep plan)
    \<and> rt_kept_tokens plan = sum_list (map ((!) (selection_tokens tk metas)) (rt_keep plan))
    \<and> rt_kept_tokens plan \<le> max budget (sum_list (map ((!) (selection_tokens tk metas)) (forced metas)))"
proof (cases "budget < sum_list (selection_tokens tk metas)")
  case False
  let ?t = "selection_tokens tk metas"
  have all: "map ((!) ?t) [0..<length metas] = ?t"
    using map_nth [of ?t] by (simp add: selection_tokens_def)
  have "plan = \<lparr>rt_keep = [0..<length metas], rt_drop = [], rt_kept_tokens = sum_list ?t\<rparr>"
    using False assms unfolding select_by_importance_def Let_def selection_tokens_def [symmetric] by simp
  then have plan: "rt_keep plan = [0..<length metas]" "rt_drop plan = []" "rt_kept_tokens plan = sum_list ?t"
    by simp_all
  show ?thesis
    unfolding plan all
  proof (intro conjI)
    show "length metas - 1 \<in> set [0..<length metas]" using assms(1) by (cases metas) simp_all
    show "sum_list ?t \<le> max budget (sum_list (map ((!) ?t) (forced metas)))"
      using False by (intro max.coboundedI1) (simp only: not_less)
  qed simp_all
next
  case True
  let ?t = "selection_tokens tk metas"
  let ?st = "final_state ar tk metas budget"
  let ?order = "candidates (ar_less ar) ((!) (map (score_of ar tk metas) [0..<length metas])) (fst (forced_state ?t metas))"
  have range: "\<forall>i \<in> set ?order. i < length metas" using order_range [OF assms(1)] by auto
  have st: "?st = fill_loop ?t (partners metas) budget ?order (forced_state ?t metas)"
    by (simp add: final_state_def Let_def)
  have t: "tally ?t ?st" and le: "snd ?st \<le> max budget (snd (forced_state ?t metas))"
    using fill_budget [OF refl forced_facts(2,1) [OF assms(1)] range] by (simp_all add: st)
  have len: "length (fst ?st) = length metas"
    using fill_keeps_calls [OF refl forced_facts(4,1) [OF assms(1)] range] by (simp add: st)
  have forced: "snd (forced_state ?t metas) \<le> sum_list (map ((!) ?t) (forced metas))"
    using force_cost [of ?t "forced metas" "(replicate (length metas) False, 0)"] by (simp add: forced_state_def)
  have last: "length metas - 1 < length metas" using assms(1) by simp
  then have "fst (forced_state ?t metas) ! (length metas - 1)"
    using forced_facts(3) [OF assms(1)] by (simp add: forced_def)
  then have newest: "fst ?st ! (length metas - 1)"
    using fill_keeps [of "length metas - 1" "forced_state ?t metas"] forced_facts(1) [OF assms(1)] last
    by (simp add: st)
  have split: "mset (filter P xs) + mset (filter (\<lambda>i. \<not> P i) xs) = mset xs" for P and xs :: "nat list"
    by (induction xs) auto
  have plan: "rt_keep plan = filter (\<lambda>i. fst ?st ! i) [0..<length metas]"
      "rt_drop plan = filter (\<lambda>i. \<not> fst ?st ! i) [0..<length metas]" "rt_kept_tokens plan = snd ?st"
    by (simp_all add: assms(2) select_by_importance_eq [OF True] Let_def)
  show ?thesis
    unfolding plan
  proof (intro conjI)
    show "mset (filter (\<lambda>i. fst ?st ! i) [0..<length metas]) + mset (filter (\<lambda>i. \<not> fst ?st ! i) [0..<length metas])
        = mset [0..<length metas]" by (rule split)
    show "length metas - 1 \<in> set (filter (\<lambda>i. fst ?st ! i) [0..<length metas])" using newest last by simp
    show "snd ?st = sum_list (map ((!) ?t) (filter (\<lambda>i. fst ?st ! i) [0..<length metas]))"
      using t by (simp add: tally_def kept_sum_filter len)
    show "snd ?st \<le> max budget (sum_list (map ((!) ?t) (forced metas)))" using le forced by simp
  qed
qed

text \<open>
  What is dropped scores no more than what was chosen: the messages kept are the newest with its
  partner, some chosen by their score, and the partners of those; no dropped message has a higher score
  than a chosen one.
\<close>

theorem dropped_score_no_more:
  assumes "score_order (ar_less ar)" and "metas \<noteq> []" and "plan = select_by_importance ar tk metas budget"
  shows "\<exists>chosen. set (rt_keep plan) \<subseteq> set (forced metas) \<union> chosen \<union> {p. \<exists>c \<in> chosen. partners metas ! c = Some p}
    \<and> chosen \<subseteq> set (rt_keep plan)
    \<and> (\<forall>c \<in> chosen. \<forall>d \<in> set (rt_drop plan). \<not> ar_less ar (score_of ar tk metas c) (score_of ar tk metas d))"
proof (cases "budget < sum_list (selection_tokens tk metas)")
  case False
  then show ?thesis using assms(2,3)
    by (intro exI [of _ "{0..<length metas}"]) (auto simp: select_by_importance_def selection_tokens_def Let_def)
next
  case True
  let ?t = "selection_tokens tk metas"
  let ?sc = "(!) (map (score_of ar tk metas) [0..<length metas])"
  let ?f = "forced_state ?t metas"
  let ?order = "candidates (ar_less ar) ?sc (fst ?f)"
  let ?kept = "fst (final_state ar tk metas budget)"
  have range: "set ?order = {i. i < length metas \<and> i \<notin> set (forced metas)}" by (rule order_range [OF assms(2)])
  have "chosen_first (ar_less ar) ?sc (partners metas) ?order (fst ?f) ?kept"
    using fill_chooses_first [OF refl candidates_sorted [OF assms(1)] forced_facts(1) [OF assms(2)]] range
    by (simp add: final_state_def Let_def)
  then obtain chosen where c: "chosen \<subseteq> set ?order"
      "\<forall>i < length metas. ?kept ! i \<longleftrightarrow> fst ?f ! i \<or> i \<in> chosen \<or> (\<exists>c \<in> chosen. partners metas ! c = Some i)"
      "\<forall>c \<in> chosen. \<forall>d \<in> set ?order. \<not> ?kept ! d \<longrightarrow> comes_before (ar_less ar) ?sc c d"
    unfolding chosen_first_def forced_facts(1) [OF assms(2)] by blast
  have lt: "c < length metas" if "c \<in> chosen" for c using c(1) range that by blast
  have "\<not> ar_less ar (score_of ar tk metas x) (score_of ar tk metas d)"
    if "x \<in> chosen" "d < length metas" "\<not> ?kept ! d" for x d
  proof -
    have "d \<in> set ?order" using that c(2) forced_facts(3) [OF assms(2)] range by simp
    then have "comes_before (ar_less ar) ?sc x d" using c(3) that by blast
    then have "\<not> ar_less ar (?sc x) (?sc d)" using assms(1) unfolding comes_before_def score_order_def by blast
    then show ?thesis using lt [OF that(1)] that(2) by simp
  qed
  then show ?thesis
    using c(2) lt forced_facts(3) [OF assms(2)]
    by (intro exI [of _ chosen]) (auto simp: assms(3) select_by_importance_eq [OF True] Let_def)
qed

section \<open>Examples\<close>

text \<open>Fixed-point arithmetic with six digits.\<close>

definition fixed_point :: "int arith" where
  "fixed_point = \<lparr>ar_lit = (\<lambda>n k. int n * 1000000 div 10 ^ k), ar_nat = (\<lambda>n. int n * 1000000), ar_add = (+),
     ar_sub = (-), ar_mul = (\<lambda>a b. a * b div 1000000), ar_div = (\<lambda>a b. a * 1000000 div b), ar_min = min,
     ar_max = max, ar_sqrt = id, ar_sum = sum_list, ar_less = (<), ar_is_zero = (\<lambda>x. x = 0)\<rparr>"

definition meta :: "string \<Rightarrow> string \<Rightarrow> bool \<Rightarrow> string option \<Rightarrow> int message_meta" where
  "meta role content calls cid = \<lparr>mt_role = role, mt_content = content, mt_has_tool_calls = calls,
     mt_tool_call_id = cid, mt_embedding = None\<rparr>"

definition two_results :: "int message_meta list" where
  "two_results = [meta ''assistant'' [] True None, meta ''tool'' ''aaaaaaaa'' False (Some ''1''),
     meta ''tool'' ''failed'' False (Some ''2''), meta ''user'' ''ok'' False None]"

lemma two_results_scores:
  "map (score_of fixed_point (\<lambda>s. Some (length s)) two_results) [0..<length two_results]
     = [432500, 272699, 969166, 650466]"
  by code_simp

lemma two_results_tokens: "selection_tokens (\<lambda>s. Some (length s)) two_results = [0, 8, 6, 2]"
  by code_simp

text \<open>
  A call can lose a result: of two results of one call the selection can keep the call and the second
  result and drop the first, so the history has a call that is not answered.
\<close>

theorem call_loses_first_result:
  "select_by_importance fixed_point (\<lambda>s. Some (length s)) two_results 10
     = \<lparr>rt_keep = [0, 2, 3], rt_drop = [1], rt_kept_tokens = 8\<rparr>
   \<and> caller_of two_results 1 = Some 0 \<and> caller_of two_results 2 = Some 0"
proof (intro conjI)
  have "final_state fixed_point (\<lambda>s. Some (length s)) two_results 10 = ([True, False, True, True], 8)"
    unfolding final_state_def Let_def two_results_scores two_results_tokens by code_simp
  moreover have "length two_results = 4" by code_simp
  ultimately show "select_by_importance fixed_point (\<lambda>s. Some (length s)) two_results 10
      = \<lparr>rt_keep = [0, 2, 3], rt_drop = [1], rt_kept_tokens = 8\<rparr>"
    by (subst select_by_importance_eq) (simp_all add: two_results_tokens upt_rec)
  show "caller_of two_results 1 = Some 0" "caller_of two_results 2 = Some 0" by code_simp+
qed

theorem kept_results_have_their_call_witness:
  "0 \<in> set (rt_keep (select_by_importance fixed_point (\<lambda>s. Some (length s)) two_results 100))"
proof (rule kept_results_have_their_call [where i = 2])
  have "length two_results = 4" by code_simp
  then show "2 \<in> set (rt_keep (select_by_importance fixed_point (\<lambda>s. Some (length s)) two_results 100))"
    using two_results_tokens by (simp add: select_by_importance_def selection_tokens_def Let_def)
  show "is_tool_result (two_results ! 2)" "caller_of two_results 2 = Some 0" by code_simp+
qed

theorem selection_within_budget_witness:
  "rt_kept_tokens (select_by_importance fixed_point (\<lambda>s. Some (length s)) two_results 10) \<le> 10"
proof -
  have "two_results \<noteq> []" by code_simp
  moreover have "sum_list (map ((!) [0, 8, 6, 2]) (forced two_results)) = (2 :: nat)" by code_simp
  ultimately show ?thesis
    using selection_within_budget [of two_results _ fixed_point "\<lambda>s. Some (length s)" 10, OF _ refl]
    by (simp add: two_results_tokens)
qed

theorem dropped_score_no_more_witness:
  "\<exists>chosen. set (rt_keep (select_by_importance fixed_point (\<lambda>s. Some (length s)) two_results 10))
      \<subseteq> set (forced two_results) \<union> chosen \<union> {p. \<exists>c \<in> chosen. partners two_results ! c = Some p}
    \<and> chosen \<subseteq> set (rt_keep (select_by_importance fixed_point (\<lambda>s. Some (length s)) two_results 10))
    \<and> (\<forall>c \<in> chosen. \<forall>d \<in> set (rt_drop (select_by_importance fixed_point (\<lambda>s. Some (length s)) two_results 10)).
      \<not> ar_less fixed_point (score_of fixed_point (\<lambda>s. Some (length s)) two_results c)
        (score_of fixed_point (\<lambda>s. Some (length s)) two_results d))"
proof (rule dropped_score_no_more [OF _ _ refl])
  show "score_order (ar_less fixed_point)" by (auto simp: score_order_def fixed_point_def)
  show "two_results \<noteq> []" by code_simp
qed

end
