(* ===== verification/Preprocessing.thy ===== *)
theory Preprocessing
  imports Orchestrator Retention Memory_Contract
begin

text \<open>
  What holds of the preprocessing of events: where the items of the active context come from, the budget,
  the agents a message is delegated to, and the messages that are dropped.
\<close>

section \<open>The active context\<close>

lemma add_entity_origin:
  "i \<in> set (fold (add_entity ar) es xs) \<Longrightarrow> i \<in> set xs \<or> (\<exists>e \<in> set es. i = entity_item ar e)"
proof (induction es arbitrary: xs)
  case (Cons e es)
  then consider "i \<in> set (add_entity ar e xs)" | "\<exists>x \<in> set es. i = entity_item ar x" by force
  then show ?case by cases (auto simp: add_entity_def split: if_splits)
qed simp

lemma add_entity_keeps: "set xs \<subseteq> set (fold (add_entity ar) es xs)"
proof (induction es arbitrary: xs)
  case (Cons e es)
  have "set xs \<subseteq> set (add_entity ar e xs)" by (auto simp: add_entity_def)
  then show ?case using Cons.IH [of "add_entity ar e xs"] by auto
qed simp

lemma entity_key:
  "x \<in> set (event_entities oe e) \<Longrightarrow>
    \<exists>l \<in> {''ado:workitem:'', ''git:sha:'', ''file:'', ''repo:'', ''url:''}. prefix l (ee_context_key x)"
  by (auto simp: event_entities_def extract_entities_def entity_of_def split: option.splits)

lemma entity_not_memory:
  assumes "x \<in> set (event_entities oe e)" shows "ee_context_key x \<noteq> ''mem:'' @ n"
  using entity_key [OF assms] by (auto simp: prefix_def)

text \<open>The items of the context, by their ids.\<close>

lemma context_origin:
  assumes "i \<in> set (mc_items (context_for oe e ms shifted st))"
  obtains (old) c where "c \<in> set (os_items st)" "\<not> shifted" "ci_id i = ci_id c" "ci_content i = ci_content c"
    | (entity) x where "x \<in> set (event_entities oe e)" "ci_id i = ee_context_key x"
        "ci_content i = entity_kind_text (ee_kind x) @ '': '' @ ee_value x"
    | (memory) j where "j < length ms" "ci_id i = ''mem:'' @ show_nat j" "ci_content i = mm_content (ms ! j)"
        "shifted \<or> ci_id i \<notin> ci_id ` set (os_items st)"
proof -
  let ?old = "if shifted then [] else os_items st"
  let ?current = "fold (add_entity (oe_arith oe)) (event_entities oe e) ?old"
  let ?recalled = "map (\<lambda>j. memory_item (oe_arith oe) j (ms ! j)) [0..<length ms]"
  have "(\<exists>c \<in> set ?current. ci_id i = ci_id c \<and> ci_content i = ci_content c)
      \<or> (\<exists>r \<in> set ?recalled. ci_id i = ci_id r \<and> ci_content i = ci_content r \<and> ci_id r \<notin> ci_id ` set ?current)"
    using assms unfolding context_for_def Let_def by (rule managed_origin)
  then show thesis
  proof
    assume "\<exists>c \<in> set ?current. ci_id i = ci_id c \<and> ci_content i = ci_content c"
    then obtain c where c: "c \<in> set ?current" "ci_id i = ci_id c" "ci_content i = ci_content c" by blast
    from add_entity_origin [OF c(1)] show thesis
    proof
      assume "c \<in> set ?old"
      then show thesis using old c(2,3) by (cases shifted) auto
    next
      assume "\<exists>x \<in> set (event_entities oe e). c = entity_item (oe_arith oe) x"
      then obtain x where "x \<in> set (event_entities oe e)" "c = entity_item (oe_arith oe) x" by blast
      then show thesis using entity [of x] c(2,3) by (simp add: entity_item_def)
    qed
  next
    assume "\<exists>r \<in> set ?recalled. ci_id i = ci_id r \<and> ci_content i = ci_content r \<and> ci_id r \<notin> ci_id ` set ?current"
    then obtain j where j: "j < length ms" "ci_id i = ''mem:'' @ show_nat j" "ci_content i = mm_content (ms ! j)"
        "ci_id i \<notin> ci_id ` set ?current"
      by (auto simp: memory_item_def)
    have "ci_id ` set ?old \<subseteq> ci_id ` set ?current" using add_entity_keeps by (rule image_mono)
    then have "ci_id i \<notin> ci_id ` set ?old" using j(4) by blast
    then have "shifted \<or> ci_id i \<notin> ci_id ` set (os_items st)" by (cases shifted) simp_all
    then show thesis using memory j(1-3) by blast
  qed
qed

text \<open>
  The active context stays within its budget, which is what the reported number of tokens says.
\<close>

theorem active_context_within_budget:
  "sum_list (map ci_tokens (mc_items (context_for oe e ms shifted st))) = mc_tokens_used (context_for oe e ms shifted st)
   \<and> mc_tokens_used (context_for oe e ms shifted st) \<le> oc_context_token_budget (oe_config oe)"
proof -
  obtain xs where "context_for oe e ms shifted st =
      \<lparr>mc_items = fst (fit_budget (oc_context_token_budget (oe_config oe)) xs 0),
       mc_token_budget = oc_context_token_budget (oe_config oe),
       mc_tokens_used = snd (fit_budget (oc_context_token_budget (oe_config oe)) xs 0)\<rparr>"
    unfolding context_for_def manage_context_def Let_def split_beta by blast
  then show ?thesis
    using fit_budget_used [of _ xs 0] fit_budget_bound [of 0 _ xs] by simp
qed

text \<open>
  When the topic has shifted nothing of the earlier context stays: every item is one of the memories
  that were recalled for this message or an entity of it.
\<close>

theorem shift_forgets_context:
  assumes "i \<in> set (mc_items (context_for oe e ms True st))"
  shows "(\<exists>j < length ms. ci_id i = ''mem:'' @ show_nat j \<and> ci_content i = mm_content (ms ! j))
    \<or> (\<exists>x \<in> set (event_entities oe e). ci_id i = ee_context_key x
        \<and> ci_content i = entity_kind_text (ee_kind x) @ '': '' @ ee_value x)"
  using assms by (cases rule: context_origin) auto

text \<open>
  The memories of an earlier message hide those that are recalled now: an item is called by the
  position of its memory in the answer, and as long as the topic has not shifted an item that is there
  keeps its place, so the memory that is recalled at that position never gets into the context.
\<close>

theorem stale_memories_hide_recall:
  assumes "c \<in> set (os_items st)" and "ci_id c = ''mem:'' @ show_nat j"
    and "i \<in> set (mc_items (context_for oe e ms False st))" and "ci_id i = ''mem:'' @ show_nat j"
  shows "\<exists>c' \<in> set (os_items st). ci_id c' = ci_id i \<and> ci_content c' = ci_content i"
  using assms(3)
proof (cases rule: context_origin)
  case (entity x)
  then show ?thesis using entity_not_memory [of x oe e "show_nat j"] assms(4) by simp
next
  case (memory k)
  moreover have "ci_id i \<in> ci_id ` set (os_items st)" using assms(1,2,4) by (metis image_eqI)
  ultimately show ?thesis by blast
qed (metis)

section \<open>Routes\<close>

lemma builtin_registered:
  "a \<in> {''analyst'', ''coder'', ''researcher''} \<Longrightarrow> agent_get a (register_builtins m) \<noteq> None"
  by (auto simp: agent_get_def register_builtins_def agent_register_def hm_get_insert analyst_def coder_def
      researcher_def agent_new_def with_tools_def with_max_turns_def)

text \<open>
  A message is delegated only to agents that are registered from the start, and to at least one; the
  learned context goes with every task.
\<close>

theorem delegated_to_builtins:
  assumes "decide ar u oc e learned = Route_Delegate reason tasks"
  shows "tasks \<noteq> [] \<and> (\<forall>t \<in> set tasks. agent_get (st_agent_name t) (register_builtins m) \<noteq> None
    \<and> st_parent_context t = (if trim learned = [] then None else Some (trim learned)))"
proof -
  obtain k ch s content where e: "e = Message k ch s content" using assms by (cases e) auto
  let ?s = "analyze u content"
  have t: "tasks = build_subtasks content learned ?s" "tasks \<noteq> []"
    using assms by (auto simp: e decide_message_def Let_def split: if_splits)
  then show ?thesis
    using builtin_registered
    by (auto simp: build_subtasks_def Let_def routed_task_def sub_task_new_def split: if_splits)
qed

text \<open>
  A message that is only an acknowledgement is dropped, with the recall, the gate and the own router:
  it gets no answer, although the gate is written never to drop a message.
\<close>

theorem acknowledgement_dropped:
  assumes "trim (uc_lowercase (oe_unicode oe) content) \<in> set noise_replies"
    and "length (split_whitespace content) \<le> 3" and "trim content \<noteq> []" and "split_whitespace content \<noteq> []"
    and "oe_dataflow oe = None" and "oe_px oe = None" and "authorise oe (Message k ch sender content) = g"
    and "\<forall>reason. g \<noteq> Gate_Fail reason"
  shows "\<exists>p. fst (preprocess oe (Message k ch sender content) st) = Inr p \<and> pp_route p = Route_Drop"
proof -
  let ?e = "Message k ch sender content"
  have "recall_for oe ?e st = (Inr ([], False), st)"
    using assms(2-4) by (simp add: recall_for_def skips_recall_def Let_def)
  moreover have "own_route oe ?e learned = Route_Drop" for learned
    using assms(1) by (simp add: own_route_def decide_message_def analyze_def Let_def)
  ultimately show ?thesis
    using assms(5-8)
    by (cases g) (simp_all add: preprocess_def Let_def initial_route_def try_px_bridge_route_def gated_def)
qed

section \<open>Examples\<close>

definition env1 :: "((string, int, unit) in_memory, string, int) orchestrator_env" where
  "env1 = \<lparr>oe_config = (default_orchestrator_config fixed_point)\<lparr>oc_context_token_budget := 5\<rparr>, oe_arith = fixed_point,
     oe_pow = (\<lambda>x n. if n = 0 then 1000000 else x), oe_two_digits = (\<lambda>_. ''0.50''), oe_unicode = ascii_unicode,
     oe_regex = (\<lambda>_ _. []), oe_category = (\<lambda>_. None),
     oe_floats = \<lparr>fo_zero = 0, fo_one = 1, fo_echo = 1, fo_mul = (*), fo_div = (div), fo_sum = sum_list, fo_sqrt = id,
       fo_less = (<), fo_eq = (=)\<rparr>,
     oe_store = in_memory_ops, oe_embed = (\<lambda>_. Inr [1]), oe_kind = (\<lambda>_. ''message''), oe_chat_id = (\<lambda>_. None),
     oe_gate = (\<lambda>_ _ _. Gate_Pass), oe_history = None, oe_dataflow = None, oe_px = None, oe_classifier = None\<rparr>"

definition known_memory :: "string \<Rightarrow> (string, int) memory" where
  "known_memory t = \<lparr>mm_id = t, mm_content = t, mm_category = ''fact'', mm_tags = [], mm_embedding = [1], mm_score = 0,
     mm_created_at = ''t''\<rparr>"

definition old_state :: "((string, int, unit) in_memory, int) orchestrator_state" where
  "old_state = \<lparr>os_topics = [], os_items = [memory_item fixed_point 0 (known_memory ''old'')],
     os_scorer = default_scorer fixed_point, os_last_topic = None, os_store = in_memory_new\<rparr>"

lemma old_items: "os_items old_state = [memory_item fixed_point 0 (known_memory ''old'')]"
  by (simp add: old_state_def)

lemma contexts0:
  "map ci_id (mc_items (context_for env1 (Timer [] [] False) [known_memory ''new''] False old_state)) = [''mem:0'']"
  "map ci_id (mc_items (context_for env1 (Timer [] [] False) [known_memory ''new''] True old_state)) = [''mem:0'']"
  by code_simp+

theorem stale_memories_hide_recall_witness:
  "\<exists>i \<in> set (mc_items (context_for env1 (Timer [] [] False) [known_memory ''new''] False old_state)).
     ci_id i = ''mem:'' @ show_nat 0 \<and> ci_content i = ''old''"
proof -
  obtain i where i: "mc_items (context_for env1 (Timer [] [] False) [known_memory ''new''] False old_state) = [i]"
      "ci_id i = ''mem:0''"
    using contexts0(1) by (auto simp: map_eq_Cons_conv)
  have z: "''mem:0'' = ''mem:'' @ show_nat 0" by code_simp
  have "\<exists>c' \<in> set (os_items old_state). ci_id c' = ci_id i \<and> ci_content c' = ci_content i"
  proof (rule stale_memories_hide_recall)
    show "memory_item fixed_point 0 (known_memory ''old'') \<in> set (os_items old_state)" by (simp add: old_items)
    show "i \<in> set (mc_items (context_for env1 (Timer [] [] False) [known_memory ''new''] False old_state))"
      by (simp add: i)
  qed (simp_all add: memory_item_def i(2) z)
  then show ?thesis using i z by (simp add: old_items memory_item_def known_memory_def)
qed

theorem shift_forgets_context_witness:
  "\<exists>i \<in> set (mc_items (context_for env1 (Timer [] [] False) [known_memory ''new''] True old_state)). ci_content i = ''new''"
proof -
  obtain i where i: "mc_items (context_for env1 (Timer [] [] False) [known_memory ''new''] True old_state) = [i]"
    using contexts0(2) by (auto simp: map_eq_Cons_conv)
  then have "ci_content i = ''new''"
    using shift_forgets_context [of i env1 "Timer [] [] False" "[known_memory ''new'']" old_state]
    by (simp add: event_entities_def known_memory_def)
  then show ?thesis by (simp add: i)
qed

theorem delegated_to_builtins_witness:
  "\<exists>reason tasks. decide fixed_point ascii_unicode (default_orchestrator_config fixed_point)
       (Message ''1'' ''c'' ''u'' ''analyze the python code base'') ''known'' = Route_Delegate reason tasks
     \<and> tasks \<noteq> [] \<and> (\<forall>t \<in> set tasks. agent_get (st_agent_name t) (register_builtins []) \<noteq> None)"
proof -
  have "(case decide fixed_point ascii_unicode (default_orchestrator_config fixed_point)
       (Message ''1'' ''c'' ''u'' ''analyze the python code base'') ''known'' of Route_Delegate _ _ \<Rightarrow> True | _ \<Rightarrow> False)"
    by code_simp
  then obtain reason tasks where d: "decide fixed_point ascii_unicode (default_orchestrator_config fixed_point)
       (Message ''1'' ''c'' ''u'' ''analyze the python code base'') ''known'' = Route_Delegate reason tasks"
    by (auto split: route.splits)
  show ?thesis using delegated_to_builtins [OF d, of "[]"] d by blast
qed

theorem acknowledgement_dropped_witness:
  "\<exists>p. fst (preprocess env1 (Message ''1'' ''c'' ''u'' ''thanks'') old_state) = Inr p \<and> pp_route p = Route_Drop"
proof (rule acknowledgement_dropped [OF _ _ _ _ _ _ refl])
  show "trim (uc_lowercase (oe_unicode env1) ''thanks'') \<in> set noise_replies" by code_simp
  show "length (split_whitespace ''thanks'') \<le> 3" "trim ''thanks'' \<noteq> []" "split_whitespace ''thanks'' \<noteq> []"
    by code_simp+
  show "oe_dataflow env1 = None" "oe_px env1 = None"
      "\<forall>reason. authorise env1 (Message ''1'' ''c'' ''u'' ''thanks'') \<noteq> Gate_Fail reason"
    by (simp_all add: env1_def authorise_def)
qed

end
