(* ===== verification/Conversation.thy ===== *)
theory Conversation
  imports Importance Memory_Store
begin

text \<open>
  The conversations of the agent (\<open>crates/core/src/agent.rs\<close>): the history of a channel with its cache
  and its stored turns, the cutting of a long history, the branches of a channel, and the commands that
  work on them.
\<close>

section \<open>Messages\<close>

record 'a tool_request =
  tq_id :: string
  tq_name :: string
  tq_arguments :: 'a

record 'a message =
  ch_role :: string
  ch_content :: string
  ch_tool_call_id :: "string option"
  ch_tool_calls :: "'a tool_request list option"

definition plain_message :: "string \<Rightarrow> string \<Rightarrow> 'a message" where
  "plain_message role content =
     \<lparr>ch_role = role, ch_content = content, ch_tool_call_id = None, ch_tool_calls = None\<rparr>"

definition tool_result :: "string \<Rightarrow> string \<Rightarrow> 'a message" where
  "tool_result k content =
     \<lparr>ch_role = ''tool'', ch_content = content, ch_tool_call_id = Some k, ch_tool_calls = None\<rparr>"

section \<open>Cutting the history\<close>

definition estimate_tokens :: "'a message \<Rightarrow> nat" where
  "estimate_tokens m = length (ch_content m) div 4 + 1"

definition max_history_tokens :: nat where
  "max_history_tokens = 100000"

definition summary_token_budget :: nat where
  "summary_token_budget = 2000"

definition meta_of :: "'a message \<Rightarrow> 'x message_meta" where
  "meta_of m = \<lparr>mt_role = ch_role m, mt_content = ch_content m,
     mt_has_tool_calls = (case ch_tool_calls m of None \<Rightarrow> False | Some cs \<Rightarrow> cs \<noteq> []),
     mt_tool_call_id = ch_tool_call_id m, mt_embedding = None\<rparr>"

definition summary_line :: "'a message \<Rightarrow> string option" where
  "summary_line m =
     (let compact = trim (map (\<lambda>c. if c = newline then CHR '' '' else c) (ch_content m)) in
      if compact = [] then None
      else
        (let truncated = concat (take 160 (utf8_chars compact));
             snippet = (if 160 < length (utf8_chars compact) then truncated @ ''...'' else truncated) in
         Some (''- '' @ ch_role m @ '': '' @ snippet)))"

definition build_compacted_summary :: "'a message list \<Rightarrow> string" where
  "build_compacted_summary ms =
     (let lines = rev (take 12 (List.map_filter summary_line
            (filter (\<lambda>m. ch_role m = ''user'' \<or> ch_role m = ''assistant'') (rev ms)))) in
      if lines = [] then ''No non-empty user/assistant messages available for summary.''
      else join [newline] lines)"

definition compacted_message :: "'a message list \<Rightarrow> nat \<Rightarrow> 'a message" where
  "compacted_message dropped tokens =
     plain_message ''system''
       (''[Compacted context]'' @ [newline] @ build_compacted_summary dropped @ [newline, newline]
        @ ''(Compacted '' @ show_nat (length dropped) @ '' lower-importance messages, ~'' @ show_nat tokens
        @ '' tokens, to fit the context window while preserving high-signal turns. Full history remains persisted.)'')"

definition trim_to_token_budget ::
    "'x arith \<Rightarrow> (string \<Rightarrow> nat option) \<Rightarrow> 'a message list \<Rightarrow> 'a message list" where
  "trim_to_token_budget ar tk ms =
     (if sum_list (map estimate_tokens ms) \<le> max_history_tokens then ms
      else
        (let plan = select_by_importance ar tk (map meta_of ms) (max_history_tokens - summary_token_budget) in
         if rt_drop plan = [] then ms
         else
           compacted_message (map ((!) ms) (rt_drop plan)) (sum_list (map (\<lambda>i. estimate_tokens (ms ! i)) (rt_drop plan)))
           # map ((!) ms) (rt_keep plan)))"

section \<open>The history of a channel\<close>

record channel_branches =
  br_active :: string
  br_names :: "string list"

definition default_branches :: channel_branches where
  "default_branches = \<lparr>br_active = ''main'', br_names = [''main'']\<rparr>"

text \<open>What the agent uses of the store of turns.\<close>

record ('s, 'a) turn_store =
  tu_insert :: "'a message turn \<Rightarrow> ('s, memory_error, unit) effect"
  tu_recent :: "string \<Rightarrow> nat \<Rightarrow> ('s, memory_error, 'a message turn list) effect"

record session_summary =
  se_key :: string
  se_message_count :: nat
  se_started_at :: string
  se_topic_summary :: "string option"

text \<open>What the commands use of the session manager of the platform; the start of a session is rendered.\<close>

record ('s, 'a) session_store =
  ss_load_active :: "string \<Rightarrow> 's \<Rightarrow> 'a message list option"
  ss_list :: "string \<Rightarrow> nat \<Rightarrow> 's \<Rightarrow> session_summary list"
  ss_archive :: "string \<Rightarrow> 's \<Rightarrow> 's"

record ('s, 'a, 'x) history_env =
  he_arith :: "'x arith"
  he_tokens :: "string \<Rightarrow> nat option"
  he_turns :: "('s, 'a) turn_store option"
  he_sessions :: "('s, 'a) session_store option"

record ('s, 'a) conversations =
  cv_branches :: "(string, channel_branches) hmap"
  cv_history :: "(string, 'a message list) hmap"
  cv_store :: 's

definition hydrate_turn_limit :: nat where
  "hydrate_turn_limit = 512"

definition load_history ::
    "('s, 'a, 'x) history_env \<Rightarrow> string \<Rightarrow> ('s, 'a) conversations \<Rightarrow> 'a message list \<times> ('s, 'a) conversations" where
  "load_history he channel cv =
     (case hm_get (cv_history cv) channel of
        Some (m # ms) \<Rightarrow> (trim_to_token_budget (he_arith he) (he_tokens he) (m # ms), cv)
      | _ \<Rightarrow>
          (case he_turns he of
             None \<Rightarrow> ([], cv)
           | Some tu \<Rightarrow>
               (case tu_recent tu channel hydrate_turn_limit (cv_store cv) of
                  (Inr (t # ts), s) \<Rightarrow>
                    (let ms = concat (map tn_messages (t # ts)) in
                     (trim_to_token_budget (he_arith he) (he_tokens he) ms,
                      cv\<lparr>cv_history := hm_insert channel ms (cv_history cv), cv_store := s\<rparr>))
                | (_, s) \<Rightarrow> ([], cv\<lparr>cv_store := s\<rparr>))))"

text \<open>The id and the time of the turn are arguments; a failure of the store is only logged.\<close>

definition persist_turn ::
    "('s, 'a, 'x) history_env \<Rightarrow> string \<Rightarrow> string \<Rightarrow> string \<Rightarrow> string \<Rightarrow> 'a message list
      \<Rightarrow> ('s, 'a) conversations \<Rightarrow> ('s, 'a) conversations" where
  "persist_turn he k now channel session ms cv =
     (let old = (case hm_get (cv_history cv) channel of None \<Rightarrow> [] | Some h \<Rightarrow> h);
          cv' = cv\<lparr>cv_history := hm_insert channel
            (trim_to_token_budget (he_arith he) (he_tokens he) (old @ ms)) (cv_history cv)\<rparr> in
      case he_turns he of
        None \<Rightarrow> cv'
      | Some tu \<Rightarrow>
          cv'\<lparr>cv_store := snd (tu_insert tu \<lparr>tn_id = k, tn_channel = channel, tn_session_id = session,
            tn_timestamp = now, tn_messages = ms\<rparr> (cv_store cv'))\<rparr>)"

section \<open>Branches\<close>

definition scoped_channel :: "string \<Rightarrow> string \<Rightarrow> string" where
  "scoped_channel channel branch = (if branch = ''main'' then channel else channel @ ''::'' @ branch)"

definition branches_of :: "('s, 'a) conversations \<Rightarrow> string \<Rightarrow> channel_branches" where
  "branches_of cv channel = (case hm_get (cv_branches cv) channel of None \<Rightarrow> default_branches | Some b \<Rightarrow> b)"

definition resolve_branch_channel :: "('s, 'a) conversations \<Rightarrow> string \<Rightarrow> string" where
  "resolve_branch_channel cv channel = scoped_channel channel (br_active (branches_of cv channel))"

text \<open>\<open>rsplit_once("::")\<close>: what follows the last occurrence.\<close>

definition branch_label :: "string \<Rightarrow> string" where
  "branch_label channel =
     (case find (\<lambda>i. prefix ''::'' (drop i channel)) (rev [0..<length channel]) of
        None \<Rightarrow> ''main''
      | Some i \<Rightarrow> drop (i + 2) channel)"

text \<open>The first name of the series that is not taken; the loop tries at most one more than there are names.\<close>

definition fresh_name :: "string \<Rightarrow> string list \<Rightarrow> string option" where
  "fresh_name series names =
     map_option (\<lambda>i. series @ show_nat i) (find (\<lambda>i. series @ show_nat i \<notin> set names) [1..<length names + 2])"

definition add_branch :: "string \<Rightarrow> channel_branches \<Rightarrow> channel_branches" where
  "add_branch b s = s\<lparr>br_names := insort_insert b (br_names s), br_active := b\<rparr>"

definition put_branches :: "string \<Rightarrow> channel_branches \<Rightarrow> ('s, 'a) conversations \<Rightarrow> ('s, 'a) conversations" where
  "put_branches channel b cv = cv\<lparr>cv_branches := hm_insert channel b (cv_branches cv)\<rparr>"

text \<open>\<open>entry(..).or_default()\<close> of the histories.\<close>

definition open_history :: "string \<Rightarrow> ('s, 'a) conversations \<Rightarrow> ('s, 'a) conversations" where
  "open_history channel cv =
     (case hm_get (cv_history cv) channel of
        None \<Rightarrow> cv\<lparr>cv_history := hm_insert channel [] (cv_history cv)\<rparr>
      | Some h \<Rightarrow> cv)"

section \<open>Commands\<close>

definition quoted_name :: "string \<Rightarrow> string" where
  "quoted_name n = [CHR 0x27] @ n @ [CHR 0x27]"

definition collect_command_target :: "string list \<Rightarrow> string" where
  "collect_command_target parts = trim (join '' '' parts)"

definition command_word :: "string \<Rightarrow> string" where
  "command_word w =
     map ascii_lower (hd (split_on (CHR ''@'') (dropWhile (\<lambda>c. c = CHR ''/'') w)))"

definition branch_listing :: "string \<Rightarrow> string \<Rightarrow> channel_branches \<Rightarrow> string" where
  "branch_listing head1 head2 s =
     join [newline] ((head1 @ br_active s) # head2
       # map (\<lambda>b. if b = br_active s then ''* '' @ b @ '' (active)'' else ''* '' @ b) (br_names s))"

definition session_new_command ::
    "string \<Rightarrow> string list \<Rightarrow> ('s, 'a) conversations \<Rightarrow> string \<times> ('s, 'a) conversations" where
  "session_new_command channel parts cv =
     (let requested = trim (collect_command_target parts);
          s = branches_of cv channel;
          b = (if requested = [] then the (fresh_name ''session-'' (br_names s)) else requested);
          created = (b \<notin> set (br_names s));
          cv' = open_history (scoped_channel channel b) (put_branches channel (add_branch b s) cv) in
      ((if created then ''Created new'' else ''Switched to existing'') @ '' session '' @ quoted_name b
        @ ''. Previous session was archived.'', cv'))"

definition session_switch_command ::
    "string \<Rightarrow> string list \<Rightarrow> ('s, 'a) conversations \<Rightarrow> string \<times> ('s, 'a) conversations" where
  "session_switch_command channel parts cv =
     (let target = collect_command_target parts in
      if target = [] then (''Usage: /session switch <id>'', cv)
      else (''Switched to session '' @ quoted_name target @ ''.'',
            put_branches channel (add_branch target (branches_of cv channel)) cv))"

definition branch_command ::
    "('s, 'a, 'x) history_env \<Rightarrow> string \<Rightarrow> string list \<Rightarrow> ('s, 'a) conversations \<Rightarrow> string \<times> ('s, 'a) conversations" where
  "branch_command he channel parts cv =
     (let requested = trim (collect_command_target parts);
          current = resolve_branch_channel cv channel;
          (snapshot, cv1) = load_history he current cv;
          s = branches_of cv1 channel;
          b0 = (if requested = [] then the (fresh_name ''branch-'' (br_names s)) else requested);
          b = (if map ascii_lower b0 = ''main'' then ''main'' else b0);
          created = (b \<notin> set (br_names s));
          cv2 = put_branches channel (add_branch b s) cv1 in
      ((if created then ''Created'' else ''Switched to existing'') @ '' branch '' @ quoted_name b @ '' from ''
        @ quoted_name (branch_label current) @ ''.'',
       cv2\<lparr>cv_history := hm_insert (scoped_channel channel b) snapshot (cv_history cv2)\<rparr>))"

definition switch_command ::
    "string \<Rightarrow> string list \<Rightarrow> ('s, 'a) conversations \<Rightarrow> string \<times> ('s, 'a) conversations" where
  "switch_command channel parts cv =
     (let target = collect_command_target parts;
          s = branches_of cv channel in
      if target = [] then (''Usage: /switch <branch>'', cv)
      else if target \<in> set (br_names s) then
        (''Switched to branch '' @ quoted_name target @ ''.'', put_branches channel (s\<lparr>br_active := target\<rparr>) cv)
      else
        (''Branch '' @ quoted_name target @ '' not found. Use /branches to list available branches.'',
         put_branches channel s cv))"

definition bullet :: string where
  "bullet = [CHR 0xE2, CHR 0x80, CHR 0xA2]"

definition session_line :: "session_summary \<Rightarrow> string" where
  "session_line s =
     bullet @ '' '' @ se_key s @ '' - '' @ show_nat (se_message_count s) @ '' msgs, '' @ se_started_at s @ '' - ''
     @ (case se_topic_summary s of None \<Rightarrow> ''(no topic)'' | Some t \<Rightarrow> t)"

definition not_configured :: string where
  "not_configured = ''Session persistence not configured.''"

definition list_saved :: "('s, 'a, 'x) history_env \<Rightarrow> string \<Rightarrow> ('s, 'a) conversations \<Rightarrow> string" where
  "list_saved he channel cv =
     (case he_sessions he of
        None \<Rightarrow> not_configured
      | Some ss \<Rightarrow>
          (let saved = ss_list ss channel 10 (cv_store cv) in
           if saved = [] then ''No saved sessions found.''
           else join [newline] (''Recent sessions:'' # map session_line saved)))"

definition resume_command ::
    "('s, 'a, 'x) history_env \<Rightarrow> string \<Rightarrow> string list \<Rightarrow> ('s, 'a) conversations \<Rightarrow> string \<times> ('s, 'a) conversations" where
  "resume_command he channel parts cv =
     (if parts \<noteq> [] \<and> map ascii_lower (hd parts) = ''list'' then (list_saved he channel cv, cv)
      else
        (case he_sessions he of
           None \<Rightarrow> (not_configured, cv)
         | Some ss \<Rightarrow>
             (case ss_load_active ss channel (cv_store cv) of
                None \<Rightarrow> (''No session to resume.'', cv)
              | Some ms \<Rightarrow>
                  (''Resumed session with '' @ show_nat (length ms) @ '' messages.'',
                   cv\<lparr>cv_history := hm_insert channel ms (cv_history cv)\<rparr>))))"

definition clear_command ::
    "('s, 'a, 'x) history_env \<Rightarrow> string \<Rightarrow> ('s, 'a) conversations \<Rightarrow> string \<times> ('s, 'a) conversations" where
  "clear_command he channel cv =
     (let s = branches_of cv channel;
          b = the (fresh_name ''session-'' (br_names s));
          cv1 = open_history (scoped_channel channel b) (put_branches channel (add_branch b s) cv) in
      (''Cleared conversation context. Started new session '' @ quoted_name b @ ''.'',
       case he_sessions he of
         None \<Rightarrow> cv1
       | Some ss \<Rightarrow> cv1\<lparr>cv_store := ss_archive ss channel (cv_store cv1)\<rparr>))"

definition session_command ::
    "string \<Rightarrow> string list \<Rightarrow> ('s, 'a) conversations \<Rightarrow> string \<times> ('s, 'a) conversations" where
  "session_command channel parts cv =
     (let sub = (case parts of [] \<Rightarrow> [] | p # ps \<Rightarrow> map ascii_lower (dropWhile (\<lambda>c. c = CHR ''/'') p));
          rest = tl parts in
      if sub = ''new'' then session_new_command channel rest cv
      else if sub = ''list'' then (branch_listing ''Active session: '' ''Sessions:'' (branches_of cv channel), cv)
      else if sub = ''switch'' then session_switch_command channel rest cv
      else (''Usage: /session <new|list|switch> [id]'', cv))"

text \<open>The reply to a command, \<open>None\<close> when the message is none; the request id and model of the event are
  the id of the message and \<open>command\<close>.\<close>

definition handle_branch_command ::
    "('s, 'a, 'x) history_env \<Rightarrow> string \<Rightarrow> string \<Rightarrow> ('s, 'a) conversations \<Rightarrow> string option \<times> ('s, 'a) conversations" where
  "handle_branch_command he channel content cv =
     (let trimmed = trim content in
      if \<not> prefix ''/'' trimmed then (None, cv)
      else
        (let ws = split_whitespace trimmed;
             cmd = command_word (hd ws);
             parts = tl ws in
         if cmd = ''session'' then map_prod Some id (session_command channel parts cv)
         else if cmd = ''branch'' then map_prod Some id (branch_command he channel parts cv)
         else if cmd = ''branches'' then
           (Some (branch_listing ''Active branch: '' ''Branches:'' (branches_of cv channel)), cv)
         else if cmd = ''switch'' then map_prod Some id (switch_command channel parts cv)
         else if cmd = ''resume'' then map_prod Some id (resume_command he channel parts cv)
         else if cmd = ''sessions'' then (Some (list_saved he channel cv), cv)
         else if cmd = ''clear'' then map_prod Some id (clear_command he channel cv)
         else (None, cv)))"

end
