(* ===== verification/Model_Turns.thy ===== *)
theory Model_Turns
  imports Conversation
begin

text \<open>
  The exchange of the agent with its model for one message (\<open>run_model_loop\<close> of
  \<open>crates/core/src/agent.rs\<close>): at most ten calls of the model, the tools it asks for, and the hooks that
  watch over both.

  The model clients, the tools, the hooks, the guard of personal data, the compression of a request and
  the timeline belong to the platform or to other parts: they are the fields of \<open>services\<close>, which act on
  a world.  Latencies and the random ids of a call are not modelled.
\<close>

section \<open>The services\<close>

text \<open>The points at which a hook is fired, with what its context holds.\<close>

datatype 'a hook_call =
    On_Message string
  | Pre_Model_Call "string option"
  | Post_Model_Call "string option"
  | Pre_Tool_Use string 'a
  | Post_Tool_Use string string

text \<open>What the agent distinguishes of the answer of a hook.\<close>

datatype 'a hook_verdict = Block string | Modify 'a | Inject string | Proceed

datatype 'a chronos_note = Redacted nat | Called string "'a option" | Finished string bool

record ('a, 'x) completion =
  cp_content :: "string option"
  cp_tool_calls :: "'a tool_request list"
  cp_logprobs :: "'x list option"

record ('w, 'a, 'x, 'm, 'd) services =
  sv_fire :: "'a hook_call \<Rightarrow> 'w \<Rightarrow> 'a hook_verdict \<times> 'w"
  sv_redact :: "string \<Rightarrow> string \<times> nat"
  sv_compress :: "('a message list \<Rightarrow> 'w \<Rightarrow> 'a message list \<times> 'w) option"
  sv_tools :: "'w \<Rightarrow> 'd \<times> 'w"
  sv_call_tool :: "string \<Rightarrow> 'a \<Rightarrow> 'w \<Rightarrow> string \<times> 'w"
  sv_complete :: "'m \<Rightarrow> bool \<Rightarrow> 'a message list \<Rightarrow> 'd \<Rightarrow> bool \<Rightarrow> 'w \<Rightarrow> (string + ('a, 'x) completion) \<times> 'w"
  sv_chronos :: "('a chronos_note \<Rightarrow> 'w \<Rightarrow> 'w) option"

definition note_chronos :: "('w, 'a, 'x, 'm, 'd) services \<Rightarrow> 'a chronos_note \<Rightarrow> 'w \<Rightarrow> 'w" where
  "note_chronos sv n w = (case sv_chronos sv of None \<Rightarrow> w | Some record_note \<Rightarrow> record_note n w)"

section \<open>A request\<close>

definition redact_message :: "('w, 'a, 'x, 'm, 'd) services \<Rightarrow> 'a message \<Rightarrow> 'a message" where
  "redact_message sv m =
     (if ch_role m = ''user'' then m\<lparr>ch_content := fst (sv_redact sv (ch_content m))\<rparr> else m)"

definition note_redaction :: "('w, 'a, 'x, 'm, 'd) services \<Rightarrow> 'a message \<Rightarrow> 'w \<Rightarrow> 'w" where
  "note_redaction sv m w =
     (let n = snd (sv_redact sv (ch_content m)) in
      if ch_role m = ''user'' \<and> 0 < n then note_chronos sv (Redacted n) w else w)"

text \<open>The messages of a call of the model: redacted, then compressed.\<close>

definition request_messages ::
    "('w, 'a, 'x, 'm, 'd) services \<Rightarrow> 'a message list \<Rightarrow> 'w \<Rightarrow> 'a message list \<times> 'w" where
  "request_messages sv ms w =
     (let ms' = map (redact_message sv) ms; w' = fold (note_redaction sv) ms w in
      case sv_compress sv of None \<Rightarrow> (ms', w') | Some compress \<Rightarrow> compress ms' w')"

text \<open>What a hook injects goes to the end of the first message, if it is the one of the system.\<close>

definition inject_text :: "string \<Rightarrow> 'a message list \<Rightarrow> 'a message list" where
  "inject_text t ms =
     (case ms of
        [] \<Rightarrow> []
      | m # r \<Rightarrow>
          (if ch_role m = ''system'' then m\<lparr>ch_content := ch_content m @ [newline, newline] @ t\<rparr> else m) # r)"

section \<open>The tools\<close>

definition warning_sign :: string where
  "warning_sign = [CHR 0xE2, CHR 0x9A, CHR 0xA0]"

definition tool_success :: "string \<Rightarrow> bool" where
  "tool_success r \<longleftrightarrow> \<not> prefix ''Error'' r \<and> \<not> prefix warning_sign r"

text \<open>A call with the arguments that go to the tool; they are noted unless a hook has changed them.\<close>

definition run_tool ::
    "('w, 'a, 'x, 'm, 'd) services \<Rightarrow> 'a tool_request \<Rightarrow> 'a \<Rightarrow> 'a option \<Rightarrow> 'w \<Rightarrow> 'a message \<times> 'w" where
  "run_tool sv c args noted w =
     (let w1 = note_chronos sv (Called (tq_name c) noted) w;
          (r, w2) = sv_call_tool sv (tq_name c) args w1;
          w3 = note_chronos sv (Finished (tq_name c) (tool_success r)) w2;
          w4 = snd (sv_fire sv (Post_Tool_Use (tq_name c) r) w3) in
      (tool_result (tq_id c) r, w4))"

definition answer_call ::
    "('w, 'a, 'x, 'm, 'd) services \<Rightarrow> 'a tool_request \<Rightarrow> 'w \<Rightarrow> 'a message \<times> 'w" where
  "answer_call sv c w =
     (case sv_fire sv (Pre_Tool_Use (tq_name c) (tq_arguments c)) w of
        (Block reason, w') \<Rightarrow> (tool_result (tq_id c) (''Tool blocked by hook: '' @ reason), w')
      | (Modify args, w') \<Rightarrow> run_tool sv c args None w'
      | (_, w') \<Rightarrow> run_tool sv c (tq_arguments c) (Some (tq_arguments c)) w')"

fun answer_calls ::
    "('w, 'a, 'x, 'm, 'd) services \<Rightarrow> 'a tool_request list \<Rightarrow> 'w \<Rightarrow> 'a message list \<times> 'w" where
  "answer_calls sv [] w = ([], w)"
| "answer_calls sv (c # cs) w =
     (let (m, w1) = answer_call sv c w; (ms, w2) = answer_calls sv cs w1 in (m # ms, w2))"

section \<open>The loop\<close>

record ('a, 'x) turn_result =
  tr_reply :: "string option"
  tr_logprobs :: "'x list option"
  tr_messages :: "'a message list"

text \<open>A call of the model between its hooks: the messages with what was injected, and the completion.\<close>

definition model_call ::
    "('w, 'a, 'x, 'm, 'd) services \<Rightarrow> 'm \<Rightarrow> 'd \<Rightarrow> bool \<Rightarrow> bool \<Rightarrow> 'a message list \<Rightarrow> 'w
      \<Rightarrow> (string + 'a message list \<times> ('a, 'x) completion) \<times> 'w" where
  "model_call sv client tools logprobs stream ms w =
     (let (v, w1) = sv_fire sv (Pre_Model_Call (if ms = [] then None else Some (ch_content (last ms)))) w;
          ms1 = (case v of Inject t \<Rightarrow> inject_text t ms | _ \<Rightarrow> ms) in
      case v of
        Block reason \<Rightarrow> (Inl (''Model call blocked by hook: '' @ reason), w1)
      | _ \<Rightarrow>
          (let (request, w2) = request_messages sv ms1 w1 in
           case sv_complete sv client stream request tools logprobs w2 of
             (Inl e, w3) \<Rightarrow> (Inl e, w3)
           | (Inr c, w3) \<Rightarrow> (Inr (ms1, c), snd (sv_fire sv (Post_Model_Call (cp_content c)) w3))))"

definition call_message :: "('a, 'x) completion \<Rightarrow> 'a message" where
  "call_message c = \<lparr>ch_role = ''assistant'', ch_content = (case cp_content c of None \<Rightarrow> [] | Some t \<Rightarrow> t),
     ch_tool_call_id = None, ch_tool_calls = Some (cp_tool_calls c)\<rparr>"

definition final_turn :: "'a message list \<Rightarrow> ('a, 'x) completion \<Rightarrow> ('a, 'x) turn_result" where
  "final_turn ms c =
     (case cp_content c of
        Some t \<Rightarrow>
          \<lparr>tr_reply = Some t, tr_logprobs = cp_logprobs c, tr_messages = ms @ [plain_message ''assistant'' t]\<rparr>
      | None \<Rightarrow>
          \<lparr>tr_reply = Some ''(empty response from model)'', tr_logprobs = None, tr_messages = ms\<rparr>)"

text \<open>The turns that are left; only the first of a message streams.\<close>

fun model_turns ::
    "('w, 'a, 'x, 'm, 'd) services \<Rightarrow> 'm \<Rightarrow> 'd \<Rightarrow> bool \<Rightarrow> bool \<Rightarrow> nat \<Rightarrow> 'a message list \<Rightarrow> 'w
      \<Rightarrow> (string + ('a, 'x) turn_result) \<times> 'w" where
  "model_turns sv client tools logprobs stream 0 ms w =
     (Inr \<lparr>tr_reply = None, tr_logprobs = None, tr_messages = ms\<rparr>, w)"
| "model_turns sv client tools logprobs stream (Suc n) ms w =
     (case model_call sv client tools logprobs stream ms w of
        (Inl e, w1) \<Rightarrow> (Inl e, w1)
      | (Inr (ms1, c), w1) \<Rightarrow>
          if cp_tool_calls c = [] then (Inr (final_turn ms1 c), w1)
          else
            (let (results, w2) = answer_calls sv (cp_tool_calls c) w1 in
             model_turns sv client tools logprobs False n (ms1 @ call_message c # results) w2))"

definition max_model_turns :: nat where
  "max_model_turns = 10"

definition first_messages :: "string \<Rightarrow> 'a message list \<Rightarrow> string \<Rightarrow> 'a message list" where
  "first_messages system_text history content =
     plain_message ''system'' system_text # history @ [plain_message ''user'' content]"

definition run_model_loop ::
    "('w, 'a, 'x, 'm, 'd) services \<Rightarrow> 'm \<Rightarrow> string \<Rightarrow> 'a message list \<Rightarrow> string \<Rightarrow> bool \<Rightarrow> bool \<Rightarrow> 'w
      \<Rightarrow> (string + string \<times> 'x list option \<times> 'a message list) \<times> 'w" where
  "run_model_loop sv client system_text history content logprobs stream w =
     (let (tools, w1) = sv_tools sv w in
      case sv_fire sv (On_Message content) w1 of
        (Block reason, w2) \<Rightarrow> (Inl (''Message blocked by hook: '' @ reason), w2)
      | (_, w2) \<Rightarrow>
          (case model_turns sv client tools logprobs stream max_model_turns (first_messages system_text history content) w2 of
             (Inl e, w3) \<Rightarrow> (Inl e, w3)
           | (Inr t, w3) \<Rightarrow>
               (Inr (case tr_reply t of None \<Rightarrow> ''(no response from model)'' | Some r \<Rightarrow> r,
                  tr_logprobs t, tr_messages t), w3)))"

section \<open>Confidence\<close>

text \<open>\<open>is_low_confidence\<close>; the arithmetic and the exponential function are parameters.\<close>

definition is_low_confidence :: "'x arith \<Rightarrow> ('x \<Rightarrow> 'x) \<Rightarrow> 'x list option \<Rightarrow> bool" where
  "is_low_confidence ar ex lps \<longleftrightarrow>
     (case lps of
        None \<Rightarrow> False
      | Some [] \<Rightarrow> False
      | Some ls \<Rightarrow>
          ar_less ar (ar_div ar (ar_sum ar ls) (ar_nat ar (length ls))) (ar_sub ar (ar_nat ar 0) (ar_lit ar 1 0))
          \<or> ar_less ar (foldl (ar_min ar) (ar_lit ar 1 0) (map ex ls)) (ar_lit ar 6 1))"

section \<open>The shape of a conversation\<close>

text \<open>The calls of an assistant's message are answered by the messages after it, in order.\<close>

inductive rounds :: "nat \<Rightarrow> 'a message list \<Rightarrow> bool" where
  rounds_Nil: "rounds 0 []"
| rounds_Suc: "rounds n ms \<Longrightarrow> calls \<noteq> [] \<Longrightarrow> length results = length calls
    \<Longrightarrow> (\<forall>i < length calls. ch_role (results ! i) = ''tool'' \<and> ch_tool_call_id (results ! i) = Some (tq_id (calls ! i)))
    \<Longrightarrow> ch_role m = ''assistant'' \<Longrightarrow> ch_tool_calls m = Some calls
    \<Longrightarrow> rounds (Suc n) (m # results @ ms)"

lemma answer_call_shape:
  "ch_role (fst (answer_call sv c w)) = ''tool'' \<and> ch_tool_call_id (fst (answer_call sv c w)) = Some (tq_id c)"
  by (simp add: answer_call_def run_tool_def tool_result_def Let_def split: prod.split hook_verdict.split)

lemma answer_calls_shape:
  "length (fst (answer_calls sv cs w)) = length cs
   \<and> (\<forall>i < length cs. ch_role (fst (answer_calls sv cs w) ! i) = ''tool''
        \<and> ch_tool_call_id (fst (answer_calls sv cs w) ! i) = Some (tq_id (cs ! i)))"
proof (induction cs arbitrary: w)
  case (Cons c cs)
  obtain m w1 where m: "answer_call sv c w = (m, w1)" by fastforce
  obtain ms w2 where ms: "answer_calls sv cs w1 = (ms, w2)" by fastforce
  show ?case
    using Cons.IH [of w1] answer_call_shape [of sv c w] by (auto simp: m ms nth_Cons split: nat.split)
qed simp

text \<open>A first message of the system that has only grown.\<close>

definition grown :: "'a message list \<Rightarrow> 'a message list \<Rightarrow> bool" where
  "grown ms ms' \<longleftrightarrow>
     ms' = ms \<or> (\<exists>m r t. ms = m # r \<and> ch_role m = ''system'' \<and> ms' = m\<lparr>ch_content := ch_content m @ t\<rparr> # r)"

lemma grown_inject: "grown ms (inject_text t ms)"
  by (cases ms) (auto simp: grown_def inject_text_def)

lemma grown_append: "grown ms ms' \<Longrightarrow> grown (ms @ xs) (ms' @ xs)"
  by (auto simp: grown_def)

lemma grown_trans: "grown a b \<Longrightarrow> grown b c \<Longrightarrow> grown a c"
  by (auto simp: grown_def)

lemma grown_split: "grown (a @ b) c \<Longrightarrow> a \<noteq> [] \<Longrightarrow> \<exists>a'. c = a' @ b \<and> grown a a'"
  by (cases a) (auto simp: grown_def)

lemma grown_nonempty: "grown a b \<Longrightarrow> a \<noteq> [] \<Longrightarrow> b \<noteq> []"
  by (auto simp: grown_def)

lemma model_call_grown: "fst (model_call sv client tools lp stream ms w) = Inr (ms1, c) \<Longrightarrow> grown ms ms1"
  using grown_inject [of ms]
  by (auto simp: model_call_def Let_def grown_def split: prod.splits sum.splits hook_verdict.splits)

lemma model_turns_shape:
  "fst (model_turns sv client tools lp stream n ms w) = Inr t \<Longrightarrow> ms \<noteq> [] \<Longrightarrow>
    \<exists>ms' k rs tail. grown ms ms' \<and> tr_messages t = ms' @ rs @ tail \<and> rounds k rs \<and> k \<le> n
      \<and> ((\<exists>r. tr_reply t = Some r \<and> tail = [plain_message ''assistant'' r])
        \<or> tail = [] \<and> (tr_reply t = Some ''(empty response from model)'' \<or> tr_reply t = None \<and> k = n))"
proof (induction n arbitrary: stream ms w)
  case 0
  then show ?case
    using rounds_Nil by (intro exI [of _ ms], intro exI [of _ 0], intro exI [of _ "[]"]) (auto simp: grown_def)
next
  case (Suc n)
  obtain ms1 c w1 where m: "model_call sv client tools lp stream ms w = (Inr (ms1, c), w1)"
    using Suc.prems(1) by (cases "model_call sv client tools lp stream ms w") (auto split: sum.splits)
  have g: "grown ms ms1" using model_call_grown [of sv client tools lp stream ms w] by (simp add: m)
  show ?case
  proof (cases "cp_tool_calls c = []")
    case True
    then have "t = final_turn ms1 c" using Suc.prems(1) by (simp add: m)
    then show ?thesis
      using g
      by - (rule exI [of _ ms1], rule exI [of _ 0], rule exI [of _ "[]"],
          rule exI [of _ "drop (length ms1) (tr_messages t)"], simp add: final_turn_def rounds_Nil split: option.split)
  next
    case False
    obtain results w2 where a: "answer_calls sv (cp_tool_calls c) w1 = (results, w2)" by fastforce
    let ?new = "call_message c # results"
    have "fst (model_turns sv client tools lp False n (ms1 @ ?new) w2) = Inr t"
      using Suc.prems(1) False by (simp add: m a)
    then obtain ms' k rs tail where i: "grown (ms1 @ ?new) ms'" "tr_messages t = ms' @ rs @ tail"
        "rounds k rs" "k \<le> n"
        "(\<exists>r. tr_reply t = Some r \<and> tail = [plain_message ''assistant'' r])
          \<or> tail = [] \<and> (tr_reply t = Some ''(empty response from model)'' \<or> tr_reply t = None \<and> k = n)"
      using Suc.IH [of False "ms1 @ ?new" w2] by auto
    obtain ms0 where m0: "ms' = ms0 @ ?new" "grown ms1 ms0"
      using grown_split [OF i(1)] grown_nonempty [OF g Suc.prems(2)] by blast
    have "rounds (Suc k) (call_message c # results @ rs)"
      using i(3) False answer_calls_shape [of sv "cp_tool_calls c" w1]
      by (intro rounds_Suc [where calls = "cp_tool_calls c"]) (simp_all add: a call_message_def)
    then show ?thesis
      using i(2,4,5) m0 grown_trans [OF g m0(2)]
      by - (rule exI [of _ ms0], rule exI [of _ "Suc k"], rule exI [of _ "?new @ rs"], rule exI [of _ tail], auto)
  qed
qed

text \<open>
  C13: The messages of an exchange are the ones it began with - the instructions, to which hooks may only
  have added, the history as it was, and the message of the user - followed by at most ten rounds, in
  each of which every call is answered in its place, and by the reply; without one, ten rounds were spent
  or the model said nothing.
\<close>

theorem conversation_shape:
  assumes "fst (run_model_loop sv client system_text history content lp stream w) = Inr (reply, lps, ms)"
  shows "\<exists>system' k rs tail. prefix system_text system'
    \<and> ms = first_messages system' history content @ rs @ tail \<and> rounds k rs \<and> k \<le> 10
    \<and> (tail = [plain_message ''assistant'' reply]
      \<or> tail = [] \<and> (reply = ''(empty response from model)'' \<or> reply = ''(no response from model)'' \<and> k = 10))"
proof -
  obtain tools w1 where tools: "sv_tools sv w = (tools, w1)" by fastforce
  obtain v w2 where v: "sv_fire sv (On_Message content) w1 = (v, w2)" by fastforce
  let ?first = "first_messages system_text history content"
  obtain t where t: "fst (model_turns sv client tools lp stream max_model_turns ?first w2) = Inr t"
      and r: "ms = tr_messages t" "reply = (case tr_reply t of None \<Rightarrow> ''(no response from model)'' | Some r \<Rightarrow> r)"
    using assms
    by (auto simp: run_model_loop_def tools v split: hook_verdict.splits prod.splits sum.splits)
  have ne: "?first \<noteq> []" by (simp add: first_messages_def)
  obtain ms' k rs tail where s: "grown ?first ms'" "tr_messages t = ms' @ rs @ tail" "rounds k rs" "k \<le> 10"
      "(\<exists>r. tr_reply t = Some r \<and> tail = [plain_message ''assistant'' r])
        \<or> tail = [] \<and> (tr_reply t = Some ''(empty response from model)'' \<or> tr_reply t = None \<and> k = 10)"
    using model_turns_shape [OF t ne] unfolding max_model_turns_def by blast
  have "\<exists>t. ms' = first_messages (system_text @ t) history content"
    using s(1) by (auto simp: grown_def first_messages_def plain_message_def)
  then obtain u where "ms' = first_messages (system_text @ u) history content" by blast
  then show ?thesis
    using s(2-5) r
    by - (rule exI [of _ "system_text @ u"], rule exI [of _ k], rule exI [of _ rs], rule exI [of _ tail], auto)
qed

section \<open>What the services are asked\<close>

definition user_texts_redacted :: "('w, 'a, 'x, 'm, 'd) services \<Rightarrow> 'a message list \<Rightarrow> bool" where
  "user_texts_redacted sv ms \<longleftrightarrow>
     (\<forall>m \<in> set ms. ch_role m = ''user'' \<longrightarrow> (\<exists>t. ch_content m = fst (sv_redact sv t)))"

lemma redacted_map: "user_texts_redacted sv (map (redact_message sv) ms)"
  by (auto simp: user_texts_redacted_def redact_message_def)

lemma notes_same:
  assumes "sv_chronos sv' = sv_chronos sv" and "sv_redact sv' = sv_redact sv" and "sv_compress sv' = sv_compress sv"
  shows "note_chronos sv' = note_chronos sv" and "request_messages sv' = request_messages sv"
proof -
  show n: "note_chronos sv' = note_chronos sv" using assms by (simp add: fun_eq_iff note_chronos_def)
  have "redact_message sv' = redact_message sv" "note_redaction sv' = note_redaction sv"
    using assms by (auto simp: fun_eq_iff redact_message_def note_redaction_def n Let_def)
  then show "request_messages sv' = request_messages sv"
    using assms(3) by (intro ext) (simp add: request_messages_def)
qed

lemma model_call_cong:
  assumes "sv_fire sv' = sv_fire sv" and "request_messages sv' = request_messages sv"
    and "\<And>stream ms w lp tools w'. sv_complete sv' client stream (fst (request_messages sv ms w)) tools lp w'
      = sv_complete sv client stream (fst (request_messages sv ms w)) tools lp w'"
  shows "model_call sv' client tools lp stream ms w = model_call sv client tools lp stream ms w"
  unfolding model_call_def Let_def split_beta assms ..

lemma answer_calls_cong:
  "(\<And>c w. answer_call sv' c w = answer_call sv c w) \<Longrightarrow> answer_calls sv' cs w = answer_calls sv cs w"
  by (induction cs arbitrary: w) simp_all

lemma model_turns_cong:
  assumes "\<And>stream ms w. model_call sv' client tools lp stream ms w = model_call sv client tools lp stream ms w"
    and "\<And>c w. answer_call sv' c w = answer_call sv c w"
  shows "model_turns sv' client tools lp stream n ms w = model_turns sv client tools lp stream n ms w"
proof (induction n arbitrary: stream ms w)
  case (Suc n)
  then show ?case
    by (simp add: assms answer_calls_cong [OF assms(2)] split: prod.split sum.split)
qed simp

lemma run_model_loop_cong:
  assumes "\<And>tools stream ms w. model_call sv' client tools lp stream ms w = model_call sv client tools lp stream ms w"
    and "\<And>c w. answer_call sv' c w = answer_call sv c w"
    and "sv_fire sv' = sv_fire sv" and "sv_tools sv' = sv_tools sv"
  shows "run_model_loop sv' client system_text history content lp stream w
    = run_model_loop sv client system_text history content lp stream w"
  using assms(3,4) by (simp add: run_model_loop_def model_turns_cong [OF assms(1,2)] split: prod.split hook_verdict.split)


text \<open>
  A tool that the hooks block never runs: the exchange does not depend on what the tool does.
\<close>

theorem blocked_tool_never_runs:
  assumes "\<forall>args w. \<exists>reason w'. sv_fire sv (Pre_Tool_Use name args) w = (Block reason, w')"
    and "\<forall>n args w. n \<noteq> name \<longrightarrow> call n args w = sv_call_tool sv n args w"
  shows "run_model_loop (sv\<lparr>sv_call_tool := call\<rparr>) client system_text history content lp stream w
    = run_model_loop sv client system_text history content lp stream w"
proof -
  have r: "request_messages (sv\<lparr>sv_call_tool := call\<rparr>) = request_messages sv"
    by (rule notes_same) simp_all
  have n: "note_chronos (sv\<lparr>sv_call_tool := call\<rparr>) = note_chronos sv"
    by (rule notes_same) simp_all
  show ?thesis
  proof (rule run_model_loop_cong)
    show "model_call (sv\<lparr>sv_call_tool := call\<rparr>) client tools lp stream ms w
        = model_call sv client tools lp stream ms w" for tools stream ms w
      by (rule model_call_cong) (simp_all add: r)
    show "answer_call (sv\<lparr>sv_call_tool := call\<rparr>) c w = answer_call sv c w" for c w
    proof (cases "tq_name c = name")
      case True
      obtain reason w' where "sv_fire sv (Pre_Tool_Use name (tq_arguments c)) w = (Block reason, w')"
        using assms(1) by blast
      then show ?thesis by (simp add: answer_call_def True)
    next
      case False
      then have "call (tq_name c) args w = sv_call_tool sv (tq_name c) args w" for args w using assms(2) by blast
      then show ?thesis
        by (simp add: answer_call_def run_tool_def n split: hook_verdict.split prod.split)
    qed
  qed simp_all
qed

section \<open>Examples\<close>

text \<open>Digits are hidden, one tool is blocked, and the first answer of the model calls it.\<close>

definition hide_digits :: "string \<Rightarrow> string" where
  "hide_digits t = map (\<lambda>c. if is_ascii_digit c then CHR ''*'' else c) t"

definition removal :: "unit tool_request" where
  "removal = \<lparr>tq_id = ''1'', tq_name = ''rm'', tq_arguments = ()\<rparr>"

definition guarded_services :: "(nat, unit, int, nat, unit) services" where
  "guarded_services = \<lparr>
     sv_fire = (\<lambda>h w. ((case h of Pre_Tool_Use n a \<Rightarrow> if n = ''rm'' then Block ''no'' else Proceed | _ \<Rightarrow> Proceed), w)),
     sv_redact = (\<lambda>t. (hide_digits t, 0)), sv_compress = None, sv_tools = (\<lambda>w. ((), w)),
     sv_call_tool = (\<lambda>_ _ w. (''done'', w)),
     sv_complete = (\<lambda>_ _ _ _ _ w.
       (Inr (if w = 0 then \<lparr>cp_content = None, cp_tool_calls = [removal], cp_logprobs = None\<rparr>
             else \<lparr>cp_content = Some ''hi'', cp_tool_calls = [], cp_logprobs = None\<rparr>), w + 1)),
     sv_chronos = None\<rparr>"

theorem conversation_shape_witness:
  "\<exists>system' k rs tail. first_messages ''s'' [] ''hello''
      @ [\<lparr>ch_role = ''assistant'', ch_content = [], ch_tool_call_id = None, ch_tool_calls = Some [removal]\<rparr>,
         tool_result ''1'' ''Tool blocked by hook: no'', plain_message ''assistant'' ''hi'']
    = first_messages system' [] ''hello'' @ rs @ tail \<and> rounds k rs \<and> k \<le> 10"
proof -
  have "fst (run_model_loop guarded_services 1 ''s'' [] ''hello'' True False 0)
      = Inr (''hi'', None, first_messages ''s'' [] ''hello''
        @ [\<lparr>ch_role = ''assistant'', ch_content = [], ch_tool_call_id = None, ch_tool_calls = Some [removal]\<rparr>,
           tool_result ''1'' ''Tool blocked by hook: no'', plain_message ''assistant'' ''hi''])"
    by code_simp
  from conversation_shape [OF this] show ?thesis by blast
qed

theorem blocked_tool_never_runs_witness:
  "run_model_loop (guarded_services\<lparr>sv_call_tool := \<lambda>n a w. if n = ''rm'' then (''gone'', w) else (''done'', w)\<rparr>)
      1 ''s'' [] ''hello'' True False 0
    = run_model_loop guarded_services 1 ''s'' [] ''hello'' True False 0"
  by (rule blocked_tool_never_runs [where name = "''rm''"]) (simp_all add: guarded_services_def)


end
