(* ===== verification/Replies.thy ===== *)
theory Replies
  imports Conversation Memory
begin

text \<open>
  What the agent keeps of a reply (\<open>crates/core/src/agent.rs\<close>): the facts and the exchange it captures,
  the procedure it may have found, and the promises it made.

  The procedure of PluresDB that may replace the detection of promises, the state store, the manager of
  tasks and the timeline are parameters.
\<close>

section \<open>Facts\<close>

definition domain_langs :: "string list" where
  "domain_langs = [''rust'', ''python'', ''typescript'', ''javascript'', ''go'', ''c#'', ''java'']"

definition domain_tools :: "string list" where
  "domain_tools = [''cargo'', ''tokio'', ''serde'', ''git'', ''docker'', ''kubernetes'', ''sql'']"

definition extract_domain_tags :: "unicode \<Rightarrow> string \<Rightarrow> string list" where
  "extract_domain_tags u question =
     (let lower = uc_lowercase u question in
      map ((@) ''lang:'') (filter (contains_str lower) domain_langs)
      @ map ((@) ''tool:'') (filter (contains_str lower) domain_tools))"

definition looks_like_correction :: "unicode \<Rightarrow> string \<Rightarrow> bool" where
  "looks_like_correction u sentence \<longleftrightarrow>
     list_ex (contains_str (uc_lowercase u sentence))
       [''you were wrong'', ''that'' @ [CHR 0x27] @ ''s wrong'', ''that is wrong'', ''incorrect'', ''mistake'', ''sorry'',
        ''apologize'']"

text \<open>\<open>split(['.', '!', '?'])\<close>.\<close>

fun sentences :: "string \<Rightarrow> string list" where
  "sentences [] = [[]]"
| "sentences (c # cs) =
     (if c = CHR ''.'' \<or> c = CHR ''!'' \<or> c = CHR ''?'' then [] # sentences cs
      else (case sentences cs of [] \<Rightarrow> [[c]] | s # r \<Rightarrow> (c # s) # r))"

text \<open>\<open>trim_start_matches(['-', '*', '\<^verbatim>\<open>bullet\<close>'])\<close>.\<close>

fun trim_bullets :: "string \<Rightarrow> string" where
  "trim_bullets [] = []"
| "trim_bullets (c # cs) =
     (if c = CHR ''-'' \<or> c = CHR ''*'' then trim_bullets cs
      else if prefix bullet (c # cs) then trim_bullets (drop 2 cs)
      else c # cs)"

definition extract_facts :: "unicode \<Rightarrow> string \<Rightarrow> string list" where
  "extract_facts u response =
     filter (\<lambda>s. s \<noteq> [] \<and> \<not> looks_like_correction u s)
       (map (\<lambda>s. trim_bullets (trim s)) (concat (map sentences (lines response))))"

section \<open>The memory of an exchange\<close>

text \<open>The memory with embeddings, where there is one.\<close>

record ('s, 'c, 'y) long_memory =
  lm_names :: "'c category_names"
  lm_floats :: "'y floats"
  lm_store :: "('s, 'c, 'y) store_ops"
  lm_embed :: "'y embedder"

text \<open>Each fact has an id and a time of its own; failures are only logged.\<close>

fun capture_facts ::
    "unicode \<Rightarrow> ('s, 'c, 'y) long_memory \<Rightarrow> (nat \<Rightarrow> string) \<Rightarrow> string \<Rightarrow> string list \<Rightarrow> string list \<Rightarrow> 's \<Rightarrow> 's" where
  "capture_facts u lm ids now tags [] s = s"
| "capture_facts u lm ids now tags (f # fs) s =
     capture_facts u lm (\<lambda>i. ids (Suc i)) now tags fs
       (if passes_quality_gate u f
        then snd (capture_fact (lm_names lm) (lm_floats lm) u (lm_store lm) (lm_embed lm) (ids 0) now f tags s)
        else s)"

text \<open>Without the memory with embeddings the exchange goes to the plain one, the first argument.\<close>

definition capture_exchange ::
    "(string \<Rightarrow> 's \<Rightarrow> 's) \<Rightarrow> ('s, 'c, 'y) long_memory option \<Rightarrow> unicode \<Rightarrow> (nat \<Rightarrow> string) \<Rightarrow> string \<Rightarrow> string
      \<Rightarrow> string \<Rightarrow> 's \<Rightarrow> 's" where
  "capture_exchange plain lm u ids now user assistant s =
     (if trim assistant = [] then s
      else
        (case lm of
           Some l \<Rightarrow>
             (let facts = extract_facts u assistant;
                  s1 = capture_facts u l ids now (extract_domain_tags u user) facts s in
              snd (capture (lm_names l) (lm_floats l) u (lm_store l) (lm_embed l) (ids (length facts)) now
                \<lparr>xc_user = user, xc_assistant = assistant\<rparr> s1))
         | None \<Rightarrow> plain (''User: '' @ user @ [newline] @ ''Assistant: '' @ assistant) s))"

definition procedure_triggers :: "string list" where
  "procedure_triggers = [''steps:'', ''procedure:'', ''workflow:'', ''runbook:'', ''playbook:'', ''checklist:'']"

definition extract_procedure_candidate :: "unicode \<Rightarrow> string \<Rightarrow> string \<Rightarrow> string option" where
  "extract_procedure_candidate u user assistant =
     (let lower = uc_lowercase u assistant;
          has_steps = list_ex (contains_str lower) procedure_triggers
            \<or> contains_str lower ''step 1'' \<and> contains_str lower ''step 2''
            \<or> contains_str assistant ''1.'' \<and> contains_str assistant ''2.'' in
      if \<not> has_steps then None
      else
        (let summary = join [newline] (take 12 (filter (\<lambda>l. trim l \<noteq> []) (lines assistant))) in
         if trim summary = [] then None
         else Some (''Procedure candidate derived from user request:'' @ [newline] @ ''User: '' @ user
           @ [newline, newline] @ summary)))"

text \<open>The task that a reply spawns: the description and the tags that it will capture.\<close>

definition spawn_procedure_writer ::
    "('s, 'c, 'y) long_memory option \<Rightarrow> unicode \<Rightarrow> string \<Rightarrow> string \<Rightarrow> (string \<times> string list) option" where
  "spawn_procedure_writer lm u user assistant =
     (if lm = None then None
      else map_option (\<lambda>candidate. (candidate, extract_domain_tags u user)) (extract_procedure_candidate u user assistant))"

definition run_procedure_writer ::
    "('s, 'c, 'y) long_memory \<Rightarrow> unicode \<Rightarrow> string \<Rightarrow> string \<Rightarrow> string \<times> string list \<Rightarrow> 's \<Rightarrow> 's" where
  "run_procedure_writer l u k now job s =
     snd (capture_procedure_candidate (lm_names l) (lm_floats l) u (lm_store l) (lm_embed l) k now (fst job) (snd job) s)"

section \<open>Promises\<close>

definition apostrophe :: string where
  "apostrophe = [CHR 0x27]"

definition commitment_patterns :: "string list" where
  "commitment_patterns =
     [''i'' @ apostrophe @ ''ll '', ''i will '', ''let me '', ''going to '', ''i'' @ apostrophe @ ''m going to '',
      ''i am going to '', ''i need to '', ''i'' @ apostrophe @ ''m going to need to '', ''i plan to '']"

definition action_verbs :: "string list" where
  "action_verbs =
     [''diagnose'', ''fix'', ''implement'', ''write'', ''create'', ''update'', ''check'', ''verify'', ''build'',
      ''deploy'', ''configure'', ''set up'', ''refactor'', ''optimize'', ''debug'', ''test'', ''add'', ''remove'',
      ''migrate'', ''install'', ''resolve'', ''investigate'', ''wire'', ''connect'', ''integrate'', ''port'',
      ''rewrite'', ''redesign'']"

definition starts_with_verb :: "string \<Rightarrow> bool" where
  "starts_with_verb s \<longleftrightarrow> list_ex (\<lambda>v. prefix v s) action_verbs"

text \<open>The text after the number of an item of a numbered list, when it begins with a verb.\<close>

definition numbered_promise :: "unicode \<Rightarrow> string \<Rightarrow> string list" where
  "numbered_promise u trimmed =
     (if trimmed \<noteq> [] \<and> is_ascii_digit (hd trimmed) then
        (case split_once (CHR ''.'') trimmed of
           Some (_, t) \<Rightarrow> if starts_with_verb (uc_lowercase u (trim t)) then [trim t] else []
         | None \<Rightarrow> [])
      else [])"

text \<open>The text after the first of the patterns that occurs.\<close>

definition after_pattern :: "string \<Rightarrow> string option" where
  "after_pattern lower =
     (case find (contains_str lower) commitment_patterns of
        None \<Rightarrow> None
      | Some p \<Rightarrow> map_option (\<lambda>i. drop (i + length p) lower) (find_str lower p))"

text \<open>
  A promise is new when no promise contains the first 25 bytes after the pattern; the cut panics inside a
  character, but only when there is a promise to compare with.
\<close>

definition is_new_promise :: "unicode \<Rightarrow> string \<Rightarrow> string list \<Rightarrow> bool option" where
  "is_new_promise u after promises =
     (if promises = [] then Some True
      else map_option (\<lambda>h. \<not> list_ex (\<lambda>p. contains_str (uc_lowercase u p) h) promises)
        (slice_to after (min (length after) 25)))"

definition scan_line :: "unicode \<Rightarrow> string \<Rightarrow> string list \<Rightarrow> string list option" where
  "scan_line u line promises =
     (let trimmed = trim line in
      if length trimmed < 15 \<or> 200 < length trimmed then Some promises
      else
        (let promises1 = promises @ numbered_promise u trimmed in
         case after_pattern (uc_lowercase u trimmed) of
           Some after \<Rightarrow>
             if starts_with_verb after \<and> 15 \<le> length after then
               map_option (\<lambda>new. if new then promises1 @ [trimmed] else promises1) (is_new_promise u after promises1)
             else Some promises1
         | None \<Rightarrow> Some promises1))"

fun scan_lines :: "unicode \<Rightarrow> string list \<Rightarrow> string list \<Rightarrow> string list option" where
  "scan_lines u [] promises = Some promises"
| "scan_lines u (l # ls) promises = Option.bind (scan_line u l promises) (scan_lines u ls)"

definition detect_commitments_fallback :: "unicode \<Rightarrow> string \<Rightarrow> string list option" where
  "detect_commitments_fallback u reply = scan_lines u (lines reply) []"

text \<open>What the procedure of PluresDB returned, if it was called and did not fail.\<close>

definition px_commitments :: "json \<Rightarrow> string list" where
  "px_commitments v =
     (case v of
        JArray items \<Rightarrow> List.map_filter (\<lambda>i. Option.bind (json_get ''text'' i) json_as_str) items
      | _ \<Rightarrow> [])"

record 's promise_sinks =
  pk_px :: "string \<Rightarrow> json option"
  pk_get :: "(string \<Rightarrow> 's \<Rightarrow> json option) option"
  pk_set :: "string \<Rightarrow> json \<Rightarrow> 's \<Rightarrow> 's"
  pk_create_task :: "(string \<Rightarrow> string \<Rightarrow> string \<Rightarrow> 's \<Rightarrow> string \<times> 's) option"
  pk_chronos :: "(string \<Rightarrow> string \<Rightarrow> 's \<Rightarrow> 's) option"

definition promise_json :: "nat \<Rightarrow> string \<Rightarrow> json" where
  "promise_json now p =
     JObject [(''what'', JString p), (''completed'', JBool False), (''created_at'', JNumber (show_nat now))]"

definition keep_last :: "nat \<Rightarrow> 'a list \<Rightarrow> 'a list" where
  "keep_last n xs = (if n < length xs then rev (take n (rev xs)) else xs)"

definition store_promises :: "'s promise_sinks \<Rightarrow> nat \<Rightarrow> string list \<Rightarrow> 's \<Rightarrow> 's" where
  "store_promises pk now promises s =
     (case pk_get pk of
        None \<Rightarrow> s
      | Some get \<Rightarrow>
          (let existing = (case get ''agent_promises'' s of Some (JArray vs) \<Rightarrow> vs | _ \<Rightarrow> []);
               updated = keep_last 20 (existing @ map (promise_json now) promises) in
           pk_set pk ''most_recent_task_id'' JNull (pk_set pk ''agent_promises'' (JArray updated) s)))"

text \<open>\<open>&p[..p.len().min(n)]\<close>.\<close>

definition head_bytes :: "nat \<Rightarrow> string \<Rightarrow> string option" where
  "head_bytes n p = slice_to p (min (length p) n)"

text \<open>
  The tasks and the notes; the state is returned with the way it ended, as what was stored before a panic
  stays stored.
\<close>

fun create_tasks ::
    "(string \<Rightarrow> string \<Rightarrow> string \<Rightarrow> 's \<Rightarrow> string \<times> 's) \<Rightarrow> string list \<Rightarrow> string \<Rightarrow> 's \<Rightarrow> string option \<times> 's" where
  "create_tasks create [] last_id s = (Some last_id, s)"
| "create_tasks create (p # ps) last_id s =
     (case (head_bytes 80 p, head_bytes 120 p) of
        (Some a, Some b) \<Rightarrow>
          (let (k, s') = create p (''Complete: '' @ a) (''Verify completion: '' @ b) s in create_tasks create ps k s')
      | _ \<Rightarrow> (None, s))"

fun note_promises :: "(string \<Rightarrow> string \<Rightarrow> 's \<Rightarrow> 's) \<Rightarrow> string list \<Rightarrow> 's \<Rightarrow> bool \<times> 's" where
  "note_promises chronos [] s = (True, s)"
| "note_promises chronos (p # ps) s =
     (case head_bytes 80 p of
        Some a \<Rightarrow> note_promises chronos ps (chronos p (''promise: '' @ a) s)
      | None \<Rightarrow> (False, s))"

text \<open>\<open>False\<close> when the detection or the storing panics.\<close>

definition detect_and_store_promises :: "unicode \<Rightarrow> 's promise_sinks \<Rightarrow> nat \<Rightarrow> string \<Rightarrow> 's \<Rightarrow> bool \<times> 's" where
  "detect_and_store_promises u pk now reply s =
     (case (case pk_px pk reply of Some v \<Rightarrow> Some (px_commitments v) | None \<Rightarrow> detect_commitments_fallback u reply) of
        None \<Rightarrow> (False, s)
      | Some promises \<Rightarrow>
          if promises = [] then (True, s)
          else
            (let s1 = store_promises pk now promises s;
                 (ok, s2) =
                   (case pk_create_task pk of
                      None \<Rightarrow> (True, s1)
                    | Some create \<Rightarrow>
                        (case create_tasks create promises [] s1 of
                           (None, s') \<Rightarrow> (False, s')
                         | (Some k, s') \<Rightarrow>
                             (True, if pk_get pk = None then s' else pk_set pk ''most_recent_task_id'' (JString k) s'))) in
             if \<not> ok then (False, s2)
             else (case pk_chronos pk of None \<Rightarrow> (True, s2) | Some chronos \<Rightarrow> note_promises chronos promises s2)))"

end
