(* ===== verification/Branching.thy ===== *)
theory Branching
  imports Conversation Retention
begin

text \<open>
  The branches of a channel: what the commands keep, what each of them does to the histories, and where
  they lose or mix up conversations.
\<close>

section \<open>Names\<close>

lemma show_nat_inj: "show_nat m = show_nat n \<Longrightarrow> m = n"
  by (metis dec_val_show_nat)

lemma fresh_name_Some: "\<exists>b. fresh_name series names = Some b \<and> b \<notin> set names \<and> prefix series b"
proof -
  let ?f = "\<lambda>i. series @ show_nat i" and ?is = "[1..<length names + 2]"
  have "\<exists>i \<in> set ?is. ?f i \<notin> set names"
  proof (rule ccontr)
    assume "\<not> ?thesis"
    then have sub: "?f ` set ?is \<subseteq> set names" by blast
    have "card (?f ` set ?is) = length names + 1"
    proof -
      have "inj_on ?f (set ?is)" by (rule inj_onI) (metis same_append_eq show_nat_inj)
      then show ?thesis by (simp only: card_image set_upt card_atLeastLessThan)
    qed
    moreover have "card (?f ` set ?is) \<le> card (set names)" by (rule card_mono [OF _ sub]) simp
    moreover have "card (set names) \<le> length names" by (rule card_length)
    ultimately show False by simp
  qed
  then obtain i where "find (\<lambda>i. ?f i \<notin> set names) ?is = Some i"
    by (metis (no_types, lifting) find_None_iff not_None_eq)
  then show ?thesis using find_sat [of "\<lambda>i. ?f i \<notin> set names" ?is i] by (auto simp: fresh_name_def)
qed

lemma scoped_same: "scoped_channel c a = scoped_channel c b \<Longrightarrow> a = b"
  by (auto simp: scoped_channel_def split: if_splits)

section \<open>The invariant\<close>

definition branches_ok :: "channel_branches \<Rightarrow> bool" where
  "branches_ok s \<longleftrightarrow> br_active s \<in> set (br_names s) \<and> ''main'' \<in> set (br_names s)
     \<and> sorted (br_names s) \<and> distinct (br_names s)"

definition conversations_ok :: "('s, 'a) conversations \<Rightarrow> bool" where
  "conversations_ok cv \<longleftrightarrow> (\<forall>c. branches_ok (branches_of cv c))"

lemma branches_put: "branches_of (put_branches c s cv) d = (if d = c then s else branches_of cv d)"
  by (simp add: branches_of_def put_branches_def hm_get_insert)

lemma history_put: "cv_history (put_branches c s cv) = cv_history cv"
  by (simp add: put_branches_def)

lemma branches_frame:
  "branches_of (cv\<lparr>cv_history := h\<rparr>) = branches_of cv"
  "branches_of (cv\<lparr>cv_store := s\<rparr>) = branches_of cv"
  by (simp_all add: branches_of_def fun_eq_iff)

lemma branches_open: "branches_of (open_history k cv) = branches_of cv"
  by (simp add: open_history_def branches_frame split: option.split)

lemma branches_load: "branches_of (snd (load_history he k cv)) = branches_of cv"
proof -
  have "cv_branches (snd (load_history he k cv)) = cv_branches cv"
    by (auto simp: load_history_def Let_def split: option.splits list.splits prod.splits sum.splits)
  then show ?thesis by (simp add: branches_of_def fun_eq_iff)
qed

lemmas branches_simps = branches_put branches_frame branches_open branches_load

lemma default_ok: "branches_ok default_branches"
  by (simp add: branches_ok_def default_branches_def)

lemma add_branch_ok: "branches_ok s \<Longrightarrow> branches_ok (add_branch b s)"
  by (auto simp: branches_ok_def add_branch_def set_insort_insert sorted_insort_insert distinct_insort_insert)

lemma add_branch_active: "br_active (add_branch b s) = b"
  by (simp add: add_branch_def)

text \<open>What a command may do: change the branches of its channel, well-formed, and histories of its branches.\<close>

definition stays :: "string \<Rightarrow> ('s, 'a) conversations \<Rightarrow> ('s, 'a) conversations \<Rightarrow> bool" where
  "stays channel cv cv' \<longleftrightarrow>
     (conversations_ok cv \<longrightarrow> conversations_ok cv') \<and>
     (\<forall>d. d \<noteq> channel \<longrightarrow> branches_of cv' d = branches_of cv d) \<and>
     (\<forall>k. (\<forall>b. k \<noteq> scoped_channel channel b) \<longrightarrow> hm_get (cv_history cv') k = hm_get (cv_history cv) k)"

lemma stays_refl: "stays channel cv cv"
  by (simp add: stays_def)

lemma stays_put:
  "branches_ok (branches_of cv channel) \<longrightarrow> branches_ok s \<Longrightarrow> stays channel cv (put_branches channel s cv)"
  by (simp add: stays_def conversations_ok_def branches_put history_put)

lemma stays_trans: "stays c x y \<Longrightarrow> stays c y z \<Longrightarrow> stays c x z"
  by (auto simp: stays_def)

lemma stays_history:
  "stays channel cv (cv\<lparr>cv_history := hm_insert (scoped_channel channel b) h (cv_history cv)\<rparr>)"
  by (auto simp: stays_def conversations_ok_def branches_frame hm_get_insert)

lemma stays_open: "stays channel cv (open_history (scoped_channel channel b) cv)"
  by (auto simp: open_history_def stays_refl intro: stays_history split: option.split)

lemma stays_store: "stays channel cv (cv\<lparr>cv_store := s\<rparr>)"
  by (simp add: stays_def conversations_ok_def branches_frame)

lemma stays_load: "stays channel cv (snd (load_history he (scoped_channel channel b) cv))"
proof -
  have "hm_get (cv_history (snd (load_history he k cv))) j = hm_get (cv_history cv) j" if "j \<noteq> k" for j k
    using that by (auto simp: load_history_def Let_def hm_get_insert split: option.splits list.splits prod.splits sum.splits)
  then show ?thesis by (auto simp: stays_def conversations_ok_def branches_load)
qed

lemma stays_add: "stays channel cv (put_branches channel (add_branch b (branches_of cv channel)) cv)"
  by (rule stays_put) (simp add: add_branch_ok)

lemma stays_opened:
  "stays channel cv (open_history (scoped_channel channel b) (put_branches channel (add_branch b (branches_of cv channel)) cv))"
  by (rule stays_trans [OF stays_add stays_open])

lemma stays_session: "stays channel cv (snd (session_command channel parts cv))"
proof -
  have "stays channel cv (snd (session_new_command channel ps cv))" for ps
    unfolding session_new_command_def Let_def snd_conv by (rule stays_opened)
  moreover have "stays channel cv (snd (session_switch_command channel ps cv))" for ps
    unfolding session_switch_command_def Let_def by (simp add: stays_refl stays_add)
  ultimately show ?thesis by (simp add: session_command_def Let_def stays_refl)
qed

lemma stays_branch: "stays channel cv (snd (branch_command he channel parts cv))"
proof -
  have load: "stays channel cv (snd (load_history he (resolve_branch_channel cv channel) cv))"
    unfolding resolve_branch_channel_def by (rule stays_load)
  obtain snapshot cv1 where l: "load_history he (resolve_branch_channel cv channel) cv = (snapshot, cv1)" by fastforce
  have "stays channel cv1 (snd (branch_command he channel parts cv))"
    unfolding branch_command_def Let_def l prod.case snd_conv by (rule stays_trans [OF stays_add stays_history])
  then show ?thesis using load l stays_trans by (metis snd_conv)
qed

lemma stays_switch: "stays channel cv (snd (switch_command channel parts cv))"
  by (auto simp: switch_command_def Let_def stays_refl branches_ok_def intro!: stays_put)

lemma stays_resume: "stays channel cv (snd (resume_command he channel parts cv))"
  using stays_history [of channel cv "''main''"]
  by (auto simp: resume_command_def stays_refl scoped_channel_def split: option.split)

lemma stays_clear: "stays channel cv (snd (clear_command he channel cv))"
proof (cases "he_sessions he")
  case None
  then show ?thesis unfolding clear_command_def Let_def snd_conv by (simp add: stays_opened)
next
  case (Some ss)
  then show ?thesis
    unfolding clear_command_def Let_def snd_conv by (simp add: stays_trans [OF stays_opened stays_store])
qed

lemma handle_stays: "stays channel cv (snd (handle_branch_command he channel content cv))"
  by (auto simp: handle_branch_command_def Let_def stays_refl stays_session stays_branch stays_switch
      stays_resume stays_clear)

fun command_run ::
    "('s, 'a, 'x) history_env \<Rightarrow> (string \<times> string) list \<Rightarrow> ('s, 'a) conversations \<Rightarrow> ('s, 'a) conversations" where
  "command_run he [] cv = cv"
| "command_run he ((channel, content) # ms) cv =
     command_run he ms (snd (handle_branch_command he channel content cv))"

definition conversations_new :: "'s \<Rightarrow> ('s, 'a) conversations" where
  "conversations_new s = \<lparr>cv_branches = [], cv_history = [], cv_store = s\<rparr>"

text \<open>
  C40: Whatever commands are sent, the active branch of every channel is one of its branches, \<open>main\<close> stays
  one of them, and the names are sorted and distinct.
\<close>

theorem branches_stay_well_formed:
  "branches_ok (branches_of (command_run he ms (conversations_new s)) channel)"
proof -
  have "conversations_ok cv \<Longrightarrow> conversations_ok (command_run he ms cv)" for cv
  proof (induction ms arbitrary: cv)
    case (Cons m ms)
    obtain c t where "m = (c, t)" by fastforce
    then show ?case using Cons handle_stays [of c cv he t] by (simp add: stays_def)
  qed simp
  moreover have "conversations_ok (conversations_new s)"
    by (simp add: conversations_ok_def conversations_new_def branches_of_def hm_get_Nil default_ok)
  ultimately show ?thesis unfolding conversations_ok_def by blast
qed

text \<open>
  A command changes nothing of the other channels: their branches are the same, and so is every
  history that is not the one of a branch of its channel.
\<close>

theorem commands_stay_in_channel:
  "(d \<noteq> channel \<longrightarrow> branches_of (snd (handle_branch_command he channel content cv)) d = branches_of cv d)
   \<and> ((\<forall>b. k \<noteq> scoped_channel channel b) \<longrightarrow>
      hm_get (cv_history (snd (handle_branch_command he channel content cv))) k = hm_get (cv_history cv) k)"
  using handle_stays [of channel cv he content] by (simp add: stays_def)

section \<open>Switching, clearing and resuming\<close>

lemma load_trimmed:
  "hm_get (cv_history cv) k = Some (m # ms) \<Longrightarrow>
    fst (load_history he k cv) = trim_to_token_budget (he_arith he) (he_tokens he) (m # ms)"
  by (simp add: load_history_def)

definition env0 :: "('s, unit) turn_store option \<Rightarrow> ('s, unit) session_store option \<Rightarrow> ('s, unit, int) history_env" where
  "env0 tu ss = \<lparr>he_arith = fixed_point, he_tokens = \<lambda>s. Some (length s), he_turns = tu, he_sessions = ss\<rparr>"

text \<open>
  Clearing ends and starts a session that no branch of the channel is called by: the search for a
  free name succeeds, the new branch is the active one, and every history there was is kept.
\<close>

theorem clear_starts_new_session:
  "\<exists>b. br_active (branches_of (snd (clear_command he channel cv)) channel) = b
    \<and> b \<notin> set (br_names (branches_of cv channel))
    \<and> set (br_names (branches_of (snd (clear_command he channel cv)) channel)) = insert b (set (br_names (branches_of cv channel)))
    \<and> (\<forall>k h. hm_get (cv_history cv) k = Some h \<longrightarrow> hm_get (cv_history (snd (clear_command he channel cv))) k = Some h)"
proof -
  obtain b where b: "fresh_name ''session-'' (br_names (branches_of cv channel)) = Some b"
      "b \<notin> set (br_names (branches_of cv channel))" using fresh_name_Some by blast
  let ?cv = "open_history (scoped_channel channel b) (put_branches channel (add_branch b (branches_of cv channel)) cv)"
  have "branches_of (snd (clear_command he channel cv)) channel = add_branch b (branches_of cv channel)"
    by (simp add: clear_command_def Let_def b branches_simps split: option.split)
  moreover have "cv_history (snd (clear_command he channel cv)) = cv_history ?cv"
    by (simp add: clear_command_def Let_def b split: option.split)
  moreover have "hm_get (cv_history ?cv) k = Some h" if "hm_get (cv_history cv) k = Some h" for k h
    using that by (auto simp: open_history_def history_put hm_get_insert split: option.split)
  ultimately show ?thesis using b(2) by (intro exI [of _ b]) (simp add: add_branch_def set_insort_insert)
qed

theorem clear_starts_new_session_witness:
  "\<exists>b. br_active (branches_of (snd (clear_command (env0 None None) ''c'' (conversations_new ()))) ''c'') = b
    \<and> b \<notin> {''main''}"
  using clear_starts_new_session [of "env0 None None" "''c''" "conversations_new ()"]
  by (auto simp: conversations_new_def branches_of_def hm_get_Nil default_branches_def)

text \<open>
  The command to branch replaces the history of a branch that exists already: the current
  conversation is copied over it, while the reply says that the channel was switched to it.
\<close>

theorem branch_overwrites_existing:
  assumes "trim (collect_command_target parts) = b" and "b \<noteq> []" and "map ascii_lower b \<noteq> ''main''"
    and "b \<in> set (br_names (branches_of cv channel))"
    and "fst (load_history he (resolve_branch_channel cv channel) cv) = snapshot"
  shows "prefix (''Switched to existing branch '' @ quoted_name b) (fst (branch_command he channel parts cv))
    \<and> br_active (branches_of (snd (branch_command he channel parts cv)) channel) = b
    \<and> hm_get (cv_history (snd (branch_command he channel parts cv))) (scoped_channel channel b) = Some snapshot"
proof -
  obtain cv1 where l: "load_history he (resolve_branch_channel cv channel) cv = (snapshot, cv1)"
    using assms(5) by (cases "load_history he (resolve_branch_channel cv channel) cv") simp
  then have "branches_of cv1 = branches_of cv" using branches_load [of he _ cv] by (metis snd_conv)
  then show ?thesis
    using assms by (simp add: branch_command_def Let_def l branches_simps add_branch_active hm_get_insert)
qed

definition said :: "string \<Rightarrow> unit message" where
  "said t = plain_message ''user'' t"

definition two_branches :: "(unit, unit) conversations" where
  "two_branches = \<lparr>cv_branches = [(''c'', \<lparr>br_active = ''main'', br_names = [''b'', ''main'']\<rparr>)],
     cv_history = [(''c'', [said ''new'']), (''c::b'', [said ''old''])], cv_store = ()\<rparr>"

lemma two_branches_facts:
  "branches_of two_branches ''c'' = \<lparr>br_active = ''main'', br_names = [''b'', ''main'']\<rparr>"
  "fst (load_history (env0 None None) (resolve_branch_channel two_branches ''c'') two_branches) = [said ''new'']"
  by (simp_all add: two_branches_def branches_of_def hm_get_def resolve_branch_channel_def scoped_channel_def
      load_history_def trim_to_token_budget_def max_history_tokens_def said_def plain_message_def estimate_tokens_def)

theorem commands_stay_in_channel_witness:
  "branches_of (snd (handle_branch_command (env0 None None) ''c'' ''/clear'' two_branches)) ''d'' = branches_of two_branches ''d''
   \<and> hm_get (cv_history (snd (handle_branch_command (env0 None None) ''c'' ''/branch b'' two_branches))) ''d''
      = hm_get (cv_history two_branches) ''d''"
proof
  show "branches_of (snd (handle_branch_command (env0 None None) ''c'' ''/clear'' two_branches)) ''d'' = branches_of two_branches ''d''"
    by (rule commands_stay_in_channel [THEN conjunct1, rule_format]) simp
  show "hm_get (cv_history (snd (handle_branch_command (env0 None None) ''c'' ''/branch b'' two_branches))) ''d''
      = hm_get (cv_history two_branches) ''d''"
    by (rule commands_stay_in_channel [THEN conjunct2, rule_format]) (simp add: scoped_channel_def)
qed

theorem branch_overwrites_existing_witness:
  "hm_get (cv_history (snd (branch_command (env0 None None) ''c'' [''b''] two_branches))) (scoped_channel ''c'' ''b'')
     = Some [said ''new'']"
proof (rule branch_overwrites_existing [THEN conjunct2, THEN conjunct2, OF _ _ _ _ two_branches_facts(2)])
  show "trim (collect_command_target [''b'']) = ''b''"
    by (simp add: collect_command_target_def trim_graph is_graph_def)
  show "map ascii_lower ''b'' \<noteq> ''main''" by code_simp
  show "''b'' \<in> set (br_names (branches_of two_branches ''c''))" by (simp add: two_branches_facts)
qed simp

text \<open>
  Resuming restores the saved messages into the history of \<open>main\<close>, whatever branch is active: on
  another branch the reply counts the resumed messages while its conversation stays as it was.
\<close>

theorem resume_restores_main_only:
  assumes "he_sessions he = Some ss" and "ss_load_active ss channel (cv_store cv) = Some ms"
    and "br_active (branches_of cv channel) \<noteq> ''main''"
  shows "resume_command he channel [] cv
      = (''Resumed session with '' @ show_nat (length ms) @ '' messages.'', snd (resume_command he channel [] cv))
    \<and> hm_get (cv_history (snd (resume_command he channel [] cv))) channel = Some ms
    \<and> hm_get (cv_history (snd (resume_command he channel [] cv))) (resolve_branch_channel cv channel)
      = hm_get (cv_history cv) (resolve_branch_channel cv channel)"
  using assms by (simp add: resume_command_def hm_get_insert resolve_branch_channel_def scoped_channel_def)

definition saved0 :: "('s, unit) session_store" where
  "saved0 = \<lparr>ss_load_active = \<lambda>_ _. Some [said ''saved''], ss_list = \<lambda>_ _ _. [], ss_archive = \<lambda>_ s. s\<rparr>"

lemma saved0_load: "ss_load_active saved0 c s = Some [said ''saved'']"
  by (simp add: saved0_def)

theorem resume_restores_main_only_witness:
  "hm_get (cv_history (snd (resume_command (env0 None (Some saved0)) ''c'' []
      (put_branches ''c'' \<lparr>br_active = ''b'', br_names = [''b'', ''main'']\<rparr> two_branches)))) ''c'' = Some [said ''saved'']"
  by (rule resume_restores_main_only [THEN conjunct2, THEN conjunct1]) (simp_all add: saved0_load branches_put env0_def, (rule saved0_load)?)

text \<open>
  After a restart, clearing can bring an old conversation back: the names of the branches are
  forgotten, so the new session gets the name of the first one there ever was, and its history is read
  from the turns stored under that name.
\<close>

theorem clear_after_restart_revives_session:
  assumes "he_turns he = Some tu" and "tu_recent tu (channel @ ''::session-1'') 512 s = (Inr (t # ts), s')"
    and "he_sessions he = None"
    and "cv = snd (clear_command he channel (conversations_new s))"
  shows "fst (load_history he (resolve_branch_channel cv channel) cv)
    = trim_to_token_budget (he_arith he) (he_tokens he) (concat (map tn_messages (t # ts)))"
proof -
  have "fresh_name ''session-'' [''main''] = Some ''session-1''" by code_simp
  then show ?thesis
    using assms(1-3)
    by (simp add: assms(4) clear_command_def Let_def conversations_new_def branches_of_def hm_get_Nil
        default_branches_def add_branch_def put_branches_def open_history_def hm_get_insert
        resolve_branch_channel_def scoped_channel_def load_history_def hydrate_turn_limit_def
        split: prod.splits sum.splits)
qed

definition log0 :: "(unit message turn list, unit) turn_store" where
  "log0 = \<lparr>tu_insert = \<lambda>t s. (Inr (), s @ [t]), tu_recent = \<lambda>c n s. (Inr (last_turns c n s), s)\<rparr>"

definition old_turn :: "unit message turn" where
  "old_turn = \<lparr>tn_id = ''1'', tn_channel = ''c::session-1'', tn_session_id = ''session-1'', tn_timestamp = ''t'',
     tn_messages = [said ''old'']\<rparr>"

theorem clear_after_restart_revives_session_witness:
  "fst (load_history (env0 (Some log0) None)
      (resolve_branch_channel (snd (clear_command (env0 (Some log0) None) ''c'' (conversations_new [old_turn]))) ''c'')
      (snd (clear_command (env0 (Some log0) None) ''c'' (conversations_new [old_turn]))))
    = trim_to_token_budget (he_arith (env0 (Some log0) None)) (he_tokens (env0 (Some log0) None))
        (concat (map tn_messages (old_turn # [])))"
  by (rule clear_after_restart_revives_session [where tu = log0 and s = "[old_turn]" and s' = "[old_turn]"])
    (simp_all add: env0_def log0_def last_turns_def old_turn_def)

end
