(* ===== verification/Agent.thy ===== *)
theory Agent
  imports Model_Turns Replies Orchestrator Branching
begin

text \<open>
  The agent (\<open>crates/core/src/agent.rs\<close>): how an event is handled, from the command, the pipeline of
  PluresDB or the orchestrator to the exchange with the model and what is kept of it.

  The pipeline, the broker, the procedures, the saved sessions, the log of audits and the timeline are
  parameters.  The store of turns, memories and promises is one store; the random ids and the times are
  the arguments \<open>fresh\<close>.
\<close>

section \<open>The agent\<close>

record ('w, 's, 'a, 'c, 'x, 'm, 'd) agent_env =
  ae_services :: "('w, 'a, 'x, 'm, 'd) services"
  ae_history :: "('s, 'a, 'x) history_env"
  ae_models :: "'m models"
  ae_window :: "'m \<Rightarrow> nat option"
  ae_dispatcher :: bool
  ae_unicode :: unicode
  ae_exp :: "'x \<Rightarrow> 'x"
  ae_orchestrator :: "('s, 'c, 'x) orchestrator_env option"
  ae_pipeline :: "(int \<Rightarrow> string \<Rightarrow> string \<Rightarrow> string \<Rightarrow> 'a message list option \<Rightarrow> 's \<Rightarrow> string option \<times> 's) option"
  ae_memory :: "('s, 'c, 'x) long_memory option"
  ae_plain_memory :: "string \<Rightarrow> 's \<Rightarrow> 's"
  ae_promises :: "'s promise_sinks"
  ae_broker :: "(sub_task list \<Rightarrow> 'w \<Rightarrow> sub_task_result list \<times> 'w) option"
  ae_procedures :: "event \<Rightarrow> (event \<Rightarrow> 'w \<Rightarrow> event list \<times> 'w) list"
  ae_personality :: "(string \<Rightarrow> bool \<Rightarrow> string) option"
  ae_system_prompt :: string
  ae_save_session :: "string \<Rightarrow> 'a message list \<Rightarrow> 's \<Rightarrow> 's"
  ae_audit :: "(string \<Rightarrow> string \<Rightarrow> 'w \<Rightarrow> 'w) option"
  ae_interaction :: "(string \<Rightarrow> string \<Rightarrow> string \<Rightarrow> string \<Rightarrow> string \<Rightarrow> 'w \<Rightarrow> 'w) option"

record fresh =
  fr_turn_id :: string
  fr_time :: string
  fr_millis :: nat
  fr_memory_ids :: "nat \<Rightarrow> string"

record ('w, 's, 'a, 'x) agent_state =
  as_conv :: "('s, 'a) conversations"
  as_orch :: "('s, 'x) orchestrator_state"
  as_route :: nat
  as_jobs :: "(string \<times> string list) list"
  as_world :: 'w

datatype agent_reply = Reply (reply_model: string) (reply_content: string) | No_Reply | Crash

definition last_route_tier :: "('w, 's, 'a, 'x) agent_state \<Rightarrow> route_tier option" where
  "last_route_tier st = from_code (as_route st)"

definition on_store :: "('s \<Rightarrow> 's) \<Rightarrow> ('s, 'a) conversations \<Rightarrow> ('s, 'a) conversations" where
  "on_store f cv = cv\<lparr>cv_store := f (cv_store cv)\<rparr>"

section \<open>The exchange with the model\<close>

definition warning_text :: "string \<Rightarrow> string" where
  "warning_text t = warning_sign @ [CHR 0xEF, CHR 0xB8, CHR 0x8F] @ '' '' @ t"

definition build_system_prompt ::
    "('w, 's, 'a, 'c, 'x, 'm, 'd) agent_env \<Rightarrow> string \<Rightarrow> bool \<Rightarrow> string" where
  "build_system_prompt ae learned deep =
     (case ae_personality ae of
        Some build \<Rightarrow> build learned deep
      | None \<Rightarrow>
          (if deep then ''Think deeply about this. Analyze thoroughly.'' @ (if ae_system_prompt ae \<noteq> [] then '' '' else [])
           else [])
          @ ae_system_prompt ae
          @ (if trim learned \<noteq> [] then [newline, newline] @ ''## Recalled Context'' @ [newline] @ trim learned else []))"

text \<open>The reply, the label of the model it came from, and the messages; a doubtful reply is asked of the deep model.\<close>

definition exchange_with_model ::
    "('w, 's, 'a, 'c, 'x, 'm, 'd) agent_env \<Rightarrow> 'm \<Rightarrow> 'a message list \<Rightarrow> string \<Rightarrow> string \<Rightarrow> bool \<Rightarrow> 'w
      \<Rightarrow> (string + string \<times> string \<times> 'a message list) \<times> 'w" where
  "exchange_with_model ae client history content learned stream w =
     (case run_model_loop (ae_services ae) client (build_system_prompt ae learned False) history content True stream w of
        (Inl e, w1) \<Rightarrow> (Inl e, w1)
      | (Inr (reply, lps, ms), w1) \<Rightarrow>
          (if is_low_confidence (he_arith (ae_history ae)) (ae_exp ae) lps then
             (case mo_deep (ae_models ae) of
                Some deep \<Rightarrow>
                  (case run_model_loop (ae_services ae) deep (build_system_prompt ae learned True) history content
                       False False w1 of
                     (Inr (deep_reply, _, deep_ms), w2) \<Rightarrow> (Inr (deep_reply, ''deep-model'', deep_ms), w2)
                   | (Inl _, w2) \<Rightarrow> (Inr (reply, ''model'', ms), w2))
              | None \<Rightarrow> (Inr (reply, ''model'', ms), w1))
           else (Inr (reply, ''model'', ms), w1)))"

definition audit_summary :: "string \<Rightarrow> string \<Rightarrow> string" where
  "audit_summary content reply =
     ''in='' @ show_nat (length content div 4) @ ''tok out='' @ show_nat (length reply div 4) @ ''tok''"

text \<open>The history, the turn and the saved session of an exchange.\<close>

definition keep_exchange ::
    "('w, 's, 'a, 'c, 'x, 'm, 'd) agent_env \<Rightarrow> fresh \<Rightarrow> string \<Rightarrow> string \<Rightarrow> nat \<Rightarrow> 'a message list
      \<Rightarrow> ('s, 'a) conversations \<Rightarrow> ('s, 'a) conversations" where
  "keep_exchange ae fr channel session old ms cv =
     (let cv1 = (if 1 + old < length ms
                 then persist_turn (ae_history ae) (fr_turn_id fr) (fr_time fr) session (branch_label session)
                   (drop (1 + old) ms) cv
                 else cv) in
      if he_sessions (ae_history ae) = None then cv1
      else
        (let (history, cv2) = load_history (ae_history ae) session cv1 in
         on_store (ae_save_session ae channel history) cv2))"

text \<open>
  What follows a reply: memories, the writer of a procedure, promises and the note on the timeline, whose
  summary is the first 80 bytes of the message.
\<close>

definition after_reply ::
    "('w, 's, 'a, 'c, 'x, 'm, 'd) agent_env \<Rightarrow> fresh \<Rightarrow> string \<Rightarrow> string \<Rightarrow> string \<Rightarrow> string
      \<Rightarrow> ('w, 's, 'a, 'x) agent_state \<Rightarrow> agent_reply \<times> ('w, 's, 'a, 'x) agent_state" where
  "after_reply ae fr channel content reply label st =
     (let s1 = capture_exchange (ae_plain_memory ae) (ae_memory ae) (ae_unicode ae) (fr_memory_ids fr) (fr_time fr)
            content reply (cv_store (as_conv st));
          jobs = as_jobs st
            @ (case spawn_procedure_writer (ae_memory ae) (ae_unicode ae) content reply of None \<Rightarrow> [] | Some j \<Rightarrow> [j]);
          (ok, s2) = detect_and_store_promises (ae_unicode ae) (ae_promises ae) (fr_millis fr) reply s1;
          st1 = st\<lparr>as_conv := (as_conv st)\<lparr>cv_store := s2\<rparr>, as_jobs := jobs\<rparr> in
      if \<not> ok then (Crash, st1)
      else
        (case ae_interaction ae of
           None \<Rightarrow> (Reply label reply, st1)
         | Some note \<Rightarrow>
             (case head_bytes 80 content of
                None \<Rightarrow> (Crash, st1)
              | Some h \<Rightarrow>
                  (Reply label reply,
                   st1\<lparr>as_world := note channel content reply label (''response to: '' @ h) (as_world st1)\<rparr>))))"

definition agent_classifier :: "('w, 's, 'a, 'c, 'x, 'm, 'd) agent_env \<Rightarrow> classifier option" where
  "agent_classifier ae = Option.bind (ae_orchestrator ae) oe_classifier"

definition audited :: "('w, 's, 'a, 'c, 'x, 'm, 'd) agent_env \<Rightarrow> string \<Rightarrow> string \<Rightarrow> 'w \<Rightarrow> 'w" where
  "audited ae label summary w = (case ae_audit ae of None \<Rightarrow> w | Some log \<Rightarrow> log label summary w)"

definition handle_model_message ::
    "('w, 's, 'a, 'c, 'x, 'm, 'd) agent_env \<Rightarrow> fresh \<Rightarrow> string \<Rightarrow> string \<Rightarrow> string \<Rightarrow> bool \<Rightarrow> bool
      \<Rightarrow> ('w, 's, 'a, 'x) agent_state \<Rightarrow> agent_reply \<times> ('w, 's, 'a, 'x) agent_state" where
  "handle_model_message ae fr channel content learned clear_history stream st =
     (let session = resolve_branch_channel (as_conv st) channel;
          (client, topic, tier) = select_model_for_request (ae_unicode ae) (ae_window ae) (ae_models ae)
            (agent_classifier ae) content learned (os_last_topic (as_orch st), as_route st);
          st1 = st\<lparr>as_orch := (as_orch st)\<lparr>os_last_topic := topic\<rparr>, as_route := tier\<rparr> in
      case client of
        None \<Rightarrow> (Reply ''unconfigured'' (warning_text ''Model client not configured.''), st1)
      | Some m \<Rightarrow>
          (if \<not> ae_dispatcher ae then (Reply ''unconfigured'' (warning_text ''Tool dispatcher not configured.''), st1)
           else
             (let (history, cv1) =
                    (if clear_history then ([], as_conv st1) else load_history (ae_history ae) session (as_conv st1)) in
              case exchange_with_model ae m history content learned stream (as_world st1) of
                (Inl e, w) \<Rightarrow>
                  (Reply ''error'' (warning_text (''Model error: '' @ e)), st1\<lparr>as_conv := cv1, as_world := w\<rparr>)
              | (Inr (reply, label, ms), w) \<Rightarrow>
                  after_reply ae fr channel content reply label
                    (st1\<lparr>as_conv := keep_exchange ae fr channel session (length history) ms cv1,
                         as_world := audited ae label (audit_summary content reply) w\<rparr>))))"

section \<open>Delegation and procedures\<close>

definition enrich_task :: "string \<Rightarrow> sub_task \<Rightarrow> sub_task" where
  "enrich_task learned t =
     (if trim learned \<noteq> [] \<and> st_parent_context t = None then t\<lparr>st_parent_context := Some (trim learned)\<rparr> else t)"

definition delegation_text :: "aggregated \<Rightarrow> string" where
  "delegation_text a =
     ag_content a
     @ (if ag_failed a = [] then []
        else [newline, newline] @ ''## Delegation failures'' @ [newline]
          @ concat (map (\<lambda>(agent, err). ''- '' @ agent @ '': '' @ err @ [newline]) (ag_failed a)))"

definition handle_delegation ::
    "('w, 's, 'a, 'c, 'x, 'm, 'd) agent_env \<Rightarrow> string \<Rightarrow> string \<Rightarrow> sub_task list
      \<Rightarrow> ('w, 's, 'a, 'x) agent_state \<Rightarrow> agent_reply \<times> ('w, 's, 'a, 'x) agent_state" where
  "handle_delegation ae content learned tasks st =
     (case ae_broker ae of
        None \<Rightarrow> (No_Reply, st)
      | Some run \<Rightarrow>
          (let (results, w) = run (map (enrich_task learned) tasks) (as_world st);
               a = aggregate results;
               st1 = st\<lparr>as_world := w\<rparr>;
               text = delegation_text a in
           if \<not> has_output a then (No_Reply, st1)
           else
             (Reply ''delegated'' text,
              st1\<lparr>as_jobs := as_jobs st1
                @ (case spawn_procedure_writer (ae_memory ae) (ae_unicode ae) content text of
                     None \<Rightarrow> [] | Some j \<Rightarrow> [j])\<rparr>)))"

definition response_of :: "event \<Rightarrow> agent_reply option" where
  "response_of e = (case e of Model_Response _ m c \<Rightarrow> Some (Reply m c) | _ \<Rightarrow> None)"

definition dispatch_procedures ::
    "('w, 's, 'a, 'c, 'x, 'm, 'd) agent_env \<Rightarrow> event \<Rightarrow> ('w, 's, 'a, 'x) agent_state
      \<Rightarrow> agent_reply \<times> ('w, 's, 'a, 'x) agent_state" where
  "dispatch_procedures ae e st =
     (let (reply, w) = fold (\<lambda>p (r, w).
            let (es, w') = p e w; found = List.map_filter response_of es in
            (if found = [] then r else last found, w')) (ae_procedures ae e) (No_Reply, as_world st) in
      (reply, st\<lparr>as_world := w\<rparr>))"

section \<open>Events\<close>

definition parse_i64 :: "string \<Rightarrow> int option" where
  "parse_i64 s =
     (case s of
        c # ds \<Rightarrow>
          if c = CHR ''-'' then
            (if ds \<noteq> [] \<and> list_all is_ascii_digit ds \<and> dec_val ds \<le> 2 ^ 63 then Some (- int (dec_val ds)) else None)
          else map_option int (parse_uint 63 s)
      | [] \<Rightarrow> None)"

definition chat_number :: "string \<Rightarrow> int" where
  "chat_number k = (case parse_i64 (hd (split_on (CHR '':'') k)) of None \<Rightarrow> 0 | Some n \<Rightarrow> n)"

definition default_route :: "event \<Rightarrow> route" where
  "default_route e = (case e of Timer _ _ _ \<Rightarrow> Route_Procedural | State_Change _ _ \<Rightarrow> Route_Procedural | _ \<Rightarrow> Route_Standard)"

text \<open>The orchestrator is asked when there is one and a memory with embeddings; an error of it is passed over.\<close>

definition preprocess_event ::
    "('w, 's, 'a, 'c, 'x, 'm, 'd) agent_env \<Rightarrow> event \<Rightarrow> ('w, 's, 'a, 'x) agent_state
      \<Rightarrow> (route \<times> string \<times> bool) \<times> ('w, 's, 'a, 'x) agent_state" where
  "preprocess_event ae e st =
     (case (ae_orchestrator ae, ae_memory ae) of
        (Some oe, Some lm) \<Rightarrow>
          (let (r, os) = preprocess oe e ((as_orch st)\<lparr>os_store := cv_store (as_conv st)\<rparr>);
               st1 = st\<lparr>as_orch := os, as_conv := (as_conv st)\<lparr>cv_store := os_store os\<rparr>\<rparr> in
           case r of
             Inr p \<Rightarrow> ((pp_route p, pp_learned_context p, pp_clear_history p), st1)
           | Inl _ \<Rightarrow> ((Route_Standard, [], False), st1))
      | _ \<Rightarrow> ((default_route e, [], False), st))"

text \<open>What is done with an event by its route; the procedures get a message without its sender.\<close>

definition respond ::
    "('w, 's, 'a, 'c, 'x, 'm, 'd) agent_env \<Rightarrow> fresh \<Rightarrow> bool \<Rightarrow> event \<Rightarrow> route \<times> string \<times> bool
      \<Rightarrow> ('w, 's, 'a, 'x) agent_state \<Rightarrow> agent_reply \<times> ('w, 's, 'a, 'x) agent_state" where
  "respond ae fr stream e rt st =
     (let (route, learned, clear) = rt in
      case e of
        Message k channel sender content \<Rightarrow>
          (case route of
             Route_Drop \<Rightarrow> (No_Reply, st)
           | Route_Procedural \<Rightarrow> dispatch_procedures ae (Message k channel [] content) st
           | Route_Delegate reason tasks \<Rightarrow>
               (case handle_delegation ae content learned tasks st of
                  (No_Reply, st1) \<Rightarrow> handle_model_message ae fr channel content learned clear stream st1
                | done_state \<Rightarrow> done_state)
           | _ \<Rightarrow> handle_model_message ae fr channel content learned clear stream st)
      | Timer _ _ _ \<Rightarrow> if route = Route_Procedural then dispatch_procedures ae e st else (No_Reply, st)
      | State_Change _ _ \<Rightarrow> if route = Route_Procedural then dispatch_procedures ae e st else (No_Reply, st)
      | _ \<Rightarrow> (No_Reply, st))"

text \<open>The answer to a command, with its state, if the message is one.\<close>

definition command_reply ::
    "('w, 's, 'a, 'c, 'x, 'm, 'd) agent_env \<Rightarrow> event \<Rightarrow> ('w, 's, 'a, 'x) agent_state
      \<Rightarrow> string option \<times> ('w, 's, 'a, 'x) agent_state" where
  "command_reply ae e st =
     (case e of
        Message k channel sender content \<Rightarrow>
          (let (r, cv) = handle_branch_command (ae_history ae) channel content (as_conv st) in (r, st\<lparr>as_conv := cv\<rparr>))
      | _ \<Rightarrow> (None, st))"

text \<open>The pipeline of PluresDB, which is tried for a message when there is an orchestrator.\<close>

definition pipeline_reply ::
    "('w, 's, 'a, 'c, 'x, 'm, 'd) agent_env \<Rightarrow> fresh \<Rightarrow> event \<Rightarrow> ('w, 's, 'a, 'x) agent_state
      \<Rightarrow> string option \<times> ('w, 's, 'a, 'x) agent_state" where
  "pipeline_reply ae fr e st =
     (case (ae_orchestrator ae, e) of
        (Some _, Message k channel sender content) \<Rightarrow>
          (let session = resolve_branch_channel (as_conv st) channel;
               (history, cv1) = load_history (ae_history ae) session (as_conv st) in
           case ae_pipeline ae of
             None \<Rightarrow> (None, st\<lparr>as_conv := cv1\<rparr>)
           | Some process \<Rightarrow>
               (case process (chat_number k) sender content k (if history = [] then None else Some history)
                   (cv_store cv1) of
                  (None, s) \<Rightarrow> (None, st\<lparr>as_conv := cv1\<lparr>cv_store := s\<rparr>\<rparr>)
                | (Some answer, s) \<Rightarrow>
                    (Some answer,
                     st\<lparr>as_conv := persist_turn (ae_history ae) (fr_turn_id fr) (fr_time fr) session (branch_label session)
                       [plain_message ''user'' content, plain_message ''assistant'' answer] (cv1\<lparr>cv_store := s\<rparr>)\<rparr>)))
      | _ \<Rightarrow> (None, st))"

definition handle_event ::
    "('w, 's, 'a, 'c, 'x, 'm, 'd) agent_env \<Rightarrow> fresh \<Rightarrow> event \<Rightarrow> ('w, 's, 'a, 'x) agent_state
      \<Rightarrow> agent_reply \<times> ('w, 's, 'a, 'x) agent_state" where
  "handle_event ae fr e st =
     (case command_reply ae e st of
        (Some t, st1) \<Rightarrow> (Reply ''command'' t, st1)
      | (None, st1) \<Rightarrow>
          (case pipeline_reply ae fr e st1 of
             (Some t, st2) \<Rightarrow> (Reply ''dataflow'' t, st2)
           | (None, st2) \<Rightarrow>
               (case preprocess_event ae e st2 of
                  (rt, st3) \<Rightarrow> if fst rt = Route_Drop then (No_Reply, st3) else respond ae fr False e rt st3)))"

text \<open>With streaming there is no pipeline.\<close>

definition handle_event_streaming ::
    "('w, 's, 'a, 'c, 'x, 'm, 'd) agent_env \<Rightarrow> fresh \<Rightarrow> event \<Rightarrow> ('w, 's, 'a, 'x) agent_state
      \<Rightarrow> agent_reply \<times> ('w, 's, 'a, 'x) agent_state" where
  "handle_event_streaming ae fr e st =
     (case command_reply ae e st of
        (Some t, st1) \<Rightarrow> (Reply ''command'' t, st1)
      | (None, st1) \<Rightarrow>
          (case preprocess_event ae e st1 of
             (rt, st2) \<Rightarrow> if fst rt = Route_Drop then (No_Reply, st2) else respond ae fr True e rt st2))"

end
