(* ===== verification/Handling.thy ===== *)
theory Handling
  imports Agent Preprocessing
begin

text \<open>
  What holds of the handling of a message: what an exchange leaves in the history, what is lost when it
  fails, and what the verdict of the gate is worth.
\<close>

section \<open>The exchange\<close>

text \<open>What a successful exchange adds to the conversation.\<close>

definition exchange_messages :: "string \<Rightarrow> string \<Rightarrow> 'a message list \<Rightarrow> bool" where
  "exchange_messages content reply ms \<longleftrightarrow>
     (\<exists>k rs tail. ms = plain_message ''user'' content # rs @ tail \<and> rounds k rs \<and> k \<le> 10
       \<and> (tail = [plain_message ''assistant'' reply]
         \<or> tail = [] \<and> (reply = ''(empty response from model)'' \<or> reply = ''(no response from model)'' \<and> k = 10)))"

lemma loop_messages:
  assumes "run_model_loop sv client system_text history content lp stream w = (Inr (reply, lps, ms), w')"
  shows "exchange_messages content reply (drop (1 + length history) ms) \<and> 1 + length history < length ms"
proof -
  obtain system' k rs tail where "ms = first_messages system' history content @ rs @ tail" "rounds k rs" "k \<le> 10"
      "tail = [plain_message ''assistant'' reply]
        \<or> tail = [] \<and> (reply = ''(empty response from model)'' \<or> reply = ''(no response from model)'' \<and> k = 10)"
    using conversation_shape [of sv client system_text history content lp stream w reply lps ms] assms by auto
  then show ?thesis
    unfolding exchange_messages_def
    by (intro conjI exI [of _ k]) (auto simp: first_messages_def)
qed

lemma exchange_result:
  assumes "exchange_with_model ae client history content learned stream w = (Inr (reply, label, ms), w')"
  shows "exchange_messages content reply (drop (1 + length history) ms) \<and> 1 + length history < length ms
    \<and> label \<in> {''model'', ''deep-model''}"
proof -
  obtain r1 w1 where r1: "run_model_loop (ae_services ae) client (build_system_prompt ae learned False) history content
      True stream w = (r1, w1)" by fastforce
  then obtain reply1 lps1 ms1 where ok: "r1 = Inr (reply1, lps1, ms1)"
    using assms by (cases r1) (auto simp: exchange_with_model_def)
  note first = loop_messages [OF r1 [unfolded ok]]
  show ?thesis
  proof (cases "is_low_confidence (he_arith (ae_history ae)) (ae_exp ae) lps1 \<and> mo_deep (ae_models ae) \<noteq> None")
    case False
    then have "(reply, label, ms) = (reply1, ''model'', ms1)"
      using assms by (auto simp: exchange_with_model_def r1 ok split: if_splits)
    then show ?thesis using first by simp
  next
    case True
    then obtain deep where deep: "mo_deep (ae_models ae) = Some deep" by blast
    obtain r2 w2 where r2: "run_model_loop (ae_services ae) deep (build_system_prompt ae learned True) history content
        False False w1 = (r2, w2)" by fastforce
    show ?thesis
    proof (cases r2)
      case (Inl e)
      then have "(reply, label, ms) = (reply1, ''model'', ms1)"
        using assms True by (simp add: exchange_with_model_def r1 ok deep r2)
      then show ?thesis using first by simp
    next
      case (Inr t)
      then obtain reply2 lps2 ms2 where t: "r2 = Inr (reply2, lps2, ms2)" by (cases t) simp
      then have "(reply, label, ms) = (reply2, ''deep-model'', ms2)"
        using assms True by (simp add: exchange_with_model_def r1 ok deep r2)
      then show ?thesis using loop_messages [OF r2 [unfolded t]] by simp
    qed
  qed
qed

lemma persist_history:
  "hm_get (cv_history (persist_turn he k now channel session ms cv)) c =
     (if c = channel
      then Some (trim_to_token_budget (he_arith he) (he_tokens he)
        ((case hm_get (cv_history cv) channel of None \<Rightarrow> [] | Some h \<Rightarrow> h) @ ms))
      else hm_get (cv_history cv) c)"
  by (simp add: persist_turn_def Let_def hm_get_insert split: option.split)

lemma after_reply_conv:
  "cv_history (as_conv (snd (after_reply ae fr channel content reply label st))) = cv_history (as_conv st)
   \<and> cv_branches (as_conv (snd (after_reply ae fr channel content reply label st))) = cv_branches (as_conv st)
   \<and> fst (after_reply ae fr channel content reply label st) \<in> {Reply label reply, Crash}"
  by (simp add: after_reply_def Let_def split: prod.split option.split)

text \<open>The way of a message to the model.\<close>

definition asked_model ::
    "('w, 's, 'a, 'c, 'x, 'm, 'd) agent_env \<Rightarrow> string \<Rightarrow> string \<Rightarrow> ('w, 's, 'a, 'x) agent_state \<Rightarrow> 'm option" where
  "asked_model ae content learned st =
     (if ae_dispatcher ae
      then fst (select_model_for_request (ae_unicode ae) (ae_window ae) (ae_models ae) (agent_classifier ae) content
        learned (os_last_topic (as_orch st), as_route st))
      else None)"

lemma handle_asked:
  assumes "asked_model ae content learned st = Some m"
    and "load_history (ae_history ae) (resolve_branch_channel (as_conv st) channel) (as_conv st) = (history, cv1)"
  obtains st1 where "as_conv st1 = as_conv st" and "as_world st1 = as_world st" and "as_jobs st1 = as_jobs st"
    and "handle_model_message ae fr channel content learned False stream st =
      (case exchange_with_model ae m history content learned stream (as_world st) of
         (Inl e, w) \<Rightarrow> (Reply ''error'' (warning_text (''Model error: '' @ e)), st1\<lparr>as_conv := cv1, as_world := w\<rparr>)
       | (Inr (reply, label, ms), w) \<Rightarrow>
           after_reply ae fr channel content reply label
             (st1\<lparr>as_conv := keep_exchange ae fr channel (resolve_branch_channel (as_conv st) channel)
                    (length history) ms cv1,
                  as_world := audited ae label (audit_summary content reply) w\<rparr>))"
proof -
  obtain topic tier where s: "select_model_for_request (ae_unicode ae) (ae_window ae) (ae_models ae)
      (agent_classifier ae) content learned (os_last_topic (as_orch st), as_route st) = (Some m, topic, tier)"
    and d: "ae_dispatcher ae"
    using assms(1)
    by (cases "select_model_for_request (ae_unicode ae) (ae_window ae) (ae_models ae)
      (agent_classifier ae) content learned (os_last_topic (as_orch st), as_route st)")
      (auto simp: asked_model_def split: if_splits)
  show ?thesis
    by (rule that [of "st\<lparr>as_orch := (as_orch st)\<lparr>os_last_topic := topic\<rparr>, as_route := tier\<rparr>"])
      (simp_all add: handle_model_message_def Let_def s d assms(2))
qed

text \<open>
  C3: A message that was answered joins the history of its branch: the message of the user, the calls of
  tools with their results and the reply are appended to what was there, which is then cut to the budget;
  no other history changes, also when what follows the reply panics.
\<close>

theorem exchange_joins_history:
  assumes "asked_model ae content learned st = Some m" and "he_sessions (ae_history ae) = None"
    and "load_history (ae_history ae) (resolve_branch_channel (as_conv st) channel) (as_conv st) = (history, cv1)"
    and "exchange_with_model ae m history content learned stream (as_world st) = (Inr (reply, label, ms), w)"
    and "handle_model_message ae fr channel content learned False stream st = (r, st')"
  shows "\<exists>new. exchange_messages content reply new \<and> r \<in> {Reply label reply, Crash}
    \<and> (\<forall>c. hm_get (cv_history (as_conv st')) c =
        (if c = resolve_branch_channel (as_conv st) channel
         then Some (trim_to_token_budget (he_arith (ae_history ae)) (he_tokens (ae_history ae))
           ((case hm_get (cv_history cv1) c of None \<Rightarrow> [] | Some h \<Rightarrow> h) @ new))
         else hm_get (cv_history cv1) c))"
proof -
  let ?session = "resolve_branch_channel (as_conv st) channel"
  let ?cv = "keep_exchange ae fr channel ?session (length history) ms cv1"
  obtain st1 where "handle_model_message ae fr channel content learned False stream st =
      after_reply ae fr channel content reply label
        (st1\<lparr>as_conv := ?cv, as_world := audited ae label (audit_summary content reply) w\<rparr>)"
    by (rule handle_asked [OF assms(1,3), where fr = fr and stream = stream]) (simp add: assms(4))
  then have "after_reply ae fr channel content reply label
      (st1\<lparr>as_conv := ?cv, as_world := audited ae label (audit_summary content reply) w\<rparr>) = (r, st')"
    using assms(5) by simp
  then have a: "cv_history (as_conv st') = cv_history ?cv" "r \<in> {Reply label reply, Crash}"
    using after_reply_conv [of ae fr channel content reply label
        "st1\<lparr>as_conv := ?cv, as_world := audited ae label (audit_summary content reply) w\<rparr>"] by simp_all
  note x = exchange_result [OF assms(4)]
  then have "?cv = persist_turn (ae_history ae) (fr_turn_id fr) (fr_time fr) ?session (branch_label ?session)
      (drop (1 + length history) ms) cv1"
    by (simp add: keep_exchange_def Let_def assms(2))
  then show ?thesis
    using x a by (intro exI [of _ "drop (1 + length history) ms"]) (simp add: persist_history)
qed

text \<open>
  A message whose model call fails leaves no trace in the conversation: the reply is the error, the
  branches, histories and jobs are those after reading the history, and no turn is stored.
\<close>

theorem failed_exchange_keeps_nothing:
  assumes "asked_model ae content learned st = Some m"
    and "load_history (ae_history ae) (resolve_branch_channel (as_conv st) channel) (as_conv st) = (history, cv1)"
    and "exchange_with_model ae m history content learned stream (as_world st) = (Inl e, w)"
  shows "fst (handle_model_message ae fr channel content learned False stream st)
      = Reply ''error'' (warning_text (''Model error: '' @ e))
    \<and> as_conv (snd (handle_model_message ae fr channel content learned False stream st)) = cv1
    \<and> as_jobs (snd (handle_model_message ae fr channel content learned False stream st)) = as_jobs st"
  by (rule handle_asked [OF assms(1,2), where fr = fr and stream = stream]) (simp add: assms(3))

lemma after_reply_crash:
  "ae_interaction ae = Some note \<Longrightarrow> head_bytes 80 content = None
    \<Longrightarrow> fst (after_reply ae fr channel content reply label st) = Crash"
  by (simp add: after_reply_def Let_def split: prod.split)

text \<open>
  With a timeline the answer to a message is lost when its eightieth byte is inside a character: the
  exchange is in the history and stored, but the handler panics before it replies.
\<close>

theorem long_message_loses_reply:
  assumes "asked_model ae content learned st = Some m"
    and "load_history (ae_history ae) (resolve_branch_channel (as_conv st) channel) (as_conv st) = (history, cv1)"
    and "exchange_with_model ae m history content learned stream (as_world st) = (Inr (reply, label, ms), w)"
    and "ae_interaction ae = Some note" and "80 < length content" and "\<not> is_char_boundary content 80"
  shows "fst (handle_model_message ae fr channel content learned False stream st) = Crash"
proof -
  have "head_bytes 80 content = None" using assms(5,6) by (simp add: head_bytes_def slice_to_def)
  then show ?thesis
    by (rule_tac handle_asked [OF assms(1,2), where fr = fr and stream = stream])
      (simp add: assms(3) after_reply_crash [OF assms(4)])
qed

section \<open>The gate\<close>

text \<open>
  An event that the gate blocks is handled nevertheless: the agent passes over the error of the
  orchestrator and gives the message to the model, without what was recalled for it.
\<close>

theorem blocked_message_still_answered:
  assumes "handle_branch_command (ae_history ae) channel content (as_conv st) = (None, cv)"
    and "ae_orchestrator ae = Some oe" and "ae_memory ae = Some lm" and "ae_pipeline ae = None"
    and "load_history (ae_history ae) (resolve_branch_channel cv channel) cv = (history, cv1)"
    and "preprocess oe (Message k channel sender content) ((as_orch st)\<lparr>os_store := cv_store cv1\<rparr>)
      = (Inl (Authorization_Blocked reason), os)"
  shows "handle_event ae fr (Message k channel sender content) st
    = handle_model_message ae fr channel content [] False False
        (st\<lparr>as_orch := os, as_conv := cv1\<lparr>cv_store := os_store os\<rparr>\<rparr>)"
  using assms
  by (simp add: handle_event_def command_reply_def pipeline_reply_def Let_def preprocess_event_def respond_def)

text \<open>A gate that lets pass what needs an approval.\<close>

definition approve_all :: "(string \<Rightarrow> bool \<Rightarrow> bool \<Rightarrow> gate_result) \<Rightarrow> string \<Rightarrow> bool \<Rightarrow> bool \<Rightarrow> gate_result" where
  "approve_all gate k d x = (case gate k d x of Gate_Approval _ _ \<Rightarrow> Gate_Pass | r \<Rightarrow> r)"

lemma gate_fields:
  "oe_config (oe\<lparr>oe_gate := g\<rparr>) = oe_config oe"
  "oe_arith (oe\<lparr>oe_gate := g\<rparr>) = oe_arith oe" "oe_pow (oe\<lparr>oe_gate := g\<rparr>) = oe_pow oe"
  "oe_two_digits (oe\<lparr>oe_gate := g\<rparr>) = oe_two_digits oe"
  "oe_unicode (oe\<lparr>oe_gate := g\<rparr>) = oe_unicode oe"
  "oe_regex (oe\<lparr>oe_gate := g\<rparr>) = oe_regex oe"
  "oe_category (oe\<lparr>oe_gate := g\<rparr>) = oe_category oe"
  "oe_floats (oe\<lparr>oe_gate := g\<rparr>) = oe_floats oe"
  "oe_store (oe\<lparr>oe_gate := g\<rparr>) = oe_store oe"
  "oe_embed (oe\<lparr>oe_gate := g\<rparr>) = oe_embed oe"
  "oe_kind (oe\<lparr>oe_gate := g\<rparr>) = oe_kind oe"
  "oe_chat_id (oe\<lparr>oe_gate := g\<rparr>) = oe_chat_id oe"
  "oe_history (oe\<lparr>oe_gate := g\<rparr>) = oe_history oe"
  "oe_dataflow (oe\<lparr>oe_gate := g\<rparr>) = oe_dataflow oe"
  "oe_px (oe\<lparr>oe_gate := g\<rparr>) = oe_px oe"
  "oe_classifier (oe\<lparr>oe_gate := g\<rparr>) = oe_classifier oe"
  by simp_all

lemma with_gate:
  "recall_for (oe\<lparr>oe_gate := g\<rparr>) = recall_for oe" "context_for (oe\<lparr>oe_gate := g\<rparr>) = context_for oe"
  "context_text (oe\<lparr>oe_gate := g\<rparr>) = context_text oe" "initial_route (oe\<lparr>oe_gate := g\<rparr>) = initial_route oe"
  unfolding recall_for_def [abs_def] detect_topic_shift_def [abs_def] context_for_def [abs_def]
    event_entities_def [abs_def] context_text_def [abs_def] initial_route_def [abs_def]
    try_px_bridge_route_def [abs_def] own_route_def [abs_def] dispatch_classification_def [abs_def] gate_fields
  by (rule refl)+

lemma gated_approve: "gated (approve_all gate k d x) e learned r = (gated (gate k d x) e learned r)
    \<lparr>pp_guidance := pp_guidance (gated (approve_all gate k d x) e learned r),
     pp_approval := pp_approval (gated (approve_all gate k d x) e learned r)\<rparr>"
  by (simp add: gated_def approve_all_def Let_def split: gate_result.split)

text \<open>What the agent reads of the preprocessing.\<close>

definition read_by_agent :: "preprocess_error + preprocessed \<Rightarrow> (route \<times> string \<times> bool) option" where
  "read_by_agent r =
     (case r of Inl _ \<Rightarrow> None | Inr p \<Rightarrow> Some (pp_route p, pp_learned_context p, pp_clear_history p))"

lemma preprocess_approve:
  "snd (preprocess (oe\<lparr>oe_gate := approve_all (oe_gate oe)\<rparr>) e st) = snd (preprocess oe e st)
   \<and> read_by_agent (fst (preprocess (oe\<lparr>oe_gate := approve_all (oe_gate oe)\<rparr>) e st))
      = read_by_agent (fst (preprocess oe e st))"
proof -
  obtain k d x where g: "authorise oe e = oe_gate oe k d x"
      "authorise (oe\<lparr>oe_gate := approve_all (oe_gate oe)\<rparr>) e = approve_all (oe_gate oe) k d x"
    by (cases e) (auto simp: authorise_def)
  show ?thesis
    by (cases "oe_gate oe k d x")
      (simp_all add: preprocess_def with_gate g approve_all_def Let_def read_by_agent_def gated_def
        split: sum.split prod.split)
qed

lemma orchestrator_fields:
  "ae_services (ae\<lparr>ae_orchestrator := oo\<rparr>) = ae_services ae"
  "ae_history (ae\<lparr>ae_orchestrator := oo\<rparr>) = ae_history ae"
  "ae_models (ae\<lparr>ae_orchestrator := oo\<rparr>) = ae_models ae"
  "ae_window (ae\<lparr>ae_orchestrator := oo\<rparr>) = ae_window ae"
  "ae_dispatcher (ae\<lparr>ae_orchestrator := oo\<rparr>) = ae_dispatcher ae"
  "ae_unicode (ae\<lparr>ae_orchestrator := oo\<rparr>) = ae_unicode ae"
  "ae_exp (ae\<lparr>ae_orchestrator := oo\<rparr>) = ae_exp ae"
  "ae_pipeline (ae\<lparr>ae_orchestrator := oo\<rparr>) = ae_pipeline ae"
  "ae_memory (ae\<lparr>ae_orchestrator := oo\<rparr>) = ae_memory ae"
  "ae_plain_memory (ae\<lparr>ae_orchestrator := oo\<rparr>) = ae_plain_memory ae"
  "ae_promises (ae\<lparr>ae_orchestrator := oo\<rparr>) = ae_promises ae"
  "ae_broker (ae\<lparr>ae_orchestrator := oo\<rparr>) = ae_broker ae"
  "ae_procedures (ae\<lparr>ae_orchestrator := oo\<rparr>) = ae_procedures ae"
  "ae_personality (ae\<lparr>ae_orchestrator := oo\<rparr>) = ae_personality ae"
  "ae_system_prompt (ae\<lparr>ae_orchestrator := oo\<rparr>) = ae_system_prompt ae"
  "ae_save_session (ae\<lparr>ae_orchestrator := oo\<rparr>) = ae_save_session ae"
  "ae_audit (ae\<lparr>ae_orchestrator := oo\<rparr>) = ae_audit ae"
  "ae_interaction (ae\<lparr>ae_orchestrator := oo\<rparr>) = ae_interaction ae"
  by simp_all

lemma with_orchestrator:
  "exchange_with_model (ae\<lparr>ae_orchestrator := oo\<rparr>) = exchange_with_model ae"
  "keep_exchange (ae\<lparr>ae_orchestrator := oo\<rparr>) = keep_exchange ae"
  "after_reply (ae\<lparr>ae_orchestrator := oo\<rparr>) = after_reply ae"
  "audited (ae\<lparr>ae_orchestrator := oo\<rparr>) = audited ae"
  "handle_delegation (ae\<lparr>ae_orchestrator := oo\<rparr>) = handle_delegation ae"
  "dispatch_procedures (ae\<lparr>ae_orchestrator := oo\<rparr>) = dispatch_procedures ae"
  "command_reply (ae\<lparr>ae_orchestrator := oo\<rparr>) = command_reply ae"
  unfolding exchange_with_model_def [abs_def] build_system_prompt_def [abs_def] keep_exchange_def [abs_def]
    after_reply_def [abs_def] audited_def [abs_def] handle_delegation_def [abs_def] dispatch_procedures_def [abs_def]
    command_reply_def [abs_def] orchestrator_fields
  by (rule refl)+

text \<open>
  An approval that the gate demands is not asked for: with a gate that passes every such event the
  agent does the same, to the last bit of its state.
\<close>

theorem approval_changes_nothing:
  "handle_event (ae\<lparr>ae_orchestrator := Some (oe\<lparr>oe_gate := approve_all (oe_gate oe)\<rparr>)\<rparr>) fr e st
    = handle_event (ae\<lparr>ae_orchestrator := Some oe\<rparr>) fr e st"
proof -
  let ?ae = "ae\<lparr>ae_orchestrator := Some oe\<rparr>"
  let ?oe' = "oe\<lparr>oe_gate := approve_all (oe_gate oe)\<rparr>"
  let ?ae' = "ae\<lparr>ae_orchestrator := Some ?oe'\<rparr>"
  have "agent_classifier ?ae' = agent_classifier ?ae" by (simp add: agent_classifier_def)
  then have "handle_model_message ?ae' = handle_model_message ?ae"
    unfolding handle_model_message_def [abs_def] orchestrator_fields with_orchestrator by (rule arg_cong)
  then have r: "respond ?ae' = respond ?ae"
    unfolding respond_def [abs_def] with_orchestrator by (rule arg_cong)
  have p: "pipeline_reply ?ae' = pipeline_reply ?ae"
    unfolding pipeline_reply_def [abs_def] orchestrator_fields by (simp add: fun_eq_iff split: event.split)
  have pre: "preprocess_event ?ae' e s = preprocess_event ?ae e s" for s
    using preprocess_approve [of oe e "(as_orch s)\<lparr>os_store := cv_store (as_conv s)\<rparr>"]
    by (auto simp: preprocess_event_def Let_def split_beta read_by_agent_def split: option.split sum.splits)
  show ?thesis unfolding handle_event_def with_orchestrator r p pre by (rule refl)
qed

section \<open>Examples\<close>

type_synonym memory0 = "(string, int, unit) in_memory"

definition services0 :: "string + string \<Rightarrow> (unit, unit, int, nat, unit) services" where
  "services0 answer = \<lparr>sv_fire = (\<lambda>_ w. (Proceed, w)), sv_redact = (\<lambda>t. (t, 0)), sv_compress = None,
     sv_tools = (\<lambda>w. ((), w)), sv_call_tool = (\<lambda>_ _ w. (''done'', w)),
     sv_complete = (\<lambda>_ _ _ _ _ w.
       (map_sum id (\<lambda>t. \<lparr>cp_content = Some t, cp_tool_calls = [], cp_logprobs = None\<rparr>) answer, w)),
     sv_chronos = None\<rparr>"

definition agent0 ::
    "string + string \<Rightarrow> (memory0, string, int) orchestrator_env option
      \<Rightarrow> (string \<Rightarrow> string \<Rightarrow> string \<Rightarrow> string \<Rightarrow> string \<Rightarrow> unit \<Rightarrow> unit) option
      \<Rightarrow> (unit, memory0, unit, string, int, nat, unit) agent_env" where
  "agent0 answer oo note =
     \<lparr>ae_services = services0 answer, ae_history = env0 None None,
      ae_models = \<lparr>mo_fast = None, mo_standard = Some 1, mo_deep = None\<rparr>, ae_window = (\<lambda>_. None),
      ae_dispatcher = True, ae_unicode = ascii_unicode, ae_exp = id, ae_orchestrator = oo, ae_pipeline = None,
      ae_memory = Some \<lparr>lm_names = \<lparr>cn_error_fix = ''e'', cn_code_pattern = ''p'', cn_preference = ''f'',
          cn_decision = ''d'', cn_conversation = ''c'', cn_correction = ''r'', cn_fact = ''t'', cn_procedure = ''q'',
          cn_as_str = id\<rparr>, lm_floats = oe_floats env1, lm_store = in_memory_ops, lm_embed = (\<lambda>_. Inr [1])\<rparr>,
      ae_plain_memory = (\<lambda>_ s. s),
      ae_promises = \<lparr>pk_px = (\<lambda>_. None), pk_get = None, pk_set = (\<lambda>_ _ s. s), pk_create_task = None,
        pk_chronos = None\<rparr>,
      ae_broker = None, ae_procedures = (\<lambda>_. []), ae_personality = None, ae_system_prompt = ''be kind'',
      ae_save_session = (\<lambda>_ _ s. s), ae_audit = None, ae_interaction = note\<rparr>"

definition fresh0 :: fresh where
  "fresh0 = \<lparr>fr_turn_id = ''1'', fr_time = ''t'', fr_millis = 0, fr_memory_ids = (\<lambda>i. show_nat i)\<rparr>"

definition state0 :: "(unit, memory0, unit, int) agent_state" where
  "state0 = \<lparr>as_conv = conversations_new in_memory_new,
     as_orch = \<lparr>os_topics = [], os_items = [], os_scorer = default_scorer fixed_point, os_last_topic = None,
       os_store = in_memory_new\<rparr>, as_route = 0, as_jobs = [], as_world = ()\<rparr>"

lemma asked0: "asked_model (agent0 answer oo note) content learned state0 = Some 1"
proof -
  have "fst (select_tier (\<lambda>_. None) \<lparr>mo_fast = None, mo_standard = Some 1, mo_deep = None\<rparr> k n) = Some (1 :: nat)" for k n
    by (simp add: select_tier_def fits_context_def Let_def)
  then show ?thesis
    by (simp add: asked_model_def agent0_def select_model_for_request_def Let_def split_beta split: option.split)
qed

lemma loaded0:
  "load_history (ae_history (agent0 answer oo note)) c (as_conv state0) = ([], as_conv state0)"
  by (simp add: load_history_def state0_def conversations_new_def hm_get_Nil agent0_def env0_def)

lemma exchange0:
  "exchange_with_model (agent0 (Inr t) oo note) 1 [] content learned stream w
    = (Inr (t, ''model'', first_messages (build_system_prompt (agent0 (Inr t) oo note) learned False) [] content
        @ [plain_message ''assistant'' t]), w)"
  by (simp add: exchange_with_model_def run_model_loop_def agent0_def services0_def max_model_turns_def
      numeral_eq_Suc model_call_def request_messages_def redact_message_def note_redaction_def Let_def
      final_turn_def is_low_confidence_def first_messages_def plain_message_def cong: if_cong)

lemma exchange_fails0:
  "exchange_with_model (agent0 (Inl t) oo note) 1 history content learned stream w = (Inl t, w)"
  by (simp add: exchange_with_model_def run_model_loop_def agent0_def services0_def max_model_turns_def
      numeral_eq_Suc model_call_def request_messages_def redact_message_def note_redaction_def Let_def cong: if_cong)

theorem exchange_joins_history_witness:
  "\<exists>new. exchange_messages ''hello'' ''hi'' new
    \<and> hm_get (cv_history (as_conv (snd (handle_model_message (agent0 (Inr ''hi'') None None) fresh0 ''c'' ''hello'' [] False
        False state0)))) ''c'' = Some (trim_to_token_budget fixed_point (\<lambda>s. Some (length s)) new)"
proof -
  let ?ae = "agent0 (Inr ''hi'') None None"
  have s: "resolve_branch_channel (as_conv state0) ''c'' = ''c''"
    by (simp add: state0_def conversations_new_def resolve_branch_channel_def branches_of_def hm_get_Nil
        default_branches_def scoped_channel_def)
  have "\<exists>new. exchange_messages ''hello'' ''hi'' new
      \<and> fst (handle_model_message ?ae fresh0 ''c'' ''hello'' [] False False state0) \<in> {Reply ''model'' ''hi'', Crash}
      \<and> (\<forall>c. hm_get (cv_history (as_conv (snd (handle_model_message ?ae fresh0 ''c'' ''hello'' [] False False state0)))) c =
        (if c = resolve_branch_channel (as_conv state0) ''c''
         then Some (trim_to_token_budget (he_arith (ae_history ?ae)) (he_tokens (ae_history ?ae))
           ((case hm_get (cv_history (as_conv state0)) c of None \<Rightarrow> [] | Some h \<Rightarrow> h) @ new))
         else hm_get (cv_history (as_conv state0)) c))"
    by (rule exchange_joins_history [OF asked0 _ loaded0 _ surjective_pairing, unfolded list.size, OF _ exchange0])
      (simp add: agent0_def env0_def)
  moreover have "he_arith (ae_history ?ae) = fixed_point" "he_tokens (ae_history ?ae) = (\<lambda>s. Some (length s))"
    by (simp_all add: agent0_def env0_def)
  moreover have "hm_get (cv_history (as_conv state0)) ''c'' = None"
    by (simp add: state0_def conversations_new_def hm_get_Nil)
  ultimately show ?thesis using s by auto
qed

theorem failed_exchange_keeps_nothing_witness:
  "as_conv (snd (handle_model_message (agent0 (Inl ''down'') None None) fresh0 ''c'' ''hello'' [] False False state0))
     = as_conv state0"
  using failed_exchange_keeps_nothing [OF asked0 loaded0 exchange_fails0] by blast

definition accented :: string where
  "accented = replicate 79 (CHR ''a'') @ [CHR 0xC3, CHR 0xA9, CHR ''b'']"

theorem long_message_loses_reply_witness:
  "fst (handle_model_message (agent0 (Inr ''hi'') None (Some (\<lambda>_ _ _ _ _ w. w))) fresh0 ''c'' accented [] False False state0)
     = Crash"
proof (rule long_message_loses_reply [OF asked0 loaded0 exchange0])
  show "ae_interaction (agent0 (Inr ''hi'') None (Some (\<lambda>_ _ _ _ _ w. w))) = Some (\<lambda>_ _ _ _ _ w. w)"
    by (simp add: agent0_def)
  show "80 < length accented" by (simp add: accented_def)
  show "\<not> is_char_boundary accented 80" by code_simp
qed

definition strict_env :: "(memory0, string, int) orchestrator_env" where
  "strict_env = env1\<lparr>oe_gate := \<lambda>_ _ _. Gate_Fail ''blocked''\<rparr>"

theorem blocked_message_still_answered_witness:
  "\<exists>st'. handle_event (agent0 (Inr ''hi'') (Some strict_env) None) fresh0 (Message ''1'' ''c'' ''u'' ''no'') state0
     = handle_model_message (agent0 (Inr ''hi'') (Some strict_env) None) fresh0 ''c'' ''no'' [] False False st'"
proof -
  let ?ae = "agent0 (Inr ''hi'') (Some strict_env) None"
  have c: "handle_branch_command (ae_history ?ae) ''c'' ''no'' (as_conv state0) = (None, as_conv state0)"
    by (simp add: handle_branch_command_def trim_graph is_graph_def)
  have p: "preprocess strict_env (Message ''1'' ''c'' ''u'' ''no'') s
      = (Inl (Authorization_Blocked ''blocked''), snd (preprocess strict_env (Message ''1'' ''c'' ''u'' ''no'') s))" for s
  proof -
    have "trim ''no'' \<noteq> []" "skips_recall (Some ''no'')" by code_simp+
    then show ?thesis
      by (simp add: preprocess_def recall_for_def Let_def authorise_def strict_env_def)
  qed
  show ?thesis
    by (intro exI, rule blocked_message_still_answered [OF c _ _ _ loaded0 p]) (simp_all add: agent0_def)
qed

end
