(* ===== verification/Turn_Log.thy ===== *)
theory Turn_Log
  imports Branching Memory_Contract
begin

text \<open>
  The turns of a conversation in a store: what the agent (\<open>crates/core/src/agent.rs\<close>) relies on when it
  reads its history again, as a locale, which both stores of \<open>crates/core/src/memory/store.rs\<close> fulfil.
\<close>

section \<open>The contract\<close>

text \<open>
  \<open>turns s\<close> are the turns of the store; a turn that fits and has a new id is added, and the recent turns
  of a channel are its last ones by time.
\<close>

locale turn_log =
  fixes insert_turn :: "'m turn \<Rightarrow> ('s, memory_error, unit) effect"
    and recent_turns :: "string \<Rightarrow> nat \<Rightarrow> ('s, memory_error, 'm turn list) effect"
    and turns :: "'s \<Rightarrow> 'm turn set"
    and inv :: "'s \<Rightarrow> bool"
    and fits :: "'m turn \<Rightarrow> bool"
  assumes insert_law: "inv s \<Longrightarrow> fits t \<Longrightarrow> tn_id t \<notin> tn_id ` turns s \<Longrightarrow>
      \<exists>s'. insert_turn t s = (Inr (), s') \<and> inv s' \<and> turns s' = insert t (turns s)"
    and recent_law: "inv s \<Longrightarrow>
      \<exists>ts. recent_turns c n s = (Inr (last_turns c n ts), s) \<and> set ts = turns s \<and> distinct ts"
begin

text \<open>The turns of a channel, in the order of their times.\<close>

definition logged :: "string \<Rightarrow> 'm turn list \<Rightarrow> 's \<Rightarrow> bool" where
  "logged c ts s \<longleftrightarrow> inv s \<and> {t \<in> turns s. tn_channel t = c} = set ts \<and> sorted_wrt (<) (map tn_timestamp ts)"

lemma recent_logged:
  assumes "logged c ts s" shows "recent_turns c n s = (Inr (drop (length ts - n) ts), s)"
proof -
  obtain us where us: "recent_turns c n s = (Inr (last_turns c n us), s)" "set us = turns s" "distinct us"
    using recent_law [of s c n] assms unfolding logged_def by blast
  have srt: "sorted_wrt (<) (map tn_timestamp ts)" using assms by (simp add: logged_def)
  then have dist: "distinct (map tn_timestamp ts)" by (simp add: strict_sorted_iff)
  have "set (filter (\<lambda>t. tn_channel t = c) us) = set ts" using assms us(2) by (auto simp: logged_def)
  moreover have "distinct (filter (\<lambda>t. tn_channel t = c) us)" "distinct ts"
    using us(3) dist by (auto simp: distinct_map)
  ultimately have "mset (filter (\<lambda>t. tn_channel t = c) us) = mset ts" by (metis set_eq_iff_mset_eq_distinct)
  then have "sort_key tn_timestamp (filter (\<lambda>t. tn_channel t = c) us) = ts"
    using dist srt \<open>set (filter (\<lambda>t. tn_channel t = c) us) = set ts\<close>
    by (intro sort_key_inj_key_eq) (simp_all add: distinct_map strict_sorted_iff)
  then show ?thesis by (simp add: us(1) last_turns_def Let_def)
qed

lemma insert_logged:
  assumes "logged c ts s" and "fits t" and "tn_id t \<notin> tn_id ` turns s" and "tn_channel t = c"
    and "\<forall>u \<in> set ts. tn_timestamp u < tn_timestamp t"
  obtains s' where "insert_turn t s = (Inr (), s')" "logged c (ts @ [t]) s'" "turns s' = insert t (turns s)"
proof -
  obtain s' where s': "insert_turn t s = (Inr (), s')" "inv s'" "turns s' = insert t (turns s)"
    using insert_law assms(1-3) unfolding logged_def by blast
  have "{u \<in> turns s'. tn_channel u = c} = set (ts @ [t])"
    using assms(1,4) s'(3) by (auto simp: logged_def)
  moreover have "sorted_wrt (<) (map tn_timestamp (ts @ [t]))"
    using assms(1,5) by (simp add: logged_def sorted_wrt_append)
  ultimately show ?thesis using that s' by (simp add: logged_def)
qed

end

section \<open>The stores\<close>

interpretation vec_log: turn_log in_memory_insert_turn in_memory_recent_turns "\<lambda>s. set (im_turns s)"
  "\<lambda>s. distinct (im_turns s)" "\<lambda>t. True"
  by unfold_locales (auto simp: in_memory_insert_turn_def in_memory_recent_turns_def)

text \<open>What is assumed of the codec of turns, beside the laws of the store.\<close>

definition turn_codec_laws :: "('s, 'k, 'c, 'x, 'm, 'a, 'i) plures \<Rightarrow> bool" where
  "turn_codec_laws p \<longleftrightarrow> (\<forall>t j. sc_turn (pl_codec p) t = Some j \<longrightarrow> sc_to_turn (pl_codec p) j = Some t)"

text \<open>The records of turns can be decrypted, and a turn is stored under its id.\<close>

definition turns_inv :: "('s, 'k, 'c, 'x, 'm, 'a, 'i) plures \<Rightarrow> ('s \<Rightarrow> string \<rightharpoonup> json) \<Rightarrow> 's \<Rightarrow> bool" where
  "turns_inv p cview s \<longleftrightarrow>
     (\<forall>k data. cview s k = Some data \<longrightarrow> prefix turn_prefix k \<longrightarrow>
        (\<exists>v. plures_unseal p data = Inr v
          \<and> (\<forall>t. sc_to_turn (pl_codec p) v = Some t \<longrightarrow> k = turn_prefix @ tn_id t)))"

definition stored_turn :: "('s, 'k, 'c, 'x, 'm, 'a, 'i) plures \<Rightarrow> json option \<Rightarrow> 'm turn \<Rightarrow> bool" where
  "stored_turn p r t \<longleftrightarrow>
     (\<exists>data v. r = Some data \<and> plures_unseal p data = Inr v \<and> sc_to_turn (pl_codec p) v = Some t)"

definition plures_turns :: "('s, 'k, 'c, 'x, 'm, 'a, 'i) plures \<Rightarrow> ('s \<Rightarrow> string \<rightharpoonup> json) \<Rightarrow> 's \<Rightarrow> 'm turn set" where
  "plures_turns p cview s = {t. stored_turn p (cview s (turn_prefix @ tn_id t)) t}"

definition turn_fits :: "('s, 'k, 'c, 'x, 'm, 'a, 'i) plures \<Rightarrow> 'm turn \<Rightarrow> bool" where
  "turn_fits p t \<longleftrightarrow> (\<exists>j d. sc_turn (pl_codec p) t = Some j \<and> plures_seal p j = Inr d)"

lemma collect_turns_set:
  assumes "\<forall>(k, data) \<in> set rs. prefix turn_prefix k \<longrightarrow>
      (\<exists>v. plures_unseal p data = Inr v \<and> (\<forall>t. sc_to_turn (pl_codec p) v = Some t \<longrightarrow> k = turn_prefix @ tn_id t))"
    and "distinct (map fst rs)"
  shows "\<exists>ts. collect_turns p rs = Inr ts \<and> distinct ts
    \<and> set ts = {t. \<exists>data. (turn_prefix @ tn_id t, data) \<in> set rs \<and> stored_turn p (Some data) t}"
  using assms
proof (induction rs)
  case (Cons r rs)
  obtain k data where r: "r = (k, data)" by fastforce
  obtain ts where ts: "collect_turns p rs = Inr ts" "distinct ts"
      "set ts = {t. \<exists>data. (turn_prefix @ tn_id t, data) \<in> set rs \<and> stored_turn p (Some data) t}"
    using Cons.IH Cons.prems by auto
  show ?case
  proof (cases "prefix turn_prefix k")
    case False
    then have "(turn_prefix @ tn_id t, d) \<noteq> r" for t :: "'e turn" and d by (auto simp: r)
    then show ?thesis using ts False by (auto simp: r)
  next
    case True
    then obtain v where v: "plures_unseal p data = Inr v"
        "\<forall>t. sc_to_turn (pl_codec p) v = Some t \<longrightarrow> k = turn_prefix @ tn_id t"
      using Cons.prems(1) by (auto simp: r)
    then have u: "unseal_value (pl_sea p) (pl_codec p) (pl_key p) data = Inr v" by (simp add: plures_unseal_def)
    show ?thesis
    proof (cases "sc_to_turn (pl_codec p) v")
      case None
      then have "\<not> stored_turn p (Some data) t" for t by (auto simp: stored_turn_def v(1))
      then show ?thesis using ts True None by (auto simp: r u)
    next
      case (Some t)
      then have st: "stored_turn p (Some data) x \<longleftrightarrow> x = t" for x by (auto simp: stored_turn_def v(1))
      have k: "k = turn_prefix @ tn_id t" using Some v(2) by blast
      then have "t \<notin> set ts" using Cons.prems(2) by (force simp: ts(3) r)
      moreover have "set (t # ts)
          = {x. \<exists>d. (turn_prefix @ tn_id x, d) \<in> set (r # rs) \<and> stored_turn p (Some d) x}"
        using k by (auto simp: ts(3) r st)
      ultimately show ?thesis using ts(1,2) True Some by (intro exI [of _ "t # ts"]) (simp add: r u)
    qed
  qed
qed simp

locale plures_turn_store = plures_store p cview
  for p :: "('s, 'k, 'c, 'x, 'm, 'a, 'i) plures" and cview :: "'s \<Rightarrow> string \<rightharpoonup> json" +
  assumes turn_codec: "turn_codec_laws p"
begin

lemma insert_stored:
  assumes "turns_inv p cview s" and "turn_fits p t" and "tn_id t \<notin> tn_id ` plures_turns p cview s"
  shows "\<exists>s'. plures_insert_turn p t s = (Inr (), s') \<and> turns_inv p cview s'
    \<and> plures_turns p cview s' = insert t (plures_turns p cview s)"
proof -
  obtain j d where jd: "sc_turn (pl_codec p) t = Some j" "plures_seal p j = Inr d"
    using assms(2) by (auto simp: turn_fits_def)
  let ?s = "crdt_put (pl_db p) (turn_prefix @ tn_id t) actor d s"
  have put: "plures_insert_turn p t s = (Inr (), ?s)"
    using jd by (simp add: plures_insert_turn_def put_sealed_def plures_seal_def)
  have view: "cview ?s = (cview s)(turn_prefix @ tn_id t \<mapsto> d)"
    using laws by (auto simp: plures_laws_def crdt_laws_def)
  have decoded: "plures_unseal p d = Inr j" "sc_to_turn (pl_codec p) j = Some t"
    using unseal_seal [OF laws jd(2)] turn_codec jd(1) by (auto simp: turn_codec_laws_def)
  have "turns_inv p cview ?s" using assms(1) decoded by (auto simp: turns_inv_def view)
  moreover have "x \<in> plures_turns p cview ?s \<longleftrightarrow> x \<in> insert t (plures_turns p cview s)" for x
  proof (cases "tn_id x = tn_id t")
    case True
    then have "x \<notin> plures_turns p cview s" using assms(3) by (metis imageI)
    then show ?thesis using decoded True by (auto simp: plures_turns_def view stored_turn_def)
  qed (auto simp: plures_turns_def view)
  ultimately show ?thesis using put by blast
qed

lemma recent_stored:
  assumes "turns_inv p cview s"
  shows "\<exists>ts. plures_recent_turns p c n s = (Inr (last_turns c n ts), s) \<and> set ts = plures_turns p cview s \<and> distinct ts"
proof -
  obtain ts where ts: "collect_turns p (crdt_list (pl_db p) s) = Inr ts" "distinct ts"
      "set ts = {t. \<exists>data. (turn_prefix @ tn_id t, data) \<in> set (crdt_list (pl_db p) s) \<and> stored_turn p (Some data) t}"
    using collect_turns_set [of "crdt_list (pl_db p) s" p, OF _ db_list(1)] assms
    unfolding turns_inv_def mem_list [symmetric] by blast
  have "set ts = plures_turns p cview s"
    by (auto simp: ts(3) plures_turns_def mem_list stored_turn_def)
  then show ?thesis using ts by (auto simp: plures_recent_turns_def)
qed

lemma turn_contract:
  "turn_log (plures_insert_turn p) (plures_recent_turns p) (plures_turns p cview) (turns_inv p cview) (turn_fits p)"
  by unfold_locales (rule insert_stored recent_stored; assumption)+

end

sublocale plures_turn_store \<subseteq> stored: turn_log "plures_insert_turn p" "plures_recent_turns p" "plures_turns p cview"
  "turns_inv p cview" "turn_fits p"
  by (rule turn_contract)

lemma plures_turn_contract:
  assumes "plures_laws p cview" and "turn_codec_laws p"
  shows "turn_log (plures_insert_turn p) (plures_recent_turns p) (plures_turns p cview) (turns_inv p cview) (turn_fits p)"
proof -
  have "plures_turn_store p cview"
    using assms by (intro plures_turn_store.intro plures_store.intro plures_turn_store_axioms.intro)
  then show ?thesis by (rule plures_turn_store.turn_contract)
qed

section \<open>Persisted conversations\<close>

definition persist_all ::
    "('s, 'a, 'x) history_env \<Rightarrow> 'a message turn list \<Rightarrow> ('s, 'a) conversations \<Rightarrow> ('s, 'a) conversations" where
  "persist_all he ts cv =
     fold (\<lambda>t. persist_turn he (tn_id t) (tn_timestamp t) (tn_channel t) (tn_session_id t) (tn_messages t)) ts cv"

lemma persist_store:
  "he_turns he = Some tu \<Longrightarrow>
    cv_store (persist_turn he (tn_id t) (tn_timestamp t) (tn_channel t) (tn_session_id t) (tn_messages t) cv)
      = snd (tu_insert tu t (cv_store cv))"
  by (cases t) (simp add: persist_turn_def Let_def)

lemma persist_all_logged:
  assumes "turn_log (tu_insert tu) (tu_recent tu) turns ok fits" and "he_turns he = Some tu"
    and "turn_log.logged turns ok c old (cv_store cv)"
    and "\<forall>t \<in> set ts. fits t \<and> tn_channel t = c" and "distinct (map tn_id ts)"
    and "tn_id ` set ts \<inter> tn_id ` turns (cv_store cv) = {}"
    and "sorted_wrt (<) (map tn_timestamp (old @ ts))"
  shows "turn_log.logged turns ok c (old @ ts) (cv_store (persist_all he ts cv))"
  using assms(3-)
proof (induction ts arbitrary: old cv)
  case (Cons t ts)
  let ?cv = "persist_turn he (tn_id t) (tn_timestamp t) (tn_channel t) (tn_session_id t) (tn_messages t) cv"
  have "fits t" "tn_id t \<notin> tn_id ` turns (cv_store cv)" "tn_channel t = c"
      "\<forall>u \<in> set old. tn_timestamp u < tn_timestamp t"
    using Cons.prems by (auto simp: sorted_wrt_append)
  then obtain s' where s': "tu_insert tu t (cv_store cv) = (Inr (), s')" "turn_log.logged turns ok c (old @ [t]) s'"
      "turns s' = insert t (turns (cv_store cv))"
    using turn_log.insert_logged [OF assms(1) Cons.prems(1)] by metis
  then have "cv_store ?cv = s'" by (simp add: persist_store [OF assms(2)])
  then have "turn_log.logged turns ok c ((old @ [t]) @ ts) (cv_store (persist_all he ts ?cv))"
    using s'(2,3) Cons.prems(2-5) by (intro Cons.IH) auto
  then show ?case by (simp add: persist_all_def)
qed (simp add: persist_all_def)

text \<open>
  C6: A conversation survives a restart: when its turns were persisted to PluresDB at growing times, an
  agent that starts anew on the database reads the messages of the last 512 turns, in order, cut to the
  budget as they would be in memory.
\<close>

theorem restart_restores_history:
  assumes "plures_laws p cview" and "turn_codec_laws p"
    and "he_turns he = Some \<lparr>tu_insert = plures_insert_turn p, tu_recent = plures_recent_turns p\<rparr>"
    and "turns_inv p cview s" and "{t \<in> plures_turns p cview s. tn_channel t = c} = {}"
    and "\<forall>t \<in> set ts. turn_fits p t \<and> tn_channel t = c" and "distinct (map tn_id ts)"
    and "tn_id ` set ts \<inter> tn_id ` plures_turns p cview s = {}"
    and "sorted_wrt (<) (map tn_timestamp ts)" and "ts \<noteq> []"
  shows "fst (load_history he c (conversations_new (cv_store (persist_all he ts (conversations_new s)))))
    = trim_to_token_budget (he_arith he) (he_tokens he) (concat (map tn_messages (drop (length ts - 512) ts)))"
proof -
  let ?s = "cv_store (persist_all he ts (conversations_new s))"
  note log = plures_turn_contract [OF assms(1,2)]
  have "turn_log.logged (plures_turns p cview) (turns_inv p cview) c [] s"
    using assms(4,5) by (simp add: turn_log.logged_def [OF log])
  then have "turn_log.logged (plures_turns p cview) (turns_inv p cview) c ([] @ ts) ?s"
    using assms(6-9) log
    by (intro persist_all_logged [OF _ assms(3), where fits = "turn_fits p"]) (simp_all add: conversations_new_def)
  then have "plures_recent_turns p c 512 ?s = (Inr (drop (length ts - 512) ts), ?s)"
    using turn_log.recent_logged [OF log] by simp
  moreover have "drop (length ts - 512) ts \<noteq> []" using assms(10) by (cases ts) auto
  then obtain u us where "drop (length ts - 512) ts = u # us" by (cases "drop (length ts - 512) ts") auto
  ultimately show ?thesis
    by (simp add: load_history_def conversations_new_def hm_get_Nil assms(3) hydrate_turn_limit_def Let_def)
qed

text \<open>An unencrypted store, with a codec for turns that hold one given message.\<close>

definition greeting :: "unit message" where
  "greeting = plain_message ''user'' ''hi''"

definition greeting_turn :: "string \<Rightarrow> string \<Rightarrow> unit message turn" where
  "greeting_turn k time = \<lparr>tn_id = k, tn_channel = ''c'', tn_session_id = ''main'', tn_timestamp = time, tn_messages = [greeting]\<rparr>"

definition encode_turn :: "unit message turn \<Rightarrow> json option" where
  "encode_turn t =
     (if tn_messages t = [greeting]
      then Some (JArray [JString (tn_id t), JString (tn_channel t), JString (tn_session_id t), JString (tn_timestamp t)])
      else None)"

definition decode_turn :: "json \<Rightarrow> unit message turn option" where
  "decode_turn j =
     (case j of
        JArray [JString k, JString c, JString s, JString n] \<Rightarrow>
          Some \<lparr>tn_id = k, tn_channel = c, tn_session_id = s, tn_timestamp = n, tn_messages = [greeting]\<rparr>
      | _ \<Rightarrow> None)"

definition greeting_plures :: "((string \<times> json) list, unit, string, unit, unit message, unit, unit) plures" where
  "greeting_plures = \<lparr>pl_db = alist_crdt, pl_sea = \<lparr>sea_encrypt = (\<lambda>_ _. None), sea_decrypt = (\<lambda>_ _ _. None),
     sea_epub = (\<lambda>_. [])\<rparr>,
     pl_codec = \<lparr>sc_print = (\<lambda>_. None), sc_parse = (\<lambda>_. None), sc_entry = (\<lambda>_. None), sc_to_entry = (\<lambda>_. None),
       sc_turn = encode_turn, sc_to_turn = decode_turn, sc_adapters = (\<lambda>_. None), sc_to_adapters = (\<lambda>_. None),
       sc_capability = (\<lambda>_. None), sc_to_capability = (\<lambda>_. None)\<rparr>, pl_key = None\<rparr>"

lemma greeting_laws: "plures_laws greeting_plures map_of" "turn_codec_laws greeting_plures"
proof -
  show "plures_laws greeting_plures map_of"
    by (auto simp: plures_laws_def greeting_plures_def alist_crdt_laws)
  have "decode_turn j = Some t" if "encode_turn t = Some j" for t j
    using that by (cases t) (auto simp: encode_turn_def decode_turn_def split: if_splits)
  then show "turn_codec_laws greeting_plures" by (simp add: turn_codec_laws_def greeting_plures_def)
qed

interpretation greeting: plures_turn_store greeting_plures map_of
  by unfold_locales (rule greeting_laws)+

definition greeting_env :: "((string \<times> json) list, unit, int) history_env" where
  "greeting_env = env0 (Some \<lparr>tu_insert = plures_insert_turn greeting_plures, tu_recent = plures_recent_turns greeting_plures\<rparr>)
     None"

theorem restart_restores_history_witness:
  "fst (load_history greeting_env ''c'' (conversations_new (cv_store
      (persist_all greeting_env [greeting_turn ''1'' ''10:00'', greeting_turn ''2'' ''10:05''] (conversations_new [])))))
    = trim_to_token_budget (he_arith greeting_env) (he_tokens greeting_env) (concat (map tn_messages
        (drop (length [greeting_turn ''1'' ''10:00'', greeting_turn ''2'' ''10:05''] - 512)
          [greeting_turn ''1'' ''10:00'', greeting_turn ''2'' ''10:05''])))"
proof (rule restart_restores_history [OF greeting_laws])
  show "he_turns greeting_env = Some \<lparr>tu_insert = plures_insert_turn greeting_plures,
      tu_recent = plures_recent_turns greeting_plures\<rparr>" by (simp add: greeting_env_def env0_def)
  show "turns_inv greeting_plures map_of []" by (simp add: turns_inv_def)
  show "{t \<in> plures_turns greeting_plures map_of []. tn_channel t = ''c''} = {}"
      "tn_id ` set [greeting_turn ''1'' ''10:00'', greeting_turn ''2'' ''10:05'']
        \<inter> tn_id ` plures_turns greeting_plures map_of [] = {}"
    by (simp_all add: plures_turns_def stored_turn_def)
  show "\<forall>t \<in> set [greeting_turn ''1'' ''10:00'', greeting_turn ''2'' ''10:05''].
      turn_fits greeting_plures t \<and> tn_channel t = ''c''"
    by (simp add: turn_fits_def greeting_plures_def encode_turn_def greeting_turn_def plures_seal_def seal_value_def)
  show "sorted_wrt (<) (map tn_timestamp [greeting_turn ''1'' ''10:00'', greeting_turn ''2'' ''10:05''])" by code_simp
qed (simp_all add: greeting_turn_def)

end
