(* ===== verification/Model_Picker.thy ===== *)
theory Model_Picker
  imports Prelude
begin

text \<open>
  The model picker of the Telegram channel (\<open>crates/channels/src/model_picker.rs\<close>): sessions that belong
  to a user and a message, the data of their buttons, and what a click does.

  An entry of the catalogue is a type of the platform with the fields the code reads.  An \<open>Instant\<close> is the
  number of nanoseconds since some start; the fresh id of a session is an argument.
\<close>

section \<open>Types\<close>

record catalog_entry =
  ce_key :: string
  ce_provider :: string
  ce_model_id :: string
  ce_preview :: bool

record picker_location =
  pl_chat_id :: int
  pl_message_id :: int

record picker_session =
  ps_owner_user_id :: int
  ps_chat_id :: int
  ps_message_id :: int
  ps_entries :: "catalog_entry list"
  ps_page_size :: nat
  ps_page :: nat
  ps_last_active_at :: int
  ps_consumed :: bool

definition session_ttl :: int where
  "session_ttl = 300 * nanos_per_sec"

definition session_expired :: "int \<Rightarrow> int \<Rightarrow> picker_session \<Rightarrow> bool" where
  "session_expired now ttl s \<longleftrightarrow> max 0 (now - ps_last_active_at s) > ttl"

definition total_pages :: "picker_session \<Rightarrow> nat" where
  "total_pages s =
     (if ps_entries s = [] then 1
      else (length (ps_entries s) + ps_page_size s - 1) div ps_page_size s)"

definition page_slice :: "picker_session \<Rightarrow> catalog_entry list" where
  "page_slice s =
     (let start = min (ps_page s * ps_page_size s) (length (ps_entries s));
          stop = min (start + ps_page_size s) (length (ps_entries s))
      in take (stop - start) (drop start (ps_entries s)))"

definition matches_location :: "picker_session \<Rightarrow> picker_location \<Rightarrow> bool" where
  "matches_location s l \<longleftrightarrow> ps_chat_id s = pl_chat_id l \<and> ps_message_id s = pl_message_id l"

section \<open>The data of a button\<close>

datatype picker_action =
    Select string nat
  | Page string nat
  | Cancel string

fun action_session :: "picker_action \<Rightarrow> string" where
  "action_session (Select sid _) = sid"
| "action_session (Page sid _) = sid"
| "action_session (Cancel sid) = sid"

definition cb_prefix :: string where
  "cb_prefix = ''mp''"

definition select_callback_data :: "string \<Rightarrow> nat \<Rightarrow> string" where
  "select_callback_data sid idx = cb_prefix @ '':'' @ sid @ '':s:'' @ show_nat idx"

definition page_callback_data :: "string \<Rightarrow> nat \<Rightarrow> string" where
  "page_callback_data sid page = cb_prefix @ '':'' @ sid @ '':p:'' @ show_nat page"

definition cancel_callback_data :: "string \<Rightarrow> string" where
  "cancel_callback_data sid = cb_prefix @ '':'' @ sid @ '':c:0''"

text \<open>\<open>str::splitn\<close> with a character.\<close>

fun splitn :: "nat \<Rightarrow> char \<Rightarrow> string \<Rightarrow> string list" where
  "splitn 0 c s = []"
| "splitn (Suc 0) c s = [s]"
| "splitn (Suc (Suc n)) c s =
     (case split_once c s of None \<Rightarrow> [s] | Some (a, b) \<Rightarrow> a # splitn (Suc n) c b)"

definition parse_picker_callback :: "string \<Rightarrow> picker_action option" where
  "parse_picker_callback data =
     (case splitn (Suc (Suc (Suc (Suc 0)))) CHR '':'' data of
        pre # sid # kind # val # _ \<Rightarrow>
          if pre \<noteq> cb_prefix then None
          else if kind = ''s'' then map_option (Select sid) (parse_uint 64 val)
          else if kind = ''p'' then map_option (Page sid) (parse_uint 64 val)
          else if kind = ''c'' then Some (Cancel sid)
          else None
      | _ \<Rightarrow> None)"

section \<open>Pages\<close>

record rendered_page =
  rp_text :: string
  rp_rows :: "(string \<times> string) list list"

definition format_entry_label :: "catalog_entry \<Rightarrow> bool \<Rightarrow> string" where
  "format_entry_label e is_current =
     (if is_current then [CHR 0xE2, CHR 0x9C, CHR 0x85, CHR '' ''] else [])
       @ ce_provider e @ ''/'' @ ce_model_id e
       @ (if ce_preview e then [CHR '' '', CHR 0xF0, CHR 0x9F, CHR 0xA7, CHR 0xAA] else [])"

definition page_text :: "picker_session \<Rightarrow> string" where
  "page_text s =
     [CHR 0xF0, CHR 0x9F, CHR 0xA7, CHR 0xA0] @ '' <b>Select a model</b> (page '' @ show_nat (ps_page s + 1)
       @ ''/'' @ show_nat (total_pages s) @ '', '' @ show_nat (length (ps_entries s)) @ '' total)''
       @ (if ps_entries s = [] then [newline, newline] @ ''No models discovered. Try /model refresh.'' else [])"

definition entry_rows :: "picker_session \<Rightarrow> string \<Rightarrow> string option \<Rightarrow> (string \<times> string) list list" where
  "entry_rows s sid current_key =
     map (\<lambda>(idx, e). [(format_entry_label e (current_key = Some (ce_key e)), select_callback_data sid idx)])
       (List.enumerate (ps_page s * ps_page_size s) (page_slice s))"

definition nav_row :: "picker_session \<Rightarrow> string \<Rightarrow> (string \<times> string) list" where
  "nav_row s sid =
     (if 0 < ps_page s
      then [([CHR 0xE2, CHR 0xAC, CHR 0x85, CHR 0xEF, CHR 0xB8, CHR 0x8F] @ '' Prev'',
             page_callback_data sid (ps_page s - 1))] else [])
     @ (if ps_page s + 1 < total_pages s
        then [([CHR 0xE2, CHR 0x9E, CHR 0xA1, CHR 0xEF, CHR 0xB8, CHR 0x8F] @ '' Next'',
               page_callback_data sid (ps_page s + 1))] else [])
     @ [([CHR 0xE2, CHR 0x9C, CHR 0x96, CHR 0xEF, CHR 0xB8, CHR 0x8F] @ '' Cancel'', cancel_callback_data sid)]"

definition render_session :: "picker_session \<Rightarrow> string \<Rightarrow> string option \<Rightarrow> rendered_page" where
  "render_session s sid current_key =
     \<lparr>rp_text = page_text s, rp_rows = entry_rows s sid current_key @ [nav_row s sid]\<rparr>"

section \<open>The store of sessions\<close>

type_synonym picker_store = "(string, picker_session) hmap"

datatype picker_outcome =
    Rendered rendered_page
  | Selected catalog_entry
  | Cancelled
  | Ignored

definition sweep_expired :: "int \<Rightarrow> picker_store \<Rightarrow> picker_store" where
  "sweep_expired now = hm_retain (\<lambda>s. \<not> session_expired now session_ttl s)"

definition picker_open ::
    "int \<Rightarrow> int \<Rightarrow> int \<Rightarrow> catalog_entry list \<Rightarrow> string option \<Rightarrow> nat \<Rightarrow> string \<Rightarrow> int \<Rightarrow> picker_store
       \<Rightarrow> rendered_page \<times> picker_store" where
  "picker_open owner chat msg es current_key per_page sid now st =
     (let s = \<lparr>ps_owner_user_id = owner, ps_chat_id = chat, ps_message_id = msg, ps_entries = es,
               ps_page_size = max 1 per_page, ps_page = 0, ps_last_active_at = now, ps_consumed = False\<rparr>
      in (render_session s sid current_key, hm_insert sid s (sweep_expired now st)))"

definition picker_handle ::
    "picker_action \<Rightarrow> int \<Rightarrow> picker_location option \<Rightarrow> string option \<Rightarrow> int \<Rightarrow> picker_store
       \<Rightarrow> picker_outcome option \<times> picker_store" where
  "picker_handle act caller loc current_key now st =
     (let sid = action_session act;
          st = hm_retain (\<lambda>s. \<not> session_expired now session_ttl s \<and> \<not> ps_consumed s) st
      in case hm_get st sid of
           None \<Rightarrow> (None, st)
         | Some s \<Rightarrow>
             (case loc of
                None \<Rightarrow> (Some Ignored, st)
              | Some l \<Rightarrow>
                  if ps_owner_user_id s \<noteq> caller \<or> \<not> matches_location s l then (Some Ignored, st)
                  else
                    (case act of
                       Page _ page \<Rightarrow>
                         (let s' = s\<lparr>ps_page := min page (total_pages s - 1), ps_last_active_at := now\<rparr>
                          in (Some (Rendered (render_session s' sid current_key)), hm_insert sid s' st))
                     | Select _ idx \<Rightarrow>
                         if idx < length (ps_entries s) then (Some (Selected (ps_entries s ! idx)), hm_remove sid st)
                         else (Some Ignored, st)
                     | Cancel _ \<Rightarrow> (Some Cancelled, hm_remove sid st))))"

definition set_location :: "string \<Rightarrow> int \<Rightarrow> int \<Rightarrow> picker_store \<Rightarrow> picker_store" where
  "set_location sid chat msg = hm_modify sid (\<lambda>s. s\<lparr>ps_chat_id := chat, ps_message_id := msg\<rparr>)"

definition picker_location_of :: "picker_store \<Rightarrow> string \<Rightarrow> (int \<times> int) option" where
  "picker_location_of st sid = map_option (\<lambda>s. (ps_chat_id s, ps_message_id s)) (hm_get st sid)"

section \<open>Buttons and their data\<close>

lemma split_once_colon [simp]:
  "CHR '':'' \<notin> set a \<Longrightarrow> split_once CHR '':'' (a @ CHR '':'' # b) = Some (a, b)"
  by (rule split_once_append)

lemma parse_select [simp]:
  assumes "CHR '':'' \<notin> set sid"
  shows "parse_picker_callback (select_callback_data sid n) = (if n < 2 ^ 64 then Some (Select sid n) else None)"
  using assms split_once_append [of "CHR '':''" "''mp''"] split_once_append [of "CHR '':''" "''s''"]
  by (simp add: parse_picker_callback_def select_callback_data_def cb_prefix_def parse_show_nat del: split_once.simps)

lemma parse_page [simp]:
  assumes "CHR '':'' \<notin> set sid"
  shows "parse_picker_callback (page_callback_data sid n) = (if n < 2 ^ 64 then Some (Page sid n) else None)"
  using assms split_once_append [of "CHR '':''" "''mp''"] split_once_append [of "CHR '':''" "''p''"]
  by (simp add: parse_picker_callback_def page_callback_data_def cb_prefix_def parse_show_nat del: split_once.simps)

lemma parse_cancel [simp]:
  assumes "CHR '':'' \<notin> set sid"
  shows "parse_picker_callback (cancel_callback_data sid) = Some (Cancel sid)"
  using assms split_once_append [of "CHR '':''" "''mp''"] split_once_append [of "CHR '':''" "''c''"]
  by (simp add: parse_picker_callback_def cancel_callback_data_def cb_prefix_def del: split_once.simps)

section \<open>Pages cover the catalogue\<close>

definition paged :: "picker_session \<Rightarrow> bool" where
  "paged s \<longleftrightarrow> 0 < ps_page_size s \<and> ps_page s < total_pages s"

lemma total_pages_pos: "0 < ps_page_size s \<Longrightarrow> 0 < total_pages s"
  by (cases "ps_entries s") (simp_all add: total_pages_def div_greater_zero_iff)

lemma total_pages_cover:
  assumes "0 < ps_page_size s"
  shows "length (ps_entries s) \<le> total_pages s * ps_page_size s"
proof (cases "ps_entries s = []")
  case False
  let ?n = "length (ps_entries s)" and ?k = "ps_page_size s"
  have "?n + ?k - 1 < ((?n + ?k - 1) div ?k + 1) * ?k"
    using assms by (metis Suc_eq_plus1 dividend_less_div_times add.commute mult.commute mult_Suc)
  then show ?thesis
    using assms False by (simp add: total_pages_def)
qed simp

lemma page_slice_eq: "page_slice s = take (ps_page_size s) (drop (ps_page s * ps_page_size s) (ps_entries s))"
  by (cases "ps_page s * ps_page_size s \<le> length (ps_entries s)") (auto simp: page_slice_def Let_def min_def)

lemma page_start_inside:
  assumes "paged s" and "ps_entries s \<noteq> []"
  shows "ps_page s * ps_page_size s < length (ps_entries s)"
proof -
  let ?n = "length (ps_entries s)" and ?k = "ps_page_size s"
  have "ps_page s + 1 \<le> (?n + ?k - 1) div ?k"
    using assms by (simp add: paged_def total_pages_def)
  then have "(ps_page s + 1) * ?k \<le> ?n + ?k - 1"
    using assms(1) by (simp add: paged_def less_eq_div_iff_mult_less_eq)
  moreover have "0 < ?k"
    using assms(1) by (simp add: paged_def)
  ultimately show ?thesis
    by (cases ?k) simp_all
qed

lemma concat_takes: "concat (map (\<lambda>p. take k (drop (p * k) xs)) [0..<n]) = take (n * k) xs"
proof (induction n)
  case (Suc n)
  then show ?case
    by (simp add: take_add [symmetric] add.commute)
qed simp

text \<open>The pages of a picker, read one after the other, show every entry of its catalogue once and in
  order, and no page is empty unless the catalogue is.\<close>

theorem pages_partition_catalogue:
  assumes "0 < ps_page_size s"
  shows "concat (map (\<lambda>p. page_slice (s\<lparr>ps_page := p\<rparr>)) [0..<total_pages s]) = ps_entries s
    \<and> (ps_entries s \<noteq> [] \<longrightarrow> (\<forall>p < total_pages s. page_slice (s\<lparr>ps_page := p\<rparr>) \<noteq> []))"
proof -
  have "page_slice (s\<lparr>ps_page := p\<rparr>) \<noteq> []" if "p < total_pages s" and "ps_entries s \<noteq> []" for p
    using page_start_inside [of "s\<lparr>ps_page := p\<rparr>"] assms that
    by (simp add: paged_def page_slice_eq total_pages_def)
  then show ?thesis
    using total_pages_cover [OF assms] by (simp add: page_slice_eq concat_takes)
qed

section \<open>Histories of a store\<close>

datatype picker_event =
    Opened int int int "catalog_entry list" "string option" nat string int
  | Clicked picker_action int "picker_location option" "string option" int
  | Placed string int int
  | Swept int

datatype picker_reply =
    Shown rendered_page
  | Answered "picker_outcome option"
  | Quiet

fun picker_step :: "picker_event \<Rightarrow> picker_store \<Rightarrow> picker_reply \<times> picker_store" where
  "picker_step (Opened owner chat msg es cur n sid now) st =
     (case picker_open owner chat msg es cur n sid now st of (p, st') \<Rightarrow> (Shown p, st'))"
| "picker_step (Clicked act caller loc cur now) st =
     (case picker_handle act caller loc cur now st of (r, st') \<Rightarrow> (Answered r, st'))"
| "picker_step (Placed sid chat msg) st = (Quiet, set_location sid chat msg st)"
| "picker_step (Swept now) st = (Quiet, sweep_expired now st)"

type_synonym picker_history = "(picker_event \<times> picker_reply) list"

fun opens :: "string \<Rightarrow> picker_event \<times> picker_reply \<Rightarrow> bool" where
  "opens sid (Opened _ _ _ _ _ _ sid' _, _) \<longleftrightarrow> sid' = sid"
| "opens sid _ \<longleftrightarrow> False"

fun opened_by :: "string \<Rightarrow> int \<Rightarrow> catalog_entry list \<Rightarrow> picker_event \<times> picker_reply \<Rightarrow> bool" where
  "opened_by sid owner es (Opened owner' _ _ es' _ _ sid' _, _) \<longleftrightarrow> sid' = sid \<and> owner' = owner \<and> es' = es"
| "opened_by sid owner es _ \<longleftrightarrow> False"

fun settles :: "string \<Rightarrow> picker_event \<times> picker_reply \<Rightarrow> bool" where
  "settles sid (Clicked act _ _ _ _, Answered (Some (Selected _))) \<longleftrightarrow> action_session act = sid"
| "settles sid (Clicked act _ _ _ _, Answered (Some Cancelled)) \<longleftrightarrow> action_session act = sid"
| "settles sid _ \<longleftrightarrow> False"

text \<open>Where a session is shown, and when it was opened or last turned a page.\<close>

fun moved :: "string \<Rightarrow> picker_location option \<Rightarrow> picker_event \<times> picker_reply \<Rightarrow> picker_location option" where
  "moved sid l (Opened _ chat msg _ _ _ sid' _, _) =
     (if sid' = sid then Some \<lparr>pl_chat_id = chat, pl_message_id = msg\<rparr> else l)"
| "moved sid l (Placed sid' chat msg, _) =
     (if sid' = sid then Some \<lparr>pl_chat_id = chat, pl_message_id = msg\<rparr> else l)"
| "moved sid l _ = l"

fun touched :: "string \<Rightarrow> int option \<Rightarrow> picker_event \<times> picker_reply \<Rightarrow> int option" where
  "touched sid t (Opened _ _ _ _ _ _ sid' now, _) = (if sid' = sid then Some now else t)"
| "touched sid t (Clicked act _ _ _ now, Answered (Some (Rendered _))) =
     (if action_session act = sid then Some now else t)"
| "touched sid t _ = t"

definition location_after :: "string \<Rightarrow> picker_history \<Rightarrow> picker_location option" where
  "location_after sid h = foldl (moved sid) None h"

definition touched_after :: "string \<Rightarrow> picker_history \<Rightarrow> int option" where
  "touched_after sid h = foldl (touched sid) None h"

inductive picker_run :: "picker_history \<Rightarrow> picker_store \<Rightarrow> bool" where
  Start: "picker_run [] []"
| Step: "picker_run h st \<Longrightarrow> picker_step e st = (r, st') \<Longrightarrow> \<forall>sid. opens sid (e, r) \<longrightarrow> \<not> list_ex (opens sid) h
    \<Longrightarrow> picker_run (h @ [(e, r)]) st'"

inductive_cases picker_runE: "picker_run (h @ [(e, r)]) st"

definition session_ok :: "picker_history \<Rightarrow> string \<Rightarrow> picker_session \<Rightarrow> bool" where
  "session_ok h sid s \<longleftrightarrow> \<not> ps_consumed s \<and> paged s \<and> list_ex (opened_by sid (ps_owner_user_id s) (ps_entries s)) h
     \<and> location_after sid h = Some \<lparr>pl_chat_id = ps_chat_id s, pl_message_id = ps_message_id s\<rparr>
     \<and> touched_after sid h = Some (ps_last_active_at s) \<and> \<not> list_ex (settles sid) h"

definition picker_inv :: "picker_history \<Rightarrow> picker_store \<Rightarrow> bool" where
  "picker_inv h st \<longleftrightarrow> hm_ok st \<and> (\<forall>sid s. hm_get st sid = Some s \<longrightarrow> session_ok h sid s)
     \<and> (\<forall>sid. list_ex (settles sid) h \<longrightarrow> list_ex (opens sid) h)"

lemma opened_by_opens: "list_ex (opened_by sid owner es) h \<Longrightarrow> list_ex (opens sid) h"
proof (induction h)
  case (Cons x h)
  have "opened_by sid owner es x \<Longrightarrow> opens sid x"
    by (cases "(sid, x)" rule: opens.cases) auto
  then show ?case
    using Cons by auto
qed simp

lemma location_after_snoc [simp]: "location_after sid (h @ [x]) = moved sid (location_after sid h) x"
  by (simp add: location_after_def)

lemma touched_after_snoc [simp]: "touched_after sid (h @ [x]) = touched sid (touched_after sid h) x"
  by (simp add: touched_after_def)

lemma paged_turn: "paged s \<Longrightarrow> paged (s\<lparr>ps_page := min page (total_pages s - 1), ps_last_active_at := now\<rparr>)"
  using total_pages_pos [of s] by (auto simp: paged_def total_pages_def)

lemma paged_same [simp]:
  "paged (s\<lparr>ps_chat_id := chat, ps_message_id := msg\<rparr>) = paged s"
  "total_pages (s\<lparr>ps_chat_id := chat, ps_message_id := msg\<rparr>) = total_pages s"
  by (simp_all add: paged_def total_pages_def)

lemma sweep_sub: "hm_ok st \<Longrightarrow> hm_get (sweep_expired now st) sid = Some s \<Longrightarrow> hm_get st sid = Some s"
  by (simp add: sweep_expired_def hm_simps split: option.splits if_splits)

lemma picker_inv_open:
  assumes "picker_inv h st" and "\<not> list_ex (opens sid) h"
  shows "picker_inv (h @ [(Opened owner chat msg es cur n sid now, r)])
           (snd (picker_open owner chat msg es cur n sid now st))"
proof -
  have new: "paged \<lparr>ps_owner_user_id = owner, ps_chat_id = chat, ps_message_id = msg, ps_entries = es,
      ps_page_size = max 1 n, ps_page = 0, ps_last_active_at = now, ps_consumed = False\<rparr>"
    using total_pages_pos [of "\<lparr>ps_owner_user_id = owner, ps_chat_id = chat, ps_message_id = msg, ps_entries = es,
      ps_page_size = max 1 n, ps_page = 0, ps_last_active_at = now, ps_consumed = False\<rparr>"]
    by (simp add: paged_def)
  have "\<not> list_ex (settles sid) h"
    using assms by (auto simp: picker_inv_def)
  moreover have "hm_ok (sweep_expired now st)"
    using assms(1) by (simp add: picker_inv_def sweep_expired_def hm_simps)
  ultimately show ?thesis
    using assms(1) new
    by (auto simp: picker_inv_def picker_open_def Let_def hm_simps session_ok_def dest: sweep_sub)
qed

text \<open>What a click leaves in the store.\<close>

lemma handle_cases:
  assumes "hm_ok st" and "picker_handle act caller loc cur now st = (r, st')"
  obtains
    (idle) "r = None \<or> r = Some Ignored" "st' = hm_retain (\<lambda>s. \<not> session_expired now session_ttl s \<and> \<not> ps_consumed s) st"
  | (acted) s where "hm_get st (action_session act) = Some s" "\<not> session_expired now session_ttl s" "\<not> ps_consumed s"
      "loc = Some \<lparr>pl_chat_id = ps_chat_id s, pl_message_id = ps_message_id s\<rparr>" "ps_owner_user_id s = caller"
      "(\<exists>sid page s'. act = Page sid page \<and> s' = s\<lparr>ps_page := min page (total_pages s - 1), ps_last_active_at := now\<rparr>
          \<and> r = Some (Rendered (render_session s' sid cur))
          \<and> st' = hm_insert sid s' (hm_retain (\<lambda>s. \<not> session_expired now session_ttl s \<and> \<not> ps_consumed s) st))
       \<or> (\<exists>sid idx. act = Select sid idx \<and> idx < length (ps_entries s) \<and> r = Some (Selected (ps_entries s ! idx))
          \<and> st' = hm_remove sid (hm_retain (\<lambda>s. \<not> session_expired now session_ttl s \<and> \<not> ps_consumed s) st))
       \<or> (\<exists>sid. act = Cancel sid \<and> r = Some Cancelled
          \<and> st' = hm_remove sid (hm_retain (\<lambda>s. \<not> session_expired now session_ttl s \<and> \<not> ps_consumed s) st))"
  using assms unfolding picker_handle_def Let_def
  by (cases loc; cases act) (auto simp: hm_simps matches_location_def split: option.splits if_splits)

lemma retain_sub:
  "hm_ok st \<Longrightarrow> hm_get (hm_retain p st) sid = Some s \<Longrightarrow> hm_get st sid = Some s"
  by (simp add: hm_simps split: option.splits if_splits)

lemma session_ok_idle:
  assumes "session_ok h sid s" and "r = None \<or> r = Some Ignored"
  shows "session_ok (h @ [(Clicked act caller loc cur now, Answered r)]) sid s"
  using assms by (auto simp: session_ok_def)

lemma session_ok_other:
  assumes "session_ok h sid s" and "action_session act \<noteq> sid"
  shows "session_ok (h @ [(Clicked act caller loc cur now, Answered r)]) sid s"
proof -
  have "\<not> settles sid (Clicked act caller loc cur now, Answered r)"
    using assms(2) by (cases r rule: option.exhaust; cases "the r") auto
  moreover have "touched sid t (Clicked act caller loc cur now, Answered r) = t" for t
    using assms(2) by (cases r rule: option.exhaust; cases "the r") auto
  ultimately show ?thesis
    using assms(1) by (simp add: session_ok_def)
qed

lemma picker_inv_click:
  assumes inv: "picker_inv h st" and step: "picker_handle act caller loc cur now st = (r, st')"
  shows "picker_inv (h @ [(Clicked act caller loc cur now, Answered r)]) st'"
proof -
  let ?kept = "hm_retain (\<lambda>s. \<not> session_expired now session_ttl s \<and> \<not> ps_consumed s) st"
  let ?h = "h @ [(Clicked act caller loc cur now, Answered r)]"
  have ok: "hm_ok st" "hm_ok ?kept" and live: "\<And>sid s. hm_get ?kept sid = Some s \<Longrightarrow> session_ok h sid s"
    and past: "\<And>sid. list_ex (settles sid) h \<Longrightarrow> list_ex (opens sid) h"
    using inv by (auto simp: picker_inv_def hm_ok_retain dest: retain_sub)
  have settled: "list_ex (settles sid) ?h \<Longrightarrow> list_ex (opens sid) ?h"
    if "settles sid (Clicked act caller loc cur now, Answered r) \<Longrightarrow> list_ex (opens sid) h" for sid
    using past [of sid] that by auto
  from ok(1) step show ?thesis
  proof (cases rule: handle_cases)
    case idle
    then show ?thesis
      using ok live past by (auto simp: picker_inv_def intro!: session_ok_idle)
  next
    case (acted s)
    have s: "session_ok h (action_session act) s"
      using inv acted(1) by (simp add: picker_inv_def)
    then have opened: "list_ex (opens (action_session act)) h"
      by (auto simp: session_ok_def dest: opened_by_opens)
    have "list_ex (settles sid) ?h \<Longrightarrow> list_ex (opens sid) ?h" for sid
      by (rule settled [of sid]) (use acted(6) opened in auto)
    moreover have "hm_ok st'"
      using acted(6) ok by (auto simp: hm_ok_insert hm_ok_remove)
    moreover have "session_ok ?h sid s'" if s': "hm_get st' sid = Some s'" for sid s'
    proof (cases "sid = action_session act")
      case True
      have "paged s \<Longrightarrow> paged (s\<lparr>ps_page := min page (total_pages s - 1), ps_last_active_at := now\<rparr>)" for page
        by (rule paged_turn)
      then show ?thesis
        using acted(6) s s' True by (auto simp: session_ok_def hm_get_insert hm_get_remove)
    next
      case False
      then have "hm_get ?kept sid = Some s'"
        using acted(6) s' by (auto simp: hm_get_insert hm_get_remove)
      then show ?thesis
        using False by (intro session_ok_other live) auto
    qed
    ultimately show ?thesis
      by (simp add: picker_inv_def)
  qed
qed

lemma picker_inv_place: "picker_inv h st \<Longrightarrow> picker_inv (h @ [(Placed sid chat msg, Quiet)]) (set_location sid chat msg st)"
  by (auto simp: picker_inv_def set_location_def hm_simps session_ok_def split: if_splits)

lemma picker_inv_sweep: "picker_inv h st \<Longrightarrow> picker_inv (h @ [(Swept now, Quiet)]) (sweep_expired now st)"
  by (auto simp: picker_inv_def session_ok_def hm_ok_retain sweep_expired_def dest!: retain_sub)

lemma picker_run_inv: "picker_run h st \<Longrightarrow> picker_inv h st"
proof (induction rule: picker_run.induct)
  case Start
  show ?case by (simp add: picker_inv_def hm_simps)
next
  case (Step h st e r st')
  show ?case
  proof (cases e)
    case (Opened owner chat msg es cur n sid now)
    with Step picker_inv_open [OF Step.IH, of sid owner chat msg es cur n now r] show ?thesis
      by (simp split: prod.splits)
  next
    case Clicked
    with Step show ?thesis by (auto split: prod.splits intro: picker_inv_click)
  next
    case Placed
    with Step show ?thesis by (auto intro: picker_inv_place)
  next
    case Swept
    with Step show ?thesis by (auto intro: picker_inv_sweep)
  qed
qed

section \<open>What a click does\<close>

text \<open>C16: A model is selected only for the user who opened the picker, by a click on the message that shows it,
  within five minutes of its last page, from the entries the picker was opened with, and never after the
  picker was used or cancelled.\<close>

theorem picker_serves_owner:
  assumes "picker_run h st" and "picker_handle (Select sid idx) caller loc cur now st = (Some (Selected e), st')"
  shows "\<exists>es t. list_ex (opened_by sid caller es) h \<and> idx < length es \<and> e = es ! idx \<and> loc \<noteq> None
    \<and> loc = location_after sid h \<and> touched_after sid h = Some t \<and> now \<le> t + session_ttl
    \<and> \<not> list_ex (settles sid) h \<and> hm_get st' sid = None"
proof -
  have inv: "picker_inv h st"
    by (rule picker_run_inv [OF assms(1)])
  then have ok: "hm_ok st"
    by (simp add: picker_inv_def)
  from ok assms(2) show ?thesis
  proof (cases rule: handle_cases)
    case (acted s)
    then have "session_ok h sid s"
      using inv by (simp add: picker_inv_def)
    with acted ok show ?thesis
      by (auto simp: session_ok_def session_expired_def hm_simps)
  qed simp
qed

text \<open>A picker is used or cancelled at most once.\<close>

theorem picker_settles_once:
  assumes "picker_run h st"
  shows "length (filter (settles sid) h) \<le> 1"
  using assms
proof (induction rule: picker_run.induct)
  case (Step h st e r st')
  have "filter (settles sid) h = []" if new: "settles sid (e, r)"
  proof -
    obtain act caller loc cur now q where e: "e = Clicked act caller loc cur now" "r = Answered q" "action_session act = sid"
        "q \<noteq> None" "q \<noteq> Some Ignored"
      using new by (cases "(sid, (e, r))" rule: settles.cases) auto
    have inv: "picker_inv h st"
      by (rule picker_run_inv [OF Step.hyps(1)])
    have "hm_ok st" "picker_handle act caller loc cur now st = (q, st')"
      using Step.hyps(2) e inv by (auto simp: picker_inv_def split: prod.splits)
    then show ?thesis
    proof (cases rule: handle_cases)
      case (acted s)
      then have "session_ok h sid s"
        using inv e by (simp add: picker_inv_def)
      then show ?thesis
        by (simp add: session_ok_def list_ex_iff filter_empty_conv)
    qed (use e in simp_all)
  qed
  with Step.IH show ?case
    by (cases "settles sid (e, r)") simp_all
qed simp

text \<open>
  The function of a button: its data is read back as an action on its session, and the action does what the
  label says.
\<close>

definition button_works ::
    "picker_session \<Rightarrow> string \<Rightarrow> string option \<Rightarrow> int \<Rightarrow> picker_store \<Rightarrow> string \<times> string \<Rightarrow> bool" where
  "button_works s sid cur now st b \<longleftrightarrow>
     (\<exists>act o' st'. parse_picker_callback (snd b) = Some act \<and> action_session act = sid
        \<and> picker_handle act (ps_owner_user_id s) (Some \<lparr>pl_chat_id = ps_chat_id s, pl_message_id = ps_message_id s\<rparr>)
            cur now st = (Some o', st')
        \<and> (case o' of
             Selected e \<Rightarrow> e \<in> set (ps_entries s) \<and> fst b = format_entry_label e (cur = Some (ce_key e))
           | Rendered p \<Rightarrow>
               (\<exists>n < total_pages s. (n + 1 = ps_page s \<or> n = ps_page s + 1)
                  \<and> p = render_session (s\<lparr>ps_page := n, ps_last_active_at := now\<rparr>) sid cur)
           | Cancelled \<Rightarrow> b = last (nav_row s sid)
           | Ignored \<Rightarrow> False))"

lemma handle_live:
  assumes "hm_ok st" and "hm_get st (action_session act) = Some s" and "\<not> session_expired now session_ttl s" and "\<not> ps_consumed s"
  shows "fst (picker_handle act (ps_owner_user_id s) (Some \<lparr>pl_chat_id = ps_chat_id s, pl_message_id = ps_message_id s\<rparr>) cur now st)
    = Some (case act of
        Page sid page \<Rightarrow> Rendered (render_session (s\<lparr>ps_page := min page (total_pages s - 1), ps_last_active_at := now\<rparr>) sid cur)
      | Select _ idx \<Rightarrow> if idx < length (ps_entries s) then Selected (ps_entries s ! idx) else Ignored
      | Cancel _ \<Rightarrow> Cancelled)"
  using assms by (cases act) (simp_all add: picker_handle_def Let_def hm_simps matches_location_def)

lemma total_pages_le: "total_pages s \<le> max 1 (length (ps_entries s))"
proof (cases "ps_entries s")
  case (Cons x xs)
  have "(length xs + k) div k \<le> Suc (length xs)" for k
  proof (cases "k = 0")
    case False
    then have "(length xs + k) div k = length xs div k + 1"
      by (rule div_add_self2)
    then show ?thesis
      using div_le_dividend [of "length xs" k] by simp
  qed simp
  then show ?thesis
    using Cons by (simp add: total_pages_def)
qed (simp add: total_pages_def)

lemma page_slice_nth:
  assumes "i < length (page_slice s)"
  shows "ps_page s * ps_page_size s + i < length (ps_entries s)"
    and "page_slice s ! i = ps_entries s ! (ps_page s * ps_page_size s + i)"
proof -
  show "ps_page s * ps_page_size s + i < length (ps_entries s)"
    using assms by (simp add: page_slice_eq less_diff_conv add.commute)
  then show "page_slice s ! i = ps_entries s ! (ps_page s * ps_page_size s + i)"
    using assms by (simp add: page_slice_eq)
qed

lemma entry_row_button:
  assumes "row \<in> set (entry_rows s sid cur)" and "b \<in> set row"
  shows "\<exists>i < length (page_slice s).
    b = (format_entry_label (page_slice s ! i) (cur = Some (ce_key (page_slice s ! i))),
         select_callback_data sid (ps_page s * ps_page_size s + i))"
proof -
  obtain idx e where "(idx, e) \<in> set (List.enumerate (ps_page s * ps_page_size s) (page_slice s))"
      "b = (format_entry_label e (cur = Some (ce_key e)), select_callback_data sid idx)"
    using assms by (auto simp: entry_rows_def)
  then show ?thesis
    by (intro exI [of _ "idx - ps_page s * ps_page_size s"]) (auto simp: in_set_enumerate_eq)
qed


section \<open>Examples\<close>

definition example_entries :: "catalog_entry list" where
  "example_entries =
     [\<lparr>ce_key = ''k1'', ce_provider = ''acme'', ce_model_id = ''small'', ce_preview = False\<rparr>,
      \<lparr>ce_key = ''k2'', ce_provider = ''acme'', ce_model_id = ''large'', ce_preview = True\<rparr>]"

definition example_session :: picker_session where
  "example_session = \<lparr>ps_owner_user_id = 7, ps_chat_id = 1, ps_message_id = 2, ps_entries = example_entries,
     ps_page_size = 1, ps_page = 0, ps_last_active_at = 0, ps_consumed = False\<rparr>"

lemma example_run:
  "picker_run [(Opened 7 1 2 example_entries None 1 ''s'' 0, Shown (render_session example_session ''s'' None))]
     [(''s'', example_session)]"
proof -
  have "picker_step (Opened 7 1 2 example_entries None 1 ''s'' 0) [] =
      (Shown (render_session example_session ''s'' None), [(''s'', example_session)])"
    by (simp add: picker_open_def example_session_def sweep_expired_def hm_retain_def hm_insert_def Let_def)
  from picker_run.Step [OF picker_run.Start this] show ?thesis
    by simp
qed

lemma pages_partition_catalogue_witness:
  "total_pages example_session = 2
    \<and> concat (map (\<lambda>p. page_slice (example_session\<lparr>ps_page := p\<rparr>)) [0..<total_pages example_session]) = example_entries"
proof -
  have "0 < ps_page_size example_session" "total_pages example_session = 2" "ps_entries example_session = example_entries"
    by (simp_all add: example_session_def total_pages_def example_entries_def)
  then show ?thesis
    using pages_partition_catalogue [of example_session] by simp
qed

lemma picker_serves_owner_witness:
  "\<exists>st'. picker_handle (Select ''s'' 1) 7 (Some \<lparr>pl_chat_id = 1, pl_message_id = 2\<rparr>) None 5 [(''s'', example_session)]
     = (Some (Selected (example_entries ! 1)), st') \<and> hm_get st' ''s'' = None"
proof -
  have *: "picker_handle (Select ''s'' 1) 7 (Some \<lparr>pl_chat_id = 1, pl_message_id = 2\<rparr>) None 5 [(''s'', example_session)]
      = (Some (Selected (example_entries ! 1)), [])"
    by (simp add: picker_handle_def hm_retain_def hm_get_def hm_remove_def session_expired_def session_ttl_def
        nanos_per_sec_def matches_location_def example_session_def example_entries_def)
  show ?thesis
    using picker_serves_owner [OF example_run *] * by auto
qed

lemma picker_settles_once_witness:
  "length (filter (settles ''s'')
     [(Opened 7 1 2 example_entries None 1 ''s'' 0, Shown (render_session example_session ''s'' None))]) \<le> 1"
  by (rule picker_settles_once [OF example_run])


end
