(* ===== verification/Telegram.thy ===== *)
theory Telegram
  imports Model_Picker Marketplace Orchestrator Cron
begin

text \<open>
  The texts of the Telegram channel (\<open>crates/channels/src/telegram.rs\<close>): its commands, who may run the
  update, the index of the marketplace, which messages of a group are answered and with which context
  (\<open>group_context.rs\<close>), and the escaping and cutting of a reply.

  Of a message of Telegram the records have the fields the code reads.  The payload of an index arrives
  parsed.
\<close>

section \<open>Commands\<close>

datatype model_command = Show_Models | Set_Primary string | Set_Deep string

datatype config_command = Show_Config | Set_Model string | Set_Endpoint string | Set_Log_Level string

definition parse_model_command :: "string list \<Rightarrow> string + model_command" where
  "parse_model_command args =
     (let usage = Inl ''Usage: /model | /model <name> | /model deep <name>''
      in case args of
           [] \<Rightarrow> Inr Show_Models
         | [a] \<Rightarrow>
             if a = ''deep'' then Inl ''Usage: /model deep <name>''
             else if trim a \<noteq> [] then Inr (Set_Primary (trim a)) else usage
         | [a, b] \<Rightarrow> if a = ''deep'' \<and> trim b \<noteq> [] then Inr (Set_Deep (trim b)) else usage
         | _ \<Rightarrow> usage)"

definition parse_switch :: "string \<Rightarrow> string list \<Rightarrow> bool \<Rightarrow> string + bool" where
  "parse_switch usage args current =
     (case args of
        [] \<Rightarrow> Inr (\<not> current)
      | [flag] \<Rightarrow>
          (let f = map ascii_lower (trim flag)
           in if f = ''on'' \<or> f = ''true'' \<or> f = ''1'' then Inr True
              else if f = ''off'' \<or> f = ''false'' \<or> f = ''0'' then Inr False
              else Inl usage)
      | _ \<Rightarrow> Inl usage)"

definition parse_verbose_command :: "string list \<Rightarrow> bool \<Rightarrow> string + bool" where
  "parse_verbose_command = parse_switch ''Usage: /verbose [on|off]''"

definition parse_reasoning_command :: "string list \<Rightarrow> bool \<Rightarrow> string + bool" where
  "parse_reasoning_command = parse_switch ''Usage: /reasoning [on|off]''"

definition parse_config_command :: "string list \<Rightarrow> string + config_command" where
  "parse_config_command args =
     (let usage = Inl ''Usage: /config | /config model <name> | /config endpoint <url> | /config log-level <level>''
      in case args of
           [] \<Rightarrow> Inr Show_Config
         | [k, v] \<Rightarrow>
             if trim v = [] then usage
             else if k = ''model'' then Inr (Set_Model (trim v))
             else if k = ''endpoint'' then Inr (Set_Endpoint (trim v))
             else if k = ''log-level'' \<or> k = ''loglevel'' \<or> k = ''log_level'' then Inr (Set_Log_Level (trim v))
             else usage
         | _ \<Rightarrow> usage)"

definition default_log_tail_lines :: nat where
  "default_log_tail_lines = 80"

definition max_log_tail_lines :: nat where
  "max_log_tail_lines = 400"

definition parse_logs_tail_lines :: "string list \<Rightarrow> string + nat" where
  "parse_logs_tail_lines args =
     (let usage = Inl ''Usage: /logs [n] (n must be a positive integer)''
      in case args of
           [] \<Rightarrow> Inr default_log_tail_lines
         | [raw] \<Rightarrow>
             (case parse_uint 64 (trim raw) of
                None \<Rightarrow> usage
              | Some n \<Rightarrow> if n = 0 then usage else Inr (min n max_log_tail_lines))
         | _ \<Rightarrow> Inl ''Usage: /logs [n]'')"

datatype approval_command_outcome = Resolved | Not_Found | Pending_Approvals nat | Registry_Unavailable

definition parse_approval_token :: "string list \<Rightarrow> string option" where
  "parse_approval_token args =
     (case args of [] \<Rightarrow> None | a # _ \<Rightarrow> if trim a = [] then None else Some (trim a))"

definition format_approval_reply :: "bool \<Rightarrow> string option \<Rightarrow> approval_command_outcome \<Rightarrow> string" where
  "format_approval_reply is_approve token outcome =
     (let cmd = (if is_approve then ''approve'' else ''deny'')
      in case outcome of
           Resolved \<Rightarrow>
             (case token of
                Some tok \<Rightarrow>
                  if is_approve then [CHR 0xE2, CHR 0x9C, CHR 0x85] @ '' Approved: '' @ tok
                  else [CHR 0xE2, CHR 0x9D, CHR 0x8C] @ '' Denied: '' @ tok
              | None \<Rightarrow> ''Approval registry not available.'')
         | Not_Found \<Rightarrow>
             (case token of
                Some tok \<Rightarrow> ''No pending approval found for token: '' @ tok
              | None \<Rightarrow> ''Approval registry not available.'')
         | Pending_Approvals n \<Rightarrow>
             if n = 0 then ''No pending approvals.''
             else show_nat n @ '' pending approval(s). Specify a token: /'' @ cmd @ '' <token>''
         | Registry_Unavailable \<Rightarrow> ''Approval registry not available.'')"

section \<open>Who may run the update\<close>

record telegram_user =
  tu_id :: nat
  tu_username :: "string option"
  tu_first_name :: string

definition eq_ignore_ascii_case :: "string \<Rightarrow> string \<Rightarrow> bool" where
  "eq_ignore_ascii_case a b \<longleftrightarrow> map ascii_lower a = map ascii_lower b"

definition is_update_authorized :: "string option \<Rightarrow> telegram_user option \<Rightarrow> bool" where
  "is_update_authorized env_list from \<longleftrightarrow>
     (let allowlist = (case env_list of None \<Rightarrow> [] | Some l \<Rightarrow> l)
      in trim allowlist \<noteq> []
         \<and> (case from of
              None \<Rightarrow> False
            | Some u \<Rightarrow>
                (let username = (case tu_username u of None \<Rightarrow> [] | Some n \<Rightarrow> n);
                     user_id = show_nat (tu_id u)
                 in list_ex
                      (\<lambda>entry. let normalized = dropWhile (\<lambda>c. c = CHR ''@'') entry
                               in eq_ignore_ascii_case normalized username \<or> normalized = user_id)
                      (filter (\<lambda>entry. entry \<noteq> []) (map trim (split_on CHR '','' allowlist))))))"

section \<open>The index of the marketplace\<close>

definition valid_sha256_hex :: "string \<Rightarrow> bool" where
  "valid_sha256_hex v \<longleftrightarrow> length v = 64 \<and> list_all is_ascii_hexdigit v"

text \<open>The string under the first key that holds one.\<close>

fun first_str :: "json \<Rightarrow> string list \<Rightarrow> string option" where
  "first_str j [] = None"
| "first_str j (k # ks) =
     (case Option.bind (json_get k j) json_as_str of None \<Rightarrow> first_str j ks | Some v \<Rightarrow> Some v)"

definition str_or :: "string \<Rightarrow> string option \<Rightarrow> string" where
  "str_or d v = (case v of None \<Rightarrow> d | Some s \<Rightarrow> s)"

definition metadata_from_index_entry :: "json \<Rightarrow> skill_metadata option" where
  "metadata_from_index_entry j =
     (case j of
        JObject _ \<Rightarrow>
          (case map_option trim (first_str j [''id'', ''slug'', ''name'']) of
             None \<Rightarrow> None
           | Some i \<Rightarrow>
               if i = [] then None
               else
                 (let url = str_or ''https://github.com/plures/pares-modulus'' (first_str j [''download_url'', ''url''])
                  in if \<not> prefix ''https://'' url then None
                     else
                       (case first_str j [''checksum'', ''sha256'', ''digest''] of
                          None \<Rightarrow> None
                        | Some digest \<Rightarrow>
                            if \<not> valid_sha256_hex digest then None
                            else Some \<lparr>md_id = i,
                              md_name = str_or i (first_str j [''name'']),
                              md_version = str_or ''0.1.0'' (first_str j [''version'']),
                              md_description = str_or ''No description provided.'' (first_str j [''description'']),
                              md_author = str_or ''pares-modulus'' (first_str j [''author'', ''publisher'']),
                              md_categories = [DomainSpecific ''plugin''],
                              md_checksum = digest, md_download_url = url, md_signature = None\<rparr>)))
      | _ \<Rightarrow> None)"

definition index_listed_error :: string where
  "index_listed_error = ''index JSON must be an array or object containing agents/plugins''"

fun first_array :: "json \<Rightarrow> string list \<Rightarrow> json list option" where
  "first_array j [] = None"
| "first_array j (k # ks) = (case json_get k j of Some (JArray items) \<Rightarrow> Some items | _ \<Rightarrow> first_array j ks)"

definition parse_modulus_index :: "json \<Rightarrow> string + skill_metadata list" where
  "parse_modulus_index payload =
     (case payload of
        JArray items \<Rightarrow> Inr (List.map_filter metadata_from_index_entry items)
      | JObject _ \<Rightarrow>
          (case first_array payload [''agents'', ''plugins'', ''items'', ''entries''] of
             Some items \<Rightarrow> Inr (List.map_filter metadata_from_index_entry items)
           | None \<Rightarrow> Inl index_listed_error)
      | _ \<Rightarrow> Inl index_listed_error)"

definition find_skill_by_id :: "skill_metadata list \<Rightarrow> string \<Rightarrow> skill_metadata option" where
  "find_skill_by_id skills i = find (\<lambda>s. eq_ignore_ascii_case (md_id s) i) skills"

section \<open>Messages and events\<close>

datatype media =
    Text_Media string
  | Photo "string list" "string option"
  | Document_Media string "string option" "string option"
  | Other_Media

record telegram_message =
  tm_id :: int
  tm_chat_id :: int
  tm_is_group :: bool
  tm_from :: "telegram_user option"
  tm_reply_from :: "telegram_user option"
  tm_media :: media

text \<open>\<open>msg.text()\<close>.\<close>

definition message_text :: "telegram_message \<Rightarrow> string option" where
  "message_text m = (case tm_media m of Text_Media t \<Rightarrow> Some t | _ \<Rightarrow> None)"

definition show_chat_id :: "int \<Rightarrow> string" where
  "show_chat_id n = (if n < 0 then ''-'' @ show_nat (nat (- n)) else show_nat (nat n))"

definition user_name :: "telegram_user \<Rightarrow> string" where
  "user_name u = (case tu_username u of None \<Rightarrow> tu_first_name u | Some n \<Rightarrow> n)"

definition message_to_event :: "string \<Rightarrow> telegram_message \<Rightarrow> event option" where
  "message_to_event fresh m =
     (let from = (case tm_from m of None \<Rightarrow> ''chat:'' @ show_chat_id (tm_chat_id m) | Some u \<Rightarrow> user_name u);
          event = (\<lambda>content. Some (Message fresh ''telegram'' from content));
          caption = (\<lambda>c. trim (case c of None \<Rightarrow> [] | Some t \<Rightarrow> t))
      in case tm_media m of
           Text_Media t \<Rightarrow> event t
         | Photo sizes c \<Rightarrow>
             (let file_id = (if sizes = [] then [] else last sizes)
              in if caption c = [] then event (''[photo file_id='' @ file_id @ '']'')
                 else event (''[photo file_id='' @ file_id @ ''] '' @ caption c))
         | Document_Media file_id name c \<Rightarrow>
             (let file_name = (case name of None \<Rightarrow> ''unknown'' | Some n \<Rightarrow> n)
              in if caption c = [] then event (''[document file_id='' @ file_id @ '' name='' @ file_name @ '']'')
                 else event (''[document file_id='' @ file_id @ '' name='' @ file_name @ ''] '' @ caption c))
         | Other_Media \<Rightarrow> None)"

section \<open>Groups\<close>

record group_message =
  gm_sender :: string
  gm_text :: string
  gm_timestamp :: int

record group_buffer =
  gb_capacity :: nat
  gb_buffers :: "(int, group_message list) hmap"

definition group_buffer_new :: "nat \<Rightarrow> group_buffer" where
  "group_buffer_new cap = \<lparr>gb_capacity = cap, gb_buffers = []\<rparr>"

definition group_push :: "int \<Rightarrow> group_message \<Rightarrow> group_buffer \<Rightarrow> group_buffer" where
  "group_push chat m g =
     (let buf = (case hm_get (gb_buffers g) chat of None \<Rightarrow> [] | Some b \<Rightarrow> b);
          buf = (if gb_capacity g \<le> length buf then drop 1 buf else buf)
      in g\<lparr>gb_buffers := hm_insert chat (buf @ [m]) (gb_buffers g)\<rparr>)"

definition context_heading :: string where
  "context_heading =
     ''[Group context '' @ [CHR 0xE2, CHR 0x80, CHR 0x94]
       @ '' these are recent messages for reference only. Only respond to the triggered message below, not to the context messages.]''"

definition direction_note :: "string option \<Rightarrow> group_message \<Rightarrow> string" where
  "direction_note me m =
     (case me of
        Some name \<Rightarrow> if contains_str (gm_text m) (''@'' @ name) then '' (directed at you)'' else []
      | None \<Rightarrow> [])"

definition format_context :: "int \<Rightarrow> string option \<Rightarrow> group_buffer \<Rightarrow> string option" where
  "format_context chat me g =
     (case hm_get (gb_buffers g) chat of
        None \<Rightarrow> None
      | Some buf \<Rightarrow>
          if buf = [] then None
          else Some (join [newline]
            (context_heading
             # map (\<lambda>m. ''['' @ gm_sender m @ '']'' @ direction_note me m @ '': '' @ gm_text m) buf)))"

definition format_context_simple :: "int \<Rightarrow> group_buffer \<Rightarrow> string option" where
  "format_context_simple chat g =
     (case hm_get (gb_buffers g) chat of
        None \<Rightarrow> None
      | Some buf \<Rightarrow>
          if buf = [] then None
          else Some (join [newline]
            (''Recent group messages:'' # map (\<lambda>m. ''['' @ gm_sender m @ '']: '' @ gm_text m) buf)))"

definition clear_chat :: "int \<Rightarrow> group_buffer \<Rightarrow> group_buffer" where
  "clear_chat chat g = g\<lparr>gb_buffers := hm_remove chat (gb_buffers g)\<rparr>"

record group_policy =
  gp_respond_on_mention :: bool
  gp_respond_on_reply :: bool
  gp_respond_on_prefix :: "string option"
  gp_passive_observe :: bool

definition should_respond_in_group :: "telegram_message \<Rightarrow> string \<Rightarrow> group_policy \<Rightarrow> bool" where
  "should_respond_in_group m me p \<longleftrightarrow>
     (let text = (case message_text m of None \<Rightarrow> [] | Some t \<Rightarrow> t)
      in (gp_respond_on_mention p \<and> contains_str text (''@'' @ me))
         \<or> (gp_respond_on_reply p
            \<and> (case tm_reply_from m of None \<Rightarrow> False | Some u \<Rightarrow> tu_username u = Some me))
         \<or> (case gp_respond_on_prefix p of None \<Rightarrow> False | Some pre \<Rightarrow> prefix pre text))"

text \<open>
  The gate for groups in the handler of messages: the event that goes on, if any, and the messages that
  were noted.
\<close>

definition group_gate ::
    "string \<Rightarrow> group_policy \<Rightarrow> int \<Rightarrow> telegram_message \<Rightarrow> event \<Rightarrow> group_buffer \<Rightarrow> event option \<times> group_buffer" where
  "group_gate me p ts m ev g =
     (if \<not> tm_is_group m then (Some ev, g)
      else
        (let sender = (case tm_from m of None \<Rightarrow> ''unknown'' | Some u \<Rightarrow> user_name u);
             text = (case message_text m of None \<Rightarrow> [] | Some t \<Rightarrow> t);
             g = (if gp_passive_observe p
                  then group_push (tm_chat_id m) \<lparr>gm_sender = sender, gm_text = text, gm_timestamp = ts\<rparr> g else g)
         in if \<not> should_respond_in_group m me p then (None, g)
            else
              (Some (if gp_passive_observe p
                     then (case (ev, format_context (tm_chat_id m) (Some me) g) of
                             (Message i ch from content, Some ctx) \<Rightarrow>
                               Message i ch from
                                 (ctx @ [newline, newline] @ ''---'' @ [newline]
                                   @ ''Triggered message (respond to THIS): '' @ content)
                           | _ \<Rightarrow> ev)
                     else ev), g)))"

section \<open>Escaping and cutting a reply\<close>

definition markdown_special :: string where
  "markdown_special = ''_*[]()~`>#+-=|{}.!''"

definition escape_markdown_v2 :: "string \<Rightarrow> string" where
  "escape_markdown_v2 text =
     concat (map (\<lambda>c. if c \<in> set markdown_special then [CHR 0x5C, c] else [c]) text)"

text \<open>\<open>str::replace\<close> of one ASCII character.\<close>

definition replace_char :: "char \<Rightarrow> string \<Rightarrow> string \<Rightarrow> string" where
  "replace_char c r s = concat (map (\<lambda>d. if d = c then r else [d]) s)"

definition escape_telegram_html :: "string \<Rightarrow> string" where
  "escape_telegram_html text =
     replace_char CHR ''>'' ''&gt;'' (replace_char CHR ''<'' ''&lt;'' (replace_char CHR ''&'' ''&amp;'' text))"

definition is_approval_prompt :: "string \<Rightarrow> bool" where
  "is_approval_prompt content \<longleftrightarrow>
     (let n = map ascii_lower content
      in contains_str n ''approval required'' \<or> contains_str n ''requires explicit human approval''
         \<or> contains_str n ''requires approval'')"

definition telegram_max_message_chars :: nat where
  "telegram_max_message_chars = 3900"

definition truncate_telegram_message :: "string \<Rightarrow> string" where
  "truncate_telegram_message content =
     (let cs = utf8_chars content
      in if telegram_max_message_chars < length cs
         then concat (take telegram_max_message_chars cs)
                @ [newline, CHR 0xE2, CHR 0x80, CHR 0xA6] @ ''(truncated)''
         else concat (take telegram_max_message_chars cs))"

text \<open>\<open>str::rfind\<close> of a string.\<close>

definition rfind_str :: "string \<Rightarrow> string \<Rightarrow> nat option" where
  "rfind_str hay needle = find (\<lambda>i. prefix needle (drop i hay)) (rev [0..<Suc (length hay)])"

definition split_point :: "nat \<Rightarrow> string \<Rightarrow> nat" where
  "split_point max_len window =
     (case rfind_str window [newline, newline] of
        Some i \<Rightarrow> i + 2
      | None \<Rightarrow>
          (case rfind_str window [newline] of
             Some i \<Rightarrow> i + 1
           | None \<Rightarrow> (case rfind_str window '' '' of Some i \<Rightarrow> i + 1 | None \<Rightarrow> max_len)))"

text \<open>
  The loop of \<open>chunk_message\<close>: outside \<open>None\<close> is a loop that does not end, inside it a panic of the slice.
\<close>

partial_function (option) split_loop :: "nat \<Rightarrow> string \<Rightarrow> string list option option" where
  "split_loop max_len remaining =
     (if remaining = [] then Some (Some [])
      else if length remaining \<le> max_len then Some (Some [remaining])
      else case slice_to remaining max_len of
             None \<Rightarrow> Some None
           | Some window \<Rightarrow>
               (case slice_to remaining (split_point max_len window) of
                  None \<Rightarrow> Some None
                | Some chunk \<Rightarrow>
                    Option.bind (split_loop max_len (drop (split_point max_len window) remaining))
                      (\<lambda>r. Some (map_option ((#) chunk) r))))"

definition chunk_message :: "nat \<Rightarrow> string \<Rightarrow> string list option option" where
  "chunk_message max_len text =
     (if length text \<le> max_len then Some (Some [text]) else split_loop max_len text)"

definition normalize_response :: "string \<Rightarrow> string \<Rightarrow> string" where
  "normalize_response blank_fallback content = (if trim content = [] then blank_fallback else content)"

section \<open>Cutting a text\<close>

lemma rfind_str_Some:
  assumes "rfind_str hay needle = Some i" and "needle \<noteq> []"
  shows "i + length needle \<le> length hay" and "take (length needle) (drop i hay) = needle"
proof -
  have p: "prefix needle (drop i hay)"
    using assms(1) by (auto simp: rfind_str_def find_Some_iff simp del: upt_Suc)
  then show "take (length needle) (drop i hay) = needle"
    by (auto simp: prefix_def)
  have "length needle \<le> length (drop i hay)"
    using p by (rule prefix_length_le)
  then show "i + length needle \<le> length hay"
    using assms(2) by (cases "i \<le> length hay") auto
qed

lemma split_point_bounds:
  assumes "length window = max_len" and "0 < max_len"
  shows "0 < split_point max_len window \<and> split_point max_len window \<le> max_len"
  using assms rfind_str_Some(1) [of window "[newline, newline]"] rfind_str_Some(1) [of window "[newline]"]
    rfind_str_Some(1) [of window "'' ''"]
  by (force simp: split_point_def split: option.splits)

lemma ascii_slice: "list_all ascii s \<Longrightarrow> n \<le> length s \<Longrightarrow> slice_to s n = Some (take n s)"
  using boundary_ascii [of n s] by (cases "n = length s") (auto simp: slice_to_def list_all_length is_char_boundary_def)

lemma split_loop_total:
  assumes "0 < max_len" and "list_all ascii s"
  shows "\<exists>cs. split_loop max_len s = Some (Some cs) \<and> concat cs = s
    \<and> list_all (\<lambda>c. c \<noteq> [] \<and> length c \<le> max_len) cs"
  using assms(2)
proof (induction "length s" arbitrary: s rule: less_induct)
  case less
  consider "s = []" | "s \<noteq> []" "length s \<le> max_len" | "max_len < length s" by fastforce
  then show ?case
  proof cases
    case 3
    let ?n = "split_point max_len (take max_len s)"
    have n: "0 < ?n" "?n \<le> max_len"
      using split_point_bounds [of "take max_len s" max_len] assms(1) 3 by simp_all
    have "list_all ascii (drop ?n s)"
      using less.prems by (auto simp: list_all_iff dest: in_set_dropD)
    moreover have "length (drop ?n s) < length s"
      using n 3 by simp
    ultimately obtain cs where cs: "split_loop max_len (drop ?n s) = Some (Some cs)" "concat cs = drop ?n s"
        "list_all (\<lambda>c. c \<noteq> [] \<and> length c \<le> max_len) cs"
      using less.hyps [of "drop ?n s"] by blast
    have "split_loop max_len s = Some (Some (take ?n s # cs))"
      using 3 n cs(1) ascii_slice [OF less.prems] by (subst split_loop.simps) auto
    then show ?thesis
      using cs n 3 by auto
  qed (simp_all add: split_loop.simps)
qed

text \<open>C21: Cutting an ASCII text returns; the chunks are the text, and none is longer than the limit.\<close>

theorem chunks_rejoin:
  assumes "0 < max_len" and "list_all ascii text"
  shows "\<exists>cs. chunk_message max_len text = Some (Some cs) \<and> concat cs = text \<and> list_all (\<lambda>c. length c \<le> max_len) cs"
proof (cases "length text \<le> max_len")
  case False
  then show ?thesis
    using split_loop_total [OF assms] by (auto simp: chunk_message_def list_all_iff)
qed (simp add: chunk_message_def)

lemma chunks_rejoin_witness:
  "\<exists>cs. chunk_message 6 ''one two three'' = Some (Some cs) \<and> concat cs = ''one two three'' \<and> list_all (\<lambda>c. length c \<le> 6) cs"
  by (rule chunks_rejoin) (simp_all add: ascii_def)

text \<open>A limit that falls inside a character panics, although there is a blank to cut at.\<close>

theorem chunk_inside_character_panics:
  "chunk_message 4 (''ab '' @ [CHR 0xC3, CHR 0xA9]) = Some None"
  by (simp add: chunk_message_def split_loop.simps slice_to_def is_char_boundary_def is_utf8_cont_def)

section \<open>Reading an escaped text\<close>

text \<open>
  How Telegram reads a text in MarkdownV2: a backslash takes the next character as it is; \<open>None\<close> when a
  special character stands without one, which begins an entity or is refused.
\<close>

fun markdown_read :: "string \<Rightarrow> string option" where
  "markdown_read [] = Some []"
| "markdown_read [c] = (if c \<in> set markdown_special then None else Some [c])"
| "markdown_read (c # d # s) =
     (if c = CHR 0x5C then map_option ((#) d) (markdown_read s)
      else if c \<in> set markdown_special then None else map_option ((#) c) (markdown_read (d # s)))"

lemma backslash_not_special: "CHR 0x5C \<notin> set markdown_special"
  by (simp add: markdown_special_def)

lemma markdown_read_plain: "c \<notin> set markdown_special \<Longrightarrow> c \<noteq> CHR 0x5C \<Longrightarrow> markdown_read (c # s) = map_option ((#) c) (markdown_read s)"
  by (cases s) auto

text \<open>A text without backslashes is read back from its escaped form.\<close>

theorem markdown_escape_reads_back:
  assumes "CHR 0x5C \<notin> set text"
  shows "markdown_read (escape_markdown_v2 text) = Some text"
  using assms
proof (induction "text")
  case (Cons c cs)
  then show ?case
    using markdown_read_plain [of c "escape_markdown_v2 cs"]
    by (cases "c \<in> set markdown_special") (auto simp: escape_markdown_v2_def)
qed (simp add: escape_markdown_v2_def)

lemma markdown_escape_reads_back_witness:
  "markdown_read (escape_markdown_v2 ''a*b'') = Some ''a*b''"
  by (rule markdown_escape_reads_back) simp

text \<open>A backslash before a special character takes its escape away.\<close>

theorem backslash_defeats_escape:
  "markdown_read (escape_markdown_v2 [CHR 0x5C, CHR ''*'', CHR ''a'']) = None"
  by (simp add: escape_markdown_v2_def markdown_special_def)

section \<open>The update and users without a name\<close>

text \<open>An entry of at signs alone lets every user update who has no user name.\<close>

theorem at_sign_authorizes_nameless:
  assumes "tu_username u = None" and "n \<noteq> 0"
  shows "is_update_authorized (Some (replicate n CHR ''@'')) (Some u)"
proof -
  have 1: "is_graph CHR ''@''"
    by (simp add: is_graph_def)
  have t: "trim (replicate n CHR ''@'') = replicate n CHR ''@''"
    using assms(2) 1 by (intro trim_graph) (simp_all add: hd_replicate last_replicate)
  have "dropWhile (\<lambda>c. c = CHR ''@'') (replicate n CHR ''@'') = []"
    by simp
  then show ?thesis
    using assms t by (simp add: is_update_authorized_def split_on_no_sep eq_ignore_ascii_case_def)
qed

section \<open>What is kept of a group\<close>

definition keep_last :: "nat \<Rightarrow> 'a list \<Rightarrow> 'a list" where
  "keep_last n xs = drop (length xs - n) xs"

definition group_observed :: "int \<Rightarrow> group_buffer \<Rightarrow> group_message list" where
  "group_observed chat g = (case hm_get (gb_buffers g) chat of None \<Rightarrow> [] | Some b \<Rightarrow> b)"

lemma observed_push:
  "group_observed chat (group_push chat' m g) =
     (if chat' = chat then keep_last (max 1 (gb_capacity g)) (group_observed chat g @ [m]) else group_observed chat g)"
  if "length (group_observed chat g) \<le> max 1 (gb_capacity g)"
proof -
  let ?b = "group_observed chat g"
  have "(if gb_capacity g \<le> length ?b then drop 1 ?b else ?b) @ [m] = keep_last (max 1 (gb_capacity g)) (?b @ [m])"
    using that by (cases "?b") (auto simp: keep_last_def max_def Suc_diff_le not_le le_Suc_eq)
  then show ?thesis
    by (auto simp: group_observed_def group_push_def Let_def hm_simps split: option.splits)
qed

lemma keep_last_snoc: "0 < n \<Longrightarrow> keep_last n (keep_last n xs @ [x]) = keep_last n (xs @ [x])"
  by (cases "length xs \<le> n") (auto simp: keep_last_def Suc_diff_le)

text \<open>Of every group the buffer keeps the newest messages, as many as its capacity and at least one.\<close>

theorem group_keeps_newest:
  "group_observed chat (fold (\<lambda>(c, m). group_push c m) ms (group_buffer_new cap))
     = keep_last (max 1 cap) (map snd (filter (\<lambda>(c, m). c = chat) ms))"
proof (induction ms rule: rev_induct)
  case Nil
  then show ?case by (simp add: group_observed_def group_buffer_new_def hm_simps keep_last_def)
next
  case (snoc x ms)
  let ?g = "fold (\<lambda>(c, m). group_push c m) ms (group_buffer_new cap)"
  have cap: "gb_capacity ?g = cap"
    by (induction ms rule: rev_induct) (auto simp: group_buffer_new_def group_push_def Let_def)
  have "length (group_observed chat ?g) \<le> max 1 (gb_capacity ?g)"
    using snoc cap by (simp add: keep_last_def)
  then show ?case
    using snoc cap observed_push [of chat ?g "fst x" "snd x"]
    by (cases x) (auto simp: keep_last_snoc)
qed

section \<open>What an index offers\<close>

lemma index_entry_valid:
  assumes "metadata_from_index_entry j = Some md"
  shows "md_id md \<noteq> [] \<and> is_valid_sha256_hex (md_checksum md) \<and> prefix ''https://'' (md_download_url md) \<and> md_categories md \<noteq> []"
  using assms
  by (auto simp: metadata_from_index_entry_def Let_def valid_sha256_hex_def is_valid_sha256_hex_def
      simp del: first_str.simps split: json.split_asm option.split_asm if_split_asm)

text \<open>Whatever an index contains, each skill it offers has an id, a SHA-256 checksum and an encrypted address.\<close>

theorem index_offers_checked:
  assumes "parse_modulus_index j = Inr skills" and "md \<in> set skills"
  shows "md_id md \<noteq> [] \<and> is_valid_sha256_hex (md_checksum md) \<and> prefix ''https://'' (md_download_url md)"
proof -
  have "\<exists>items. skills = List.map_filter metadata_from_index_entry items"
    using assms(1) by (auto simp: parse_modulus_index_def simp del: first_array.simps split: json.split_asm option.split_asm)
  then obtain x where "metadata_from_index_entry x = Some md"
    using assms(2) by (auto simp: map_filter_def)
  then show ?thesis
    by (simp add: index_entry_valid)
qed

lemma at_sign_authorizes_nameless_witness:
  "is_update_authorized (Some ''@'') (Some \<lparr>tu_id = 5, tu_username = None, tu_first_name = ''Eve''\<rparr>)"
  using at_sign_authorizes_nameless [of "\<lparr>tu_id = 5, tu_username = None, tu_first_name = ''Eve''\<rparr>" 1] by simp

definition example_index :: json where
  "example_index = JArray [JObject [(''id'', JString ''a''), (''checksum'', JString (replicate 64 CHR ''a''))]]"

lemma index_offers_checked_witness:
  "\<exists>md. parse_modulus_index example_index = Inr [md] \<and> md_id md \<noteq> [] \<and> is_valid_sha256_hex (md_checksum md)
    \<and> prefix ''https://'' (md_download_url md)"
proof -
  have "trim ''a'' = ''a''"
    by (rule trim_graph) (simp_all add: is_graph_def)
  moreover have "valid_sha256_hex (replicate 64 CHR ''a'')"
    by (simp add: valid_sha256_hex_def is_ascii_hexdigit_def list_all_iff)
  ultimately obtain md where "parse_modulus_index example_index = Inr [md]"
    by (simp add: parse_modulus_index_def example_index_def map_filter_def metadata_from_index_entry_def str_or_def)
  then show ?thesis
    using index_offers_checked [of example_index "[md]" md] by auto
qed

end
