(* ===== verification/Telegram_Turns.thy ===== *)
theory Telegram_Turns
  imports Telegram Effects
begin

text \<open>
  The turns of the Telegram channel: the registry of live turns (\<open>crates/channels/src/active_turns.rs\<close>), the
  buttons under a message (\<open>turn_ux.rs\<close>), the delivery of a reply, the end of a turn and the answer to a
  button (\<open>telegram.rs\<close>).

  The client of Telegram, the rendering of a reply, the agent, the registry of approvals, the pool of models
  and the event spine are parameters that act on a world.  The texts shown while a turn runs are not
  modelled.
\<close>

section \<open>Buttons\<close>

datatype control_action = Stop string | Approve string | Reject string

fun control_request_id :: "control_action \<Rightarrow> string" where
  "control_request_id (Stop r) = r"
| "control_request_id (Approve r) = r"
| "control_request_id (Reject r) = r"

definition parse_control_callback :: "string \<Rightarrow> control_action option" where
  "parse_control_callback data =
     (case split_once CHR '':'' data of
        None \<Rightarrow> None
      | Some (pre, rest) \<Rightarrow>
          if pre = ''stop'' then (if rest = [] then None else Some (Stop rest))
          else if pre = ''approval'' then
            (case split_once CHR '':'' rest of
               None \<Rightarrow> None
             | Some (decision, rid) \<Rightarrow>
                 if rid = [] then None
                 else if decision = ''yes'' then Some (Approve rid)
                 else if decision = ''no'' then Some (Reject rid)
                 else None)
          else None)"

definition stop_callback_data :: "string \<Rightarrow> string" where
  "stop_callback_data rid = ''stop:'' @ rid"

type_synonym keyboard = "(string \<times> string) list list"

definition approval_keyboard :: "string \<Rightarrow> keyboard" where
  "approval_keyboard rid =
     [[([CHR 0xE2, CHR 0x9C, CHR 0x85] @ '' Yes'', ''approval:yes:'' @ rid),
       ([CHR 0xE2, CHR 0x9D, CHR 0x8C] @ '' No'', ''approval:no:'' @ rid)]]"

definition spinner_frames :: "string list" where
  "spinner_frames =
     [[CHR 0xE2, CHR 0xA0, CHR 0x8B], [CHR 0xE2, CHR 0xA0, CHR 0x99], [CHR 0xE2, CHR 0xA0, CHR 0xB9],
      [CHR 0xE2, CHR 0xA0, CHR 0xB8]]"

definition render_turn_status :: "string \<Rightarrow> string option \<Rightarrow> nat \<Rightarrow> string option \<Rightarrow> string" where
  "render_turn_status phase running frame streamed =
     (let dots = [CHR 0xE2, CHR 0x80, CHR 0xA6]
      in case streamed of
           Some answer \<Rightarrow> answer @ [CHR 0xE2, CHR 0x97, CHR 0x8F]
         | None \<Rightarrow>
             (let spin = spinner_frames ! (frame mod length spinner_frames)
              in case running of
                   Some tool \<Rightarrow>
                     if tool \<noteq> [] then spin @ '' '' @ phase @ dots @ '' '' @ [CHR 0xF0, CHR 0x9F, CHR 0x94, CHR 0xA7] @ '' '' @ tool
                     else spin @ '' '' @ phase @ dots
                 | None \<Rightarrow> spin @ '' '' @ phase @ dots))"

section \<open>Live turns\<close>

text \<open>
  A handle shares the queue of its steering channel and its cancellation token; both are named by the
  number of the turn.
\<close>

record turn_handle =
  th_turn :: nat
  th_request_id :: string

record active_turns =
  at_live :: "(int, turn_handle) hmap"
  at_queues :: "(nat, string list) hmap"
  at_cancelled :: "nat list"
  at_next :: nat

datatype turn_route = Steer string | New_Turn

definition active_turns_new :: active_turns where
  "active_turns_new = \<lparr>at_live = [], at_queues = [], at_cancelled = [], at_next = 0\<rparr>"

definition at_register :: "int \<Rightarrow> string \<Rightarrow> active_turns \<Rightarrow> nat \<times> active_turns" where
  "at_register chat rid s =
     (let k = at_next s
      in (k, s\<lparr>at_live := hm_insert chat \<lparr>th_turn = k, th_request_id = rid\<rparr> (at_live s),
               at_queues := hm_insert k [] (at_queues s), at_next := k + 1\<rparr>))"

definition at_get :: "int \<Rightarrow> active_turns \<Rightarrow> turn_handle option" where
  "at_get chat s = hm_get (at_live s) chat"

definition at_remove :: "int \<Rightarrow> active_turns \<Rightarrow> active_turns" where
  "at_remove chat s = s\<lparr>at_live := hm_remove chat (at_live s)\<rparr>"

definition at_len :: "active_turns \<Rightarrow> nat" where
  "at_len s = length (at_live s)"

definition at_is_empty :: "active_turns \<Rightarrow> bool" where
  "at_is_empty s \<longleftrightarrow> at_live s = []"

definition at_route :: "int \<Rightarrow> active_turns \<Rightarrow> turn_route" where
  "at_route chat s = (case at_get chat s of Some h \<Rightarrow> Steer (th_request_id h) | None \<Rightarrow> New_Turn)"

definition pending_steering :: "nat \<Rightarrow> active_turns \<Rightarrow> string list" where
  "pending_steering k s = (case hm_get (at_queues s) k of None \<Rightarrow> [] | Some q \<Rightarrow> q)"

text \<open>\<open>SteeringTx::send\<close> and \<open>SteeringRx::drain\<close>.\<close>

definition steering_send :: "nat \<Rightarrow> string \<Rightarrow> active_turns \<Rightarrow> active_turns" where
  "steering_send k t s = s\<lparr>at_queues := hm_insert k (pending_steering k s @ [t]) (at_queues s)\<rparr>"

definition steering_drain :: "nat \<Rightarrow> active_turns \<Rightarrow> string list \<times> active_turns" where
  "steering_drain k s = (pending_steering k s, s\<lparr>at_queues := hm_insert k [] (at_queues s)\<rparr>)"

definition at_steer :: "int \<Rightarrow> string \<Rightarrow> active_turns \<Rightarrow> bool \<times> active_turns" where
  "at_steer chat t s =
     (case at_get chat s of None \<Rightarrow> (False, s) | Some h \<Rightarrow> (True, steering_send (th_turn h) t s))"

definition at_cancel :: "int \<Rightarrow> string \<Rightarrow> active_turns \<Rightarrow> bool \<times> active_turns" where
  "at_cancel chat rid s =
     (case at_get chat s of
        None \<Rightarrow> (False, s)
      | Some h \<Rightarrow>
          if th_request_id h = rid then (True, s\<lparr>at_cancelled := th_turn h # at_cancelled s\<rparr>) else (False, s))"

section \<open>Delivery\<close>

record outgoing =
  og_text :: string
  og_html :: bool
  og_reply_to :: "int option"
  og_markup :: "keyboard option"

record ('w, 'e) telegram_bot =
  bot_send :: "int \<Rightarrow> outgoing \<Rightarrow> ('w, 'e, int) effect"
  bot_edit :: "int \<Rightarrow> int \<Rightarrow> outgoing \<Rightarrow> ('w, 'e, unit) effect"
  bot_delete :: "int \<Rightarrow> int \<Rightarrow> ('w, 'e, unit) effect"
  bot_acknowledge :: "int \<Rightarrow> int \<Rightarrow> 'w \<Rightarrow> 'w"
  bot_render :: "string \<Rightarrow> string list \<times> string list"

text \<open>What the event spine is told; without a spine nothing.\<close>

record ('w, 'e) spine =
  sp_delivered :: "int \<Rightarrow> int \<Rightarrow> string \<Rightarrow> 'w \<Rightarrow> 'w"
  sp_failed :: "int \<Rightarrow> 'e \<Rightarrow> 'w \<Rightarrow> 'w"
  sp_response :: "int \<Rightarrow> string \<Rightarrow> 'w \<Rightarrow> 'w"

text \<open>Sending messages one after the other, up to the first that fails: the ids of those that were sent.\<close>

fun send_all :: "('w, 'e) telegram_bot \<Rightarrow> int \<Rightarrow> outgoing list \<Rightarrow> 'w \<Rightarrow> (int list \<times> 'e option) \<times> 'w" where
  "send_all b chat [] w = (([], None), w)"
| "send_all b chat (m # ms) w =
     (case bot_send b chat m w of
        (Inl e, w') \<Rightarrow> (([], Some e), w')
      | (Inr mid, w') \<Rightarrow> (case send_all b chat ms w' of ((mids, r), w'') \<Rightarrow> ((mid # mids, r), w'')))"

text \<open>The chunks of a reply: the first answers the message, the last carries the keyboard.\<close>

definition reply_chunks :: "bool \<Rightarrow> int \<Rightarrow> keyboard option \<Rightarrow> string list \<Rightarrow> outgoing list" where
  "reply_chunks html mid markup cs =
     map (\<lambda>(i, c). \<lparr>og_text = c, og_html = html, og_reply_to = (if i = 0 then Some mid else None),
        og_markup = (if i = length cs - 1 then markup else None)\<rparr>) (List.enumerate 0 cs)"

definition send_html_reply ::
    "('w, 'e) telegram_bot \<Rightarrow> telegram_message \<Rightarrow> string \<Rightarrow> keyboard option \<Rightarrow> ('w, 'e) spine option
       \<Rightarrow> ('w, 'e, string \<times> int list) effect" where
  "send_html_reply b m content markup sp w =
     (case bot_render b content of (htmls, plains) \<Rightarrow>
        (case send_all b (tm_chat_id m) (reply_chunks True (tm_id m) markup htmls) w of
           ((mids, None), w1) \<Rightarrow> (Inr (''html'', mids), w1)
         | ((_, Some _), w1) \<Rightarrow>
             (case send_all b (tm_chat_id m) (reply_chunks False (tm_id m) markup plains) w1 of
                ((mids, None), w2) \<Rightarrow> (Inr (''plain'', mids), w2)
              | ((_, Some e), w2) \<Rightarrow>
                  (Inl e, case sp of None \<Rightarrow> w2 | Some s \<Rightarrow> sp_failed s (tm_chat_id m) e w2))))"

text \<open>The chunks that follow an edited placeholder.\<close>

definition extra_chunks :: "bool \<Rightarrow> keyboard option \<Rightarrow> string list \<Rightarrow> outgoing list" where
  "extra_chunks html markup cs =
     map (\<lambda>(i, c). \<lparr>og_text = c, og_html = html, og_reply_to = None,
        og_markup = (if i + 2 = length cs then markup else None)\<rparr>) (List.enumerate 0 (drop 1 cs))"

definition first_chunk :: "bool \<Rightarrow> keyboard option \<Rightarrow> string list \<Rightarrow> outgoing" where
  "first_chunk html markup cs =
     \<lparr>og_text = hd cs, og_html = html, og_reply_to = None, og_markup = (if length cs = 1 then markup else None)\<rparr>"

definition edit_placeholder_with_response ::
    "('w, 'e) telegram_bot \<Rightarrow> int \<Rightarrow> int \<Rightarrow> string \<Rightarrow> keyboard option \<Rightarrow> 'w \<Rightarrow> (string \<times> int list) option \<times> 'w" where
  "edit_placeholder_with_response b chat pid content markup w =
     (case bot_render b content of (htmls, plains) \<Rightarrow>
        if htmls = [] then (None, w)
        else
          (case bot_edit b chat pid (first_chunk True markup htmls) w of
             (Inr _, w1) \<Rightarrow>
               (case send_all b chat (extra_chunks True markup htmls) w1 of
                  ((mids, _), w2) \<Rightarrow> (Some (''html'', pid # mids), w2))
           | (Inl _, w1) \<Rightarrow>
               if plains = [] then (None, w1)
               else
                 (case bot_edit b chat pid (first_chunk False markup plains) w1 of
                    (Inr _, w2) \<Rightarrow>
                      (case send_all b chat (extra_chunks False markup plains) w2 of
                         ((mids, _), w3) \<Rightarrow> (Some (''plain'', pid # mids), w3))
                  | (Inl _, w2) \<Rightarrow> (None, w2))))"

definition report_delivered :: "('w, 'e) spine option \<Rightarrow> int \<Rightarrow> string \<Rightarrow> int list \<Rightarrow> 'w \<Rightarrow> 'w" where
  "report_delivered sp chat fmt mids w =
     (case sp of None \<Rightarrow> w | Some s \<Rightarrow> fold (\<lambda>mid. sp_delivered s chat mid fmt) mids w)"

definition deliver_progressive_reply ::
    "('w, 'e) telegram_bot \<Rightarrow> telegram_message \<Rightarrow> int option \<Rightarrow> string \<Rightarrow> keyboard option \<Rightarrow> ('w, 'e) spine option
       \<Rightarrow> bool \<Rightarrow> 'w \<Rightarrow> 'w" where
  "deliver_progressive_reply b m pid content markup sp acknowledge w =
     (let chat = tm_chat_id m;
          ack = (\<lambda>w. if acknowledge then bot_acknowledge b chat (tm_id m) w else w);
          (edited, w) = (case pid of
              None \<Rightarrow> (None, w)
            | Some p \<Rightarrow> edit_placeholder_with_response b chat p content markup w)
      in case edited of
           Some (fmt, mids) \<Rightarrow> ack (report_delivered sp chat fmt mids w)
         | None \<Rightarrow>
             (let w = (case pid of None \<Rightarrow> w | Some p \<Rightarrow> snd (bot_delete b chat p w))
              in case send_html_reply b m content markup sp w of
                   (Inr (fmt, mids), w) \<Rightarrow> ack (report_delivered sp chat fmt mids w)
                 | (Inl _, w) \<Rightarrow> w))"

definition send_reply_with_fallback ::
    "('w, 'e) telegram_bot \<Rightarrow> telegram_message \<Rightarrow> string \<Rightarrow> keyboard option \<Rightarrow> ('w, 'e) spine option \<Rightarrow> 'w \<Rightarrow> 'w" where
  "send_reply_with_fallback b m content markup sp w =
     (case send_html_reply b m content markup sp w of
        (Inr (fmt, mids), w) \<Rightarrow> report_delivered sp (tm_chat_id m) fmt mids w
      | (Inl _, w) \<Rightarrow> w)"

section \<open>The end of a turn\<close>

datatype turn_outcome = Responded "event option" | Timed_Out | Stop_Pressed

record ('w, 'e) telegram_env =
  te_bot :: "('w, 'e) telegram_bot"
  te_spine :: "('w, 'e) spine option"
  te_on_event :: "event \<Rightarrow> 'w \<Rightarrow> event option \<times> 'w"
  te_blank_response :: string
  te_no_response :: string
  te_timeout :: string

text \<open>What was steered into the turn is answered as a message of its own.\<close>

definition follow_up ::
    "('w, 'e) telegram_env \<Rightarrow> telegram_message \<Rightarrow> string \<Rightarrow> string list \<Rightarrow> 'w \<Rightarrow> 'w" where
  "follow_up env m fresh steered w =
     (if steered = [] then w
      else
        (case message_to_event fresh m of
           Some (Message i ch from content) \<Rightarrow>
             snd (te_on_event env (Message i ch from (join [newline] steered)) w)
         | Some ev \<Rightarrow> snd (te_on_event env ev w)
         | None \<Rightarrow> w))"

definition answer_turn ::
    "('w, 'e) telegram_env \<Rightarrow> telegram_message \<Rightarrow> int option \<Rightarrow> event option \<Rightarrow> 'w \<Rightarrow> 'w" where
  "answer_turn env m pid r w =
     (case r of
        Some (Model_Response rid model content) \<Rightarrow>
          (let content = normalize_response (te_blank_response env) content;
               w = (case te_spine env of None \<Rightarrow> w | Some s \<Rightarrow> sp_response s (tm_chat_id m) content w);
               markup = (if is_approval_prompt content then Some (approval_keyboard rid) else None)
           in deliver_progressive_reply (te_bot env) m pid content markup (te_spine env) True w)
      | _ \<Rightarrow> deliver_progressive_reply (te_bot env) m pid (te_no_response env) None (te_spine env) False w)"

definition stopped_message :: outgoing where
  "stopped_message =
     \<lparr>og_text = [CHR 0xF0, CHR 0x9F, CHR 0x9B, CHR 0x91] @ '' Stopped.'', og_html = False, og_reply_to = None,
      og_markup = None\<rparr>"

definition finish_turn ::
    "('w, 'e) telegram_env \<Rightarrow> telegram_message \<Rightarrow> string \<Rightarrow> int option \<Rightarrow> nat \<Rightarrow> turn_outcome
       \<Rightarrow> active_turns \<times> 'w \<Rightarrow> active_turns \<times> 'w" where
  "finish_turn env m fresh pid k outcome s =
     (case s of (turns, w) \<Rightarrow>
        (case outcome of
           Stop_Pressed \<Rightarrow>
             (at_remove (tm_chat_id m) turns,
              case pid of None \<Rightarrow> w | Some p \<Rightarrow> snd (bot_edit (te_bot env) (tm_chat_id m) p stopped_message w))
         | _ \<Rightarrow>
             (case steering_drain k (at_remove (tm_chat_id m) turns) of
                (steered, turns) \<Rightarrow>
                  (let w = follow_up env m fresh steered w
                   in (turns,
                       case outcome of
                         Responded r \<Rightarrow> answer_turn env m pid r w
                       | _ \<Rightarrow> deliver_progressive_reply (te_bot env) m pid (te_timeout env) None (te_spine env) False w)))))"

section \<open>A pressed button\<close>

record 'w model_pool =
  mp_primary :: "'w \<Rightarrow> string"
  mp_select :: "string \<Rightarrow> 'w \<Rightarrow> (string + string) \<times> 'w"

record ('w, 'e) callback_env =
  ce_env :: "('w, 'e) telegram_env"
  ce_pool :: "'w model_pool option"
  ce_resolve :: "(string \<Rightarrow> bool \<Rightarrow> 'w \<Rightarrow> bool \<times> 'w) option"

record callback_query =
  cq_data :: "string option"
  cq_from :: int
  cq_message :: "picker_location option"

definition html_message :: "string \<Rightarrow> keyboard \<Rightarrow> outgoing" where
  "html_message t k = \<lparr>og_text = t, og_html = True, og_reply_to = None, og_markup = Some k\<rparr>"

definition plain_message :: "string \<Rightarrow> keyboard \<Rightarrow> outgoing" where
  "plain_message t k = \<lparr>og_text = t, og_html = False, og_reply_to = None, og_markup = Some k\<rparr>"

definition edit_shown ::
    "('w, 'e) callback_env \<Rightarrow> callback_query \<Rightarrow> outgoing \<Rightarrow> 'w \<Rightarrow> 'w" where
  "edit_shown env q m w =
     (case cq_message q of
        None \<Rightarrow> w
      | Some l \<Rightarrow> snd (bot_edit (te_bot (ce_env env)) (pl_chat_id l) (pl_message_id l) m w))"

text \<open>What the picker made of the click: the toast and the message that replaces the picker.\<close>

definition answer_picker ::
    "('w, 'e) callback_env \<Rightarrow> callback_query \<Rightarrow> picker_outcome option \<Rightarrow> 'w \<Rightarrow> string \<times> 'w" where
  "answer_picker env q outcome w =
     (case outcome of
        Some (Rendered p) \<Rightarrow> (''Page updated'', edit_shown env q (html_message (rp_text p) (rp_rows p)) w)
      | Some (Selected e) \<Rightarrow>
          (let ((answer, ack), w) =
               (case ce_pool env of
                  None \<Rightarrow>
                    (([CHR 0xE2, CHR 0x9A, CHR 0xA0, CHR 0xEF, CHR 0xB8, CHR 0x8F] @ '' Model control is unavailable.'',
                      ''Model control unavailable''), w)
                | Some pool \<Rightarrow>
                    (case mp_select pool (ce_key e) w of
                       (Inr key, w) \<Rightarrow>
                         (([CHR 0xE2, CHR 0x9C, CHR 0x85] @ '' <b>Selected model</b>'' @ [newline] @ ''<code>''
                             @ escape_telegram_html key @ ''</code>'', ''Model selected''), w)
                     | (Inl err, w) \<Rightarrow>
                         (([CHR 0xE2, CHR 0x9A, CHR 0xA0, CHR 0xEF, CHR 0xB8, CHR 0x8F] @ '' Unable to select model: ''
                             @ escape_telegram_html err, ''Selection failed''), w)))
           in (ack, edit_shown env q (html_message answer []) w))
      | Some Cancelled \<Rightarrow> (''Cancelled'', edit_shown env q (plain_message ''Model selection cancelled.'' []) w)
      | _ \<Rightarrow> (''This picker is no longer active'', w))"

definition approval_decision :: "bool \<Rightarrow> string" where
  "approval_decision approved =
     ''[approval decision]: the pending approval request was '' @ (if approved then ''approved'' else ''rejected'')
       @ '' by the user''"

text \<open>
  A decision wakes the tool that waits for it, or goes to the turn that runs, or becomes a message.
\<close>

definition decide_approval ::
    "('w, 'e) callback_env \<Rightarrow> int \<Rightarrow> string \<Rightarrow> bool \<Rightarrow> active_turns \<times> 'w \<Rightarrow> active_turns \<times> 'w" where
  "decide_approval env chat rid approved s =
     (case s of (turns, w) \<Rightarrow>
        (let (resolved, w) = (case ce_resolve env of None \<Rightarrow> (False, w) | Some f \<Rightarrow> f rid approved w)
         in if resolved then (turns, w)
            else
              (case at_steer chat (approval_decision approved) turns of
                 (True, turns) \<Rightarrow> (turns, w)
               | (False, turns) \<Rightarrow>
                   (case te_on_event (ce_env env)
                       (Message (show_chat_id chat) ''telegram'' ''user'' (approval_decision approved)) w of
                      (Some (Model_Response _ _ content), w) \<Rightarrow>
                        (turns, snd (bot_send (te_bot (ce_env env)) chat
                           \<lparr>og_text = content, og_html = False, og_reply_to = None, og_markup = None\<rparr> w))
                    | (_, w) \<Rightarrow> (turns, w)))))"

definition handle_callback ::
    "('w, 'e) callback_env \<Rightarrow> int \<Rightarrow> callback_query \<Rightarrow> picker_store \<times> active_turns \<times> 'w
       \<Rightarrow> string \<times> picker_store \<times> active_turns \<times> 'w" where
  "handle_callback env now q s =
     (case s of (pickers, turns, w) \<Rightarrow>
        (let data = (case cq_data q of None \<Rightarrow> [] | Some d \<Rightarrow> d)
         in case parse_picker_callback data of
              Some act \<Rightarrow>
                (case picker_handle act (cq_from q) (cq_message q) (map_option (\<lambda>p. mp_primary p w) (ce_pool env)) now pickers of
                   (outcome, pickers) \<Rightarrow>
                     (case answer_picker env q outcome w of (ack, w) \<Rightarrow> (ack, pickers, turns, w)))
            | None \<Rightarrow>
                (case (parse_control_callback data, map_option pl_chat_id (cq_message q)) of
                   (Some (Stop rid), Some chat) \<Rightarrow>
                     (case at_cancel chat rid turns of
                        (True, turns) \<Rightarrow> (''Stopping'' @ [CHR 0xE2, CHR 0x80, CHR 0xA6], pickers, turns, w)
                      | (False, turns) \<Rightarrow> (''No active turn'', pickers, turns, w))
                 | (Some (Approve rid), Some chat) \<Rightarrow>
                     (''Approved'', pickers, decide_approval env chat rid True (turns, w))
                 | (Some (Reject rid), Some chat) \<Rightarrow>
                     (''Rejected'', pickers, decide_approval env chat rid False (turns, w))
                 | _ \<Rightarrow> ([], pickers, turns, w))))"

section \<open>Turns and steering as a machine\<close>

text \<open>
  The sections of the handlers of messages and buttons between two points where another may run.  A message
  for a live turn first finds its handle and then pushes its text.  Beside the registry the machine keeps
  which turns wait for their answer, which have left the registry but have not taken_steering their queue, the
  texts that are about to be pushed, what was accepted, what was answered as a follow-up, and what was
  pushed after the queue was taken_steering.
\<close>

record turn_machine =
  tn_turns :: active_turns
  tn_waiting :: "(nat \<times> int) list"
  tn_draining :: "nat list"
  tn_held :: "(nat \<times> string) list"
  tn_accepted :: "(nat \<times> string) list"
  tn_followed :: "(nat \<times> string list) list"
  tn_late :: "(nat \<times> string) list"

definition machine_new :: turn_machine where
  "machine_new = \<lparr>tn_turns = active_turns_new, tn_waiting = [], tn_draining = [], tn_held = [], tn_accepted = [],
     tn_followed = [], tn_late = []\<rparr>"

definition taken_steering :: "turn_machine \<Rightarrow> nat \<Rightarrow> bool" where
  "taken_steering m k \<longleftrightarrow> k \<in> fst ` set (tn_followed m)"

inductive turn_step :: "turn_machine \<Rightarrow> turn_machine \<Rightarrow> bool" where
  Find: "at_get chat (tn_turns m) = Some h \<Longrightarrow> turn_step m (m\<lparr>tn_held := tn_held m @ [(th_turn h, t)]\<rparr>)"
| Push: "(k, t) \<in> set (tn_held m) \<Longrightarrow>
    turn_step m (m\<lparr>tn_held := remove1 (k, t) (tn_held m), tn_turns := steering_send k t (tn_turns m),
      tn_accepted := tn_accepted m @ [(k, t)],
      tn_late := (if taken_steering m k then tn_late m @ [(k, t)] else tn_late m)\<rparr>)"
| Register: "at_register chat rid (tn_turns m) = (k, s) \<Longrightarrow>
    turn_step m (m\<lparr>tn_turns := s, tn_waiting := tn_waiting m @ [(k, chat)]\<rparr>)"
| Answer: "(k, chat) \<in> set (tn_waiting m) \<Longrightarrow>
    turn_step m (m\<lparr>tn_turns := at_remove chat (tn_turns m), tn_waiting := remove1 (k, chat) (tn_waiting m),
      tn_draining := k # tn_draining m\<rparr>)"
| Drain: "k \<in> set (tn_draining m) \<Longrightarrow> steering_drain k (tn_turns m) = (ts, s) \<Longrightarrow>
    turn_step m (m\<lparr>tn_turns := s, tn_draining := remove1 k (tn_draining m), tn_followed := tn_followed m @ [(k, ts)]\<rparr>)"
| Press_Stop: "at_cancel chat rid (tn_turns m) = (True, s) \<Longrightarrow> turn_step m (m\<lparr>tn_turns := s\<rparr>)"
| Stopped: "(k, chat) \<in> set (tn_waiting m) \<Longrightarrow> k \<in> set (at_cancelled (tn_turns m)) \<Longrightarrow>
    turn_step m (m\<lparr>tn_turns := at_remove chat (tn_turns m), tn_waiting := remove1 (k, chat) (tn_waiting m)\<rparr>)"

inductive turns_reachable :: "turn_machine \<Rightarrow> bool" where
  Initial: "turns_reachable machine_new"
| Next: "turns_reachable m \<Longrightarrow> turn_step m m' \<Longrightarrow> turns_reachable m'"

inductive_cases turn_stepE: "turn_step m m'"

definition texts_for :: "nat \<Rightarrow> (nat \<times> string) list \<Rightarrow> string list" where
  "texts_for k xs = map snd (filter (\<lambda>(k', _). k' = k) xs)"

definition followed_for :: "nat \<Rightarrow> turn_machine \<Rightarrow> string list" where
  "followed_for k m = concat (map snd (filter (\<lambda>(k', _). k' = k) (tn_followed m)))"

text \<open>Every accepted text was answered as a follow-up or waits in its queue; after the drain only late texts do.\<close>

definition texts_ok :: "turn_machine \<Rightarrow> bool" where
  "texts_ok m \<longleftrightarrow>
     (\<forall>k. texts_for k (tn_accepted m) = followed_for k m @ pending_steering k (tn_turns m)
        \<and> texts_for k (tn_late m) = (if taken_steering m k then pending_steering k (tn_turns m) else []))"

definition turn_ids :: "turn_machine \<Rightarrow> nat set" where
  "turn_ids m = fst ` set (tn_waiting m) \<union> set (tn_draining m) \<union> fst ` set (tn_followed m) \<union> fst ` set (tn_held m)
     \<union> fst ` set (at_queues (tn_turns m)) \<union> (th_turn \<circ> snd) ` set (at_live (tn_turns m))"

definition ids_ok :: "turn_machine \<Rightarrow> bool" where
  "ids_ok m \<longleftrightarrow> distinct (map fst (tn_waiting m) @ tn_draining m @ map fst (tn_followed m))
     \<and> turn_ids m \<subseteq> {..<at_next (tn_turns m)}"

definition turns_inv :: "turn_machine \<Rightarrow> bool" where
  "turns_inv m \<longleftrightarrow> texts_ok m \<and> ids_ok m"

lemma pending_simps [simp]:
  "pending_steering k (steering_send k' t s) = (if k' = k then pending_steering k s @ [t] else pending_steering k s)"
  "pending_steering k (snd (steering_drain k' s)) = (if k' = k then [] else pending_steering k s)"
  "pending_steering k (at_remove chat s) = pending_steering k s"
  "pending_steering k (snd (at_register chat rid s)) = (if k = at_next s then [] else pending_steering k s)"
  by (simp_all add: pending_steering_def steering_send_def steering_drain_def at_remove_def at_register_def Let_def hm_simps)

lemma texts_for_snoc [simp]: "texts_for k (xs @ [(k', t)]) = texts_for k xs @ (if k' = k then [t] else [])"
  by (simp add: texts_for_def)

lemma followed_for_snoc:
  "followed_for k (m\<lparr>tn_turns := s, tn_draining := d, tn_followed := tn_followed m @ [(k', ts)]\<rparr>)
     = followed_for k m @ (if k' = k then ts else [])"
  by (simp add: followed_for_def)

lemma taken_steering_snoc:
  "taken_steering (m\<lparr>tn_turns := s, tn_draining := d, tn_followed := tn_followed m @ [(k', ts)]\<rparr>) k = (k' = k \<or> taken_steering m k)"
  by (auto simp: taken_steering_def)

lemma taken_steering_simps [simp]:
  "taken_steering (m\<lparr>tn_turns := s\<rparr>) k = taken_steering m k" "taken_steering (m\<lparr>tn_waiting := w\<rparr>) k = taken_steering m k"
  "taken_steering (m\<lparr>tn_held := h\<rparr>) k = taken_steering m k" "taken_steering (m\<lparr>tn_draining := d\<rparr>) k = taken_steering m k"
  "taken_steering (m\<lparr>tn_accepted := a\<rparr>) k = taken_steering m k" "taken_steering (m\<lparr>tn_late := l\<rparr>) k = taken_steering m k"
  "taken_steering (m\<lparr>tn_followed := tn_followed m @ [(k', ts)]\<rparr>) k = (k' = k \<or> taken_steering m k)"
  by (auto simp: taken_steering_def)

lemma followed_simps [simp]:
  "followed_for k (m\<lparr>tn_turns := s\<rparr>) = followed_for k m" "followed_for k (m\<lparr>tn_waiting := w\<rparr>) = followed_for k m"
  "followed_for k (m\<lparr>tn_held := h\<rparr>) = followed_for k m" "followed_for k (m\<lparr>tn_draining := d\<rparr>) = followed_for k m"
  "followed_for k (m\<lparr>tn_accepted := a\<rparr>) = followed_for k m" "followed_for k (m\<lparr>tn_late := l\<rparr>) = followed_for k m"
  by (simp_all add: followed_for_def)

lemma hm_insert_keys: "fst ` set (hm_insert k v m) \<subseteq> insert k (fst ` set m)"
  by (induction m) (auto simp: hm_insert_def)

lemma hm_insert_turns: "(th_turn \<circ> snd) ` set (hm_insert k h m) \<subseteq> insert (th_turn h) ((th_turn \<circ> snd) ` set m)"
  by (induction m) (auto simp: hm_insert_def)

lemma hm_remove_turns: "(th_turn \<circ> snd) ` set (hm_remove k m) \<subseteq> (th_turn \<circ> snd) ` set m"
  by (induction m) (auto simp: hm_remove_def)

lemma hm_get_in: "hm_get m k = Some v \<Longrightarrow> (k, v) \<in> set m"
  by (simp add: hm_get_def map_of_SomeD)

lemma turn_ids_leI:
  assumes "fst ` set (tn_waiting m) \<subseteq> S" and "set (tn_draining m) \<subseteq> S" and "fst ` set (tn_followed m) \<subseteq> S"
    and "fst ` set (tn_held m) \<subseteq> S" and "fst ` set (at_queues (tn_turns m)) \<subseteq> S"
    and "(th_turn \<circ> snd) ` set (at_live (tn_turns m)) \<subseteq> S"
  shows "turn_ids m \<subseteq> S"
  unfolding turn_ids_def using assms by (intro Un_least)

lemma turn_ids_parts:
  "fst ` set (tn_waiting m) \<subseteq> turn_ids m" "set (tn_draining m) \<subseteq> turn_ids m" "fst ` set (tn_followed m) \<subseteq> turn_ids m"
  "fst ` set (tn_held m) \<subseteq> turn_ids m" "fst ` set (at_queues (tn_turns m)) \<subseteq> turn_ids m"
  "(th_turn \<circ> snd) ` set (at_live (tn_turns m)) \<subseteq> turn_ids m"
  by (auto simp: turn_ids_def)

lemma ids_okI:
  assumes "ids_ok m" and "distinct (map fst (tn_waiting m') @ tn_draining m' @ map fst (tn_followed m'))"
    and "turn_ids m' \<subseteq> turn_ids m" and "at_next (tn_turns m') = at_next (tn_turns m)"
  shows "ids_ok m'"
  using assms by (auto simp: ids_ok_def)

lemma fresh_turn:
  assumes "turns_inv m" and "at_next (tn_turns m) \<le> k"
  shows "pending_steering k (tn_turns m) = []" and "\<not> taken_steering m k"
proof -
  have k: "k \<notin> turn_ids m"
    using assms by (auto simp: turns_inv_def ids_ok_def)
  then have "hm_get (at_queues (tn_turns m)) k = None"
    by (auto simp: turn_ids_def hm_get_def map_of_eq_None_iff)
  then show "pending_steering k (tn_turns m) = []"
    by (simp add: pending_steering_def)
  show "\<not> taken_steering m k"
    using k by (simp add: turn_ids_def taken_steering_def)
qed

lemma waiting_leaves:
  assumes "(k, chat) \<in> set xs" and "distinct (map fst xs @ ys @ zs)"
  shows "distinct (map fst (remove1 (k, chat) xs) @ (k # ys) @ zs)" and "distinct (map fst (remove1 (k, chat) xs) @ ys @ zs)"
    and "set (remove1 (k, chat) xs) \<subseteq> set xs"
proof -
  obtain as bs where xs: "xs = as @ (k, chat) # bs" "(k, chat) \<notin> set as"
    using split_list_first [OF assms(1)] by blast
  then have "remove1 (k, chat) xs = as @ bs"
    by (simp add: remove1_append)
  then show "distinct (map fst (remove1 (k, chat) xs) @ (k # ys) @ zs)" "distinct (map fst (remove1 (k, chat) xs) @ ys @ zs)"
    "set (remove1 (k, chat) xs) \<subseteq> set xs"
    using assms(2) xs by auto
qed

lemma ids_ok_find:
  assumes "ids_ok m" and "at_get chat (tn_turns m) = Some h"
  shows "ids_ok (m\<lparr>tn_held := tn_held m @ [(th_turn h, t)]\<rparr>)"
proof (rule ids_okI [OF assms(1)])
  have "th_turn h \<in> (th_turn \<circ> snd) ` set (at_live (tn_turns m))"
    using hm_get_in [of "at_live (tn_turns m)" chat h] assms(2) by (force simp: at_get_def)
  then show "turn_ids (m\<lparr>tn_held := tn_held m @ [(th_turn h, t)]\<rparr>) \<subseteq> turn_ids m"
    by (auto simp: turn_ids_def)
qed (use assms(1) in \<open>simp_all add: ids_ok_def\<close>)

lemma ids_ok_push:
  assumes "ids_ok m" and "(k, t) \<in> set (tn_held m)"
  shows "ids_ok (m\<lparr>tn_held := remove1 (k, t) (tn_held m), tn_turns := steering_send k t (tn_turns m),
      tn_accepted := a, tn_late := l\<rparr>)"
proof (rule ids_okI [OF assms(1)])
  have "k \<in> fst ` set (tn_held m)" "fst ` set (remove1 (k, t) (tn_held m)) \<subseteq> fst ` set (tn_held m)"
    using assms(2) set_remove1_subset [of "(k, t)" "tn_held m"] by force+
  then show "turn_ids (m\<lparr>tn_held := remove1 (k, t) (tn_held m), tn_turns := steering_send k t (tn_turns m),
      tn_accepted := a, tn_late := l\<rparr>) \<subseteq> turn_ids m"
    using hm_insert_keys [of k "pending_steering k (tn_turns m) @ [t]" "at_queues (tn_turns m)"]
    by (simp add: turn_ids_def steering_send_def) blast
qed (use assms(1) in \<open>simp_all add: ids_ok_def steering_send_def\<close>)

lemma ids_ok_leave:
  assumes "ids_ok m" and "(k, chat) \<in> set (tn_waiting m)"
  shows "ids_ok (m\<lparr>tn_turns := at_remove chat (tn_turns m), tn_waiting := remove1 (k, chat) (tn_waiting m), tn_draining := k # tn_draining m\<rparr>)"
    and "ids_ok (m\<lparr>tn_turns := at_remove chat (tn_turns m), tn_waiting := remove1 (k, chat) (tn_waiting m)\<rparr>)"
proof -
  have d: "distinct (map fst (tn_waiting m) @ tn_draining m @ map fst (tn_followed m))"
    using assms(1) by (simp add: ids_ok_def)
  note w = waiting_leaves [OF assms(2) d]
  have k: "k \<in> fst ` set (tn_waiting m)" "fst ` set (remove1 (k, chat) (tn_waiting m)) \<subseteq> fst ` set (tn_waiting m)"
    using image_eqI [OF _ assms(2), of k fst] image_mono [OF w(3), of fst] by simp_all
  show "ids_ok (m\<lparr>tn_turns := at_remove chat (tn_turns m), tn_waiting := remove1 (k, chat) (tn_waiting m), tn_draining := k # tn_draining m\<rparr>)"
  proof (rule ids_okI [OF assms(1)])
    show "turn_ids (m\<lparr>tn_turns := at_remove chat (tn_turns m), tn_waiting := remove1 (k, chat) (tn_waiting m),
        tn_draining := k # tn_draining m\<rparr>) \<subseteq> turn_ids m"
      by (rule turn_ids_leI)
        (use subset_trans [OF hm_remove_turns [of chat "at_live (tn_turns m)"] turn_ids_parts(6)] in
          \<open>simp_all add: at_remove_def turn_ids_parts subset_trans [OF k(2) turn_ids_parts(1)]
            subsetD [OF turn_ids_parts(1) k(1)]\<close>)
  qed (use w(1) in \<open>simp_all add: at_remove_def\<close>)
  show "ids_ok (m\<lparr>tn_turns := at_remove chat (tn_turns m), tn_waiting := remove1 (k, chat) (tn_waiting m)\<rparr>)"
  proof (rule ids_okI [OF assms(1)])
    show "turn_ids (m\<lparr>tn_turns := at_remove chat (tn_turns m), tn_waiting := remove1 (k, chat) (tn_waiting m)\<rparr>) \<subseteq> turn_ids m"
      by (rule turn_ids_leI)
        (use subset_trans [OF hm_remove_turns [of chat "at_live (tn_turns m)"] turn_ids_parts(6)] in
          \<open>simp_all add: at_remove_def turn_ids_parts subset_trans [OF k(2) turn_ids_parts(1)]
            subsetD [OF turn_ids_parts(1) k(1)]\<close>)
  qed (use w(2) in \<open>simp_all add: at_remove_def\<close>)
qed

lemma ids_ok_drain:
  assumes "ids_ok m" and "k \<in> set (tn_draining m)" and "steering_drain k (tn_turns m) = (ts, s)"
  shows "ids_ok (m\<lparr>tn_turns := s, tn_draining := remove1 k (tn_draining m), tn_followed := tn_followed m @ [(k, ts)]\<rparr>)"
proof (rule ids_okI [OF assms(1)])
  have s: "s = tn_turns m\<lparr>at_queues := hm_insert k [] (at_queues (tn_turns m))\<rparr>"
    using assms(3) by (simp add: steering_drain_def)
  show "turn_ids (m\<lparr>tn_turns := s, tn_draining := remove1 k (tn_draining m), tn_followed := tn_followed m @ [(k, ts)]\<rparr>) \<subseteq> turn_ids m"
    using assms(2) hm_insert_keys [of k "[]" "at_queues (tn_turns m)"] set_remove1_subset [of k "tn_draining m"]
    by (simp add: turn_ids_def s) blast
  show "at_next (tn_turns (m\<lparr>tn_turns := s, tn_draining := remove1 k (tn_draining m), tn_followed := tn_followed m @ [(k, ts)]\<rparr>)) = at_next (tn_turns m)"
    by (simp add: s)
qed (use assms(1,2) in \<open>auto simp: ids_ok_def\<close>)

lemma ids_ok_register:
  assumes "ids_ok m" and "at_register chat rid (tn_turns m) = (k, s)"
  shows "ids_ok (m\<lparr>tn_turns := s, tn_waiting := tn_waiting m @ [(k, chat)]\<rparr>)"
proof -
  have k: "k = at_next (tn_turns m)" and s: "at_next s = k + 1"
    "at_live s = hm_insert chat \<lparr>th_turn = k, th_request_id = rid\<rparr> (at_live (tn_turns m))"
    "at_queues s = hm_insert k [] (at_queues (tn_turns m))"
    using assms(2) by (auto simp: at_register_def Let_def)
  have "turn_ids (m\<lparr>tn_turns := s, tn_waiting := tn_waiting m @ [(k, chat)]\<rparr>) \<subseteq> insert k (turn_ids m)"
    using subset_trans [OF hm_insert_keys [of k "[]" "at_queues (tn_turns m)"] insert_mono [OF turn_ids_parts(5)]]
      subset_trans [OF hm_insert_turns [of chat "\<lparr>th_turn = k, th_request_id = rid\<rparr>" "at_live (tn_turns m)"]
        insert_mono [OF turn_ids_parts(6)]]
    by (intro turn_ids_leI) (simp_all add: s turn_ids_parts subset_insertI2)
  moreover have below: "turn_ids m \<subseteq> {..<k}"
    using assms(1) by (simp add: ids_ok_def k)
  moreover have "k \<notin> fst ` set (tn_waiting m) \<union> set (tn_draining m) \<union> fst ` set (tn_followed m)"
  proof -
    have "k \<notin> turn_ids m"
      using below by auto
    then show ?thesis
      by (simp add: turn_ids_def)
  qed
  ultimately show ?thesis
    using assms(1) by (auto simp: ids_ok_def s)
qed

lemma texts_ok_push:
  assumes "texts_ok m"
  shows "texts_ok (m\<lparr>tn_held := h, tn_turns := steering_send k t (tn_turns m), tn_accepted := tn_accepted m @ [(k, t)],
      tn_late := (if taken_steering m k then tn_late m @ [(k, t)] else tn_late m)\<rparr>)"
  using assms by (auto simp: texts_ok_def)

lemma texts_ok_same:
  assumes "texts_ok m" and "\<And>k. pending_steering k s = pending_steering k (tn_turns m)"
  shows "texts_ok (m\<lparr>tn_turns := s, tn_waiting := w\<rparr>)" and "texts_ok (m\<lparr>tn_turns := s, tn_waiting := w, tn_draining := d\<rparr>)"
    and "texts_ok (m\<lparr>tn_turns := s\<rparr>)"
  using assms by (simp_all add: texts_ok_def)

lemma texts_ok_drain:
  assumes "texts_ok m" and "\<not> taken_steering m k" and "steering_drain k (tn_turns m) = (ts, s)"
  shows "texts_ok (m\<lparr>tn_turns := s, tn_draining := d, tn_followed := tn_followed m @ [(k, ts)]\<rparr>)"
proof -
  have s: "s = snd (steering_drain k (tn_turns m))" and ts: "ts = pending_steering k (tn_turns m)"
    using assms(3) by (auto simp: steering_drain_def)
  show ?thesis
    using assms(1,2) by (simp add: texts_ok_def followed_for_snoc taken_steering_snoc s ts)
qed

lemma turns_inv_step:
  assumes "turn_step m m'" and "turns_inv m"
  shows "turns_inv m'"
  using assms(1)
proof (cases rule: turn_step.cases)
  case (Find chat h t)
  then show ?thesis
    using assms(2) ids_ok_find [of m chat h t] by (auto simp: turns_inv_def texts_ok_def)
next
  case (Push k t)
  then show ?thesis
    using assms(2) ids_ok_push [of m k t] texts_ok_push [of m] by (auto simp: turns_inv_def)
next
  case (Register chat rid k s)
  have k: "k = at_next (tn_turns m)" and s: "s = snd (at_register chat rid (tn_turns m))"
    using Register by (auto simp: at_register_def Let_def)
  have "pending_steering k' s = pending_steering k' (tn_turns m)" for k'
    using fresh_turn(1) [OF assms(2), of k] by (simp add: s k)
  then show ?thesis
    using assms(2) Register ids_ok_register texts_ok_same(1) by (auto simp: turns_inv_def)
next
  case (Answer k chat)
  then show ?thesis
    using assms(2) ids_ok_leave(1) [of m k chat] texts_ok_same(2) [of m "at_remove chat (tn_turns m)"] by (auto simp: turns_inv_def)
next
  case (Drain k ts s)
  then have "\<not> taken_steering m k"
    using assms(2) by (auto simp: turns_inv_def ids_ok_def taken_steering_def)
  then show ?thesis
    using assms(2) Drain ids_ok_drain texts_ok_drain by (auto simp: turns_inv_def)
next
  case (Press_Stop chat rid s)
  then have s: "at_next s = at_next (tn_turns m)" "at_live s = at_live (tn_turns m)" "at_queues s = at_queues (tn_turns m)"
    by (auto simp: at_cancel_def split: option.splits if_splits)
  then have "ids_ok m'"
    using assms(2) Press_Stop by (auto simp: turns_inv_def ids_ok_def turn_ids_def)
  then show ?thesis
    using assms(2) Press_Stop s texts_ok_same(3) [of m s] by (simp add: turns_inv_def pending_steering_def)
next
  case (Stopped k chat)
  then show ?thesis
    using assms(2) ids_ok_leave(2) [of m k chat] texts_ok_same(1) [of m "at_remove chat (tn_turns m)"] by (auto simp: turns_inv_def)
qed

lemma turns_reachable_inv: "turns_reachable m \<Longrightarrow> turns_inv m"
proof (induction rule: turns_reachable.induct)
  case Initial
  show ?case
    by (simp add: turns_inv_def texts_ok_def ids_ok_def turn_ids_def machine_new_def active_turns_new_def texts_for_def
        followed_for_def pending_steering_def taken_steering_def hm_simps)
qed (rule turns_inv_step)

section \<open>What becomes of a steered message\<close>

lemma filter_key_none: "k \<notin> fst ` set xs \<Longrightarrow> filter (\<lambda>(k', _). k' = k) xs = []"
  by (force simp: filter_empty_conv)


text \<open>A turn that has left the registry without a follow-up.\<close>

definition abandoned :: "turn_machine \<Rightarrow> nat \<Rightarrow> bool" where
  "abandoned m k \<longleftrightarrow> k < at_next (tn_turns m) \<and> k \<notin> fst ` set (tn_waiting m) \<and> k \<notin> set (tn_draining m) \<and> \<not> taken_steering m k"

lemma abandoned_step: "turn_step m m' \<Longrightarrow> abandoned m k \<Longrightarrow> abandoned m' k"
proof (induction rule: turn_step.induct)
  case (Register chat rid m k' s)
  then show ?case
    by (auto simp: abandoned_def at_register_def Let_def)
next
  case (Answer k' chat m)
  have "fst (k', chat) \<in> fst ` set (tn_waiting m)"
    using Answer.hyps by (rule imageI)
  then have "k' \<noteq> k"
    using Answer.prems by (auto simp: abandoned_def)
  then show ?case
    using Answer.prems set_remove1_subset [of "(k', chat)" "tn_waiting m"] by (auto simp: abandoned_def at_remove_def)
next
  case (Drain k' m ts s)
  then have "k' \<noteq> k" "at_next s = at_next (tn_turns m)"
    by (auto simp: abandoned_def steering_drain_def)
  then show ?case
    using Drain.prems by (auto simp: abandoned_def taken_steering_snoc)
next
  case (Press_Stop chat rid m s)
  then show ?case
    by (auto simp: abandoned_def at_cancel_def split: option.splits if_splits)
next
  case (Stopped k' chat m)
  then show ?case
    using set_remove1_subset [of "(k', chat)" "tn_waiting m"] by (auto simp: abandoned_def at_remove_def)
qed (auto simp: abandoned_def steering_send_def)

lemma accepted_grows: "turn_step m m' \<Longrightarrow> prefix (texts_for k (tn_accepted m)) (texts_for k (tn_accepted m'))"
  by (induction rule: turn_step.induct) simp_all

text \<open>C32: What was accepted for a turn that the user then stopped is never answered.\<close>

theorem stop_loses_steering:
  assumes "turns_reachable m" and "abandoned m k" and "turn_step\<^sup>*\<^sup>* m m'"
  shows "followed_for k m' = [] \<and> prefix (texts_for k (tn_accepted m)) (texts_for k (tn_accepted m'))"
proof -
  have "abandoned m' k \<and> prefix (texts_for k (tn_accepted m)) (texts_for k (tn_accepted m'))"
    using assms(3)
  proof (induction rule: rtranclp_induct)
    case (step m' m'')
    then show ?case
      using abandoned_step accepted_grows prefix_order.trans by blast
  qed (use assms(2) in simp)
  then show ?thesis
    by (simp add: abandoned_def taken_steering_def followed_for_def filter_key_none)
qed

definition stopped_example :: turn_machine where
  "stopped_example =
     \<lparr>tn_turns = \<lparr>at_live = [], at_queues = [(0, [''wait''])], at_cancelled = [0], at_next = 1\<rparr>, tn_waiting = [],
      tn_draining = [], tn_held = [], tn_accepted = [(0, ''wait'')], tn_followed = [], tn_late = []\<rparr>"

lemma stopped_example_reachable: "turns_reachable stopped_example"
proof -
  let ?h = "\<lparr>th_turn = 0, th_request_id = ''r''\<rparr>"
  let ?s = "\<lparr>at_live = [(5, ?h)], at_queues = [(0, [])], at_cancelled = [], at_next = 1\<rparr>"
  have "at_register 5 ''r'' (tn_turns machine_new) = (0, ?s)"
    by (simp add: machine_new_def active_turns_new_def at_register_def hm_insert_def)
  from turns_reachable.Next [OF turns_reachable.Initial turn_step.Register [OF this]]
  have 1: "turns_reachable (machine_new\<lparr>tn_turns := ?s, tn_waiting := [(0, 5)]\<rparr>)" (is "turns_reachable ?m1")
    by (simp add: machine_new_def)
  have "at_get 5 (tn_turns ?m1) = Some ?h"
    by (simp add: at_get_def hm_get_def)
  from turns_reachable.Next [OF 1 turn_step.Find [OF this, of "''wait''"]]
  have 2: "turns_reachable (?m1\<lparr>tn_held := [(0, ''wait'')]\<rparr>)" (is "turns_reachable ?m2")
    by (simp add: machine_new_def)
  have "(0, ''wait'') \<in> set (tn_held ?m2)"
    by simp
  from turns_reachable.Next [OF 2 turn_step.Push [OF this]]
  have 3: "turns_reachable (?m1\<lparr>tn_turns := ?s\<lparr>at_queues := [(0, [''wait''])]\<rparr>, tn_accepted := [(0, ''wait'')]\<rparr>)"
      (is "turns_reachable ?m3")
    by (simp add: machine_new_def steering_send_def pending_steering_def hm_get_def hm_insert_def taken_steering_def)
  have "at_cancel 5 ''r'' (tn_turns ?m3) = (True, ?s\<lparr>at_queues := [(0, [''wait''])], at_cancelled := [0]\<rparr>)"
    by (simp add: at_cancel_def at_get_def hm_get_def)
  from turns_reachable.Next [OF 3 turn_step.Press_Stop [OF this]]
  have 4: "turns_reachable (?m3\<lparr>tn_turns := ?s\<lparr>at_queues := [(0, [''wait''])], at_cancelled := [0]\<rparr>\<rparr>)"
      (is "turns_reachable ?m4")
    by simp
  have "(0, 5) \<in> set (tn_waiting ?m4)" "0 \<in> set (at_cancelled (tn_turns ?m4))"
    by simp_all
  from turns_reachable.Next [OF 4 turn_step.Stopped [OF this]] show ?thesis
    by (simp add: stopped_example_def machine_new_def at_remove_def hm_remove_def)
qed


lemma stop_loses_steering_witness:
  "texts_for 0 (tn_accepted stopped_example) = [''wait''] \<and> followed_for 0 stopped_example = []"
proof -
  have "abandoned stopped_example 0"
    by (simp add: abandoned_def stopped_example_def taken_steering_def)
  from stop_loses_steering [OF stopped_example_reachable this, of stopped_example] show ?thesis
    by (simp add: stopped_example_def texts_for_def)
qed

text \<open>The answer of the agent to a follow-up is thrown away: a turn ends in the same world if the agent
  answers its follow-up with nothing.\<close>

theorem follow_up_answer_dropped:
  "finish_turn (env\<lparr>te_on_event := \<lambda>e w. (None, snd (te_on_event env e w))\<rparr>) m fresh pid k outcome s
     = finish_turn env m fresh pid k outcome s"
proof -
  have "follow_up (env\<lparr>te_on_event := \<lambda>e w. (None, snd (te_on_event env e w))\<rparr>) m fresh steered w
      = follow_up env m fresh steered w" for steered w
    by (simp add: follow_up_def split: option.split event.split)
  moreover have "answer_turn (env\<lparr>te_on_event := f\<rparr>) m pid r w = answer_turn env m pid r w" for f r w
    by (simp add: answer_turn_def split: option.split event.split)
  ultimately show ?thesis
    by (simp add: finish_turn_def split: turn_outcome.split prod.split option.split)
qed

section \<open>Buttons are read back\<close>

text \<open>The data of the buttons of a turn are read back as the action on their request, and never taken for a
  picker.\<close>

theorem control_buttons_read_back:
  assumes "rid \<noteq> []"
  shows "parse_control_callback (stop_callback_data rid) = Some (Stop rid)
    \<and> map (map (parse_control_callback \<circ> snd)) (approval_keyboard rid) = [[Some (Approve rid), Some (Reject rid)]]
    \<and> parse_picker_callback (stop_callback_data rid) = None
    \<and> map (map (parse_picker_callback \<circ> snd)) (approval_keyboard rid) = [[None, None]]"
proof -
  have split: "split_once CHR '':'' (''stop:'' @ rid) = Some (''stop'', rid)"
    "split_once CHR '':'' (''approval:yes:'' @ rid) = Some (''approval'', ''yes:'' @ rid)"
    "split_once CHR '':'' (''approval:no:'' @ rid) = Some (''approval'', ''no:'' @ rid)"
    "split_once CHR '':'' (''yes:'' @ rid) = Some (''yes'', rid)" "split_once CHR '':'' (''no:'' @ rid) = Some (''no'', rid)"
    using split_once_append [of "CHR '':''" "''stop''" rid] split_once_append [of "CHR '':''" "''approval''" "''yes:'' @ rid"]
      split_once_append [of "CHR '':''" "''approval''" "''no:'' @ rid"] split_once_append [of "CHR '':''" "''yes''" rid]
      split_once_append [of "CHR '':''" "''no''" rid]
    by simp_all
  have foreign: "parse_picker_callback d = None" if "split_once CHR '':'' d = Some (pre, rest)" "pre \<noteq> cb_prefix" for d pre rest
    using that by (auto simp: parse_picker_callback_def split: list.splits)
  show ?thesis
    using assms split foreign [OF split(1)] foreign [OF split(2)] foreign [OF split(3)]
    by (simp add: parse_control_callback_def stop_callback_data_def approval_keyboard_def cb_prefix_def
        del: split_once.simps append.simps)
qed

lemma control_buttons_read_back_witness:
  "parse_control_callback (stop_callback_data ''7:9'') = Some (Stop ''7:9'')"
  using control_buttons_read_back [of "''7:9''"] by blast

section \<open>What a delivered reply shows\<close>

text \<open>A client whose world shows the messages that were sent and nothing of those that failed.\<close>

definition shows_sent :: "('w, 'e) telegram_bot \<Rightarrow> ('w \<Rightarrow> (int \<times> int \<times> outgoing) list) \<Rightarrow> bool" where
  "shows_sent b shown \<longleftrightarrow>
     (\<forall>chat m w. case bot_send b chat m w of
        (Inl _, w') \<Rightarrow> shown w' = shown w
      | (Inr mid, w') \<Rightarrow> shown w' = shown w @ [(chat, mid, m)])"

lemma send_all_shown:
  assumes "shows_sent b shown" and "send_all b chat ms w = ((mids, r), w')"
  shows "shown w' = shown w @ map (\<lambda>(mid, m). (chat, mid, m)) (zip mids ms) \<and> length mids \<le> length ms
    \<and> (r = None \<longleftrightarrow> length mids = length ms)"
  using assms(2)
proof (induction ms arbitrary: w mids r w')
  case (Cons m ms)
  show ?case
  proof (cases "bot_send b chat m w")
    case (Pair x w1)
    have law: "case bot_send b chat m w of (Inl _, w') \<Rightarrow> shown w' = shown w | (Inr mid, w') \<Rightarrow> shown w' = shown w @ [(chat, mid, m)]"
      using assms(1) by (simp add: shows_sent_def)
    show ?thesis
    proof (cases x)
      case (Inl e)
      then show ?thesis using Pair Cons.prems law by auto
    next
      case (Inr mid)
      obtain mids' r' w2 where rest: "send_all b chat ms w1 = ((mids', r'), w2)"
        by (cases "send_all b chat ms w1") auto
      then show ?thesis using Pair Inr Cons.prems Cons.IH [OF rest] law by auto
    qed
  qed
qed simp

text \<open>C33: A reply that is reported as sent in HTML shows exactly its chunks; one reported as plain shows all plain
  chunks behind those HTML chunks that had gone out before one failed.\<close>

theorem sent_reply_shown:
  assumes "shows_sent b shown" and "send_html_reply b m content markup sp w = (Inr (fmt, mids), w')"
  shows "\<exists>early. shown w' = shown w
      @ map (\<lambda>(mid, o'). (tm_chat_id m, mid, o')) (zip early (reply_chunks True (tm_id m) markup (fst (bot_render b content))))
      @ map (\<lambda>(mid, o'). (tm_chat_id m, mid, o'))
          (zip mids (reply_chunks (fmt = ''html'') (tm_id m) markup ((if fmt = ''html'' then fst else snd) (bot_render b content))))
    \<and> length mids = length ((if fmt = ''html'' then fst else snd) (bot_render b content))
    \<and> (if fmt = ''html'' then early = [] else fmt = ''plain'' \<and> length early < length (fst (bot_render b content)))"
proof -
  obtain htmls plains where render: "bot_render b content = (htmls, plains)"
    by (cases "bot_render b content")
  have len: "length (reply_chunks h i k cs) = length cs" for h i k cs
    by (simp add: reply_chunks_def)
  obtain early r1 w1 where first: "send_all b (tm_chat_id m) (reply_chunks True (tm_id m) markup htmls) w = ((early, r1), w1)"
    by (cases "send_all b (tm_chat_id m) (reply_chunks True (tm_id m) markup htmls) w") auto
  note shown1 = send_all_shown [OF assms(1) first]
  show ?thesis
  proof (cases r1)
    case None
    then have "fmt = ''html''" "mids = early" "w' = w1"
      using assms(2) render first by (simp_all add: send_html_reply_def)
    then show ?thesis
      using shown1 None len render by (intro exI [of _ "[]"]) simp
  next
    case (Some e)
    obtain mids' r2 w2 where second: "send_all b (tm_chat_id m) (reply_chunks False (tm_id m) markup plains) w1 = ((mids', r2), w2)"
      by (cases "send_all b (tm_chat_id m) (reply_chunks False (tm_id m) markup plains) w1") auto
    then have "fmt = ''plain''" "mids = mids'" "w' = w2" "r2 = None"
      using assms(2) render first Some by (auto simp: send_html_reply_def split: option.splits)
    then show ?thesis
      using shown1 send_all_shown [OF assms(1) second] Some len render by (intro exI [of _ early]) simp
  qed
qed

text \<open>A chat that takes only so many messages: what it shows, what was acknowledged, and what it still takes.\<close>

type_synonym demo_chat = "(int \<times> int \<times> outgoing) list \<times> int list \<times> nat"

definition demo_bot :: "(demo_chat, unit) telegram_bot" where
  "demo_bot =
     \<lparr>bot_send = (\<lambda>chat m (shown, acks, n).
        if n = 0 then (Inl (), (shown, acks, n)) else (Inr (int n), (shown @ [(chat, int n, m)], acks, n - 1))),
      bot_edit = (\<lambda>chat mid m (shown, acks, n). (Inr (), (shown @ [(chat, mid, m)], acks, n))),
      bot_delete = (\<lambda>chat mid w. (Inr (), w)),
      bot_acknowledge = (\<lambda>chat mid (shown, acks, n). (shown, acks @ [mid], n)),
      bot_render = (\<lambda>content. ([''<b>one</b>'', ''two''], [''one'', ''two'']))\<rparr>"

definition demo_message :: telegram_message where
  "demo_message = \<lparr>tm_id = 3, tm_chat_id = 1, tm_is_group = False, tm_from = None, tm_reply_from = None, tm_media = Text_Media ''hi''\<rparr>"

lemma sent_reply_shown_witness:
  "\<exists>w'. send_html_reply demo_bot demo_message ''x'' None None ([], [], 2) = (Inr (''html'', [2, 1]), w')
    \<and> length [2, 1 :: int] = length (fst (bot_render demo_bot ''x''))"
proof -
  have law: "shows_sent demo_bot fst"
    by (auto simp: shows_sent_def demo_bot_def split: prod.splits)
  obtain w' where "send_html_reply demo_bot demo_message ''x'' None None ([], [], 2) = (Inr (''html'', [2, 1]), w')"
    by (simp add: send_html_reply_def demo_bot_def demo_message_def reply_chunks_def)
  with sent_reply_shown [OF law this] show ?thesis
    by (intro exI [of _ w']) (auto split: if_splits)
qed

text \<open>A reply of which only the first part could be shown is acknowledged as delivered.\<close>

theorem partial_reply_acknowledged:
  "deliver_progressive_reply demo_bot demo_message (Some 9) ''x'' None None True ([], [], 0)
     = ([(1, 9, first_chunk True None [''<b>one</b>'', ''two''])], [3], 0)"
  by (simp add: deliver_progressive_reply_def edit_placeholder_with_response_def demo_bot_def demo_message_def
      extra_chunks_def report_delivered_def)

end
