(* ===== verification/Models.thy ===== *)
theory Models
  imports Redaction Routing
begin

text \<open>
  Between the agent and its models: the router of providers (\<open>crates/models/src/router.rs\<close>,
  \<open>config.rs\<close>), the stream of server-sent events (\<open>streaming.rs\<close>), the chain of models
  (\<open>crates/core/src/model_chain.rs\<close>) and the invocation of a model by a procedure
  (\<open>crates/core/src/orchestrator/invoke.rs\<close>).

  The HTTP clients, the JSON codec and the repair of bytes that are not UTF-8 are parameters.  A call of a
  client acts on a world.
\<close>

section \<open>The router of providers\<close>

datatype model_error =
    Http_Error
  | Api_Error nat string
  | Json_Error
  | Provider_Not_Found string
  | No_Provider

record provider_config =
  pc_base_url :: string
  pc_api_key :: "string option"

record routing_rule =
  rr_model_prefix :: "string option"
  rr_provider :: string

record router_config =
  rc_providers :: "(string, provider_config) hmap"
  rc_rules :: "routing_rule list"
  rc_default_provider :: string
  rc_fallback_models :: "string list"

definition single_provider :: "string \<Rightarrow> provider_config \<Rightarrow> router_config" where
  "single_provider name p = \<lparr>rc_providers = [(name, p)], rc_rules = [], rc_default_provider = name, rc_fallback_models = []\<rparr>"

definition local_bitnet :: "string \<Rightarrow> router_config" where
  "local_bitnet url = single_provider ''local-bitnet'' \<lparr>pc_base_url = url, pc_api_key = None\<rparr>"

text \<open>The fields of a request that the router does not read are the rest.\<close>

record 'x completion_request =
  cr_model :: string
  cr_rest :: 'x

text \<open>The client of a provider is known by its address and key.\<close>

type_synonym ('x, 'r, 'w) provider_call = "provider_config \<Rightarrow> 'x completion_request \<Rightarrow> 'w \<Rightarrow> (model_error + 'r) \<times> 'w"

definition new_multi :: "'e option \<Rightarrow> router_config \<Rightarrow> 'e + router_config" where
  "new_multi license c =
     (if 1 < length (rc_providers c) \<or> rc_rules c \<noteq> []
      then (case license of Some e \<Rightarrow> Inl e | None \<Rightarrow> Inr c) else Inr c)"

fun rule_matches :: "string \<Rightarrow> routing_rule \<Rightarrow> bool" where
  "rule_matches model r \<longleftrightarrow> (case rr_model_prefix r of None \<Rightarrow> False | Some p \<Rightarrow> prefix p model)"

definition select_provider :: "router_config \<Rightarrow> string \<Rightarrow> string" where
  "select_provider c model =
     (case find (rule_matches model) (rc_rules c) of Some r \<Rightarrow> rr_provider r | None \<Rightarrow> rc_default_provider c)"

definition get_client :: "router_config \<Rightarrow> string \<Rightarrow> model_error + provider_config" where
  "get_client c provider =
     (case hm_get (rc_providers c) provider of None \<Rightarrow> Inl (Provider_Not_Found provider) | Some p \<Rightarrow> Inr p)"

fun is_client_error :: "model_error \<Rightarrow> bool" where
  "is_client_error (Api_Error status _) \<longleftrightarrow> 400 \<le> status \<and> status < 500"
| "is_client_error _ \<longleftrightarrow> False"

fun chat_with_fallbacks ::
    "router_config \<Rightarrow> ('x, 'r, 'w) provider_call \<Rightarrow> 'x completion_request \<Rightarrow> string list \<Rightarrow> model_error option \<Rightarrow> 'w
       \<Rightarrow> (model_error + 'r) \<times> 'w" where
  "chat_with_fallbacks c call q [] last_err w =
     (Inl (case last_err of None \<Rightarrow> No_Provider | Some e \<Rightarrow> e), w)"
| "chat_with_fallbacks c call q (m # ms) last_err w =
     (case get_client c (select_provider c m) of
        Inl e \<Rightarrow> (Inl e, w)
      | Inr p \<Rightarrow>
          (case call p (q\<lparr>cr_model := m\<rparr>) w of
             (Inr r, w') \<Rightarrow> (Inr r, w')
           | (Inl e, w') \<Rightarrow> chat_with_fallbacks c call q ms (Some e) w'))"

definition chat ::
    "router_config \<Rightarrow> ('x, 'r, 'w) provider_call \<Rightarrow> 'x completion_request \<Rightarrow> 'w \<Rightarrow> (model_error + 'r) \<times> 'w" where
  "chat c call q w =
     (case get_client c (select_provider c (cr_model q)) of
        Inl e \<Rightarrow> (Inl e, w)
      | Inr p \<Rightarrow>
          (case call p q w of
             (Inr r, w') \<Rightarrow> (Inr r, w')
           | (Inl e, w') \<Rightarrow>
               if is_client_error e \<and> rc_fallback_models c \<noteq> []
               then chat_with_fallbacks c call q (rc_fallback_models c) None w'
               else (Inl e, w')))"

section \<open>Server-sent events\<close>

definition parse_data_line :: "(string \<Rightarrow> 'c option) \<Rightarrow> string \<Rightarrow> (model_error + 'c) option" where
  "parse_data_line dec line =
     (case strip_prefix ''data:'' line of
        None \<Rightarrow> None
      | Some payload \<Rightarrow>
          if trim payload = ''[DONE]'' then None
          else Some (case dec (trim payload) of None \<Rightarrow> Inl Json_Error | Some c \<Rightarrow> Inr c))"

definition chomp :: "string \<Rightarrow> string" where
  "chomp l = rev (dropWhile (\<lambda>c. c = CHR 0x0D) (rev l))"

function consume_line :: "(string \<Rightarrow> 'c option) \<Rightarrow> string \<Rightarrow> (model_error + 'c) option \<times> string" where
  "consume_line dec buf =
     (case split_once newline buf of
        None \<Rightarrow> (None, buf)
      | Some (l, rest) \<Rightarrow>
          if chomp l = [] then consume_line dec rest else (parse_data_line dec (chomp l), rest))"
  by pat_completeness auto
termination
  by (relation "measure (\<lambda>(d, b). length b)") (auto dest: split_once_Some)

declare consume_line.simps [simp del]

type_synonym byte_stream = "(model_error + string) list"

fun sse_next ::
    "(string \<Rightarrow> 'c option) \<Rightarrow> (string \<Rightarrow> string) \<Rightarrow> byte_stream \<Rightarrow> string
       \<Rightarrow> ((model_error + 'c) \<times> byte_stream \<times> string) option" where
  "sse_next dec lossy [] buf =
     (case consume_line dec buf of
        (Some r, b) \<Rightarrow> Some (r, [], b)
      | (None, b) \<Rightarrow>
          if b = [] then None else map_option (\<lambda>r. (r, [], [])) (parse_data_line dec (trim b)))"
| "sse_next dec lossy (x # xs) buf =
     (case consume_line dec buf of
        (Some r, b) \<Rightarrow> Some (r, x # xs, b)
      | (None, b) \<Rightarrow>
          (case x of
             Inl e \<Rightarrow> Some (Inl e, xs, b)
           | Inr bytes \<Rightarrow> sse_next dec lossy xs (b @ lossy bytes)))"

lemma consume_line_shorter:
  "consume_line dec buf = (r, b) \<Longrightarrow> length b \<le> length buf \<and> (r \<noteq> None \<longrightarrow> length b < length buf)"
proof (induction dec buf rule: consume_line.induct)
  case (1 dec buf)
  show ?case
  proof (cases "split_once newline buf")
    case None
    with 1 show ?thesis by (simp add: consume_line.simps)
  next
    case (Some p)
    then obtain l rest where p: "split_once newline buf = Some (l, rest)" "length rest < length buf"
      by (cases p) (auto dest: split_once_Some)
    show ?thesis
    proof (cases "chomp l = []")
      case True
      then have "consume_line dec rest = (r, b)"
        using 1(2) p(1) by (simp add: consume_line.simps [of dec buf])
      then show ?thesis
        using 1(1) [OF p(1) refl True] p(2) by auto
    next
      case False
      then show ?thesis
        using 1(2) p by (simp add: consume_line.simps [of dec buf])
    qed
  qed
qed

lemma sse_next_le: "sse_next dec lossy xs buf = Some (r, xs', b) \<Longrightarrow> length xs' \<le> length xs"
proof (induction dec lossy xs buf rule: sse_next.induct)
  case (2 dec lossy x xs buf)
  then show ?case
    by (cases "consume_line dec buf") (force split: option.splits sum.splits)
qed (auto split: option.splits prod.splits if_splits)

lemma sse_next_shorter:
  assumes "sse_next dec lossy xs buf = Some (r, xs', b)"
  shows "length xs' < length xs \<or> xs' = xs \<and> length b < length buf"
proof (cases xs)
  case Nil
  then show ?thesis
    using assms by (auto dest: consume_line_shorter split: option.splits if_splits prod.splits)
next
  case (Cons x ys)
  then show ?thesis
    using assms by (auto dest: consume_line_shorter sse_next_le split: option.splits prod.splits sum.splits)
qed

text \<open>All items of the stream.\<close>

function sse_all ::
    "(string \<Rightarrow> 'c option) \<Rightarrow> (string \<Rightarrow> string) \<Rightarrow> byte_stream \<Rightarrow> string \<Rightarrow> (model_error + 'c) list" where
  "sse_all dec lossy xs buf =
     (case sse_next dec lossy xs buf of None \<Rightarrow> [] | Some (r, xs', b) \<Rightarrow> r # sse_all dec lossy xs' b)"
  by pat_completeness auto
termination
  by (relation "inv_image (less_than <*lex*> less_than) (\<lambda>(d, l, xs, b). (length xs, length b))") (auto dest: sse_next_shorter)

declare sse_all.simps [simp del]

subsection \<open>Streams of data lines\<close>

text \<open>
  A text of complete lines, each blank or a data line that is not the end marker, and what its lines say.
\<close>

definition data_lines :: "(string \<Rightarrow> 'c option) \<Rightarrow> string \<Rightarrow> bool" where
  "data_lines dec t \<longleftrightarrow> last (split_on newline t) = []
     \<and> (\<forall>l \<in> set (butlast (split_on newline t)). chomp l \<noteq> [] \<longrightarrow> parse_data_line dec (chomp l) \<noteq> None)"

definition line_items :: "(string \<Rightarrow> 'c option) \<Rightarrow> string \<Rightarrow> (model_error + 'c) list" where
  "line_items dec t =
     map (the \<circ> parse_data_line dec) (filter (\<lambda>l. l \<noteq> []) (map chomp (butlast (split_on newline t))))"

lemma first_line:
  assumes "newline \<notin> set l"
  shows "line_items dec (l @ newline # t) = (if chomp l = [] then [] else [the (parse_data_line dec (chomp l))]) @ line_items dec t"
    and "data_lines dec (l @ newline # t) \<longleftrightarrow> (chomp l \<noteq> [] \<longrightarrow> parse_data_line dec (chomp l) \<noteq> None) \<and> data_lines dec t"
  using split_on_Cons_sep [OF assms, of t] by (auto simp: line_items_def data_lines_def)

lemma consume_line_Some:
  "consume_line dec buf = (Some r, b) \<Longrightarrow> data_lines dec (buf @ later) \<Longrightarrow>
     line_items dec (buf @ later) = r # line_items dec (b @ later) \<and> data_lines dec (b @ later)"
proof (induction dec buf rule: consume_line.induct)
  case (1 dec buf)
  then obtain l rest where p: "split_once newline buf = Some (l, rest)"
    by (auto simp: consume_line.simps [of dec buf] split: option.splits)
  then have buf: "buf @ later = l @ newline # (rest @ later)" "newline \<notin> set l"
    by (auto dest: split_once_Some)
  show ?case
  proof (cases "chomp l = []")
    case True
    then have "consume_line dec rest = (Some r, b)"
      using 1(2) p by (simp add: consume_line.simps [of dec buf])
    then show ?thesis
      using 1(1) [OF p refl True] 1(3) True unfolding buf(1) by (simp add: first_line [OF buf(2)])
  next
    case False
    then show ?thesis
      using 1(2,3) p unfolding buf(1) by (auto simp: first_line [OF buf(2)] consume_line.simps [of dec buf])
  qed
qed

lemma consume_line_None:
  "consume_line dec buf = (None, b) \<Longrightarrow> data_lines dec (buf @ later) \<Longrightarrow>
     line_items dec (buf @ later) = line_items dec (b @ later) \<and> data_lines dec (b @ later) \<and> newline \<notin> set b"
proof (induction dec buf rule: consume_line.induct)
  case (1 dec buf)
  show ?case
  proof (cases "split_once newline buf")
    case None
    then have "newline \<notin> set buf"
      by (simp add: split_once_None)
    then show ?thesis
      using 1(2,3) None by (simp add: consume_line.simps [of dec buf])
  next
    case (Some q)
    then obtain l rest where p: "split_once newline buf = Some (l, rest)"
      by (cases q) auto
    then have buf: "buf @ later = l @ newline # (rest @ later)" "newline \<notin> set l"
      by (auto dest: split_once_Some)
    show ?thesis
    proof (cases "chomp l = []")
      case True
      then have "consume_line dec rest = (None, b)"
        using 1(2) p by (simp add: consume_line.simps [of dec buf])
      then show ?thesis
        using 1(1) [OF p refl True] 1(3) True unfolding buf(1) by (simp add: first_line [OF buf(2)])
    next
      case False
      then show ?thesis
        using 1(2,3) p unfolding buf(1) by (auto simp: first_line [OF buf(2)] consume_line.simps [of dec buf])
    qed
  qed
qed

lemma sse_next_lines:
  assumes "\<And>t. t \<in> set ts \<Longrightarrow> lossy t = t" and "data_lines dec (buf @ concat ts)"
  shows "case sse_next dec lossy (map Inr ts) buf of
      None \<Rightarrow> line_items dec (buf @ concat ts) = []
    | Some (r, xs, b) \<Rightarrow> \<exists>ts'. xs = map Inr ts' \<and> set ts' \<subseteq> set ts \<and> data_lines dec (b @ concat ts')
        \<and> line_items dec (buf @ concat ts) = r # line_items dec (b @ concat ts')"
  using assms
proof (induction ts arbitrary: buf)
  case Nil
  show ?case
  proof (cases "consume_line dec buf")
    case (Pair r b)
    show ?thesis
    proof (cases r)
      case None
      then have b: "newline \<notin> set b" "data_lines dec b" "line_items dec buf = line_items dec b"
        using consume_line_None [of dec buf b "[]"] Pair Nil(2) by simp_all
      then have "b = []"
        by (simp add: data_lines_def split_on_no_sep)
      then show ?thesis
        using Pair None b(3) by (simp add: line_items_def)
    next
      case (Some x)
      then show ?thesis
        using consume_line_Some [of dec buf x b "[]"] Pair Nil(2) by simp
    qed
  qed
next
  case (Cons t ts)
  show ?case
  proof (cases "consume_line dec buf")
    case (Pair r b)
    show ?thesis
    proof (cases r)
      case None
      then have b: "data_lines dec ((b @ t) @ concat ts)" "line_items dec (buf @ concat (t # ts)) = line_items dec ((b @ t) @ concat ts)"
        using consume_line_None [of dec buf b "concat (t # ts)"] Pair Cons.prems(2) by simp_all
      have "case sse_next dec lossy (map Inr ts) (b @ t) of
          None \<Rightarrow> line_items dec ((b @ t) @ concat ts) = []
        | Some (r, xs, b') \<Rightarrow> \<exists>ts'. xs = map Inr ts' \<and> set ts' \<subseteq> set ts \<and> data_lines dec (b' @ concat ts')
            \<and> line_items dec ((b @ t) @ concat ts) = r # line_items dec (b' @ concat ts')"
        by (rule Cons.IH [OF _ b(1)]) (simp add: Cons.prems(1))
      then show ?thesis
        using Pair None b(2) Cons.prems(1) [of t] by (auto split: option.splits)
    next
      case (Some x)
      then show ?thesis
        using consume_line_Some [of dec buf x b "concat (t # ts)"] Pair Cons.prems(2)
        by (auto intro: exI [of _ "t # ts"])
    qed
  qed
qed


definition one_chunk :: "string \<Rightarrow> string option" where
  "one_chunk s = (if s = ''A'' then Some s else None)"

lemma one_chunk_line: "parse_data_line one_chunk ''data: A'' = Some (Inr ''A'')"
proof -
  have "trim '' A'' = ''A''"
    by code_simp
  then show ?thesis by (simp add: parse_data_line_def strip_prefix_def one_chunk_def)
qed


text \<open>A line with the name of an event makes the stream lose the data line that comes with it in the same
  bytes: it is reported as an error of the JSON codec.\<close>

theorem event_line_loses_chunk:
  "sse_all one_chunk id [Inr (''event: x'' @ [newline] @ ''data: A'' @ [newline, newline] @ ''data: [DONE]'' @ [newline, newline])] []
     = [Inl Json_Error]"
  by code_simp

section \<open>What a fallback does\<close>

text \<open>The calls of models that all fail: the world after them.\<close>

fun all_fail ::
    "router_config \<Rightarrow> ('x, 'r, 'w) provider_call \<Rightarrow> 'x completion_request \<Rightarrow> string list \<Rightarrow> 'w \<Rightarrow> 'w option" where
  "all_fail c call q [] w = Some w"
| "all_fail c call q (m # ms) w =
     (case hm_get (rc_providers c) (select_provider c m) of
        None \<Rightarrow> None
      | Some p \<Rightarrow> (case call p (q\<lparr>cr_model := m\<rparr>) w of (Inr _, _) \<Rightarrow> None | (Inl _, w') \<Rightarrow> all_fail c call q ms w'))"

lemma fallbacks_Inr:
  "chat_with_fallbacks c call q ms e w = (Inr r, w') \<Longrightarrow>
     \<exists>before m after p w1. ms = before @ m # after \<and> all_fail c call q before w = Some w1
       \<and> hm_get (rc_providers c) (select_provider c m) = Some p \<and> call p (q\<lparr>cr_model := m\<rparr>) w1 = (Inr r, w')"
proof (induction ms arbitrary: e w)
  case (Cons m ms)
  obtain p where p: "hm_get (rc_providers c) (select_provider c m) = Some p"
    using Cons.prems by (auto simp: get_client_def split: option.splits)
  obtain x w1 where x: "call p (q\<lparr>cr_model := m\<rparr>) w = (x, w1)"
    by fastforce
  show ?case
  proof (cases x)
    case (Inl f)
    then have "chat_with_fallbacks c call q ms (Some f) w1 = (Inr r, w')"
      using Cons.prems p x by (auto simp: get_client_def)
    from Cons.IH [OF this] obtain before m' after p' w2 where "ms = before @ m' # after" "all_fail c call q before w1 = Some w2"
        "hm_get (rc_providers c) (select_provider c m') = Some p'" "call p' (q\<lparr>cr_model := m'\<rparr>) w2 = (Inr r, w')"
      by blast
    then show ?thesis
      using p x Inl by (intro exI [of _ "m # before"] exI [of _ m'] exI [of _ after] exI [of _ p'] exI [of _ w2]) auto
  next
    case (Inr r')
    then show ?thesis
      using Cons.prems p x by (intro exI [of _ "[]"] exI [of _ m] exI [of _ ms] exI [of _ p] exI [of _ w]) (auto simp: get_client_def)
  qed
qed simp

text \<open>C22: An answer comes from the requested model, or, after a refusal of the request, from the first model of the
  fallbacks that answers, each asked in order with the request of its own name.\<close>

theorem answer_from_first_fallback:
  assumes "chat c call q w = (Inr r, w')"
  shows "\<exists>p. hm_get (rc_providers c) (select_provider c (cr_model q)) = Some p
    \<and> (call p q w = (Inr r, w')
       \<or> (\<exists>e w1 before m after p' w2. call p q w = (Inl e, w1) \<and> is_client_error e
            \<and> rc_fallback_models c = before @ m # after \<and> all_fail c call q before w1 = Some w2
            \<and> hm_get (rc_providers c) (select_provider c m) = Some p' \<and> call p' (q\<lparr>cr_model := m\<rparr>) w2 = (Inr r, w')))"
proof -
  obtain p where p: "hm_get (rc_providers c) (select_provider c (cr_model q)) = Some p"
    using assms by (auto simp: chat_def get_client_def split: option.splits)
  obtain x w1 where x: "call p q w = (x, w1)"
    by fastforce
  show ?thesis
  proof (cases x)
    case (Inl e)
    then have "is_client_error e" "chat_with_fallbacks c call q (rc_fallback_models c) None w1 = (Inr r, w')"
      using assms p x by (auto simp: chat_def get_client_def split: if_splits)
    then show ?thesis
      using p x Inl fallbacks_Inr [of c call q "rc_fallback_models c" None w1 r w'] by blast
  next
    case (Inr r')
    then show ?thesis
      using assms p x by (auto simp: chat_def get_client_def)
  qed
qed

definition one_provider :: router_config where
  "one_provider = \<lparr>rc_providers = [(''p'', \<lparr>pc_base_url = ''u'', pc_api_key = None\<rparr>)],
     rc_rules = [\<lparr>rr_model_prefix = Some ''x-'', rr_provider = ''gone''\<rparr>], rc_default_provider = ''p'',
     rc_fallback_models = [''x-1'', ''b'']\<rparr>"

definition only_b :: "(unit, string, unit) provider_call" where
  "only_b p q w = (if cr_model q = ''b'' then (Inr ''yes'', w) else (Inl (Api_Error 404 []), w))"

lemma answer_from_first_fallback_witness:
  "chat (one_provider\<lparr>rc_fallback_models := [''c'', ''b'']\<rparr>) only_b \<lparr>cr_model = ''a'', cr_rest = ()\<rparr> () = (Inr ''yes'', ())
    \<and> (\<exists>p. hm_get (rc_providers one_provider) ''p'' = Some p)"
proof -
  have *: "chat (one_provider\<lparr>rc_fallback_models := [''c'', ''b'']\<rparr>) only_b \<lparr>cr_model = ''a'', cr_rest = ()\<rparr> () = (Inr ''yes'', ())"
    by code_simp
  have "select_provider (one_provider\<lparr>rc_fallback_models := [''c'', ''b'']\<rparr>) ''a'' = ''p''"
    by code_simp
  then show ?thesis
    using answer_from_first_fallback [OF *] * by auto
qed

text \<open>A fallback whose provider is not configured ends the search, although a later one would answer.\<close>

theorem missing_provider_ends_search:
  "chat one_provider only_b \<lparr>cr_model = ''a'', cr_rest = ()\<rparr> () = (Inl (Provider_Not_Found ''gone''), ())
    \<and> only_b \<lparr>pc_base_url = ''u'', pc_api_key = None\<rparr> \<lparr>cr_model = ''b'', cr_rest = ()\<rparr> () = (Inr ''yes'', ())
    \<and> get_client one_provider (select_provider one_provider ''b'') = Inr \<lparr>pc_base_url = ''u'', pc_api_key = None\<rparr>"
  by code_simp

section \<open>The chain of models\<close>

record 'c model_chain =
  ch_bitnet :: "'c option"
  ch_standard :: "'c option"
  ch_deep :: "'c option"

datatype 'c model_selection = Deep_Model 'c | Standard_Model 'c | Bitnet_Full 'c | No_Model

definition chain_select :: "message_classification \<Rightarrow> 'c model_chain \<Rightarrow> 'c model_selection" where
  "chain_select cl ch =
     (case (cl_needs_deep_model cl, ch_deep ch) of
        (True, Some d) \<Rightarrow> Deep_Model d
      | _ \<Rightarrow>
          (case ch_standard ch of
             Some s \<Rightarrow> Standard_Model s
           | None \<Rightarrow> (case ch_bitnet ch of Some b \<Rightarrow> Bitnet_Full b | None \<Rightarrow> No_Model)))"

definition chain_offline :: "'c model_chain \<Rightarrow> bool" where
  "chain_offline ch \<longleftrightarrow> ch_standard ch = None \<and> ch_deep ch = None"

record chain_report =
  cs_bitnet :: bool
  cs_standard :: bool
  cs_deep :: bool
  cs_mode :: string

definition chain_status :: "'c model_chain \<Rightarrow> chain_report" where
  "chain_status ch =
     \<lparr>cs_bitnet = (ch_bitnet ch \<noteq> None), cs_standard = (ch_standard ch \<noteq> None), cs_deep = (ch_deep ch \<noteq> None),
      cs_mode = (if ch_standard ch \<noteq> None then ''connected''
                 else if ch_bitnet ch \<noteq> None then ''offline (BitNet)'' else ''no models'')\<rparr>"

fun selection_is_none :: "'c model_selection \<Rightarrow> bool" where
  "selection_is_none No_Model \<longleftrightarrow> True"
| "selection_is_none _ \<longleftrightarrow> False"

fun selection_client :: "'c model_selection \<Rightarrow> 'c option" where
  "selection_client (Deep_Model c) = Some c"
| "selection_client (Standard_Model c) = Some c"
| "selection_client (Bitnet_Full c) = Some c"
| "selection_client No_Model = None"

fun chain_tier_label :: "'c model_selection \<Rightarrow> string" where
  "chain_tier_label (Deep_Model _) = ''deep''"
| "chain_tier_label (Standard_Model _) = ''standard''"
| "chain_tier_label (Bitnet_Full _) = ''bitnet''"
| "chain_tier_label No_Model = ''none''"

text \<open>A chain that has only the deep model is connected, but reports that it has no models and gives none for a
  simple message.\<close>

theorem deep_only_chain_refuses:
  "chain_select (cl\<lparr>cl_needs_deep_model := False\<rparr>) \<lparr>ch_bitnet = None, ch_standard = None, ch_deep = Some d\<rparr> = No_Model
    \<and> cs_mode (chain_status \<lparr>ch_bitnet = None, ch_standard = None, ch_deep = Some d\<rparr>) = ''no models''
    \<and> \<not> chain_offline \<lparr>ch_bitnet = None, ch_standard = None, ch_deep = Some d\<rparr>
    \<and> chain_select (cl\<lparr>cl_needs_deep_model := True\<rparr>) \<lparr>ch_bitnet = None, ch_standard = None, ch_deep = Some d\<rparr> = Deep_Model d"
  by (simp add: chain_select_def chain_status_def chain_offline_def)

section \<open>Models called by procedures\<close>

record invoke_config =
  iv_max_tokens :: nat
  iv_max_invocations :: nat
  iv_timeout_ms :: nat

definition default_invoke_config :: invoke_config where
  "default_invoke_config = \<lparr>iv_max_tokens = 1024, iv_max_invocations = 3, iv_timeout_ms = 30000\<rparr>"

datatype invoke_error = Model_Error string | Parse_Error | Budget_Exceeded | Invoke_Timeout nat

datatype invoke_message = System_Text string | User_Text string

text \<open>What became of the call of the client within its time.\<close>

datatype completion = Late | Refused string | Completed "string option"

record ('w, 'x) agent_invoke =
  iv_config :: invoke_config
  iv_complete :: "invoke_message list \<Rightarrow> 'w \<Rightarrow> completion \<times> 'w"
  iv_filter :: "(string \<Rightarrow> pii_match list) option"

text \<open>The state is the number of invocations and the world; \<open>None\<close> is a panic of the redaction.\<close>

definition invoke ::
    "('w, 'x) agent_invoke \<Rightarrow> string \<Rightarrow> string \<Rightarrow> string option \<Rightarrow> nat \<times> 'w
       \<Rightarrow> (invoke_error + string) option \<times> nat \<times> 'w" where
  "invoke a system_prompt user_content response_format s =
     (case s of (n, w) \<Rightarrow>
        if iv_max_invocations (iv_config a) \<le> n then (Some (Inl Budget_Exceeded), n + 1, w)
        else
          (case (case iv_filter a of
                   Some detect \<Rightarrow> map_option (\<lambda>(r, m, _). (r, Some m)) (redact detect user_content)
                 | None \<Rightarrow> Some (user_content, None)) of
             None \<Rightarrow> (None, n + 1, w)
           | Some (content, rmap) \<Rightarrow>
               (let messages = [System_Text system_prompt]
                      @ (case response_format of
                           None \<Rightarrow> []
                         | Some f \<Rightarrow> [System_Text (''Respond using the following JSON schema:'' @ [newline] @ f)])
                      @ [User_Text content];
                    (c, w') = iv_complete a messages w
                in (Some (case c of
                      Late \<Rightarrow> Inl (Invoke_Timeout (iv_timeout_ms (iv_config a)))
                    | Refused e \<Rightarrow> Inl (Model_Error e)
                    | Completed None \<Rightarrow> Inl Parse_Error
                    | Completed (Some raw) \<Rightarrow> Inr (case rmap of Some m \<Rightarrow> restore_text m raw | None \<Rightarrow> raw)),
                    n + 1, w'))))"

text \<open>A client that writes down what it is asked.\<close>

definition logged :: "(invoke_message list \<Rightarrow> completion) \<Rightarrow> invoke_message list \<Rightarrow> invoke_message list list \<Rightarrow> completion \<times> invoke_message list list" where
  "logged f ms l = (f ms, l @ [ms])"

fun invoke_each ::
    "(invoke_message list list, 'x) agent_invoke \<Rightarrow> (string \<times> string \<times> string option) list \<Rightarrow> nat \<times> invoke_message list list
       \<Rightarrow> nat \<times> invoke_message list list" where
  "invoke_each a [] s = s"
| "invoke_each a ((p, u, f) # qs) s = invoke_each a qs (snd (invoke a p u f s))"

lemma invoke_counts: "fst (snd (invoke a p u f (n, w))) = n + 1"
  by (auto simp: invoke_def Let_def split: prod.splits option.splits)

lemma invoke_asks:
  assumes "iv_complete a = logged g"
  shows "length (snd (snd (invoke a p u f (n, w)))) \<le> length w + (if n < iv_max_invocations (iv_config a) then 1 else 0)"
  using assms by (auto simp: invoke_def Let_def logged_def split: prod.splits option.splits)

text \<open>However often a procedure invokes its model, the model is asked at most as often as the limit says.\<close>

theorem invocations_within_budget:
  assumes "iv_complete a = logged g"
  shows "length (snd (invoke_each a qs (0, []))) \<le> iv_max_invocations (iv_config a)"
proof -
  have "length (snd (invoke_each a qs (n, l))) \<le> length l + (iv_max_invocations (iv_config a) - n)" for n l
  proof (induction qs arbitrary: n l)
    case (Cons q qs)
    obtain p u f where q: "q = (p, u, f)" by (cases q)
    obtain n' l' where r: "snd (invoke a p u f (n, l)) = (n', l')" by fastforce
    have "n' = n + 1" "length l' \<le> length l + (if n < iv_max_invocations (iv_config a) then 1 else 0)"
      using invoke_counts [of a p u f n l] invoke_asks [OF assms, of p u f n l] r by simp_all
    then show ?case
      using Cons.IH [of n' l'] q r by (auto split: if_splits)
  qed simp
  from this [of 0 "[]"] show ?thesis by simp
qed


definition echo_invoke :: "(invoke_message list list, unit) agent_invoke" where
  "echo_invoke = \<lparr>iv_config = default_invoke_config,
     iv_complete = logged (\<lambda>ms. Completed (case last ms of User_Text t \<Rightarrow> Some t | _ \<Rightarrow> None)),
     iv_filter = Some (detect_pii ascii_unicode no_regex default_config)\<rparr>"

lemma invocations_within_budget_witness:
  "length (snd (invoke_each echo_invoke [(''p'', ''u'', None), (''p'', ''v'', None)] (0, []))) \<le> 3"
  using invocations_within_budget [of echo_invoke "\<lambda>ms. Completed (case last ms of User_Text t \<Rightarrow> Some t | _ \<Rightarrow> None)"
      "[(''p'', ''u'', None), (''p'', ''v'', None)]"]
  by (simp only: echo_invoke_def default_invoke_config_def agent_invoke.simps invoke_config.simps)


end
