(* ===== verification/Json_Values.thy ===== *)
theory Json_Values
  imports Prelude "HOL-Library.Word"
begin

text \<open>
  The accessors of JSON values (\<open>serde_json::Value\<close>) and the store of named values that several
  components share.  A number is its text: a natural number is one that is written with digits only.
\<close>

fun json_as_bool :: "json \<Rightarrow> bool option" where
  "json_as_bool (JBool b) = Some b"
| "json_as_bool _ = None"

fun json_as_array :: "json \<Rightarrow> json list option" where
  "json_as_array (JArray xs) = Some xs"
| "json_as_array _ = None"

fun json_as_u64 :: "json \<Rightarrow> nat option" where
  "json_as_u64 (JNumber s) = (if list_all is_ascii_digit s then parse_uint 64 s else None)"
| "json_as_u64 _ = None"

fun json_is_null :: "json \<Rightarrow> bool" where
  "json_is_null JNull \<longleftrightarrow> True"
| "json_is_null _ \<longleftrightarrow> False"

definition json_nat :: "nat \<Rightarrow> json" where
  "json_nat n = JNumber (show_nat n)"

lemma json_as_u64_nat [simp]: "json_as_u64 (json_nat n) = (if n < 2 ^ 64 then Some n else None)"
  using show_nat_digits [of n] by (simp add: json_nat_def parse_show_nat)

definition field_str :: "string \<Rightarrow> json \<Rightarrow> string option" where
  "field_str k j = Option.bind (json_get k j) json_as_str"

section \<open>A store of named values\<close>

text \<open>\<open>StateStore\<close> of the platform: what is assumed of it is that a value that was set is got.\<close>

record 's state_store =
  st_get :: "string \<Rightarrow> 's \<Rightarrow> json option"
  st_set :: "string \<Rightarrow> json \<Rightarrow> 's \<Rightarrow> 's"

definition state_store_laws :: "'s state_store \<Rightarrow> bool" where
  "state_store_laws st \<longleftrightarrow>
     (\<forall>k v s k'. st_get st k' (st_set st k v s) = (if k' = k then Some v else st_get st k' s))"

lemma state_store_get_set:
  "state_store_laws st \<Longrightarrow> st_get st k' (st_set st k v s) = (if k' = k then Some v else st_get st k' s)"
  by (simp add: state_store_laws_def)

definition map_store :: "(string, json) hmap state_store" where
  "map_store = \<lparr>st_get = (\<lambda>k m. hm_get m k), st_set = hm_insert\<rparr>"

lemma map_store_laws: "state_store_laws map_store"
  by (simp add: state_store_laws_def map_store_def hm_simps)

end
