(* ===== verification/Heartbeat.thy ===== *)
theory Heartbeat
  imports Json_Values
begin

text \<open>
  The heartbeat of the agent (\<open>crates/core/src/heartbeat.rs\<close>): its configuration, the quiet hours, and the
  tick that looks for work and wakes the agent at most so many times a day.

  The state store, the JSON codecs of the configuration and of the checklist, the task manager, the event
  spine and the emitter of the pipeline belong to the platform.  The hour and the date of the local clock are
  arguments.
\<close>

record heartbeat_config =
  hc_enabled :: bool
  hc_interval_secs :: nat
  hc_quiet_hours_enabled :: bool
  hc_quiet_hours_start :: nat
  hc_quiet_hours_end :: nat
  hc_max_proactive_per_day :: nat

definition default_heartbeat_config :: heartbeat_config where
  "default_heartbeat_config =
     \<lparr>hc_enabled = True, hc_interval_secs = 30, hc_quiet_hours_enabled = True, hc_quiet_hours_start = 23,
      hc_quiet_hours_end = 8, hc_max_proactive_per_day = 6\<rparr>"

definition is_quiet_hour :: "heartbeat_config \<Rightarrow> nat \<Rightarrow> bool" where
  "is_quiet_hour c hour \<longleftrightarrow>
     hc_quiet_hours_enabled c
     \<and> (if hc_quiet_hours_start c \<le> hc_quiet_hours_end c
        then hc_quiet_hours_start c \<le> hour \<and> hour < hc_quiet_hours_end c
        else hc_quiet_hours_start c \<le> hour \<or> hour < hc_quiet_hours_end c)"

record checklist_item =
  ci_id :: string
  ci_description :: string
  ci_command :: string
  ci_enabled :: bool

text \<open>
  What the runner works with, and what it changes: the store, the counter of ticks and the world behind the
  spine and the pipeline.
\<close>

record ('s, 'w) heartbeat_runner =
  hr_config :: heartbeat_config
  hr_state :: "'s state_store"
  hr_config_of_json :: "json \<Rightarrow> heartbeat_config option"
  hr_config_to_json :: "heartbeat_config \<Rightarrow> json option"
  hr_checklist_of_json :: "json \<Rightarrow> checklist_item list option"
  hr_event_spine :: "(string \<Rightarrow> 'w \<Rightarrow> 'w) option"
  hr_pipeline_emitter :: "(string \<Rightarrow> int \<Rightarrow> 'w \<Rightarrow> 'w) option"
  hr_task_manager :: "(('w \<Rightarrow> bool) \<times> ('w \<Rightarrow> nat)) option"

record ('s, 'w) heartbeat_state =
  hs_store :: 's
  hs_tick :: "64 word"
  hs_world :: 'w

definition next_tick :: "('s, 'w) heartbeat_state \<Rightarrow> int \<times> ('s, 'w) heartbeat_state" where
  "next_tick s = (sint (hs_tick s), s\<lparr>hs_tick := hs_tick s + 1\<rparr>)"

definition load_heartbeat_config :: "('s, 'w) heartbeat_runner \<Rightarrow> 's \<Rightarrow> ('s, 'w) heartbeat_runner \<times> 's" where
  "load_heartbeat_config r s =
     (case st_get (hr_state r) ''heartbeat/config'' s of
        Some v \<Rightarrow> (case hr_config_of_json r v of Some c \<Rightarrow> (r\<lparr>hr_config := c\<rparr>, s) | None \<Rightarrow> (r, s))
      | None \<Rightarrow>
          (r, case hr_config_to_json r (hr_config r) of
                Some v \<Rightarrow> st_set (hr_state r) ''heartbeat/config'' v s
              | None \<Rightarrow> s))"

definition save_heartbeat_config :: "('s, 'w) heartbeat_runner \<Rightarrow> 's \<Rightarrow> 's" where
  "save_heartbeat_config r s =
     (case hr_config_to_json r (hr_config r) of
        Some v \<Rightarrow> st_set (hr_state r) ''heartbeat/config'' v s
      | None \<Rightarrow> s)"

definition set_heartbeat_config ::
    "heartbeat_config \<Rightarrow> ('s, 'w) heartbeat_runner \<Rightarrow> 's \<Rightarrow> ('s, 'w) heartbeat_runner \<times> 's" where
  "set_heartbeat_config c r s = (r\<lparr>hr_config := c\<rparr>, save_heartbeat_config (r\<lparr>hr_config := c\<rparr>) s)"

section \<open>Work\<close>

definition stored_array :: "('s, 'w) heartbeat_runner \<Rightarrow> string \<Rightarrow> 's \<Rightarrow> json list" where
  "stored_array r k s =
     (case Option.bind (st_get (hr_state r) k s) json_as_array of None \<Rightarrow> [] | Some xs \<Rightarrow> xs)"

definition pending_task_items :: "('s, 'w) heartbeat_runner \<Rightarrow> 's \<Rightarrow> string list" where
  "pending_task_items r s =
     List.map_filter (\<lambda>t. map_option (\<lambda>d. ''pending task: '' @ d) (field_str ''description'' t))
       (stored_array r ''pending_tasks'' s)"

definition load_checklist :: "('s, 'w) heartbeat_runner \<Rightarrow> 's \<Rightarrow> checklist_item list" where
  "load_checklist r s =
     (case Option.bind (st_get (hr_state r) ''heartbeat/checklist'' s) (hr_checklist_of_json r) of
        None \<Rightarrow> [] | Some xs \<Rightarrow> xs)"

definition checklist_items :: "('s, 'w) heartbeat_runner \<Rightarrow> 's \<Rightarrow> string list" where
  "checklist_items r s = map (\<lambda>i. ''checklist: '' @ ci_command i) (filter ci_enabled (load_checklist r s))"

definition promise_completed :: "json \<Rightarrow> bool" where
  "promise_completed p =
     (case Option.bind (json_get ''completed'' p) json_as_bool of None \<Rightarrow> False | Some b \<Rightarrow> b)"

definition promise_items :: "('s, 'w) heartbeat_runner \<Rightarrow> 's \<Rightarrow> string list" where
  "promise_items r s =
     List.map_filter
       (\<lambda>p. case field_str ''what'' p of
              None \<Rightarrow> None
            | Some what \<Rightarrow> if promise_completed p then None else Some (''unfulfilled promise: '' @ what))
       (stored_array r ''agent_promises'' s)"

text \<open>Whether the manager has pending work, and how many tasks it could run.\<close>

definition has_pending_work :: "('s, 'w) heartbeat_runner \<Rightarrow> 'w \<Rightarrow> bool" where
  "has_pending_work r w \<longleftrightarrow> (case hr_task_manager r of None \<Rightarrow> False | Some (pending, _) \<Rightarrow> pending w)"

definition task_items :: "('s, 'w) heartbeat_runner \<Rightarrow> 'w \<Rightarrow> string list" where
  "task_items r w =
     (case hr_task_manager r of
        None \<Rightarrow> []
      | Some (pending, evaluable) \<Rightarrow>
          if pending w then [''tasks: '' @ show_nat (evaluable w) @ '' evaluable task(s) pending execution''] else [])"

definition work_items :: "('s, 'w) heartbeat_runner \<Rightarrow> ('s, 'w) heartbeat_state \<Rightarrow> string list" where
  "work_items r s =
     pending_task_items r (hs_store s) @ checklist_items r (hs_store s) @ promise_items r (hs_store s)
       @ task_items r (hs_world s)"

section \<open>The tick\<close>

definition load_daily_count :: "('s, 'w) heartbeat_runner \<Rightarrow> 's \<Rightarrow> nat \<times> string" where
  "load_daily_count r s =
     ((case Option.bind (st_get (hr_state r) ''heartbeat/daily_count'' s) json_as_u64 of None \<Rightarrow> 0 | Some n \<Rightarrow> n) mod 2 ^ 32,
      case Option.bind (st_get (hr_state r) ''heartbeat/daily_date'' s) json_as_str of None \<Rightarrow> [] | Some d \<Rightarrow> d)"

definition save_daily_count :: "('s, 'w) heartbeat_runner \<Rightarrow> nat \<Rightarrow> string \<Rightarrow> 's \<Rightarrow> 's" where
  "save_daily_count r n date s =
     st_set (hr_state r) ''heartbeat/daily_date'' (JString date)
       (st_set (hr_state r) ''heartbeat/daily_count'' (json_nat n) s)"

datatype heartbeat_outcome = Skipped | Dispatched int | Escalated string

definition heartbeat_message :: "string list \<Rightarrow> string" where
  "heartbeat_message items = ''[heartbeat] Work needs attention:'' @ [newline] @ join [newline] items"

definition escalate_tick ::
    "('s, 'w) heartbeat_runner \<Rightarrow> string list \<Rightarrow> nat \<Rightarrow> string \<Rightarrow> ('s, 'w) heartbeat_state
       \<Rightarrow> heartbeat_outcome \<times> ('s, 'w) heartbeat_state" where
  "escalate_tick r items n today s =
     (Escalated (heartbeat_message items),
      s\<lparr>hs_world := (case hr_event_spine r of None \<Rightarrow> hs_world s
                      | Some send \<Rightarrow> send (heartbeat_message items) (hs_world s)),
        hs_store := save_daily_count r (n + 1) today (hs_store s)\<rparr>)"

definition dispatch_tick ::
    "('s, 'w) heartbeat_runner \<Rightarrow> (string \<Rightarrow> int \<Rightarrow> 'w \<Rightarrow> 'w) \<Rightarrow> string \<Rightarrow> nat \<Rightarrow> string \<Rightarrow> ('s, 'w) heartbeat_state
       \<Rightarrow> heartbeat_outcome \<times> ('s, 'w) heartbeat_state" where
  "dispatch_tick r emit fresh n today s =
     (let (t, s') = next_tick s
      in (Dispatched t, s'\<lparr>hs_world := emit fresh t (hs_world s'), hs_store := save_daily_count r (n + 1) today (hs_store s')\<rparr>))"

definition heartbeat_tick ::
    "('s, 'w) heartbeat_runner \<Rightarrow> nat \<Rightarrow> string \<Rightarrow> string \<Rightarrow> ('s, 'w) heartbeat_state
       \<Rightarrow> heartbeat_outcome \<times> ('s, 'w) heartbeat_state" where
  "heartbeat_tick r hour today fresh s =
     (if \<not> hc_enabled (hr_config r) then (Skipped, s)
      else if is_quiet_hour (hr_config r) hour then (Skipped, s)
      else if work_items r s = [] then (Skipped, s)
      else
        (let (stored, date) = load_daily_count r (hs_store s);
             n = (if date = today then stored else 0)
         in if hc_max_proactive_per_day (hr_config r) \<le> n then (Skipped, s)
            else
              (case hr_pipeline_emitter r of
                 Some emit \<Rightarrow>
                   if has_pending_work r (hs_world s) then dispatch_tick r emit fresh n today s
                   else escalate_tick r (work_items r s) n today s
               | None \<Rightarrow> escalate_tick r (work_items r s) n today s)))"

section \<open>Quiet hours\<close>

text \<open>The quiet hours are those of the clock from the start to the end, also across midnight; with the same start
  and end there are none.\<close>

theorem quiet_hours_cyclic:
  assumes "hour < 24" and "hc_quiet_hours_start c < 24" and "hc_quiet_hours_end c < 24"
  shows "is_quiet_hour c hour \<longleftrightarrow> hc_quiet_hours_enabled c
    \<and> (hour + 24 - hc_quiet_hours_start c) mod 24 < (hc_quiet_hours_end c + 24 - hc_quiet_hours_start c) mod 24"
proof -
  have wrap: "(x + 24 - y) mod 24 = (if y \<le> x then x - y else x + 24 - y)" if "x < 24" "y < 24" for x y :: nat
    using that by (simp add: mod_if)
  show ?thesis
    using assms by (auto simp: is_quiet_hour_def wrap)
qed

lemma quiet_hours_cyclic_witness:
  "is_quiet_hour default_heartbeat_config 2 \<and> \<not> is_quiet_hour default_heartbeat_config 12"
  using quiet_hours_cyclic [of 2 default_heartbeat_config] quiet_hours_cyclic [of 12 default_heartbeat_config]
  by (simp add: default_heartbeat_config_def)

section \<open>The limit of a day\<close>

definition daily_count :: "('s, 'w) heartbeat_runner \<Rightarrow> string \<Rightarrow> 's \<Rightarrow> nat" where
  "daily_count r today s = (let (n, date) = load_daily_count r s in if date = today then n else 0)"

lemma daily_count_saved:
  assumes "state_store_laws (hr_state r)" and "n < 2 ^ 32"
  shows "daily_count r today (save_daily_count r n today s) = n"
  using assms(2) by (simp add: daily_count_def save_daily_count_def load_daily_count_def state_store_get_set [OF assms(1)])

lemma tick_cases:
  assumes "heartbeat_tick r hour today fresh s = (out, s')"
  obtains
    (skipped) "out = Skipped" "s' = s"
      "\<not> hc_enabled (hr_config r) \<or> is_quiet_hour (hr_config r) hour \<or> work_items r s = []
         \<or> hc_max_proactive_per_day (hr_config r) \<le> daily_count r today (hs_store s)"
  | (woken) "out \<noteq> Skipped" "hc_enabled (hr_config r)" "\<not> is_quiet_hour (hr_config r) hour" "work_items r s \<noteq> []"
      "daily_count r today (hs_store s) < hc_max_proactive_per_day (hr_config r)"
      "hs_store s' = save_daily_count r (daily_count r today (hs_store s) + 1) today (hs_store s)"
  using assms
  by (auto simp: heartbeat_tick_def escalate_tick_def dispatch_tick_def next_tick_def daily_count_def Let_def
      split: if_splits option.splits prod.splits)

fun heartbeat_day ::
    "('s, 'w) heartbeat_runner \<Rightarrow> string \<Rightarrow> (nat \<times> string) list \<Rightarrow> ('s, 'w) heartbeat_state
       \<Rightarrow> heartbeat_outcome list \<times> ('s, 'w) heartbeat_state" where
  "heartbeat_day r today [] s = ([], s)"
| "heartbeat_day r today ((hour, fresh) # ts) s =
     (let (out, s) = heartbeat_tick r hour today fresh s; (outs, s) = heartbeat_day r today ts s in (out # outs, s))"

text \<open>C18: In the ticks of a day the agent is woken at most as often as the limit allows beyond what was counted for that
  day, never in a quiet hour, and a tick that does not wake it changes nothing.\<close>

theorem heartbeat_daily_limit:
  assumes "state_store_laws (hr_state r)" and "hc_max_proactive_per_day (hr_config r) < 2 ^ 8"
  shows "length (filter (\<lambda>out. out \<noteq> Skipped) (fst (heartbeat_day r today ts s)))
      \<le> hc_max_proactive_per_day (hr_config r) - daily_count r today (hs_store s)
    \<and> (\<forall>i < length ts. is_quiet_hour (hr_config r) (fst (ts ! i)) \<longrightarrow> fst (heartbeat_day r today ts s) ! i = Skipped)
    \<and> ((\<forall>out \<in> set (fst (heartbeat_day r today ts s)). out = Skipped) \<longrightarrow> snd (heartbeat_day r today ts s) = s)"
proof (induction ts arbitrary: s)
  case (Cons t ts)
  obtain hour fresh where t: "t = (hour, fresh)" by (cases t)
  obtain out s1 where tick: "heartbeat_tick r hour today fresh s = (out, s1)" by fastforce
  obtain outs s2 where rest: "heartbeat_day r today ts s1 = (outs, s2)" by fastforce
  have day: "heartbeat_day r today (t # ts) s = (out # outs, s2)"
    using t tick rest by simp
  note IH = Cons.IH [of s1, unfolded rest fst_conv snd_conv]
  from tick show ?case
  proof (cases rule: tick_cases)
    case skipped
    then show ?thesis
      using IH t unfolding day by (auto simp: nth_Cons split: nat.split)
  next
    case woken
    then have "daily_count r today (hs_store s1) = daily_count r today (hs_store s) + 1"
      using daily_count_saved [OF assms(1), of "daily_count r today (hs_store s) + 1" today "hs_store s"] assms(2) by simp
    then show ?thesis
      using IH t woken unfolding day by (auto simp: nth_Cons split: nat.split)
  qed
qed simp

text \<open>A configuration that was set is found by the next runner that loads its configuration.\<close>

theorem heartbeat_config_reloaded:
  assumes "state_store_laws (hr_state r)" and "hr_config_to_json r c = Some v" and "hr_config_of_json r v = Some c"
  shows "hr_config (fst (load_heartbeat_config r (snd (set_heartbeat_config c r s)))) = c"
  using assms(2,3)
  by (simp add: set_heartbeat_config_def save_heartbeat_config_def load_heartbeat_config_def state_store_get_set [OF assms(1)])

text \<open>Work without a spine and without a pipeline uses up the day's limit though nobody is told.\<close>

theorem unheard_work_is_counted:
  assumes "state_store_laws (hr_state r)" and "hc_max_proactive_per_day (hr_config r) < 2 ^ 8"
    and "hr_event_spine r = None" and "hr_pipeline_emitter r = None"
    and "fst (heartbeat_tick r hour today fresh s) \<noteq> Skipped"
  shows "hs_world (snd (heartbeat_tick r hour today fresh s)) = hs_world s
    \<and> daily_count r today (hs_store (snd (heartbeat_tick r hour today fresh s))) = daily_count r today (hs_store s) + 1"
proof -
  obtain out s' where tick: "heartbeat_tick r hour today fresh s = (out, s')" by fastforce
  have world: "hs_world s' = hs_world s"
    using tick assms(3,4) by (auto simp: heartbeat_tick_def escalate_tick_def Let_def split: if_splits prod.splits)
  from tick show ?thesis
  proof (cases rule: tick_cases)
    case woken
    then show ?thesis
      using world tick assms(2) daily_count_saved [OF assms(1), of "daily_count r today (hs_store s) + 1" today "hs_store s"] by simp
  qed (use tick assms(5) in simp)
qed

section \<open>Examples\<close>

definition demo_runner :: "((string, json) hmap, string list) heartbeat_runner" where
  "demo_runner =
     \<lparr>hr_config = default_heartbeat_config\<lparr>hc_max_proactive_per_day := 1\<rparr>, hr_state = map_store,
      hr_config_of_json = (\<lambda>j. if j = JNull then Some default_heartbeat_config else None),
      hr_config_to_json = (\<lambda>c. if c = default_heartbeat_config then Some JNull else None),
      hr_checklist_of_json = (\<lambda>j. None), hr_event_spine = None, hr_pipeline_emitter = None, hr_task_manager = None\<rparr>"

definition demo_heartbeat_state :: "((string, json) hmap, string list) heartbeat_state" where
  "demo_heartbeat_state =
     \<lparr>hs_store = [(''pending_tasks'', JArray [JObject [(''description'', JString ''mail'')]])], hs_tick = 0, hs_world = []\<rparr>"

lemma demo_work: "work_items demo_runner demo_heartbeat_state = [''pending task: mail'']"
  by (simp add: work_items_def pending_task_items_def checklist_items_def promise_items_def task_items_def load_checklist_def
      stored_array_def demo_runner_def demo_heartbeat_state_def map_store_def hm_get_def field_str_def map_filter_def)

lemma demo_woken: "fst (heartbeat_tick demo_runner 12 ''d'' ''f'' demo_heartbeat_state) \<noteq> Skipped"
proof -
  have "daily_count demo_runner ''d'' (hs_store demo_heartbeat_state) = 0"
    by (simp add: daily_count_def load_daily_count_def demo_runner_def demo_heartbeat_state_def map_store_def hm_get_def)
  moreover have "hc_enabled (hr_config demo_runner)" "\<not> is_quiet_hour (hr_config demo_runner) 12"
    "hc_max_proactive_per_day (hr_config demo_runner) = 1"
    by (simp_all add: demo_runner_def default_heartbeat_config_def is_quiet_hour_def)
  moreover obtain out s' where tick: "heartbeat_tick demo_runner 12 ''d'' ''f'' demo_heartbeat_state = (out, s')"
    by fastforce
  ultimately show ?thesis
    using demo_work by (cases rule: tick_cases [OF tick]) simp_all
qed

lemma demo_laws: "state_store_laws (hr_state demo_runner)" "hc_max_proactive_per_day (hr_config demo_runner) < 2 ^ 8"
  using map_store_laws by (simp_all add: demo_runner_def)

lemma heartbeat_daily_limit_witness:
  "length (filter (\<lambda>out. out \<noteq> Skipped) (fst (heartbeat_day demo_runner ''d'' [(12, ''f''), (13, ''g'')] demo_heartbeat_state))) \<le> 1"
  using heartbeat_daily_limit [OF demo_laws, of "''d''" "[(12, ''f''), (13, ''g'')]" demo_heartbeat_state]
  by (auto simp: demo_runner_def)

lemma heartbeat_config_reloaded_witness:
  "hr_config (fst (load_heartbeat_config demo_runner (snd (set_heartbeat_config default_heartbeat_config demo_runner []))))
     = default_heartbeat_config"
  by (rule heartbeat_config_reloaded [of demo_runner _ JNull, OF demo_laws(1)]) (simp_all add: demo_runner_def)

lemma unheard_work_is_counted_witness:
  "hs_world (snd (heartbeat_tick demo_runner 12 ''d'' ''f'' demo_heartbeat_state)) = []"
  using unheard_work_is_counted [OF demo_laws _ _ demo_woken] by (simp add: demo_runner_def demo_heartbeat_state_def)

end
