(* ===== verification/Primitives.thy ===== *)
theory Primitives
  imports Orchestrator
begin

text \<open>
  The built-in procedures of the orchestrator (\<open>core/src/orchestrator/pipeline.rs\<close>): the recall of
  memories by key terms, the extraction of decisions, preferences and facts from a message, and the sweep
  that reports stale and duplicate memories.  A slice that panics is \<open>None\<close>.
\<close>

section \<open>Key terms\<close>

definition pipeline_stopwords :: "string list" where
  "pipeline_stopwords =
    [''a'', ''an'', ''the'', ''is'', ''are'', ''was'', ''were'', ''be'', ''been'', ''being'', ''have'', ''has'', ''had'',
     ''do'', ''does'', ''did'', ''will'', ''would'', ''could'', ''should'', ''may'', ''might'', ''must'', ''shall'',
     ''can'', ''to'', ''of'', ''in'', ''on'', ''at'', ''by'', ''for'', ''with'', ''about'', ''as'', ''into'', ''through'',
     ''during'', ''before'', ''after'', ''above'', ''below'', ''from'', ''up'', ''down'', ''out'', ''off'', ''over'',
     ''under'', ''again'', ''further'', ''then'', ''once'', ''i'', ''me'', ''my'', ''we'', ''our'', ''you'', ''your'', ''he'',
     ''him'', ''his'', ''she'', ''her'', ''it'', ''its'', ''they'', ''them'', ''their'', ''this'', ''that'', ''these'',
     ''those'', ''and'', ''but'', ''or'', ''not'', ''no'', ''so'', ''if'', ''how'', ''what'', ''which'', ''who'', ''when'',
     ''where'', ''why'']"

text \<open>\<open>str::split\<close> with a class of characters.\<close>

fun split_chars :: "(string \<Rightarrow> bool) \<Rightarrow> string list \<Rightarrow> string list" where
  "split_chars p [] = [[]]"
| "split_chars p (w # ws) =
     (if p w then [] # split_chars p ws
      else (case split_chars p ws of [] \<Rightarrow> [w] | v # vs \<Rightarrow> (w @ v) # vs))"

definition extract_key_terms :: "unicode \<Rightarrow> string \<Rightarrow> string list" where
  "extract_key_terms u text =
     sort (remdups (filter (\<lambda>w. w \<notin> set pipeline_stopwords)
       (map (uc_lowercase u)
         (filter (\<lambda>w. 2 < length w) (split_chars (\<lambda>c. \<not> uc_alphanumeric u c) (utf8_chars text))))))"

lemma key_terms_are_terms:
  "distinct (extract_key_terms u text) \<and> sorted (extract_key_terms u text)
    \<and> set (extract_key_terms u text) \<inter> set pipeline_stopwords = {}"
  by (auto simp: extract_key_terms_def)

section \<open>Primitives\<close>

datatype primitive =
    Entity (pr_name: string) (pr_kind: string)
  | Decision (pr_text: string) (pr_context: string)
  | Preference (pr_text: string)
  | Fact (pr_subject: string) (pr_predicate: string) (pr_object: string)

text \<open>
  The characters of a needle against the characters at some place: \<open>None\<close> when the haystack ends first,
  which also ends the search.
\<close>

fun ci_match :: "string list \<Rightarrow> string list \<Rightarrow> bool option" where
  "ci_match [] hs = Some True"
| "ci_match (n # ns) [] = None"
| "ci_match (n # ns) (h # hs) =
     (if map ascii_lower h = map ascii_lower n then ci_match ns hs else Some False)"

fun ci_scan :: "string list \<Rightarrow> nat \<Rightarrow> string list \<Rightarrow> nat option" where
  "ci_scan ns start [] = None"
| "ci_scan ns start (h # hs) =
     (case ci_match ns (h # hs) of
        None \<Rightarrow> None
      | Some True \<Rightarrow> Some start
      | Some False \<Rightarrow> ci_scan ns (start + length h) hs)"

definition find_case_insensitive :: "string \<Rightarrow> string \<Rightarrow> nat option" where
  "find_case_insensitive hay needle =
     (if needle = [] then Some 0 else ci_scan (utf8_chars needle) 0 (utf8_chars hay))"

definition ends_clause :: "char \<Rightarrow> bool" where
  "ends_clause c \<longleftrightarrow> c = CHR ''.'' \<or> c = CHR ''!'' \<or> c = CHR ''?'' \<or> c = newline"

text \<open>What stands between a prefix found at some place and the end of the clause.\<close>

definition clause_after :: "string \<Rightarrow> nat option \<Rightarrow> string \<Rightarrow> string option option" where
  "clause_after text found lead =
     (case found of
        None \<Rightarrow> Some None
      | Some pos \<Rightarrow>
          (case slice text (pos + length lead) (length text) of
             None \<Rightarrow> None
           | Some rest \<Rightarrow>
               (let clause = trim (takeWhile (\<lambda>c. \<not> ends_clause c) rest) in
                Some (if clause = [] then None else Some clause))))"

fun collect :: "('a \<Rightarrow> 'b option option) \<Rightarrow> 'a list \<Rightarrow> 'b list option" where
  "collect f [] = Some []"
| "collect f (x # xs) =
     (case f x of
        None \<Rightarrow> None
      | Some r \<Rightarrow> map_option ((@) (case r of None \<Rightarrow> [] | Some y \<Rightarrow> [y])) (collect f xs))"

definition decision_prefixes :: "string list" where
  "decision_prefixes = [''we decided to '', ''decided to '', ''going with '', ''we chose '', ''chose '']"

definition decisions :: "string \<Rightarrow> primitive list option" where
  "decisions text =
     map_option (map (\<lambda>d. Decision d text))
       (collect (\<lambda>p. clause_after text (find_case_insensitive text p) p) decision_prefixes)"

definition preference_prefixes :: "string list" where
  "preference_prefixes = [''i prefer '', ''always use '', ''never use '', ''prefer to use '']"

definition preferences :: "unicode \<Rightarrow> string \<Rightarrow> primitive list option" where
  "preferences u text =
     map_option (map Preference)
       (collect (\<lambda>p. clause_after text (find_str (uc_lowercase u text) p) p) preference_prefixes)"

definition fact_at :: "unicode \<Rightarrow> string list \<Rightarrow> nat \<Rightarrow> primitive list" where
  "fact_at u ws i =
     (let w = uc_lowercase u (ws ! i);
          subject = join '' '' (take i ws);
          object = join '' '' (take 5 (drop (i + 1) ws)) in
      if (w = ''is'' \<or> w = ''are'') \<and> subject \<noteq> [] \<and> object \<noteq> [] \<and> length (split_whitespace subject) \<le> 4
      then [Fact subject (ws ! i) object] else [])"

definition facts :: "unicode \<Rightarrow> string \<Rightarrow> primitive list" where
  "facts u text =
     (let ws = split_whitespace text in concat (map (fact_at u ws) [1..<length ws - 1]))"

definition extract_primitives :: "unicode \<Rightarrow> string \<Rightarrow> primitive list option" where
  "extract_primitives u text =
     Option.bind (decisions text) (\<lambda>ds.
     Option.bind (preferences u text) (\<lambda>ps. Some (ds @ ps @ facts u text)))"

definition key_char :: "unicode \<Rightarrow> string \<Rightarrow> bool" where
  "key_char u c \<longleftrightarrow> uc_alphanumeric u c \<or> c = ''-'' \<or> c = ''_''"

definition sanitize_key_segment :: "unicode \<Rightarrow> string \<Rightarrow> string" where
  "sanitize_key_segment u s = concat (map (\<lambda>c. if key_char u c then c else ''_'') (utf8_chars s))"

fun primitive_to_state_change :: "unicode \<Rightarrow> primitive \<Rightarrow> string \<times> json" where
  "primitive_to_state_change u (Entity name kind) =
     (''primitive.entity.'' @ sanitize_key_segment u name, JObject [(''kind'', JString kind)])"
| "primitive_to_state_change u (Decision txt ctx) =
     (''primitive.decision'', JObject [(''text'', JString txt), (''context'', JString ctx)])"
| "primitive_to_state_change u (Preference txt) = (''primitive.preference'', JObject [(''text'', JString txt)])"
| "primitive_to_state_change u (Fact subject predicate object) =
     (''primitive.fact.'' @ sanitize_key_segment u subject,
      JObject [(''predicate'', JString predicate), (''object'', JString object)])"

section \<open>Duplicates\<close>

definition at_least :: "'x floats \<Rightarrow> 'x \<Rightarrow> 'x \<Rightarrow> bool" where
  "at_least fo x y \<longleftrightarrow> fo_less fo y x \<or> fo_eq fo x y"

definition duplicates :: "'x floats \<Rightarrow> 'x \<Rightarrow> ('c, 'x) memory \<Rightarrow> ('c, 'x) memory \<Rightarrow> bool" where
  "duplicates fo threshold a b \<longleftrightarrow>
     mm_category a = mm_category b
     \<and> at_least fo (cosine_similarity fo (mm_embedding a) (mm_embedding b)) threshold"

text \<open>The inner loop: the group so far and the positions that are taken.\<close>

definition group_step ::
    "'x floats \<Rightarrow> 'x \<Rightarrow> ('c, 'x) memory list \<Rightarrow> nat \<Rightarrow> string list \<times> nat set \<Rightarrow> nat \<Rightarrow> string list \<times> nat set" where
  "group_step fo threshold es i = (\<lambda>(group, grouped) j.
     if j \<in> grouped then (group, grouped)
     else if duplicates fo threshold (es ! i) (es ! j)
     then (group @ [mm_id (es ! j)], insert j grouped) else (group, grouped))"

definition groups_step ::
    "'x floats \<Rightarrow> 'x \<Rightarrow> ('c, 'x) memory list \<Rightarrow> string list list \<times> nat set \<Rightarrow> nat \<Rightarrow> string list list \<times> nat set" where
  "groups_step fo threshold es = (\<lambda>(groups, grouped) i.
     if i \<in> grouped then (groups, grouped)
     else
       (let (group, grouped') = foldl (group_step fo threshold es i) ([mm_id (es ! i)], grouped) [i + 1..<length es] in
        if 1 < length group then (groups @ [group], insert i grouped') else (groups, grouped')))"

definition find_duplicate_groups :: "'x floats \<Rightarrow> 'x \<Rightarrow> ('c, 'x) memory list \<Rightarrow> string list list" where
  "find_duplicate_groups fo threshold es =
     fst (foldl (groups_step fo threshold es) ([], {}) [0..<length es])"

section \<open>The procedures\<close>

record state_change =
  sc_key :: string
  sc_new :: json

record ('s, 'c, 'x) autorecall =
  au_floats :: "'x floats"
  au_store :: "('s, 'c, 'x) store_ops"
  au_embed :: "'x embedder"
  au_names :: "'c category_names"
  au_window :: nat
  au_top_k :: nat
  au_token_budget :: nat

definition new_autorecall ::
    "'x floats \<Rightarrow> ('s, 'c, 'x) store_ops \<Rightarrow> 'x embedder \<Rightarrow> 'c category_names \<Rightarrow> nat \<Rightarrow> 'x orchestrator_config
      \<Rightarrow> ('s, 'c, 'x) autorecall" where
  "new_autorecall fo so emb cn window cfg =
     \<lparr>au_floats = fo, au_store = so, au_embed = emb, au_names = cn, au_window = window,
      au_top_k = oc_recall_limit cfg, au_token_budget = oc_context_token_budget cfg\<rparr>"

definition run_autorecall ::
    "unicode \<Rightarrow> ('s, 'c, 'x) autorecall \<Rightarrow> event \<Rightarrow> 's \<Rightarrow> state_change list \<times> 's" where
  "run_autorecall u a ev s =
     (case ev of
        Message _ _ _ content \<Rightarrow>
          (let terms = extract_key_terms u content in
           if terms = [] then ([], s)
           else
             (case recall (au_floats a) (au_store a) (au_embed a) (join '' '' terms) (au_top_k a) [] s of
                (Inl _, s') \<Rightarrow> ([], s')
              | (Inr ms, s') \<Rightarrow>
                  if ms = [] then ([], s')
                  else ([\<lparr>sc_key = ''autorecall.context'',
                     sc_new = JString (inject_context (au_names a) (au_window a) ms (Some (au_token_budget a)))\<rparr>], s')))
      | _ \<Rightarrow> ([], s))"

definition run_primitive_extract :: "unicode \<Rightarrow> event \<Rightarrow> state_change list option" where
  "run_primitive_extract u ev =
     (case ev of
        Message _ _ _ content \<Rightarrow>
          map_option (map (\<lambda>p. case primitive_to_state_change u p of (k, v) \<Rightarrow> \<lparr>sc_key = k, sc_new = v\<rparr>))
            (extract_primitives u content)
      | _ \<Rightarrow> Some [])"

record ('s, 'c, 'x) sweep =
  sw_floats :: "'x floats"
  sw_store :: "('s, 'c, 'x) store_ops"
  sw_staleness_days :: nat
  sw_threshold :: 'x

definition new_sweep ::
    "'x floats \<Rightarrow> ('s, 'c, 'x) store_ops \<Rightarrow> 'x orchestrator_config \<Rightarrow> ('s, 'c, 'x) sweep" where
  "new_sweep fo so cfg =
     \<lparr>sw_floats = fo, sw_store = so, sw_staleness_days = oc_staleness_days cfg,
      sw_threshold = oc_similarity_threshold cfg\<rparr>"

definition stale :: "chrono \<Rightarrow> int \<Rightarrow> time \<Rightarrow> ('c, 'x) memory \<Rightarrow> bool" where
  "stale ch cutoff now m \<longleftrightarrow>
     (case parse_rfc3339 ch (mm_created_at m) of None \<Rightarrow> False | Some created \<Rightarrow> cutoff < now - created)"

definition sweep_events :: "('s, 'c, 'x) sweep \<Rightarrow> chrono \<Rightarrow> int \<Rightarrow> time \<Rightarrow> ('c, 'x) memory list \<Rightarrow> state_change list" where
  "sweep_events sw ch cutoff now es =
     (let ids = map mm_id (filter (stale ch cutoff now) es);
          groups = find_duplicate_groups (sw_floats sw) (sw_threshold sw) es in
      (if ids = [] then []
       else [\<lparr>sc_key = ''orchestrator.sweep.stale'', sc_new = JObject [(''ids'', JArray (map JString ids))]\<rparr>])
      @ (if groups = [] then []
         else [\<lparr>sc_key = ''orchestrator.sweep.duplicates'',
            sc_new = JObject [(''groups'', JArray (map (\<lambda>g. JArray (map JString g)) groups))]\<rparr>]))"

text \<open>The panic of a number of days out of range is \<open>None\<close>.\<close>

definition run_sweep ::
    "('s, 'c, 'x) sweep \<Rightarrow> chrono \<Rightarrow> time \<Rightarrow> event \<Rightarrow> 's \<Rightarrow> (state_change list \<times> 's) option" where
  "run_sweep sw ch now ev s =
     (case ev of
        Timer _ _ _ \<Rightarrow>
          (case so_all (sw_store sw) s of
             (Inl _, s') \<Rightarrow> Some ([], s')
           | (Inr es, s') \<Rightarrow>
               if es = [] then Some ([], s')
               else map_option (\<lambda>cutoff. (sweep_events sw ch cutoff now es, s')) (td_days ch (int (sw_staleness_days sw))))
      | _ \<Rightarrow> Some ([], s))"

section \<open>The search for a prefix\<close>

lemma ascii_lower_facts [simp]:
  "is_utf8_cont (ascii_lower c) = is_utf8_cont c"
  "utf8_len (ascii_lower c) = utf8_len c"
  "ascii (ascii_lower c) = ascii c"
proof -
  have "ascii_lower c = c \<or> 65 \<le> (of_char c :: nat) \<and> of_char c \<le> (90 :: nat)
      \<and> (of_char (ascii_lower c) :: nat) = of_char c + 32"
    by (simp add: ascii_lower_def Let_def)
  then consider "ascii_lower c = c" | "65 \<le> (of_char c :: nat)" "of_char c \<le> (90 :: nat)"
      "(of_char (ascii_lower c) :: nat) = of_char c + 32" by blast
  note cases = this
  show "is_utf8_cont (ascii_lower c) = is_utf8_cont c" by (cases rule: cases) (auto simp: is_utf8_cont_def)
  show "utf8_len (ascii_lower c) = utf8_len c" by (cases rule: cases) (auto simp: utf8_len_def)
  show "ascii (ascii_lower c) = ascii c" by (cases rule: cases) (auto simp: ascii_def)
qed

lemma utf8_lower: "utf8 s \<Longrightarrow> utf8 (map ascii_lower s)"
proof (induction rule: utf8.induct)
  case (Char w s)
  have "utf8_char (map ascii_lower w)"
    using Char.hyps(1) by (cases w) (simp_all add: utf8_char_def list.pred_map comp_def)
  then show ?case using Char.IH utf8.Char by simp
qed (simp add: utf8.Empty)

lemma boundary_lower: "is_char_boundary (map ascii_lower s) i = is_char_boundary s i"
  by (auto simp: is_char_boundary_def)

text \<open>A needle of ASCII characters is compared byte by byte.\<close>

lemma ci_match_prefix:
  assumes "utf8 s" and "list_all ascii n"
  shows "case ci_match (map (\<lambda>c. [c]) n) (utf8_chars s) of
      None \<Rightarrow> length s < length n
    | Some b \<Rightarrow> b = prefix (map ascii_lower n) (map ascii_lower s)"
  using assms
proof (induction s arbitrary: n rule: utf8.induct)
  case Empty
  then show ?case by (cases n) simp_all
next
  case (Char w s)
  show ?case
  proof (cases n)
    case (Cons c cs)
    have chars: "utf8_chars (w @ s) = w # utf8_chars s" using Char.hyps by (rule utf8_chars_Char)
    show ?thesis
    proof (cases "map ascii_lower w = [ascii_lower c]")
      case True
      then obtain d where d: "w = [d]" "ascii_lower d = ascii_lower c" by auto
      then show ?thesis using Char.IH [of cs] Char.prems Cons chars
        by (auto split: option.splits)
    next
      case False
      have "\<not> prefix (map ascii_lower n) (map ascii_lower (w @ s))"
      proof
        assume pre: "prefix (map ascii_lower n) (map ascii_lower (w @ s))"
        obtain d ds where w: "w = d # ds" using Char.hyps(1) by (cases w) (auto simp: utf8_char_def)
        then have "ascii_lower d = ascii_lower c" using pre Cons by simp
        then have "ascii d" using Char.prems Cons ascii_lower_facts(3) [of d] ascii_lower_facts(3) [of c] by simp
        then have "ds = []" using Char.hyps(1) w by (simp add: utf8_char_def cont_facts)
        then show False using False w \<open>ascii_lower d = ascii_lower c\<close> by simp
      qed
      then show ?thesis using False Cons chars by simp
    qed
  qed simp
qed

lemma utf8_chars_ascii: "list_all ascii s \<Longrightarrow> utf8_chars s = map (\<lambda>c. [c]) s"
proof (induction s)
  case (Cons c s)
  then show ?case using utf8_chars_Char [OF utf8_char_ascii utf8_ascii, of c s] by simp
qed simp

lemma ci_scan_find:
  assumes "utf8 s" and "list_all ascii n" and "n \<noteq> []"
  shows "ci_scan (map (\<lambda>c. [c]) n) k (utf8_chars s)
    = map_option (\<lambda>i. i + k) (find_str (map ascii_lower s) (map ascii_lower n))"
  using assms(1)
proof (induction s arbitrary: k rule: utf8.induct)
  case Empty
  then show ?case using assms(3) by (simp add: find_str_short)
next
  case (Char w s)
  let ?L = "map ascii_lower"
  have ws: "utf8 (w @ s)" using Char.hyps by (rule utf8.Char)
  have chars: "utf8_chars (w @ s) = w # utf8_chars s" using Char.hyps by (rule utf8_chars_Char)
  note match = ci_match_prefix [OF ws assms(2), unfolded chars]
  obtain d ds where w: "w = d # ds" using Char.hyps(1) by (cases w) (auto simp: utf8_char_def)
  obtain c cs where n: "n = c # cs" "ascii c" using assms(2,3) by (cases n) auto
  have inner: "\<not> prefix (?L n) (drop i (?L w @ ?L s))" if "0 < i" "i < length w" for i
  proof -
    have "is_utf8_cont (w ! i)"
      using that Char.hyps(1) w by (cases i) (auto simp: utf8_char_def list_all_length)
    then have "\<not> ascii (ascii_lower (w ! i))" using cont_facts(2) by simp
    moreover have "drop i (?L w @ ?L s) = ascii_lower (w ! i) # drop (Suc i) (?L w @ ?L s)"
      using that by (subst Cons_nth_drop_Suc [symmetric]) (auto simp: nth_append)
    ultimately show ?thesis using n by (auto dest: arg_cong [where f = ascii])
  qed
  show ?case
  proof (cases "ci_match (map (\<lambda>c. [c]) n) (w # utf8_chars s)")
    case None
    then show ?thesis using match chars by (simp add: find_str_short)
  next
    case (Some b)
    show ?thesis
    proof (cases b)
      case True
      then show ?thesis using Some match chars w by (simp add: find_str_Cons)
    next
      case False
      then have outer: "\<not> prefix (?L n) (?L w @ ?L s)" using match Some by simp
      have "\<not> prefix (?L n) (drop i (?L w @ ?L s))" if "i < length (?L w)" for i
        using inner [of i] outer that by (cases "i = 0") simp_all
      then have "find_str (?L w @ ?L s) (?L n) = map_option (\<lambda>i. i + length w) (find_str (?L s) (?L n))"
        using find_str_skip [of "?L w" "?L n" "?L s"] by simp
      then show ?thesis using Some False chars Char.IH [of "k + length w"]
        by (simp add: option.map_comp comp_def add_ac)
    qed
  qed
qed

lemma find_ci:
  assumes "utf8 s" and "list_all ascii n" and "n \<noteq> []"
  shows "find_case_insensitive s n = find_str (map ascii_lower s) (map ascii_lower n)"
  using ci_scan_find [OF assms, of 0] assms(2,3) utf8_chars_ascii [OF assms(2)]
  by (simp add: find_case_insensitive_def option.map_ident)

text \<open>C31: Over ASCII needles the search that ignores case is the search in the text with its ASCII letters in
  lower case, and what it finds may be cut off without a panic.\<close>

theorem case_insensitive_search:
  assumes "utf8 s" and "list_all ascii n" and "n \<noteq> []"
  shows "find_case_insensitive s n = find_str (map ascii_lower s) (map ascii_lower n)
    \<and> (\<forall>i. find_case_insensitive s n = Some i \<longrightarrow> slice s (i + length n) (length s) = Some (drop (i + length n) s))"
proof -
  have n: "utf8 (map ascii_lower n)" using assms(2) by (intro utf8_lower utf8_ascii)
  have "slice s (i + length n) (length s) = Some (drop (i + length n) s)"
    if "find_case_insensitive s n = Some i" for i
  proof -
    have found: "find_str (map ascii_lower s) (map ascii_lower n) = Some i"
      using that find_ci [OF assms] by simp
    have "is_char_boundary s (i + length n)"
      using find_str_boundaries [OF utf8_lower [OF assms(1)] n _ found] assms(3) by (simp add: boundary_lower)
    then show ?thesis by (simp add: slice_def boundary_le)
  qed
  then show ?thesis using find_ci [OF assms] by blast
qed

section \<open>Extraction\<close>

text \<open>A lower case that keeps every character in its place; that of ASCII texts does.\<close>

definition lower_in_place :: "unicode \<Rightarrow> string \<Rightarrow> bool" where
  "lower_in_place u text \<longleftrightarrow>
     utf8 (uc_lowercase u text) \<and> length (uc_lowercase u text) = length text
     \<and> (\<forall>i. is_char_boundary (uc_lowercase u text) i \<longrightarrow> is_char_boundary text i)"

lemma ascii_lower_in_place: "utf8 t \<Longrightarrow> lower_in_place ascii_unicode t"
  using utf8_lower [of t] by (simp add: lower_in_place_def ascii_unicode_def boundary_lower)

lemma clause_after_cut: "slice s (i + length p) (length s) \<noteq> None \<Longrightarrow> clause_after s (Some i) p \<noteq> None"
  by (auto simp: clause_after_def Let_def)

lemma collect_total: "(\<And>x. x \<in> set xs \<Longrightarrow> f x \<noteq> None) \<Longrightarrow> collect f xs \<noteq> None"
proof (induction xs)
  case (Cons x xs)
  then have "f x \<noteq> None" and "collect f xs \<noteq> None" by auto
  then show ?case by auto
qed simp

lemma prefixes_ascii: "\<forall>p \<in> set (decision_prefixes @ preference_prefixes). list_all ascii p \<and> p \<noteq> []"
  by code_simp

lemma decisions_total:
  assumes "utf8 text"
  shows "decisions text \<noteq> None"
proof -
  have "clause_after text (find_case_insensitive text p) p \<noteq> None" if "p \<in> set decision_prefixes" for p
  proof (cases "find_case_insensitive text p")
    case (Some i)
    have "list_all ascii p" "p \<noteq> []" using that prefixes_ascii by auto
    then have "slice text (i + length p) (length text) = Some (drop (i + length p) text)"
      using Some find_ci [OF assms] find_str_boundaries [OF utf8_lower [OF assms] utf8_lower [OF utf8_ascii], of p i]
      by (auto simp: boundary_lower slice_def boundary_le)
    then show ?thesis unfolding Some by (intro clause_after_cut) simp
  qed (simp add: clause_after_def)
  then have "collect (\<lambda>p. clause_after text (find_case_insensitive text p) p) decision_prefixes \<noteq> None"
    by (rule collect_total)
  then show ?thesis by (simp add: decisions_def)
qed

lemma preferences_total:
  assumes "lower_in_place u text"
  shows "preferences u text \<noteq> None"
proof -
  let ?l = "uc_lowercase u text"
  have "clause_after text (find_str ?l p) p \<noteq> None" if "p \<in> set preference_prefixes" for p
  proof (cases "find_str ?l p")
    case (Some i)
    have "list_all ascii p" "p \<noteq> []" using that prefixes_ascii by auto
    then have "is_char_boundary ?l (i + length p)"
      using Some assms find_str_boundaries [of ?l p i] by (simp add: lower_in_place_def utf8_ascii)
    then have "is_char_boundary text (i + length p)" using assms by (simp add: lower_in_place_def)
    then show ?thesis unfolding Some by (intro clause_after_cut) (simp add: slice_def boundary_le)
  qed (simp add: clause_after_def)
  then have "collect (\<lambda>p. clause_after text (find_str ?l p) p) preference_prefixes \<noteq> None"
    by (rule collect_total)
  then show ?thesis by (simp add: preferences_def)
qed

text \<open>The extraction of primitives returns for every text whose lower case keeps the characters in
  their places.\<close>

theorem extraction_returns:
  assumes "utf8 text" and "lower_in_place u text"
  shows "\<exists>ps. extract_primitives u text = Some ps \<and> run_primitive_extract u (Message i c f text)
    = Some (map (\<lambda>p. case primitive_to_state_change u p of (k, v) \<Rightarrow> \<lparr>sc_key = k, sc_new = v\<rparr>) ps)"
  using decisions_total [OF assms(1)] preferences_total [OF assms(2)]
  by (auto simp: extract_primitives_def run_primitive_extract_def)

text \<open>The preferences are cut from the text at the place they have in its lower case.  The capital I
  with a dot has a longer lower case, so a message of two of them and a preference of one letter panics.\<close>

theorem preference_offset_panics:
  assumes "uc_lowercase u ([CHR 0xC4, CHR 0xB0, CHR 0xC4, CHR 0xB0] @ '' I prefer x'')
    = [CHR 0x69, CHR 0xCC, CHR 0x87, CHR 0x69, CHR 0xCC, CHR 0x87] @ '' i prefer x''"
  shows "run_primitive_extract u (Message i c f ([CHR 0xC4, CHR 0xB0, CHR 0xC4, CHR 0xB0] @ '' I prefer x'')) = None"
proof -
  let ?t = "[CHR 0xC4, CHR 0xB0, CHR 0xC4, CHR 0xB0] @ '' I prefer x''"
  let ?l = "[CHR 0x69, CHR 0xCC, CHR 0x87, CHR 0x69, CHR 0xCC, CHR 0x87] @ '' i prefer x''"
  have "clause_after ?t (find_str ?l ''i prefer '') ''i prefer '' = None" by code_simp
  then have "preferences u ?t = None"
    unfolding preferences_def preference_prefixes_def assms by simp
  then show ?thesis by (auto simp: run_primitive_extract_def extract_primitives_def bind_eq_None_conv)
qed

lemma preference_offset_panics_witness:
  "run_primitive_extract (ascii_unicode\<lparr>uc_lowercase := (\<lambda>_. [CHR 0x69, CHR 0xCC, CHR 0x87, CHR 0x69, CHR 0xCC, CHR 0x87] @ '' i prefer x'')\<rparr>)
     (Message [] [] [] ([CHR 0xC4, CHR 0xB0, CHR 0xC4, CHR 0xB0] @ '' I prefer x'')) = None"
  by (rule preference_offset_panics) simp

lemma extraction_returns_witness:
  "\<exists>ps. extract_primitives ascii_unicode ''I prefer tea.'' = Some ps \<and> run_primitive_extract ascii_unicode (Message [] [] [] ''I prefer tea.'')
    = Some (map (\<lambda>p. case primitive_to_state_change ascii_unicode p of (k, v) \<Rightarrow> \<lparr>sc_key = k, sc_new = v\<rparr>) ps)"
proof (rule extraction_returns)
  show "utf8 ''I prefer tea.''" by (rule utf8_ascii) code_simp
  then show "lower_in_place ascii_unicode ''I prefer tea.''" by (rule ascii_lower_in_place)
qed

lemma case_insensitive_search_witness:
  "find_case_insensitive ''Going'' ''ING'' = Some 2
    \<and> slice ''Going'' (2 + length ''ING'') (length ''Going'') = Some (drop (2 + length ''ING'') ''Going'')"
proof -
  have "utf8 ''Going''" by (rule utf8_ascii) code_simp
  moreover have "list_all ascii ''ING''" by code_simp
  ultimately have spec: "find_case_insensitive ''Going'' ''ING'' = find_str (map ascii_lower ''Going'') (map ascii_lower ''ING'')
      \<and> (\<forall>i. find_case_insensitive ''Going'' ''ING'' = Some i \<longrightarrow>
        slice ''Going'' (i + length ''ING'') (length ''Going'') = Some (drop (i + length ''ING'') ''Going''))"
    by (rule case_insensitive_search) simp
  have "find_str (map ascii_lower ''Going'') (map ascii_lower ''ING'') = Some 2" by code_simp
  then have "find_case_insensitive ''Going'' ''ING'' = Some 2" by (rule trans [OF conjunct1 [OF spec]])
  then show ?thesis using conjunct2 [OF spec] by blast
qed

lemma clause_after_rest:
  assumes "pos + length p = length v" and "utf8 d" and "list_all (\<lambda>c. \<not> ends_clause c) d" and "trim d \<noteq> []"
  shows "clause_after (v @ d) (Some pos) p = Some (Some (trim d))"
proof -
  have "is_char_boundary (v @ d) (length v)" using boundary_append [of v d 0] assms(2) by simp
  then have "slice (v @ d) (length v) (length (v @ d)) = Some d"
    using boundary_length [of "v @ d"] by (simp add: slice_def)
  moreover have whole: "takeWhile (\<lambda>c. \<not> ends_clause c) d = d"
    using assms(3) by (simp add: takeWhile_eq_all_conv list_all_iff)
  ultimately show ?thesis using assms(4) by (simp add: clause_after_def assms(1) whole)
qed

lemma lowered: "map ascii_lower ''We decided to w'' = ''we decided to w''"
  by code_simp

text \<open>A sentence that starts with \<open>we decided to\<close> yields its decision twice, since the shorter prefix is found
  inside the longer one.\<close>

theorem decision_recorded_twice:
  assumes "utf8 d" and "list_all (\<lambda>c. \<not> ends_clause c) d" and "trim d \<noteq> []"
    and "lower_in_place u (''We decided to '' @ d)"
  shows "\<exists>ps. extract_primitives u (''We decided to '' @ d)
    = Some (Decision (trim d) (''We decided to '' @ d) # Decision (trim d) (''We decided to '' @ d) # ps)"
proof -
  let ?t = "''We decided to '' @ d"
  have lead: "utf8 ?t" if "list_all ascii v" "utf8 w" "?t = v @ w" for v w
    using that(1) unfolding that(3)
    by (induction v) (use that(2) utf8.Char [OF utf8_char_ascii] in auto)
  have t: "utf8 ?t" by (rule lead [OF _ assms(1) refl]) code_simp
  have at0: "find_case_insensitive ?t ''we decided to '' = Some 0"
    and at3: "find_case_insensitive ?t ''decided to '' = Some 3"
    using find_ci [OF t, of "''we decided to ''"] find_ci [OF t, of "''decided to ''"]
    by (simp_all add: find_str_Cons ascii_def lowered [simplified])
  have "clause_after ?t (Some 0) ''we decided to '' = Some (Some (trim d))"
    and "clause_after ?t (Some 3) ''decided to '' = Some (Some (trim d))"
    by (rule clause_after_rest [OF _ assms(1,2,3)]; simp)+
  then show ?thesis
    using decisions_total [OF t] preferences_total [OF assms(4)] at0 at3
    unfolding extract_primitives_def decisions_def decision_prefixes_def
    by (auto simp del: append_Cons; simp only: append_Cons append_Nil list.inject simp_thms)
qed

section \<open>Groups of duplicates\<close>

lemma group_steps:
  "distinct js \<Longrightarrow> foldl (group_step fo t es i) (g, G) js =
     (g @ map (\<lambda>j. mm_id (es ! j)) (filter (\<lambda>j. j \<notin> G \<and> duplicates fo t (es ! i) (es ! j)) js),
      G \<union> set (filter (\<lambda>j. j \<notin> G \<and> duplicates fo t (es ! i) (es ! j)) js))"
proof (induction js arbitrary: g G)
  case (Cons j js)
  have "filter (\<lambda>k. k \<notin> insert j G \<and> duplicates fo t (es ! i) (es ! k)) js
      = filter (\<lambda>k. k \<notin> G \<and> duplicates fo t (es ! i) (es ! k)) js"
    using Cons.prems by (intro filter_cong) auto
  then show ?case using Cons by (simp add: group_step_def del: set_filter)
qed simp

text \<open>A group starts with its first entry and holds later duplicates of it.\<close>

definition group_ok :: "'x floats \<Rightarrow> 'x \<Rightarrow> ('c, 'x) memory list \<Rightarrow> nat list \<Rightarrow> bool" where
  "group_ok fo t es g \<longleftrightarrow>
     2 \<le> length g \<and> (\<forall>j \<in> set (tl g). hd g < j \<and> duplicates fo t (es ! hd g) (es ! j))"

definition groups_inv ::
    "'x floats \<Rightarrow> 'x \<Rightarrow> ('c, 'x) memory list \<Rightarrow> nat \<Rightarrow> nat list list \<Rightarrow> string list list \<times> nat set \<Rightarrow> bool" where
  "groups_inv fo t es k gs st \<longleftrightarrow>
     fst st = map (map (\<lambda>j. mm_id (es ! j))) gs \<and> snd st = set (concat gs)
     \<and> distinct (concat gs) \<and> set (concat gs) \<subseteq> {..<length es} \<and> list_all (group_ok fo t es) gs
     \<and> (\<forall>i j. i < k \<longrightarrow> i < j \<longrightarrow> j < length es \<longrightarrow> duplicates fo t (es ! i) (es ! j)
          \<longrightarrow> i \<in> set (concat gs) \<or> j \<in> set (concat gs))"

lemma groups_inv_step:
  assumes inv: "groups_inv fo t es k gs (groups, G)" and k: "k < length es"
  shows "\<exists>gs'. groups_inv fo t es (Suc k) gs' (groups_step fo t es (groups, G) k)"
proof (cases "k \<in> G")
  case True
  then show ?thesis using inv
    by (intro exI [of _ gs]) (auto simp: groups_step_def groups_inv_def less_Suc_eq)
next
  case False
  define js where "js = filter (\<lambda>j. j \<notin> G \<and> duplicates fo t (es ! k) (es ! j)) [Suc k..<length es]"
  have step: "groups_step fo t es (groups, G) k =
      (if js = [] then (groups, G)
       else (groups @ [mm_id (es ! k) # map (\<lambda>j. mm_id (es ! j)) js], insert k (G \<union> set js)))"
    using False by (simp add: groups_step_def group_steps js_def [symmetric] del: upt_Suc set_filter)
  have js: "j \<in> set js \<longleftrightarrow> k < j \<and> j < length es \<and> j \<notin> G \<and> duplicates fo t (es ! k) (es ! j)" for j
    by (auto simp: js_def)
  have dist: "distinct js" by (simp add: js_def)
  show ?thesis
  proof (cases "js = []")
    case True
    then have "\<not> duplicates fo t (es ! k) (es ! j)" if "k < j" "j < length es" "j \<notin> G" for j
      using js [of j] that by simp
    then show ?thesis using inv True step
      by (intro exI [of _ gs]) (auto simp: groups_inv_def less_Suc_eq)
  next
    case ne: False
    have G: "G = set (concat gs)" using inv by (simp add: groups_inv_def)
    have "group_ok fo t es (k # js)" using ne js by (cases js) (auto simp: group_ok_def)
    moreover have "distinct (concat (gs @ [k # js]))"
      using inv False dist js G by (auto simp: groups_inv_def)
    ultimately show ?thesis using inv ne step k False js G
      by (intro exI [of _ "gs @ [k # js]"]) (auto simp: groups_inv_def less_Suc_eq)
  qed
qed

text \<open>C27: The groups of duplicates have no entry in common, each has at least two entries that are duplicates of
  its first, and of two duplicates at least one is reported.\<close>

theorem duplicates_reported:
  "\<exists>gs. find_duplicate_groups fo t es = map (map (\<lambda>j. mm_id (es ! j))) gs
    \<and> distinct (concat gs) \<and> set (concat gs) \<subseteq> {..<length es} \<and> list_all (group_ok fo t es) gs
    \<and> (\<forall>i j. i < j \<longrightarrow> j < length es \<longrightarrow> duplicates fo t (es ! i) (es ! j)
         \<longrightarrow> i \<in> set (concat gs) \<or> j \<in> set (concat gs))"
proof -
  have "k \<le> length es \<Longrightarrow> \<exists>gs. groups_inv fo t es k gs (foldl (groups_step fo t es) ([], {}) [0..<k])" for k
  proof (induction k)
    case 0
    show ?case by (intro exI [of _ "[]"]) (simp add: groups_inv_def)
  next
    case (Suc k)
    then obtain gs where "groups_inv fo t es k gs (foldl (groups_step fo t es) ([], {}) [0..<k])" by auto
    then show ?case using Suc.prems groups_inv_step [of fo t es k gs]
      by (cases "foldl (groups_step fo t es) ([], {}) [0..<k]") (simp add: Suc_le_eq)
  qed
  from this [of "length es"] obtain gs
    where "groups_inv fo t es (length es) gs (foldl (groups_step fo t es) ([], {}) [0..<length es])" by blast
  then show ?thesis
    by (intro exI [of _ gs]) (simp add: groups_inv_def find_duplicate_groups_def)
qed

lemma decision_recorded_twice_witness:
  "\<exists>ps. extract_primitives ascii_unicode (''We decided to '' @ ''go'')
    = Some (Decision (trim ''go'') (''We decided to '' @ ''go'') # Decision (trim ''go'') (''We decided to '' @ ''go'') # ps)"
proof (rule decision_recorded_twice)
  show "utf8 ''go''" by (rule utf8_ascii) code_simp
  show "list_all (\<lambda>c. \<not> ends_clause c) ''go''" by code_simp
  show "trim ''go'' \<noteq> []" by code_simp
  show "lower_in_place ascii_unicode (''We decided to '' @ ''go'')"
    by (rule ascii_lower_in_place, rule utf8_ascii) code_simp
qed

definition int_floats :: "int floats" where
  "int_floats = \<lparr>fo_zero = 0, fo_one = 1, fo_echo = 1, fo_mul = (*), fo_div = (div), fo_sum = sum_list, fo_sqrt = id,
     fo_less = (<), fo_eq = (=)\<rparr>"

definition three_memories :: "(string, int) memory list" where
  "three_memories = map (\<lambda>i. \<lparr>mm_id = i, mm_content = [], mm_category = ''fact'', mm_tags = [], mm_embedding = [1],
     mm_score = 0, mm_created_at = []\<rparr>) [''a'', ''b'', ''c'']"

lemma three_memories_groups: "find_duplicate_groups int_floats 1 three_memories = [[''a'', ''b'', ''c'']]"
  by code_simp

lemma duplicates_reported_witness:
  "\<exists>gs. [[''a'', ''b'', ''c'']] = map (map (\<lambda>j. mm_id (three_memories ! j))) gs
    \<and> distinct (concat gs) \<and> set (concat gs) \<subseteq> {..<length three_memories} \<and> list_all (group_ok int_floats 1 three_memories) gs"
  using duplicates_reported [of int_floats 1 three_memories] unfolding three_memories_groups
  by (elim exE conjE) (intro exI conjI)

end
