(* ===== verification/Hostkit.thy ===== *)
theory Hostkit
  imports Memory_Store Json_Values "HOL-Library.Product_Lexorder"
begin

text \<open>
  The helpers the host programs share (\<open>agens-hostkit/src/lib.rs\<close>, \<open>core/src/diagnostics.rs\<close>): levels of
  the log, tool calls for the desktop service and their traces, host names, connection identifiers and
  their conflicts, and the watchdog of systemd.
\<close>

section \<open>Log levels and tool calls\<close>

definition normalize_log_level :: "string \<Rightarrow> string option" where
  "normalize_log_level value =
     (let level = map ascii_lower (trim value) in
      if level \<in> set [''trace'', ''debug'', ''info'', ''warn'', ''error''] then Some level else None)"

text \<open>The parser of directives and the reload of the filter are parameters; the errors are their texts.\<close>

definition build_env_filter :: "(string \<Rightarrow> string + 'd) \<Rightarrow> string \<Rightarrow> string + 'd" where
  "build_env_filter parse_directive level =
     (case normalize_log_level level of
        None \<Rightarrow> Inl ''log level must be one of: trace, debug, info, warn, error''
      | Some l \<Rightarrow> parse_directive l)"

definition apply_runtime_log_level ::
    "(string \<Rightarrow> string + 'd) \<Rightarrow> ('d \<Rightarrow> 's \<Rightarrow> (string + unit) \<times> 's) \<Rightarrow> string \<Rightarrow> 's \<Rightarrow> (string + string) \<times> 's" where
  "apply_runtime_log_level parse_directive reload level s =
     (case normalize_log_level level of
        None \<Rightarrow> (Inl ''log level must be one of: trace, debug, info, warn, error'', s)
      | Some l \<Rightarrow>
          (case build_env_filter parse_directive l of
             Inl e \<Rightarrow> (Inl e, s)
           | Inr d \<Rightarrow> (case reload d s of (r, s') \<Rightarrow> (map_sum id (\<lambda>_. l) r, s'))))"

definition value_to_tool_content :: "(json \<Rightarrow> string) \<Rightarrow> json \<Rightarrow> string" where
  "value_to_tool_content print v = (case json_as_str v of None \<Rightarrow> print v | Some s \<Rightarrow> s)"

definition parse_tool_args :: "(string \<Rightarrow> json option) \<Rightarrow> string \<Rightarrow> json option" where
  "parse_tool_args parse raw = parse raw"

text \<open>\<open>Value::as_i64\<close>, and the number as JSON.\<close>

definition json_int :: "int \<Rightarrow> json" where
  "json_int i = JNumber (if i < 0 then CHR ''-'' # show_nat (nat (- i)) else show_nat (nat i))"

fun json_as_i64 :: "json \<Rightarrow> int option" where
  "json_as_i64 (JNumber s) =
     (case s of
        [] \<Rightarrow> None
      | c # cs \<Rightarrow>
          if c = CHR ''-''
          then (if list_all is_ascii_digit cs
                then Option.bind (parse_uint 64 cs) (\<lambda>n. if 0 < n \<and> n \<le> 2 ^ 63 then Some (- int n) else None)
                else None)
          else if list_all is_ascii_digit s
          then Option.bind (parse_uint 64 s) (\<lambda>n. if n < 2 ^ 63 then Some (int n) else None)
          else None)"
| "json_as_i64 _ = None"

datatype manus_error = Missing string | Unsupported_Tool string

definition need :: "string \<Rightarrow> 'a option \<Rightarrow> manus_error + 'a" where
  "need k r = (case r of None \<Rightarrow> Inl (Missing k) | Some v \<Rightarrow> Inr v)"

definition optional_field :: "string \<Rightarrow> json option \<Rightarrow> (string \<times> json) list" where
  "optional_field k r = (case r of None \<Rightarrow> [] | Some v \<Rightarrow> [(k, v)])"

definition manus_request_for_tool :: "string \<Rightarrow> json \<Rightarrow> manus_error + (string \<times> json)" where
  "manus_request_for_tool tool args =
     (if tool = ''browser_open'' then
        map_sum id (\<lambda>url. (''browser.open'', JObject [(''url'', JString url)])) (need ''url'' (field_str ''url'' args))
      else if tool = ''browser_screenshot'' then Inr (''browser.screenshot'', JObject [])
      else if tool = ''browser_click'' then
        (case need ''x'' (Option.bind (json_get ''x'' args) json_as_i64) of
           Inl e \<Rightarrow> Inl e
         | Inr x \<Rightarrow>
             map_sum id (\<lambda>y. (''gui.click'', JObject [(''x'', json_int x), (''y'', json_int y)]))
               (need ''y'' (Option.bind (json_get ''y'' args) json_as_i64)))
      else if tool = ''browser_type'' then
        map_sum id (\<lambda>t. (''gui.type'', JObject [(''text'', JString t)])) (need ''text'' (field_str ''text'' args))
      else if tool = ''screen_capture'' then
        Inr (''screen.capture'', JObject
          (optional_field ''monitor'' (map_option json_nat (Option.bind (json_get ''monitor'' args) json_as_u64))
           @ optional_field ''window'' (map_option JString (field_str ''window'' args))))
      else if tool = ''cdp_execute'' then
        map_sum id (\<lambda>t. (''cdp.execute'', JObject [(''script'', JString t)])) (need ''script'' (field_str ''script'' args))
      else Inl (Unsupported_Tool tool))"

section \<open>Traces of tool calls\<close>

record tool_trace =
  tt_name :: string
  tt_arguments :: json
  tt_result :: string
  tt_error :: bool

definition ellipsis :: string where
  "ellipsis = [CHR 0xE2, CHR 0x80, CHR 0xA6]"

definition truncate_verbose_preview :: "string \<Rightarrow> nat \<Rightarrow> string" where
  "truncate_verbose_preview value max_chars =
     (let cs = utf8_chars value in
      concat (take max_chars cs) @ (if drop max_chars cs \<noteq> [] then ellipsis else []))"

definition verbose_marker :: string where
  "verbose_marker = ''__PARES_VERBOSE_TOOL_DETAILS__:''"

definition extract_verbose_tool_marker :: "string \<Rightarrow> bool \<times> string" where
  "extract_verbose_tool_marker content =
     (case strip_prefix verbose_marker content of None \<Rightarrow> (False, content) | Some rest \<Rightarrow> (True, rest))"

definition trace_lines :: "(json \<Rightarrow> string) \<Rightarrow> nat \<Rightarrow> tool_trace \<Rightarrow> string" where
  "trace_lines print idx t =
     [newline] @ show_nat (idx + 1) @ ''. '' @ tt_name t @ '' ['' @ (if tt_error t then ''error'' else ''ok'') @ '']''
     @ [newline] @ ''args: '' @ truncate_verbose_preview (print (tt_arguments t)) 240
     @ [newline] @ ''result: '' @ truncate_verbose_preview (tt_result t) 500"

definition format_verbose_tool_traces :: "(json \<Rightarrow> string) \<Rightarrow> tool_trace list \<Rightarrow> string" where
  "format_verbose_tool_traces print ts =
     (if ts = [] then ''Tool execution details:'' @ [newline] @ ''(no tool calls made)''
      else ''Tool execution details:'' @ concat (map (\<lambda>(i, t). trace_lines print i t) (enumerate 0 ts)))"

section \<open>Host names\<close>

definition host_char :: "string \<Rightarrow> string" where
  "host_char w =
     (case w of
        [c] \<Rightarrow> if is_ascii_alnum c \<or> c = CHR ''-'' \<or> c = CHR ''_'' \<or> c = CHR ''.'' then [c] else ''_''
      | _ \<Rightarrow> ''_'')"

fun squeeze :: "bool \<Rightarrow> string list \<Rightarrow> string" where
  "squeeze prev [] = []"
| "squeeze prev (w # ws) =
     (if host_char w = ''_'' then (if prev then squeeze prev ws else ''_'' @ squeeze True ws)
      else host_char w @ squeeze False ws)"

definition unknown_host :: string where
  "unknown_host = ''unknown-host''"

definition sanitize_hostname :: "string \<Rightarrow> string" where
  "sanitize_hostname raw =
     (let value = trim_matches CHR ''_'' (squeeze False (utf8_chars (trim raw))) in
      if value = [] then unknown_host else value)"

text \<open>The variables of the environment and the file with the name are arguments.\<close>

fun first_hostname :: "string option list \<Rightarrow> string" where
  "first_hostname [] = unknown_host"
| "first_hostname (None # rest) = first_hostname rest"
| "first_hostname (Some v # rest) =
     (let clean = sanitize_hostname v in if clean \<noteq> unknown_host then clean else first_hostname rest)"

definition current_hostname :: "(string \<Rightarrow> string option) \<Rightarrow> string option \<Rightarrow> string" where
  "current_hostname env etc_hostname = first_hostname [env ''HOSTNAME'', env ''COMPUTERNAME'', etc_hostname]"

section \<open>Keys and connections\<close>

datatype key_error = Key_Length | Key_Byte nat string

fun host_key_loop :: "string \<Rightarrow> nat list \<Rightarrow> (key_error + nat list) option" where
  "host_key_loop value [] = Some (Inr [])"
| "host_key_loop value (i # is) =
     (case slice value (2 * i) (2 * i + 2) of
        None \<Rightarrow> None
      | Some pair \<Rightarrow>
          (case u8_from_hex pair of
             None \<Rightarrow> Some (Inl (Key_Byte (2 * i) pair))
           | Some b \<Rightarrow> map_option (map_sum id ((#) b)) (host_key_loop value is)))"

definition parse_sync_topic_key :: "string \<Rightarrow> (key_error + nat list) option" where
  "parse_sync_topic_key raw =
     (let trimmed = trim raw;
          value = (case strip_prefix ''0x'' trimmed of None \<Rightarrow> trimmed | Some v \<Rightarrow> v) in
      if length value \<noteq> 64 then Some (Inl Key_Length) else host_key_loop value [0..<32])"

definition redact_connection_id :: "string \<Rightarrow> string" where
  "redact_connection_id value =
     (let cs = utf8_chars value in
      if length cs \<le> 8 then ''********''
      else concat (take 4 cs) @ ellipsis @ concat (rev (take 4 (rev cs))))"

record host_adapter =
  ha_kind :: string
  ha_connection :: string
  ha_single :: bool

record host_adapters =
  hr_host :: string
  hr_adapters :: "host_adapter list"

record connection_conflict =
  cc_kind :: string
  cc_connection :: string
  cc_hosts :: "string list"

text \<open>Who claims a connection; the maps of the code are ordered by key.\<close>

definition claims :: "host_adapters list \<Rightarrow> ((string \<times> string) \<times> string) list" where
  "claims records =
     concat (map (\<lambda>r. map (\<lambda>a. ((ha_kind a, ha_connection a), hr_host r))
       (filter (\<lambda>a. ha_single a \<and> trim (ha_connection a) \<noteq> []) (hr_adapters r))) records)"

definition hosts_claiming :: "host_adapters list \<Rightarrow> string \<times> string \<Rightarrow> string list" where
  "hosts_claiming records key = sort (remdups (map snd (filter (\<lambda>e. fst e = key) (claims records))))"

definition owners :: "host_adapters list \<Rightarrow> ((string \<times> string) \<times> string list) list" where
  "owners records =
     map (\<lambda>k. (k, hosts_claiming records k)) (sort (remdups (map fst (claims records))))"

definition detect_single_connection_conflicts :: "string \<Rightarrow> host_adapters list \<Rightarrow> connection_conflict list" where
  "detect_single_connection_conflicts local_host records =
     map (\<lambda>((k, c), hosts). \<lparr>cc_kind = k, cc_connection = c, cc_hosts = hosts\<rparr>)
       (filter (\<lambda>(k, hosts). \<not> (length hosts < 2 \<or> local_host \<notin> set hosts)) (owners records))"

section \<open>The watchdog and the memory of the process\<close>

definition parse_watchdog_ping_interval :: "string \<Rightarrow> nat option" where
  "parse_watchdog_ping_interval watchdog_usec =
     Option.bind (parse_uint 64 (trim watchdog_usec)) (\<lambda>micros.
       if micros = 0 then None else Some (max (micros div 2) 1000000))"

datatype notify_error = Socket_Failed | Abstract_Socket | Send_Failed

text \<open>The socket is a parameter: whether it can be made and what it answers.\<close>

definition systemd_notify ::
    "(string \<Rightarrow> string option) \<Rightarrow> bool \<Rightarrow> (string \<Rightarrow> string \<Rightarrow> 's \<Rightarrow> bool \<times> 's) \<Rightarrow> string \<Rightarrow> 's
      \<Rightarrow> (notify_error + unit) \<times> 's" where
  "systemd_notify env socket_made send state s =
     (case env ''NOTIFY_SOCKET'' of
        None \<Rightarrow> (Inr (), s)
      | Some path \<Rightarrow>
          if trim path = [] then (Inr (), s)
          else if \<not> socket_made then (Inl Socket_Failed, s)
          else if prefix ''@'' path then (Inl Abstract_Socket, s)
          else (case send path state s of (ok, s') \<Rightarrow> (if ok then Inr () else Inl Send_Failed, s')))"

fun vm_rss_line :: "string \<Rightarrow> nat option" where
  "vm_rss_line line =
     (let l = trim line in
      if prefix ''VmRSS:'' l
      then (case split_whitespace l of _ # n # _ \<Rightarrow> parse_uint 64 n | _ \<Rightarrow> None)
      else None)"

definition parse_vm_rss_kib :: "string \<Rightarrow> nat option" where
  "parse_vm_rss_kib contents = Option.bind (find (\<lambda>r. r \<noteq> None) (map vm_rss_line (lines contents))) id"

section \<open>Host names are accepted and stay\<close>

definition host_byte :: "char \<Rightarrow> bool" where
  "host_byte c \<longleftrightarrow> is_ascii_alnum c \<or> c = CHR ''-'' \<or> c = CHR ''_'' \<or> c = CHR ''.''"

lemma host_byte_facts:
  assumes "host_byte c"
  shows "is_graph c" and "ascii c" and "c \<noteq> CHR ''/''" and "\<not> is_control [c]"
  using assms by (auto simp: host_byte_def is_ascii_alnum_def is_graph_def ascii_def is_control_def Let_def)

lemma host_char_byte: "host_byte c \<Longrightarrow> host_char [c] = [c]"
  by (simp add: host_char_def host_byte_def)

lemma host_char_ok: "\<exists>c. host_char w = [c] \<and> host_byte c"
  by (cases w rule: list.exhaust; cases "tl w") (auto simp: host_char_def host_byte_def)

text \<open>No two underscores stand side by side.\<close>

abbreviation single :: "string \<Rightarrow> bool" where
  "single \<equiv> successively (\<lambda>a b. \<not> (a = CHR ''_'' \<and> b = CHR ''_''))"

lemma squeeze_ok:
  "list_all host_byte (squeeze prev ws) \<and> single (squeeze prev ws)
    \<and> (prev \<longrightarrow> squeeze prev ws \<noteq> [] \<longrightarrow> hd (squeeze prev ws) \<noteq> CHR ''_'')"
proof (induction ws arbitrary: prev)
  case (Cons w ws)
  obtain c where c: "host_char w = [c]" "host_byte c" using host_char_ok by blast
  show ?case using Cons.IH [of True] Cons.IH [of False] Cons.IH [of prev] c
    by (auto simp: successively_Cons host_byte_def)
qed simp

lemma squeeze_id:
  "list_all host_byte v \<Longrightarrow> single v \<Longrightarrow> (prev \<longrightarrow> v \<noteq> [] \<longrightarrow> hd v \<noteq> CHR ''_'')
    \<Longrightarrow> squeeze prev (map (\<lambda>c. [c]) v) = v"
proof (induction v arbitrary: prev)
  case (Cons c v)
  then show ?case by (cases v) (auto simp: host_char_byte successively_Cons)
qed simp

lemma trim_matches_parts:
  "\<exists>xs ys. s = xs @ trim_matches c s @ ys"
  "trim_matches c s \<noteq> [] \<Longrightarrow> hd (trim_matches c s) \<noteq> c \<and> last (trim_matches c s) \<noteq> c"
proof -
  define t where "t = dropWhile (\<lambda>x. x = c) s"
  have m: "trim_matches c s = rev (dropWhile (\<lambda>x. x = c) (rev t))" by (simp add: trim_matches_def t_def)
  have "t = trim_matches c s @ rev (takeWhile (\<lambda>x. x = c) (rev t))"
    unfolding m by (metis rev_append rev_rev_ident takeWhile_dropWhile_id)
  then show "\<exists>xs ys. s = xs @ trim_matches c s @ ys"
    using takeWhile_dropWhile_id [of "\<lambda>x. x = c" s] t_def by metis
  assume ne: "trim_matches c s \<noteq> []"
  have "last (trim_matches c s) \<noteq> c" using ne hd_dropWhile [of "\<lambda>x. x = c" "rev t"] by (simp add: m last_rev)
  moreover have "t \<noteq> [] \<and> hd t = hd (trim_matches c s)"
    using ne \<open>t = trim_matches c s @ _\<close> by (metis append_is_Nil_conv hd_append2)
  then have "hd (trim_matches c s) \<noteq> c" using hd_dropWhile [of "\<lambda>x. x = c" s] t_def by auto
  ultimately show "hd (trim_matches c s) \<noteq> c \<and> last (trim_matches c s) \<noteq> c" by simp
qed

lemma trim_matches_id: "v \<noteq> [] \<Longrightarrow> hd v \<noteq> c \<Longrightarrow> last v \<noteq> c \<Longrightarrow> trim_matches c v = v"
proof -
  assume "v \<noteq> []" "hd v \<noteq> c" "last v \<noteq> c"
  then have "dropWhile (\<lambda>x. x = c) v = v" "dropWhile (\<lambda>x. x = c) (rev v) = rev v"
    by (simp_all add: dropWhile_eq_self_iff hd_rev)
  then show ?thesis by (simp add: trim_matches_def)
qed

text \<open>What a host name looks like.\<close>

definition host_name :: "string \<Rightarrow> bool" where
  "host_name v \<longleftrightarrow>
     v \<noteq> [] \<and> list_all host_byte v \<and> single v \<and> hd v \<noteq> CHR ''_'' \<and> last v \<noteq> CHR ''_''"

lemma sanitized_host_name: "host_name (sanitize_hostname raw)"
proof -
  define w where "w = squeeze False (utf8_chars (trim raw))"
  have w: "list_all host_byte w" "single w" using squeeze_ok [of False] by (simp_all add: w_def)
  show ?thesis
  proof (cases "trim_matches CHR ''_'' w = []")
    case True
    have "host_name unknown_host" by code_simp
    then show ?thesis using True by (simp add: sanitize_hostname_def w_def)
  next
    case False
    obtain xs ys where "w = xs @ trim_matches CHR ''_'' w @ ys" using trim_matches_parts(1) by blast
    then have "list_all host_byte (trim_matches CHR ''_'' w) \<and> single (trim_matches CHR ''_'' w)"
      using w by (metis list_all_append successively_append_iff)
    then show ?thesis using False trim_matches_parts(2) [OF False]
      by (simp add: sanitize_hostname_def w_def [symmetric] host_name_def)
  qed
qed

lemma host_name_facts:
  assumes "host_name v"
  shows "sanitize_hostname v = v" and "\<not> bad_hostname v"
proof -
  have g: "list_all is_graph v" "list_all ascii v" "v \<noteq> []"
    using assms host_byte_facts by (auto simp: host_name_def list_all_iff)
  then have t: "trim v = v" using trim_graph [of v] by (simp add: list_all_iff)
  have chars: "utf8_chars v = map (\<lambda>c. [c]) v"
    using g(2) by (induction v) (auto simp: cont_facts split: list.splits)
  show "sanitize_hostname v = v"
    using assms squeeze_id [of v False] trim_matches_id [of v "CHR ''_''"] t chars
    by (simp add: sanitize_hostname_def host_name_def)
  have "\<not> host_byte CHR ''/''" by code_simp
  then show "\<not> bad_hostname v"
    using assms t chars host_byte_facts(4)
    by (auto simp: bad_hostname_def host_name_def list_all_iff list_ex_iff)
qed

text \<open>C23: The name a host takes from the environment is one the memory store accepts for its records, and
  normalising it again changes nothing.\<close>

theorem host_name_accepted:
  "\<not> bad_hostname (current_hostname env etc) \<and> sanitize_hostname (current_hostname env etc) = current_hostname env etc"
proof -
  have unknown: "host_name unknown_host" by code_simp
  have "host_name (first_hostname vs)" for vs
    by (induction vs rule: first_hostname.induct) (auto simp: unknown sanitized_host_name Let_def)
  then show ?thesis using host_name_facts by (simp add: current_hostname_def del: first_hostname.simps)
qed

section \<open>Conflicts of connections\<close>

text \<open>A host claims a connection that only one host may hold.\<close>

definition claimed :: "host_adapters list \<Rightarrow> string \<Rightarrow> string \<Rightarrow> string \<Rightarrow> bool" where
  "claimed records h k i \<longleftrightarrow>
     trim i \<noteq> [] \<and> (\<exists>r \<in> set records. hr_host r = h
       \<and> (\<exists>a \<in> set (hr_adapters r). ha_single a \<and> ha_kind a = k \<and> ha_connection a = i))"

lemma claims_set: "((k, i), h) \<in> set (claims records) \<longleftrightarrow> claimed records h k i"
  by (auto simp: claims_def claimed_def)

lemma owners_entry:
  "(key, hosts) \<in> set (owners records) \<longleftrightarrow> key \<in> fst ` set (claims records) \<and> hosts = hosts_claiming records key"
  by (auto simp: owners_def)

lemma hosts_claiming:
  "set (hosts_claiming records (k, i)) = {h. claimed records h k i}"
  "sorted (hosts_claiming records key) \<and> distinct (hosts_claiming records key)"
  using claims_set [of k i _ records] by (force simp: hosts_claiming_def) (simp add: hosts_claiming_def)

lemma at_least_two: "distinct hs \<Longrightarrow> h \<in> set hs \<Longrightarrow> 2 \<le> length hs \<longleftrightarrow> (\<exists>h' \<in> set hs. h' \<noteq> h)"
proof -
  assume d: "distinct hs" and h: "h \<in> set hs"
  then have "length hs = Suc (length (remove1 h hs))" using length_pos_if_in_set [OF h] by (simp add: length_remove1)
  moreover have "set (remove1 h hs) = set hs - {h}" using d by simp
  ultimately show ?thesis by (cases "remove1 h hs") auto
qed

text \<open>C29: A host is told of a conflict exactly for the connections that it and another host claim, and the
  conflict names all that claim it.\<close>

theorem conflicts_are_shared_claims:
  "((\<exists>c \<in> set (detect_single_connection_conflicts h rs). cc_kind c = k \<and> cc_connection c = i)
      \<longleftrightarrow> claimed rs h k i \<and> (\<exists>h'. h' \<noteq> h \<and> claimed rs h' k i))
    \<and> (\<forall>c \<in> set (detect_single_connection_conflicts h rs).
        sorted (cc_hosts c) \<and> distinct (cc_hosts c)
        \<and> set (cc_hosts c) = {h'. claimed rs h' (cc_kind c) (cc_connection c)})"
proof -
  have two: "2 \<le> length (hosts_claiming rs (k, i)) \<longleftrightarrow> (\<exists>h'. h' \<noteq> h \<and> claimed rs h' k i)"
    if "claimed rs h k i" for k i
    using at_least_two [of "hosts_claiming rs (k, i)" h] that hosts_claiming(1) [of rs k i] hosts_claiming(2) [of rs "(k, i)"] by auto
  have mem: "c \<in> set (detect_single_connection_conflicts h rs) \<longleftrightarrow>
      (\<exists>k i. c = \<lparr>cc_kind = k, cc_connection = i, cc_hosts = hosts_claiming rs (k, i)\<rparr>
        \<and> claimed rs h k i \<and> 2 \<le> length (hosts_claiming rs (k, i)))" for c
  proof -
    have "claimed rs h k i \<Longrightarrow> (k, i) \<in> fst ` set (claims rs)" for k i
      using claims_set [of k i h rs] by force
    then have entry: "((k, i), hosts) \<in> set (owners rs) \<and> h \<in> set hosts \<longleftrightarrow>
        hosts = hosts_claiming rs (k, i) \<and> claimed rs h k i" for k i hosts
      using hosts_claiming(1) [of rs k i] by (auto simp: owners_entry)
    have "c \<in> set (detect_single_connection_conflicts h rs) \<longleftrightarrow>
        (\<exists>k i hosts. c = \<lparr>cc_kind = k, cc_connection = i, cc_hosts = hosts\<rparr>
          \<and> (((k, i), hosts) \<in> set (owners rs) \<and> h \<in> set hosts) \<and> 2 \<le> length hosts)"
      by (force simp: detect_single_connection_conflicts_def not_less)
    then show ?thesis unfolding entry by blast
  qed
  have "(\<exists>c \<in> set (detect_single_connection_conflicts h rs). cc_kind c = k \<and> cc_connection c = i)
      \<longleftrightarrow> claimed rs h k i \<and> 2 \<le> length (hosts_claiming rs (k, i))"
    unfolding Bex_def mem
    by (auto intro!: exI [of _ "\<lparr>cc_kind = k, cc_connection = i, cc_hosts = hosts_claiming rs (k, i)\<rparr>"])
  moreover have "sorted (cc_hosts c) \<and> distinct (cc_hosts c)
      \<and> set (cc_hosts c) = {h'. claimed rs h' (cc_kind c) (cc_connection c)}"
    if "c \<in> set (detect_single_connection_conflicts h rs)" for c
    using that hosts_claiming [of rs] by (auto simp: mem)
  ultimately show ?thesis using two [of k i] by blast
qed

definition shared_records :: "host_adapters list" where
  "shared_records = map (\<lambda>h. \<lparr>hr_host = h, hr_adapters = [\<lparr>ha_kind = ''k'', ha_connection = ''i'', ha_single = True\<rparr>]\<rparr>)
     [''a'', ''b'']"

lemma conflicts_are_shared_claims_witness:
  "\<exists>c. c \<in> set (detect_single_connection_conflicts ''a'' shared_records) \<and> cc_kind c = ''k'' \<and> cc_connection c = ''i''
    \<and> set (cc_hosts c) = {h. claimed shared_records h ''k'' ''i''}"
proof -
  have "trim ''i'' \<noteq> []" by code_simp
  then have "claimed shared_records ''a'' ''k'' ''i'' \<and> claimed shared_records ''b'' ''k'' ''i''"
    by (simp add: claimed_def shared_records_def)
  moreover have "''b'' \<noteq> ''a''" by simp
  ultimately have "claimed shared_records ''a'' ''k'' ''i'' \<and> (\<exists>h'. h' \<noteq> ''a'' \<and> claimed shared_records h' ''k'' ''i'')"
    by (intro conjI exI [of _ "''b''"]) simp_all
  note found = iffD2 [OF conjunct1 [OF conflicts_are_shared_claims] this]
  then obtain c where c: "c \<in> set (detect_single_connection_conflicts ''a'' shared_records)"
      "cc_kind c = ''k''" "cc_connection c = ''i''"
    by (elim bexE conjE)
  then show ?thesis using bspec [OF conjunct2 [OF conflicts_are_shared_claims] c(1)] c(2,3) by (intro exI [of _ c]) simp
qed

section \<open>Keys, identifiers and the watchdog\<close>

fun as_key_error :: "memory_error \<Rightarrow> key_error" where
  "as_key_error (StoreError (BadHexByte n pair)) = Key_Byte n pair"
| "as_key_error _ = Key_Length"

lemma key_loops: "map_option (map_sum as_key_error id) (key_loop value is) = host_key_loop value is"
proof (induction "is")
  case (Cons i "is")
  show ?case
    by (simp add: Cons.IH [symmetric] option.map_comp comp_def sum.map_comp id_def split: option.split)
qed simp

lemma host_key_loop_reads:
  "list_all is_ascii_hexdigit value \<Longrightarrow> \<forall>i \<in> set is. 2 * i + 2 \<le> length value
    \<Longrightarrow> \<exists>bs. host_key_loop value is = Some (Inr bs) \<and> length bs = length is"
proof (induction "is")
  case (Cons i "is")
  obtain bs where bs: "host_key_loop value is = Some (Inr bs)" "length bs = length is" using Cons by auto
  have digit: "is_ascii_hexdigit (value ! j)" if "j < length value" for j
    using Cons.prems(1) that by (simp add: list_all_length)
  have plain: "is_ascii_hexdigit c \<Longrightarrow> \<not> is_utf8_cont c \<and> c \<noteq> CHR ''+''" for c
    by (auto simp: is_ascii_hexdigit_def is_utf8_cont_def Let_def)
  have cut: "is_char_boundary value j" if "j \<le> length value" for j
    using digit [of j] plain that by (auto simp: is_char_boundary_def)
  have "drop (2 * i) (take (2 * i + 2) value) = [value ! (2 * i), value ! (2 * i + 1)]"
    using Cons.prems(2) by (simp add: take_Suc_conv_app_nth numeral_2_eq_2 del: take_Suc_conv_app_nth)
      (auto simp: list_eq_iff_nth_eq less_Suc_eq nth_append numeral_2_eq_2)
  then have "slice value (2 * i) (2 * i + 2) = Some [value ! (2 * i), value ! (2 * i + 1)]"
    using Cons.prems(2) cut by (simp add: slice_def)
  moreover have "\<exists>b. u8_from_hex [value ! (2 * i), value ! (2 * i + 1)] = Some b"
    using Cons.prems(2) digit plain by (auto simp: u8_from_hex_def)
  ultimately show ?case using bs by auto
qed simp

text \<open>The two parsers of a topic key, the one of the hosts and the one of the memory store, agree on every
  text, and read every key the store generates.\<close>

theorem topic_key_parsers_agree:
  "parse_sync_topic_key raw = map_option (map_sum as_key_error id) (parse_sync_topic_key_hex raw)
    \<and> (list_all is_ascii_hexdigit (a @ b) \<longrightarrow> length a = 32 \<longrightarrow> length b = 32 \<longrightarrow>
        (\<exists>bs. parse_sync_topic_key (generate_sync_topic_key_hex a b) = Some (Inr bs) \<and> length bs = 32))"
proof (intro conjI impI)
  show "parse_sync_topic_key raw = map_option (map_sum as_key_error id) (parse_sync_topic_key_hex raw)"
    by (simp add: parse_sync_topic_key_def parse_sync_topic_key_hex_def Let_def key_loops)
  assume hex: "list_all is_ascii_hexdigit (a @ b)" and len: "length a = 32" "length b = 32"
  let ?k = "a @ b"
  have graph: "is_ascii_hexdigit c \<Longrightarrow> is_graph c \<and> c \<noteq> CHR ''x''" for c
    by (auto simp: is_ascii_hexdigit_def is_graph_def Let_def)
  have "?k \<noteq> []" using len by auto
  then have "trim ?k = ?k"
    using hex graph [of "hd ?k"] graph [of "last ?k"] hd_in_set [of ?k] last_in_set [of ?k]
    by (intro trim_graph) (auto simp only: list_all_iff)
  moreover have "CHR ''x'' \<notin> set ?k" using hex graph by (auto simp only: list_all_iff)
  then have "strip_prefix ''0x'' ?k = None"
    using set_mono_prefix [of "''0x''" ?k] by (auto simp: strip_prefix_def)
  moreover have "\<forall>i \<in> set [0..<32]. 2 * i + 2 \<le> length ?k" using len by (simp del: upt_rec_numeral)
  then have "\<exists>bs. host_key_loop ?k [0..<32] = Some (Inr bs) \<and> length bs = length [0..<32 :: nat]"
    by (rule host_key_loop_reads [OF hex])
  then obtain bs where "host_key_loop ?k [0..<32] = Some (Inr bs)" and "length bs = 32"
    unfolding length_upt diff_zero by blast
  moreover have "parse_sync_topic_key ?k = host_key_loop ?k [0..<32]"
    using calculation len by (simp add: parse_sync_topic_key_def del: host_key_loop.simps upt_rec_numeral)
  ultimately show "\<exists>bs. parse_sync_topic_key (generate_sync_topic_key_hex a b) = Some (Inr bs) \<and> length bs = 32"
    unfolding generate_sync_topic_key_hex_def by (intro exI [of _ bs] conjI) (rule trans)
qed

text \<open>The watchdog is answered at least twice in its time if that is two seconds or more; a watchdog of less
  than a second expires before its first answer.\<close>

theorem watchdog_interval:
  assumes "parse_uint 64 (trim usec) = Some n" and "n \<noteq> 0"
  shows "\<exists>i. parse_watchdog_ping_interval usec = Some i
    \<and> (2000000 \<le> n \<longrightarrow> 2 * i \<le> n) \<and> (n < 1000000 \<longrightarrow> n < i)"
  using assms by (auto simp: parse_watchdog_ping_interval_def max_def)

lemma trim_number: "trim (show_nat n) = show_nat n"
proof (rule trim_graph)
  have graph: "is_ascii_digit c \<Longrightarrow> is_graph c" for c by (simp add: is_ascii_digit_def is_graph_def)
  show "show_nat n \<noteq> []" using show_nat_digits by blast
  then show "is_graph (hd (show_nat n))" "is_graph (last (show_nat n))"
    using show_nat_digits [of n] graph by (auto simp: list_all_iff)
qed

lemma watchdog_interval_witness:
  "\<exists>i. parse_watchdog_ping_interval (show_nat 30000000) = Some i
    \<and> 2 * i \<le> 30000000"
  using watchdog_interval [of "show_nat 30000000" 30000000] by (simp add: trim_number parse_show_nat del: show_nat.simps)

lemma topic_key_parsers_agree_witness:
  "parse_sync_topic_key ''0x1'' = map_option (map_sum as_key_error id) (parse_sync_topic_key_hex ''0x1'')
    \<and> (\<exists>bs. parse_sync_topic_key (generate_sync_topic_key_hex (replicate 32 CHR ''a'') (replicate 32 CHR ''f'')) = Some (Inr bs)
        \<and> length bs = 32)"
proof -
  have "list_all is_ascii_hexdigit (replicate 32 CHR ''a'' @ replicate 32 CHR ''f'')"
    unfolding list_all_append list.pred_set by (auto simp: is_ascii_hexdigit_def)
  then show ?thesis
    using topic_key_parsers_agree [of "''0x1''" "replicate 32 CHR ''a''" "replicate 32 CHR ''f''"]
    by (simp only: length_replicate simp_thms)
qed

end
