(* ===== verification/Tool_State.thy ===== *)
theory Tool_State
  imports Json_Values "HOL-Library.AList"
begin

text \<open>
  The tools of the tool server (\<open>mcp-server/src/radix_handler.rs\<close>) that work on the state store: the counters
  of calls, the key-value tools, the configuration, and the tables rendered from records.  A result that
  is the printed form of a value is kept as the value.
\<close>

section \<open>The store\<close>

text \<open>\<open>StateStore\<close> with the removal of a key and the keys under a prefix.\<close>

record 's key_store = "'s state_store" +
  st_delete :: "string \<Rightarrow> 's \<Rightarrow> json option \<times> 's"
  st_keys :: "string \<Rightarrow> 's \<Rightarrow> string list"

definition key_store_laws :: "'s key_store \<Rightarrow> bool" where
  "key_store_laws st \<longleftrightarrow>
     (\<forall>k v s k'. st_get st k' (st_set st k v s) = (if k' = k then Some v else st_get st k' s))
     \<and> (\<forall>k s. fst (st_delete st k s) = st_get st k s)
     \<and> (\<forall>k s k'. st_get st k' (snd (st_delete st k s)) = (if k' = k then None else st_get st k' s))
     \<and> (\<forall>p s. distinct (st_keys st p s) \<and> set (st_keys st p s) = {k. prefix p k \<and> st_get st k s \<noteq> None})"

lemma key_store:
  assumes "key_store_laws st"
  shows "st_get st k' (st_set st k v s) = (if k' = k then Some v else st_get st k' s)"
    and "fst (st_delete st k s) = st_get st k s"
    and "st_get st k' (snd (st_delete st k s)) = (if k' = k then None else st_get st k' s)"
    and "distinct (st_keys st p s)"
    and "set (st_keys st p s) = {k. prefix p k \<and> st_get st k s \<noteq> None}"
  using assms by (auto simp: key_store_laws_def)

definition hash_store :: "(string, json) hmap key_store" where
  "hash_store =
     \<lparr>st_get = (\<lambda>k m. hm_get m k), st_set = hm_insert,
      st_delete = (\<lambda>k m. (hm_get m k, hm_remove k m)),
      st_keys = (\<lambda>p m. filter (prefix p) (remdups (map fst m)))\<rparr>"

section \<open>Results and parameters\<close>

datatype mcp_result = Ok_Text string | Ok_Json json | Failed string

definition ok_result :: "mcp_result \<Rightarrow> bool" where
  "ok_result r \<longleftrightarrow> (case r of Failed _ \<Rightarrow> False | _ \<Rightarrow> True)"

type_synonym 's tool = "'s \<Rightarrow> mcp_result \<times> 's"

definition answer :: "mcp_result \<Rightarrow> 's tool" where
  "answer r s = (r, s)"

definition using_store :: "'s key_store option \<Rightarrow> ('s key_store \<Rightarrow> 's tool) \<Rightarrow> 's tool" where
  "using_store store f = (case store of None \<Rightarrow> answer (Failed ''state store not configured'') | Some st \<Rightarrow> f st)"

definition missing :: "string \<Rightarrow> mcp_result" where
  "missing k = Failed (''missing required parameter: '' @ k)"

definition with_str :: "string \<Rightarrow> json \<Rightarrow> (string \<Rightarrow> 's tool) \<Rightarrow> 's tool" where
  "with_str k args f = (case field_str k args of None \<Rightarrow> answer (missing k) | Some v \<Rightarrow> f v)"

definition with_value :: "string \<Rightarrow> json \<Rightarrow> (json \<Rightarrow> 's tool) \<Rightarrow> 's tool" where
  "with_value k args f = (case json_get k args of None \<Rightarrow> answer (missing k) | Some v \<Rightarrow> f v)"

definition text_or :: "string \<Rightarrow> string \<Rightarrow> json \<Rightarrow> string" where
  "text_or d k args = (case field_str k args of None \<Rightarrow> d | Some v \<Rightarrow> v)"

text \<open>What a key holds, unless that is nothing or \<open>null\<close>.\<close>

definition non_null :: "json option \<Rightarrow> json option" where
  "non_null r = (case r of None \<Rightarrow> None | Some v \<Rightarrow> if json_is_null v then None else Some v)"

section \<open>Counters of calls\<close>

record call_stats =
  cs_calls :: "64 word"
  cs_successes :: "64 word"
  cs_failures :: "64 word"
  cs_latency :: "64 word"

definition no_calls :: call_stats where
  "no_calls = \<lparr>cs_calls = 0, cs_successes = 0, cs_failures = 0, cs_latency = 0\<rparr>"

record tool_metrics =
  tm_per_tool :: "(string, call_stats) hmap"
  tm_total :: "64 word"
  tm_started :: nat

definition new_metrics :: "nat \<Rightarrow> tool_metrics" where
  "new_metrics now = \<lparr>tm_per_tool = [], tm_total = 0, tm_started = now\<rparr>"

definition count_call :: "64 word \<Rightarrow> bool \<Rightarrow> call_stats \<Rightarrow> call_stats" where
  "count_call latency success c =
     c\<lparr>cs_calls := cs_calls c + 1, cs_latency := cs_latency c + latency,
       cs_successes := (if success then cs_successes c + 1 else cs_successes c),
       cs_failures := (if success then cs_failures c else cs_failures c + 1)\<rparr>"

definition record_call :: "string \<Rightarrow> 64 word \<Rightarrow> bool \<Rightarrow> tool_metrics \<Rightarrow> tool_metrics" where
  "record_call tool latency success m =
     m\<lparr>tm_total := tm_total m + 1,
       tm_per_tool := hm_insert tool
         (count_call latency success (case hm_get (tm_per_tool m) tool of None \<Rightarrow> no_calls | Some c \<Rightarrow> c))
         (tm_per_tool m)\<rparr>"

definition json_word :: "64 word \<Rightarrow> json" where
  "json_word w = json_nat (unat w)"

text \<open>\<open>checked_div\<close> with the default 0.\<close>

definition average :: "64 word \<Rightarrow> 64 word \<Rightarrow> 64 word" where
  "average latency n = (if n = 0 then 0 else latency div n)"

definition ranked_tools :: "tool_metrics \<Rightarrow> (string \<times> call_stats) list" where
  "ranked_tools m = take 15 (sort_key (\<lambda>e. - int (unat (cs_calls (snd e)))) (tm_per_tool m))"

definition metrics_snapshot :: "nat \<Rightarrow> tool_metrics \<Rightarrow> json" where
  "metrics_snapshot now m =
     JObject
      [(''total_calls'', json_word (tm_total m)),
       (''unique_tools_used'', json_nat (length (tm_per_tool m))),
       (''avg_latency_ms'', json_word (average (sum_list (map cs_latency (hm_values (tm_per_tool m)))) (tm_total m))),
       (''uptime_secs'', json_nat (now - tm_started m)),
       (''started_at_unix'', json_nat (tm_started m)),
       (''top_tools'', JArray (map (\<lambda>(n, c). JObject
          [(''name'', JString n), (''calls'', json_word (cs_calls c)), (''successes'', json_word (cs_successes c)),
           (''failures'', json_word (cs_failures c)), (''avg_latency_ms'', json_word (average (cs_latency c) (cs_calls c)))])
          (ranked_tools m)))]"

definition reset_metrics :: "nat \<Rightarrow> tool_metrics \<Rightarrow> tool_metrics" where
  "reset_metrics now m = m\<lparr>tm_per_tool := [], tm_total := 0, tm_started := now\<rparr>"

text \<open>A call of a tool; the handlers and the measured latency are arguments.\<close>

definition call_tool ::
    "(string \<Rightarrow> json \<Rightarrow> 's tool) \<Rightarrow> string \<Rightarrow> json \<Rightarrow> 64 word \<Rightarrow> tool_metrics \<times> 's \<Rightarrow> mcp_result \<times> tool_metrics \<times> 's" where
  "call_tool dispatch tool args latency = (\<lambda>(m, s).
     case dispatch tool args s of
       (r, s') \<Rightarrow> (r, if prefix ''telemetry_'' tool then m else record_call tool latency (ok_result r) m, s'))"

section \<open>Keys and values\<close>

definition shown :: "json option \<Rightarrow> mcp_result" where
  "shown r = (case non_null r of None \<Rightarrow> Ok_Text ''null'' | Some v \<Rightarrow> Ok_Json v)"

definition db_get :: "'s key_store option \<Rightarrow> json \<Rightarrow> 's tool" where
  "db_get store args = using_store store (\<lambda>st. with_str ''key'' args (\<lambda>k s. (shown (st_get st k s), s)))"

definition db_put :: "'s key_store option \<Rightarrow> json \<Rightarrow> 's tool" where
  "db_put store args =
     using_store store (\<lambda>st. with_str ''key'' args (\<lambda>k. with_value ''value'' args (\<lambda>v s.
       (Ok_Text (''stored key: '' @ k), st_set st k v s))))"

definition db_delete :: "'s key_store option \<Rightarrow> json \<Rightarrow> 's tool" where
  "db_delete store args =
     using_store store (\<lambda>st. with_str ''key'' args (\<lambda>k s. (Ok_Text (''deleted key: '' @ k), snd (st_delete st k s))))"

text \<open>The keys under a prefix with what they hold, without those that hold nothing.\<close>

definition live_entries :: "'s key_store \<Rightarrow> string \<Rightarrow> 's \<Rightarrow> (string \<times> json) list" where
  "live_entries st p s =
     List.map_filter (\<lambda>k. map_option (Pair k) (non_null (st_get st k s))) (st_keys st p s)"

definition db_keys :: "'s key_store option \<Rightarrow> json \<Rightarrow> 's tool" where
  "db_keys store args =
     using_store store (\<lambda>st s. (Ok_Json (JArray (map (JString \<circ> fst) (live_entries st (text_or [] ''prefix'' args) s))), s))"

definition db_dump :: "'s key_store option \<Rightarrow> json \<Rightarrow> 's tool" where
  "db_dump store args = using_store store (\<lambda>st s. (Ok_Json (JObject (live_entries st [] s)), s))"

definition counted_items :: "json list \<Rightarrow> mcp_result" where
  "counted_items items = Ok_Json (JObject [(''items'', JArray items), (''count'', json_nat (length items))])"

definition db_get_prefix :: "'s key_store option \<Rightarrow> json \<Rightarrow> 's tool" where
  "db_get_prefix store args =
     using_store store (\<lambda>st. with_str ''prefix'' args (\<lambda>p s.
       (counted_items (map (\<lambda>(k, v). JObject [(''key'', JString k), (''value'', v)]) (live_entries st p s)), s)))"

definition list_state_values :: "'s key_store \<Rightarrow> string \<Rightarrow> 's tool" where
  "list_state_values st p s = (counted_items (map snd (live_entries st p s)), s)"

definition list_state :: "'s key_store option \<Rightarrow> json \<Rightarrow> 's tool" where
  "list_state store args = using_store store (\<lambda>st. with_str ''prefix'' args (list_state_values st))"

definition generate_id :: "string \<Rightarrow> json \<Rightarrow> mcp_result" where
  "generate_id uuid_simple args =
     (let p = text_or [] ''prefix'' args in Ok_Json (JString (if p = [] then uuid_simple else p @ ''_'' @ uuid_simple)))"

section \<open>Configuration\<close>

definition config_key :: "string \<Rightarrow> string" where
  "config_key k = ''config:'' @ k"

definition last_modified :: string where
  "last_modified = ''config:__last_modified''"

definition config_get :: "'s key_store option \<Rightarrow> json \<Rightarrow> 's tool" where
  "config_get store args =
     using_store store (\<lambda>st. with_str ''key'' args (\<lambda>k s. (shown (st_get st (config_key k) s), s)))"

definition config_set :: "'s key_store option \<Rightarrow> nat \<Rightarrow> json \<Rightarrow> 's tool" where
  "config_set store now args =
     using_store store (\<lambda>st. with_str ''key'' args (\<lambda>k. with_value ''value'' args (\<lambda>v s.
       (Ok_Text (''config set: '' @ k), st_set st last_modified (json_nat now) (st_set st (config_key k) v s)))))"

definition user_keys :: "(string \<times> json) list \<Rightarrow> (string \<times> json) list" where
  "user_keys es =
     filter (\<lambda>e. \<not> prefix ''__'' (fst e))
       (map (\<lambda>(k, v). (case strip_prefix ''config:'' k of None \<Rightarrow> k | Some u \<Rightarrow> u, v)) es)"

definition config_list :: "'s key_store option \<Rightarrow> json \<Rightarrow> 's tool" where
  "config_list store args =
     using_store store (\<lambda>st s.
       (Ok_Json (JObject (user_keys (live_entries st (config_key (text_or [] ''prefix'' args)) s))), s))"

definition config_delete :: "'s key_store option \<Rightarrow> (json \<Rightarrow> string) \<Rightarrow> nat \<Rightarrow> json \<Rightarrow> 's tool" where
  "config_delete store print now args =
     using_store store (\<lambda>st. with_str ''key'' args (\<lambda>k s.
       (case st_delete st (config_key k) s of
          (prev, s') \<Rightarrow>
            ((case non_null prev of
                None \<Rightarrow> Ok_Text (''config key not found: '' @ k)
              | Some v \<Rightarrow> Ok_Text (''deleted config: '' @ k @ '' (was: '' @ print v @ '')'')),
             st_set st last_modified (json_nat now) s'))))"

definition config_reload :: "'s key_store option \<Rightarrow> nat \<Rightarrow> 's tool" where
  "config_reload store now =
     using_store store (\<lambda>st s.
       (Ok_Text ''config reload signaled'', st_set st ''config:__reload_requested'' (json_nat now) s))"

definition runtime_restart :: "'s key_store option \<Rightarrow> nat \<Rightarrow> json \<Rightarrow> 's tool" where
  "runtime_restart store now args =
     using_store store (\<lambda>st s.
       (let reason = text_or ''manual restart requested'' ''reason'' args in
        (Ok_Text (''restart signaled (reason: '' @ reason @ ''). Process supervisor will handle the restart.''),
         st_set st (''runtime:restart_history:'' @ show_nat now)
           (JObject [(''reason'', JString reason), (''requested_at'', json_nat now)])
           (st_set st ''runtime:restart_requested''
             (JObject [(''timestamp'', json_nat now), (''reason'', JString reason)]) s))))"

section \<open>Heartbeat settings\<close>

definition heartbeat_defaults :: "(string \<times> json) list" where
  "heartbeat_defaults =
     [(''enabled'', JBool True), (''interval_secs'', json_nat 30), (''quiet_hours_enabled'', JBool True),
      (''quiet_hours_start'', json_nat 23), (''quiet_hours_end'', json_nat 8), (''max_proactive_per_day'', json_nat 6)]"

definition or_else :: "json \<Rightarrow> json option \<Rightarrow> json" where
  "or_else d r = (case r of None \<Rightarrow> d | Some v \<Rightarrow> v)"

definition heartbeat_status :: "'s key_store option \<Rightarrow> 's tool" where
  "heartbeat_status store =
     using_store store (\<lambda>st s.
       (Ok_Json (JObject
         [(''config'', or_else (JObject heartbeat_defaults) (st_get st ''heartbeat/config'' s)),
          (''daily_count'', or_else (json_nat 0) (st_get st ''heartbeat/daily_count'' s)),
          (''daily_date'', or_else JNull (st_get st ''heartbeat/daily_date'' s)),
          (''checklist_item_count'', json_nat
             (case Option.bind (st_get st ''heartbeat/checklist'' s) json_as_array of None \<Rightarrow> 0 | Some xs \<Rightarrow> length xs))]), s))"

definition override :: "json \<Rightarrow> string \<Rightarrow> (string \<times> json) list \<Rightarrow> (string \<times> json) list" where
  "override args k kvs = (case json_get k args of None \<Rightarrow> kvs | Some v \<Rightarrow> AList.update k v kvs)"

definition heartbeat_configure :: "'s key_store option \<Rightarrow> (json \<Rightarrow> string) \<Rightarrow> json \<Rightarrow> 's tool" where
  "heartbeat_configure store pretty args =
     using_store store (\<lambda>st s.
       (let config = (case st_get st ''heartbeat/config'' s of Some (JObject kvs) \<Rightarrow> kvs | _ \<Rightarrow> heartbeat_defaults);
            value = JObject (fold (override args)
              [''enabled'', ''interval_secs'', ''quiet_hours_enabled'', ''quiet_hours_start'', ''quiet_hours_end'',
               ''max_proactive_per_day''] config) in
        (Ok_Text (''heartbeat config updated: '' @ pretty value), st_set st ''heartbeat/config'' value s)))"

section \<open>Tables\<close>

definition escape_pipes :: "string \<Rightarrow> string" where
  "escape_pipes s = concat (map (\<lambda>c. if c = CHR ''|'' then [CHR 0x5C, c] else [c]) s)"

fun cell_text :: "(json \<Rightarrow> string) \<Rightarrow> json \<Rightarrow> string" where
  "cell_text print JNull = []"
| "cell_text print (JString s) = escape_pipes s"
| "cell_text print v = escape_pipes (print v)"

fun table_columns :: "json list \<Rightarrow> (string \<times> string) list option" where
  "table_columns [] = Some []"
| "table_columns (c # cs) =
     (case field_str ''field'' c of
        None \<Rightarrow> None
      | Some f \<Rightarrow> map_option ((#) (f, text_or f ''header'' c)) (table_columns cs))"

definition table_row :: "string list \<Rightarrow> string" where
  "table_row cells = ''| '' @ join '' | '' cells @ '' |'' @ [newline]"

definition markdown_table :: "(json \<Rightarrow> string) \<Rightarrow> (string \<times> string) list \<Rightarrow> json list \<Rightarrow> string" where
  "markdown_table print cols items =
     table_row (map (escape_pipes \<circ> snd) cols) @ ''|'' @ concat (replicate (length cols) '' --- |'') @ [newline]
     @ concat (map (\<lambda>item. table_row (map (\<lambda>(f, _). cell_text print (or_else JNull (json_get f item))) cols)) items)"

definition render_markdown_table :: "(json \<Rightarrow> string) \<Rightarrow> json \<Rightarrow> mcp_result" where
  "render_markdown_table print args =
     (case json_get ''items'' args of
        None \<Rightarrow> missing ''items''
      | Some (JArray items) \<Rightarrow>
          (case Option.bind (json_get ''columns'' args) json_as_array of
             Some (c # cs) \<Rightarrow>
               (case table_columns (c # cs) of
                  None \<Rightarrow> Failed ''each column requires a 'field' string''
                | Some cols \<Rightarrow> Ok_Text (markdown_table print cols items))
           | _ \<Rightarrow> Failed ''missing required non-empty parameter: columns'')
      | Some _ \<Rightarrow> Failed (CHR 0x27 # ''items' must be an array''))"

section \<open>What the counters say\<close>

definition metrics_ok :: "tool_metrics \<Rightarrow> bool" where
  "metrics_ok m \<longleftrightarrow>
     hm_ok (tm_per_tool m)
     \<and> hm_all (\<lambda>_ c. cs_calls c = cs_successes c + cs_failures c) (tm_per_tool m)
     \<and> tm_total m = sum_list (map cs_calls (hm_values (tm_per_tool m)))"

lemma sum_insert:
  "hm_ok m \<Longrightarrow> sum_list (map f (hm_values (hm_insert k v m)))
     = sum_list (map f (hm_values m)) + (f v - (case hm_get m k of None \<Rightarrow> 0 | Some u \<Rightarrow> f u) :: 'a :: ab_group_add)"
proof (induction m)
  case (Cons e m)
  show ?case
  proof (cases "fst e = k")
    case True
    then show ?thesis by (cases e) (simp add: hm_values_def hm_insert_def hm_get_def)
  next
    case False
    then have "sum_list (map f (hm_values (hm_insert k v m)))
        = sum_list (map f (hm_values m)) + (f v - (case hm_get m k of None \<Rightarrow> 0 | Some u \<Rightarrow> f u))"
      using Cons by (simp add: hm_ok_def)
    then show ?thesis using False by (cases e) (simp add: hm_values_def hm_insert_def hm_get_def algebra_simps)
  qed
qed (simp add: hm_values_def hm_insert_def hm_get_def)

lemma record_call_ok:
  assumes "metrics_ok m"
  shows "metrics_ok (record_call tool latency success m) \<and> tm_total (record_call tool latency success m) = tm_total m + 1"
proof -
  let ?c = "case hm_get (tm_per_tool m) tool of None \<Rightarrow> no_calls | Some c \<Rightarrow> c"
  have "cs_calls ?c = cs_successes ?c + cs_failures ?c"
    using assms by (auto simp: metrics_ok_def no_calls_def dest: hm_all_get split: option.split)
  moreover have "cs_calls ?c = (case hm_get (tm_per_tool m) tool of None \<Rightarrow> 0 | Some u \<Rightarrow> cs_calls u)"
    by (simp add: no_calls_def split: option.split)
  ultimately show ?thesis
    using assms sum_insert [of "tm_per_tool m" cs_calls tool "count_call latency success ?c"]
    by (auto simp: metrics_ok_def record_call_def count_call_def hm_simps)
qed

fun run_calls ::
    "(string \<Rightarrow> json \<Rightarrow> 's tool) \<Rightarrow> (string \<times> json \<times> 64 word) list \<Rightarrow> tool_metrics \<times> 's \<Rightarrow> tool_metrics \<times> 's" where
  "run_calls dispatch [] st = st"
| "run_calls dispatch ((tool, args, latency) # cs) st = run_calls dispatch cs (snd (call_tool dispatch tool args latency st))"


section \<open>The store as a map\<close>

lemma map_filter_member: "y \<in> set (List.map_filter f xs) \<longleftrightarrow> (\<exists>x \<in> set xs. f x = Some y)"
  by (induction xs) (auto simp: List.map_filter_simps split: option.splits)

lemma live_entries_iff:
  assumes "key_store_laws st"
  shows "(k, v) \<in> set (live_entries st p s) \<longleftrightarrow> prefix p k \<and> non_null (st_get st k s) = Some v"
    and "distinct (map fst (live_entries st p s))"
proof -
  have "non_null (st_get st k s) = Some v \<Longrightarrow> st_get st k s \<noteq> None" by (auto simp: non_null_def split: option.splits)
  then show "(k, v) \<in> set (live_entries st p s) \<longleftrightarrow> prefix p k \<and> non_null (st_get st k s) = Some v"
    using key_store(5) [OF assms, of p s] by (auto simp: live_entries_def map_filter_member)
  have "map fst (live_entries st p s) = filter (\<lambda>k. non_null (st_get st k s) \<noteq> None) (st_keys st p s)"
    by (auto simp: live_entries_def map_filter_def comp_def intro!: map_idI)
  then show "distinct (map fst (live_entries st p s))" using key_store(4) [OF assms] by simp
qed

lemma field_args [simp]:
  "field_str k (JObject ((k, JString v) # kvs)) = Some v"
  "k \<noteq> k' \<Longrightarrow> json_get k (JObject ((k', w) # kvs)) = json_get k (JObject kvs)"
  by (simp_all add: field_str_def)

definition key_arg :: "string \<Rightarrow> json" where
  "key_arg k = JObject [(''key'', JString k)]"

definition put_arg :: "string \<Rightarrow> json \<Rightarrow> json" where
  "put_arg k v = JObject [(''key'', JString k), (''value'', v)]"

definition prefix_arg :: "string \<Rightarrow> json" where
  "prefix_arg p = JObject [(''prefix'', JString p)]"

lemmas tool_simps = using_store_def with_str_def with_value_def answer_def text_or_def field_str_def
  key_arg_def put_arg_def prefix_arg_def

text \<open>C26: The key-value tools are a map: a value that was put is got and listed, a deleted key holds nothing, no other
  key changes, and the keys that are listed are those that hold something, each once.\<close>

theorem db_tools_are_map:
  assumes "key_store_laws st"
    and "put = snd (db_put (Some st) (put_arg k v) s)" and "del = snd (db_delete (Some st) (key_arg k) s)"
  shows "fst (db_get (Some st) (key_arg k') put) = (if k' = k then shown (Some v) else fst (db_get (Some st) (key_arg k') s))
    \<and> fst (db_get (Some st) (key_arg k') del) = (if k' = k then Ok_Text ''null'' else fst (db_get (Some st) (key_arg k') s))
    \<and> (\<exists>ks. fst (db_keys (Some st) (prefix_arg p) s) = Ok_Json (JArray (map JString ks)) \<and> distinct ks
        \<and> set ks = {k. prefix p k \<and> fst (db_get (Some st) (key_arg k) s) \<noteq> Ok_Text ''null''})"
proof (intro conjI)
  note st = key_store [OF assms(1)]
  show "fst (db_get (Some st) (key_arg k') put) = (if k' = k then shown (Some v) else fst (db_get (Some st) (key_arg k') s))"
    by (simp add: db_get_def assms(2) db_put_def tool_simps st)
  show "fst (db_get (Some st) (key_arg k') del) = (if k' = k then Ok_Text ''null'' else fst (db_get (Some st) (key_arg k') s))"
    by (simp add: db_get_def assms(3) db_delete_def tool_simps st shown_def non_null_def)
  have got: "fst (db_get (Some st) (key_arg k) s) \<noteq> Ok_Text ''null'' \<longleftrightarrow> (\<exists>v. non_null (st_get st k s) = Some v)" for k
    by (auto simp: db_get_def tool_simps shown_def split: option.split)
  let ?ks = "map fst (live_entries st p s)"
  have "set ?ks = {k. prefix p k \<and> fst (db_get (Some st) (key_arg k) s) \<noteq> Ok_Text ''null''}"
    unfolding got using live_entries_iff(1) [OF assms(1), of _ _ p s] by (force simp: image_iff)
  then show "\<exists>ks. fst (db_keys (Some st) (prefix_arg p) s) = Ok_Json (JArray (map JString ks)) \<and> distinct ks
        \<and> set ks = {k. prefix p k \<and> fst (db_get (Some st) (key_arg k) s) \<noteq> Ok_Text ''null''}"
    using live_entries_iff(2) [OF assms(1)] by (intro exI [of _ ?ks]) (simp add: db_keys_def tool_simps)
qed

lemma strip_config: "strip_prefix ''config:'' (config_key u) = Some u"
  by (simp only: config_key_def strip_prefix_append)

lemma user_keys_iff:
  "\<forall>(k, v) \<in> set es. prefix ''config:'' k
    \<Longrightarrow> (u, v) \<in> set (user_keys es) \<longleftrightarrow> \<not> prefix ''__'' u \<and> (config_key u, v) \<in> set es"
proof (induction es)
  case (Cons e es)
  obtain u' v' where e: "e = (config_key u', v')"
    using Cons.prems by (cases e) (auto simp: config_key_def prefix_def)
  have "user_keys (e # es) = (if prefix ''__'' u' then user_keys es else (u', v') # user_keys es)"
    unfolding user_keys_def e by (simp add: config_key_def [symmetric] strip_config)
  moreover have "config_key u = config_key u' \<longleftrightarrow> u = u'" by (simp only: config_key_def same_append_eq)
  ultimately show ?case using Cons e by auto
qed (simp add: user_keys_def)

text \<open>A setting that was made is read back and listed under its name, a deleted one is gone, and the tools of the
  configuration change no key outside of it.\<close>

theorem settings_read_back:
  assumes "key_store_laws st" and "k \<noteq> ''__last_modified''"
    and "made = snd (config_set (Some st) now (put_arg k v) s)"
    and "gone = snd (config_delete (Some st) print now (key_arg k) s)"
  shows "fst (config_get (Some st) (key_arg k) made) = shown (Some v)
    \<and> fst (config_get (Some st) (key_arg k) gone) = Ok_Text ''null''
    \<and> (\<exists>es. fst (config_list (Some st) (prefix_arg p) made) = Ok_Json (JObject es)
        \<and> ((k, v) \<in> set es \<longleftrightarrow> prefix p k \<and> \<not> prefix ''__'' k \<and> \<not> json_is_null v))
    \<and> (\<forall>k'. \<not> prefix ''config:'' k' \<longrightarrow> st_get st k' made = st_get st k' s \<and> st_get st k' gone = st_get st k' s)"
proof (intro conjI allI impI)
  note st = key_store [OF assms(1)]
  have ne: "config_key k \<noteq> last_modified" using assms(2) by (simp add: config_key_def last_modified_def)
  have made: "made = st_set st last_modified (json_nat now) (st_set st (config_key k) v s)"
    by (simp add: assms(3) config_set_def tool_simps)
  have gone: "gone = st_set st last_modified (json_nat now) (snd (st_delete st (config_key k) s))"
    by (simp add: assms(4) config_delete_def tool_simps split: prod.split)
  show "fst (config_get (Some st) (key_arg k) made) = shown (Some v)"
    using ne by (simp add: config_get_def tool_simps made st)
  show "fst (config_get (Some st) (key_arg k) gone) = Ok_Text ''null''"
    using ne by (simp add: config_get_def tool_simps gone st shown_def non_null_def)
  let ?es = "live_entries st (config_key p) made"
  have "prefix ''config:'' k'" if "prefix (config_key p) k'" for k'
    using that unfolding config_key_def by (rule append_prefixD)
  then have key: "(k, v) \<in> set (user_keys ?es) \<longleftrightarrow> \<not> prefix ''__'' k \<and> (config_key k, v) \<in> set ?es"
    using live_entries_iff(1) [OF assms(1), of _ _ "config_key p" made] by (intro user_keys_iff) blast
  have "(config_key k, v) \<in> set ?es \<longleftrightarrow> prefix p k \<and> \<not> json_is_null v"
    using ne by (simp add: live_entries_iff [OF assms(1)] made st non_null_def config_key_def)
  then show "\<exists>es. fst (config_list (Some st) (prefix_arg p) made) = Ok_Json (JObject es)
        \<and> ((k, v) \<in> set es \<longleftrightarrow> prefix p k \<and> \<not> prefix ''__'' k \<and> \<not> json_is_null v)"
    using key by (intro exI [of _ "user_keys ?es"]) (auto simp: config_list_def tool_simps)
  fix k' assume "\<not> prefix ''config:'' k'"
  then have "k' \<noteq> config_key k" "k' \<noteq> last_modified" by (auto simp: config_key_def last_modified_def)
  then show "st_get st k' made = st_get st k' s" "st_get st k' gone = st_get st k' s" by (simp_all add: made gone st)
qed

section \<open>Rows of a table\<close>

lemma count_concat: "count_list (concat xss) c = sum_list (map (\<lambda>xs. count_list xs c) xss)"
  by (induction xss) simp_all

lemma count_join: "c \<notin> set sep \<Longrightarrow> count_list (join sep ws) c = sum_list (map (\<lambda>w. count_list w c) ws)"
  by (induction sep ws rule: join.induct) (simp_all add: count_notin)

lemma count_escape: "c \<noteq> CHR 0x5C \<Longrightarrow> count_list (escape_pipes s) c = count_list s c"
  by (induction s) (simp_all add: escape_pipes_def)

lemma count_row: "count_list (table_row cells) newline = Suc (sum_list (map (\<lambda>w. count_list w newline) cells))"
  by (simp add: table_row_def count_join)

text \<open>A table has a line for its header, one for its rule and one for every record, and a further one for every
  line break inside a header or a cell, since these are not escaped.\<close>

theorem table_lines:
  "count_list (markdown_table print cols items) newline
     = 2 + length items + sum_list (map (\<lambda>(_, h). count_list h newline) cols)
       + sum_list (map (\<lambda>item. sum_list (map (\<lambda>(f, _).
           count_list (cell_text print (or_else JNull (json_get f item))) newline) cols)) items)"
proof -
  have "count_list (concat (replicate n '' --- |'')) newline = 0" for n by (induction n) simp_all
  moreover have "count_list (concat (map g items)) newline
      = length items + sum_list (map (\<lambda>item. sum_list (map (\<lambda>w. count_list w newline) (cells item))) items)"
    if "\<And>item. g item = table_row (cells item)" for g cells
    by (induction items) (simp_all add: that count_row)
  ultimately show ?thesis
    by (simp add: markdown_table_def count_row count_escape comp_def case_prod_beta')
qed

section \<open>Instances\<close>

lemma hash_store_laws: "key_store_laws hash_store"
proof -
  have "fst ` set m = {k. hm_get m k \<noteq> None}" for m :: "(string, json) hmap"
    using hm_set_keys [of m] by (simp add: hm_keys_def)
  then show ?thesis by (auto simp: key_store_laws_def hash_store_def hm_simps)
qed

lemma db_tools_are_map_witness:
  "fst (db_get (Some hash_store) (key_arg ''a'') (snd (db_put (Some hash_store) (put_arg ''a'' (JBool True)) [])))
      = shown (Some (JBool True))
    \<and> fst (db_get (Some hash_store) (key_arg ''a'') (snd (db_delete (Some hash_store) (key_arg ''a'') []))) = Ok_Text ''null''"
  using db_tools_are_map [OF hash_store_laws refl refl, of "''a''" "''a''" "JBool True" "[]"] by simp

lemma settings_read_back_witness:
  "fst (config_get (Some hash_store) (key_arg ''model'') (snd (config_set (Some hash_store) 7 (put_arg ''model'' (JString ''x'')) [])))
      = shown (Some (JString ''x''))
    \<and> fst (config_get (Some hash_store) (key_arg ''model'') (snd (config_delete (Some hash_store) (\<lambda>_. []) 7 (key_arg ''model'') [])))
      = Ok_Text ''null''"
  using settings_read_back [OF hash_store_laws _ refl refl, of "''model''" 7 "JString ''x''" "[]" "\<lambda>_. []"] by simp


end
