(* ===== verification/Canvas.thy ===== *)
theory Canvas
  imports Tool_State "HOL-Library.Multiset"
begin

text \<open>
  The canvas tools of the tool server (\<open>mcp-server/src/radix_handler.rs\<close>): the active canvas with its tree
  of nodes, its data, rules and procedures, the saved canvases and the queue of rendering instructions.
  The panic of an assignment into a value that is no object is \<open>None\<close>; the current time is an argument.
\<close>

section \<open>Steps that may panic\<close>

type_synonym 's step = "'s \<Rightarrow> (mcp_result \<times> 's) option"

definition checked :: "mcp_result \<Rightarrow> 'a option \<Rightarrow> ('a \<Rightarrow> 's step) \<Rightarrow> 's step" where
  "checked e r f s = (case r of None \<Rightarrow> Some (e, s) | Some v \<Rightarrow> f v s)"

text \<open>\<open>value[k] = v\<close>: a missing key is added, \<open>null\<close> becomes an object.\<close>

fun json_put :: "string \<Rightarrow> json \<Rightarrow> json \<Rightarrow> json option" where
  "json_put k v (JObject kvs) = Some (JObject (AList.update k v kvs))"
| "json_put k v JNull = Some (JObject [(k, v)])"
| "json_put k v _ = None"

definition no_store :: mcp_result where
  "no_store = Failed ''state store not configured''"

definition active_key :: string where
  "active_key = ''canvas:active''"

text \<open>The message with a dash is kept in its ASCII parts.\<close>

definition no_canvas :: mcp_result where
  "no_canvas = Failed (''no active canvas '' @ [CHR 0xE2, CHR 0x80, CHR 0x94] @ '' create one first'')"

definition active :: "'s key_store \<Rightarrow> 's \<Rightarrow> json option" where
  "active st s = non_null (st_get st active_key s)"

definition on_canvas :: "'s key_store \<Rightarrow> (json \<Rightarrow> 's step) \<Rightarrow> 's step" where
  "on_canvas st f s = checked no_canvas (active st s) f s"

text \<open>The new time stamp and the store of the changed canvas.\<close>

definition keep_canvas :: "'s key_store \<Rightarrow> string \<Rightarrow> string \<Rightarrow> json \<Rightarrow> 's step" where
  "keep_canvas st now message c s =
     map_option (\<lambda>c'. (Ok_Text message, st_set st active_key c' s)) (json_put ''updatedAt'' (JString now) c)"

section \<open>Trees\<close>

definition children :: "json \<Rightarrow> json list" where
  "children t = (case json_get ''children'' t of Some (JArray cs) \<Rightarrow> cs | _ \<Rightarrow> [])"

fun set_children :: "json list \<Rightarrow> json \<Rightarrow> json" where
  "set_children cs (JObject kvs) = JObject (AList.update ''children'' (JArray cs) kvs)"
| "set_children cs t = t"

lemma child_size: "c \<in> set (children t) \<Longrightarrow> size c < size t"
proof -
  assume c: "c \<in> set (children t)"
  then obtain kvs cs where t: "t = JObject kvs" "map_of kvs ''children'' = Some (JArray cs)" "c \<in> set cs"
    by (cases t) (auto simp: children_def split: option.splits json.splits dest!: sym [of "Some _"])
  have "size c < size (JArray cs)" using t(3) by (induction cs) auto
  also have "(''children'', JArray cs) \<in> set kvs" using t(2) by (rule map_of_SomeD)
  then have "size (JArray cs) < size t" unfolding t(1) by (induction kvs) auto
  finally show ?thesis .
qed

text \<open>A child is appended; nothing is appended to children that are no list.\<close>

fun push_child :: "json \<Rightarrow> json \<Rightarrow> json" where
  "push_child n (JObject kvs) =
     (case map_of kvs ''children'' of
        None \<Rightarrow> JObject (AList.update ''children'' (JArray [n]) kvs)
      | Some (JArray cs) \<Rightarrow> JObject (AList.update ''children'' (JArray (cs @ [n])) kvs)
      | Some _ \<Rightarrow> JObject kvs)"
| "push_child n t = t"

text \<open>The first element that can be changed.\<close>

fun first_update :: "('a \<Rightarrow> 'a option) \<Rightarrow> 'a list \<Rightarrow> 'a list option" where
  "first_update f [] = None"
| "first_update f (x # xs) =
     (case f x of Some y \<Rightarrow> Some (y # xs) | None \<Rightarrow> map_option ((#) x) (first_update f xs))"

lemma first_update_cong [fundef_cong]:
  "xs = ys \<Longrightarrow> (\<And>x. x \<in> set ys \<Longrightarrow> f x = g x) \<Longrightarrow> first_update f xs = first_update g ys"
  by (induction xs arbitrary: ys) (auto split: option.split)

function insert_into_parent :: "string \<Rightarrow> json \<Rightarrow> json \<Rightarrow> json option" where
  "insert_into_parent p n t =
     (if field_str ''id'' t = Some p then Some (push_child n t)
      else map_option (\<lambda>cs. set_children cs t) (first_update (insert_into_parent p n) (children t)))"
  by pat_completeness auto
termination by (relation "measure (\<lambda>(p, n, t). size t)") (auto dest: child_size)

function remove_from_tree :: "string \<Rightarrow> json \<Rightarrow> json option" where
  "remove_from_tree i t =
     (let cs = children t; kept = filter (\<lambda>c. field_str ''id'' c \<noteq> Some i) cs in
      if length kept < length cs then Some (set_children kept t)
      else map_option (\<lambda>cs'. set_children cs' t) (first_update (remove_from_tree i) kept))"
  by pat_completeness auto
termination by (relation "measure (\<lambda>(i, t). size t)") (auto dest: child_size)

function collect_ids :: "json \<Rightarrow> string list" where
  "collect_ids t =
     (case field_str ''id'' t of None \<Rightarrow> [] | Some i \<Rightarrow> [i]) @ concat (map collect_ids (children t))"
  by pat_completeness auto
termination by (relation "measure size") (auto dest: child_size)

declare insert_into_parent.simps [simp del] remove_from_tree.simps [simp del] collect_ids.simps [simp del]

section \<open>The active canvas\<close>

definition new_canvas :: "string \<Rightarrow> string \<Rightarrow> string \<Rightarrow> json \<Rightarrow> json" where
  "new_canvas uuid created updated args =
     JObject
      [(''id'', JString uuid), (''title'', JString (text_or [] ''title'' args)),
       (''description'', (case field_str ''description'' args of None \<Rightarrow> JNull | Some d \<Rightarrow> JString d)),
       (''tree'', JObject [(''id'', JString ''root''), (''type'', JString ''Root''), (''children'', JArray [])]),
       (''data'', JObject []), (''procedures'', JArray []), (''rules'', JArray []),
       (''createdAt'', JString created), (''updatedAt'', JString updated)]"

definition canvas_create :: "'s key_store option \<Rightarrow> string \<Rightarrow> string \<Rightarrow> string \<Rightarrow> json \<Rightarrow> 's step" where
  "canvas_create store uuid created updated args =
     checked no_store store (\<lambda>st. checked (missing ''title'') (field_str ''title'' args) (\<lambda>_ s.
       Some (Ok_Json (new_canvas uuid created updated args), st_set st active_key (new_canvas uuid created updated args) s)))"

definition canvas_get :: "'s key_store option \<Rightarrow> 's step" where
  "canvas_get store = checked no_store store (\<lambda>st s. Some (shown (st_get st active_key s), s))"

definition canvas_export :: "'s key_store option \<Rightarrow> 's step" where
  "canvas_export store = checked no_store store (\<lambda>st. on_canvas st (\<lambda>c s. Some (Ok_Json c, s)))"

definition canvas_set_tree :: "'s key_store option \<Rightarrow> string \<Rightarrow> json \<Rightarrow> 's step" where
  "canvas_set_tree store now args =
     checked no_store store (\<lambda>st. checked (missing ''tree'') (json_get ''tree'' args) (\<lambda>tree.
       on_canvas st (\<lambda>c s. Option.bind (json_put ''tree'' tree c) (\<lambda>c'. keep_canvas st now ''tree updated'' c' s))))"

text \<open>\<open>&mut canvas["tree"]\<close>: a missing tree is \<open>null\<close>.\<close>

definition tree_of :: "json \<Rightarrow> json" where
  "tree_of c = or_else JNull (json_get ''tree'' c)"

definition change_tree :: "'s key_store \<Rightarrow> string \<Rightarrow> (json \<Rightarrow> json option) \<Rightarrow> string \<Rightarrow> string \<Rightarrow> json \<Rightarrow> 's step" where
  "change_tree st now change failure success c s =
     (case json_put ''tree'' (tree_of c) c of
        None \<Rightarrow> None
      | Some _ \<Rightarrow>
          (case change (tree_of c) of
             None \<Rightarrow> Some (Failed failure, s)
           | Some t \<Rightarrow> Option.bind (json_put ''tree'' t c) (\<lambda>c'. keep_canvas st now success c' s)))"

definition quote_id :: "string \<Rightarrow> string" where
  "quote_id i = CHR 0x27 # i @ [CHR 0x27]"

definition canvas_add_node :: "'s key_store option \<Rightarrow> string \<Rightarrow> json \<Rightarrow> 's step" where
  "canvas_add_node store now args =
     checked no_store store (\<lambda>st. checked (missing ''parentId'') (field_str ''parentId'' args) (\<lambda>p.
       checked (missing ''node'') (json_get ''node'' args) (\<lambda>n. on_canvas st
         (change_tree st now (insert_into_parent p n) (''parent node '' @ quote_id p @ '' not found in tree'')
           (''node added under parent '' @ quote_id p)))))"

definition canvas_remove_node :: "'s key_store option \<Rightarrow> string \<Rightarrow> json \<Rightarrow> 's step" where
  "canvas_remove_node store now args =
     checked no_store store (\<lambda>st. checked (missing ''nodeId'') (field_str ''nodeId'' args) (\<lambda>i. on_canvas st
       (change_tree st now (remove_from_tree i) (''node '' @ quote_id i @ '' not found in tree'')
         (''node '' @ quote_id i @ '' removed''))))"

text \<open>The second and later occurrences.\<close>

fun repeated :: "'a list \<Rightarrow> 'a list \<Rightarrow> 'a list" where
  "repeated seen [] = []"
| "repeated seen (x # xs) = (if x \<in> set seen then x # repeated seen xs else repeated (x # seen) xs)"

definition canvas_issues :: "json \<Rightarrow> string list" where
  "canvas_issues c =
     (if field_str ''id'' c = None then [''Canvas missing 'id' field''] else [])
     @ (if field_str ''title'' c = None then [''Canvas missing 'title' field''] else [])
     @ (case json_get ''tree'' c of
          None \<Rightarrow> [''Canvas missing 'tree' field'']
        | Some t \<Rightarrow> map (\<lambda>i. ''Duplicate node ID: '' @ quote_id i) (repeated [] (collect_ids t)))"

definition canvas_validate :: "'s key_store option \<Rightarrow> 's step" where
  "canvas_validate store =
     checked no_store store (\<lambda>st. on_canvas st (\<lambda>c s.
       (let issues = canvas_issues c in
        Some (Ok_Json (JObject [(''valid'', JBool (issues = [])),
          (''issues'', JArray (map (\<lambda>m. JObject [(''severity'', JString ''error''), (''message'', JString m)]) issues))]), s))))"

section \<open>Saved canvases\<close>

definition saved_key :: "string \<Rightarrow> string" where
  "saved_key i = ''canvas:saved:'' @ i"

definition canvas_import :: "'s key_store option \<Rightarrow> (string \<Rightarrow> json option) \<Rightarrow> json \<Rightarrow> 's step" where
  "canvas_import store parse args =
     checked no_store store (\<lambda>st. checked (missing ''json'') (field_str ''json'' args) (\<lambda>txt.
       checked (Failed ''invalid JSON'') (parse txt) (\<lambda>c s.
         if json_get ''id'' c = None \<or> json_get ''title'' c = None
         then Some (Failed ''imported canvas must have 'id' and 'title' fields'', s)
         else Some (Ok_Text (''canvas '' @ quote_id (text_or ''untitled'' ''title'' c) @ '' imported and set as active''),
           st_set st active_key c s))))"

definition canvas_list :: "'s key_store option \<Rightarrow> 's step" where
  "canvas_list store =
     checked no_store store (\<lambda>st s.
       Some (Ok_Json (JArray (map (\<lambda>(_, c). JObject
         [(''id'', JString (text_or [] ''id'' c)), (''title'', JString (text_or [] ''title'' c)),
          (''description'', or_else JNull (json_get ''description'' c)),
          (''updatedAt'', or_else JNull (json_get ''updatedAt'' c))]) (live_entries st (saved_key []) s))), s))"

definition canvas_load :: "'s key_store option \<Rightarrow> json \<Rightarrow> 's step" where
  "canvas_load store args =
     checked no_store store (\<lambda>st. checked (missing ''id'') (field_str ''id'' args) (\<lambda>i s.
       checked (Failed (''canvas '' @ quote_id i @ '' not found'')) (non_null (st_get st (saved_key i) s))
         (\<lambda>c s. Some (Ok_Json c, st_set st active_key c s)) s))"

definition canvas_save :: "'s key_store option \<Rightarrow> 's step" where
  "canvas_save store =
     checked no_store store (\<lambda>st. on_canvas st (\<lambda>c.
       checked (Failed ''active canvas has no id'') (field_str ''id'' c) (\<lambda>i s.
         Some (Ok_Text (''canvas '' @ quote_id i @ '' saved''), st_set st (saved_key i) c s))))"

section \<open>Data, procedures and rules\<close>

definition merge_data :: "(string \<times> json) list \<Rightarrow> json \<Rightarrow> json option" where
  "merge_data kvs c =
     (case json_get ''data'' c of
        Some (JObject old) \<Rightarrow> json_put ''data'' (JObject (fold (\<lambda>(k, v). AList.update k v) kvs old)) c
      | _ \<Rightarrow> json_put ''data'' (JObject kvs) c)"

definition canvas_set_data :: "'s key_store option \<Rightarrow> string \<Rightarrow> json \<Rightarrow> 's step" where
  "canvas_set_data store now args =
     checked no_store store (\<lambda>st. checked (missing ''data'') (json_get ''data'' args) (\<lambda>d s.
       (case d of
          JObject kvs \<Rightarrow>
            on_canvas st (\<lambda>c s. Option.bind (merge_data kvs c) (\<lambda>c'. keep_canvas st now ''data updated'' c' s)) s
        | _ \<Rightarrow> Some (Failed (CHR 0x27 # ''data' must be a JSON object''), s))))"

definition append_to :: "string \<Rightarrow> json \<Rightarrow> json \<Rightarrow> json option" where
  "append_to k v c =
     (case json_get k c of
        None \<Rightarrow> json_put k (JArray [v]) c
      | Some (JArray xs) \<Rightarrow> json_put k (JArray (xs @ [v])) c
      | Some _ \<Rightarrow> Some c)"

definition canvas_add_procedure :: "'s key_store option \<Rightarrow> string \<Rightarrow> json \<Rightarrow> 's step" where
  "canvas_add_procedure store now args =
     checked no_store store (\<lambda>st. checked (missing ''procedure'') (json_get ''procedure'' args) (\<lambda>v. on_canvas st (\<lambda>c s.
       Option.bind (append_to ''procedures'' v c) (\<lambda>c'. keep_canvas st now ''procedure added'' c' s))))"

definition canvas_add_rule :: "'s key_store option \<Rightarrow> string \<Rightarrow> json \<Rightarrow> 's step" where
  "canvas_add_rule store now args =
     checked no_store store (\<lambda>st. checked (missing ''rule'') (json_get ''rule'' args) (\<lambda>v. on_canvas st (\<lambda>c s.
       Option.bind (append_to ''rules'' v c) (\<lambda>c'. keep_canvas st now ''rule added'' c' s))))"

section \<open>Rendering instructions\<close>

definition queue_key :: string where
  "queue_key = ''canvas:a2ui:queue''"

definition instructions_of :: "(string \<Rightarrow> json option) \<Rightarrow> json \<Rightarrow> json list option" where
  "instructions_of parse args =
     (case field_str ''jsonl'' args of
        Some txt \<Rightarrow> Some (List.map_filter parse (filter (\<lambda>l. trim l \<noteq> []) (lines txt)))
      | None \<Rightarrow> Option.bind (json_get ''instructions'' args) json_as_array)"

text \<open>The time stamp goes into whatever the key of the active canvas holds.\<close>

definition stamp_canvas :: "'s key_store \<Rightarrow> string \<Rightarrow> string \<Rightarrow> mcp_result \<Rightarrow> 's step" where
  "stamp_canvas st field now r s =
     (case st_get st active_key s of
        None \<Rightarrow> Some (r, s)
      | Some c \<Rightarrow> map_option (\<lambda>c'. (r, st_set st active_key c' s)) (json_put field (JString now) c))"

definition canvas_a2ui_push :: "'s key_store option \<Rightarrow> (string \<Rightarrow> json option) \<Rightarrow> string \<Rightarrow> json \<Rightarrow> 's step" where
  "canvas_a2ui_push store parse now args =
     checked no_store store (\<lambda>st.
       checked (Failed ''missing required parameter: jsonl (string) or instructions (array)'') (instructions_of parse args)
         (\<lambda>is s.
           if is = [] then Some (Failed ''no valid instructions provided'', s)
           else
             (let queue = (case st_get st queue_key s of Some (JArray xs) \<Rightarrow> xs | _ \<Rightarrow> []) in
              stamp_canvas st ''a2uiLastPush'' now (Ok_Text (show_nat (length is) @ '' instruction(s) pushed to A2UI queue''))
                (st_set st queue_key (JArray (queue @ is)) s))))"

definition canvas_a2ui_reset :: "'s key_store option \<Rightarrow> string \<Rightarrow> json \<Rightarrow> 's step" where
  "canvas_a2ui_reset store now args =
     checked no_store store (\<lambda>st s.
       (let target = text_or ''global'' ''target'' args;
            key = (if target = ''global'' then queue_key else queue_key @ '':'' @ target) in
        stamp_canvas st ''a2uiLastReset'' now (Ok_Text (''A2UI queue reset (target: '' @ target @ '')''))
          (st_set st key (JArray []) s)))"

section \<open>Adding and removing nodes\<close>

text \<open>A tree of objects whose children are lists, where they have any.\<close>

function tree_ok :: "json \<Rightarrow> bool" where
  "tree_ok t \<longleftrightarrow>
     (case t of JObject _ \<Rightarrow> True | _ \<Rightarrow> False)
     \<and> (case json_get ''children'' t of None \<Rightarrow> True | Some (JArray _) \<Rightarrow> True | Some _ \<Rightarrow> False)
     \<and> list_all tree_ok (children t)"
  by pat_completeness auto
termination by (relation "measure size") (auto dest: child_size)

declare tree_ok.simps [simp del]

lemma tree_ok_object:
  "tree_ok (JObject kvs) \<longleftrightarrow>
     (case map_of kvs ''children'' of None \<Rightarrow> True | Some (JArray _) \<Rightarrow> True | Some _ \<Rightarrow> False)
     \<and> list_all tree_ok (children (JObject kvs))"
  by (subst tree_ok.simps) simp

lemma first_update_Some:
  assumes "first_update f xs = Some ys"
  shows "\<exists>us x y vs. xs = us @ x # vs \<and> ys = us @ y # vs \<and> f x = Some y \<and> (\<forall>u \<in> set us. f u = None)"
  using assms
proof (induction xs arbitrary: ys)
  case (Cons x xs)
  show ?case
  proof (cases "f x")
    case None
    then obtain zs where "first_update f xs = Some zs" "ys = x # zs" using Cons.prems by auto
    then obtain us v y vs where "xs = us @ v # vs" "zs = us @ y # vs" "f v = Some y" "\<forall>u \<in> set us. f u = None"
      using Cons.IH by blast
    then show ?thesis using None \<open>ys = x # zs\<close> by (intro exI [of _ "x # us"] exI [of _ v] exI [of _ y] exI [of _ vs]) simp
  next
    case (Some y)
    then show ?thesis using Cons.prems by (intro exI [of _ "[]"] exI [of _ x] exI [of _ y] exI [of _ xs]) simp
  qed
qed simp

lemma first_update_here:
  "f x = Some y \<Longrightarrow> \<forall>u \<in> set us. f u = None \<Longrightarrow> first_update f (us @ x # vs) = Some (us @ y # vs)"
  by (induction us) simp_all

lemma first_update_None: "first_update f xs = None \<longleftrightarrow> (\<forall>x \<in> set xs. f x = None)"
  by (induction xs) (auto split: option.split)

lemma object_fields [simp]:
  "children (JObject (AList.update ''children'' (JArray cs) kvs)) = cs"
  "field_str ''id'' (JObject (AList.update ''children'' (JArray cs) kvs)) = field_str ''id'' (JObject kvs)"
  "json_get ''children'' (JObject (AList.update ''children'' (JArray cs) kvs)) = Some (JArray cs)"
  by (simp_all add: children_def field_str_def update_conv')

lemma tree_okD:
  assumes "tree_ok t"
  shows "\<exists>kvs. t = JObject kvs \<and> (map_of kvs ''children'' = None \<and> children t = []
      \<or> map_of kvs ''children'' = Some (JArray (children t)))"
    and "\<forall>c \<in> set (children t). tree_ok c"
proof -
  obtain kvs where "t = JObject kvs" using assms by (auto simp: tree_ok.simps [of t] split: json.splits)
  then show "\<exists>kvs. t = JObject kvs \<and> (map_of kvs ''children'' = None \<and> children t = []
      \<or> map_of kvs ''children'' = Some (JArray (children t)))"
    using assms by (auto simp: tree_ok_object children_def split: option.splits json.splits)
  show "\<forall>c \<in> set (children t). tree_ok c" using assms by (simp add: tree_ok.simps [of t] list_all_iff)
qed

lemma push_child_tree:
  assumes "tree_ok t"
  shows "\<exists>kvs. t = JObject kvs \<and> push_child n t = JObject (AList.update ''children'' (JArray (children t @ [n])) kvs)"
  using tree_okD(1) [OF assms] by auto

lemma set_children_ok:
  assumes "tree_ok t" and "\<forall>c \<in> set cs. tree_ok c"
  shows "tree_ok (set_children cs t)" and "children (set_children cs t) = cs"
    and "field_str ''id'' (set_children cs t) = field_str ''id'' t"
proof -
  obtain kvs where t: "t = JObject kvs" using tree_okD(1) [OF assms(1)] by blast
  show "tree_ok (set_children cs t)" using assms(2)
    by (simp add: t tree_ok_object list_all_iff update_conv')
  show "children (set_children cs t) = cs" "field_str ''id'' (set_children cs t) = field_str ''id'' t"
    by (simp_all add: t)
qed

lemma insert_ids:
  "tree_ok t \<Longrightarrow> tree_ok n \<Longrightarrow> insert_into_parent p n t = Some t'
    \<Longrightarrow> tree_ok t' \<and> mset (collect_ids t') = mset (collect_ids t) + mset (collect_ids n)"
proof (induction p n t arbitrary: t' rule: insert_into_parent.induct)
  case (1 p n t)
  note ok = tree_okD [OF 1(2)]
  show ?case
  proof (cases "field_str ''id'' t = Some p")
    case True
    then have t': "t' = push_child n t" using 1(4) by (simp add: insert_into_parent.simps [of p n t])
    obtain kvs where kvs: "t = JObject kvs" "t' = JObject (AList.update ''children'' (JArray (children t @ [n])) kvs)"
      using push_child_tree [OF 1(2)] t' by blast
    then have "tree_ok t'" using ok(2) 1(3)
      by (simp add: tree_ok_object list_all_iff update_conv')
    then show ?thesis
      unfolding collect_ids.simps [of t'] collect_ids.simps [of t] by (simp add: kvs)
  next
    case False
    then obtain cs where cs: "first_update (insert_into_parent p n) (children t) = Some cs" "t' = set_children cs t"
      using 1(4) by (auto simp: insert_into_parent.simps [of p n t])
    then obtain us x y vs where parts: "children t = us @ x # vs" "cs = us @ y # vs" "insert_into_parent p n x = Some y"
      using first_update_Some by blast
    have y: "tree_ok y \<and> mset (collect_ids y) = mset (collect_ids x) + mset (collect_ids n)"
      using 1(1) [OF False, of x y] parts ok(2) 1(3) by simp
    then have all: "\<forall>c \<in> set cs. tree_ok c" using parts ok(2) by auto
    show ?thesis
      unfolding collect_ids.simps [of t'] collect_ids.simps [of t]
      using set_children_ok [OF 1(2) all, folded cs(2)] parts y by simp
  qed
qed

lemma remove_absent: "i \<notin> set (collect_ids t) \<Longrightarrow> remove_from_tree i t = None"
proof (induction i t rule: remove_from_tree.induct)
  case (1 i t)
  have c: "i \<notin> set (collect_ids c)" "field_str ''id'' c \<noteq> Some i" if "c \<in> set (children t)" for c
    using 1(2) that by (auto simp: collect_ids.simps [of t] collect_ids.simps [of c])
  then have "filter (\<lambda>c. field_str ''id'' c \<noteq> Some i) (children t) = children t" by (simp add: filter_id_conv)
  then show ?case using 1(1) c by (auto simp: remove_from_tree.simps [of i t] Let_def first_update_None)
qed

lemma update_same: "map_of kvs k = Some v \<Longrightarrow> AList.update k v kvs = kvs"
  by (induction kvs) (auto split: if_splits)

lemma update_twice: "AList.update k v (AList.update k w kvs) = AList.update k v kvs"
  by (induction kvs) auto

text \<open>Every node has a list of children.\<close>

function tree_full :: "json \<Rightarrow> bool" where
  "tree_full t \<longleftrightarrow>
     (case t of JObject kvs \<Rightarrow> map_of kvs ''children'' = Some (JArray (children t)) | _ \<Rightarrow> False) \<and> list_all tree_full (children t)"
  by pat_completeness auto
termination by (relation "measure size") (auto dest: child_size)

declare tree_full.simps [simp del]

lemma tree_fullD:
  "tree_full t \<Longrightarrow> \<exists>kvs. t = JObject kvs \<and> map_of kvs ''children'' = Some (JArray (children t))"
  "tree_full t \<Longrightarrow> c \<in> set (children t) \<Longrightarrow> tree_full c"
  by (auto simp: tree_full.simps [of t] list_all_iff split: json.splits)

lemma insert_remove:
  "tree_full t \<Longrightarrow> field_str ''id'' n = Some i \<Longrightarrow> i \<notin> set (collect_ids t)
    \<Longrightarrow> insert_into_parent p n t = Some t' \<Longrightarrow> remove_from_tree i t' = Some t"
proof (induction p n t arbitrary: t' rule: insert_into_parent.induct)
  case (1 p n t)
  obtain kvs where t: "t = JObject kvs" "map_of kvs ''children'' = Some (JArray (children t))"
    using tree_fullD(1) [OF 1(2)] by blast
  have keep: "field_str ''id'' c \<noteq> Some i" "i \<notin> set (collect_ids c)" if "c \<in> set (children t)" for c
    using 1(4) that by (auto simp: collect_ids.simps [of t] collect_ids.simps [of c])
  show ?case
  proof (cases "field_str ''id'' t = Some p")
    case True
    then have t': "t' = JObject (AList.update ''children'' (JArray (children t @ [n])) kvs)"
      using 1(5) t(2) unfolding insert_into_parent.simps [of p n t] by (simp add: True t(1) [symmetric]) (simp add: t(1))
    have "filter (\<lambda>c. field_str ''id'' c \<noteq> Some i) (children t @ [n]) = children t"
      using keep 1(3) by (simp add: filter_id_conv)
    moreover have "children t' = children t @ [n]" by (simp add: t')
    moreover have "set_children (children t) t' = t" using t(2) by (simp add: t' update_twice update_same) (simp add: t(1))
    ultimately show ?thesis by (simp add: remove_from_tree.simps [of i t'])
  next
    case False
    then obtain cs where cs: "first_update (insert_into_parent p n) (children t) = Some cs" "t' = set_children cs t"
      using 1(5) by (auto simp: insert_into_parent.simps [of p n t])
    then obtain us x y vs where parts: "children t = us @ x # vs" "cs = us @ y # vs"
        "insert_into_parent p n x = Some y" "\<forall>u \<in> set us. insert_into_parent p n u = None"
      using first_update_Some by blast
    have x: "x \<in> set (children t)" "tree_full x" using parts tree_fullD(2) [OF 1(2)] by auto
    have rec: "remove_from_tree i y = Some x"
      using 1(1) [OF False x(1) x(2) 1(3) keep(2) [OF x(1)] parts(3)] .
    have same_id: "field_str ''id'' y = field_str ''id'' x"
    proof (cases "field_str ''id'' x = Some p")
      case True
      then show ?thesis using parts(3) tree_fullD(1) [OF x(2)]
        by (auto simp: insert_into_parent.simps [of p n x])
    next
      case False
      then show ?thesis using parts(3) tree_fullD(1) [OF x(2)]
        by (auto simp: insert_into_parent.simps [of p n x])
    qed
    have kept: "filter (\<lambda>c. field_str ''id'' c \<noteq> Some i) cs = cs"
      using keep parts(1,2) same_id x(1) by (auto simp: filter_id_conv)
    have "first_update (remove_from_tree i) cs = Some (children t)"
      unfolding parts using keep(2) parts(1) by (intro first_update_here rec) (auto intro!: remove_absent)
    moreover have "children t' = cs" "set_children (children t) t' = t"
      using t(2) by (simp_all add: t(1) cs(2) update_twice update_same)
    ultimately show ?thesis using kept by (simp add: remove_from_tree.simps [of i t'])
  qed
qed


section \<open>The canvas stays valid\<close>

lemma repeated_none: "repeated seen xs = [] \<longleftrightarrow> distinct xs \<and> set xs \<inter> set seen = {}"
  by (induction xs arbitrary: seen) auto

lemma canvas_valid:
  "canvas_issues c = [] \<longleftrightarrow> field_str ''id'' c \<noteq> None \<and> field_str ''title'' c \<noteq> None
     \<and> (\<exists>t. json_get ''tree'' c = Some t \<and> distinct (collect_ids t))"
  by (auto simp: canvas_issues_def repeated_none split: option.splits)

lemma json_put_get: "json_put k v c = Some c' \<Longrightarrow> json_get k' c' = (if k' = k then Some v else json_get k' c)"
  by (cases c) (auto simp: update_conv')

lemma json_put_str: "json_put k v c = Some c' \<Longrightarrow> k' \<noteq> k \<Longrightarrow> field_str k' c' = field_str k' c"
  by (simp add: field_str_def json_put_get)

text \<open>C24: Adding a node with fresh ids to a valid canvas leaves a valid canvas.\<close>

theorem canvas_stays_valid:
  assumes "key_store_laws st" and "active st s = Some c" and "canvas_issues c = []"
    and "tree_ok (tree_of c)" and "tree_ok n" and "distinct (collect_ids n)"
    and "set (collect_ids n) \<inter> set (collect_ids (tree_of c)) = {}"
    and "canvas_add_node (Some st) now (JObject [(''parentId'', JString p), (''node'', n)]) s = Some (r, s')"
  shows "\<exists>c'. active st s' = Some c' \<and> canvas_issues c' = []"
proof -
  let ?t = "tree_of c"
  have tree: "json_get ''tree'' c = Some ?t" "distinct (collect_ids ?t)"
    using assms(3) by (auto simp: canvas_valid tree_of_def or_else_def)
  have run: "change_tree st now (insert_into_parent p n) (''parent node '' @ quote_id p @ '' not found in tree'')
      (''node added under parent '' @ quote_id p) c s = Some (r, s')"
    using assms(8) by (simp add: canvas_add_node_def checked_def on_canvas_def assms(2) field_str_def)
  show ?thesis
  proof (cases "insert_into_parent p n ?t")
    case None
    then have "s' = s" using run by (auto simp: change_tree_def split: option.splits)
    then show ?thesis using assms(2,3) by blast
  next
    case (Some t')
    then obtain c1 c2 where c: "json_put ''tree'' t' c = Some c1" "json_put ''updatedAt'' (JString now) c1 = Some c2"
        "s' = st_set st active_key c2 s"
      using run by (auto simp: change_tree_def keep_canvas_def bind_eq_Some_conv split: option.splits)
    have "distinct (collect_ids t')"
      using insert_ids [OF assms(4,5) Some] tree(2) assms(6,7)
      by (metis distinct_append mset_append mset_eq_imp_distinct_iff inf_commute)
    then have "canvas_issues c2 = []"
      using assms(3) json_put_get [OF c(1)] json_put_get [OF c(2)] json_put_str [OF c(1)] json_put_str [OF c(2)]
      by (simp add: canvas_valid)
    moreover have "non_null (Some c2) = Some c2" using c(1,2) by (cases c1) (auto simp: non_null_def)
    ultimately show ?thesis by (simp add: active_def c(3) key_store [OF assms(1)])
  qed
qed

text \<open>A canvas that was saved is loaded again as it was, whatever became of the active one.\<close>

theorem saved_canvas_loaded:
  assumes "key_store_laws st" and "active st s = Some c" and "field_str ''id'' c = Some i"
    and "canvas_save (Some st) s = Some (r, s1)" and "st_get st (saved_key i) s2 = st_get st (saved_key i) s1"
  shows "\<exists>s3. canvas_load (Some st) (JObject [(''id'', JString i)]) s2 = Some (Ok_Json c, s3) \<and> active st s3 = Some c"
proof -
  have "s1 = st_set st (saved_key i) c s"
    using assms(4) by (simp add: canvas_save_def checked_def on_canvas_def assms(2,3))
  moreover have "non_null (Some c) = Some c" using assms(2) by (auto simp: active_def non_null_def split: option.splits if_splits)
  ultimately show ?thesis
    using assms(5) by (simp add: canvas_load_def checked_def field_str_def key_store [OF assms(1)] active_def)
qed

text \<open>A node added under a parent whose children are no list is lost although the tool reports that it was
  added.\<close>

theorem added_node_lost:
  assumes "json_get ''children'' t = Some JNull" and "field_str ''id'' t = Some p"
  shows "insert_into_parent p n t = Some t"
  using assms by (cases t) (simp_all add: insert_into_parent.simps [of p n])

text \<open>A reset for one target leaves the queue as it is, and no instruction is ever pushed into the queue of a
  target.\<close>

theorem targeted_reset_clears_nothing:
  assumes "key_store_laws st" and "target \<noteq> ''global''"
    and "canvas_a2ui_reset (Some st) now (JObject [(''target'', JString target)]) s = Some (r, s1)"
    and "canvas_a2ui_push (Some st) parse now args s = Some (r', s2)"
  shows "st_get st queue_key s1 = st_get st queue_key s
    \<and> st_get st (queue_key @ '':'' @ target) s2 = st_get st (queue_key @ '':'' @ target) s"
proof -
  note st = key_store [OF assms(1)]
  have stamp: "stamp_canvas st f now r0 s0 = Some (r', s') \<Longrightarrow> k \<noteq> active_key \<Longrightarrow> st_get st k s' = st_get st k s0"
    for f r0 s0 r' s' k
    by (auto simp: stamp_canvas_def st split: option.splits)
  have ne: "queue_key @ '':'' @ target \<noteq> queue_key" "queue_key \<noteq> active_key" "queue_key @ '':'' @ target \<noteq> active_key"
    by (simp_all add: queue_key_def active_key_def)
  have "st_get st queue_key s1 = st_get st queue_key s"
    using assms(2,3) ne stamp [of _ _ _ _ s1 queue_key]
    by (fastforce simp: canvas_a2ui_reset_def checked_def text_or_def field_str_def Let_def st)
  moreover have "st_get st (queue_key @ '':'' @ target) s2 = st_get st (queue_key @ '':'' @ target) s"
    using assms(4) ne stamp [of _ _ _ _ s2 "queue_key @ '':'' @ target"]
    by (fastforce simp: canvas_a2ui_push_def checked_def Let_def st split: option.splits if_splits)
  ultimately show ?thesis ..
qed

section \<open>Instances\<close>

definition leaf :: "string \<Rightarrow> json" where
  "leaf i = JObject [(''id'', JString i), (''children'', JArray [])]"

definition small_tree :: json where
  "small_tree = JObject [(''id'', JString ''root''), (''children'', JArray [leaf ''a''])]"

definition small_canvas :: json where
  "small_canvas = JObject [(''id'', JString ''c''), (''title'', JString ''t''), (''tree'', small_tree)]"

definition grown_tree :: json where
  "grown_tree = JObject [(''id'', JString ''root''), (''children'', JArray
     [JObject [(''id'', JString ''a''), (''children'', JArray [leaf ''b''])]])]"


lemma canvas_stays_valid_witness:
  "\<exists>r s'. canvas_add_node (Some hash_store) ''now'' (JObject [(''parentId'', JString ''a''), (''node'', leaf ''b'')])
      [(active_key, small_canvas)] = Some (r, s')
    \<and> (\<exists>c'. active hash_store s' = Some c' \<and> canvas_issues c' = [])"
proof -
  let ?run = "canvas_add_node (Some hash_store) ''now'' (JObject [(''parentId'', JString ''a''), (''node'', leaf ''b'')])
      [(active_key, small_canvas)]"
  have "?run \<noteq> None" by code_simp
  then obtain r s' where run: "?run = Some (r, s')" by auto
  have "\<exists>c'. active hash_store s' = Some c' \<and> canvas_issues c' = []"
  proof (rule canvas_stays_valid [OF hash_store_laws _ _ _ _ _ _ run])
    show "active hash_store [(active_key, small_canvas)] = Some small_canvas" by code_simp
    show "canvas_issues small_canvas = []" "tree_ok (tree_of small_canvas)" "tree_ok (leaf ''b'')" by code_simp+
    show "distinct (collect_ids (leaf ''b''))" by code_simp
    show "set (collect_ids (leaf ''b'')) \<inter> set (collect_ids (tree_of small_canvas)) = {}" by code_simp
  qed
  then show ?thesis using run by blast
qed

lemma saved_canvas_loaded_witness:
  "\<exists>s3. canvas_load (Some hash_store) (JObject [(''id'', JString ''c'')])
      [(saved_key ''c'', small_canvas), (active_key, JNull)] = Some (Ok_Json small_canvas, s3)
    \<and> active hash_store s3 = Some small_canvas"
proof (rule saved_canvas_loaded [OF hash_store_laws])
  show "active hash_store [(active_key, small_canvas)] = Some small_canvas" by code_simp
  show "field_str ''id'' small_canvas = Some ''c''" by code_simp
  show "canvas_save (Some hash_store) [(active_key, small_canvas)]
    = Some (Ok_Text (''canvas '' @ quote_id ''c'' @ '' saved''), [(active_key, small_canvas), (saved_key ''c'', small_canvas)])"
    by code_simp
  show "st_get hash_store (saved_key ''c'') [(saved_key ''c'', small_canvas), (active_key, JNull)]
    = st_get hash_store (saved_key ''c'') [(active_key, small_canvas), (saved_key ''c'', small_canvas)]"
    by code_simp
qed

lemma added_node_lost_witness:
  "insert_into_parent ''p'' (leaf ''b'') (JObject [(''id'', JString ''p''), (''children'', JNull)])
    = Some (JObject [(''id'', JString ''p''), (''children'', JNull)])"
  by (rule added_node_lost) (simp_all add: field_str_def)

lemma targeted_reset_clears_nothing_witness:
  "st_get hash_store queue_key [(queue_key, JArray [JBool True]), (queue_key @ '':tv'', JArray [])]
      = st_get hash_store queue_key [(queue_key, JArray [JBool True])]
    \<and> st_get hash_store (queue_key @ '':'' @ ''tv'') [(queue_key, JArray [JBool True, JBool False])]
      = st_get hash_store (queue_key @ '':'' @ ''tv'') [(queue_key, JArray [JBool True])]"
proof (rule targeted_reset_clears_nothing [OF hash_store_laws])
  show "''tv'' \<noteq> ''global''" by simp
  show "canvas_a2ui_reset (Some hash_store) ''now'' (JObject [(''target'', JString ''tv'')]) [(queue_key, JArray [JBool True])]
    = Some (Ok_Text (''A2UI queue reset (target: '' @ ''tv'' @ '')''), [(queue_key, JArray [JBool True]), (queue_key @ '':tv'', JArray [])])"
    by code_simp
  show "canvas_a2ui_push (Some hash_store) (\<lambda>_. None) ''now'' (JObject [(''instructions'', JArray [JBool False])])
      [(queue_key, JArray [JBool True])]
    = Some (Ok_Text (show_nat 1 @ '' instruction(s) pushed to A2UI queue''), [(queue_key, JArray [JBool True, JBool False])])"
    by code_simp
qed

end
