(* ===== verification/Tool_Schedule.thy ===== *)
theory Tool_Schedule
  imports Scheduler Tool_State
begin

text \<open>
  The tools of the tool server that work on the scheduler (\<open>cron_list\<close>, \<open>cron_add\<close>, \<open>cron_remove\<close> and
  \<open>cron_toggle\<close> of \<open>mcp-server/src/radix_handler.rs\<close>), and what they let a caller do to it.
\<close>

section \<open>The tools\<close>

definition using_scheduler :: "'s sched option \<Rightarrow> ('s sched \<Rightarrow> mcp_result \<times> 's sched) \<Rightarrow> mcp_result \<times> 's sched option" where
  "using_scheduler sc f =
     (case sc of
        None \<Rightarrow> (Failed ''scheduler not configured'', None)
      | Some s \<Rightarrow> (case f s of (r, s') \<Rightarrow> (r, Some s')))"

text \<open>The printer of a schedule and of a time are parameters.\<close>

definition show_task :: "(schedule \<Rightarrow> json) \<Rightarrow> (time \<Rightarrow> string) \<Rightarrow> task \<Rightarrow> json" where
  "show_task enc show_time t =
     JObject
      [(''id'', JString (task_id t)), (''name'', JString (task_name t)), (''schedule'', enc (task_schedule t)),
       (''command'', JString (task_command t)), (''enabled'', JBool (task_enabled t)),
       (''last_run'', (case last_run t of None \<Rightarrow> JNull | Some d \<Rightarrow> JString (show_time d))),
       (''last_result'', (case last_result t of None \<Rightarrow> JNull | Some r \<Rightarrow> JString r))]"

definition cron_list :: "(schedule \<Rightarrow> json) \<Rightarrow> (time \<Rightarrow> string) \<Rightarrow> 's sched option \<Rightarrow> mcp_result \<times> 's sched option" where
  "cron_list enc show_time sc =
     using_scheduler sc (\<lambda>s. (Ok_Json (JArray (map (show_task enc show_time) (list_tasks s))), s))"

definition schedule_arg :: "json \<Rightarrow> schedule option" where
  "schedule_arg args =
     (case field_str ''cron'' args of
        Some expr \<Rightarrow> Some (Cron expr)
      | None \<Rightarrow> map_option (\<lambda>n. Interval (of_nat n)) (Option.bind (json_get ''interval_secs'' args) json_as_u64))"

text \<open>\<open>as u32\<close> keeps the low 32 bits.\<close>

definition alert_arg :: "json \<Rightarrow> failure_alert option" where
  "alert_arg args =
     Option.bind (json_get ''failure_alert'' args) (\<lambda>fa.
       map_option (\<lambda>n. \<lparr>after = of_nat n,
           cooldown_secs = (case Option.bind (json_get ''cooldown_secs'' fa) json_as_u64 of None \<Rightarrow> 0 | Some c \<Rightarrow> of_nat c)\<rparr>)
         (Option.bind (json_get ''after'' fa) json_as_u64))"

definition cron_task :: "string \<Rightarrow> json \<Rightarrow> string \<Rightarrow> string \<Rightarrow> schedule \<Rightarrow> task" where
  "cron_task uuid args name command schedule =
     default_task\<lparr>task_id := uuid, task_name := name, task_schedule := schedule, task_command := command,
       task_enabled := True, last_run := None, last_result := None, task_failure_alert := alert_arg args\<rparr>"

definition cron_add :: "string \<Rightarrow> json \<Rightarrow> 's sched option \<Rightarrow> mcp_result \<times> 's sched option" where
  "cron_add uuid args sc =
     using_scheduler sc (\<lambda>s.
       (case (field_str ''name'' args, field_str ''command'' args, schedule_arg args) of
          (None, _, _) \<Rightarrow> (missing ''name'', s)
        | (Some _, None, _) \<Rightarrow> (missing ''command'', s)
        | (Some _, Some _, None) \<Rightarrow> (Failed (''missing schedule: provide 'cron' or 'interval_secs'' @ [CHR 0x27]), s)
        | (Some n, Some c, Some sch) \<Rightarrow>
            (Ok_Text (''added task: '' @ uuid), add_task (cron_task uuid args n c sch) s)))"

definition cron_remove :: "json \<Rightarrow> 's sched option \<Rightarrow> mcp_result \<times> 's sched option" where
  "cron_remove args sc =
     using_scheduler sc (\<lambda>s.
       (case field_str ''id'' args of
          None \<Rightarrow> (missing ''id'', s)
        | Some i \<Rightarrow>
            (case remove_task i s of
               (removed, s') \<Rightarrow>
                 (if removed then Ok_Text (''removed task: '' @ i) else Failed (''task not found: '' @ i), s'))))"

definition show_bool :: "bool \<Rightarrow> string" where
  "show_bool b = (if b then ''true'' else ''false'')"

definition cron_toggle :: "json \<Rightarrow> 's sched option \<Rightarrow> mcp_result \<times> 's sched option" where
  "cron_toggle args sc =
     using_scheduler sc (\<lambda>s.
       (case (field_str ''id'' args, Option.bind (json_get ''enabled'' args) json_as_bool) of
          (None, _) \<Rightarrow> (missing ''id'', s)
        | (Some _, None) \<Rightarrow> (missing ''enabled'', s)
        | (Some i, Some b) \<Rightarrow>
            (case set_enabled i b s of
               (found, s') \<Rightarrow>
                 (if found then Ok_Text (''task '' @ i @ '' enabled='' @ show_bool b) else Failed (''task not found: '' @ i), s'))))"

section \<open>What the tools do\<close>

definition id_arg :: "string \<Rightarrow> json" where
  "id_arg i = JObject [(''id'', JString i)]"

definition toggle_arg :: "string \<Rightarrow> bool \<Rightarrow> json" where
  "toggle_arg i b = JObject [(''id'', JString i), (''enabled'', JBool b)]"

definition interval_arg :: "string \<Rightarrow> string \<Rightarrow> nat \<Rightarrow> json" where
  "interval_arg name command n =
     JObject [(''name'', JString name), (''command'', JString command), (''interval_secs'', json_nat n)]"

lemma cron_add_interval:
  "n < 2 ^ 64 \<Longrightarrow> cron_add uuid (interval_arg name command n) (Some s)
     = (Ok_Text (''added task: '' @ uuid),
        Some (add_task (cron_task uuid (interval_arg name command n) name command (Interval (of_nat n))) s))"
  by (simp add: cron_add_def using_scheduler_def interval_arg_def field_str_def schedule_arg_def)

text \<open>A task that is added is there and enabled, the switch sets its flag, and what is removed is gone; a switch or a
  removal of an unknown task is refused; and no tool touches another task.\<close>

theorem cron_tools_edit_one_task:
  assumes "n < 2 ^ 64" and "sched_ok s"
    and "added = the (snd (cron_add uuid (interval_arg name command n) (Some s)))"
    and "toggled = the (snd (cron_toggle (toggle_arg i b) (Some s)))"
    and "removed = the (snd (cron_remove (id_arg i) (Some s)))"
  shows "map_option (\<lambda>t. (task_name t, task_command t, task_enabled t)) (get_task uuid added) = Some (name, command, True)
    \<and> map_option task_enabled (get_task i toggled) = map_option (\<lambda>_. b) (get_task i s) \<and> get_task i removed = None
    \<and> (ok_result (fst (cron_toggle (toggle_arg i b) (Some s))) \<longleftrightarrow> get_task i s \<noteq> None)
    \<and> (ok_result (fst (cron_remove (id_arg i) (Some s))) \<longleftrightarrow> get_task i s \<noteq> None)
    \<and> (\<forall>j. (j \<noteq> uuid \<longrightarrow> get_task j added = get_task j s) \<and> (j \<noteq> i \<longrightarrow> get_task j toggled = get_task j s)
        \<and> (j \<noteq> i \<longrightarrow> get_task j removed = get_task j s))"
proof -
  have added: "added = add_task (cron_task uuid (interval_arg name command n) name command (Interval (of_nat n))) s"
    using assms(3) by (simp add: cron_add_interval [OF assms(1)])
  have toggled: "toggled = snd (set_enabled i b s)"
    using assms(4) by (simp add: cron_toggle_def using_scheduler_def toggle_arg_def field_str_def split: prod.split)
  have removed: "removed = snd (remove_task i s)"
    using assms(5) by (simp add: cron_remove_def using_scheduler_def id_arg_def field_str_def split: prod.split)
  show ?thesis
    unfolding added toggled removed
    by (auto simp: add_task_def set_enabled_def remove_task_def get_task_def cron_task_def hm_simps ok_result_def
      cron_toggle_def cron_remove_def using_scheduler_def toggle_arg_def id_arg_def field_str_def Let_def hm_contains_def
      split: option.splits)
qed

text \<open>C28: One call of \<open>cron_add\<close> stops the scheduler for good: the tool accepts every interval of 64 bits, and one above
  the range of a time delta makes the loop panic at its next tick, after which no task is ever dispatched.\<close>

theorem tool_call_stops_scheduler:
  assumes "\<And>n. (2 ^ 63 - 1) div 1000 < n \<Longrightarrow> td_seconds ch n = None"
    and "(2 ^ 63 - 1) div 1000 < n" and "n < 2 ^ 63"
  shows "\<exists>t. cron_add uuid (interval_arg name command n) (Some (sched_new st ex al))
      = (Ok_Text (''added task: '' @ uuid), Some (add_task t (sched_new st ex al)))
    \<and> (let s = sched_run ch ops (Tick now # evs) (add_task t (sched_new st ex al)) in \<not> alive s \<and> dispatched s = [])"
proof -
  let ?t = "cron_task uuid (interval_arg name command n) name command (Interval (of_nat n))"
  have "sint (of_nat n :: 64 word) = int n"
    using assms(3) by (simp add: signed_of_nat signed_take_bit_int_eq_self)
  then have "is_due ch ?t now = None"
    using assms(1) [of "int n"] assms(2) by (simp add: is_due_panic cron_task_def)
  then have "dead (sched_run ch ops [Tick now] (add_task ?t (sched_new st ex al)))"
    by (simp add: sched_run_def add_task_def sched_new_def tick_def dead_def hm_values_def
      hm_insert_def cron_task_def queue_write_def)
  from dead_run [OF this, of ch ops evs] show ?thesis
    using assms(3) by (intro exI [of _ ?t]) (simp add: cron_add_interval sched_run_def dead_def)
qed

text \<open>A threshold of failures that is a multiple of 2 to the 32 is stored as 0, which turns the alert off: the task
  that was added with it never raises one.\<close>

theorem large_threshold_never_alerts:
  assumes "2 ^ 32 dvd n" and "n < 2 ^ 64"
    and "json_get ''failure_alert'' args = Some (JObject [(''after'', json_nat n)])"
  shows "fst (record_failure err now (cron_task uuid args name command sch)) = None"
proof -
  have "(of_nat n :: 32 word) = 0" using assms(1) by (simp add: word_of_nat_eq_0_iff)
  then have "alert_arg args = Some \<lparr>after = 0, cooldown_secs = 0\<rparr>"
    using assms(2,3) by (simp add: alert_arg_def)
  then show ?thesis by (simp add: record_failure_def cron_task_def Let_def)
qed

lemma cron_tools_edit_one_task_witness:
  "map_option (\<lambda>t. (task_name t, task_command t, task_enabled t)) (get_task ''u''
      (the (snd (cron_add ''u'' (interval_arg ''n'' ''c'' 60) (Some (sched_new (None :: task list option) True True))))))
      = Some (''n'', ''c'', True)
    \<and> get_task ''x'' (the (snd (cron_remove (id_arg ''x'') (Some (sched_new (None :: task list option) True True))))) = None"
  using cron_tools_edit_one_task [where n = 60 and s = "sched_new (None :: task list option) True True" and uuid = "''u''" and name = "''n''"
    and command = "''c''" and i = "''x''" and b = True, OF _ sched_new_ok refl refl refl]
  by simp

lemma tool_call_stops_scheduler_witness:
  "\<exists>t. cron_add ''u'' (interval_arg ''n'' ''c'' 9223372036854775807) (Some (sched_new (None :: task list option) True True))
      = (Ok_Text (''added task: '' @ ''u''), Some (add_task t (sched_new None True True)))
    \<and> (let s = sched_run example_chrono memory_store (Tick 0 # [RemoveTask ''u'', Tick 60, Dispatch])
          (add_task t (sched_new None True True)) in \<not> alive s \<and> dispatched s = [])"
  by (rule tool_call_stops_scheduler) (simp_all add: example_chrono_def)

lemma large_threshold_never_alerts_witness:
  "fst (record_failure ''e'' 5 (cron_task ''u'' (JObject [(''failure_alert'', JObject [(''after'', json_nat 4294967296)])])
     ''n'' ''c'' (Interval 60))) = None"
  by (rule large_threshold_never_alerts [of 4294967296]) simp_all

end
