(* ===== verification/Spec2Isabelle.thy ===== *)
theory Spec2Isabelle
  imports Prelude Agenda Scheduler Sync Audit_Log Forgetting Delegation Sessions Patch Redaction Installation Skills Remembering Replication Preprocessing Handling Turn_Log
    Telegram_Turns Models Heartbeat Primitives Hostkit Canvas Tool_Schedule
begin

text \<open>
  A model of pares-agens, an assistant that runs as an agent with a memory, tools, sub-agents and scheduled
  tasks.  This theory imports the whole development; this text is its map.

  \<^bold>\<open>The program and its parts.\<close>  A message reaches \<open>Agent\<close> (\<open>crates/core/src/agent.rs\<close>).  A command on
  branches is answered at once; every other message passes the orchestrator (\<open>core/src/orchestrator\<close>), which
  recalls memories, notes a shift of topic, keeps the active context within its budget, asks the gate and
  chooses a route.  The message is answered by the exchange with the model or by sub-agents
  (\<open>core/src/delegation\<close>).  The exchange calls the model at most ten times, runs the tools it asks for, and
  redacts personal data before every call (\<open>crates/privacy\<close>).  What was said is put into the history of the
  channel and its stored turns, and facts, promises and exchanges go to the memory (\<open>core/src/memory\<close>), which
  forgets by policies (\<open>memory/forgetting\<close>) and is copied between devices (\<open>memory/store.rs\<close>,
  \<open>crates/sync\<close>).  Beside this stand the scheduler and the work items (\<open>crates/agenda\<close>), the audit log
  (\<open>crates/audit\<close>), the patch tool of the tool server (\<open>crates/mcp-server\<close>), and skills
  (\<open>crates/marketplace\<close>): a catalogue, an installer, a workshop for proposals and the discovery of what is
  installed.

  \<^bold>\<open>Theories and sources.\<close>  Paths are below \<open>crates/\<close>; a definition has the name of the function or type
  it models unless that name is taken.
  \<^item> \<open>Prelude\<close>: results, strings, numbers, hash maps and time stamps of the Rust standard library, and the
    contracts that several components share.  \<open>Effects\<close>: computations that change a state and may fail.
    \<open>Utf8\<close>: texts as bytes, cuts between characters, search, words.
  \<^item> \<open>Agenda\<close>: \<open>agenda/src/issue.rs\<close>, \<open>manager.rs\<close>.  \<open>Cron\<close>: the types, the matching of cron expressions
    and the commands of \<open>scheduler.rs\<close>, and \<open>self_update.rs\<close>.  \<open>Scheduler\<close>: the task table, its persistent
    copy and the loop as a step relation.
  \<^item> \<open>Sync\<close>: \<open>sync/src\<close>.  \<open>Audit_Log\<close>: \<open>audit/src\<close>.  \<open>Forgetting\<close>: \<open>core/src/memory/forgetting\<close>.
  \<^item> \<open>Delegation\<close>: registry, contexts, broker and aggregation of \<open>core/src/delegation\<close>.  \<open>Sessions\<close>: the
    sessions of sub-agents and their steering channels as a step relation.
  \<^item> \<open>Patch\<close>: \<open>mcp-server/src/patch.rs\<close> and the tool \<open>apply_patch\<close>.
  \<^item> \<open>Privacy\<close> models \<open>privacy/src/lib.rs\<close>; \<open>Redaction\<close> holds its properties.
  \<^item> \<open>Marketplace\<close>, \<open>Workshop\<close> and \<open>Skills\<close> model \<open>marketplace/src\<close>; \<open>Installation\<close> and \<open>Proposals\<close> hold
    the properties of the first two.
  \<^item> \<open>Memory_Store\<close> models \<open>core/src/memory/store.rs\<close>, \<open>Memory\<close> the files \<open>quality.rs\<close>, \<open>correction.rs\<close> and
    \<open>mod.rs\<close> beside it.  \<open>Memory_Contract\<close> states what the memory relies on and proves it of both stores;
    \<open>Remembering\<close> and \<open>Replication\<close> hold the properties.
  \<^item> \<open>Importance\<close> models the selection of messages in \<open>core/src/headroom.rs\<close>; \<open>Retention\<close> holds its properties.
  \<^item> \<open>Context\<close> and \<open>Orchestrator\<close> model \<open>context_manager.rs\<close>, \<open>router.rs\<close> and \<open>mod.rs\<close> of
    \<open>core/src/orchestrator\<close>, \<open>Routing\<close> its \<open>classifier.rs\<close> and the tiers of the agent; \<open>Preprocessing\<close> holds
    the properties of the first two.
  \<^item> \<open>Conversation\<close>, \<open>Model_Turns\<close>, \<open>Replies\<close> and \<open>Agent\<close> model \<open>core/src/agent.rs\<close>: histories and branches,
    the exchange with the model, what is kept of a reply, and the handlers that compose them.  \<open>Branching\<close>,
    \<open>Handling\<close> and \<open>Turn_Log\<close> hold their properties.
  \<^item> \<open>Primitives\<close> models \<open>core/src/orchestrator/pipeline.rs\<close>: recall by key terms, extraction, the sweep.
  \<^item> \<open>Model_Picker\<close>, \<open>Telegram\<close> and \<open>Telegram_Turns\<close> model \<open>channels/src\<close>: \<open>model_picker.rs\<close>, the texts and
    commands of \<open>telegram.rs\<close> with \<open>group_context.rs\<close>, and its turns with \<open>active_turns.rs\<close> and \<open>turn_ux.rs\<close> as
    a step relation.
  \<^item> \<open>Models\<close> models \<open>models/src/router.rs\<close>, \<open>config.rs\<close> and \<open>streaming.rs\<close>, \<open>core/src/model_chain.rs\<close> and
    \<open>core/src/orchestrator/invoke.rs\<close>.
  \<^item> \<open>Json_Values\<close>: accessors of JSON values and the contract of a state store.  \<open>Heartbeat\<close> models
    \<open>core/src/heartbeat.rs\<close>, \<open>Tool_State\<close>, \<open>Tool_Schedule\<close> and \<open>Canvas\<close> the counters and the tools for keys,
    settings, tables, scheduled tasks and canvases of \<open>mcp-server/src/radix_handler.rs\<close>, \<open>Hostkit\<close> the helpers of \<open>agens-hostkit/src/lib.rs\<close> and
    \<open>core/src/diagnostics.rs\<close>.

  \<^bold>\<open>Contracts.\<close>  Where a component relies on another, the laws are a locale whose instances are
  the model's own definitions: \<open>keyed_map\<close> (a hash map; \<open>hm\<close>), \<open>append_log\<close> (\<open>memory_log\<close>, \<open>forget_log\<close>,
  \<open>queue_log\<close>), \<open>one_shot\<close> (a decision taken once: \<open>pr\<close>, \<open>ps\<close>), \<open>lww\<close> (a merge that picks the newest:
  \<open>crdt\<close>, \<open>remote_wins\<close>), \<open>approval_gate\<close> (the four gates of forgetting), \<open>memory_store\<close> (what the memory
  expects of a store: \<open>vec\<close>, and the sublocale \<open>plures_store\<close> for every key-value store, codec and cipher with
  the stated laws), and \<open>turn_log\<close> (what a restart expects of the stored turns: \<open>vec_log\<close> and the sublocale
  \<open>plures_turn_store\<close>).

  \<^bold>\<open>What the lemmas show.\<close>  Each modelling theory proves the behaviour of its operations branch by branch;
  the properties stand in the theories named above.
  \<^item> Scheduling: two starts of a task are at least as far apart as the loop requires, a cron expression is due
    exactly when its fields match, and a restart finds the tasks that were saved.
  \<^item> Devices: replicas that saw the same records agree, and the queue delivers every message once.
  \<^item> Privacy: scrubbing replaces disjoint spans, a redaction is undone by its map, and what the model sees of a
    user's message has been redacted.  Findings are stated as theorems too: a span that crosses a replaced
    one leaks.
  \<^item> Conversations: what an exchange leaves in the history and in the store, that a restart restores the last
    512 turns, that branches stay well formed, that a tool result keeps its call, and where commands and
    failures lose a reply.
  \<^item> Memory: the two stores answer alike, an undone correction is the old state, a document is cut without loss
    and replaced as a whole, a purge removes what its policy says, and the ledger only grows.
  \<^item> Sub-agents: a session shows the result of its run, no accepted steering message is lost while it can be
    read, and a sub-task makes a bounded number of calls.
  \<^item> Channels and models: a steering message is accounted for or its turn has ended, a picker serves only its owner,
    a message is cut without loss, a stream of data lines is the same however its bytes are cut, and an answer
    comes from the first fallback that gives one.
  \<^item> Tools and hosts: the counters add up, the key-value tools are a map, a canvas stays valid, the agent is woken at
    most as often as the daily limit says, and a host learns of exactly the connections it shares.
  \<^item> Files: a patch is applied whole or not at all, a rendered patch is parsed back, and the workshop writes
    only below its root.

  \<^bold>\<open>Parameters.\<close>  What is not Rust of this repository or its standard library is an argument: the calendar
  and time stamps of \<open>chrono\<close>, regular expressions, Unicode tables, SHA-256, base64, the JSON codecs, the
  CRDT store and the cipher of PluresDB, the file system, floating-point arithmetic, the clients of models, the
  tool dispatchers and the procedures of PluresDB.  Random ids and readings of the clock are arguments of the
  operation that takes them.  Where a property needs a law of such a parameter, the law is a named predicate
  in its hypotheses, and a witness gives a concrete function that has it.

  \<^bold>\<open>Bounds and fuel.\<close>  Counters are words of their width where the code adds to them; byte offsets and lengths
  are naturals.  The exchange with the model ends after its ten turns and the loop of a sub-agent after the turns of its
  definition, as in the code.  Only the walk over a directory tree (\<open>ingest_dirs\<close>) has fuel, because links may
  close a cycle; running out of it is the value \<open>None\<close>, apart from every result of the code.  Loops over texts
  and lists are recursive functions with a termination proof.

  \<^bold>\<open>Not modelled.\<close>  Rendering and transport (\<open>tui\<close>, \<open>tauri-app\<close>, \<open>cli\<close>, the sockets of \<open>mcp-client\<close> and
  \<open>mcp-server\<close>, the Telegram client), the tools that call the shell, the web, media services, plugins or the
  procedures of PluresDB, the wiring of services in \<open>agens-plugin\<close>, the formatting of prompts, the bindings to native inference (\<open>bitnet\<close>, \<open>bitnet-sys\<close>), the
  computation of embeddings, and code that only passes its arguments to a crate outside the repository.  The
  noise of differential privacy and the count of losses in a forgetting drill are single-precision
  arithmetic.  Log lines, metrics and the timeline are left out of every operation.  Latencies, time-outs and
  the scheduling of tasks inside one section without an await are not observable in the model.
\<close>

end
